(* ===== verification/Flatfs_Prelude.thy ===== *)
theory Flatfs_Prelude
  imports Main "HOL-Library.Word"
begin

unbundle bit_operations_syntax

text \<open>
  Prelude of the development: the machine types of the module (gcc, x86-64, Linux kernel
  space), the result type of operations that may get stuck, the few facts about the target
  that the C standard leaves open (the \<open>platform\<close> record), C strings as byte lists, spin
  locks, and the generic lemmas on words and lists that the component theories share.

  A C \<open>int\<close> is a HOL \<open>int\<close>; every place where C converts a wider value to \<open>int\<close>, or
  shifts an \<open>int\<close>, goes through \<open>cint\<close>, the two's-complement wrap to 32 bits (the module is
  built with \<open>-fno-strict-overflow\<close>). An \<open>int\<close> that C converts to \<open>unsigned long\<close> or
  \<open>lba_t\<close> is \<open>word_of_int\<close> of it, which is sign extension.
\<close>

section \<open>Machine types\<close>

type_synonym u8 = "8 word"
type_synonym u16 = "16 word"
type_synonym u32 = "32 word"
type_synonym u64 = "64 word"
type_synonym lba_t = u64
type_synonym bytes = "u8 list"

definition cint :: "int \<Rightarrow> int" where
  "cint i = signed_take_bit 31 i"

section \<open>Results of operations\<close>

text \<open>
  Why an operation does not come back with a value: it spins on a lock that nobody will
  release, it indexes outside an array, it follows a null pointer, it follows a pointer to an
  object that was freed, or it runs into a \<open>BUG_ON\<close> of the kernel. \<open>OutOfFuel\<close> stands for a loop
  that is still running after the number of rounds it was given, \<open>Livelock\<close> for one that only the
  rest of the kernel can end and that has not ended in that many rounds.
\<close>

datatype stuck = Deadlock | OutOfBounds | NullDeref | UseAfterFree | KernelBug | OutOfFuel | Livelock

type_synonym 'a res = "stuck + 'a"

definition bind_res :: "'a res \<Rightarrow> ('a \<Rightarrow> 'b res) \<Rightarrow> 'b res" where
  "bind_res m f = (case m of Inl e \<Rightarrow> Inl e | Inr x \<Rightarrow> f x)"

named_theorems res_simps \<open>rewrites for results and their sequencing\<close>
named_theorems layout_simps \<open>the constants of the on-disk and inode number layout\<close>
named_theorems heap_simps \<open>rewrites for reads and writes of the modelled memory\<close>

lemma bind_res_Inr [simp, res_simps]: "bind_res (Inr x) f = f x"
  by (simp add: bind_res_def)

lemma bind_res_Inl [simp, res_simps]: "bind_res (Inl e) f = Inl e"
  by (simp add: bind_res_def)

lemma bind_res_eq_Inr [res_simps]:
  "bind_res m f = Inr y \<longleftrightarrow> (\<exists>x. m = Inr x \<and> f x = Inr y)"
  by (cases m) auto

lemma bind_res_eq_Inl [res_simps]:
  "bind_res m f = Inl e \<longleftrightarrow> m = Inl e \<or> (\<exists>x. m = Inr x \<and> f x = Inl e)"
  by (cases m) auto

lemma bind_res_assoc: "bind_res (bind_res m f) g = bind_res m (\<lambda>x. bind_res (f x) g)"
  by (cases m) auto

lemma bind_res_cong [fundef_cong]:
  "m = m' \<Longrightarrow> (\<And>x. m' = Inr x \<Longrightarrow> f x = f' x) \<Longrightarrow> bind_res m f = bind_res m' f'"
  by (cases m') auto

section \<open>The target\<close>

text \<open>
  What the sources do not determine about the machine and the kernel they run on.
  \<^item> \<open>pf_smp\<close>: whether \<open>spin_lock\<close> really spins (on a uniprocessor kernel it only disables
    preemption).
  \<^item> \<open>pf_shl_over\<close>: the value of a 64-bit left shift by 64 or more, which C leaves undefined.
  \<^item> \<open>pf_slack\<close>: how many zeroed 64-bit words of the same allocation follow the in-memory
    superblock (\<open>kzalloc\<close> rounds a large request up to a power of two of pages).
\<close>

record platform =
  pf_smp :: bool
  pf_shl_over :: "u64 \<Rightarrow> u64 \<Rightarrow> u64"
  pf_slack :: nat

definition x86_64_smp :: platform where
  "x86_64_smp = \<lparr>pf_smp = True, pf_shl_over = (\<lambda>x n. push_bit (unat n mod 64) x), pf_slack = 16284\<rparr>"

definition x86_64_up :: platform where
  "x86_64_up = x86_64_smp\<lparr>pf_smp := False\<rparr>"

lemma platform_sel [simp]:
  "pf_smp x86_64_smp" "\<not> pf_smp x86_64_up"
  "pf_shl_over x86_64_smp x n = push_bit (unat n mod 64) x"
  "pf_shl_over x86_64_up x n = push_bit (unat n mod 64) x"
  "pf_slack x86_64_smp = 16284" "pf_slack x86_64_up = 16284"
  by (simp_all add: x86_64_smp_def x86_64_up_def)

definition c_shl :: "platform \<Rightarrow> u64 \<Rightarrow> u64 \<Rightarrow> u64" where
  "c_shl P x n = (if unat n < 64 then push_bit (unat n) x else pf_shl_over P x n)"

definition spin_lock :: "platform \<Rightarrow> bool \<Rightarrow> bool res" where
  "spin_lock P held = (if pf_smp P \<and> held then Inl Deadlock else Inr True)"

lemma spin_lock_free [simp]: "spin_lock P False = Inr True"
  by (simp add: spin_lock_def)

lemma spin_lock_up [simp]: "\<not> pf_smp P \<Longrightarrow> spin_lock P held = Inr True"
  by (simp add: spin_lock_def)

lemma spin_lock_held [simp]: "pf_smp P \<Longrightarrow> spin_lock P True = Inl Deadlock"
  by (simp add: spin_lock_def)

lemma spin_lock_eq_Inr [res_simps]: "spin_lock P h = Inr l \<longleftrightarrow> l \<and> \<not> (pf_smp P \<and> h)"
  by (auto simp: spin_lock_def)

section \<open>C strings\<close>

text \<open>
  The contents of a C string in a buffer: the bytes before the first NUL. A scan that runs
  off the end of the buffer has left the object it was started in.
\<close>

definition cstr :: "bytes \<Rightarrow> bytes" where
  "cstr bs = takeWhile (\<lambda>c. c \<noteq> 0) bs"

fun c_strlen :: "bytes \<Rightarrow> nat res" where
  "c_strlen [] = Inl OutOfBounds"
| "c_strlen (c # cs) = (if c = 0 then Inr 0 else bind_res (c_strlen cs) (\<lambda>n. Inr (Suc n)))"

lemma cstr_append_nul [simp]: "0 \<notin> set s \<Longrightarrow> cstr (s @ 0 # r) = s"
  by (induction s) (auto simp: cstr_def)

lemma cstr_Nil [simp]: "cstr [] = []"
  by (simp add: cstr_def)

lemma cstr_no_nul [simp]: "0 \<notin> set (cstr bs)"
  by (auto simp: cstr_def dest: set_takeWhileD)

lemma cstr_id [simp]: "0 \<notin> set s \<Longrightarrow> cstr s = s"
  by (auto simp: cstr_def takeWhile_eq_all_conv)

lemma cstr_prefix_nul: "0 \<in> set a \<Longrightarrow> cstr (a @ b) = cstr a"
  by (auto simp: cstr_def takeWhile_append)

lemma cstr_len_less: "0 \<in> set a \<Longrightarrow> length (cstr a) < length a"
  unfolding cstr_def by (induction a) auto

lemma c_strlen_nul [simp]: "0 \<notin> set s \<Longrightarrow> c_strlen (s @ 0 # r) = Inr (length s)"
  by (induction s) auto

lemma c_strlen_cstr: "0 \<in> set bs \<Longrightarrow> c_strlen bs = Inr (length (cstr bs))"
  by (induction bs) (auto simp: cstr_def)

lemma c_strlen_off: "0 \<notin> set bs \<Longrightarrow> c_strlen bs = Inl OutOfBounds"
  by (induction bs) auto

section \<open>Lists\<close>

lemma find_snoc: "\<forall>x \<in> set xs. \<not> P x \<Longrightarrow> P y \<Longrightarrow> find P (xs @ [y]) = Some y"
  by (induction xs) auto

section \<open>Words\<close>

lemma unat_of_nat_less: "n < 2 ^ LENGTH('a) \<Longrightarrow> unat (of_nat n :: 'a::len word) = n"
  by (simp add: unat_of_nat take_bit_nat_eq_self)

lemma and_mask_mod: "(x :: 'a::len word) AND (2 ^ n - 1) = take_bit n x"
  by (simp add: take_bit_eq_mask mask_eq_exp_minus_1)

lemma unat_take_bit_less: "unat (take_bit n (x :: 'a::len word)) < 2 ^ n"
  by (simp add: unsigned_take_bit_eq)

lemma bit_push_or_take:
  fixes a b :: "'a::len word"
  assumes "take_bit n b = b"
  shows "take_bit n (push_bit n a OR b) = b" and "drop_bit n (push_bit n a OR b) = drop_bit n (push_bit n a)"
proof -
  have b: "\<not> bit b i" if "n \<le> i" for i
    using that assms by (metis bit_take_bit_iff not_le)
  show "take_bit n (push_bit n a OR b) = b"
    by (rule bit_word_eqI) (use b in \<open>auto simp: bit_simps not_le\<close>)
  show "drop_bit n (push_bit n a OR b) = drop_bit n (push_bit n a)"
    by (rule bit_word_eqI) (use b in \<open>auto simp: bit_simps\<close>)
qed

lemma take_bit_word_id: "unat (b :: 'a::len word) < 2 ^ n \<Longrightarrow> take_bit n b = b"
  by (metis take_bit_nat_eq_self unsigned_take_bit_eq word_unat_eq_iff)

lemma push_or_add:
  fixes a b :: "'a::len word"
  assumes "unat b < 2 ^ n"
  shows "push_bit n a OR b = push_bit n a + b"
proof -
  have "\<not> bit b i" if "n \<le> i" for i
    using that take_bit_word_id [OF assms] by (metis bit_take_bit_iff not_le)
  then have "push_bit n a AND b = 0"
    by (intro bit_word_eqI) (auto simp: bit_simps)
  then show ?thesis by (simp add: disjunctive_add_eq_or)
qed

lemma unat_push_add:
  fixes a b :: "'a::len word"
  assumes "unat a * 2 ^ n + unat b < 2 ^ LENGTH('a)"
  shows "unat (push_bit n a + b) = unat a * 2 ^ n + unat b"
proof -
  have "unat (push_bit n a) = unat a * 2 ^ n"
    using assms unfolding unsigned_push_bit_eq by (simp add: push_bit_eq_mult take_bit_nat_eq_self)
  with assms show ?thesis by (simp add: unat_word_ariths)
qed

lemma unat_push_or:
  fixes a b :: "'a::len word"
  assumes "unat b < 2 ^ n" "unat a * 2 ^ n + unat b < 2 ^ LENGTH('a)"
  shows "unat (push_bit n a OR b) = unat a * 2 ^ n + unat b"
  using assms by (simp add: push_or_add unat_push_add)

lemma digit_eq: "a * m + r = a' * m + r' \<Longrightarrow> r < m \<Longrightarrow> r' < m \<Longrightarrow> a = a' \<and> r = (r' :: nat)"
  by (metis add.commute add_left_cancel div_mult_self_is_m div_mult_self3 less_nat_zero_code mult.commute neq0_conv mod_less mod_mult_self3 add_right_cancel div_less add_0)

lemma unat_drop_bit: "unat (drop_bit n (x :: 'a::len word)) = unat x div 2 ^ n"
  unfolding unsigned_drop_bit_eq by (simp add: drop_bit_eq_div take_bit_nat_eq_self)

lemma drop_push_or:
  fixes a b :: "'a::len word"
  assumes "unat b < 2 ^ n" "unat a * 2 ^ n + unat b < 2 ^ LENGTH('a)"
  shows "drop_bit n (push_bit n a OR b) = a"
  unfolding word_unat_eq_iff unat_drop_bit unat_push_or [OF assms] using assms(1) by simp

lemma drop_push: "unat (a :: 'a::len word) * 2 ^ n < 2 ^ LENGTH('a) \<Longrightarrow> drop_bit n (push_bit n a) = a"
  using drop_push_or [of 0 n a] by simp

lemma uint_less_of_unat: "unat (d :: 'a::len word) < n \<Longrightarrow> uint d < int n"
  by (metis of_nat_less_iff of_nat_unat)

end
