(* ===== verification/Strhash.thy ===== *)
theory Strhash
  imports Flatfs_Prelude
begin

text \<open>
  The string hash of \<open>hash.c\<close> (used by the cuckoo table): a 64-bit hash that consumes the key
  in 32-byte stripes, then 8-byte, 4-byte and single-byte steps, and ends with an avalanche.
  The key is the list of the \<open>length\<close> bytes at \<open>data\<close>; loads are little-endian.
  The lemmas show that every step is a bijection of the 64-bit state: keys of eight bytes never
  collide, and two different seeds give different hashes of every key shorter than a stripe.
\<close>

section \<open>Definitions\<close>

definition NUMBER64_1 :: u64 where "NUMBER64_1 = 11400714785074694791"
definition NUMBER64_2 :: u64 where "NUMBER64_2 = 14029467366897019727"
definition NUMBER64_3 :: u64 where "NUMBER64_3 = 1609587929392839161"
definition NUMBER64_4 :: u64 where "NUMBER64_4 = 9650029242287828579"
definition NUMBER64_5 :: u64 where "NUMBER64_5 = 2870177450012600261"

definition shifting_hash :: "u64 \<Rightarrow> nat \<Rightarrow> u64" where
  "shifting_hash x r = push_bit r x OR drop_bit (64 - r) x"

primrec le_word :: "bytes \<Rightarrow> u64" where
  "le_word [] = 0"
| "le_word (b # bs) = ucast b OR push_bit 8 (le_word bs)"

definition TO64 :: "bytes \<Rightarrow> u64" where
  "TO64 p = le_word (take 8 p)"

definition TO32 :: "bytes \<Rightarrow> u32" where
  "TO32 p = ucast (le_word (take 4 p))"

definition hash_read64_align :: "bytes \<Rightarrow> u32 \<Rightarrow> u64" where
  "hash_read64_align ptr align = (if align = 0 then TO64 ptr else le_word (take 8 ptr))"

definition hash_read32_align :: "bytes \<Rightarrow> u32 \<Rightarrow> u32" where
  "hash_read32_align ptr align = (if align = 0 then TO32 ptr else ucast (le_word (take 4 ptr)))"

definition lane_round :: "u32 \<Rightarrow> bytes \<Rightarrow> u64 \<Rightarrow> u64" where
  "lane_round align p v =
     shifting_hash (v + hash_read64_align p align * NUMBER64_2) 31 * NUMBER64_1"

function stripe_loop :: "u32 \<Rightarrow> bytes \<Rightarrow> u64 \<times> u64 \<times> u64 \<times> u64 \<Rightarrow> bytes \<times> u64 \<times> u64 \<times> u64 \<times> u64" where
  "stripe_loop align p (v1, v2, v3, v4) =
     (let v1 = lane_round align p v1;
          v2 = lane_round align (drop 8 p) v2;
          v3 = lane_round align (drop 16 p) v3;
          v4 = lane_round align (drop 24 p) v4;
          p = drop 32 p
      in if 32 \<le> length p then stripe_loop align p (v1, v2, v3, v4) else (p, v1, v2, v3, v4))"
  by pat_completeness auto
termination
  by (relation "measure (\<lambda>(align, p, v). length p)") auto

declare stripe_loop.simps [simp del]

definition merge_lane :: "u64 \<Rightarrow> u64 \<Rightarrow> u64" where
  "merge_lane hash v =
     (hash XOR (shifting_hash (v * NUMBER64_2) 31 * NUMBER64_1)) * NUMBER64_1 + NUMBER64_4"

function tail8 :: "u32 \<Rightarrow> bytes \<Rightarrow> u64 \<Rightarrow> bytes \<times> u64" where
  "tail8 align p hash =
     (if 8 \<le> length p
      then let k1 = shifting_hash (hash_read64_align p align * NUMBER64_2) 31 * NUMBER64_1
           in tail8 align (drop 8 p) (shifting_hash (hash XOR k1) 27 * NUMBER64_1 + NUMBER64_4)
      else (p, hash))"
  by pat_completeness auto
termination
  by (relation "measure (\<lambda>(align, p, h). length p)") auto

declare tail8.simps [simp del]

definition tail4 :: "u32 \<Rightarrow> bytes \<Rightarrow> u64 \<Rightarrow> bytes \<times> u64" where
  "tail4 align p hash =
     (if 4 \<le> length p
      then (drop 4 p,
            shifting_hash (hash XOR ucast (hash_read32_align p align) * NUMBER64_1) 23 * NUMBER64_2
              + NUMBER64_3)
      else (p, hash))"

primrec tail1 :: "bytes \<Rightarrow> u64 \<Rightarrow> u64" where
  "tail1 [] hash = hash"
| "tail1 (b # p) hash = tail1 p (shifting_hash (hash XOR ucast b * NUMBER64_5) 11 * NUMBER64_1)"

definition avalanche :: "u64 \<Rightarrow> u64" where
  "avalanche hash =
     (let hash = hash XOR drop_bit 33 hash;
          hash = hash * NUMBER64_2;
          hash = hash XOR drop_bit 29 hash;
          hash = hash * NUMBER64_3
      in hash XOR drop_bit 32 hash)"

definition string_key_hash_computation :: "bytes \<Rightarrow> u64 \<Rightarrow> u32 \<Rightarrow> u64" where
  "string_key_hash_computation data seed align =
     (let (p, hash) =
        (if 32 \<le> length data
         then let (p, v1, v2, v3, v4) =
                    stripe_loop align data
                      (seed + NUMBER64_1 + NUMBER64_2, seed + NUMBER64_2, seed + 0, seed - NUMBER64_1);
                  hash = shifting_hash v1 1 + shifting_hash v2 7 + shifting_hash v3 12 + shifting_hash v4 18
              in (p, merge_lane (merge_lane (merge_lane (merge_lane hash v1) v2) v3) v4)
         else (data, seed + NUMBER64_5));
          hash = hash + of_nat (length data);
          (p, hash) = tail8 align p hash;
          (p, hash) = tail4 align p hash
      in avalanche (tail1 p hash))"

definition hash :: "u64 \<Rightarrow> bytes \<Rightarrow> u64 \<Rightarrow> u64" where
  "hash addr data seed =
     (if addr AND 7 = 0 then string_key_hash_computation data seed 1
      else string_key_hash_computation data seed 0)"

section \<open>Every step is a bijection of the state\<close>

named_theorems step_inj \<open>injectivity of the steps of the hash\<close>

lemma NUMBER64_inverse:
  "NUMBER64_1 * 614540362697595703 = 1"
  "NUMBER64_2 * 839798700976720815 = 1"
  "NUMBER64_3 * 16855272203555305545 = 1"
  "NUMBER64_5 * 14236653164957433613 = 1"
  by (simp_all add: NUMBER64_1_def NUMBER64_2_def NUMBER64_3_def NUMBER64_5_def)

lemma mult_unit_cancel:
  fixes c d x y :: u64
  assumes "c * d = 1"
  shows "x * c = y * c \<longleftrightarrow> x = y"
proof
  assume "x * c = y * c"
  then have "x * (c * d) = y * (c * d)" by (simp flip: mult.assoc)
  then show "x = y" by (simp add: assms)
qed simp

lemmas NUMBER64_cancel [step_inj] =
  NUMBER64_inverse(1) [THEN mult_unit_cancel] NUMBER64_inverse(2) [THEN mult_unit_cancel]
  NUMBER64_inverse(3) [THEN mult_unit_cancel] NUMBER64_inverse(4) [THEN mult_unit_cancel]

lemma xor_cancel [step_inj]:
  fixes x y z :: u64
  shows "x XOR z = y XOR z \<longleftrightarrow> x = y" and "z XOR x = z XOR y \<longleftrightarrow> x = y"
  by (auto simp: bit_eq_iff bit_simps)

lemma bit_shifting_hash:
  assumes "0 < r" "r < 64"
  shows "bit (shifting_hash x r) i \<longleftrightarrow>
    (if i < r then bit x (i + 64 - r) else i < 64 \<and> bit x (i - r))"
proof (cases "i < r")
  case True
  then show ?thesis using assms by (simp add: shifting_hash_def bit_simps add.commute)
next
  case False
  moreover have "\<not> bit x (64 - r + i)"
    using False by (auto dest!: bit_imp_le_length)
  ultimately show ?thesis using assms by (auto simp: shifting_hash_def bit_simps)
qed

lemma shifting_hash_inj:
  assumes r: "0 < r" "r < 64"
  shows "shifting_hash x r = shifting_hash y r \<longleftrightarrow> x = y"
proof
  assume eq: "shifting_hash x r = shifting_hash y r"
  show "x = y"
  proof (rule bit_word_eqI)
    fix n assume "n < LENGTH(64)"
    then have n: "n < 64" by simp
    let ?m = "(if n + r < 64 then n + r else n + r - 64)"
    have "bit (shifting_hash x r) ?m = bit x n" "bit (shifting_hash y r) ?m = bit y n"
      using n r by (auto simp: bit_shifting_hash)
    with eq show "bit x n = bit y n" by simp
  qed
qed simp

lemmas shifting_hash_cancel [step_inj] =
  shifting_hash_inj [of 11, simplified] shifting_hash_inj [of 23, simplified]
  shifting_hash_inj [of 27, simplified] shifting_hash_inj [of 31, simplified]

lemma xorshift_inj:
  fixes x y :: u64
  assumes k: "0 < k" and eq: "x XOR drop_bit k x = y XOR drop_bit k y"
  shows "x = y"
proof (rule bit_word_eqI)
  have step: "(bit x i \<noteq> bit x (i + k)) = (bit y i \<noteq> bit y (i + k))" for i
    using arg_cong [OF eq, of "\<lambda>w. bit w i"] by (simp add: bit_simps add.commute)
  have "bit x n = bit y n" for n
  proof (induction "64 - n" arbitrary: n rule: less_induct)
    case less
    show ?case
    proof (cases "n < 64")
      case True
      then have "bit x (n + k) = bit y (n + k)" using k by (intro less) auto
      with step [of n] show ?thesis by blast
    next
      case False
      then show ?thesis by (auto dest!: bit_imp_le_length)
    qed
  qed
  then show "bit x n = bit y n" if "n < LENGTH(64)" for n by simp
qed

lemma xorshift_cancel [step_inj]:
  fixes x y :: u64
  shows "x XOR drop_bit 33 x = y XOR drop_bit 33 y \<longleftrightarrow> x = y"
    and "x XOR drop_bit 29 x = y XOR drop_bit 29 y \<longleftrightarrow> x = y"
    and "x XOR drop_bit 32 x = y XOR drop_bit 32 y \<longleftrightarrow> x = y"
  by (auto intro: xorshift_inj [of 33] xorshift_inj [of 29] xorshift_inj [of 32])

lemma avalanche_cancel [step_inj]: "avalanche x = avalanche y \<longleftrightarrow> x = y"
  by (simp add: avalanche_def Let_def step_inj)

lemma tail1_cancel [step_inj]: "tail1 p x = tail1 p y \<longleftrightarrow> x = y"
  by (induction p arbitrary: x y) (simp_all add: step_inj)

lemma tail8_fst: "fst (tail8 align p x) = drop (8 * (length p div 8)) p"
proof (induction align p x rule: tail8.induct)
  case (1 align p x)
  show ?case
  proof (cases "8 \<le> length p")
    case True
    have "length p div 8 = Suc (length (drop 8 p) div 8)" using True by (simp add: le_div_geq)
    moreover have "fst (tail8 align p x) = drop (8 * (length (drop 8 p) div 8)) (drop 8 p)"
      unfolding tail8.simps [of align p x] Let_def if_P [OF True] by (rule 1 [OF True refl])
    ultimately show ?thesis by (simp add: add.commute)
  next
    case False
    then show ?thesis by (simp add: tail8.simps [of align p x])
  qed
qed

lemma tail8_cancel [step_inj]: "snd (tail8 align p x) = snd (tail8 align p y) \<longleftrightarrow> x = y"
proof (induction align p x arbitrary: y rule: tail8.induct)
  case (1 align p x)
  show ?case
  proof (cases "8 \<le> length p")
    case True
    show ?thesis
      unfolding tail8.simps [of align p x] tail8.simps [of align p y] Let_def if_P [OF True]
        1 [OF True refl] by (simp only: step_inj add_right_cancel)
  next
    case False
    then show ?thesis by (simp add: tail8.simps [of align p x] tail8.simps [of align p y])
  qed
qed

lemma tail4_fst: "fst (tail4 align p x) = (if 4 \<le> length p then drop 4 p else p)"
  by (simp add: tail4_def)

lemma tail4_cancel [step_inj]: "snd (tail4 align p x) = snd (tail4 align p y) \<longleftrightarrow> x = y"
  by (simp add: tail4_def step_inj)

section \<open>The two alignments compute the same value\<close>

lemma read_align [simp]:
  "hash_read64_align p a = TO64 p" "hash_read32_align p a = TO32 p"
  by (simp_all add: hash_read64_align_def hash_read32_align_def TO64_def TO32_def)

lemma lane_round_align: "lane_round a p v = lane_round b p v"
  by (simp add: lane_round_def)

lemma stripe_loop_align: "stripe_loop a p v = stripe_loop b p v"
proof (induction a p v rule: stripe_loop.induct)
  case (1 a p v1 v2 v3 v4)
  then show ?case
    by (simp add: stripe_loop.simps [of a p] stripe_loop.simps [of b p] Let_def lane_round_align [of a _ _ b])
qed

lemma tail8_align: "tail8 a p h = tail8 b p h"
proof (induction a p h rule: tail8.induct)
  case (1 a p h)
  then show ?case by (simp add: tail8.simps [of a p] tail8.simps [of b p] Let_def)
qed

lemma tail4_align: "tail4 a p h = tail4 b p h"
  by (simp add: tail4_def)

lemma computation_align:
  "string_key_hash_computation d s a = string_key_hash_computation d s b"
  by (simp add: string_key_hash_computation_def stripe_loop_align [of a _ _ b]
      tail8_align [of a _ _ b] tail4_align [of a _ _ b])

lemma hash_eq: "hash addr d s = string_key_hash_computation d s 0"
  by (simp add: hash_def computation_align [of d s 1 0])

section \<open>Loads\<close>

lemma le_word_bits: "length bs \<le> n \<Longrightarrow> take_bit (8 * n) (le_word bs) = le_word bs"
proof (induction bs arbitrary: n)
  case Nil
  then show ?case by simp
next
  case (Cons b bs)
  then obtain m where m: "n = Suc m" "length bs \<le> m" by (cases n) auto
  have "take_bit (8 * m) (le_word bs) = le_word bs" using m by (intro Cons.IH)
  then have bs: "\<not> bit (le_word bs) i" if "8 * m \<le> i" for i
    using that by (metis bit_take_bit_iff not_le)
  have b: "\<not> bit b i" if "8 \<le> i" for i using that by (auto dest: bit_imp_le_length)
  show ?case
    by (rule bit_word_eqI) (use b bs m in \<open>auto simp: bit_simps not_less\<close>)
qed

lemma le_word_low: "ucast (le_word (b # bs)) = b"
  by (rule bit_word_eqI) (auto simp: bit_simps)

lemma le_word_high:
  assumes "length bs \<le> 7"
  shows "drop_bit 8 (le_word (b # bs)) = le_word bs"
proof (rule bit_word_eqI)
  fix i assume "i < LENGTH(64)"
  have b: "\<not> bit b (8 + i)" by (auto dest: bit_imp_le_length)
  have "take_bit 56 (le_word bs) = le_word bs" using le_word_bits [OF assms] by simp
  then have "\<not> bit (le_word bs) i" if "56 \<le> i" using that by (metis bit_take_bit_iff not_le)
  with b show "bit (drop_bit 8 (le_word (b # bs))) i = bit (le_word bs) i"
    by (cases "i < 56") (auto simp: bit_simps)
qed

lemma le_word_inj: "length x = length y \<Longrightarrow> length x \<le> 8 \<Longrightarrow> le_word x = le_word y \<longleftrightarrow> x = y"
proof (induction x y rule: list_induct2)
  case (Cons b bs c cs)
  have "b = c \<and> bs = cs" if eq: "le_word (b # bs) = le_word (c # cs)"
  proof
    show "b = c" using arg_cong [OF eq, of "ucast :: u64 \<Rightarrow> u8"] by (simp only: le_word_low)
    have "length bs \<le> 7" "length cs \<le> 7" using Cons.hyps Cons.prems by simp_all
    then have "le_word bs = le_word cs"
      using arg_cong [OF eq, of "drop_bit 8"] by (simp only: le_word_high)
    then show "bs = cs" using Cons by simp
  qed
  then show ?case by auto
qed simp

section \<open>Collisions\<close>

lemma short_key_hash:
  assumes "length d < 32"
  shows "hash addr d s =
    (let t = tail8 0 d (s + NUMBER64_5 + of_nat (length d)); q = tail4 0 (fst t) (snd t)
     in avalanche (tail1 (fst q) (snd q)))"
  using assms by (simp add: hash_eq string_key_hash_computation_def Let_def case_prod_beta)

lemma key8_hash:
  assumes "length d = 8"
  shows "hash addr d s = avalanche
    (shifting_hash ((s + NUMBER64_5 + 8) XOR (shifting_hash (le_word d * NUMBER64_2) 31 * NUMBER64_1)) 27
      * NUMBER64_1 + NUMBER64_4)"
  using assms
  by (simp add: short_key_hash Let_def tail8.simps [of 0 d] tail8.simps [of 0 "[]"] tail4_def TO64_def)

text \<open>
  The hash does not depend on the address of the key: the aligned and the unaligned
  branch of \<open>hash()\<close> compute the same value for every key and seed.
\<close>
theorem hash_alignment_irrelevant: "hash addr d s = hash addr' d s"
  by (simp add: hash_eq)

text \<open>
  No two different eight-byte keys collide under one seed, wherever they are stored: on
  keys of that length \<open>hash()\<close> is injective.
\<close>
theorem hash_key8_injective:
  assumes "length x = 8" and "length y = 8"
  shows "hash addr x s = hash addr' y s \<longleftrightarrow> x = y"
  using assms by (simp add: key8_hash step_inj le_word_inj)

theorem hash_key8_injective_witness:
  "hash 0 [1,2,3,4,5,6,7,8] 42 \<noteq> hash 3 [1,2,3,4,5,6,7,9] 42"
  using hash_key8_injective [of "[1,2,3,4,5,6,7,8]" "[1,2,3,4,5,6,7,9]" 0 42 3] by simp

text \<open>
  For a key shorter than one 32-byte stripe the hash is injective in the seed: two
  different seeds always give two different hash values of the same key. This is what the
  cuckoo table needs from its two seeds.
\<close>
theorem hash_seed_injective:
  assumes "length d < 32"
  shows "hash addr d s = hash addr' d t \<longleftrightarrow> s = t"
  using assms by (simp add: short_key_hash Let_def step_inj tail8_fst tail4_fst)

theorem hash_seed_injective_witness: "hash 0 [65, 66] 1 \<noteq> hash 0 [65, 66] 2"
  using hash_seed_injective [of "[65, 66]" 0 1 0 2] by simp

end
