(* ===== verification/Cuckoo.thy ===== *)
theory Cuckoo
  imports Strhash
begin

text \<open>
  The cuckoo hash table of \<open>cuckoo_hash.c\<close>: two hash locations per key, four slots per bucket,
  a breadth-one eviction path of at most \<open>MAX_EVICTION\<close> moves, and a resize that doubles the
  table. This theory holds the state and the operations; \<open>Cuckoo_Insert\<close> and
  \<open>Cuckoo_Resize\<close> prove that they implement a finite map.

  The table is a function from cells (bucket, slot) to entries, read for buckets below
  \<open>capacity\<close> and slots below \<open>CUCKOO_HASH_ASSOC_NUM\<close>. Keys are compared with \<open>strcmp\<close> and
  hashed over \<open>strlen\<close> bytes, so what counts of a key is the C string at its address; for a key
  in the table that string runs on into the entry's value and the entries behind it when the four
  key bytes hold no NUL (\<open>slot_mem\<close>). A key argument is the memory at the caller's pointer.
  The address argument of \<open>hash\<close> is 0 throughout, since its result does not depend on it.

  \<open>table_len\<close> is the number of bytes that were allocated for the table. The source computes it as an
  \<open>unsigned long\<close> product that wraps, so the memory can be shorter than \<open>capacity\<close> buckets (\<open>table_fits\<close> says
  that it is not); what the operations read and write is modelled for the cells of a table that fits.
\<close>

section \<open>State\<close>

definition KEY_LEN :: nat where "KEY_LEN = 4"
definition VALUE_LEN :: nat where "VALUE_LEN = 8"
definition CUCKOO_HASH_ASSOC_NUM :: nat where "CUCKOO_HASH_ASSOC_NUM = 4"
definition RESIZE_FACTOR :: u64 where "RESIZE_FACTOR = 2"
definition MAX_EVICTION :: nat where "MAX_EVICTION = 16"

definition ENOSPC_ret :: u64 where "ENOSPC_ret = - 28"

datatype status_t = SUCCESS | FAIL | STATUS_ENOSPC

record entry_t =
  e_key :: bytes
  e_value :: bytes

type_synonym cell = "nat \<times> nat"

record path_node_t =
  pre_bucket :: nat
  pre_slot :: nat
  next_bucket :: nat
  next_slot :: nat

record cuckoo_hash_t =
  table :: "cell \<Rightarrow> entry_t"
  table_len :: u64
  capacity :: u64
  entry_num :: u64
  f_seed :: u64
  s_seed :: u64
  evict_path1 :: "nat \<Rightarrow> path_node_t"
  evict_path2 :: "nat \<Rightarrow> path_node_t"
  evict_len :: u64
  find_path_cnt :: u64
  resize_write :: u64
  init_write :: u64

text \<open>The size of \<open>bucket_t\<close>, and whether the allocated memory holds all the buckets.\<close>

definition BUCKET_T_BYTES :: nat where "BUCKET_T_BYTES = CUCKOO_HASH_ASSOC_NUM * (KEY_LEN + VALUE_LEN)"

definition table_fits :: "cuckoo_hash_t \<Rightarrow> bool" where
  "table_fits cuckoo \<longleftrightarrow> BUCKET_T_BYTES * unat (capacity cuckoo) \<le> unat (table_len cuckoo)"

definition zero_entry :: entry_t where
  "zero_entry = \<lparr>e_key = replicate KEY_LEN 0, e_value = replicate VALUE_LEN 0\<rparr>"

section \<open>Hash locations\<close>

definition F_HASH :: "cuckoo_hash_t \<Rightarrow> bytes \<Rightarrow> u64" where
  "F_HASH cuckoo key = hash 0 (cstr key) (f_seed cuckoo)"

definition S_HASH :: "cuckoo_hash_t \<Rightarrow> bytes \<Rightarrow> u64" where
  "S_HASH cuckoo key = hash 0 (cstr key) (s_seed cuckoo)"

definition F_IDX :: "u64 \<Rightarrow> u64 \<Rightarrow> u64" where
  "F_IDX hashKey cap = hashKey mod cap"

definition S_IDX :: "u64 \<Rightarrow> u64 \<Rightarrow> u64" where
  "S_IDX hashKey cap = hashKey mod cap"

definition f_idx :: "cuckoo_hash_t \<Rightarrow> bytes \<Rightarrow> nat" where
  "f_idx cuckoo key = unat (F_IDX (F_HASH cuckoo key) (capacity cuckoo))"

definition s_idx :: "cuckoo_hash_t \<Rightarrow> bytes \<Rightarrow> nat" where
  "s_idx cuckoo key = unat (S_IDX (S_HASH cuckoo key) (capacity cuckoo))"

section \<open>Reading the table\<close>

definition slot_mem :: "(cell \<Rightarrow> entry_t) \<Rightarrow> nat \<Rightarrow> cell \<Rightarrow> bytes" where
  "slot_mem tab cap c =
     concat (map (\<lambda>i. let e = tab (i div CUCKOO_HASH_ASSOC_NUM, i mod CUCKOO_HASH_ASSOC_NUM)
                      in e_key e @ e_value e)
       [fst c * CUCKOO_HASH_ASSOC_NUM + snd c..<cap * CUCKOO_HASH_ASSOC_NUM])"

definition slot_key :: "cuckoo_hash_t \<Rightarrow> cell \<Rightarrow> bytes" where
  "slot_key cuckoo c = slot_mem (table cuckoo) (unat (capacity cuckoo)) c"

definition slot_invalid :: "(cell \<Rightarrow> entry_t) \<Rightarrow> cell \<Rightarrow> bool" where
  "slot_invalid tab c \<longleftrightarrow> cstr (e_key (tab c)) = []"

definition key_matches :: "cuckoo_hash_t \<Rightarrow> cell \<Rightarrow> bytes \<Rightarrow> bool" where
  "key_matches cuckoo c key \<longleftrightarrow>
     take (Suc (length (cstr key))) (slot_key cuckoo c) = cstr key @ [0]"

definition store :: "(cell \<Rightarrow> entry_t) \<Rightarrow> cell \<Rightarrow> bytes \<Rightarrow> bytes \<Rightarrow> (cell \<Rightarrow> entry_t)" where
  "store tab c key value = tab(c := \<lparr>e_key = take KEY_LEN key, e_value = take VALUE_LEN value\<rparr>)"

section \<open>Seeds and construction\<close>

partial_function (option) generate_seeds :: "(nat \<Rightarrow> u64) \<Rightarrow> nat \<Rightarrow> (u64 \<times> u64 \<times> nat) option" where
  "generate_seeds rnd n =
     (let f = push_bit (unat (rnd (n + 2) mod 63)) (rnd n);
          s = push_bit (unat (rnd (n + 3) mod 63)) (rnd (n + 1))
      in if f = s then generate_seeds rnd (n + 4) else Some (f, s, n + 4))"

definition cuckoo_hash_init ::
  "(nat \<Rightarrow> u64) \<Rightarrow> bool \<Rightarrow> bool \<Rightarrow> bool \<Rightarrow> bool \<Rightarrow> (nat \<Rightarrow> path_node_t) \<Rightarrow> u64 \<Rightarrow> (status_t + cuckoo_hash_t) option" where
  "cuckoo_hash_init rnd cuckoo_ok path1_ok path2_ok table_ok junk cap =
     (if \<not> cuckoo_ok then Some (Inl STATUS_ENOSPC)
      else if \<not> path1_ok \<or> \<not> path2_ok then Some (Inl STATUS_ENOSPC)
      else if \<not> table_ok then Some (Inl STATUS_ENOSPC)
      else map_option (\<lambda>(f, s, n).
        Inr \<lparr>table = (\<lambda>_. zero_entry), table_len = of_nat BUCKET_T_BYTES * cap, capacity = cap, entry_num = 0, f_seed = f, s_seed = s,
             evict_path1 = junk, evict_path2 = junk, evict_len = 0, find_path_cnt = 0,
             resize_write = 0, init_write = cap * of_nat CUCKOO_HASH_ASSOC_NUM\<rparr>)
        (generate_seeds rnd 0))"

section \<open>Eviction paths\<close>

definition free_slot :: "(cell \<Rightarrow> entry_t) \<Rightarrow> nat \<Rightarrow> nat option" where
  "free_slot tab b = find (\<lambda>i. slot_invalid tab (b, i)) [0..<CUCKOO_HASH_ASSOC_NUM]"

definition evict_bucket :: "cuckoo_hash_t \<Rightarrow> cell \<Rightarrow> nat option" where
  "evict_bucket cuckoo c =
     (let key = slot_key cuckoo c
      in if f_idx cuckoo key = fst c then Some (s_idx cuckoo key)
         else if s_idx cuckoo key = fst c then Some (f_idx cuckoo key)
         else None)"

function find_path_loop ::
  "cuckoo_hash_t \<Rightarrow> cell \<Rightarrow> nat \<Rightarrow> (nat \<Rightarrow> path_node_t) \<Rightarrow> u64 \<Rightarrow> u64 \<times> (nat \<Rightarrow> path_node_t) \<times> u64" where
  "find_path_loop cuckoo cur used paths cnt =
     (if used < MAX_EVICTION
      then case evict_bucket cuckoo cur of
             None \<Rightarrow> (ENOSPC_ret, paths, cnt + 1)
           | Some eb \<Rightarrow>
               (case free_slot (table cuckoo) eb of
                  Some i \<Rightarrow>
                    (of_nat (Suc used),
                     paths(used := \<lparr>pre_bucket = fst cur, pre_slot = snd cur,
                                    next_bucket = eb, next_slot = i\<rparr>), cnt + 1)
                | None \<Rightarrow>
                    find_path_loop cuckoo (eb, CUCKOO_HASH_ASSOC_NUM - 1) (Suc used)
                      (paths(used := \<lparr>pre_bucket = fst cur, pre_slot = snd cur,
                                      next_bucket = eb, next_slot = CUCKOO_HASH_ASSOC_NUM - 1\<rparr>))
                      (cnt + 1))
      else (0, paths, cnt))"
  by pat_completeness auto
termination
  by (relation "measure (\<lambda>(cuckoo, cur, used, paths, cnt). MAX_EVICTION - used)") auto

declare find_path_loop.simps [simp del]

definition find_path :: "cuckoo_hash_t \<Rightarrow> nat \<Rightarrow> nat \<Rightarrow> int \<Rightarrow> u64 \<times> cuckoo_hash_t" where
  "find_path cuckoo bucket slot path =
     (let (r, paths, cnt) =
        find_path_loop cuckoo (bucket, slot) 0
          (if path = 1 then evict_path1 cuckoo else evict_path2 cuckoo) (find_path_cnt cuckoo)
      in (r, if path = 1 then cuckoo\<lparr>evict_path1 := paths, find_path_cnt := cnt\<rparr>
             else cuckoo\<lparr>evict_path2 := paths, find_path_cnt := cnt\<rparr>))"

primrec execute_path_loop :: "(cell \<Rightarrow> entry_t) \<Rightarrow> (nat \<Rightarrow> path_node_t) \<Rightarrow> nat \<Rightarrow> (cell \<Rightarrow> entry_t)" where
  "execute_path_loop tab paths 0 = tab"
| "execute_path_loop tab paths (Suc i) =
     (let pre = tab (pre_bucket (paths i), pre_slot (paths i))
      in execute_path_loop
           (tab((next_bucket (paths i), next_slot (paths i)) :=
              \<lparr>e_key = e_key pre, e_value = e_value pre\<rparr>)) paths i)"

definition execute_path :: "cuckoo_hash_t \<Rightarrow> (nat \<Rightarrow> path_node_t) \<Rightarrow> u64 \<Rightarrow> cuckoo_hash_t" where
  "execute_path cuckoo paths path_len =
     cuckoo\<lparr>table := execute_path_loop (table cuckoo) paths (nat (sint (path_len - 1) + 1))\<rparr>"

section \<open>Insert, update, query\<close>

fun insert_free :: "cuckoo_hash_t \<Rightarrow> bytes \<Rightarrow> bytes \<Rightarrow> nat list \<Rightarrow> cuckoo_hash_t option" where
  "insert_free cuckoo key value [] = None"
| "insert_free cuckoo key value (i # is) =
     (if slot_invalid (table cuckoo) (f_idx cuckoo key, i)
      then Some (cuckoo\<lparr>table := store (table cuckoo) (f_idx cuckoo key, i) key value,
                        entry_num := entry_num cuckoo + 1\<rparr>)
      else if slot_invalid (table cuckoo) (s_idx cuckoo key, i)
      then Some (cuckoo\<lparr>table := store (table cuckoo) (s_idx cuckoo key, i) key value,
                        entry_num := entry_num cuckoo + 1\<rparr>)
      else insert_free cuckoo key value is)"

fun insert_evict :: "cuckoo_hash_t \<Rightarrow> bytes \<Rightarrow> bytes \<Rightarrow> nat list \<Rightarrow> status_t \<times> cuckoo_hash_t" where
  "insert_evict cuckoo key value [] = (FAIL, cuckoo)"
| "insert_evict cuckoo key value (i # is) =
     (let (path_len1, cuckoo) = find_path cuckoo (f_idx cuckoo key) i 1;
          (path_len2, cuckoo) = find_path cuckoo (s_idx cuckoo key) i 2
      in if path_len1 = 0 \<and> path_len2 = 0 then insert_evict cuckoo key value is
         else let (path, path_len, tmp_idx) =
                (if path_len1 = 0 then (evict_path2 cuckoo, path_len2, s_idx cuckoo key)
                 else if path_len2 = 0 then (evict_path1 cuckoo, path_len1, f_idx cuckoo key)
                 else if path_len1 < path_len2 then (evict_path1 cuckoo, path_len1, f_idx cuckoo key)
                 else (evict_path2 cuckoo, path_len2, s_idx cuckoo key));
                  cuckoo = execute_path cuckoo path path_len
              in (SUCCESS,
                  cuckoo\<lparr>evict_len := evict_len cuckoo + path_len,
                         table := store (table cuckoo) (tmp_idx, i) key value,
                         entry_num := entry_num cuckoo + 1\<rparr>))"

definition cuckoo_insert :: "cuckoo_hash_t \<Rightarrow> bytes \<Rightarrow> bytes \<Rightarrow> status_t \<times> cuckoo_hash_t" where
  "cuckoo_insert cuckoo key value =
     (case insert_free cuckoo key value [0..<CUCKOO_HASH_ASSOC_NUM] of
        Some cuckoo' \<Rightarrow> (SUCCESS, cuckoo')
      | None \<Rightarrow> insert_evict cuckoo key value [0..<CUCKOO_HASH_ASSOC_NUM])"

fun probe :: "cuckoo_hash_t \<Rightarrow> bytes \<Rightarrow> nat list \<Rightarrow> cell option" where
  "probe cuckoo key [] = None"
| "probe cuckoo key (i # is) =
     (if key_matches cuckoo (f_idx cuckoo key, i) key then Some (f_idx cuckoo key, i)
      else if key_matches cuckoo (s_idx cuckoo key, i) key then Some (s_idx cuckoo key, i)
      else probe cuckoo key is)"

definition cuckoo_update :: "cuckoo_hash_t \<Rightarrow> bytes \<Rightarrow> bytes \<Rightarrow> status_t \<times> cuckoo_hash_t" where
  "cuckoo_update cuckoo key value =
     (case probe cuckoo key [0..<CUCKOO_HASH_ASSOC_NUM] of
        None \<Rightarrow> (FAIL, cuckoo)
      | Some c \<Rightarrow>
          (SUCCESS, cuckoo\<lparr>table := (table cuckoo)(c := (table cuckoo c)\<lparr>e_value := take VALUE_LEN value\<rparr>)\<rparr>))"

definition cuckoo_query :: "cuckoo_hash_t \<Rightarrow> bytes \<Rightarrow> status_t \<times> bytes option" where
  "cuckoo_query cuckoo key =
     (case probe cuckoo key [0..<CUCKOO_HASH_ASSOC_NUM] of
        None \<Rightarrow> (FAIL, None)
      | Some c \<Rightarrow> (SUCCESS, Some (e_value (table cuckoo c))))"

section \<open>Resize\<close>

fun place_either :: "(cell \<Rightarrow> entry_t) \<Rightarrow> nat \<Rightarrow> nat \<Rightarrow> entry_t \<Rightarrow> nat list \<Rightarrow> (cell \<Rightarrow> entry_t) option" where
  "place_either tab f s e [] = None"
| "place_either tab f s e (k # ks) =
     (if slot_invalid tab (f, k) then Some (tab((f, k) := e))
      else if slot_invalid tab (s, k) then Some (tab((s, k) := e))
      else place_either tab f s e ks)"

fun place_one :: "(cell \<Rightarrow> entry_t) \<Rightarrow> nat \<Rightarrow> entry_t \<Rightarrow> nat list \<Rightarrow> (cell \<Rightarrow> entry_t) option" where
  "place_one tab b e [] = None"
| "place_one tab b e (k # ks) =
     (if slot_invalid tab (b, k) then Some (tab((b, k) := e)) else place_one tab b e ks)"

definition rehash_slot :: "cuckoo_hash_t \<Rightarrow> u64 \<Rightarrow> cell \<Rightarrow> (cell \<Rightarrow> entry_t) \<Rightarrow> (cell \<Rightarrow> entry_t) option" where
  "rehash_slot cuckoo new_cap c new_table =
     (if slot_invalid (table cuckoo) c then Some new_table
      else let key = slot_key cuckoo c;
               fi = unat (F_IDX (F_HASH cuckoo key) new_cap);
               si = unat (S_IDX (S_HASH cuckoo key) new_cap);
               f_off = f_idx cuckoo key;
               s_off = s_idx cuckoo key;
               e = \<lparr>e_key = e_key (table cuckoo c), e_value = e_value (table cuckoo c)\<rparr>
           in if f_off = s_off then place_either new_table fi si e [0..<CUCKOO_HASH_ASSOC_NUM]
              else if f_off = fst c then place_one new_table fi e [0..<CUCKOO_HASH_ASSOC_NUM]
              else if s_off = fst c then place_one new_table si e [0..<CUCKOO_HASH_ASSOC_NUM]
              else None)"

fun rehash_cells :: "cuckoo_hash_t \<Rightarrow> u64 \<Rightarrow> cell list \<Rightarrow> (cell \<Rightarrow> entry_t) \<Rightarrow> (cell \<Rightarrow> entry_t) option" where
  "rehash_cells cuckoo new_cap [] new_table = Some new_table"
| "rehash_cells cuckoo new_cap (c # cs) new_table =
     (case rehash_slot cuckoo new_cap c new_table of
        None \<Rightarrow> None
      | Some new_table' \<Rightarrow> rehash_cells cuckoo new_cap cs new_table')"

definition table_cells :: "nat \<Rightarrow> cell list" where
  "table_cells cap = List.product [0..<cap] [0..<CUCKOO_HASH_ASSOC_NUM]"

definition cuckoo_resize :: "cuckoo_hash_t \<Rightarrow> bool \<Rightarrow> status_t \<times> cuckoo_hash_t" where
  "cuckoo_resize cuckoo alloc_ok =
     (let new_cap = capacity cuckoo * RESIZE_FACTOR
      in if \<not> alloc_ok then (STATUS_ENOSPC, cuckoo)
         else let cuckoo = cuckoo\<lparr>init_write := init_write cuckoo + new_cap * of_nat CUCKOO_HASH_ASSOC_NUM\<rparr>
              in case rehash_cells cuckoo new_cap (table_cells (unat (capacity cuckoo))) (\<lambda>_. zero_entry) of
                   None \<Rightarrow> (STATUS_ENOSPC, cuckoo)
                 | Some new_table \<Rightarrow>
                     (SUCCESS, cuckoo\<lparr>capacity := new_cap, table := new_table, table_len := new_cap * of_nat BUCKET_T_BYTES,
                                      resize_write := resize_write cuckoo + entry_num cuckoo\<rparr>))"

end
