(* ===== verification/Cuckoo_Insert.thy ===== *)
theory Cuckoo_Insert
  imports Cuckoo
begin

text \<open>
  The invariant of the cuckoo table, the finite map it stands for, and the proof that insert,
  update and query implement that map. The eviction path is the hard part: the cells of a path
  that \<open>find_path\<close> returns are pairwise distinct, because a repeated cell would repeat for ever
  and never reach a free slot, so \<open>execute_path\<close> moves every evicted entry without loss.
\<close>

declare split_paired_All [simp del] split_paired_Ex [simp del]

section \<open>Invariant and abstraction\<close>

definition wf_entry :: "entry_t \<Rightarrow> bool" where
  "wf_entry e \<longleftrightarrow> length (e_key e) = KEY_LEN \<and> length (e_value e) = VALUE_LEN \<and> 0 \<in> set (e_key e)"

definition cell_key :: "cuckoo_hash_t \<Rightarrow> cell \<Rightarrow> bytes" where
  "cell_key c x = cstr (e_key (table c x))"

definition cells :: "cuckoo_hash_t \<Rightarrow> cell list" where
  "cells c = table_cells (unat (capacity c))"

definition occupied :: "cuckoo_hash_t \<Rightarrow> cell list" where
  "occupied c = filter (\<lambda>x. \<not> slot_invalid (table c) x) (cells c)"

definition cuckoo_inv :: "cuckoo_hash_t \<Rightarrow> bool" where
  "cuckoo_inv c \<longleftrightarrow>
     0 < capacity c \<and>
     (\<forall>x \<in> set (cells c). wf_entry (table c x)) \<and>
     (\<forall>x \<in> set (occupied c). fst x = f_idx c (cell_key c x) \<or> fst x = s_idx c (cell_key c x)) \<and>
     distinct (map (cell_key c) (occupied c))"

definition cuckoo_map :: "cuckoo_hash_t \<Rightarrow> bytes \<rightharpoonup> bytes" where
  "cuckoo_map c = map_of (map (\<lambda>x. (cell_key c x, e_value (table c x))) (occupied c))"

definition wf_key :: "bytes \<Rightarrow> bool" where
  "wf_key key \<longleftrightarrow> KEY_LEN \<le> length key \<and> 0 \<in> set (take KEY_LEN key) \<and> cstr key \<noteq> []"

definition wf_value :: "bytes \<Rightarrow> bool" where
  "wf_value v \<longleftrightarrow> VALUE_LEN \<le> length v"

lemma in_cells [simp]: "x \<in> set (cells c) \<longleftrightarrow> fst x < unat (capacity c) \<and> snd x < 4"
  by (cases x) (simp add: cells_def table_cells_def CUCKOO_HASH_ASSOC_NUM_def)

lemma distinct_cells [simp]: "distinct (cells c)"
  by (simp add: cells_def table_cells_def distinct_product)

lemma in_occupied:
  "x \<in> set (occupied c) \<longleftrightarrow> x \<in> set (cells c) \<and> cell_key c x \<noteq> []"
  by (simp add: occupied_def cell_key_def slot_invalid_def)

lemma distinct_occupied [simp]: "distinct (occupied c)"
  by (simp add: occupied_def)

lemma slot_invalid_key: "slot_invalid (table c) x \<longleftrightarrow> cell_key c x = []"
  by (simp add: slot_invalid_def cell_key_def)

lemma inv_keys_inj: "cuckoo_inv c \<Longrightarrow> inj_on (cell_key c) (set (occupied c))"
  by (simp add: cuckoo_inv_def distinct_map)

lemma cuckoo_map_iff:
  assumes "cuckoo_inv c"
  shows "cuckoo_map c k = Some v \<longleftrightarrow>
    (\<exists>x \<in> set (occupied c). cell_key c x = k \<and> e_value (table c x) = v)"
proof -
  have "distinct (map fst (map (\<lambda>x. (cell_key c x, e_value (table c x))) (occupied c)))"
    using assms by (simp add: cuckoo_inv_def comp_def)
  from map_of_eq_Some_iff [OF this] show ?thesis
    by (force simp: cuckoo_map_def)
qed

lemma cuckoo_map_cell:
  "cuckoo_inv c \<Longrightarrow> x \<in> set (occupied c) \<Longrightarrow> cuckoo_map c (cell_key c x) = Some (e_value (table c x))"
  using cuckoo_map_iff by blast

lemma cuckoo_map_domE:
  assumes "cuckoo_inv c" "k \<in> dom (cuckoo_map c)"
  obtains x where "x \<in> set (occupied c)" "cell_key c x = k" "cuckoo_map c k = Some (e_value (table c x))"
  using assms cuckoo_map_iff by (metis domD)

lemma cuckoo_map_None_iff: "cuckoo_map c k = None \<longleftrightarrow> k \<notin> cell_key c ` set (occupied c)"
  by (auto simp: cuckoo_map_def map_of_eq_None_iff image_iff)

section \<open>Strings in the table\<close>

lemma cstr_take_key: "wf_key key \<Longrightarrow> cstr (take KEY_LEN key) = cstr key"
  by (metis append_take_drop_id cstr_prefix_nul wf_key_def)

lemma slot_mem_entry:
  assumes "b < cap" "s < 4"
  shows "\<exists>r. slot_mem tab cap (b, s) = e_key (tab (b, s)) @ e_value (tab (b, s)) @ r"
proof -
  have "b * 4 + s < cap * 4" using assms by simp
  then have "[b * 4 + s..<cap * 4] = (b * 4 + s) # [Suc (b * 4 + s)..<cap * 4]"
    by (rule upt_conv_Cons)
  moreover have "(b * 4 + s) div 4 = b" "(b * 4 + s) mod 4 = s" using assms(2) by simp_all
  ultimately show ?thesis
    by (auto simp: slot_mem_def CUCKOO_HASH_ASSOC_NUM_def Let_def)
qed

lemma slot_mem_split: "b < cap \<Longrightarrow> s < 4 \<Longrightarrow> \<exists>r. slot_mem tab cap (b, s) = e_key (tab (b, s)) @ r"
  using slot_mem_entry by blast

lemma slot_key_cstr:
  assumes "cuckoo_inv c" "x \<in> set (cells c)"
  shows "cstr (slot_key c x) = cell_key c x"
proof -
  obtain r where "slot_key c x = e_key (table c x) @ r"
    using slot_mem_split [of "fst x" "unat (capacity c)" "snd x" "table c"] assms(2)
    by (auto simp: slot_key_def)
  moreover have "0 \<in> set (e_key (table c x))"
    using assms by (auto simp: cuckoo_inv_def wf_entry_def simp del: in_cells)
  ultimately show ?thesis by (simp add: cell_key_def cstr_prefix_nul)
qed

lemma match_prefix_iff:
  "0 \<in> set a \<Longrightarrow> 0 \<notin> set k \<Longrightarrow> take (Suc (length k)) (a @ r) = k @ [0] \<longleftrightarrow> cstr a = k"
proof (induction a arbitrary: k)
  case (Cons x a)
  then show ?case by (cases k) (auto simp: cstr_def)
qed simp

lemma key_matches_iff:
  assumes "cuckoo_inv c" "x \<in> set (cells c)"
  shows "key_matches c x key \<longleftrightarrow> cell_key c x = cstr key"
proof -
  obtain r where "slot_key c x = e_key (table c x) @ r"
    using slot_mem_split [of "fst x" "unat (capacity c)" "snd x" "table c"] assms(2)
    by (auto simp: slot_key_def)
  moreover have "0 \<in> set (e_key (table c x))"
    using assms by (auto simp: cuckoo_inv_def wf_entry_def simp del: in_cells)
  ultimately show ?thesis
    by (simp add: key_matches_def cell_key_def match_prefix_iff del: take_append)
qed

lemma idx_cong:
  "cstr k = cstr k' \<Longrightarrow> f_idx c k = f_idx c k'" "cstr k = cstr k' \<Longrightarrow> s_idx c k = s_idx c k'"
  by (simp_all add: f_idx_def s_idx_def F_HASH_def S_HASH_def)

lemma idx_cstr [simp]: "f_idx c (cstr k) = f_idx c k" "s_idx c (cstr k) = s_idx c k"
  by (auto intro!: idx_cong)

lemma unat_mod_less: "0 < (cap :: u64) \<Longrightarrow> unat (h mod cap) < unat cap"
  by (simp add: unat_mod_distrib word_gt_0_no unat_gt_0 word_neq_0_conv)

lemma idx_less:
  assumes "cuckoo_inv c"
  shows "f_idx c k < unat (capacity c)" "s_idx c k < unat (capacity c)"
  using assms by (auto simp: f_idx_def s_idx_def F_IDX_def S_IDX_def cuckoo_inv_def intro: unat_mod_less)

section \<open>Eviction paths\<close>

definition evict_succ :: "cuckoo_hash_t \<Rightarrow> cell \<Rightarrow> cell" where
  "evict_succ c x =
     (let eb = the (evict_bucket c x)
      in (eb, case free_slot (table c) eb of Some i \<Rightarrow> i | None \<Rightarrow> CUCKOO_HASH_ASSOC_NUM - 1))"

definition path_node :: "cell \<Rightarrow> cell \<Rightarrow> path_node_t" where
  "path_node x y = \<lparr>pre_bucket = fst x, pre_slot = snd x, next_bucket = fst y, next_slot = snd y\<rparr>"

lemma free_slot_Some: "free_slot tab b = Some i \<Longrightarrow> i < 4 \<and> slot_invalid tab (b, i)"
  by (auto simp: free_slot_def find_Some_iff CUCKOO_HASH_ASSOC_NUM_def)

lemma free_slot_None: "free_slot tab b = None \<longleftrightarrow> (\<forall>i<4. \<not> slot_invalid tab (b, i))"
  by (auto simp: free_slot_def find_None_iff CUCKOO_HASH_ASSOC_NUM_def)

lemma evict_bucket_occupied:
  assumes inv: "cuckoo_inv c" and x: "x \<in> set (occupied c)"
  obtains eb where "evict_bucket c x = Some eb" "eb < unat (capacity c)"
    "eb = f_idx c (cell_key c x) \<or> eb = s_idx c (cell_key c x)"
proof -
  have k: "f_idx c (slot_key c x) = f_idx c (cell_key c x)" "s_idx c (slot_key c x) = s_idx c (cell_key c x)"
    using slot_key_cstr [OF inv] x by (simp_all add: in_occupied del: in_cells) (metis idx_cstr)+
  have "fst x = f_idx c (cell_key c x) \<or> fst x = s_idx c (cell_key c x)"
    using inv x by (auto simp: cuckoo_inv_def)
  then show thesis
    using that [of "if f_idx c (cell_key c x) = fst x then s_idx c (cell_key c x) else f_idx c (cell_key c x)"]
      idx_less [OF inv] by (auto simp: evict_bucket_def Let_def k split: if_splits)
qed

lemma evict_succ_bucket:
  assumes "cuckoo_inv c" "x \<in> set (occupied c)"
  shows "fst (evict_succ c x) = f_idx c (cell_key c x) \<or> fst (evict_succ c x) = s_idx c (cell_key c x)"
    and "evict_succ c x \<in> set (cells c)"
    and "evict_succ c x \<notin> set (occupied c) \<longleftrightarrow> free_slot (table c) (fst (evict_succ c x)) \<noteq> None"
proof -
  obtain eb where eb: "evict_bucket c x = Some eb" "eb < unat (capacity c)"
    "eb = f_idx c (cell_key c x) \<or> eb = s_idx c (cell_key c x)"
    using evict_bucket_occupied [OF assms] .
  then show "fst (evict_succ c x) = f_idx c (cell_key c x) \<or> fst (evict_succ c x) = s_idx c (cell_key c x)"
    by (simp add: evict_succ_def Let_def)
  have s: "snd (evict_succ c x) < 4"
    using free_slot_Some [of "table c" eb]
    by (auto simp: evict_succ_def Let_def eb CUCKOO_HASH_ASSOC_NUM_def split: option.split)
  with eb show "evict_succ c x \<in> set (cells c)"
    by (simp add: evict_succ_def Let_def)
  with s show "evict_succ c x \<notin> set (occupied c) \<longleftrightarrow> free_slot (table c) (fst (evict_succ c x)) \<noteq> None"
    using free_slot_Some [of "table c" eb] free_slot_None [of "table c" eb]
    by (cases "free_slot (table c) eb")
      (auto simp: evict_succ_def Let_def eb occupied_def CUCKOO_HASH_ASSOC_NUM_def)
qed

text \<open>What a successful search of \<open>find_path\<close> leaves in the path array.\<close>

definition path_found :: "cuckoo_hash_t \<Rightarrow> cell \<Rightarrow> nat \<Rightarrow> nat \<Rightarrow> (nat \<Rightarrow> path_node_t) \<Rightarrow> bool" where
  "path_found c x n used paths \<longleftrightarrow>
     0 < n \<and>
     (\<forall>j<n. (evict_succ c ^^ j) x \<in> set (occupied c) \<and>
            paths (used + j) = path_node ((evict_succ c ^^ j) x) ((evict_succ c ^^ Suc j) x)) \<and>
     (evict_succ c ^^ n) x \<in> set (cells c) - set (occupied c)"

lemma path_found_Suc:
  assumes "x \<in> set (occupied c)" "paths used = path_node x (evict_succ c x)"
    "path_found c (evict_succ c x) n (Suc used) paths"
  shows "path_found c x (Suc n) used paths"
proof -
  have "(evict_succ c ^^ j) x \<in> set (occupied c) \<and>
      paths (used + j) = path_node ((evict_succ c ^^ j) x) ((evict_succ c ^^ Suc j) x)" if "j < Suc n" for j
  proof (cases j)
    case 0
    with assms show ?thesis by simp
  next
    case (Suc i)
    with that have "i < n" by simp
    with assms(3) have "(evict_succ c ^^ i) (evict_succ c x) \<in> set (occupied c) \<and>
      paths (Suc used + i) = path_node ((evict_succ c ^^ i) (evict_succ c x)) ((evict_succ c ^^ Suc i) (evict_succ c x))"
      unfolding path_found_def by blast
    then show ?thesis unfolding Suc by (simp add: funpow_swap1)
  qed
  moreover have "(evict_succ c ^^ Suc n) x \<in> set (cells c) - set (occupied c)"
    using assms(3) unfolding path_found_def by (simp add: funpow_swap1)
  ultimately show ?thesis unfolding path_found_def by blast
qed

lemma find_path_loop_frame:
  "find_path_loop c x used paths cnt = (r, paths', cnt') \<Longrightarrow> j < used \<Longrightarrow> paths' j = paths j"
proof (induction c x used paths cnt rule: find_path_loop.induct)
  case (1 c x used paths cnt)
  show ?case
  proof (cases "used < MAX_EVICTION \<and> (\<exists>eb. evict_bucket c x = Some eb \<and> free_slot (table c) eb = None)")
    case True
    then obtain eb where eb: "used < MAX_EVICTION" "evict_bucket c x = Some eb" "free_slot (table c) eb = None"
      by blast
    from 1(1) [OF eb] 1(2,3) eb show ?thesis by (simp add: find_path_loop.simps [of c x] fun_upd_def)
  next
    case False
    with 1(2,3) show ?thesis
      by (auto simp: find_path_loop.simps [of c x] split: if_splits option.splits)
  qed
qed

lemma find_path_loop_ok:
  assumes "cuckoo_inv c"
  shows "x \<in> set (occupied c) \<Longrightarrow> find_path_loop c x used paths cnt = (r, paths', cnt') \<Longrightarrow>
    r = 0 \<or> (\<exists>n. used + n \<le> MAX_EVICTION \<and> r = of_nat (used + n) \<and> path_found c x n used paths')"
  using assms
proof (induction c x used paths cnt rule: find_path_loop.induct)
  case (1 c x used paths cnt)
  note inv = \<open>cuckoo_inv c\<close> and occ = \<open>x \<in> set (occupied c)\<close>
  obtain eb where eb: "evict_bucket c x = Some eb" using evict_bucket_occupied [OF inv occ] .
  show ?case
  proof (cases "used < MAX_EVICTION")
    case used: True
    show ?thesis
    proof (cases "free_slot (table c) eb")
      case (Some i)
      then have succ: "evict_succ c x = (eb, i)" by (simp add: evict_succ_def eb Let_def)
      then have "evict_succ c x \<in> set (cells c) - set (occupied c)"
        using evict_succ_bucket [OF inv occ] Some by auto
      then have "path_found c x 1 used paths'"
        using "1.prems" occ by (simp add: path_found_def find_path_loop.simps [of c x] used eb Some succ path_node_def) auto
      then show ?thesis
        using "1.prems" used by (intro disjI2 exI [of _ 1]) (auto simp: find_path_loop.simps [of c x] eb Some)
    next
      case None
      then have succ: "evict_succ c x = (eb, CUCKOO_HASH_ASSOC_NUM - 1)" by (simp add: evict_succ_def eb Let_def)
      then have next_occ: "evict_succ c x \<in> set (occupied c)"
        using evict_succ_bucket [OF inv occ] None by auto
      let ?paths = "paths(used := path_node x (evict_succ c x))"
      have call: "find_path_loop c (evict_succ c x) (Suc used) ?paths (cnt + 1) = (r, paths', cnt')"
        using "1.prems" by (simp add: find_path_loop.simps [of c x] used eb None succ path_node_def)
      have "paths' used = path_node x (evict_succ c x)"
        using find_path_loop_frame [OF call, of used] by simp
      moreover have "r = 0 \<or> (\<exists>n. Suc used + n \<le> MAX_EVICTION \<and> r = of_nat (Suc used + n)
          \<and> path_found c (evict_succ c x) n (Suc used) paths')"
        using "1.IH" [OF used eb None] next_occ call inv by (simp add: succ path_node_def fun_upd_def)
      ultimately show ?thesis
        using path_found_Suc [OF occ] by (metis add_Suc_shift)
    qed
  next
    case False
    with "1.prems" show ?thesis by (simp add: find_path_loop.simps [of c x])
  qed
qed

lemma path_cells_distinct:
  assumes "path_found c x n used paths"
  shows "inj_on (\<lambda>j. (evict_succ c ^^ j) x) {..n}"
proof -
  have no_repeat: False if "a < b" "b \<le> n" "(evict_succ c ^^ a) x = (evict_succ c ^^ b) x" for a b
  proof -
    have "(evict_succ c ^^ (n - b + a)) x = (evict_succ c ^^ (n - b + b)) x"
      using that(3) by (simp add: funpow_add)
    then have "(evict_succ c ^^ (n - b + a)) x = (evict_succ c ^^ n) x"
      using that(2) by simp
    moreover have "n - b + a < n" using that by simp
    ultimately show False
      using assms unfolding path_found_def by (metis DiffD2)
  qed
  show ?thesis
    by (rule inj_onI) (metis atMost_iff linorder_neqE_nat no_repeat)
qed

lemma entry_eta [simp]: "\<lparr>e_key = e_key e, e_value = e_value e\<rparr> = (e :: entry_t)"
  by (cases e) simp

lemma execute_path_loop_moves:
  assumes "inj_on x {..n}" and "\<forall>j<n. paths j = path_node (x j) (x (Suc j))"
  shows "(\<forall>j<n. execute_path_loop tab paths n (x (Suc j)) = tab (x j)) \<and>
         (\<forall>y. y \<notin> x ` {1..n} \<longrightarrow> execute_path_loop tab paths n y = tab y)"
  using assms
proof (induction n arbitrary: tab)
  case (Suc n)
  let ?tab = "tab(x (Suc n) := tab (x n))"
  have step: "execute_path_loop tab paths (Suc n) = execute_path_loop ?tab paths n"
    using Suc.prems(2) by (simp add: path_node_def Let_def)
  have inj: "inj_on x {..n}" using Suc.prems(1) by (rule inj_on_subset) auto
  have ne: "x j \<noteq> x (Suc n)" if "j \<le> n" for j
    using inj_onD [OF Suc.prems(1), of j "Suc n"] that by auto
  have "(\<forall>j<n. execute_path_loop ?tab paths n (x (Suc j)) = ?tab (x j)) \<and>
    (\<forall>y. y \<notin> x ` {1..n} \<longrightarrow> execute_path_loop ?tab paths n y = ?tab y)"
    by (rule Suc.IH [OF inj]) (use Suc.prems(2) in auto)
  then have IH: "j < n \<Longrightarrow> execute_path_loop ?tab paths n (x (Suc j)) = ?tab (x j)"
    "y \<notin> x ` {1..n} \<Longrightarrow> execute_path_loop ?tab paths n y = ?tab y" for j y
    by blast+
  have "execute_path_loop ?tab paths n (x (Suc j)) = tab (x j)" if "j < Suc n" for j
  proof (cases "j = n")
    case True
    have "x (Suc n) \<notin> x ` {1..n}" using ne by fastforce
    with IH(2) [of "x (Suc n)"] True show ?thesis by simp
  next
    case False
    with that have "j < n" by simp
    with IH(1) [of j] ne [of j] show ?thesis by simp
  qed
  moreover have "execute_path_loop ?tab paths n y = tab y" if "y \<notin> x ` {1..Suc n}" for y
  proof -
    have "y \<noteq> x (Suc n)" "y \<notin> x ` {1..n}" using that by auto
    with IH(2) [of y] show ?thesis by simp
  qed
  ultimately show ?case unfolding step by blast
qed simp

section \<open>Moving entries and adding one\<close>

text \<open>
  The common core of every insertion: the old entries sit where the injective \<open>\<rho>\<close> moved them, in
  one of their two buckets, the new entry sits at \<open>x0\<close>, and every other cell is free.
\<close>

lemma relocated_insert:
  assumes inv: "cuckoo_inv c"
    and same: "capacity c' = capacity c" "f_seed c' = f_seed c" "s_seed c' = s_seed c"
    and inj: "inj_on \<rho> (set (occupied c))"
    and moved: "\<And>x. x \<in> set (occupied c) \<Longrightarrow> \<rho> x \<in> set (cells c) \<and> table c' (\<rho> x) = table c x \<and>
        (fst (\<rho> x) = f_idx c (cell_key c x) \<or> fst (\<rho> x) = s_idx c (cell_key c x))"
    and x0: "x0 \<in> set (cells c)" "x0 \<notin> \<rho> ` set (occupied c)"
        "fst x0 = f_idx c key \<or> fst x0 = s_idx c key"
    and new: "table c' x0 = \<lparr>e_key = take KEY_LEN key, e_value = take VALUE_LEN value\<rparr>"
    and rest: "\<And>y. y \<in> set (cells c) \<Longrightarrow> y \<noteq> x0 \<Longrightarrow> y \<notin> \<rho> ` set (occupied c) \<Longrightarrow>
        slot_invalid (table c') y \<and> wf_entry (table c' y)"
    and key: "wf_key key" "wf_value value" "cuckoo_map c (cstr key) = None"
  shows "cuckoo_inv c'" and "cuckoo_map c' = (cuckoo_map c)(cstr key \<mapsto> take VALUE_LEN value)"
proof -
  have cells: "set (cells c') = set (cells c)" by (auto simp: same)
  have idx: "f_idx c' = f_idx c" "s_idx c' = s_idx c"
    by (auto simp: fun_eq_iff f_idx_def s_idx_def F_HASH_def S_HASH_def same)
  have wf_new: "wf_entry (table c' x0)"
    using key by (simp add: new wf_entry_def wf_key_def wf_value_def)
  have k0: "cell_key c' x0 = cstr key" using key(1) by (simp add: cell_key_def new cstr_take_key)
  have kr: "cell_key c' (\<rho> x) = cell_key c x" if "x \<in> set (occupied c)" for x
    using moved [OF that] by (simp add: cell_key_def)
  have occ: "set (occupied c') = insert x0 (\<rho> ` set (occupied c))"
  proof (rule set_eqI)
    fix y
    show "y \<in> set (occupied c') \<longleftrightarrow> y \<in> insert x0 (\<rho> ` set (occupied c))"
      using x0 rest [of y] moved kr k0 key(1)
      by (cases "y \<in> insert x0 (\<rho> ` set (occupied c))")
        (auto simp: in_occupied cells slot_invalid_key wf_key_def simp del: in_cells)
  qed
  have fresh: "cell_key c x \<noteq> cstr key" if "x \<in> set (occupied c)" for x
    using key(3) that by (metis cuckoo_map_None_iff imageI)
  have "inj_on (cell_key c') (set (occupied c'))"
    using inj_onD [OF inv_keys_inj [OF inv]] fresh
    by (auto simp: occ inj_on_def kr k0) metis+
  moreover have "wf_entry (table c' y)" if "y \<in> set (cells c')" for y
    using that wf_new rest [of y] moved inv
    by (cases "y \<in> insert x0 (\<rho> ` set (occupied c))")
      (auto simp: cells cuckoo_inv_def in_occupied simp del: in_cells)
  moreover have "fst y = f_idx c' (cell_key c' y) \<or> fst y = s_idx c' (cell_key c' y)"
    if "y \<in> set (occupied c')" for y
  proof (cases "y = x0")
    case False
    with that obtain x where "x \<in> set (occupied c)" "y = \<rho> x" unfolding occ by blast
    with moved [of x] kr show ?thesis by (simp add: idx)
  qed (use x0(3) in \<open>simp add: idx k0\<close>)
  ultimately show inv': "cuckoo_inv c'"
    using inv by (auto simp: cuckoo_inv_def same distinct_map)
  show "cuckoo_map c' = (cuckoo_map c)(cstr key \<mapsto> take VALUE_LEN value)"
  proof (rule map_le_antisym; unfold map_le_def; intro ballI)
    fix k assume "k \<in> dom (cuckoo_map c')"
    then obtain y where y: "y \<in> set (occupied c')" "cell_key c' y = k" "cuckoo_map c' k = Some (e_value (table c' y))"
      by (rule cuckoo_map_domE [OF inv'])
    show "cuckoo_map c' k = ((cuckoo_map c)(cstr key \<mapsto> take VALUE_LEN value)) k"
    proof (cases "y = x0")
      case True
      then show ?thesis using y k0 by (simp add: new)
    next
      case False
      with y occ obtain x where x: "x \<in> set (occupied c)" "y = \<rho> x" by blast
      with y cuckoo_map_cell [OF inv x(1)] kr [OF x(1)] fresh [OF x(1)] moved [OF x(1)]
      show ?thesis by simp
    qed
  next
    fix k assume k: "k \<in> dom ((cuckoo_map c)(cstr key \<mapsto> take VALUE_LEN value))"
    show "((cuckoo_map c)(cstr key \<mapsto> take VALUE_LEN value)) k = cuckoo_map c' k"
    proof (cases "k = cstr key")
      case True
      have "x0 \<in> set (occupied c')" by (simp add: occ)
      from cuckoo_map_cell [OF inv' this] True show ?thesis by (simp add: k0 new)
    next
      case False
      with k have "k \<in> dom (cuckoo_map c)" by auto
      then obtain x where x: "x \<in> set (occupied c)" "cell_key c x = k" "cuckoo_map c k = Some (e_value (table c x))"
        by (rule cuckoo_map_domE [OF inv])
      have "\<rho> x \<in> set (occupied c')" using x by (simp add: occ)
      from cuckoo_map_cell [OF inv' this] x False kr [OF x(1)] moved [OF x(1)] show ?thesis by simp
    qed
  qed
qed

section \<open>Insertion\<close>

text \<open>The part of the state that the lookups depend on; searching for a path leaves it alone.\<close>

definition core :: "cuckoo_hash_t \<Rightarrow> (cell \<Rightarrow> entry_t) \<times> u64 \<times> u64 \<times> u64" where
  "core c = (table c, capacity c, f_seed c, s_seed c)"

lemma core_cong:
  assumes "core c = core c'"
  shows "f_idx c = f_idx c'" "s_idx c = s_idx c'" "cells c = cells c'" "occupied c = occupied c'"
    "cell_key c = cell_key c'" "slot_key c = slot_key c'" "evict_succ c = evict_succ c'"
    "path_found c = path_found c'" "cuckoo_inv c = cuckoo_inv c'" "cuckoo_map c = cuckoo_map c'"
    "probe c = probe c'" "rehash_cells c = rehash_cells c'"
proof -
  have eq: "table c = table c'" "capacity c = capacity c'" "f_seed c = f_seed c'" "s_seed c = s_seed c'"
    using assms by (simp_all add: core_def)
  show idx: "f_idx c = f_idx c'" "s_idx c = s_idx c'"
    by (simp_all add: fun_eq_iff f_idx_def s_idx_def F_HASH_def S_HASH_def eq)
  show cells: "cells c = cells c'" by (simp add: cells_def eq)
  show occ: "occupied c = occupied c'" by (simp add: occupied_def eq cells)
  show ck: "cell_key c = cell_key c'" by (simp add: fun_eq_iff cell_key_def eq)
  show sk: "slot_key c = slot_key c'" by (simp add: fun_eq_iff slot_key_def eq)
  have eb: "evict_bucket c = evict_bucket c'" by (simp add: fun_eq_iff evict_bucket_def Let_def idx sk)
  show es: "evict_succ c = evict_succ c'" by (simp add: fun_eq_iff evict_succ_def eb eq)
  show "path_found c = path_found c'" by (simp add: fun_eq_iff path_found_def es occ cells)
  show "cuckoo_inv c = cuckoo_inv c'" by (simp add: cuckoo_inv_def eq cells occ ck idx)
  show "cuckoo_map c = cuckoo_map c'" by (simp add: cuckoo_map_def eq occ ck)
  have km: "key_matches c = key_matches c'" by (simp add: fun_eq_iff key_matches_def sk)
  show "probe c = probe c'"
  proof (intro ext)
    show "probe c key is = probe c' key is" for key "is" by (induction "is") (simp_all add: idx km)
  qed
  have rs: "rehash_slot c = rehash_slot c'"
    by (simp add: fun_eq_iff rehash_slot_def eq idx sk F_HASH_def S_HASH_def)
  show "rehash_cells c = rehash_cells c'"
  proof (intro ext)
    show "rehash_cells c n xs t = rehash_cells c' n xs t" for n xs t
      by (induction xs arbitrary: t) (simp_all add: rs split: option.split)
  qed
qed

lemma insert_free_Some:
  "insert_free c key value is = Some c' \<Longrightarrow>
    \<exists>x. snd x \<in> set is \<and> (fst x = f_idx c key \<or> fst x = s_idx c key) \<and> slot_invalid (table c) x \<and>
        c' = c\<lparr>table := store (table c) x key value, entry_num := entry_num c + 1\<rparr>"
proof (induction "is")
  case (Cons i "is")
  show ?case
  proof (cases "slot_invalid (table c) (f_idx c key, i) \<or> slot_invalid (table c) (s_idx c key, i)")
    case True
    let ?x = "if slot_invalid (table c) (f_idx c key, i) then (f_idx c key, i) else (s_idx c key, i)"
    show ?thesis using True Cons.prems by (intro exI [of _ ?x]) (auto split: if_splits)
  next
    case False
    with Cons.prems have "insert_free c key value is = Some c'" by simp
    from Cons.IH [OF this] show ?thesis by (metis list.set_intros(2))
  qed
qed simp

lemma insert_free_None:
  "insert_free c key value is = None \<Longrightarrow> i \<in> set is \<Longrightarrow>
    \<not> slot_invalid (table c) (f_idx c key, i) \<and> \<not> slot_invalid (table c) (s_idx c key, i)"
  by (induction "is") (auto split: if_splits)

lemma insert_free_correct:
  assumes inv: "cuckoo_inv c" and key: "wf_key key" "wf_value value" "cuckoo_map c (cstr key) = None"
    and x: "snd x < 4" "fst x = f_idx c key \<or> fst x = s_idx c key" "slot_invalid (table c) x"
    and c': "core c' = (store (table c) x key value, capacity c, f_seed c, s_seed c)"
  shows "cuckoo_inv c'" and "cuckoo_map c' = (cuckoo_map c)(cstr key \<mapsto> take VALUE_LEN value)"
proof -
  have cell: "x \<in> set (cells c)" using x idx_less [OF inv] by auto
  have free: "x \<notin> id ` set (occupied c)" using x(3) by (simp add: occupied_def)
  have tab: "table c' y = (if y = x then \<lparr>e_key = take KEY_LEN key, e_value = take VALUE_LEN value\<rparr> else table c y)" for y
    using c' by (simp add: core_def store_def)
  have moved: "id y \<in> set (cells c) \<and> table c' (id y) = table c y \<and>
      (fst (id y) = f_idx c (cell_key c y) \<or> fst (id y) = s_idx c (cell_key c y))"
    if "y \<in> set (occupied c)" for y
    using that free inv tab [of y] by (auto simp: cuckoo_inv_def in_occupied simp del: in_cells)
  have rest: "slot_invalid (table c') y \<and> wf_entry (table c' y)"
    if "y \<in> set (cells c)" "y \<noteq> x" "y \<notin> id ` set (occupied c)" for y
    using that inv tab [of y]
    by (auto simp: in_occupied cuckoo_inv_def slot_invalid_def cell_key_def simp del: in_cells)
  note R = relocated_insert [OF inv _ _ _ inj_on_id moved cell free x(2) _ rest key]
  show "cuckoo_inv c'" "cuckoo_map c' = (cuckoo_map c)(cstr key \<mapsto> take VALUE_LEN value)"
    using R c' by (auto simp: core_def store_def simp del: in_cells)
qed

text \<open>Moving every element of an orbit prefix one step on frees its start and takes its end.\<close>

definition shift_along :: "('a \<Rightarrow> 'a) \<Rightarrow> 'a set \<Rightarrow> 'a \<Rightarrow> 'a" where
  "shift_along f P y = (if y \<in> P then f y else y)"

lemma shift_along_image:
  assumes inj: "inj_on (\<lambda>j. (f ^^ j) x) {..n}" and "0 < n"
    and P: "P = (\<lambda>j. (f ^^ j) x) ` {..<n}" "P \<subseteq> S" and fin: "(f ^^ n) x \<notin> S"
  shows "inj_on (shift_along f P) S" and "shift_along f P ` S = insert ((f ^^ n) x) (S - {x})"
proof -
  let ?x = "\<lambda>j. (f ^^ j) x"
  have "f ` P = (\<lambda>j. ?x (Suc j)) ` {..<n}" by (simp add: P image_image)
  also have "\<dots> = ?x ` {1..n}"
    by (simp only: image_Suc_lessThan [symmetric] image_image)
  also have "\<dots> = insert (?x n) (P - {x})"
  proof -
    have "{1..n} = insert n ({..<n} - {0})" using \<open>0 < n\<close> by auto
    moreover have "?x ` ({..<n} - {0}) = ?x ` {..<n} - ?x ` {0}"
      by (rule inj_on_image_set_diff [OF inj]) (use \<open>0 < n\<close> in auto)
    ultimately show ?thesis by (simp add: P)
  qed
  finally have fP: "f ` P = insert (?x n) (P - {x})" .
  have img: "shift_along f P ` S = f ` P \<union> (S - P)"
    using P(2) by (auto simp: shift_along_def image_iff)
  have x: "x \<in> P" unfolding P(1) by (rule image_eqI [of _ _ 0]) (use \<open>0 < n\<close> in auto)
  show "shift_along f P ` S = insert (?x n) (S - {x})"
    unfolding img fP using x P(2) by blast
  have "inj_on f P"
  proof (rule inj_onI)
    fix y z assume "y \<in> P" "z \<in> P" and eq: "f y = f z"
    then obtain i j where ij: "y = ?x i" "i < n" "z = ?x j" "j < n" by (auto simp: P)
    with eq have "?x (Suc i) = ?x (Suc j)" by simp
    with inj_onD [OF inj this] ij show "y = z" by simp
  qed
  moreover have "f y \<notin> S - P" if "y \<in> P" for y
    using imageI [OF that, of f] fP fin by auto
  ultimately show "inj_on (shift_along f P) S"
    by (auto simp: inj_on_def shift_along_def)
qed

lemma path_moves:
  assumes "path_found c x n 0 paths" and T: "T = execute_path_loop (table c) paths n"
  shows "y \<in> (\<lambda>j. (evict_succ c ^^ j) x) ` {..<n} \<Longrightarrow> T (evict_succ c y) = table c y"
    and "y \<notin> (\<lambda>j. (evict_succ c ^^ j) x) ` {1..n} \<Longrightarrow> T y = table c y"
proof -
  let ?x = "\<lambda>j. (evict_succ c ^^ j) x"
  have "(\<forall>j<n. T (?x (Suc j)) = table c (?x j)) \<and> (\<forall>y. y \<notin> ?x ` {1..n} \<longrightarrow> T y = table c y)"
    unfolding T by (rule execute_path_loop_moves [OF path_cells_distinct [OF assms(1)]])
      (use assms(1) [unfolded path_found_def add_0] in blast)
  then show "y \<in> ?x ` {..<n} \<Longrightarrow> T (evict_succ c y) = table c y" "y \<notin> ?x ` {1..n} \<Longrightarrow> T y = table c y"
    by auto
qed

lemma evict_correct:
  assumes inv: "cuckoo_inv c" and key: "wf_key key" "wf_value value" "cuckoo_map c (cstr key) = None"
    and x: "fst x = f_idx c key \<or> fst x = s_idx c key"
    and path: "path_found c x n 0 paths"
    and c': "core c' = (store (execute_path_loop (table c) paths n) x key value, capacity c, f_seed c, s_seed c)"
  shows "cuckoo_inv c'" and "cuckoo_map c' = (cuckoo_map c)(cstr key \<mapsto> take VALUE_LEN value)"
proof -
  let ?x = "\<lambda>j. (evict_succ c ^^ j) x"
  define P where "P = ?x ` {..<n}"
  define \<rho> where "\<rho> = shift_along (evict_succ c) P"
  have P: "P \<subseteq> set (occupied c)" "x \<in> P" and n: "0 < n"
    and free: "?x n \<in> set (cells c)" "?x n \<notin> set (occupied c)"
    using path by (auto simp: path_found_def P_def intro: image_eqI [of _ _ 0])
  have Pn: "?x ` {1..n} \<subseteq> insert (?x n) (P - {x})"
  proof
    fix y assume "y \<in> ?x ` {1..n}"
    then obtain j where j: "y = ?x j" "1 \<le> j" "j \<le> n" by auto
    moreover have "?x j \<noteq> ?x 0" using inj_onD [OF path_cells_distinct [OF path], of j 0] j by auto
    ultimately show "y \<in> insert (?x n) (P - {x})" by (cases "j = n") (auto simp: P_def)
  qed
  note shift = shift_along_image [OF path_cells_distinct [OF path] n P_def P(1) free(2), folded \<rho>_def]
  have tab: "table c' y = execute_path_loop (table c) paths n y" if "y \<noteq> x" for y
    using c' that by (simp add: core_def store_def)
  have x_img: "x \<notin> \<rho> ` set (occupied c)" unfolding shift(2) using free P by auto
  then have img: "\<rho> y \<noteq> x" if "y \<in> set (occupied c)" for y using that by (metis imageI)
  have moved: "\<rho> y \<in> set (cells c) \<and> table c' (\<rho> y) = table c y \<and>
      (fst (\<rho> y) = f_idx c (cell_key c y) \<or> fst (\<rho> y) = s_idx c (cell_key c y))"
    if y: "y \<in> set (occupied c)" for y
  proof (cases "y \<in> P")
    case True
    with evict_succ_bucket [OF inv y] tab [OF img [OF y]] path_moves(1) [OF path refl, of y] show ?thesis
      by (simp add: \<rho>_def shift_along_def P_def)
  next
    case False
    then have "\<rho> y = y" "y \<notin> ?x ` {1..n}" using y free Pn by (auto simp: \<rho>_def shift_along_def)
    with y tab [OF img [OF y]] path_moves(2) [OF path refl, of y] inv show ?thesis
      by (auto simp: cuckoo_inv_def in_occupied simp del: in_cells)
  qed
  have rest: "slot_invalid (table c') y \<and> wf_entry (table c' y)"
    if y: "y \<in> set (cells c)" "y \<noteq> x" "y \<notin> \<rho> ` set (occupied c)" for y
  proof -
    have "y \<notin> set (occupied c)" "y \<notin> ?x ` {1..n}" using y Pn P unfolding shift by auto
    then show ?thesis using y inv path_moves(2) [OF path refl, of y] tab [of y]
      by (auto simp: in_occupied cuckoo_inv_def slot_invalid_def cell_key_def simp del: in_cells)
  qed
  have "x \<in> set (cells c)" using P by (auto simp: in_occupied simp del: in_cells)
  note R = relocated_insert [OF inv _ _ _ shift(1) moved this x_img x _ rest key]
  show "cuckoo_inv c'" "cuckoo_map c' = (cuckoo_map c)(cstr key \<mapsto> take VALUE_LEN value)"
    using R c' by (auto simp: core_def store_def simp del: in_cells)
qed

lemma find_path_core: "core (snd (find_path c b s p)) = core c"
  by (simp add: find_path_def Let_def core_def split: prod.split)

lemma find_path_ok:
  assumes "cuckoo_inv c" "(b, s) \<in> set (occupied c)" "find_path c b s p = (r, c')"
  shows "r = 0 \<or> (\<exists>n\<le>MAX_EVICTION. r = of_nat n \<and>
    path_found c (b, s) n 0 (if p = 1 then evict_path1 c' else evict_path2 c'))"
proof -
  obtain r' paths cnt where loop: "find_path_loop c (b, s) 0
      (if p = 1 then evict_path1 c else evict_path2 c) (find_path_cnt c) = (r', paths, cnt)"
    using prod_cases3 by blast
  then have "r = r'" "(if p = 1 then evict_path1 c' else evict_path2 c') = paths"
    using assms(3) by (auto simp: find_path_def)
  with find_path_loop_ok [OF assms(1,2) loop] show ?thesis by simp
qed

lemma path_steps: "0 < n \<Longrightarrow> n \<le> MAX_EVICTION \<Longrightarrow> nat (sint (of_nat n - 1 :: u64) + 1) = n"
proof -
  assume n: "0 < n" "n \<le> MAX_EVICTION"
  then have "of_nat n - 1 = (of_nat (n - 1) :: u64)" by simp
  moreover have "sint (of_nat (n - 1) :: u64) = int (n - 1)"
    using n by (simp add: sint_uint unsigned_of_nat take_bit_nat_eq_self signed_take_bit_int_eq_self MAX_EVICTION_def
        del: of_nat_diff)
  ultimately show ?thesis using n by simp
qed

definition same_buckets :: "cuckoo_hash_t \<Rightarrow> bytes \<Rightarrow> nat list \<Rightarrow> bool" where
  "same_buckets c key is \<longleftrightarrow>
     (\<forall>i \<in> set is. (f_idx c key, i) \<in> set (occupied c) \<and> (s_idx c key, i) \<in> set (occupied c))"

text \<open>What an insertion by eviction does to the table, whatever the key is.\<close>

lemma insert_evict_places:
  assumes "cuckoo_inv c" "same_buckets c key is" "insert_evict c key value is = (r, c')"
  shows "r = FAIL \<and> core c' = core c \<or>
    r = SUCCESS \<and> (\<exists>x n paths. snd x \<in> set is \<and> (fst x = f_idx c key \<or> fst x = s_idx c key) \<and> path_found c x n 0 paths \<and>
      core c' = (store (execute_path_loop (table c) paths n) x key value, capacity c, f_seed c, s_seed c))"
  using assms
proof (induction "is" arbitrary: c)
  case Nil
  then show ?case by simp
next
  case (Cons i "is")
  obtain l1 c1 where p1: "find_path c (f_idx c key) i 1 = (l1, c1)" by fastforce
  have c1: "core c1 = core c" using find_path_core [of c "f_idx c key" i 1] p1 by simp
  obtain l2 c2 where p2: "find_path c1 (s_idx c1 key) i 2 = (l2, c2)" by fastforce
  have c2: "core c2 = core c" using find_path_core [of c1 "s_idx c1 key" i 2] p2 c1 by simp
  note same1 = core_cong [OF c1] and same2 = core_cong [OF c2]
  have eq: "table c2 = table c" "capacity c2 = capacity c" "f_seed c2 = f_seed c" "s_seed c2 = s_seed c"
    using c2 by (simp_all add: core_def)
  have ev1: "evict_path1 c2 = evict_path1 c1"
    using p2 by (auto simp: find_path_def split: prod.splits)
  have ok1: "l1 = 0 \<or> (\<exists>n\<le>MAX_EVICTION. l1 = of_nat n \<and> path_found c2 (f_idx c key, i) n 0 (evict_path1 c2))"
    using find_path_ok [OF _ _ p1] Cons.prems by (simp add: same_buckets_def same2 ev1)
  have ok2: "l2 = 0 \<or> (\<exists>n\<le>MAX_EVICTION. l2 = of_nat n \<and> path_found c2 (s_idx c key, i) n 0 (evict_path2 c2))"
    using find_path_ok [OF _ _ p2] Cons.prems by (simp add: same_buckets_def same1 same2)
  show ?case
  proof (cases "l1 = 0 \<and> l2 = 0")
    case True
    then have "insert_evict c2 key value is = (r, c')" using Cons.prems(3) p1 p2 by simp
    from Cons.IH [OF _ _ this] Cons.prems show ?thesis
      by (auto simp: same2 same_buckets_def eq c2)
  next
    case False
    define ch where "ch = (if l1 = 0 then (evict_path2 c2, l2, s_idx c2 key)
      else if l2 = 0 then (evict_path1 c2, l1, f_idx c2 key)
      else if l1 < l2 then (evict_path1 c2, l1, f_idx c2 key) else (evict_path2 c2, l2, s_idx c2 key))"
    obtain path pl idx where ch': "ch = (path, pl, idx)" using prod_cases3 by blast
    have "idx = f_idx c key \<or> idx = s_idx c key" using ch' by (auto simp: ch_def same2 split: if_splits)
    moreover obtain n where n: "n \<le> MAX_EVICTION" "pl = of_nat n" "path_found c (idx, i) n 0 path"
      using ok1 ok2 ch' False by (auto simp: ch_def same2 split: if_splits)
    moreover have "r = SUCCESS \<and> core c' = (store (execute_path_loop (table c) path n) (idx, i) key value,
        capacity c, f_seed c, s_seed c)"
    proof -
      have "0 < n" using n(3) by (simp add: path_found_def)
      with n show ?thesis
        using Cons.prems(3) p1 p2 False ch'
        by (auto simp: ch_def [symmetric] execute_path_def path_steps core_def Let_def eq)
    qed
    ultimately show ?thesis by - (rule disjI2, rule conjI, simp, intro exI [of _ "(idx, i)"] exI, auto)
  qed
qed

lemma insert_evict_correct:
  assumes "cuckoo_inv c" "wf_key key" "wf_value value" "cuckoo_map c (cstr key) = None"
    "same_buckets c key is" "insert_evict c key value is = (r, c')"
  shows "cuckoo_inv c' \<and>
    (r = SUCCESS \<and> cuckoo_map c' = (cuckoo_map c)(cstr key \<mapsto> take VALUE_LEN value) \<or>
     r = FAIL \<and> cuckoo_map c' = cuckoo_map c)"
  using insert_evict_places [OF assms(1,5,6)]
proof (rule disjE)
  assume "r = FAIL \<and> core c' = core c"
  then show ?thesis using assms(1) core_cong [of c' c] by simp
next
  assume "r = SUCCESS \<and> (\<exists>x n paths. snd x \<in> set is \<and> (fst x = f_idx c key \<or> fst x = s_idx c key) \<and> path_found c x n 0 paths \<and>
      core c' = (store (execute_path_loop (table c) paths n) x key value, capacity c, f_seed c, s_seed c))"
  then obtain x n paths where "r = SUCCESS" and x: "fst x = f_idx c key \<or> fst x = s_idx c key" "path_found c x n 0 paths"
    "core c' = (store (execute_path_loop (table c) paths n) x key value, capacity c, f_seed c, s_seed c)" by blast
  then show ?thesis using evict_correct [OF assms(1-4) x] by simp
qed

text \<open>A successful insertion stores its entry in one of the two buckets of the key, over a table of well-formed entries.\<close>

lemma moved_entries_wf:
  assumes inv: "cuckoo_inv c" and path: "path_found c x n 0 paths" and y: "y \<in> set (cells c)"
  shows "wf_entry (execute_path_loop (table c) paths n y)"
proof -
  let ?x = "\<lambda>j. (evict_succ c ^^ j) x"
  have wf: "wf_entry (table c z)" if "z \<in> set (cells c)" for z using inv that by (simp add: cuckoo_inv_def del: in_cells)
  show ?thesis
  proof (cases "y \<in> ?x ` {1..n}")
    case True
    then obtain k where "y = ?x k" "1 \<le> k" "k \<le> n" by auto
    then obtain j where j: "y = evict_succ c (?x j)" "j < n" by (cases k) auto
    have "execute_path_loop (table c) paths n y = table c (?x j)" unfolding j(1) by (rule path_moves(1) [OF path refl]) (use j in blast)
    moreover have "?x j \<in> set (occupied c)" using path j(2) by (simp add: path_found_def)
    ultimately show ?thesis using wf by (simp add: in_occupied del: in_cells)
  next
    case False
    then show ?thesis using path_moves(2) [OF path refl] wf [OF y] by simp
  qed
qed

lemma cuckoo_insert_places:
  assumes inv: "cuckoo_inv c" and ins: "cuckoo_insert c key value = (SUCCESS, c')"
  obtains x T where "x \<in> set (cells c)" "fst x = f_idx c key \<or> fst x = s_idx c key"
    "core c' = (store T x key value, capacity c, f_seed c, s_seed c)" "\<forall>y\<in>set (cells c). wf_entry (T y)"
proof (cases "insert_free c key value [0..<CUCKOO_HASH_ASSOC_NUM]")
  case None
  then have "same_buckets c key [0..<CUCKOO_HASH_ASSOC_NUM]" and ev: "insert_evict c key value [0..<CUCKOO_HASH_ASSOC_NUM] = (SUCCESS, c')"
    using insert_free_None [OF None] idx_less [OF inv] ins
    by (auto simp: same_buckets_def occupied_def CUCKOO_HASH_ASSOC_NUM_def cuckoo_insert_def)
  from insert_evict_places [OF inv this] obtain x n paths where x: "fst x = f_idx c key \<or> fst x = s_idx c key" "path_found c x n 0 paths"
    "core c' = (store (execute_path_loop (table c) paths n) x key value, capacity c, f_seed c, s_seed c)" by auto
  have "x \<in> set (occupied c)" using x(2) by (auto simp: path_found_def dest: spec [of _ 0])
  then have "x \<in> set (cells c)" by (simp add: in_occupied)
  from that [OF this x(1,3)] moved_entries_wf [OF inv x(2)] show thesis by blast
next
  case (Some d)
  then obtain x where x: "snd x < 4" "fst x = f_idx c key \<or> fst x = s_idx c key" "c' = c\<lparr>table := store (table c) x key value, entry_num := entry_num c + 1\<rparr>"
    using insert_free_Some [OF Some] ins by (auto simp: CUCKOO_HASH_ASSOC_NUM_def cuckoo_insert_def)
  then have "x \<in> set (cells c)" using idx_less [OF inv] by auto
  from that [OF this x(2), of "table c"] x(3) inv show thesis by (simp add: core_def cuckoo_inv_def del: in_cells)
qed

lemma cuckoo_insert_cases:
  assumes inv: "cuckoo_inv c" and key: "wf_key key" "wf_value value" "cuckoo_map c (cstr key) = None"
    and ins: "cuckoo_insert c key value = (r, c')"
  shows "cuckoo_inv c' \<and>
    (r = SUCCESS \<and> cuckoo_map c' = (cuckoo_map c)(cstr key \<mapsto> take VALUE_LEN value) \<or>
     r = FAIL \<and> cuckoo_map c' = cuckoo_map c)"
proof (cases "insert_free c key value [0..<CUCKOO_HASH_ASSOC_NUM]")
  case None
  then have "same_buckets c key [0..<CUCKOO_HASH_ASSOC_NUM]"
    using insert_free_None [OF None] idx_less [OF inv]
    by (auto simp: same_buckets_def occupied_def CUCKOO_HASH_ASSOC_NUM_def)
  with None ins insert_evict_correct [OF inv key] show ?thesis by (simp add: cuckoo_insert_def)
next
  case (Some d)
  then obtain x where "snd x < 4" "fst x = f_idx c key \<or> fst x = s_idx c key" "slot_invalid (table c) x"
    "d = c\<lparr>table := store (table c) x key value, entry_num := entry_num c + 1\<rparr>"
    using insert_free_Some [OF Some] by (auto simp: CUCKOO_HASH_ASSOC_NUM_def)
  moreover have "r = SUCCESS" "c' = d" using ins Some by (simp_all add: cuckoo_insert_def)
  ultimately show ?thesis
    using insert_free_correct [OF inv key, of x c'] by (simp add: core_def)
qed

section \<open>Lookup\<close>

lemma probe_Some_iff:
  "probe c key is = Some x \<Longrightarrow>
    key_matches c x key \<and> snd x \<in> set is \<and> (fst x = f_idx c key \<or> fst x = s_idx c key)"
  by (induction "is") (auto split: if_splits)

lemma probe_None_iff:
  "probe c key is = None \<longleftrightarrow>
    (\<forall>i \<in> set is. \<not> key_matches c (f_idx c key, i) key \<and> \<not> key_matches c (s_idx c key, i) key)"
  by (induction "is") auto

lemma probe_correct:
  assumes inv: "cuckoo_inv c" and key: "cstr key \<noteq> []"
  shows "map_option (\<lambda>x. e_value (table c x)) (probe c key [0..<CUCKOO_HASH_ASSOC_NUM]) = cuckoo_map c (cstr key)"
    and "probe c key [0..<CUCKOO_HASH_ASSOC_NUM] = Some x \<Longrightarrow> x \<in> set (occupied c) \<and> cell_key c x = cstr key"
proof -
  have hit: "x \<in> set (occupied c) \<and> cell_key c x = cstr key"
    if "probe c key [0..<CUCKOO_HASH_ASSOC_NUM] = Some x" for x
  proof -
    have "x \<in> set (cells c)"
      using probe_Some_iff [OF that] idx_less [OF inv] by (auto simp: CUCKOO_HASH_ASSOC_NUM_def)
    with probe_Some_iff [OF that] key_matches_iff [OF inv] key show ?thesis by (simp add: in_occupied)
  qed
  then show "probe c key [0..<CUCKOO_HASH_ASSOC_NUM] = Some x \<Longrightarrow> x \<in> set (occupied c) \<and> cell_key c x = cstr key" .
  show "map_option (\<lambda>x. e_value (table c x)) (probe c key [0..<CUCKOO_HASH_ASSOC_NUM]) = cuckoo_map c (cstr key)"
  proof (cases "probe c key [0..<CUCKOO_HASH_ASSOC_NUM]")
    case (Some x)
    with hit [OF Some] cuckoo_map_cell [OF inv, of x] show ?thesis by simp
  next
    case None
    have "cell_key c x \<noteq> cstr key" if x: "x \<in> set (occupied c)" for x
    proof
      assume eq: "cell_key c x = cstr key"
      with inv x have b: "fst x = f_idx c key \<or> fst x = s_idx c key"
        by (metis cuckoo_inv_def idx_cstr)
      have "x \<in> set (cells c)" using x by (simp add: in_occupied)
      with eq have "key_matches c x key" "snd x < 4" by (simp_all add: key_matches_iff [OF inv])
      with None b show False by (cases x) (auto simp: probe_None_iff CUCKOO_HASH_ASSOC_NUM_def)
    qed
    then have "cuckoo_map c (cstr key) = None" by (metis cuckoo_map_None_iff imageE)
    with None show ?thesis by simp
  qed
qed

lemma cuckoo_query_map:
  assumes "cuckoo_inv c" "cstr key \<noteq> []"
  shows "cuckoo_query c key = (case cuckoo_map c (cstr key) of None \<Rightarrow> (FAIL, None) | Some v \<Rightarrow> (SUCCESS, Some v))"
  using probe_correct(1) [OF assms]
  by (cases "probe c key [0..<CUCKOO_HASH_ASSOC_NUM]") (simp_all add: cuckoo_query_def flip: probe_correct(1) [OF assms])

lemma value_update_correct:
  assumes inv: "cuckoo_inv c" and x: "x \<in> set (occupied c)" and v: "wf_value v"
    and c': "c' = c\<lparr>table := (table c)(x := (table c x)\<lparr>e_value := take VALUE_LEN v\<rparr>)\<rparr>"
  shows "cuckoo_inv c'" and "cuckoo_map c' = (cuckoo_map c)(cell_key c x \<mapsto> take VALUE_LEN v)"
proof -
  have keys: "cell_key c' = cell_key c" by (auto simp: fun_eq_iff c' cell_key_def)
  have cells: "cells c' = cells c" by (simp add: c' cells_def)
  have occ: "occupied c' = occupied c"
    by (simp add: occupied_def slot_invalid_key keys cells)
  have idx: "f_idx c' = f_idx c" "s_idx c' = s_idx c"
    by (simp_all add: fun_eq_iff f_idx_def s_idx_def F_HASH_def S_HASH_def c')
  have "wf_entry (table c' y)" if "y \<in> set (cells c)" for y
    using that inv v by (auto simp: c' cuckoo_inv_def wf_entry_def wf_value_def simp del: in_cells)
  then show inv': "cuckoo_inv c'"
    using inv unfolding cuckoo_inv_def cells occ keys idx by (simp add: c')
  show "cuckoo_map c' = (cuckoo_map c)(cell_key c x \<mapsto> take VALUE_LEN v)"
  proof (rule ext)
    fix k
    show "cuckoo_map c' k = ((cuckoo_map c)(cell_key c x \<mapsto> take VALUE_LEN v)) k"
    proof (cases "k \<in> cell_key c ` set (occupied c)")
      case True
      then obtain y where y: "y \<in> set (occupied c)" "k = cell_key c y" by blast
      have "y = x" if "cell_key c y = cell_key c x"
        using inj_onD [OF inv_keys_inj [OF inv] that y(1) x] .
      moreover have "cuckoo_map c' k = Some (e_value (table c' y))"
        using cuckoo_map_cell [OF inv', of y] y by (simp add: occ keys)
      ultimately show ?thesis
        using cuckoo_map_cell [OF inv y(1)] y by (auto simp: c')
    next
      case False
      moreover have "k \<noteq> cell_key c x" using False x by blast
      ultimately show ?thesis
        using cuckoo_map_None_iff [of c k] cuckoo_map_None_iff [of c' k] by (simp add: occ keys)
    qed
  qed
qed

lemma cuckoo_update_map:
  assumes inv: "cuckoo_inv c" and key: "cstr key \<noteq> []" and v: "wf_value v"
    and upd: "cuckoo_update c key v = (r, c')"
  shows "cuckoo_inv c' \<and>
    (if cstr key \<in> dom (cuckoo_map c)
     then r = SUCCESS \<and> cuckoo_map c' = (cuckoo_map c)(cstr key \<mapsto> take VALUE_LEN v)
     else r = FAIL \<and> c' = c)"
proof (cases "probe c key [0..<CUCKOO_HASH_ASSOC_NUM]")
  case None
  with probe_correct(1) [OF inv key] have "cuckoo_map c (cstr key) = None" by simp
  with None upd inv show ?thesis by (auto simp: cuckoo_update_def)
next
  case (Some x)
  note hit = probe_correct(2) [OF inv key Some]
  from cuckoo_map_cell [OF inv, of x] hit have "cstr key \<in> dom (cuckoo_map c)" by auto
  with Some upd hit value_update_correct [OF inv _ v, of x c'] show ?thesis
    by (simp add: cuckoo_update_def)
qed

end
