(* ===== verification/Cuckoo_Resize.thy ===== *)
theory Cuckoo_Resize
  imports Cuckoo_Insert
begin

text \<open>
  Doubling the cuckoo table. An entry of old bucket \<open>b\<close> only ever goes to a new bucket that is
  congruent to \<open>b\<close> modulo the old capacity, so each new bucket receives entries from one old
  bucket only: it never overflows, and \<open>cuckoo_resize\<close> cannot fail once its allocation has
  succeeded. The theory ends with the map contract of the table as a locale and its
  interpretation.
\<close>

declare split_paired_All [simp del] split_paired_Ex [simp del]

section \<open>Placing one entry\<close>

lemma place_one_Some: "place_one tab b e ks = Some tab' \<Longrightarrow> \<exists>k \<in> set ks. slot_invalid tab (b, k) \<and> tab' = tab((b, k) := e)"
  by (induction ks) (auto split: if_splits)

lemma place_one_total: "k \<in> set ks \<Longrightarrow> slot_invalid tab (b, k) \<Longrightarrow> \<exists>tab'. place_one tab b e ks = Some tab'"
  by (induction ks) auto

lemma place_either_Some:
  "place_either tab f s e ks = Some tab' \<Longrightarrow>
    \<exists>b k. (b = f \<or> b = s) \<and> k \<in> set ks \<and> slot_invalid tab (b, k) \<and> tab' = tab((b, k) := e)"
  by (induction ks) (auto split: if_splits)

lemma place_either_total:
  "k \<in> set ks \<Longrightarrow> slot_invalid tab (f, k) \<Longrightarrow> \<exists>tab'. place_either tab f s e ks = Some tab'"
  by (induction ks) auto

section \<open>The loop over the old table\<close>

lemma cstr_cell_key [simp]: "cstr (cell_key c x) = cell_key c x"
  by (simp add: cell_key_def)


definition new_f :: "cuckoo_hash_t \<Rightarrow> u64 \<Rightarrow> cell \<Rightarrow> nat" where
  "new_f c ncap x = unat (F_IDX (F_HASH c (cell_key c x)) ncap)"

definition new_s :: "cuckoo_hash_t \<Rightarrow> u64 \<Rightarrow> cell \<Rightarrow> nat" where
  "new_s c ncap x = unat (S_IDX (S_HASH c (cell_key c x)) ncap)"

definition rehashed :: "cuckoo_hash_t \<Rightarrow> u64 \<Rightarrow> cell set \<Rightarrow> (cell \<Rightarrow> entry_t) \<Rightarrow> (cell \<Rightarrow> cell) \<Rightarrow> bool" where
  "rehashed c ncap D N \<rho> \<longleftrightarrow>
     inj_on \<rho> D \<and>
     (\<forall>x \<in> D. snd (\<rho> x) < 4 \<and> N (\<rho> x) = table c x \<and>
        (fst (\<rho> x) = new_f c ncap x \<or> fst (\<rho> x) = new_s c ncap x) \<and>
        fst (\<rho> x) mod unat (capacity c) = fst x) \<and>
     (\<forall>y. y \<notin> \<rho> ` D \<longrightarrow> N y = zero_entry)"

lemma new_idx_mod:
  assumes "unat ncap = 2 * unat (capacity c)"
  shows "new_f c ncap x mod unat (capacity c) = f_idx c (cell_key c x)"
    and "new_s c ncap x mod unat (capacity c) = s_idx c (cell_key c x)"
  by (simp_all add: new_f_def new_s_def f_idx_def s_idx_def F_IDX_def S_IDX_def unat_mod_distrib assms mod_mod_cancel)

lemma bucket_has_room:
  assumes R: "rehashed c ncap D N \<rho>" and D: "D \<subseteq> set (occupied c)" and x: "x \<in> set (occupied c)" "x \<notin> D"
    and b: "b mod unat (capacity c) = fst x"
  shows "\<exists>k \<in> set [0..<CUCKOO_HASH_ASSOC_NUM]. slot_invalid N (b, k)"
proof (rule ccontr)
  assume "\<not> ?thesis"
  then have full: "\<not> slot_invalid N (b, k)" if "k < 4" for k
    using that by (auto simp: CUCKOO_HASH_ASSOC_NUM_def)
  let ?B = "{y \<in> D. fst y = fst x}"
  let ?row = "{fst x} \<times> {..<4::nat}"
  have "slot_invalid (\<lambda>_. zero_entry) y" for y
    by (simp add: slot_invalid_def zero_entry_def cstr_def KEY_LEN_def)
  then have hit: "(b, k) \<in> \<rho> ` D" if "k < 4" for k
    using full [OF that] R by (auto simp: rehashed_def slot_invalid_def)
  have row: "z \<in> ?B" if "z \<in> D" "\<rho> z = (b, k)" for z k
    using that R b unfolding rehashed_def by (metis (mono_tags, lifting) fst_conv mem_Collect_eq)
  have sub: "(\<lambda>k. (b, k)) ` {..<4} \<subseteq> \<rho> ` ?B"
  proof
    fix y assume "y \<in> (\<lambda>k. (b, k)) ` {..<4::nat}"
    then obtain k where k: "k < 4" "y = (b, k)" by blast
    obtain z where "z \<in> D" "\<rho> z = (b, k)" using hit [OF k(1)] by fastforce
    with row [of z k] k show "y \<in> \<rho> ` ?B" by (intro image_eqI [of _ _ z]) simp_all
  qed
  have fin: "finite ?B"
    by (rule finite_subset [OF _ List.finite_set [of "occupied c"]]) (use D in auto)
  have "4 = card ((\<lambda>k. (b, k)) ` {..<4::nat})" by (simp add: card_image inj_on_def)
  also have "\<dots> \<le> card (\<rho> ` ?B)" using fin sub by (intro card_mono) auto
  also have "\<dots> \<le> card ?B" using fin by (rule card_image_le)
  also have "\<dots> \<le> card (?row - {x})"
  proof (rule card_mono)
    show "?B \<subseteq> ?row - {x}" using D x by (fastforce simp: in_occupied)
  qed simp
  also have "\<dots> < 4"
  proof -
    have "x \<in> ?row" using x(1) by (simp add: in_occupied mem_Times_iff)
    then show ?thesis by (simp add: card_Diff_singleton)
  qed
  finally show False by simp
qed

lemma rehashed_insert:
  assumes R: "rehashed c ncap D N \<rho>" and D: "D \<subseteq> set (occupied c)" and x: "x \<in> set (occupied c)" "x \<notin> D"
    and y: "slot_invalid N y" "snd y < 4" "fst y = new_f c ncap x \<or> fst y = new_s c ncap x"
      "fst y mod unat (capacity c) = fst x"
  shows "rehashed c ncap (insert x D) (N(y := table c x)) (\<rho>(x := y))"
proof -
  have fresh: "y \<notin> \<rho> ` D"
    using R D y(1) by (auto simp: rehashed_def slot_invalid_def in_occupied cell_key_def)
  have "inj_on (\<rho>(x := y)) (insert x D)"
    using R x(2) fresh by (auto simp: rehashed_def inj_on_def)
  moreover have "(\<rho>(x := y)) ` insert x D = insert y (\<rho> ` D)" using x(2) by auto
  ultimately show ?thesis
    using R x(2) y fresh by (auto simp: rehashed_def)
qed

lemma rehash_slot_ok:
  assumes inv: "cuckoo_inv c" and ncap: "unat ncap = 2 * unat (capacity c)"
    and R: "rehashed c ncap D N \<rho>" and D: "D \<subseteq> set (occupied c)" and x: "x \<in> set (occupied c)" "x \<notin> D"
  obtains N' \<rho>' where "rehash_slot c ncap x N = Some N'" "rehashed c ncap (insert x D) N' \<rho>'"
proof -
  have sk: "cstr (slot_key c x) = cell_key c x"
    using x by (intro slot_key_cstr [OF inv]) (simp add: in_occupied)
  have idx: "unat (F_IDX (F_HASH c (slot_key c x)) ncap) = new_f c ncap x"
    "unat (S_IDX (S_HASH c (slot_key c x)) ncap) = new_s c ncap x"
    "f_idx c (slot_key c x) = f_idx c (cell_key c x)" "s_idx c (slot_key c x) = s_idx c (cell_key c x)"
    using sk by (auto simp: new_f_def new_s_def F_HASH_def S_HASH_def intro!: idx_cong)
  have home: "fst x = f_idx c (cell_key c x) \<or> fst x = s_idx c (cell_key c x)"
    using inv x by (auto simp: cuckoo_inv_def)
  have occ: "\<not> slot_invalid (table c) x" using x(1) by (simp add: occupied_def)
  let ?ks = "[0..<CUCKOO_HASH_ASSOC_NUM]"
  have "\<exists>N' b k. rehash_slot c ncap x N = Some N' \<and> (b = new_f c ncap x \<or> b = new_s c ncap x) \<and>
      b mod unat (capacity c) = fst x \<and> k \<in> set ?ks \<and> slot_invalid N (b, k) \<and> N' = N((b, k) := table c x)"
  proof (cases "f_idx c (cell_key c x) = s_idx c (cell_key c x)")
    case True
    have m: "new_f c ncap x mod unat (capacity c) = fst x" "new_s c ncap x mod unat (capacity c) = fst x"
      using home True by (simp_all add: new_idx_mod [OF ncap])
    obtain N' where N': "place_either N (new_f c ncap x) (new_s c ncap x) (table c x) ?ks = Some N'"
      using bucket_has_room [OF R D x m(1)] place_either_total by blast
    with place_either_Some [OF this] m True occ show ?thesis by (auto simp: rehash_slot_def Let_def idx)
  next
    case False
    define b where "b = (if f_idx c (cell_key c x) = fst x then new_f c ncap x else new_s c ncap x)"
    have m: "b mod unat (capacity c) = fst x"
      using home by (auto simp: b_def new_idx_mod [OF ncap])
    obtain N' where N': "place_one N b (table c x) ?ks = Some N'"
      using bucket_has_room [OF R D x m] place_one_total by blast
    then obtain k where k: "k \<in> set ?ks" "slot_invalid N (b, k)" "N' = N((b, k) := table c x)"
      using place_one_Some by blast
    have "rehash_slot c ncap x N = Some N'"
      unfolding rehash_slot_def Let_def idx entry_eta
      using N' False home occ by (cases "f_idx c (cell_key c x) = fst x") (simp_all add: b_def)
    moreover have "b = new_f c ncap x \<or> b = new_s c ncap x" by (simp add: b_def)
    ultimately show ?thesis using m k by blast
  qed
  then obtain N' b k where "rehash_slot c ncap x N = Some N'" "b = new_f c ncap x \<or> b = new_s c ncap x"
    "b mod unat (capacity c) = fst x" "k < 4" "slot_invalid N (b, k)" "N' = N((b, k) := table c x)"
    by (auto simp: CUCKOO_HASH_ASSOC_NUM_def)
  with rehashed_insert [OF R D x, of "(b, k)"] that show thesis by simp
qed

lemma rehash_cells_ok:
  assumes inv: "cuckoo_inv c" and ncap: "unat ncap = 2 * unat (capacity c)"
  shows "set cs \<subseteq> set (cells c) \<Longrightarrow> distinct cs \<Longrightarrow> D \<subseteq> set (occupied c) \<Longrightarrow> D \<inter> set cs = {} \<Longrightarrow>
    rehashed c ncap D N \<rho> \<Longrightarrow>
    \<exists>N' \<rho>'. rehash_cells c ncap cs N = Some N' \<and> rehashed c ncap (D \<union> (set cs \<inter> set (occupied c))) N' \<rho>'"
proof (induction cs arbitrary: D N \<rho>)
  case Nil
  then show ?case by auto
next
  case (Cons x cs)
  show ?case
  proof (cases "x \<in> set (occupied c)")
    case True
    have "x \<notin> D" using Cons.prems by simp
    then obtain N' \<rho>' where N': "rehash_slot c ncap x N = Some N'" "rehashed c ncap (insert x D) N' \<rho>'"
      using rehash_slot_ok [OF inv ncap Cons.prems(5,3) True] by blast
    moreover have "insert x D \<union> (set cs \<inter> set (occupied c)) = D \<union> (set (x # cs) \<inter> set (occupied c))"
      using True by auto
    ultimately show ?thesis
      using Cons.IH [OF _ _ _ _ N'(2)] Cons.prems True by simp
  next
    case False
    then have "slot_invalid (table c) x" using Cons.prems(1) by (simp add: occupied_def)
    moreover have "set (x # cs) \<inter> set (occupied c) = set cs \<inter> set (occupied c)" using False by auto
    ultimately show ?thesis
      using Cons.IH [OF _ _ _ _ Cons.prems(5)] Cons.prems by (simp add: rehash_slot_def)
  qed
qed

section \<open>The doubled table\<close>

lemma zero_entry_wf [simp]: "wf_entry zero_entry" "cstr (e_key zero_entry) = []"
  by (simp_all add: wf_entry_def zero_entry_def KEY_LEN_def VALUE_LEN_def cstr_def)

lemma rehashed_occupied:
  assumes inv: "cuckoo_inv c" and ncap: "unat ncap = 2 * unat (capacity c)"
    and R: "rehashed c ncap (set (occupied c)) N \<rho>"
    and c': "core c' = (N, ncap, f_seed c, s_seed c)"
  shows "set (occupied c') = \<rho> ` set (occupied c)"
proof -
  have tab: "table c' = N" "capacity c' = ncap" using c' by (simp_all add: core_def)
  have cap: "0 < ncap" using inv ncap by (metis cuckoo_inv_def nat_0_less_mult_iff unat_gt_0 word_gt_0 zero_less_numeral)
  have *: "\<rho> x \<in> set (occupied c')" if x: "x \<in> set (occupied c)" for x
  proof -
    have "new_f c ncap x < unat ncap" "new_s c ncap x < unat ncap"
      using unat_mod_less [OF cap] by (simp_all add: new_f_def new_s_def F_IDX_def S_IDX_def)
    moreover have "snd (\<rho> x) < 4" "N (\<rho> x) = table c x" "fst (\<rho> x) = new_f c ncap x \<or> fst (\<rho> x) = new_s c ncap x"
      using R x by (simp_all add: rehashed_def)
    ultimately show ?thesis using x tab by (auto simp: in_occupied cell_key_def)
  qed
  moreover have "y \<in> \<rho> ` set (occupied c)" if "y \<in> set (occupied c')" for y
    using that R tab by (auto simp: in_occupied cell_key_def rehashed_def)
  ultimately show ?thesis by blast
qed

lemma rehashed_complete:
  assumes inv: "cuckoo_inv c" and ncap: "unat ncap = 2 * unat (capacity c)"
    and R: "rehashed c ncap (set (occupied c)) N \<rho>"
    and c': "core c' = (N, ncap, f_seed c, s_seed c)"
  shows "cuckoo_inv c'" and "cuckoo_map c' = cuckoo_map c"
proof -
  have sel: "table c' = N" "capacity c' = ncap" "f_seed c' = f_seed c" "s_seed c' = s_seed c"
    using c' by (simp_all add: core_def)
  have occ: "set (occupied c') = \<rho> ` set (occupied c)" by (rule rehashed_occupied [OF assms])
  have at: "N (\<rho> x) = table c x" "cell_key c' (\<rho> x) = cell_key c x"
    "fst (\<rho> x) = new_f c ncap x \<or> fst (\<rho> x) = new_s c ncap x" if "x \<in> set (occupied c)" for x
    using R that sel by (simp_all add: rehashed_def cell_key_def)
  have idx: "f_idx c' (cell_key c x) = new_f c ncap x" "s_idx c' (cell_key c x) = new_s c ncap x" for x
    using sel by (simp_all add: f_idx_def s_idx_def new_f_def new_s_def F_HASH_def S_HASH_def)
  have "0 < capacity c'"
    using inv ncap sel by (metis cuckoo_inv_def nat_0_less_mult_iff unat_gt_0 word_gt_0 zero_less_numeral)
  moreover have "wf_entry (table c' y)" for y
  proof (cases "y \<in> \<rho> ` set (occupied c)")
    case True
    then obtain x where x: "x \<in> set (occupied c)" "y = \<rho> x" by blast
    then have "wf_entry (table c x)" using inv by (simp add: cuckoo_inv_def in_occupied)
    with x at sel show ?thesis by simp
  next
    case False
    then show ?thesis using R sel by (simp add: rehashed_def)
  qed
  moreover have "fst y = f_idx c' (cell_key c' y) \<or> fst y = s_idx c' (cell_key c' y)"
    if y: "y \<in> set (occupied c')" for y
  proof -
    obtain x where "x \<in> set (occupied c)" "y = \<rho> x" using y unfolding occ by blast
    with at(2,3) [of x] idx [of x] show ?thesis by simp
  qed
  moreover have "inj_on (cell_key c') (set (occupied c'))"
    using inv_keys_inj [OF inv] at(2) by (auto simp: occ inj_on_def)
  ultimately show inv': "cuckoo_inv c'" by (simp add: cuckoo_inv_def distinct_map)
  have "cuckoo_map c' k = Some v \<longleftrightarrow> cuckoo_map c k = Some v" for k v
    using at sel by (simp add: cuckoo_map_iff [OF inv] cuckoo_map_iff [OF inv'] occ)
  then show "cuckoo_map c' = cuckoo_map c"
    by (metis (no_types, lifting) ext option.exhaust)
qed

lemma cuckoo_resize_ok:
  assumes inv: "cuckoo_inv c" and small: "2 * unat (capacity c) < 2 ^ 64"
    and res: "cuckoo_resize c True = (r, c')"
  shows "r = SUCCESS \<and> cuckoo_inv c' \<and> cuckoo_map c' = cuckoo_map c \<and> unat (capacity c') = 2 * unat (capacity c)"
proof -
  define ncap where "ncap = capacity c * RESIZE_FACTOR"
  define c0 where "c0 = c\<lparr>init_write := init_write c + ncap * of_nat CUCKOO_HASH_ASSOC_NUM\<rparr>"
  have ncap: "unat ncap = 2 * unat (capacity c)"
    using small by (simp add: ncap_def RESIZE_FACTOR_def unat_word_ariths)
  have core: "core c0 = core c" by (simp add: c0_def core_def)
  have "rehashed c ncap {} (\<lambda>_. zero_entry) undefined" by (simp add: rehashed_def)
  from rehash_cells_ok [OF inv ncap _ _ _ _ this, of "cells c"]
  obtain N \<rho> where N: "rehash_cells c ncap (cells c) (\<lambda>_. zero_entry) = Some N"
    "rehashed c ncap (set (cells c) \<inter> set (occupied c)) N \<rho>" by auto
  have "set (cells c) \<inter> set (occupied c) = set (occupied c)" by (auto simp: in_occupied)
  with N(2) have R: "rehashed c ncap (set (occupied c)) N \<rho>" by simp
  have "rehash_cells c0 ncap (table_cells (unat (capacity c))) (\<lambda>_. zero_entry) = Some N"
    using N(1) by (simp add: core_cong [OF core] cells_def)
  with res have r: "r = SUCCESS" and c': "c' = c0\<lparr>capacity := ncap, table := N, table_len := ncap * of_nat BUCKET_T_BYTES, resize_write := resize_write c0 + entry_num c0\<rparr>"
    unfolding c0_def by (simp_all add: cuckoo_resize_def Let_def flip: ncap_def)
  have "core c' = (N, ncap, f_seed c, s_seed c)" by (simp add: c' core_def c0_def)
  from rehashed_complete [OF inv ncap R this] r ncap c' show ?thesis by simp
qed

end
