(* ===== verification/Kv_Table.thy ===== *)
theory Kv_Table
  imports Cuckoo_Resize
begin

text \<open>
  The contract of a key-value table that can refuse an insertion and can be grown, stated once
  as a locale; the cuckoo table interprets it. The client driver below is the loop every user of
  such a table writes: insert, grow when refused, insert again. The theory ends with the
  properties of \<open>cuckoo_hash.c\<close> as a whole.
\<close>

section \<open>The interface\<close>

locale kv_table =
  fixes inv :: "'t \<Rightarrow> bool" and \<alpha> :: "'t \<Rightarrow> 'k \<rightharpoonup> 'v"
    and ins :: "'t \<Rightarrow> 'k \<Rightarrow> 'v \<Rightarrow> bool \<times> 't" and upd :: "'t \<Rightarrow> 'k \<Rightarrow> 'v \<Rightarrow> bool \<times> 't"
    and qry :: "'t \<Rightarrow> 'k \<Rightarrow> 'v option" and grow :: "'t \<Rightarrow> bool \<Rightarrow> bool \<times> 't"
    and room :: "'t \<Rightarrow> bool" and okk :: "'k \<Rightarrow> bool" and okv :: "'v \<Rightarrow> bool"
  assumes ins: "\<lbrakk>inv t; okk k; okv v; \<alpha> t k = None; ins t k v = (r, t')\<rbrakk> \<Longrightarrow>
      inv t' \<and> \<alpha> t' = (if r then (\<alpha> t)(k \<mapsto> v) else \<alpha> t)"
    and upd: "\<lbrakk>inv t; okk k; okv v; upd t k v = (r, t')\<rbrakk> \<Longrightarrow>
      inv t' \<and> r = (k \<in> dom (\<alpha> t)) \<and> \<alpha> t' = (if r then (\<alpha> t)(k \<mapsto> v) else \<alpha> t)"
    and qry: "\<lbrakk>inv t; okk k\<rbrakk> \<Longrightarrow> qry t k = \<alpha> t k"
    and grow: "\<lbrakk>inv t; room t; grow t mem = (r, t')\<rbrakk> \<Longrightarrow> inv t' \<and> \<alpha> t' = \<alpha> t \<and> r = mem"
begin

definition put :: "'t \<Rightarrow> 'k \<Rightarrow> 'v \<Rightarrow> bool \<times> 't" where
  "put t k v = (if qry t k = None then ins t k v else upd t k v)"

lemma put_inv: "inv t \<Longrightarrow> okk k \<Longrightarrow> okv v \<Longrightarrow> put t k v = (r, t') \<Longrightarrow> inv t'"
  by (auto simp: put_def qry split: if_splits dest: ins upd)

lemma put_map:
  "inv t \<Longrightarrow> okk k \<Longrightarrow> okv v \<Longrightarrow> put t k v = (r, t') \<Longrightarrow> \<alpha> t' = (if r then (\<alpha> t)(k \<mapsto> v) else \<alpha> t)"
  by (simp add: put_def qry split: if_split_asm) (auto dest: ins upd)

lemma put_qry:
  assumes "inv t" "okk k" "okv v" "okk k'" "put t k v = (True, t')"
  shows "qry t' k' = (if k' = k then Some v else qry t k')"
  using put_map [OF assms(1-3,5)] put_inv [OF assms(1-3,5)] assms by (simp add: qry)

primrec puts :: "'t \<Rightarrow> ('k \<times> 'v) list \<Rightarrow> bool \<times> 't" where
  "puts t [] = (True, t)"
| "puts t (kv # kvs) =
     (let (r, t1) = put t (fst kv) (snd kv) in if r then puts t1 kvs else (False, t1))"

lemma puts_map:
  assumes "inv t" "\<forall>kv \<in> set kvs. okk (fst kv) \<and> okv (snd kv)" "puts t kvs = (True, t')"
  shows "inv t' \<and> \<alpha> t' = \<alpha> t ++ map_of (rev kvs)"
  using assms
proof (induction kvs arbitrary: t)
  case (Cons kv kvs)
  obtain r t1 where p: "put t (fst kv) (snd kv) = (r, t1)" by fastforce
  with Cons.prems(3) have r: "r" "puts t1 kvs = (True, t')" by (simp_all split: if_splits)
  have t1: "inv t1" "\<alpha> t1 = (\<alpha> t)(fst kv \<mapsto> snd kv)"
    using put_inv [OF Cons.prems(1) _ _ p] put_map [OF Cons.prems(1) _ _ p] Cons.prems(2) r by simp_all
  have "\<alpha> t ++ map_of (rev (kv # kvs)) = (\<alpha> t)(fst kv \<mapsto> snd kv) ++ map_of (rev kvs)"
    by (cases kv) (auto simp: fun_eq_iff map_add_def split: option.split)
  with Cons.IH [OF t1(1) _ r(2)] Cons.prems(2) t1(2) show ?case by (simp add: fun_upd_def)
qed simp

lemma grow_qry: "inv t \<Longrightarrow> room t \<Longrightarrow> okk k \<Longrightarrow> grow t mem = (r, t') \<Longrightarrow> qry t' k = qry t k"
  using grow by (simp add: qry)

end

section \<open>The cuckoo table as a key-value table\<close>

definition pad_key :: "bytes \<Rightarrow> bytes" where
  "pad_key k = k @ replicate (KEY_LEN - length k) 0"

definition short_key :: "bytes \<Rightarrow> bool" where
  "short_key k \<longleftrightarrow> 0 \<notin> set k \<and> k \<noteq> [] \<and> length k < KEY_LEN"

definition can_double :: "cuckoo_hash_t \<Rightarrow> bool" where
  "can_double c \<longleftrightarrow> 2 * unat (capacity c) < 2 ^ 64"

definition ok_fst :: "status_t \<times> 'a \<Rightarrow> bool \<times> 'a" where
  "ok_fst p = (fst p = SUCCESS, snd p)"

lemma pad_key_wf: "short_key k \<Longrightarrow> wf_key (pad_key k) \<and> cstr (pad_key k) = k"
proof -
  assume k: "short_key k"
  then obtain n where "KEY_LEN - length k = Suc n"
    by (metis Suc_pred short_key_def zero_less_diff)
  with k show ?thesis by (auto simp: wf_key_def pad_key_def short_key_def)
qed

lemma ok_fst_eq: "ok_fst p = (r, t) \<longleftrightarrow> (\<exists>s. p = (s, t) \<and> r = (s = SUCCESS))"
  by (cases p) (auto simp: ok_fst_def)

lemma cuckoo_resize_False: "cuckoo_resize c False = (STATUS_ENOSPC, c)"
  by (simp add: cuckoo_resize_def)

interpretation ck: kv_table cuckoo_inv cuckoo_map
  "\<lambda>c k v. ok_fst (cuckoo_insert c (pad_key k) v)" "\<lambda>c k v. ok_fst (cuckoo_update c (pad_key k) v)"
  "\<lambda>c k. snd (cuckoo_query c (pad_key k))" "\<lambda>c mem. ok_fst (cuckoo_resize c mem)"
  can_double short_key "\<lambda>v. length v = VALUE_LEN"
proof
  fix c c' :: cuckoo_hash_t and k v :: bytes and r mem :: bool
  note wf = pad_key_wf [of k]
  {
    assume "cuckoo_inv c" "short_key k" "length v = VALUE_LEN" "cuckoo_map c k = None"
      "ok_fst (cuckoo_insert c (pad_key k) v) = (r, c')"
    then show "cuckoo_inv c' \<and> cuckoo_map c' = (if r then (cuckoo_map c)(k \<mapsto> v) else cuckoo_map c)"
      using wf cuckoo_insert_cases [of c "pad_key k" v] by (fastforce simp: ok_fst_eq wf_value_def)
  next
    assume "cuckoo_inv c" "short_key k" "length v = VALUE_LEN" "ok_fst (cuckoo_update c (pad_key k) v) = (r, c')"
    then show "cuckoo_inv c' \<and> r = (k \<in> dom (cuckoo_map c)) \<and>
        cuckoo_map c' = (if r then (cuckoo_map c)(k \<mapsto> v) else cuckoo_map c)"
      using wf cuckoo_update_map [of c "pad_key k" v]
      by (fastforce simp: ok_fst_eq wf_value_def wf_key_def split: if_splits)
  next
    assume "cuckoo_inv c" "short_key k"
    then show "snd (cuckoo_query c (pad_key k)) = cuckoo_map c k"
      using wf cuckoo_query_map [of c "pad_key k"] by (auto simp: wf_key_def split: option.splits)
  next
    assume "cuckoo_inv c" "can_double c" "ok_fst (cuckoo_resize c mem) = (r, c')"
    then show "cuckoo_inv c' \<and> cuckoo_map c' = cuckoo_map c \<and> r = mem"
    proof (cases mem)
      case True
      then obtain s where s: "cuckoo_resize c True = (s, c')" "r = (s = SUCCESS)"
        using \<open>ok_fst (cuckoo_resize c mem) = (r, c')\<close> unfolding ok_fst_eq by auto
      from cuckoo_resize_ok [OF \<open>cuckoo_inv c\<close> _ s(1)] \<open>can_double c\<close> True s(2) show ?thesis
        unfolding can_double_def by blast
    next
      case False
      with \<open>cuckoo_inv c\<close> \<open>ok_fst (cuckoo_resize c mem) = (r, c')\<close> show ?thesis
        by (auto simp: cuckoo_resize_False ok_fst_def)
    qed
  }
qed

section \<open>The entry counter\<close>






lemma finite_dom_cuckoo_map [simp]: "finite (dom (cuckoo_map c))"
  by (simp add: cuckoo_map_def finite_dom_map_of)


section \<open>Histories of a table\<close>

datatype cuckoo_op = Insert bytes bytes | Update bytes bytes | Resize bool

inductive cuckoo_step :: "cuckoo_hash_t \<Rightarrow> cuckoo_op \<Rightarrow> status_t \<Rightarrow> cuckoo_hash_t \<Rightarrow> bool" where
  step_insert: "\<lbrakk>short_key k; length v = VALUE_LEN; fst (cuckoo_query c (pad_key k)) = FAIL;
    cuckoo_insert c (pad_key k) v = (r, c')\<rbrakk> \<Longrightarrow> cuckoo_step c (Insert k v) r c'"
| step_update: "\<lbrakk>short_key k; length v = VALUE_LEN; cuckoo_update c (pad_key k) v = (r, c')\<rbrakk> \<Longrightarrow>
    cuckoo_step c (Update k v) r c'"
| step_resize: "\<lbrakk>can_double c; cuckoo_resize c mem = (r, c')\<rbrakk> \<Longrightarrow> cuckoo_step c (Resize mem) r c'"

inductive cuckoo_reach :: "cuckoo_hash_t \<Rightarrow> bool" where
  reach_init: "cuckoo_hash_init rnd True True True True junk cap = Some (Inr c) \<Longrightarrow> 0 < cap \<Longrightarrow> cuckoo_reach c"
| reach_step: "cuckoo_reach c \<Longrightarrow> cuckoo_step c op r c' \<Longrightarrow> cuckoo_reach c'"

inductive_cases cuckoo_stepE: "cuckoo_step c op r c'"

lemma empty_table_inv:
  assumes "table c = (\<lambda>_. zero_entry)" "0 < capacity c"
  shows "cuckoo_inv c" "cuckoo_map c = Map.empty"
proof -
  have "occupied c = []"
    using assms by (simp add: occupied_def filter_empty_conv slot_invalid_def)
  then show "cuckoo_inv c" "cuckoo_map c = Map.empty"
    using assms by (simp_all add: cuckoo_inv_def cuckoo_map_def)
qed

lemma init_table:
  "cuckoo_hash_init rnd a b1 b2 t junk cap = Some (Inr c) \<Longrightarrow>
    table c = (\<lambda>_. zero_entry) \<and> capacity c = cap \<and> entry_num c = 0"
  by (auto simp: cuckoo_hash_init_def split: if_splits)




section \<open>The memory of the table\<close>

lemma bucket_t_48: "BUCKET_T_BYTES = 48"
  by (simp add: BUCKET_T_BYTES_def CUCKOO_HASH_ASSOC_NUM_def KEY_LEN_def VALUE_LEN_def)

lemma wrapped_fits: "48 * unat cap \<le> unat (48 * cap :: u64) \<longleftrightarrow> 48 * unat cap < 2 ^ 64"
proof
  assume "48 * unat cap \<le> unat (48 * cap)"
  then show "48 * unat cap < 2 ^ 64" using unsigned_less [of "48 * cap", where ?'a = nat] by simp
next
  assume "48 * unat cap < 2 ^ 64"
  then show "48 * unat cap \<le> unat (48 * cap)" by (simp add: unat_word_ariths)
qed

lemma init_table_len: "cuckoo_hash_init rnd a b1 b2 t junk cap = Some (Inr c) \<Longrightarrow> table_len c = 48 * cap"
  by (auto simp: cuckoo_hash_init_def bucket_t_48 split: if_splits)

lemma find_path_len: "table_len (snd (find_path c b s p)) = table_len c" "capacity (snd (find_path c b s p)) = capacity c"
  by (simp_all add: find_path_def Let_def split: prod.split)

lemma insert_evict_len: "table_len (snd (insert_evict c key v is)) = table_len c \<and> capacity (snd (insert_evict c key v is)) = capacity c"
proof (induction c key v "is" rule: insert_evict.induct)
  case (2 c key v i "is")
  obtain p1 c1 where c1: "find_path c (f_idx c key) i 1 = (p1, c1)" by fastforce
  obtain p2 c2 where c2: "find_path c1 (s_idx c1 key) i 2 = (p2, c2)" by fastforce
  have e: "table_len c2 = table_len c" "capacity c2 = capacity c"
    using find_path_len [of c "f_idx c key" i 1] find_path_len [of c1 "s_idx c1 key" i 2] c1 c2 by simp_all
  show ?case
    using 2 c1 c2 e by (cases "p1 = 0 \<and> p2 = 0") (auto simp: Let_def execute_path_def simp del: One_nat_def split: prod.splits if_splits)
qed simp

lemma step_table_len:
  assumes "cuckoo_step c op r c'" "table_len c = 48 * capacity c"
  shows "table_len c' = 48 * capacity c'"
  using assms
proof cases
  case (step_insert k v)
  then have "table_len c' = table_len c \<and> capacity c' = capacity c"
    using insert_evict_len [of c "pad_key k" v "[0..<CUCKOO_HASH_ASSOC_NUM]"]
    by (auto simp: cuckoo_insert_def split: option.splits dest!: insert_free_Some)
  then show ?thesis using assms(2) by simp
next
  case (step_update k v)
  then show ?thesis using assms(2) by (auto simp: cuckoo_update_def split: option.splits)
next
  case (step_resize mem)
  then show ?thesis using assms(2) by (auto simp: cuckoo_resize_def Let_def bucket_t_48 split: if_splits option.splits)
qed

text \<open>In every table of a history the allocation is the wrapped product for its capacity, so it fits when that is below \<open>2^64\<close>.\<close>

lemma reach_table_fits: "cuckoo_reach c \<Longrightarrow> table_fits c \<longleftrightarrow> 48 * unat (capacity c) < 2 ^ 64"
proof -
  assume "cuckoo_reach c"
  then have "table_len c = 48 * capacity c"
    by (induction rule: cuckoo_reach.induct) (use init_table_len init_table step_table_len in \<open>metis\<close>)+
  then show ?thesis by (simp add: table_fits_def bucket_t_48 wrapped_fits)
qed

text \<open>
  Matching a key that fills its field. The string in its own cell runs on into the value; a cell whose key
  has a NUL byte holds a shorter string.
\<close>

lemma full_width_match:
  assumes "x \<in> set (cells c)" "capacity c' = capacity c" "length key = KEY_LEN" "cstr km = key" "0 \<notin> set key" "wf_value v"
    "table c' x = \<lparr>e_key = key, e_value = take VALUE_LEN v\<rparr>"
  shows "key_matches c' x km \<longleftrightarrow> hd v = 0"
proof -
  obtain w vs where v: "v = w # vs" using assms(6) by (cases v) (auto simp: wf_value_def VALUE_LEN_def)
  obtain q where "slot_key c' x = key @ take VALUE_LEN v @ q"
    using slot_mem_entry [of "fst x" "unat (capacity c')" "snd x" "table c'"] assms(1,2,7) by (auto simp: slot_key_def)
  then show ?thesis using v assms(3,4) by (auto simp: key_matches_def VALUE_LEN_def)
qed

lemma short_key_match:
  assumes "y \<in> set (cells c)" "capacity c' = capacity c" "wf_entry (table c' y)" "length (cstr km) = KEY_LEN"
  shows "\<not> key_matches c' y km"
proof -
  obtain q where q: "slot_key c' y = e_key (table c' y) @ q"
    using slot_mem_split [of "fst y" "unat (capacity c')" "snd y" "table c'"] assms(1,2) by (auto simp: slot_key_def)
  have z: "0 \<in> set (e_key (table c' y))" "length (e_key (table c' y)) = KEY_LEN" using assms(3) by (simp_all add: wf_entry_def)
  then have "length (cstr (e_key (table c' y))) < KEY_LEN" using cstr_len_less [of "e_key (table c' y)"] by simp
  then have "cstr (e_key (table c' y)) \<noteq> cstr km" using assms(4) by auto
  then show ?thesis using match_prefix_iff [OF z(1) cstr_no_nul, of km q] by (simp add: key_matches_def q del: take_append)
qed

section \<open>Seeds\<close>

lemma generate_seeds_differ: "generate_seeds rnd n = Some p \<Longrightarrow> fst p \<noteq> fst (snd p)"
  by (erule generate_seeds.raw_induct [rotated]) (auto simp: Let_def split: if_splits)

definition seed_pair :: "(nat \<Rightarrow> u64) \<Rightarrow> nat \<Rightarrow> u64 \<times> u64" where
  "seed_pair rnd n = (push_bit (unat (rnd (n + 2) mod 63)) (rnd n), push_bit (unat (rnd (n + 3) mod 63)) (rnd (n + 1)))"

lemma generate_seeds_step:
  "generate_seeds rnd n =
     (if fst (seed_pair rnd n) = snd (seed_pair rnd n) then generate_seeds rnd (n + 4)
      else Some (fst (seed_pair rnd n), snd (seed_pair rnd n), n + 4))"
  by (subst generate_seeds.simps) (simp add: Let_def seed_pair_def)

lemma generate_seeds_returns:
  "fst (seed_pair rnd (n + 4 * j)) \<noteq> snd (seed_pair rnd (n + 4 * j)) \<Longrightarrow> \<exists>r. generate_seeds rnd n = Some r"
proof (induction j arbitrary: n)
  case (Suc j)
  then have "\<exists>r. generate_seeds rnd (n + 4) = Some r" by (simp add: add.assoc [symmetric] add.commute)
  then show ?case by (subst generate_seeds_step) simp
qed (simp add: generate_seeds_step)

lemma init_seeds:
  assumes "cuckoo_hash_init rnd a b1 b2 t junk cap = Some (Inr c)"
  shows "f_seed c \<noteq> s_seed c"
  using assms generate_seeds_differ [of rnd 0] by (auto simp: cuckoo_hash_init_def split: if_splits)

lemma seeds_hash_differ:
  assumes "f_seed c \<noteq> s_seed c" "length (cstr key) < 32"
  shows "F_HASH c key \<noteq> S_HASH c key"
  using assms by (simp add: F_HASH_def S_HASH_def short_key_hash Let_def step_inj tail8_fst tail4_fst)

section \<open>A small table\<close>

text \<open>A table of one bucket, as \<open>cuckoo_hash_init\<close> builds it from the random numbers 0, 1, 2, 3.\<close>

definition junk_path :: "nat \<Rightarrow> path_node_t" where
  "junk_path = (\<lambda>_. \<lparr>pre_bucket = 0, pre_slot = 0, next_bucket = 0, next_slot = 0\<rparr>)"

definition small_table :: cuckoo_hash_t where
  "small_table = \<lparr>table = (\<lambda>_. zero_entry), table_len = 48, capacity = 1, entry_num = 0, f_seed = 0, s_seed = 8,
     evict_path1 = junk_path, evict_path2 = junk_path, evict_len = 0, find_path_cnt = 0,
     resize_write = 0, init_write = 4\<rparr>"

lemma small_table_init: "cuckoo_hash_init of_nat True True True True junk_path 1 = Some (Inr small_table)"
proof -
  have "seed_pair of_nat 0 = (0, 8)"
    by (simp add: seed_pair_def push_bit_of_1 unat_mod_distrib)
  then have "generate_seeds of_nat 0 = Some (0, 8, 4)"
    by (subst generate_seeds_step) simp
  then show ?thesis
    by (simp add: cuckoo_hash_init_def small_table_def CUCKOO_HASH_ASSOC_NUM_def BUCKET_T_BYTES_def KEY_LEN_def VALUE_LEN_def)
qed

lemma small_table_sel [simp]:
  "table small_table = (\<lambda>_. zero_entry)" "capacity small_table = 1" "entry_num small_table = 0"
  "f_seed small_table = 0" "s_seed small_table = 8"
  by (simp_all add: small_table_def)

lemma small_table_inv [simp]: "cuckoo_inv small_table" "cuckoo_map small_table = Map.empty"
  using empty_table_inv [of small_table] by simp_all

lemma one_bucket_idx:
  "capacity c = 1 \<Longrightarrow> f_idx c k = 0" "capacity c = 1 \<Longrightarrow> s_idx c k = 0"
  by (simp_all add: f_idx_def s_idx_def F_IDX_def S_IDX_def)

lemma small_table_insert:
  "cuckoo_insert small_table key v =
     (SUCCESS, small_table\<lparr>table := store (\<lambda>_. zero_entry) (0, 0) key v, entry_num := 1\<rparr>)"
proof -
  have "[0..<CUCKOO_HASH_ASSOC_NUM] = 0 # [1..<CUCKOO_HASH_ASSOC_NUM]"
    by (simp add: CUCKOO_HASH_ASSOC_NUM_def upt_rec)
  then show ?thesis
    by (simp add: cuckoo_insert_def one_bucket_idx slot_invalid_def)
qed

section \<open>Properties of the table\<close>



text \<open>
  C6: Inserting an absent key either succeeds and adds exactly that binding, whatever entries the
  eviction path had to move, or reports FAIL and leaves the contents of the table as they were;
  the invariant is kept either way.
\<close>
theorem cuckoo_insert_refines_map:
  assumes "cuckoo_inv c" and "wf_key key" and "wf_value v" and "cuckoo_map c (cstr key) = None"
  shows "cuckoo_inv (snd (cuckoo_insert c key v)) \<and>
    (fst (cuckoo_insert c key v) = SUCCESS \<and>
       cuckoo_map (snd (cuckoo_insert c key v)) = (cuckoo_map c)(cstr key \<mapsto> take VALUE_LEN v) \<or>
     fst (cuckoo_insert c key v) = FAIL \<and> cuckoo_map (snd (cuckoo_insert c key v)) = cuckoo_map c)"
  using cuckoo_insert_cases [OF assms, of "fst (cuckoo_insert c key v)" "snd (cuckoo_insert c key v)"] by auto

theorem cuckoo_insert_refines_map_witness:
  "cuckoo_map (snd (cuckoo_insert small_table [97, 98, 0, 0] [1,2,3,4,5,6,7,8])) = [[97, 98] \<mapsto> [1,2,3,4,5,6,7,8]]"
  using cuckoo_insert_refines_map [of small_table "[97, 98, 0, 0]" "[1,2,3,4,5,6,7,8]"]
  by (simp add: wf_key_def wf_value_def KEY_LEN_def VALUE_LEN_def cstr_def small_table_insert)

text \<open>
  After a successful insertion of an absent key, a query for that key returns the stored
  value and a query for any other key returns what it returned before.
\<close>
theorem cuckoo_insert_then_query:
  assumes "cuckoo_inv c" "short_key k" "length v = VALUE_LEN" "snd (cuckoo_query c (pad_key k)) = None"
    and "cuckoo_insert c (pad_key k) v = (SUCCESS, c')" and "short_key k'"
  shows "snd (cuckoo_query c' (pad_key k')) = (if k' = k then Some v else snd (cuckoo_query c (pad_key k')))"
proof -
  have "ck.put c k v = (True, c')" using assms(4,5) unfolding ck.put_def by (simp add: ok_fst_def)
  from ck.put_qry [OF assms(1-3,6) this] show ?thesis .
qed

theorem cuckoo_insert_then_query_witness:
  "snd (cuckoo_query (small_table\<lparr>table := store (\<lambda>_. zero_entry) (0, 0) (pad_key [97]) [1,2,3,4,5,6,7,8], entry_num := 1\<rparr>)
     (pad_key [97])) = Some [1,2,3,4,5,6,7,8]"
  using cuckoo_insert_then_query [of small_table "[97]" "[1,2,3,4,5,6,7,8]" _ "[97]", OF _ _ _ _ small_table_insert]
  by (simp add: short_key_def KEY_LEN_def VALUE_LEN_def ck.qry)

text \<open>
  An update succeeds exactly on the keys that are present; it then replaces the value of that
  key and of no other, and on an absent key it reports FAIL and changes nothing.
\<close>
theorem cuckoo_update_refines_map:
  assumes "cuckoo_inv c" and "cstr key \<noteq> []" and "wf_value v"
  shows "cuckoo_inv (snd (cuckoo_update c key v)) \<and>
    (if cstr key \<in> dom (cuckoo_map c)
     then fst (cuckoo_update c key v) = SUCCESS \<and>
          cuckoo_map (snd (cuckoo_update c key v)) = (cuckoo_map c)(cstr key \<mapsto> take VALUE_LEN v)
     else cuckoo_update c key v = (FAIL, c))"
  using cuckoo_update_map [OF assms, of "fst (cuckoo_update c key v)" "snd (cuckoo_update c key v)"]
  by (cases "cuckoo_update c key v") (auto split: if_splits)

theorem cuckoo_update_refines_map_witness:
  "cuckoo_update small_table [97, 0] [1,2,3,4,5,6,7,8] = (FAIL, small_table)"
  using cuckoo_update_refines_map [of small_table "[97, 0]" "[1,2,3,4,5,6,7,8]"]
  by (simp add: wf_value_def VALUE_LEN_def cstr_def)

text \<open>
  C11: A resize whose allocation succeeds never runs out of room: it returns SUCCESS, doubles the
  capacity, keeps the invariant and keeps every binding. (An entry of old bucket b only goes to
  the new buckets b and b + capacity, so no new bucket gets more than its four entries.)
\<close>
theorem cuckoo_resize_succeeds:
  assumes "cuckoo_inv c" and "2 * unat (capacity c) < 2 ^ 64"
  shows "fst (cuckoo_resize c True) = SUCCESS \<and> cuckoo_inv (snd (cuckoo_resize c True)) \<and>
    cuckoo_map (snd (cuckoo_resize c True)) = cuckoo_map c \<and>
    unat (capacity (snd (cuckoo_resize c True))) = 2 * unat (capacity c)"
  using cuckoo_resize_ok [OF assms, of "fst (cuckoo_resize c True)" "snd (cuckoo_resize c True)"] by auto

theorem cuckoo_resize_succeeds_witness:
  "fst (cuckoo_resize small_table True) = SUCCESS \<and> unat (capacity (snd (cuckoo_resize small_table True))) = 2"
  using cuckoo_resize_succeeds [of small_table] by simp

text \<open>
  The two hash functions of a constructed table differ on every key the table can hold: the
  seed loop of \<open>generate_seeds\<close> only ends with different seeds, and the hash is injective in its
  seed.
\<close>
theorem cuckoo_two_hashes_differ:
  assumes "cuckoo_hash_init rnd a b1 b2 t junk cap = Some (Inr c)" and "length (cstr key) < 32"
  shows "F_HASH c key \<noteq> S_HASH c key"
  using seeds_hash_differ [OF init_seeds [OF assms(1)] assms(2)] .

theorem cuckoo_two_hashes_differ_witness: "F_HASH small_table [97, 0] \<noteq> S_HASH small_table [97, 0]"
  by (rule cuckoo_two_hashes_differ [OF small_table_init]) (simp add: cstr_def)

text \<open>
  C38: The seed loop ends as soon as the random source delivers one group of four words from which
  the two shifted seeds differ, and construction then returns a table of that capacity, with every entry
  empty. The memory behind it holds all the buckets exactly when 48 times the capacity does not wrap around in
  64 bits: the product is not checked before the allocation.
\<close>
theorem cuckoo_hash_init_returns:
  assumes "fst (seed_pair rnd (4 * j)) \<noteq> snd (seed_pair rnd (4 * j))"
  shows "\<exists>c. cuckoo_hash_init rnd True True True True junk cap = Some (Inr c) \<and> capacity c = cap \<and>
    cuckoo_map c = Map.empty \<and> (table_fits c \<longleftrightarrow> 48 * unat cap < 2 ^ 64)"
proof -
  obtain c where c: "cuckoo_hash_init rnd True True True True junk cap = Some (Inr c)"
    using generate_seeds_returns [of rnd 0 j] assms by (auto simp: cuckoo_hash_init_def)
  then have t: "table c = (\<lambda>_. zero_entry)" "capacity c = cap" using init_table by blast+
  then have "cuckoo_map c = Map.empty" by (simp add: cuckoo_map_def occupied_def slot_invalid_def)
  moreover have "table_fits c \<longleftrightarrow> 48 * unat cap < 2 ^ 64"
    using wrapped_fits [of cap] t(2) init_table_len [OF c] by (simp add: table_fits_def bucket_t_48)
  ultimately show ?thesis using c t(2) by blast
qed

theorem cuckoo_hash_init_returns_witness:
  "(\<exists>c. cuckoo_hash_init of_nat True True True True junk_path 8 = Some (Inr c) \<and> capacity c = 8 \<and> table_fits c) \<and>
   (\<exists>c. cuckoo_hash_init of_nat True True True True junk_path 0x1000000000000000 = Some (Inr c) \<and> \<not> table_fits c)"
proof -
  have s: "fst (seed_pair of_nat (4 * 0)) \<noteq> snd (seed_pair of_nat (4 * 0))"
    by (simp add: seed_pair_def push_bit_of_1 unat_mod_distrib)
  show ?thesis
    using cuckoo_hash_init_returns [OF s, of junk_path 8] cuckoo_hash_init_returns [OF s, of junk_path "0x1000000000000000"] by auto
qed

text \<open>
  C39: Inserting a key that fills all four key bytes into a well-formed table (whose keys are all shorter):
  the entry has no room for the NUL, so the \<open>strcmp\<close> of a query runs on into the value. When the insertion
  reports SUCCESS, a query for the very same key finds it only if the value begins with a 0 byte, and
  otherwise fails.
\<close>
theorem cuckoo_full_width_key_lost:
  assumes "cuckoo_inv c" "length key = KEY_LEN" "0 \<notin> set key" "wf_value v" "cuckoo_insert c (key @ 0 # r) v = (SUCCESS, c')"
  shows "fst (cuckoo_query c' (key @ 0 # r)) = (if hd v = 0 then SUCCESS else FAIL)"
proof -
  let ?k = "key @ 0 # r"
  obtain x T where x: "x \<in> set (cells c)" "fst x = f_idx c ?k \<or> fst x = s_idx c ?k"
    "core c' = (store T x ?k v, capacity c, f_seed c, s_seed c)" "\<forall>y\<in>set (cells c). wf_entry (T y)"
    by (rule cuckoo_insert_places [OF assms(1,5)])
  have tab: "table c' = store T x ?k v" "capacity c' = capacity c" "f_seed c' = f_seed c" "s_seed c' = s_seed c"
    using x(3) by (simp_all add: core_def)
  have idx: "f_idx c' = f_idx c" "s_idx c' = s_idx c" by (simp_all add: fun_eq_iff f_idx_def s_idx_def F_HASH_def S_HASH_def tab)
  have ck: "cstr ?k = key" using assms(3) by simp
  have hit: "key_matches c' x ?k \<longleftrightarrow> hd v = 0"
    by (rule full_width_match) (use assms x(1) tab ck in \<open>simp_all add: store_def\<close>)
  have miss: "\<not> key_matches c' y ?k" if y: "y \<in> set (cells c)" "y \<noteq> x" for y
    by (rule short_key_match) (use x(4) y assms(2) tab ck in \<open>simp_all add: store_def\<close>)
  let ?is = "[0..<CUCKOO_HASH_ASSOC_NUM]"
  have "probe c' ?k ?is = None \<longleftrightarrow> hd v \<noteq> 0"
  proof (cases "hd v = 0")
    case True
    have "(f_idx c ?k, snd x) = x \<or> (s_idx c ?k, snd x) = x" using x(2) by (metis prod.collapse)
    moreover have "snd x \<in> set ?is" using x(1) by (simp add: CUCKOO_HASH_ASSOC_NUM_def)
    ultimately have "probe c' ?k ?is \<noteq> None" unfolding probe_None_iff idx using hit True by metis
    then show ?thesis using True by simp
  next
    case False
    have "\<not> key_matches c' y ?k" if "y \<in> set (cells c)" for y using that hit miss False by (cases "y = x") simp_all
    then show ?thesis using False idx_less [OF assms(1), of ?k] by (simp add: probe_None_iff idx CUCKOO_HASH_ASSOC_NUM_def)
  qed
  then show ?thesis by (cases "probe c' ?k ?is") (simp_all add: cuckoo_query_def)
qed

theorem cuckoo_full_width_key_lost_witness:
  "\<exists>c. cuckoo_insert small_table [97, 98, 99, 100, 0] [1,2,3,4,5,6,7,8] = (SUCCESS, c) \<and>
     fst (cuckoo_query c [97, 98, 99, 100, 0]) = FAIL"
  using cuckoo_full_width_key_lost [of small_table "[97, 98, 99, 100]" "[1,2,3,4,5,6,7,8]" "[]", OF _ _ _ _ small_table_insert]
  by (simp add: small_table_insert KEY_LEN_def VALUE_LEN_def wf_value_def)

end
