(* ===== verification/Bitmap.thy ===== *)
theory Bitmap
  imports Flatfs_Prelude
begin

text \<open>
  The kernel's bitmaps as the module uses them: \<open>DECLARE_BITMAP(name, bits)\<close> is an array of
  \<open>unsigned long\<close>, here a list of 64-bit words. The locale \<open>bitmap_api\<close> is the contract the
  allocators rely on (slots of a bucket, directory ids, extension tables); its lemmas say that
  taking the first zero bit and setting it allocates a fresh number, and that clearing it gives
  the number back. The word lists are its interpretation.
\<close>

type_synonym bitmap = "u64 list"

section \<open>Operations\<close>

definition BITS_PER_LONG :: nat where
  "BITS_PER_LONG = 64"

definition BITS_TO_LONGS :: "nat \<Rightarrow> nat" where
  "BITS_TO_LONGS n = (n + BITS_PER_LONG - 1) div BITS_PER_LONG"

definition bitmap_bits :: "bitmap \<Rightarrow> nat" where
  "bitmap_bits bm = BITS_PER_LONG * length bm"

definition test_bit :: "nat \<Rightarrow> bitmap \<Rightarrow> bool" where
  "test_bit nr bm \<longleftrightarrow>
     nr div BITS_PER_LONG < length bm \<and> bit (bm ! (nr div BITS_PER_LONG)) (nr mod BITS_PER_LONG)"

definition set_bit1 :: "nat \<Rightarrow> bitmap \<Rightarrow> bitmap" where
  "set_bit1 nr bm =
     bm[nr div BITS_PER_LONG := set_bit (nr mod BITS_PER_LONG) (bm ! (nr div BITS_PER_LONG))]"

definition clear_bit1 :: "nat \<Rightarrow> bitmap \<Rightarrow> bitmap" where
  "clear_bit1 nr bm =
     bm[nr div BITS_PER_LONG := unset_bit (nr mod BITS_PER_LONG) (bm ! (nr div BITS_PER_LONG))]"

definition bitmap_set :: "bitmap \<Rightarrow> nat \<Rightarrow> nat \<Rightarrow> bitmap" where
  "bitmap_set bm start len = fold set_bit1 [start..<start + len] bm"

definition bitmap_clear :: "bitmap \<Rightarrow> nat \<Rightarrow> nat \<Rightarrow> bitmap" where
  "bitmap_clear bm start len = fold clear_bit1 [start..<start + len] bm"

definition bitmap_zero :: "bitmap \<Rightarrow> nat \<Rightarrow> bitmap res" where
  "bitmap_zero bm nbits =
     (if BITS_TO_LONGS nbits \<le> length bm
      then Inr (replicate (BITS_TO_LONGS nbits) 0 @ drop (BITS_TO_LONGS nbits) bm)
      else Inl OutOfBounds)"

function ffz_from :: "bitmap \<Rightarrow> nat \<Rightarrow> nat \<Rightarrow> nat res" where
  "ffz_from bm sz i =
     (if sz \<le> i then Inr sz
      else if bitmap_bits bm \<le> i then Inl OutOfBounds
      else if test_bit i bm then ffz_from bm sz (Suc i)
      else Inr i)"
  by pat_completeness auto
termination
  by (relation "measure (\<lambda>(bm, sz, i). sz - i)") auto

declare ffz_from.simps [simp del]

definition find_first_zero_bit :: "bitmap \<Rightarrow> nat \<Rightarrow> nat res" where
  "find_first_zero_bit bm sz = ffz_from bm sz 0"

section \<open>The contract of an allocation bitmap\<close>

locale bitmap_api =
  fixes tst :: "nat \<Rightarrow> 'b \<Rightarrow> bool"
    and mark :: "'b \<Rightarrow> nat \<Rightarrow> 'b"
    and unmark :: "'b \<Rightarrow> nat \<Rightarrow> 'b"
    and ffz :: "'b \<Rightarrow> nat \<Rightarrow> nat res"
    and bits :: "'b \<Rightarrow> nat"
  assumes tst_mark: "i < bits b \<Longrightarrow> tst j (mark b i) \<longleftrightarrow> j = i \<or> tst j b"
    and tst_unmark: "i < bits b \<Longrightarrow> tst j (unmark b i) \<longleftrightarrow> j \<noteq> i \<and> tst j b"
    and bits_mark: "bits (mark b i) = bits b"
    and bits_unmark: "bits (unmark b i) = bits b"
    and ffz_found: "i < n \<Longrightarrow> ffz b n = Inr i \<Longrightarrow> \<not> tst i b \<and> i < bits b \<and> (\<forall>j<i. tst j b)"
    and ffz_full: "n \<le> bits b \<Longrightarrow> ffz b n = Inr n \<longleftrightarrow> (\<forall>j<n. tst j b)"
    and ffz_total: "n \<le> bits b \<Longrightarrow> \<exists>i\<le>n. ffz b n = Inr i"
begin

definition used :: "'b \<Rightarrow> nat \<Rightarrow> nat set" where
  "used b n = {i. i < n \<and> tst i b}"

lemma finite_used [simp]: "finite (used b n)"
  by (simp add: used_def)

lemma used_mark: "i < bits b \<Longrightarrow> i < n \<Longrightarrow> used (mark b i) n = insert i (used b n)"
  by (auto simp: used_def tst_mark)

lemma used_unmark: "i < bits b \<Longrightarrow> used (unmark b i) n = used b n - {i}"
  by (auto simp: used_def tst_unmark)

lemma alloc_fresh:
  assumes "ffz b n = Inr i" and "i < n"
  shows "i \<notin> used b n" and "used (mark b i) n = insert i (used b n)"
    and "card (used (mark b i) n) = Suc (card (used b n))"
proof -
  have i: "\<not> tst i b" "i < bits b"
    using ffz_found [OF assms(2,1)] by auto
  show fresh: "i \<notin> used b n"
    using i by (simp add: used_def)
  show "used (mark b i) n = insert i (used b n)"
    using i assms(2) by (rule_tac used_mark) auto
  then show "card (used (mark b i) n) = Suc (card (used b n))"
    using fresh by simp
qed

lemma alloc_free:
  assumes "ffz b n = Inr i" and "i < n"
  shows "used (unmark (mark b i) i) n = used b n"
proof -
  have i: "i < bits b" using ffz_found [OF assms(2,1)] by auto
  have "used (unmark (mark b i) i) n = used (mark b i) n - {i}"
    using i by (intro used_unmark) (simp add: bits_mark)
  also have "\<dots> = used b n"
    using alloc_fresh [OF assms] by auto
  finally show ?thesis .
qed

lemma alloc_total:
  assumes "n \<le> bits b" and "card (used b n) < n"
  shows "\<exists>i<n. ffz b n = Inr i"
proof -
  obtain i where i: "i \<le> n" "ffz b n = Inr i"
    using ffz_total [OF assms(1)] by blast
  have "i \<noteq> n"
  proof
    assume "i = n"
    with i ffz_full [OF assms(1)] have "used b n = {..<n}" by (auto simp: used_def)
    with assms(2) show False by simp
  qed
  with i show ?thesis by auto
qed

lemma full_iff_card: "n \<le> bits b \<Longrightarrow> ffz b n = Inr n \<longleftrightarrow> card (used b n) = n"
proof
  assume n: "n \<le> bits b" and "ffz b n = Inr n"
  then have "used b n = {..<n}" by (auto simp: used_def ffz_full)
  then show "card (used b n) = n" by simp
next
  assume n: "n \<le> bits b" and c: "card (used b n) = n"
  have "used b n \<subseteq> {..<n}" by (auto simp: used_def)
  then have "used b n = {..<n}" using c by (simp add: card_subset_eq)
  then have "tst j b" if "j < n" for j
    using that by (auto simp: used_def set_eq_iff)
  then show "ffz b n = Inr n" using n ffz_full by blast
qed

end

section \<open>The word lists implement it\<close>

lemma BITS_PER_LONG_pos [simp]: "0 < BITS_PER_LONG"
  by (simp add: BITS_PER_LONG_def)

lemma div_less_iff: "nr div BITS_PER_LONG < length bm \<longleftrightarrow> nr < bitmap_bits bm"
  by (simp add: bitmap_bits_def less_mult_imp_div_less div_less_iff_less_mult mult.commute)

lemma bitmap_bits_set [simp]:
  "bitmap_bits (set_bit1 i bm) = bitmap_bits bm" "bitmap_bits (clear_bit1 i bm) = bitmap_bits bm"
  by (simp_all add: bitmap_bits_def set_bit1_def clear_bit1_def)

lemma same_bit_iff: "j div n = i div n \<Longrightarrow> j mod n = i mod n \<longleftrightarrow> j = (i::nat)"
  by (metis div_mult_mod_eq)

lemma test_set_bit1: "i < bitmap_bits bm \<Longrightarrow> test_bit j (set_bit1 i bm) \<longleftrightarrow> j = i \<or> test_bit j bm"
  using same_bit_iff [of j BITS_PER_LONG i] div_less_iff [of i bm]
  by (cases "j div BITS_PER_LONG = i div BITS_PER_LONG")
    (auto simp: test_bit_def set_bit1_def bit_simps BITS_PER_LONG_def)

lemma test_clear_bit1: "i < bitmap_bits bm \<Longrightarrow> test_bit j (clear_bit1 i bm) \<longleftrightarrow> j \<noteq> i \<and> test_bit j bm"
  using same_bit_iff [of j BITS_PER_LONG i] div_less_iff [of i bm]
  by (cases "j div BITS_PER_LONG = i div BITS_PER_LONG")
    (auto simp: test_bit_def clear_bit1_def bit_simps BITS_PER_LONG_def)

lemma bitmap_set_1 [simp]: "bitmap_set bm i 1 = set_bit1 i bm" "bitmap_set bm i (Suc 0) = set_bit1 i bm"
  by (simp_all add: bitmap_set_def)

lemma bitmap_clear_1 [simp]:
  "bitmap_clear bm i 1 = clear_bit1 i bm" "bitmap_clear bm i (Suc 0) = clear_bit1 i bm"
  by (simp_all add: bitmap_clear_def)

lemma ffz_from_found:
  "ffz_from bm n i = Inr k \<Longrightarrow> k < n \<Longrightarrow> i \<le> k \<and> k < bitmap_bits bm \<and> \<not> test_bit k bm \<and> (\<forall>j. i \<le> j \<and> j < k \<longrightarrow> test_bit j bm)"
proof (induction bm n i rule: ffz_from.induct)
  case (1 bm n i)
  show ?case
  proof (cases "i < n \<and> i < bitmap_bits bm \<and> test_bit i bm")
    case True
    with 1 have "Suc i \<le> k \<and> k < bitmap_bits bm \<and> \<not> test_bit k bm \<and> (\<forall>j. Suc i \<le> j \<and> j < k \<longrightarrow> test_bit j bm)"
      by (simp add: ffz_from.simps [of bm n i])
    with True show ?thesis by (metis Suc_leD Suc_leI le_neq_implies_less)
  next
    case False
    with "1.prems" show ?thesis
      by (auto simp: ffz_from.simps [of bm n i] split: if_splits)
  qed
qed

lemma ffz_from_total:
  "n \<le> bitmap_bits bm \<Longrightarrow> i \<le> n \<Longrightarrow>
     \<exists>k. ffz_from bm n i = Inr k \<and> i \<le> k \<and> k \<le> n \<and> (k = n \<longleftrightarrow> (\<forall>j. i \<le> j \<and> j < n \<longrightarrow> test_bit j bm))"
proof (induction bm n i rule: ffz_from.induct)
  case (1 bm n i)
  show ?case
  proof (cases "i < n \<and> test_bit i bm")
    case True
    with 1 obtain k where "ffz_from bm n (Suc i) = Inr k" "Suc i \<le> k" "k \<le> n"
      "k = n \<longleftrightarrow> (\<forall>j. Suc i \<le> j \<and> j < n \<longrightarrow> test_bit j bm)" by auto
    with True "1.prems" show ?thesis
      by (auto simp: ffz_from.simps [of bm n i] Suc_le_eq) (metis le_neq_implies_less)+
  next
    case False
    with "1.prems" show ?thesis
      by (auto simp: ffz_from.simps [of bm n i])
  qed
qed

interpretation bm: bitmap_api test_bit "\<lambda>b i. bitmap_set b i 1" "\<lambda>b i. bitmap_clear b i 1"
  find_first_zero_bit bitmap_bits
proof (unfold_locales, goal_cases)
  case (1 i b j) then show ?case by (simp add: test_set_bit1)
next
  case (2 i b j) then show ?case by (simp add: test_clear_bit1)
next
  case (5 i n b) then show ?case
    using ffz_from_found [of b n 0 i] by (simp add: find_first_zero_bit_def)
next
  case (6 n b) then show ?case
    using ffz_from_total [of n b 0] by (auto simp: find_first_zero_bit_def)
next
  case (7 n b) then show ?case
    using ffz_from_total [of n b 0] by (auto simp: find_first_zero_bit_def)
qed simp_all

lemma used_eq: "bm.used b n = {i. i < n \<and> test_bit i b}"
  by (simp add: bm.used_def)

section \<open>Fresh bitmaps\<close>

lemma test_bit_replicate_0 [simp]: "\<not> test_bit i (replicate n 0)"
  by (auto simp: test_bit_def)

lemma test_bit_single [simp]: "i < 64 \<Longrightarrow> test_bit i [w] \<longleftrightarrow> bit w i"
  by (simp add: test_bit_def BITS_PER_LONG_def)

lemma bitmap_bits_single [simp]: "bitmap_bits [w] = 64"
  by (simp add: bitmap_bits_def BITS_PER_LONG_def)

lemma bitmap_bits_replicate [simp]: "bitmap_bits (replicate n w) = 64 * n"
  by (simp add: bitmap_bits_def BITS_PER_LONG_def)

lemma bitmap_zero_fits:
  "BITS_TO_LONGS n = length bm \<Longrightarrow> bitmap_zero bm n = Inr (replicate (length bm) 0)"
  by (simp add: bitmap_zero_def)

end
