(* ===== verification/Lba_Layout.thy ===== *)
theory Lba_Layout
  imports Bitmap
begin

text \<open>
  How flatfs turns (directory, bucket, slot) into inode numbers and block addresses: the layout
  macros of \<open>flatfs_d.h\<close>, the conversions of \<open>lba.h\<close>, and the address functions of \<open>lba.c\<close>.
  Directory, bucket and slot ids are C \<open>int\<close>s, so negative ids (the code uses -1 for "none")
  reach the 64-bit arithmetic sign-extended, as here.
\<close>

section \<open>Constants of flatfs_d.h\<close>

definition FLATFS_ROOT_INO :: u64 where [layout_simps]: "FLATFS_ROOT_INO = 2"
definition BLOCK_SHIFT :: nat where [layout_simps]: "BLOCK_SHIFT = 12"
definition FFS_BLOCK_SIZE_BITS :: nat where [layout_simps]: "FFS_BLOCK_SIZE_BITS = 9"
definition FFS_MAX_FILENAME_LEN :: nat where [layout_simps]: "FFS_MAX_FILENAME_LEN = 480"
definition MAX_DIR_BITS :: nat where [layout_simps]: "MAX_DIR_BITS = 14"
definition MIN_DIR_BITS :: nat where [layout_simps]: "MIN_DIR_BITS = 6"
definition MAX_FILE_BUCKET_BITS :: nat where [layout_simps]: "MAX_FILE_BUCKET_BITS = 20"
definition MIN_FILE_BUCKET_BITS :: nat where [layout_simps]: "MIN_FILE_BUCKET_BITS = 12"
definition FILE_SLOT_BITS :: nat where [layout_simps]: "FILE_SLOT_BITS = 3"
definition FILE_SLOT_NUM :: nat where [layout_simps]: "FILE_SLOT_NUM = 2 ^ 3"
definition DEFAULT_FILE_BLOCK_BITS :: nat where [layout_simps]: "DEFAULT_FILE_BLOCK_BITS = 32"

definition BLOCKS_PER_SLOT :: u64 where [layout_simps]: "BLOCKS_PER_SLOT = push_bit 32 1"
definition BUCKETS_PER_DIR :: u64 where [layout_simps]: "BUCKETS_PER_DIR = push_bit 12 1"
definition BUCKETS_PER_BIG_DIR :: u64 where [layout_simps]: "BUCKETS_PER_BIG_DIR = push_bit (20 + 6) 1"
definition SLOTS_PER_BUCKET :: u64 where [layout_simps]: "SLOTS_PER_BUCKET = push_bit 3 1"
definition FILE_META_LBA_BASE :: u64 where [layout_simps]: "FILE_META_LBA_BASE = push_bit (3 + 32) 1"
definition BIG_TAG_BASE :: u64 where [layout_simps]: "BIG_TAG_BASE = push_bit (6 + 20 + 3 + 32) 1"

definition NR_BUCKETS :: nat where [layout_simps]: "NR_BUCKETS = 2 ^ 12"
definition NR_BIG_BUCKETS :: nat where [layout_simps]: "NR_BIG_BUCKETS = 2 ^ (12 + 6)"
definition NR_DIRS :: nat where [layout_simps]: "NR_DIRS = 2 ^ 14"
definition NR_BIG_DIRS :: nat where [layout_simps]: "NR_BIG_DIRS = 2 ^ 6"

section \<open>The layout macros\<close>

definition lba_to_block :: "u64 \<Rightarrow> u64" where
  "lba_to_block lba = lba AND (BLOCKS_PER_SLOT - 1)"

definition lba_to_slot :: "u64 \<Rightarrow> u64" where
  "lba_to_slot lba = drop_bit DEFAULT_FILE_BLOCK_BITS lba AND (SLOTS_PER_BUCKET - 1)"

definition lba_to_dir :: "u64 \<Rightarrow> u64" where
  "lba_to_dir lba = drop_bit (DEFAULT_FILE_BLOCK_BITS + FILE_SLOT_BITS + MIN_FILE_BUCKET_BITS) lba"

definition compose_to_lba :: "u64 \<Rightarrow> u64 \<Rightarrow> u64 \<Rightarrow> u64 \<Rightarrow> u64" where
  "compose_to_lba dir bucket slot block =
     block + push_bit DEFAULT_FILE_BLOCK_BITS
       (slot + push_bit FILE_SLOT_BITS (bucket + push_bit MIN_FILE_BUCKET_BITS dir))"

definition ino_to_slot :: "u64 \<Rightarrow> u64" where
  "ino_to_slot ino = ino AND (SLOTS_PER_BUCKET - 1)"

definition ino_to_bucket :: "u64 \<Rightarrow> u64" where
  "ino_to_bucket ino = drop_bit FILE_SLOT_BITS ino AND (BUCKETS_PER_DIR - 1)"

definition big_ino_to_slot :: "u64 \<Rightarrow> u64" where
  "big_ino_to_slot ino = ino AND (SLOTS_PER_BUCKET - 1)"

definition big_ino_to_bucket :: "u64 \<Rightarrow> u64" where
  "big_ino_to_bucket ino = drop_bit FILE_SLOT_BITS ino AND (BUCKETS_PER_BIG_DIR - 1)"

definition FFS_DIR_REC_LEN :: "int \<Rightarrow> int" where
  "FFS_DIR_REC_LEN name_len = (name_len + 8 + 3) AND NOT 3"

section \<open>Directory ids and inode numbers (lba.h)\<close>

definition inode_to_dir_id :: "u64 \<Rightarrow> u64" where
  "inode_to_dir_id ino = drop_bit (MIN_FILE_BUCKET_BITS + FILE_SLOT_BITS) (ino - 1)"

definition dir_id_to_inode :: "u64 \<Rightarrow> u64" where
  "dir_id_to_inode dir_id = push_bit (MIN_FILE_BUCKET_BITS + FILE_SLOT_BITS) dir_id + 1"

section \<open>Block addresses (lba.c)\<close>

text \<open>
  In the inode branch of \<open>compose_lba\<close> the C operator \<open>+\<close> binds tighter than \<open><<\<close>: the
  directory id is shifted by the sum of the constant and the bucket id.
\<close>

definition compose_lba :: "platform \<Rightarrow> int \<Rightarrow> int \<Rightarrow> int \<Rightarrow> int \<Rightarrow> lba_t" where
  "compose_lba P dir_id bucket_id slot_id flag =
     (let lba = 0
      in if flag = 0
         then let lba = lba OR push_bit FILE_SLOT_BITS
                    (c_shl P (word_of_int dir_id) (of_nat MIN_FILE_BUCKET_BITS + word_of_int bucket_id))
              in if slot_id \<noteq> -1 then (lba OR word_of_int slot_id) + FILE_META_LBA_BASE else lba
         else ((lba OR push_bit (MIN_FILE_BUCKET_BITS + FILE_SLOT_BITS + DEFAULT_FILE_BLOCK_BITS) (word_of_int dir_id))
                OR push_bit (FILE_SLOT_BITS + DEFAULT_FILE_BLOCK_BITS) (word_of_int bucket_id))
                OR push_bit DEFAULT_FILE_BLOCK_BITS (word_of_int slot_id))"

definition compose_big_file_lba :: "platform \<Rightarrow> int \<Rightarrow> int \<Rightarrow> int \<Rightarrow> int \<Rightarrow> lba_t" where
  "compose_big_file_lba P dir_id bucket_id slot_id flag =
     (let lba = 0;
          lba = (if flag = 0
                 then let lba = lba OR push_bit FILE_SLOT_BITS
                            (c_shl P (word_of_int dir_id) (of_nat MAX_FILE_BUCKET_BITS + word_of_int bucket_id))
                      in if slot_id \<noteq> -1 then (lba OR word_of_int slot_id) + FILE_META_LBA_BASE else lba
                 else ((lba OR push_bit (MAX_FILE_BUCKET_BITS + FILE_SLOT_BITS + DEFAULT_FILE_BLOCK_BITS) (word_of_int dir_id))
                        OR push_bit (FILE_SLOT_BITS + DEFAULT_FILE_BLOCK_BITS) (word_of_int bucket_id))
                        OR push_bit DEFAULT_FILE_BLOCK_BITS (word_of_int slot_id))
      in lba OR BIG_TAG_BASE)"

text \<open>
  The fields of \<open>struct ffs_inode_info\<close> that the address functions read; the inode cache theory
  has the whole record.
\<close>

record file_pos =
  fp_dir_id :: int
  fp_bucket_id :: int
  fp_slot_id :: int

definition ffs_get_lba_data :: "platform \<Rightarrow> file_pos \<Rightarrow> lba_t \<Rightarrow> lba_t" where
  "ffs_get_lba_data P fi iblock =
     (let base = compose_lba P (fp_dir_id fi) (fp_bucket_id fi) (fp_slot_id fi) 1
      in base OR push_bit BLOCK_SHIFT iblock)"

definition ffs_get_big_file_lba_data :: "platform \<Rightarrow> file_pos \<Rightarrow> lba_t \<Rightarrow> lba_t" where
  "ffs_get_big_file_lba_data P fi iblock =
     (let base = compose_big_file_lba P (fp_dir_id fi) (fp_bucket_id fi) (fp_slot_id fi) 1
      in base OR push_bit BLOCK_SHIFT iblock)"

definition ffs_get_lba_meta :: "platform \<Rightarrow> file_pos \<Rightarrow> lba_t" where
  "ffs_get_lba_meta P fi = compose_lba P (fp_dir_id fi) (fp_bucket_id fi) 0 0"

definition ffs_get_big_file_lba_meta :: "platform \<Rightarrow> file_pos \<Rightarrow> lba_t" where
  "ffs_get_big_file_lba_meta P fi = compose_big_file_lba P (fp_dir_id fi) (fp_bucket_id fi) 0 0"

definition ffs_get_lba_dir_meta :: "u64 \<Rightarrow> int \<Rightarrow> lba_t" where
  "ffs_get_lba_dir_meta ino dir_id =
     (let dir_id = (if ino \<noteq> -1
                    then cint (uint (drop_bit (MIN_FILE_BUCKET_BITS + FILE_SLOT_BITS) (ino - 1)))
                    else dir_id)
      in word_of_int dir_id)"

section \<open>Sign extension of ids\<close>

lemma cint_id: "- (2 ^ 31) \<le> i \<Longrightarrow> i < 2 ^ 31 \<Longrightarrow> cint i = i"
  by (simp add: cint_def signed_take_bit_int_eq_self)

lemma cint_uint: "uint (w :: 'a::len word) < 2 ^ 31 \<Longrightarrow> cint (uint w) = uint w"
  by (rule cint_id [OF order_trans [OF _ uint_ge_0]]) simp_all

lemma unat_word_of_int: "0 \<le> i \<Longrightarrow> i < 2 ^ LENGTH('a) \<Longrightarrow> unat (word_of_int i :: 'a::len word) = nat i"
  by (simp add: unsigned_of_int take_bit_int_eq_self)

text \<open>Positions that a table can hand out, with block numbers that stay inside the slot's area.\<close>

definition valid_pos :: "file_pos \<Rightarrow> bool" where
  "valid_pos fi \<longleftrightarrow> 0 \<le> fp_dir_id fi \<and> fp_dir_id fi < 2 ^ MAX_DIR_BITS \<and>
     0 \<le> fp_bucket_id fi \<and> fp_bucket_id fi < 2 ^ MIN_FILE_BUCKET_BITS \<and>
     0 \<le> fp_slot_id fi \<and> fp_slot_id fi < 2 ^ FILE_SLOT_BITS"

lemma unat_lba_data:
  assumes "valid_pos fi" "unat iblock < 2 ^ 20"
  shows "unat (ffs_get_lba_data P fi iblock) =
    ((nat (fp_dir_id fi) * 2 ^ 12 + nat (fp_bucket_id fi)) * 2 ^ 3 + nat (fp_slot_id fi)) * 2 ^ 32 + unat iblock * 2 ^ 12"
proof -
  let ?d = "word_of_int (fp_dir_id fi) :: u64" and ?b = "word_of_int (fp_bucket_id fi) :: u64"
    and ?s = "word_of_int (fp_slot_id fi) :: u64"
  have un: "unat ?d = nat (fp_dir_id fi)" "unat ?b = nat (fp_bucket_id fi)" "unat ?s = nat (fp_slot_id fi)"
    using assms(1) by (simp_all add: valid_pos_def layout_simps unat_word_of_int)
  have lt: "unat ?d < 2 ^ 14" "unat ?b < 2 ^ 12" "unat ?s < 2 ^ 3"
    using assms(1) by (simp_all add: un valid_pos_def layout_simps nat_less_iff)
  define db where "db = push_bit 12 ?d OR ?b"
  define dbs where "dbs = push_bit 3 db OR ?s"
  have db: "unat db = unat ?d * 2 ^ 12 + unat ?b" using lt by (simp add: db_def unat_push_or)
  have dbs: "unat dbs = unat db * 2 ^ 3 + unat ?s"
    using lt db unfolding dbs_def by (intro unat_push_or) simp_all
  have ib: "unat (push_bit 12 iblock) = unat iblock * 2 ^ 12"
    using assms(2) unat_push_add [of iblock 12 0] by simp
  have "ffs_get_lba_data P fi iblock = push_bit 32 dbs OR push_bit 12 iblock"
    by (simp add: dbs_def db_def ffs_get_lba_data_def compose_lba_def Let_def layout_simps push_bit_or push_bit_push_bit)
  also have "unat \<dots> = unat dbs * 2 ^ 32 + unat (push_bit 12 iblock)"
    using lt assms(2) db dbs ib by (intro unat_push_or) simp_all
  finally show ?thesis by (simp only: dbs db ib un)
qed

lemma dir_id_inode_id: "unat d < 2 ^ 14 \<Longrightarrow> inode_to_dir_id (dir_id_to_inode d) = d"
  by (simp add: inode_to_dir_id_def dir_id_to_inode_def layout_simps drop_push)

section \<open>Properties of the layout\<close>

text \<open>
  C28: No two blocks of files of ordinary directories share an address: the data address
  determines directory, bucket, slot and block number, for block numbers below 2^20 (files up to
  4 GiB).
\<close>
theorem lba_data_injective:
  assumes "valid_pos fi" "valid_pos fi'" "unat i < 2 ^ 20" "unat i' < 2 ^ 20"
  shows "ffs_get_lba_data P fi i = ffs_get_lba_data P fi' i' \<longleftrightarrow> fi = fi' \<and> i = i'"
proof
  assume "ffs_get_lba_data P fi i = ffs_get_lba_data P fi' i'"
  then have eq: "((nat (fp_dir_id fi) * 2 ^ 12 + nat (fp_bucket_id fi)) * 2 ^ 3 + nat (fp_slot_id fi)) * 2 ^ 32 + unat i * 2 ^ 12 =
      ((nat (fp_dir_id fi') * 2 ^ 12 + nat (fp_bucket_id fi')) * 2 ^ 3 + nat (fp_slot_id fi')) * 2 ^ 32 + unat i' * 2 ^ 12"
    using unat_lba_data [OF assms(1,3), of P] unat_lba_data [OF assms(2,4), of P] by simp
  from digit_eq [OF this] assms have 1: "(nat (fp_dir_id fi) * 2 ^ 12 + nat (fp_bucket_id fi)) * 2 ^ 3 + nat (fp_slot_id fi) =
      (nat (fp_dir_id fi') * 2 ^ 12 + nat (fp_bucket_id fi')) * 2 ^ 3 + nat (fp_slot_id fi')" and "unat i = unat i'"
    by simp_all
  moreover from digit_eq [OF 1] assms have 2: "nat (fp_dir_id fi) * 2 ^ 12 + nat (fp_bucket_id fi) =
      nat (fp_dir_id fi') * 2 ^ 12 + nat (fp_bucket_id fi')" and "nat (fp_slot_id fi) = nat (fp_slot_id fi')"
    by (simp_all add: valid_pos_def layout_simps nat_less_iff)
  moreover from digit_eq [OF 2] assms have "nat (fp_dir_id fi) = nat (fp_dir_id fi')" "nat (fp_bucket_id fi) = nat (fp_bucket_id fi')"
    by (simp_all add: valid_pos_def layout_simps nat_less_iff)
  ultimately show "fi = fi' \<and> i = i'"
    using assms by (cases fi, cases fi') (auto simp: valid_pos_def word_unat_eq_iff)
qed simp

theorem lba_data_injective_witness:
  "ffs_get_lba_data x86_64_smp \<lparr>fp_dir_id = 2, fp_bucket_id = 7, fp_slot_id = 1\<rparr> 5 \<noteq>
   ffs_get_lba_data x86_64_smp \<lparr>fp_dir_id = 2, fp_bucket_id = 7, fp_slot_id = 2\<rparr> 5"
  using lba_data_injective [of "\<lparr>fp_dir_id = 2, fp_bucket_id = 7, fp_slot_id = 1\<rparr>"
      "\<lparr>fp_dir_id = 2, fp_bucket_id = 7, fp_slot_id = 2\<rparr>" 5 5 x86_64_smp]
  by (simp add: valid_pos_def layout_simps)

text \<open>
  C37: The inode page of a file is not determined by its directory and bucket: because the bucket
  id enters the shift count, directory 2d with bucket b and directory d with bucket b + 1 get the
  same page, for every directory and every bucket below 51.
\<close>
theorem lba_meta_collision:
  assumes "0 \<le> b" "b < 51"
  shows "compose_lba P (2 * d) b 0 0 = compose_lba P d (b + 1) 0 0"
proof -
  have n: "unat (12 + word_of_int b :: u64) = 12 + nat b" "unat (13 + word_of_int b :: u64) = 13 + nat b"
    using assms unat_word_of_int [of b, where 'a = 64] by (simp_all add: unat_word_ariths)
  have "push_bit (12 + nat b) (word_of_int (2 * d) :: u64) = push_bit (13 + nat b) (word_of_int d)"
    by (simp add: push_bit_eq_mult power_add)
  then show ?thesis using assms by (simp add: compose_lba_def c_shl_def Let_def MIN_FILE_BUCKET_BITS_def n)
qed

theorem lba_meta_collision_witness: "compose_lba x86_64_smp 8 0 0 0 = compose_lba x86_64_smp 4 1 0 0"
  using lba_meta_collision [of 0 x86_64_smp 4] by simp

text \<open>
  The two conversions between directory ids and directory inode numbers are inverse on every
  id that fits the inode number, and the metadata block of a directory is its id, whichever of
  the two arguments of \<open>ffs_get_lba_dir_meta\<close> carries it.
\<close>
theorem dir_id_roundtrip:
  assumes "unat d < 2 ^ MAX_DIR_BITS"
  shows "inode_to_dir_id (dir_id_to_inode d) = d \<and> ffs_get_lba_dir_meta (dir_id_to_inode d) x = d \<and>
    ffs_get_lba_dir_meta (- 1) (int (unat d)) = d"
proof (intro conjI)
  have d: "unat d < 2 ^ 14" using assms by (simp add: layout_simps)
  show 1: "inode_to_dir_id (dir_id_to_inode d) = d" using d by (rule dir_id_inode_id)
  have "unat (dir_id_to_inode d) = unat d * 2 ^ 15 + 1"
    using d unat_push_add [of d 15 1] by (simp add: dir_id_to_inode_def layout_simps)
  then have "dir_id_to_inode d \<noteq> - 1" using d by (auto simp: word_unat_eq_iff unsigned_minus_1_eq_mask mask_eq_exp_minus_1)
  moreover have "cint (uint d) = uint d"
  proof -
    have "uint d < 2 ^ 14" using uint_less_of_unat [OF d] by simp
    then show ?thesis by (intro cint_uint) simp
  qed
  ultimately show "ffs_get_lba_dir_meta (dir_id_to_inode d) x = d"
    using 1 by (simp add: ffs_get_lba_dir_meta_def inode_to_dir_id_def)
  show "ffs_get_lba_dir_meta (- 1) (int (unat d)) = d" by (simp add: ffs_get_lba_dir_meta_def)
qed

theorem dir_id_roundtrip_witness: "inode_to_dir_id (dir_id_to_inode 2) = 2"
  using dir_id_roundtrip [of 2] by (simp add: layout_simps)

end
