(* ===== verification/File_Table.thy ===== *)
theory File_Table
  imports Lba_Layout
begin

text \<open>
  The per-directory file hash tables of \<open>lba.c\<close>: an array of buckets with eight slots each, a
  slot bitmap, a counter and a spin lock per bucket. A name hashes to one bucket; creating a file
  takes the first free slot of that bucket, deleting it gives the slot back. \<open>HashTable\<close> has
  4096 buckets; a directory that overflows one of them gets a \<open>Big_Dir_HashTable\<close> of 262144.

  Bucket arrays are functions from bucket numbers, with the array bound checked where an index
  comes from outside. A pointer to a table is an option. The locale \<open>slot_allocator\<close> is what
  \<open>ffs_mknod\<close> and the unlink path rely on; both kinds of table interpret it.
\<close>

section \<open>State\<close>

record bucket =
  slot_bitmap :: bitmap
  valid_slot_count :: u8
  bkt_lock :: bool

record HashTable =
  ht_buckets :: "nat \<Rightarrow> bucket"
  ht_pos :: int

record Big_Dir_HashTable =
  bt_buckets :: "nat \<Rightarrow> bucket"
  bt_dir_id :: int
  bt_pos :: int

definition zero_bucket :: bucket where
  "zero_bucket = \<lparr>slot_bitmap = [0], valid_slot_count = 0, bkt_lock = False\<rparr>"

section \<open>Creating and freeing a table\<close>

definition init_bucket :: "bucket \<Rightarrow> bucket res" where
  "init_bucket b =
     bind_res (bitmap_zero (slot_bitmap b) FILE_SLOT_NUM) (\<lambda>bm.
       Inr (b\<lparr>slot_bitmap := bm, valid_slot_count := 0\<rparr>))"

fun init_buckets :: "nat list \<Rightarrow> (nat \<Rightarrow> bucket) \<Rightarrow> (nat \<Rightarrow> bucket) res" where
  "init_buckets [] bs = Inr bs"
| "init_buckets (bkt # bkts) bs =
     bind_res (init_bucket (bs bkt)) (\<lambda>b. init_buckets bkts (bs(bkt := b)))"

text \<open>
  \<open>kzalloc\<close> returns zeroed memory or null; \<open>vmalloc\<close> returns memory with whatever it held (the
  parameter \<open>junk\<close>) or null. Neither result is checked before the loop writes through it.
\<close>

definition init_file_ht :: "bool \<Rightarrow> HashTable option res" where
  "init_file_ht alloc_ok =
     (if \<not> alloc_ok then Inl NullDeref
      else bind_res (init_buckets [0..<NR_BUCKETS] (\<lambda>_. zero_bucket)) (\<lambda>bs.
        Inr (Some \<lparr>ht_buckets = bs, ht_pos = 0\<rparr>)))"

definition init_big_file_ht :: "Big_Dir_HashTable option \<Rightarrow> Big_Dir_HashTable option res" where
  "init_big_file_ht junk =
     (case junk of
        None \<Rightarrow> Inl NullDeref
      | Some t \<Rightarrow>
          bind_res (init_buckets [0..<NR_BIG_BUCKETS] (bt_buckets t)) (\<lambda>bs.
            Inr (Some (t\<lparr>bt_buckets := bs\<rparr>))))"

definition free_file_ht :: "HashTable option \<Rightarrow> HashTable option" where
  "free_file_ht file_ht = None"

definition free_big_file_ht :: "Big_Dir_HashTable option \<Rightarrow> Big_Dir_HashTable option" where
  "free_big_file_ht file_ht = None"

section \<open>Hashing names\<close>

text \<open>A \<open>char\<close> is signed on this target: bytes from 128 on count as negative.\<close>

fun BKDR_loop :: "bytes \<Rightarrow> u32 \<Rightarrow> u32 res" where
  "BKDR_loop [] h = Inl OutOfBounds"
| "BKDR_loop (c # str) h = (if c = 0 then Inr h else BKDR_loop str (h * 131 + signed c))"

definition BKDRHash :: "bytes \<Rightarrow> u32 res" where
  "BKDRHash str = bind_res (BKDR_loop str 0) (\<lambda>h. Inr (h AND 0x7FFFFFFF))"

definition ht_bucket_id :: "u32 \<Rightarrow> u64" where
  "ht_bucket_id hashcode = ucast hashcode AND (push_bit MIN_FILE_BUCKET_BITS 1 - 1)"

definition bt_bucket_id :: "u32 \<Rightarrow> u64" where
  "bt_bucket_id hashcode = ucast hashcode AND (push_bit (MIN_FILE_BUCKET_BITS + MIN_DIR_BITS) 1 - 1)"

definition file_seg_of :: "u8 \<Rightarrow> u64 \<Rightarrow> u64" where
  "file_seg_of slt bucket_id = (0 OR ucast slt) OR push_bit FILE_SLOT_BITS bucket_id"

section \<open>Inserting and deleting a file\<close>

text \<open>The lock of the bucket is taken and not released on any path.\<close>

definition insert_file :: "platform \<Rightarrow> HashTable \<Rightarrow> bytes \<Rightarrow> (u64 \<times> HashTable) res" where
  "insert_file P file_ht filename =
     bind_res (BKDRHash filename) (\<lambda>hashcode.
     let bucket_id = ht_bucket_id hashcode; n = unat bucket_id; b = ht_buckets file_ht n in
     bind_res (spin_lock P (bkt_lock b)) (\<lambda>l.
     let b = b\<lparr>bkt_lock := l\<rparr> in
     bind_res (find_first_zero_bit (slot_bitmap b) FILE_SLOT_NUM) (\<lambda>z.
     let slt = of_nat z :: u8 in
     if slt = 8 then Inr (- 1, file_ht\<lparr>ht_buckets := (ht_buckets file_ht)(n := b)\<rparr>)
     else let b = b\<lparr>slot_bitmap := bitmap_set (slot_bitmap b) (unat slt) 1,
                    valid_slot_count := valid_slot_count b + 1\<rparr>
          in Inr (file_seg_of slt bucket_id, file_ht\<lparr>ht_buckets := (ht_buckets file_ht)(n := b)\<rparr>))))"

text \<open>
  In \<open>insert_big_file\<close> the test for a full bucket compares an unsigned byte with -1, which C does
  in \<open>int\<close>.
\<close>

definition insert_big_file :: "platform \<Rightarrow> Big_Dir_HashTable \<Rightarrow> bytes \<Rightarrow> (u64 \<times> Big_Dir_HashTable) res" where
  "insert_big_file P file_ht filename =
     bind_res (BKDRHash filename) (\<lambda>hashcode.
     let bucket_id = bt_bucket_id hashcode; n = unat bucket_id; b = bt_buckets file_ht n in
     bind_res (spin_lock P (bkt_lock b)) (\<lambda>l.
     let b = b\<lparr>bkt_lock := l\<rparr> in
     bind_res (find_first_zero_bit (slot_bitmap b) FILE_SLOT_NUM) (\<lambda>z.
     let slt = of_nat z :: u8 in
     if uint slt = - 1 then Inr (ucast slt, file_ht\<lparr>bt_buckets := (bt_buckets file_ht)(n := b)\<rparr>)
     else let b = b\<lparr>slot_bitmap := bitmap_set (slot_bitmap b) (unat slt) 1,
                    valid_slot_count := valid_slot_count b + 1\<rparr>
          in Inr (file_seg_of slt bucket_id, file_ht\<lparr>bt_buckets := (bt_buckets file_ht)(n := b)\<rparr>))))"

definition delete_file :: "platform \<Rightarrow> HashTable \<Rightarrow> int \<Rightarrow> int \<Rightarrow> (int \<times> HashTable) res" where
  "delete_file P file_ht bucket_id slot_id =
     (if bucket_id = - 1 \<or> bucket_id > int NR_BUCKETS \<or> slot_id > int FILE_SLOT_NUM then Inr (0, file_ht)
      else if bucket_id < 0 \<or> int NR_BUCKETS \<le> bucket_id then Inl OutOfBounds
      else let n = nat bucket_id; b = ht_buckets file_ht n in
      bind_res (spin_lock P (bkt_lock b)) (\<lambda>l.
      let b = b\<lparr>bkt_lock := l\<rparr> in
      if slot_id < 0 then Inl OutOfBounds
      else if \<not> test_bit (nat slot_id) (slot_bitmap b)
      then Inr (0, file_ht\<lparr>ht_buckets := (ht_buckets file_ht)(n := b)\<rparr>)
      else let b = b\<lparr>valid_slot_count := valid_slot_count b - 1,
                     slot_bitmap := bitmap_clear (slot_bitmap b) (nat slot_id) 1\<rparr>
           in Inr (1, file_ht\<lparr>ht_buckets := (ht_buckets file_ht)(n := b)\<rparr>)))"

definition delete_big_file :: "platform \<Rightarrow> Big_Dir_HashTable \<Rightarrow> int \<Rightarrow> int \<Rightarrow> (int \<times> Big_Dir_HashTable) res" where
  "delete_big_file P file_ht bucket_id slot_id =
     (if bucket_id = - 1 \<or> bucket_id > int NR_BIG_BUCKETS \<or> slot_id > int FILE_SLOT_NUM then Inr (0, file_ht)
      else if bucket_id < 0 \<or> int NR_BIG_BUCKETS \<le> bucket_id then Inl OutOfBounds
      else let n = nat bucket_id; b = bt_buckets file_ht n in
      bind_res (spin_lock P (bkt_lock b)) (\<lambda>l.
      let b = b\<lparr>bkt_lock := l\<rparr> in
      if slot_id < 0 then Inl OutOfBounds
      else if \<not> test_bit (nat slot_id) (slot_bitmap b)
      then Inr (0, file_ht\<lparr>bt_buckets := (bt_buckets file_ht)(n := b)\<rparr>)
      else let b = b\<lparr>valid_slot_count := valid_slot_count b - 1,
                     slot_bitmap := bitmap_clear (slot_bitmap b) (nat slot_id) 1\<rparr>
           in Inr (1, file_ht\<lparr>bt_buckets := (bt_buckets file_ht)(n := b)\<rparr>)))"

section \<open>Inode numbers for new files\<close>

text \<open>
  The parent's directory id is an \<open>int\<close> and is shifted as one before it joins the 64-bit inode
  number. The arguments \<open>parent\<close> and \<open>child\<close> only supply the name.
\<close>

definition flatfs_file_slot_alloc_by_name ::
  "platform \<Rightarrow> HashTable \<Rightarrow> int \<Rightarrow> bytes \<Rightarrow> (u64 \<times> HashTable) res" where
  "flatfs_file_slot_alloc_by_name P hashtbl parent_dir_id name =
     bind_res (insert_file P hashtbl name) (\<lambda>(file_seg, hashtbl).
     if file_seg = - 1 then Inr (file_seg, hashtbl)
     else Inr (file_seg OR word_of_int (cint (push_bit (FILE_SLOT_BITS + MIN_FILE_BUCKET_BITS) parent_dir_id)), hashtbl))"

definition flatfs_big_file_slot_alloc_by_name ::
  "platform \<Rightarrow> Big_Dir_HashTable \<Rightarrow> int \<Rightarrow> bytes \<Rightarrow> (u64 \<times> Big_Dir_HashTable) res" where
  "flatfs_big_file_slot_alloc_by_name P hashtbl parent_dir_id name =
     bind_res (insert_big_file P hashtbl name) (\<lambda>(file_seg, hashtbl).
     if file_seg = - 1 then Inr (file_seg, hashtbl)
     else Inr (file_seg OR
       word_of_int (cint (push_bit (FILE_SLOT_BITS + MIN_FILE_BUCKET_BITS + MIN_DIR_BITS) parent_dir_id)), hashtbl))"

text \<open>The block of a name's bucket, as \<open>ffs_get_lba_file_bucket\<close> computes it.\<close>

definition ffs_get_lba_file_bucket :: "platform \<Rightarrow> bytes \<Rightarrow> int \<Rightarrow> lba_t res" where
  "ffs_get_lba_file_bucket P name dir_id =
     bind_res (BKDRHash name) (\<lambda>hashcode.
     let bucket_id = ht_bucket_id hashcode
     in Inr (compose_lba P dir_id (cint (uint bucket_id)) (- 1) 0))"

section \<open>The contract of a slot allocator\<close>

locale slot_allocator =
  fixes inv :: "'t \<Rightarrow> bool" and taken :: "'t \<Rightarrow> (nat \<times> nat) set" and ready :: "'t \<Rightarrow> nat \<Rightarrow> bool"
    and home :: "bytes \<Rightarrow> nat" and seg :: "nat \<Rightarrow> nat \<Rightarrow> u64"
    and alloc :: "'t \<Rightarrow> bytes \<Rightarrow> (u64 \<times> 't) res" and release :: "'t \<Rightarrow> int \<Rightarrow> int \<Rightarrow> (int \<times> 't) res"
    and nb :: nat
  assumes home_less: "home n < nb"
    and taken_range: "(b, s) \<in> taken t \<Longrightarrow> b < nb \<and> s < 8"
    and alloc_free_slot: "\<lbrakk>inv t; 0 \<in> set n; ready t (home n); s0 < 8; (home n, s0) \<notin> taken t\<rbrakk> \<Longrightarrow>
      \<exists>s t'. s < 8 \<and> (home n, s) \<notin> taken t \<and> alloc t n = Inr (seg (home n) s, t') \<and>
        inv t' \<and> taken t' = insert (home n, s) (taken t) \<and> (\<forall>b. b \<noteq> home n \<longrightarrow> ready t' b = ready t b)"
    and release_slot: "\<lbrakk>inv t; b < nb; s < 8; ready t b\<rbrakk> \<Longrightarrow>
      \<exists>t'. release t (int b) (int s) = Inr (if (b, s) \<in> taken t then 1 else 0, t') \<and>
        inv t' \<and> taken t' = taken t - {(b, s)}"
    and seg_inj: "\<lbrakk>b < nb; s < 8; b' < nb; s' < 8\<rbrakk> \<Longrightarrow> seg b s = seg b' s' \<longleftrightarrow> b = b' \<and> s = s'"
begin

definition in_use :: "'t \<Rightarrow> u64 set" where
  "in_use t = (\<lambda>(b, s). seg b s) ` taken t"

lemma seg_in_use: "b < nb \<Longrightarrow> s < 8 \<Longrightarrow> seg b s \<in> in_use t \<longleftrightarrow> (b, s) \<in> taken t"
proof
  assume b: "b < nb" "s < 8" and "seg b s \<in> in_use t"
  then obtain b' s' where "(b', s') \<in> taken t" "seg b s = seg b' s'" by (auto simp: in_use_def)
  then show "(b, s) \<in> taken t" using seg_inj [OF b, of b' s'] taken_range [of b' s' t] by simp
qed (force simp: in_use_def)

lemma alloc_fresh:
  assumes "inv t" "0 \<in> set n" "ready t (home n)" "s0 < 8" "(home n, s0) \<notin> taken t"
  shows "\<exists>f t'. alloc t n = Inr (f, t') \<and> inv t' \<and> f \<notin> in_use t \<and> in_use t' = insert f (in_use t)"
proof -
  obtain s t' where s: "s < 8" "(home n, s) \<notin> taken t" "alloc t n = Inr (seg (home n) s, t')" "inv t'"
    "taken t' = insert (home n, s) (taken t)"
    using alloc_free_slot [OF assms] by blast
  moreover have "in_use t' = insert (seg (home n) s) (in_use t)" using s by (simp add: in_use_def)
  ultimately show ?thesis using seg_in_use [OF home_less s(1)] by blast
qed

lemma alloc_then_release:
  assumes "inv t" "0 \<in> set n" "ready t (home n)" "s0 < 8" "(home n, s0) \<notin> taken t"
    and again: "\<And>t'. ready t' (home n)"
  shows "\<exists>s t' t''. alloc t n = Inr (seg (home n) s, t') \<and>
    release t' (int (home n)) (int s) = Inr (1, t'') \<and> inv t'' \<and> taken t'' = taken t"
proof -
  obtain s t' where s: "s < 8" "(home n, s) \<notin> taken t" "alloc t n = Inr (seg (home n) s, t')" "inv t'"
    "taken t' = insert (home n, s) (taken t)"
    using alloc_free_slot [OF assms(1-5)] by blast
  obtain t'' where "release t' (int (home n)) (int s) = Inr (1, t'')" "inv t''" "taken t'' = taken t' - {(home n, s)}"
    using release_slot [OF s(4) home_less s(1) again] s(5) by auto
  with s show ?thesis by auto
qed

end

section \<open>Buckets\<close>

definition bucket_ok :: "bucket \<Rightarrow> bool" where
  "bucket_ok b \<longleftrightarrow> length (slot_bitmap b) = 1 \<and>
     valid_slot_count b = of_nat (card (bm.used (slot_bitmap b) FILE_SLOT_NUM))"

lemma bucket_bits: "bucket_ok b \<Longrightarrow> bitmap_bits (slot_bitmap b) = 64"
  by (simp add: bucket_ok_def bitmap_bits_def BITS_PER_LONG_def)

lemma bucket_scan:
  assumes "bucket_ok b"
  obtains z where "find_first_zero_bit (slot_bitmap b) FILE_SLOT_NUM = Inr z" "z \<le> 8"
    "z = 8 \<longleftrightarrow> (\<forall>s<8. test_bit s (slot_bitmap b))" "z < 8 \<Longrightarrow> \<not> test_bit z (slot_bitmap b)"
    "z < 8 \<Longrightarrow> \<forall>j<z. test_bit j (slot_bitmap b)"
proof -
  have 8: "FILE_SLOT_NUM = 8" by (simp add: layout_simps)
  obtain z where z: "z \<le> 8" "find_first_zero_bit (slot_bitmap b) FILE_SLOT_NUM = Inr z"
    using bm.ffz_total [of 8 "slot_bitmap b"] bucket_bits [OF assms] 8 by auto
  moreover have "z = 8 \<longleftrightarrow> (\<forall>s<8. test_bit s (slot_bitmap b))"
    using bm.ffz_full [of 8 "slot_bitmap b"] bucket_bits [OF assms] z 8 by auto
  moreover have "\<not> test_bit z (slot_bitmap b)" "\<forall>j<z. test_bit j (slot_bitmap b)" if "z < 8"
    using bm.ffz_found [of z 8 "slot_bitmap b"] that z 8 by simp_all
  ultimately show thesis using that by blast
qed

lemma unat_slot: "z \<le> 8 \<Longrightarrow> unat (of_nat z :: u8) = z"
  by (simp add: unat_of_nat_less)

lemma slot_eq_8: "z \<le> 8 \<Longrightarrow> (of_nat z :: u8) = 8 \<longleftrightarrow> z = 8"
  using unat_slot [of z] by (metis unat_numeral unat_slot of_nat_numeral order_refl)

lemma bucket_take:
  assumes "bucket_ok b" "z < 8" "\<not> test_bit z (slot_bitmap b)"
  shows "bucket_ok (b\<lparr>bkt_lock := l, slot_bitmap := set_bit1 z (slot_bitmap b),
      valid_slot_count := valid_slot_count b + 1\<rparr>)"
    and "test_bit s (set_bit1 z (slot_bitmap b)) \<longleftrightarrow> s = z \<or> test_bit s (slot_bitmap b)"
proof -
  show t: "test_bit s (set_bit1 z (slot_bitmap b)) \<longleftrightarrow> s = z \<or> test_bit s (slot_bitmap b)" for s
    using bucket_bits [OF assms(1)] assms(2) by (simp add: test_set_bit1)
  have "bm.used (set_bit1 z (slot_bitmap b)) FILE_SLOT_NUM = insert z (bm.used (slot_bitmap b) FILE_SLOT_NUM)"
    using assms(2) by (auto simp: used_eq t layout_simps)
  moreover have "z \<notin> bm.used (slot_bitmap b) FILE_SLOT_NUM" using assms(3) by (simp add: used_eq)
  ultimately show "bucket_ok (b\<lparr>bkt_lock := l, slot_bitmap := set_bit1 z (slot_bitmap b),
      valid_slot_count := valid_slot_count b + 1\<rparr>)"
    using assms(1) by (simp add: bucket_ok_def set_bit1_def)
qed

lemma bucket_give_back:
  assumes "bucket_ok b" "z < 8" "test_bit z (slot_bitmap b)"
  shows "bucket_ok (b\<lparr>bkt_lock := l, valid_slot_count := valid_slot_count b - 1,
      slot_bitmap := clear_bit1 z (slot_bitmap b)\<rparr>)"
    and "test_bit s (clear_bit1 z (slot_bitmap b)) \<longleftrightarrow> s \<noteq> z \<and> test_bit s (slot_bitmap b)"
proof -
  show t: "test_bit s (clear_bit1 z (slot_bitmap b)) \<longleftrightarrow> s \<noteq> z \<and> test_bit s (slot_bitmap b)" for s
    using bucket_bits [OF assms(1)] assms(2) by (simp add: test_clear_bit1)
  have "bm.used (slot_bitmap b) FILE_SLOT_NUM = insert z (bm.used (clear_bit1 z (slot_bitmap b)) FILE_SLOT_NUM)"
    using assms(2,3) by (auto simp: used_eq t layout_simps)
  moreover have "z \<notin> bm.used (clear_bit1 z (slot_bitmap b)) FILE_SLOT_NUM" by (simp add: used_eq t)
  ultimately show "bucket_ok (b\<lparr>bkt_lock := l, valid_slot_count := valid_slot_count b - 1,
      slot_bitmap := clear_bit1 z (slot_bitmap b)\<rparr>)"
    using assms(1) by (simp add: bucket_ok_def clear_bit1_def)
qed

lemma bucket_ok_lock [simp]: "bucket_ok (b\<lparr>bkt_lock := l\<rparr>) = bucket_ok b"
  by (simp add: bucket_ok_def)

lemma unat_file_seg:
  assumes "s < 8" "b < 2 ^ 60"
  shows "unat (file_seg_of (of_nat s) (of_nat b)) = b * 8 + s"
proof -
  have s: "unat (ucast (of_nat s :: u8) :: u64) = s"
    using assms(1) by (simp add: unsigned_ucast_eq unat_of_nat_less take_bit_nat_eq_self)
  have b: "unat (of_nat b :: u64) = b" using assms(2) by (simp add: unat_of_nat_less)
  have "file_seg_of (of_nat s) (of_nat b) = push_bit 3 (of_nat b) OR ucast (of_nat s :: u8)"
    by (simp add: file_seg_of_def layout_simps or.commute)
  then show ?thesis using assms s b by (simp add: unat_push_or)
qed

section \<open>Bucket arrays\<close>

definition arr_ok :: "nat \<Rightarrow> (nat \<Rightarrow> bucket) \<Rightarrow> bool" where
  "arr_ok nb bs \<longleftrightarrow> (\<forall>b<nb. bucket_ok (bs b))"

definition arr_taken :: "nat \<Rightarrow> (nat \<Rightarrow> bucket) \<Rightarrow> (nat \<times> nat) set" where
  "arr_taken nb bs = {(b, s). b < nb \<and> s < 8 \<and> test_bit s (slot_bitmap (bs b))}"

definition arr_ready :: "platform \<Rightarrow> (nat \<Rightarrow> bucket) \<Rightarrow> nat \<Rightarrow> bool" where
  "arr_ready P bs b \<longleftrightarrow> \<not> (pf_smp P \<and> bkt_lock (bs b))"

abbreviation locked :: "(nat \<Rightarrow> bucket) \<Rightarrow> nat \<Rightarrow> bucket" where
  "locked bs h \<equiv> (bs h)\<lparr>bkt_lock := True\<rparr>"

abbreviation took :: "(nat \<Rightarrow> bucket) \<Rightarrow> nat \<Rightarrow> nat \<Rightarrow> bucket" where
  "took bs h z \<equiv> (bs h)\<lparr>bkt_lock := True, slot_bitmap := set_bit1 z (slot_bitmap (bs h)),
     valid_slot_count := valid_slot_count (bs h) + 1\<rparr>"

abbreviation gave :: "(nat \<Rightarrow> bucket) \<Rightarrow> nat \<Rightarrow> nat \<Rightarrow> bucket" where
  "gave bs h z \<equiv> (bs h)\<lparr>bkt_lock := True, valid_slot_count := valid_slot_count (bs h) - 1,
     slot_bitmap := clear_bit1 z (slot_bitmap (bs h))\<rparr>"

lemma arr_lock [simp]:
  "arr_ok nb (bs(h := locked bs h)) = arr_ok nb bs" "arr_taken nb (bs(h := locked bs h)) = arr_taken nb bs"
  by (auto simp: arr_ok_def arr_taken_def split: if_splits)

lemma arr_took:
  assumes "arr_ok nb bs" "h < nb" "z < 8" "(h, z) \<notin> arr_taken nb bs"
  shows "arr_ok nb (bs(h := took bs h z))" "arr_taken nb (bs(h := took bs h z)) = insert (h, z) (arr_taken nb bs)"
proof -
  have h: "bucket_ok (bs h)" "\<not> test_bit z (slot_bitmap (bs h))" using assms by (auto simp: arr_ok_def arr_taken_def)
  show "arr_ok nb (bs(h := took bs h z))" using assms(1) bucket_take(1) [OF h(1) assms(3) h(2)] by (simp add: arr_ok_def)
  show "arr_taken nb (bs(h := took bs h z)) = insert (h, z) (arr_taken nb bs)"
    using assms(2,3) by (auto simp: arr_taken_def bucket_take(2) [OF h(1) assms(3) h(2)] split: if_splits)
qed

lemma arr_gave:
  assumes "arr_ok nb bs" "(h, z) \<in> arr_taken nb bs"
  shows "arr_ok nb (bs(h := gave bs h z))" "arr_taken nb (bs(h := gave bs h z)) = arr_taken nb bs - {(h, z)}"
proof -
  have h: "bucket_ok (bs h)" "z < 8" "test_bit z (slot_bitmap (bs h))" using assms by (auto simp: arr_ok_def arr_taken_def)
  show "arr_ok nb (bs(h := gave bs h z))" using assms(1) bucket_give_back(1) [OF h] by (simp add: arr_ok_def)
  show "arr_taken nb (bs(h := gave bs h z)) = arr_taken nb bs - {(h, z)}"
    by (auto simp: arr_taken_def bucket_give_back(2) [OF h] split: if_splits)
qed

lemma arr_scan:
  assumes "arr_ok nb bs" "h < nb"
  obtains z where "find_first_zero_bit (slot_bitmap (bs h)) FILE_SLOT_NUM = Inr z" "z \<le> 8"
    "z = 8 \<longleftrightarrow> (\<forall>s<8. (h, s) \<in> arr_taken nb bs)" "z < 8 \<Longrightarrow> (h, z) \<notin> arr_taken nb bs"
    "z < 8 \<Longrightarrow> \<forall>j<z. (h, j) \<in> arr_taken nb bs"
  using bucket_scan [of "bs h"] assms by (auto simp: arr_ok_def arr_taken_def)

lemma arr_ready_lock: "arr_ready P bs b \<Longrightarrow> spin_lock P (bkt_lock (bs b)) = Inr True"
  by (auto simp: arr_ready_def spin_lock_def)

section \<open>Names and segments\<close>

definition name_hash :: "bytes \<Rightarrow> u32" where
  "name_hash n = (case BKDRHash n of Inr h \<Rightarrow> h | Inl _ \<Rightarrow> 0)"

definition ht_home :: "bytes \<Rightarrow> nat" where
  "ht_home n = unat (ht_bucket_id (name_hash n))"

definition bt_home :: "bytes \<Rightarrow> nat" where
  "bt_home n = unat (bt_bucket_id (name_hash n))"

definition file_seg :: "nat \<Rightarrow> nat \<Rightarrow> u64" where
  "file_seg b s = file_seg_of (of_nat s) (of_nat b)"

lemma BKDR_loop_nul: "0 \<in> set str \<Longrightarrow> \<exists>r. BKDR_loop str h = Inr r"
  by (induction str arbitrary: h) auto

lemma BKDRHash_nul: "0 \<in> set n \<Longrightarrow> BKDRHash n = Inr (name_hash n)"
  using BKDR_loop_nul [of n 0] by (auto simp: name_hash_def BKDRHash_def)

lemma low_bits_less: "unat (x AND (push_bit k 1 - 1) :: u64) < 2 ^ k"
  using unat_take_bit_less [of k x] by (simp add: and_mask_mod push_bit_eq_mult)

lemma ht_home_less: "ht_home n < NR_BUCKETS"
  using low_bits_less [of _ 12] by (simp add: ht_home_def ht_bucket_id_def MIN_FILE_BUCKET_BITS_def NR_BUCKETS_def)

lemma bt_home_less: "bt_home n < NR_BIG_BUCKETS"
  using low_bits_less [of _ 18]
  by (simp add: bt_home_def bt_bucket_id_def MIN_FILE_BUCKET_BITS_def MIN_DIR_BITS_def NR_BIG_BUCKETS_def)

lemma file_seg_inj:
  assumes "b < 2 ^ 60" "s < 8" "b' < 2 ^ 60" "s' < 8"
  shows "file_seg b s = file_seg b' s' \<longleftrightarrow> b = b' \<and> s = s'"
proof
  assume "file_seg b s = file_seg b' s'"
  then have "b * 8 + s = b' * 8 + s'"
    using unat_file_seg [OF assms(2,1)] unat_file_seg [OF assms(4,3)] by (simp add: file_seg_def)
  then show "b = b' \<and> s = s'" using assms by presburger
qed simp

section \<open>The small table implements the contract\<close>

abbreviation ht_inv :: "HashTable \<Rightarrow> bool" where "ht_inv t \<equiv> arr_ok NR_BUCKETS (ht_buckets t)"
abbreviation ht_taken :: "HashTable \<Rightarrow> (nat \<times> nat) set" where "ht_taken t \<equiv> arr_taken NR_BUCKETS (ht_buckets t)"
abbreviation ht_ready :: "platform \<Rightarrow> HashTable \<Rightarrow> nat \<Rightarrow> bool" where "ht_ready P t \<equiv> arr_ready P (ht_buckets t)"

lemma insert_file_cases:
  assumes inv: "ht_inv t" and n: "0 \<in> set n" and ready: "ht_ready P t (ht_home n)"
  shows "if \<forall>s<8. (ht_home n, s) \<in> ht_taken t
    then insert_file P t n = Inr (- 1, t\<lparr>ht_buckets := (ht_buckets t)(ht_home n := locked (ht_buckets t) (ht_home n))\<rparr>)
    else \<exists>s<8. (ht_home n, s) \<notin> ht_taken t \<and> (\<forall>j < s. (ht_home n, j) \<in> ht_taken t) \<and>
        insert_file P t n = Inr (file_seg (ht_home n) s,
          t\<lparr>ht_buckets := (ht_buckets t)(ht_home n := took (ht_buckets t) (ht_home n) s)\<rparr>)"
proof -
  let ?h = "ht_home n"
  obtain z where z: "find_first_zero_bit (slot_bitmap (ht_buckets t ?h)) FILE_SLOT_NUM = Inr z" "z \<le> 8"
    "z = 8 \<longleftrightarrow> (\<forall>s<8. (?h, s) \<in> ht_taken t)" "z < 8 \<Longrightarrow> (?h, z) \<notin> ht_taken t"
    "z < 8 \<Longrightarrow> \<forall>j<z. (?h, j) \<in> ht_taken t"
    using arr_scan [OF inv ht_home_less] by blast
  have id: "of_nat ?h = ht_bucket_id (name_hash n)" by (simp add: ht_home_def)
  note step = insert_file_def BKDRHash_nul [OF n] arr_ready_lock [OF ready] Let_def
  show ?thesis
  proof (cases "z = 8")
    case True
    then show ?thesis using z by (simp add: step flip: ht_home_def)
  next
    case False
    with z(2) have "z < 8" by simp
    moreover have "insert_file P t n = Inr (file_seg ?h z, t\<lparr>ht_buckets := (ht_buckets t)(?h := took (ht_buckets t) ?h z)\<rparr>)"
      using z False by (simp add: step slot_eq_8 unat_slot file_seg_def id flip: ht_home_def)
    ultimately show ?thesis using z by auto
  qed
qed

lemma delete_file_cases:
  assumes b: "b < NR_BUCKETS" and s: "s < 8" and ready: "ht_ready P t b"
  shows "delete_file P t (int b) (int s) =
    (if (b, s) \<in> ht_taken t then Inr (1, t\<lparr>ht_buckets := (ht_buckets t)(b := gave (ht_buckets t) b s)\<rparr>)
     else Inr (0, t\<lparr>ht_buckets := (ht_buckets t)(b := locked (ht_buckets t) b)\<rparr>))"
  using b s by (simp add: delete_file_def Let_def arr_ready_lock [OF ready] arr_taken_def layout_simps)

interpretation ht: slot_allocator ht_inv ht_taken "ht_ready P" ht_home file_seg "insert_file P" "delete_file P" NR_BUCKETS
  for P
proof (unfold_locales, goal_cases)
  case 1 then show ?case by (rule ht_home_less)
next
  case 2 then show ?case by (simp add: arr_taken_def)
next
  case (3 t n s0)
  then obtain s where s: "s < 8" "(ht_home n, s) \<notin> ht_taken t" "insert_file P t n = Inr (file_seg (ht_home n) s,
      t\<lparr>ht_buckets := (ht_buckets t)(ht_home n := took (ht_buckets t) (ht_home n) s)\<rparr>)"
    using insert_file_cases [OF 3(1-3)] by (auto split: if_splits)
  then show ?case using arr_took [OF 3(1) ht_home_less s(1,2)] by (auto simp: arr_ready_def)
next
  case (4 t b s) then show ?case
    by (cases "(b, s) \<in> ht_taken t") (auto simp: delete_file_cases arr_gave)
next
  case 5 then show ?case by (intro file_seg_inj) (auto simp: layout_simps)
qed

section \<open>The big table implements it while its buckets have room\<close>

abbreviation bt_inv :: "Big_Dir_HashTable \<Rightarrow> bool" where "bt_inv t \<equiv> arr_ok NR_BIG_BUCKETS (bt_buckets t)"
abbreviation bt_taken :: "Big_Dir_HashTable \<Rightarrow> (nat \<times> nat) set" where
  "bt_taken t \<equiv> arr_taken NR_BIG_BUCKETS (bt_buckets t)"
abbreviation bt_ready :: "platform \<Rightarrow> Big_Dir_HashTable \<Rightarrow> nat \<Rightarrow> bool" where
  "bt_ready P t \<equiv> arr_ready P (bt_buckets t)"

lemma insert_big_file_slot:
  assumes inv: "bt_inv t" and n: "0 \<in> set n" and ready: "bt_ready P t (bt_home n)"
  obtains z where "z \<le> 8" "z = 8 \<longleftrightarrow> (\<forall>s<8. (bt_home n, s) \<in> bt_taken t)" "z < 8 \<Longrightarrow> (bt_home n, z) \<notin> bt_taken t"
    "insert_big_file P t n = Inr (file_seg (bt_home n) z,
       t\<lparr>bt_buckets := (bt_buckets t)(bt_home n := took (bt_buckets t) (bt_home n) z)\<rparr>)"
proof -
  let ?h = "bt_home n"
  obtain z where z: "find_first_zero_bit (slot_bitmap (bt_buckets t ?h)) FILE_SLOT_NUM = Inr z" "z \<le> 8"
    "z = 8 \<longleftrightarrow> (\<forall>s<8. (?h, s) \<in> bt_taken t)" "z < 8 \<Longrightarrow> (?h, z) \<notin> bt_taken t"
    using arr_scan [OF inv bt_home_less] by blast
  have id: "of_nat ?h = bt_bucket_id (name_hash n)" by (simp add: bt_home_def)
  have "uint (of_nat z :: u8) \<noteq> - 1" using uint_ge_0 [of "of_nat z :: u8"] by linarith
  then have "insert_big_file P t n = Inr (file_seg ?h z, t\<lparr>bt_buckets := (bt_buckets t)(?h := took (bt_buckets t) ?h z)\<rparr>)"
    using z by (simp add: insert_big_file_def BKDRHash_nul [OF n] arr_ready_lock [OF ready] Let_def unat_slot
        file_seg_def id flip: bt_home_def)
  with z that show thesis by blast
qed

lemma delete_big_file_cases:
  assumes b: "b < NR_BIG_BUCKETS" and s: "s < 8" and ready: "bt_ready P t b"
  shows "delete_big_file P t (int b) (int s) =
    (if (b, s) \<in> bt_taken t then Inr (1, t\<lparr>bt_buckets := (bt_buckets t)(b := gave (bt_buckets t) b s)\<rparr>)
     else Inr (0, t\<lparr>bt_buckets := (bt_buckets t)(b := locked (bt_buckets t) b)\<rparr>))"
  using b s by (simp add: delete_big_file_def Let_def arr_ready_lock [OF ready] arr_taken_def layout_simps)

interpretation bt: slot_allocator bt_inv bt_taken "bt_ready P" bt_home file_seg "insert_big_file P" "delete_big_file P"
  NR_BIG_BUCKETS for P
proof (unfold_locales, goal_cases)
  case 1 then show ?case by (rule bt_home_less)
next
  case 2 then show ?case by (simp add: arr_taken_def)
next
  case (3 t n s0)
  then obtain s where s: "s < 8" "(bt_home n, s) \<notin> bt_taken t" "insert_big_file P t n = Inr (file_seg (bt_home n) s,
      t\<lparr>bt_buckets := (bt_buckets t)(bt_home n := took (bt_buckets t) (bt_home n) s)\<rparr>)"
    using insert_big_file_slot [OF 3(1-3)] by (metis le_neq_implies_less)
  then show ?case using arr_took [OF 3(1) bt_home_less s(1,2)] by (auto simp: arr_ready_def)
next
  case (4 t b s) then show ?case
    by (cases "(b, s) \<in> bt_taken t") (auto simp: delete_big_file_cases arr_gave)
next
  case 5 then show ?case by (intro file_seg_inj) (auto simp: layout_simps)
qed

section \<open>Fresh tables\<close>

lemma init_bucket_ok: "length (slot_bitmap b) = 1 \<Longrightarrow> init_bucket b = Inr (b\<lparr>slot_bitmap := [0], valid_slot_count := 0\<rparr>)"
  by (simp add: init_bucket_def bitmap_zero_fits BITS_TO_LONGS_def BITS_PER_LONG_def layout_simps)

lemma init_buckets_ok:
  "\<forall>b \<in> set bkts. length (slot_bitmap (bs b)) = 1 \<Longrightarrow> distinct bkts \<Longrightarrow>
    init_buckets bkts bs = Inr (\<lambda>b. if b \<in> set bkts then (bs b)\<lparr>slot_bitmap := [0], valid_slot_count := 0\<rparr> else bs b)"
proof (induction bkts arbitrary: bs)
  case (Cons b bkts)
  have "init_buckets (b # bkts) bs = init_buckets bkts (bs(b := (bs b)\<lparr>slot_bitmap := [0], valid_slot_count := 0\<rparr>))"
    using Cons.prems(1) by (simp add: init_bucket_ok)
  also have "\<dots> = Inr (\<lambda>x. if x \<in> set (b # bkts) then (bs x)\<lparr>slot_bitmap := [0], valid_slot_count := 0\<rparr> else bs x)"
    using Cons.prems by (subst Cons.IH) (auto simp: fun_eq_iff)
  finally show ?case .
qed simp

lemma fresh_bucket_ok: "bucket_ok (b\<lparr>slot_bitmap := [0], valid_slot_count := 0\<rparr>)"
proof -
  have "bm.used [0] FILE_SLOT_NUM = {}" by (auto simp: used_eq layout_simps)
  then show ?thesis by (simp add: bucket_ok_def)
qed

lemma init_file_ht_ok: "init_file_ht True = Inr (Some \<lparr>ht_buckets = (\<lambda>_. zero_bucket), ht_pos = 0\<rparr>)"
proof -
  have "zero_bucket\<lparr>slot_bitmap := [0], valid_slot_count := 0\<rparr> = zero_bucket" by (simp add: zero_bucket_def)
  then show ?thesis
    using init_buckets_ok [of "[0..<NR_BUCKETS]" "\<lambda>_. zero_bucket"]
    by (simp add: init_file_ht_def zero_bucket_def cong: if_cong)
qed

lemma zero_bucket_ok [simp]: "bucket_ok zero_bucket"
  using fresh_bucket_ok [of zero_bucket] by (simp add: zero_bucket_def)

lemma zero_bucket_lock [simp]: "\<not> bkt_lock zero_bucket"
  by (simp add: zero_bucket_def)

lemma zero_bucket_test [simp]: "s < 64 \<Longrightarrow> \<not> test_bit s (slot_bitmap zero_bucket)"
  by (simp add: zero_bucket_def)

lemma fresh_arr [simp]: "arr_ok nb (\<lambda>_. zero_bucket)" "arr_taken nb (\<lambda>_. zero_bucket) = {}"
  by (auto simp: arr_ok_def arr_taken_def)

section \<open>Inode numbers of files\<close>

lemma unat_ino:
  assumes "0 \<le> d" "d < 2 ^ 14" "b < NR_BUCKETS" "s < 8"
  shows "unat (file_seg b s OR word_of_int (cint (push_bit 15 d))) = nat d * 2 ^ 15 + (b * 8 + s)"
proof -
  have fs: "unat (file_seg b s) = b * 8 + s"
    using unat_file_seg [of s b] assms by (simp add: file_seg_def layout_simps)
  have d: "unat (word_of_int d :: u64) = nat d" using assms by (simp add: unat_word_of_int)
  have "cint (push_bit 15 d) = push_bit 15 d" using assms by (intro cint_id) (simp_all add: push_bit_eq_mult)
  then have "file_seg b s OR word_of_int (cint (push_bit 15 d)) = push_bit 15 (word_of_int d) OR file_seg b s"
    by (simp add: or.commute push_bit_eq_mult)
  moreover have "unat (push_bit 15 (word_of_int d) OR file_seg b s) = nat d * 2 ^ 15 + (b * 8 + s)"
    using assms fs d by (subst unat_push_or) (simp_all add: layout_simps nat_less_iff)
  ultimately show ?thesis by simp
qed

lemma file_seg_not_full: "b < 2 ^ 60 \<Longrightarrow> s < 8 \<Longrightarrow> file_seg b s \<noteq> - 1"
  using unat_file_seg [of s b]
  by (auto simp: file_seg_def word_unat_eq_iff unsigned_minus_1_eq_mask mask_eq_exp_minus_1)

lemma ino_fields:
  assumes "unat ino = d * 2 ^ 15 + (b * 8 + s)" "b < NR_BUCKETS" "s < 8"
  shows "unat (ino_to_slot ino) = s" "unat (ino_to_bucket ino) = b"
proof -
  have m: "SLOTS_PER_BUCKET - 1 = 2 ^ 3 - 1" "BUCKETS_PER_DIR - 1 = 2 ^ 12 - 1" by (simp_all add: layout_simps)
  define X where "X = d * 4096 + b"
  have ino: "unat ino = X * 8 + s" using assms(1) by (simp add: X_def)
  show "unat (ino_to_slot ino) = s"
    unfolding ino_to_slot_def m and_mask_mod unsigned_take_bit_eq ino using assms(3) by (simp add: take_bit_eq_mod)
  have "(X * 8 + s) div 2 ^ FILE_SLOT_BITS = X" using assms(3) by (simp add: layout_simps)
  moreover have "X mod 4096 = b" using assms(2) by (simp add: X_def layout_simps)
  ultimately show "unat (ino_to_bucket ino) = b"
    unfolding ino_to_bucket_def m and_mask_mod unsigned_take_bit_eq unat_drop_bit ino by (simp add: take_bit_eq_mod)
qed

lemma file_seg_8: "file_seg b 8 = file_seg (if even b then b + 1 else b) 0"
proof -
  have "file_seg b 8 = push_bit 3 1 OR push_bit 3 (of_nat b)"
    by (simp add: file_seg_def file_seg_of_def layout_simps)
  also have "\<dots> = push_bit 3 (1 OR of_nat b)" by (simp only: push_bit_or)
  also have "1 OR of_nat b = (of_nat (if even b then b + 1 else b) :: u64)" by (simp add: one_or_eq)
  finally show ?thesis by (simp add: file_seg_def file_seg_of_def layout_simps)
qed

definition full_bucket :: bucket where
  "full_bucket = \<lparr>slot_bitmap = [mask 8], valid_slot_count = 8, bkt_lock = False\<rparr>"

lemma full_arr:
  "arr_ok nb (\<lambda>_. full_bucket)" "(b, s) \<in> arr_taken nb (\<lambda>_. full_bucket) \<longleftrightarrow> b < nb \<and> s < 8"
  "arr_ready P (\<lambda>_. full_bucket) b"
proof -
  have bits: "test_bit s [mask 8]" if "s < 8" for s
    using that by (simp add: bit_mask_iff)
  have "bm.used [mask 8] FILE_SLOT_NUM = {..<8}" using bits by (auto simp: used_eq layout_simps)
  then have "bucket_ok full_bucket" by (simp add: bucket_ok_def full_bucket_def)
  then show "arr_ok nb (\<lambda>_. full_bucket)" by (simp add: arr_ok_def)
  show "(b, s) \<in> arr_taken nb (\<lambda>_. full_bucket) \<longleftrightarrow> b < nb \<and> s < 8"
    using bits by (auto simp: arr_taken_def full_bucket_def)
  show "arr_ready P (\<lambda>_. full_bucket) b" by (simp add: arr_ready_def full_bucket_def)
qed

definition empty_ht :: HashTable where
  "empty_ht = \<lparr>ht_buckets = (\<lambda>_. zero_bucket), ht_pos = 0\<rparr>"

definition empty_bt :: Big_Dir_HashTable where
  "empty_bt = \<lparr>bt_buckets = (\<lambda>_. zero_bucket), bt_dir_id = 0, bt_pos = 0\<rparr>"

lemma empty_ht_simps [simp]:
  "ht_inv empty_ht" "ht_taken empty_ht = {}" "ht_ready P empty_ht b" "ht_buckets empty_ht b = zero_bucket"
  by (simp_all add: empty_ht_def arr_ready_def)

lemma empty_bt_simps [simp]:
  "bt_inv empty_bt" "bt_taken empty_bt = {}" "bt_ready P empty_bt b" "bt_buckets empty_bt b = zero_bucket"
  by (simp_all add: empty_bt_def arr_ready_def)

section \<open>Properties of the file tables\<close>

text \<open>
  C3: Creating a file in a directory whose bucket for the name is unlocked and has a free slot
  always returns an inode number; it encodes the directory, the bucket the name hashes to and a
  slot that was free, the macros that \<open>ffs_mknod\<close> uses read these back, and exactly that slot
  becomes taken while the slot counters stay right.
\<close>
theorem file_slot_alloc_fresh:
  assumes "ht_inv t" "0 \<in> set n" "ht_ready P t (ht_home n)" "s0 < 8" "(ht_home n, s0) \<notin> ht_taken t"
    and "0 \<le> d" "d < 2 ^ MAX_DIR_BITS"
  shows "\<exists>ino s t'. flatfs_file_slot_alloc_by_name P t d n = Inr (ino, t') \<and> ino \<noteq> - 1 \<and>
    unat ino = nat d * 2 ^ 15 + (ht_home n * 8 + s) \<and> s < 8 \<and>
    unat (ino_to_bucket ino) = ht_home n \<and> unat (ino_to_slot ino) = s \<and>
    (ht_home n, s) \<notin> ht_taken t \<and> ht_taken t' = insert (ht_home n, s) (ht_taken t) \<and> ht_inv t'"
proof -
  obtain s t' where s: "s < 8" "(ht_home n, s) \<notin> ht_taken t" "insert_file P t n = Inr (file_seg (ht_home n) s, t')"
    "ht_inv t'" "ht_taken t' = insert (ht_home n, s) (ht_taken t)"
    using ht.alloc_free_slot [OF assms(1-5)] by blast
  let ?ino = "file_seg (ht_home n) s OR word_of_int (cint (push_bit 15 d))"
  have h: "ht_home n < NR_BUCKETS" "ht_home n < 2 ^ 60" using ht_home_less [of n] by (simp_all add: layout_simps)
  have ino: "unat ?ino = nat d * 2 ^ 15 + (ht_home n * 8 + s)" "nat d < 2 ^ 14"
    using unat_ino [OF _ _ h(1) s(1), of d] assms(6,7) by (simp_all add: layout_simps nat_less_iff)
  have "flatfs_file_slot_alloc_by_name P t d n = Inr (?ino, t')"
    using s(3) file_seg_not_full [OF h(2) s(1)] by (simp add: flatfs_file_slot_alloc_by_name_def FILE_SLOT_BITS_def MIN_FILE_BUCKET_BITS_def)
  moreover have "?ino \<noteq> - 1"
    using ino h(1) s(1) by (auto simp: word_unat_eq_iff unsigned_minus_1_eq_mask mask_eq_exp_minus_1 layout_simps)
  ultimately show ?thesis using s ino(1) ino_fields [OF ino(1) h(1) s(1)] by auto
qed

theorem file_slot_alloc_fresh_witness:
  "\<exists>ino t'. flatfs_file_slot_alloc_by_name x86_64_smp empty_ht 2 [97, 0] = Inr (ino, t') \<and> ino \<noteq> - 1 \<and> ht_inv t'"
  using file_slot_alloc_fresh [of empty_ht "[97, 0]" x86_64_smp 0 2] by (auto simp: MAX_DIR_BITS_def)

text \<open>
  A name whose bucket has no free slot is refused with -1 and no slot changes hands, so that
  \<open>ffs_mknod\<close> falls back to a big directory; but the bucket's lock stays taken.
\<close>
theorem insert_file_full_refused:
  assumes "ht_inv t" "0 \<in> set n" "ht_ready P t (ht_home n)" "\<forall>s<8. (ht_home n, s) \<in> ht_taken t"
  shows "\<exists>t'. flatfs_file_slot_alloc_by_name P t d n = Inr (- 1, t') \<and> ht_taken t' = ht_taken t \<and> ht_inv t' \<and>
    bkt_lock (ht_buckets t' (ht_home n))"
  using insert_file_cases [OF assms(1-3)] assms(1,4) by (simp add: flatfs_file_slot_alloc_by_name_def)

theorem insert_file_full_refused_witness:
  "\<exists>t'. flatfs_file_slot_alloc_by_name x86_64_smp (empty_ht\<lparr>ht_buckets := (\<lambda>_. full_bucket)\<rparr>) 2 [97, 0] = Inr (- 1, t')"
  using insert_file_full_refused [of "empty_ht\<lparr>ht_buckets := (\<lambda>_. full_bucket)\<rparr>" "[97, 0]" x86_64_smp 2]
  by (auto simp: full_arr ht_home_less)

text \<open>
  C33: On a multiprocessor kernel every directory bucket can be used once: after a file has been
  created in a bucket, creating another one whose name hashes there, or deleting any file of the
  bucket, spins forever, because no path releases the bucket's lock.
\<close>
theorem bucket_lock_never_released:
  assumes "pf_smp P" "insert_file P t n = Inr (r, t')" "0 \<in> set n" "0 \<in> set n'" "ht_home n' = ht_home n" "s \<le> 8"
  shows "insert_file P t' n' = Inl Deadlock \<and> delete_file P t' (int (ht_home n)) s = Inl Deadlock"
proof
  have lk: "bkt_lock (ht_buckets t' (ht_home n))"
    using assms(2) by (auto simp: insert_file_def BKDRHash_nul [OF assms(3)] Let_def res_simps ht_home_def split: if_splits)
  then show "insert_file P t' n' = Inl Deadlock"
    using assms(1,5) by (simp add: insert_file_def BKDRHash_nul [OF assms(4)] Let_def spin_lock_def flip: ht_home_def)
  show "delete_file P t' (int (ht_home n)) s = Inl Deadlock"
    using lk assms(1,6) ht_home_less [of n] by (simp add: delete_file_def Let_def spin_lock_def layout_simps)
qed

theorem bucket_lock_never_released_witness:
  "\<exists>r t'. insert_file x86_64_smp empty_ht [97, 0] = Inr (r, t') \<and> insert_file x86_64_smp t' [97, 0] = Inl Deadlock"
proof -
  obtain r t' where i: "insert_file x86_64_smp empty_ht [97, 0] = Inr (r, t')"
    using ht.alloc_fresh [of empty_ht "[97, 0]" x86_64_smp 0] by auto
  then show ?thesis
    using bucket_lock_never_released [OF _ i, of "[97, 0]" 0] by auto
qed

text \<open>
  C25: On a uniprocessor kernel, where taking a spin lock does not wait, a file goes into a bucket with a free slot
  and deleting it again reports success and gives back exactly its slot: the slots in use are those from before and
  the counters are right.
\<close>
theorem create_delete_roundtrip:
  assumes "\<not> pf_smp P" "ht_inv t" "0 \<in> set n" "s0 < 8" "(ht_home n, s0) \<notin> ht_taken t"
  shows "\<exists>s t' t''. insert_file P t n = Inr (file_seg (ht_home n) s, t') \<and>
    delete_file P t' (int (ht_home n)) (int s) = Inr (1, t'') \<and> ht_inv t'' \<and> ht_taken t'' = ht_taken t"
  using ht.alloc_then_release [OF assms(2,3) _ assms(4,5), of P] assms(1) by (simp add: arr_ready_def)

theorem create_delete_roundtrip_witness:
  "\<exists>s t' t''. insert_file x86_64_up empty_ht [98, 0] = Inr (file_seg (ht_home [98, 0]) s, t') \<and>
    delete_file x86_64_up t' (int (ht_home [98, 0])) (int s) = Inr (1, t'') \<and> ht_taken t'' = {}"
  using create_delete_roundtrip [of x86_64_up empty_ht "[98, 0]" 0] by auto

text \<open>
  C36: A full bucket of a big directory is not refused: the test compares an unsigned byte with
  -1. The file gets the out-of-range slot 8, whose number is that of slot 0 of the next bucket
  (even buckets) or of slot 0 of the same bucket, which is taken (odd buckets).
\<close>
theorem big_bucket_overflows:
  assumes "bt_inv t" "0 \<in> set n" "bt_ready P t (bt_home n)" "\<forall>s<8. (bt_home n, s) \<in> bt_taken t"
  shows "\<exists>t'. insert_big_file P t n = Inr (file_seg (if even (bt_home n) then bt_home n + 1 else bt_home n) 0, t')"
proof -
  let ?h = "bt_home n"
  obtain z where "z = 8" "insert_big_file P t n = Inr (file_seg ?h z, t\<lparr>bt_buckets := (bt_buckets t)(?h := took (bt_buckets t) ?h z)\<rparr>)"
    using insert_big_file_slot [OF assms(1-3)] assms(4) by metis
  moreover have "file_seg ?h 8 = file_seg (if even ?h then ?h + 1 else ?h) 0" by (rule file_seg_8)
  ultimately show ?thesis by auto
qed

theorem big_bucket_overflows_witness:
  "\<exists>f t'. insert_big_file x86_64_smp (empty_bt\<lparr>bt_buckets := (\<lambda>_. full_bucket)\<rparr>) [97, 0] = Inr (f, t')"
  using big_bucket_overflows [of "empty_bt\<lparr>bt_buckets := (\<lambda>_. full_bucket)\<rparr>" "[97, 0]" x86_64_smp]
  by (auto simp: full_arr bt_home_less)

text \<open>
  The inode numbers of files in big directories are not unique: the directory id is shifted
  by 21 bits in a 32-bit \<open>int\<close>, so directories whose ids differ by 2048 produce the same inode
  number for the same name and table.
\<close>
theorem big_ino_ignores_high_dir_bits:
  "flatfs_big_file_slot_alloc_by_name P t (d + 2048) n = flatfs_big_file_slot_alloc_by_name P t d n"
proof -
  have "cint (push_bit (FILE_SLOT_BITS + MIN_FILE_BUCKET_BITS + MIN_DIR_BITS) (d + 2048)) =
      cint (push_bit (FILE_SLOT_BITS + MIN_FILE_BUCKET_BITS + MIN_DIR_BITS) d)"
    by (simp add: layout_simps cint_def push_bit_eq_mult signed_take_bit_eq_iff_take_bit_eq take_bit_eq_mod distrib_right)
  then show ?thesis by (simp only: flatfs_big_file_slot_alloc_by_name_def)
qed

text \<open>
  A directory and a file in it can have the same inode number: the number of directory d is
  the one that the file table of d hands out for slot 1 of bucket 0.
\<close>
theorem dir_and_file_ino_collide:
  assumes "0 \<le> d" "d < 2 ^ MAX_DIR_BITS" "ht_inv t" "0 \<in> set n" "ht_ready P t (ht_home n)" "ht_home n = 0"
    and "(0, 0) \<in> ht_taken t" "(0, 1) \<notin> ht_taken t"
  shows "\<exists>t'. flatfs_file_slot_alloc_by_name P t d n = Inr (dir_id_to_inode (word_of_int d), t')"
proof -
  obtain s t' where s: "s < 8" "(0, s) \<notin> ht_taken t" "\<forall>j < s. (0, j) \<in> ht_taken t" "insert_file P t n = Inr (file_seg 0 s, t')"
    using insert_file_cases [OF assms(3-5)] assms(6,8) by (force split: if_splits)
  with assms(7,8) have "s = 1" by (metis less_one linorder_neqE_nat)
  let ?ino = "file_seg 0 1 OR word_of_int (cint (push_bit 15 d))"
  have "file_seg 0 1 \<noteq> - 1" by (rule file_seg_not_full) simp_all
  then have "flatfs_file_slot_alloc_by_name P t d n = Inr (?ino, t')"
    using s(4) \<open>s = 1\<close> by (simp add: flatfs_file_slot_alloc_by_name_def FILE_SLOT_BITS_def MIN_FILE_BUCKET_BITS_def)
  moreover have "unat ?ino = nat d * 2 ^ 15 + 1"
    using unat_ino [of d 0 1] assms(1,2) by (simp add: layout_simps)
  moreover have "unat (dir_id_to_inode (word_of_int d)) = nat d * 2 ^ 15 + 1"
    using assms(1,2) unat_push_add [of "word_of_int d :: u64" 15 1]
    by (simp add: dir_id_to_inode_def layout_simps unat_word_of_int nat_less_iff)
  ultimately show ?thesis by (auto simp: word_unat_eq_iff)
qed

theorem dir_and_file_ino_collide_witness:
  "\<exists>t'. flatfs_file_slot_alloc_by_name x86_64_smp
      (empty_ht\<lparr>ht_buckets := (\<lambda>_. \<lparr>slot_bitmap = [1], valid_slot_count = 1, bkt_lock = False\<rparr>)\<rparr>) 5 [62, 70, 0] =
    Inr (dir_id_to_inode 5, t')"
proof -
  let ?b = "\<lparr>slot_bitmap = [1], valid_slot_count = 1, bkt_lock = False\<rparr>"
  have "BKDRHash [62, 70, 0] = Inr 8192" by (simp add: BKDRHash_def)
  then have h: "ht_home [62, 70, 0] = 0" by (simp add: ht_home_def name_hash_def ht_bucket_id_def layout_simps)
  have "bm.used [1] FILE_SLOT_NUM = {0}" by (auto simp: used_eq layout_simps bit_1_iff)
  then have "bucket_ok ?b" by (simp add: bucket_ok_def)
  then show ?thesis
    using dir_and_file_ino_collide [of 5 "empty_ht\<lparr>ht_buckets := (\<lambda>_. ?b)\<rparr>" "[62, 70, 0]" x86_64_smp] h
    by (simp add: arr_ok_def arr_taken_def arr_ready_def layout_simps bit_1_iff)
qed

end
