(* ===== verification/Dir_Tree.thy ===== *)
theory Dir_Tree
  imports File_Table
begin

text \<open>
  The in-memory superblock and the directory tree of \<open>dir.c\<close>. Every directory is an element of
  the array \<open>de\<close>, indexed by its id; its subdirectories are a doubly linked list of heap nodes.
  The heap of list nodes is explicit: a freed node is absent, and following a pointer to it is
  \<open>UseAfterFree\<close>; node addresses are never reused. A null pointer is \<open>None\<close>. The two fields
  \<open>head\<close> and \<open>tail\<close> that \<open>subdirs\<close> points to are stored with the directory, \<open>None\<close> once they
  are freed. Loop counters that the code keeps in \<open>int\<close>s are the numbers of list nodes left to
  visit, since a list has fewer than \<open>2 ^ 31\<close> nodes.
\<close>

section \<open>State\<close>

record qstr =
  q_name :: bytes
  q_len :: int

record dir_list =
  dl_head :: "nat option"
  dl_tail :: "nat option"

record dir_entry =
  dir_id :: u64
  dir_name :: bytes
  namelen :: int
  rec_len :: u16
  subdirs :: "dir_list option"
  dir_size :: u64
  de_pos :: int

record dir_list_entry =
  le_de :: nat
  le_last :: "nat option"
  le_next :: "nat option"

record dir_tree =
  de :: "nat \<Rightarrow> dir_entry"
  dir_entry_num :: u64
  dir_id_bitmap :: bitmap

text \<open>
  \<open>big_dir_bitmap\<close> is the one word of \<open>DECLARE_BITMAP(big_dir_bitmap, 64)\<close>; behind it lie
  \<open>big_dir_num\<close> and the unused rest of the allocation (\<open>sb_slack\<close>).
\<close>

record flatfs_sb_info =
  root :: nat
  dtree_root :: dir_tree
  sb_name :: bytes
  hashtbl :: "nat \<Rightarrow> HashTable option"
  big_dir_hashtbl :: "nat \<Rightarrow> Big_Dir_HashTable option"
  big_dir_bitmap :: bitmap
  big_dir_num :: u8
  sb_slack :: "u64 list"
  dle_heap :: "nat \<Rightarrow> dir_list_entry option"
  dle_next :: nat

section \<open>Reading and writing memory\<close>

definition deref :: "nat option \<Rightarrow> nat res" where
  "deref p = (case p of None \<Rightarrow> Inl NullDeref | Some a \<Rightarrow> Inr a)"

definition get_de :: "flatfs_sb_info \<Rightarrow> nat \<Rightarrow> dir_entry res" where
  "get_de sb i = (if i < NR_DIRS then Inr (de (dtree_root sb) i) else Inl OutOfBounds)"

definition put_de :: "nat \<Rightarrow> dir_entry \<Rightarrow> flatfs_sb_info \<Rightarrow> flatfs_sb_info" where
  "put_de i d sb = sb\<lparr>dtree_root := (dtree_root sb)\<lparr>de := (de (dtree_root sb))(i := d)\<rparr>\<rparr>"

definition get_dle :: "flatfs_sb_info \<Rightarrow> nat \<Rightarrow> dir_list_entry res" where
  "get_dle sb a = (case dle_heap sb a of None \<Rightarrow> Inl UseAfterFree | Some e \<Rightarrow> Inr e)"

definition put_dle :: "nat \<Rightarrow> dir_list_entry \<Rightarrow> flatfs_sb_info \<Rightarrow> flatfs_sb_info" where
  "put_dle a e sb = sb\<lparr>dle_heap := (dle_heap sb)(a \<mapsto> e)\<rparr>"

definition free_dle :: "nat \<Rightarrow> flatfs_sb_info \<Rightarrow> flatfs_sb_info" where
  "free_dle a sb = sb\<lparr>dle_heap := (dle_heap sb)(a := None)\<rparr>"

definition get_list :: "dir_entry \<Rightarrow> dir_list res" where
  "get_list d = (case subdirs d of None \<Rightarrow> Inl UseAfterFree | Some l \<Rightarrow> Inr l)"

fun my_strlen :: "bytes \<Rightarrow> int res" where
  "my_strlen [] = Inl OutOfBounds"
| "my_strlen (c # cs) = (if c = 0 then Inr 0 else bind_res (my_strlen cs) (\<lambda>n. Inr (n + 1)))"

text \<open>Whether \<open>strncmp(a, b, n)\<close> is 0, and whether \<open>memcmp(a, b, n)\<close> is.\<close>

fun strncmp_eq :: "nat \<Rightarrow> bytes \<Rightarrow> bytes \<Rightarrow> bool res" where
  "strncmp_eq 0 a b = Inr True"
| "strncmp_eq (Suc n) (x # a) (y # b) = (if x \<noteq> y then Inr False else if x = 0 then Inr True else strncmp_eq n a b)"
| "strncmp_eq (Suc n) a b = Inl OutOfBounds"

definition memcmp_eq :: "nat \<Rightarrow> bytes \<Rightarrow> bytes \<Rightarrow> bool res" where
  "memcmp_eq n a b = (if n \<le> length a \<and> n \<le> length b then Inr (take n a = take n b) else Inl OutOfBounds)"

text \<open>\<open>memcpy\<close> of the first \<open>n\<close> bytes of \<open>src\<close> to the start of \<open>dst\<close>.\<close>

definition memcpy :: "bytes \<Rightarrow> bytes \<Rightarrow> nat \<Rightarrow> bytes res" where
  "memcpy dst src n =
     (if n \<le> length dst \<and> n \<le> length src then Inr (take n src @ drop n dst) else Inl OutOfBounds)"

section \<open>Directory ids\<close>

definition init_dir_id_bitmap :: "bitmap \<Rightarrow> bitmap res" where
  "init_dir_id_bitmap bmp =
     bind_res (bitmap_zero bmp NR_DIRS) (\<lambda>b.
       Inr (bitmap_set (bitmap_set (bitmap_set b 0 1) 1 1) 2 1))"

definition get_unused_dir_id :: "bitmap \<Rightarrow> (u64 \<times> bitmap) res" where
  "get_unused_dir_id bmp =
     bind_res (find_first_zero_bit bmp NR_DIRS) (\<lambda>dir_id.
       if dir_id = NR_DIRS then Inr (0, bmp)
       else Inr (of_nat dir_id, bitmap_set bmp dir_id 1))"

section \<open>Building the tree\<close>

text \<open>
  \<open>tree_ok\<close> and \<open>list_ok\<close> are the outcomes of the allocations, \<open>junk\<close> what the allocated memory
  held before.
\<close>

fun init_entries :: "(nat \<Rightarrow> bool) \<Rightarrow> nat list \<Rightarrow> (nat \<Rightarrow> dir_entry) \<Rightarrow> (nat \<Rightarrow> dir_entry) res" where
  "init_entries list_ok [] d = Inr d"
| "init_entries list_ok (i # is) d =
     (if \<not> list_ok i then Inl NullDeref
      else init_entries list_ok is
        (d(i := (d i)\<lparr>dir_id := of_nat i, dir_size := 0, namelen := 0, rec_len := 0,
                      dir_name := (dir_name (d i))[0 := 0],
                      subdirs := Some \<lparr>dl_head = None, dl_tail = None\<rparr>\<rparr>)))"

definition init_dir_tree :: "bool \<Rightarrow> (nat \<Rightarrow> bool) \<Rightarrow> dir_tree \<Rightarrow> dir_tree res" where
  "init_dir_tree tree_ok list_ok junk =
     (if \<not> tree_ok then Inl NullDeref
      else bind_res (init_entries list_ok [0..<NR_DIRS] (de junk)) (\<lambda>d.
           bind_res (init_dir_id_bitmap (dir_id_bitmap junk)) (\<lambda>bmp.
             Inr \<lparr>de = d, dir_entry_num = 1, dir_id_bitmap = bmp\<rparr>)))"

definition init_root_entry :: "bool \<Rightarrow> flatfs_sb_info \<Rightarrow> int \<Rightarrow> flatfs_sb_info res" where
  "init_root_entry list_ok sb isize =
     (let r = unat FLATFS_ROOT_INO; sb = sb\<lparr>root := r\<rparr> in
      bind_res (get_de sb r) (\<lambda>d.
      bind_res (memcpy (dir_name d) [47, 0] 1) (\<lambda>nm.
      if \<not> list_ok then Inl NullDeref
      else Inr (put_de r (d\<lparr>dir_id := FLATFS_ROOT_INO, dir_name := nm, namelen := 1,
                           rec_len := word_of_int (FFS_DIR_REC_LEN 1),
                           subdirs := Some \<lparr>dl_head = None, dl_tail = None\<rparr>,
                           dir_size := word_of_int isize\<rparr>) sb))))"

section \<open>Adding a directory\<close>

definition insert_dir :: "bool \<Rightarrow> flatfs_sb_info \<Rightarrow> u64 \<Rightarrow> u64 \<Rightarrow> flatfs_sb_info res" where
  "insert_dir alloc_ok sb parent_dir_id insert_dir_id =
     (if \<not> alloc_ok then Inl NullDeref
      else let p = unat parent_dir_id; a = dle_next sb;
               sb = put_dle a \<lparr>le_de = unat insert_dir_id, le_last = None, le_next = None\<rparr> (sb\<lparr>dle_next := a + 1\<rparr>)
      in bind_res (get_de sb p) (\<lambda>dir.
         bind_res (get_list dir) (\<lambda>l.
         if dir_size dir = 0
         then Inr (put_de p (dir\<lparr>subdirs := Some (l\<lparr>dl_head := Some a, dl_tail := Some a\<rparr>),
                                 dir_size := dir_size dir + 1\<rparr>) sb)
         else bind_res (deref (dl_tail l)) (\<lambda>t.
              bind_res (get_dle sb t) (\<lambda>te.
              let sb = put_dle t (te\<lparr>le_next := Some a\<rparr>) sb in
              bind_res (get_dle sb a) (\<lambda>ae.
              let sb = put_dle a (ae\<lparr>le_last := Some t\<rparr>) sb in
              Inr (put_de p (dir\<lparr>subdirs := Some (l\<lparr>dl_tail := Some a\<rparr>), dir_size := dir_size dir + 1\<rparr>) sb)))))))"

definition fill_one_dir_entry :: "flatfs_sb_info \<Rightarrow> bytes \<Rightarrow> (u64 \<times> flatfs_sb_info) res" where
  "fill_one_dir_entry sb name =
     bind_res (get_unused_dir_id (dir_id_bitmap (dtree_root sb))) (\<lambda>(dir_id, bmp).
     let sb = sb\<lparr>dtree_root := (dtree_root sb)\<lparr>dir_id_bitmap := bmp\<rparr>\<rparr> in
     if dir_id = 0 then Inr (dir_id, sb)
     else bind_res (get_de sb (unat dir_id)) (\<lambda>d.
          bind_res (my_strlen name) (\<lambda>n.
          bind_res (if n > 0 then memcpy (dir_name d) name (nat n) else Inr (dir_name d)) (\<lambda>nm.
          let sb = put_de (unat dir_id) (d\<lparr>dir_size := 0, namelen := n, rec_len := word_of_int (FFS_DIR_REC_LEN n),
                                           dir_name := nm\<rparr>) sb
          in Inr (dir_id, sb\<lparr>dtree_root := (dtree_root sb)\<lparr>dir_entry_num := dir_entry_num (dtree_root sb) + 1\<rparr>\<rparr>)))))"

section \<open>Freeing the tree\<close>

text \<open>
  The recursion follows the pointers of the tree, so it is given fuel; \<open>None\<close> means that it was
  not enough. The loop frees a node and then reads its \<open>next\<close> field.
\<close>

fun clear_dir_entry :: "nat \<Rightarrow> nat \<Rightarrow> flatfs_sb_info \<Rightarrow> flatfs_sb_info res option"
  and clear_subdirs :: "nat \<Rightarrow> nat \<Rightarrow> nat \<Rightarrow> nat option \<Rightarrow> flatfs_sb_info \<Rightarrow> flatfs_sb_info res option" where
  "clear_dir_entry 0 i sb = None"
| "clear_dir_entry (Suc fuel) i sb =
     (case get_de sb i of
        Inl e \<Rightarrow> Some (Inl e)
      | Inr dir \<Rightarrow>
          (case get_list dir of
             Inl e \<Rightarrow> Some (Inl e)
           | Inr l \<Rightarrow>
               (case clear_subdirs fuel i 0 (dl_head l) sb of
                  None \<Rightarrow> None
                | Some (Inl e) \<Rightarrow> Some (Inl e)
                | Some (Inr sb) \<Rightarrow>
                    Some (bind_res (get_de sb i) (\<lambda>dir.
                      Inr (put_de i (dir\<lparr>namelen := 0, dir_size := 0, subdirs := None\<rparr>) sb))))))"
| "clear_subdirs 0 i dir_num dle sb = None"
| "clear_subdirs (Suc fuel) i dir_num dle sb =
     (case get_de sb i of
        Inl e \<Rightarrow> Some (Inl e)
      | Inr dir \<Rightarrow>
          (case dle of
             None \<Rightarrow> Some (Inr sb)
           | Some a \<Rightarrow>
               if \<not> dir_num < unat (dir_size dir) then Some (Inr sb)
               else (case get_dle sb a of
                  Inl e \<Rightarrow> Some (Inl e)
                | Inr e \<Rightarrow>
                    (case clear_dir_entry fuel (le_de e) sb of
                       None \<Rightarrow> None
                     | Some (Inl e) \<Rightarrow> Some (Inl e)
                     | Some (Inr sb) \<Rightarrow>
                         let sb = free_dle a sb in
                         (case get_dle sb a of
                            Inl e \<Rightarrow> Some (Inl e)
                          | Inr e \<Rightarrow> clear_subdirs fuel i (Suc dir_num) (le_next e) sb)))))"

definition dir_exit :: "nat \<Rightarrow> flatfs_sb_info \<Rightarrow> flatfs_sb_info res option" where
  "dir_exit fuel sb = clear_dir_entry fuel (root sb) sb"

section \<open>Removing a directory\<close>

text \<open>The search loop: the position and the address of the node whose directory has the id.\<close>

fun find_dle :: "flatfs_sb_info \<Rightarrow> u64 \<Rightarrow> nat \<Rightarrow> nat \<Rightarrow> nat option \<Rightarrow> (nat \<times> nat) option res" where
  "find_dle sb did 0 start dle = Inr None"
| "find_dle sb did (Suc n) start dle =
     (case dle of
        None \<Rightarrow> Inr None
      | Some a \<Rightarrow>
          bind_res (get_dle sb a) (\<lambda>e.
          bind_res (get_de sb (le_de e)) (\<lambda>d.
          if did \<noteq> dir_id d then find_dle sb did n (Suc start) (le_next e) else Inr (Some (start, a)))))"

text \<open>
  Taking the node out of the parent's list. The second test compares the position with the
  \<open>dir_size\<close> of the directory that is removed.
\<close>

definition unlink_dle :: "flatfs_sb_info \<Rightarrow> nat \<Rightarrow> nat \<Rightarrow> nat \<Rightarrow> nat \<Rightarrow> flatfs_sb_info res" where
  "unlink_dle sb p i start a =
     bind_res (get_dle sb a) (\<lambda>e.
     let last = le_last e; next = le_next e in
     bind_res (get_de sb p) (\<lambda>parent_dir.
     bind_res (get_list parent_dir) (\<lambda>l.
     bind_res (if start = 0 then Inr (put_de p (parent_dir\<lparr>subdirs := Some (l\<lparr>dl_head := next\<rparr>)\<rparr>) sb)
               else case last of
                      None \<Rightarrow> Inr sb
                    | Some la \<Rightarrow> bind_res (get_dle sb la) (\<lambda>le. Inr (put_dle la (le\<lparr>le_next := next\<rparr>) sb))) (\<lambda>sb.
     bind_res (get_de sb i) (\<lambda>dir.
     bind_res (get_de sb p) (\<lambda>parent_dir.
     bind_res (get_list parent_dir) (\<lambda>l.
     bind_res (if of_nat start = dir_size dir - 1
               then Inr (put_de p (parent_dir\<lparr>subdirs := Some (l\<lparr>dl_tail := last\<rparr>)\<rparr>) sb)
               else case next of
                      None \<Rightarrow> Inr sb
                    | Some na \<Rightarrow> bind_res (get_dle sb na) (\<lambda>ne. Inr (put_dle na (ne\<lparr>le_last := last\<rparr>) sb))) (\<lambda>sb.
     bind_res (get_de sb p) (\<lambda>parent_dir.
     Inr (free_dle a (put_de p (parent_dir\<lparr>dir_size := dir_size parent_dir - 1\<rparr>) sb)))))))))))"

definition zero_name :: "bytes \<Rightarrow> nat \<Rightarrow> bytes" where
  "zero_name nm n = replicate n 0 @ drop n nm"

definition release_big :: "flatfs_sb_info \<Rightarrow> int \<Rightarrow> flatfs_sb_info res" where
  "release_big sb big_dir_id =
     (if big_dir_id < 0 then Inr sb
      else if int NR_BIG_DIRS \<le> big_dir_id then Inl OutOfBounds
      else case big_dir_hashtbl sb (nat big_dir_id) of
             None \<Rightarrow> Inr sb
           | Some t \<Rightarrow>
               Inr (sb\<lparr>big_dir_hashtbl := (big_dir_hashtbl sb)(nat big_dir_id := free_big_file_ht (Some t)),
                       big_dir_bitmap := bitmap_clear (big_dir_bitmap sb) (nat big_dir_id) 1,
                       big_dir_num := big_dir_num sb - 1\<rparr>))"

definition remove_dir :: "flatfs_sb_info \<Rightarrow> u64 \<Rightarrow> u64 \<Rightarrow> int \<Rightarrow> flatfs_sb_info res" where
  "remove_dir sb parent_ino dir_ino big_dir_id =
     (let p = unat (inode_to_dir_id parent_ino); i = unat (inode_to_dir_id dir_ino) in
      bind_res (get_de sb p) (\<lambda>parent_dir.
      bind_res (get_de sb i) (\<lambda>dir.
      bind_res (my_strlen (dir_name dir)) (\<lambda>name_len.
      bind_res (get_list parent_dir) (\<lambda>l.
      bind_res (find_dle sb (dir_id dir) (unat (dir_size parent_dir)) 0 (dl_head l)) (\<lambda>found.
      case found of
        None \<Rightarrow> Inr sb
      | Some (start, a) \<Rightarrow>
          bind_res (unlink_dle sb p i start a) (\<lambda>sb.
          bind_res (get_de sb i) (\<lambda>dir.
          bind_res (get_list dir) (\<lambda>dl.
          let sb = put_de i (dir\<lparr>dir_name := zero_name (dir_name dir) (nat name_len), namelen := 0,
                                 subdirs := Some (dl\<lparr>dl_head := None, dl_tail := None\<rparr>)\<rparr>) sb;
              h = unat (dir_id dir)
          in if NR_DIRS \<le> h then Inl OutOfBounds
             else let sb = (case hashtbl sb h of
                              None \<Rightarrow> sb
                            | Some t \<Rightarrow> sb\<lparr>hashtbl := (hashtbl sb)(h := free_file_ht (Some t))\<rparr>) in
             bind_res (release_big sb big_dir_id) (\<lambda>sb.
             Inr (sb\<lparr>dtree_root := (dtree_root sb)
                  \<lparr>dir_entry_num := dir_entry_num (dtree_root sb) - 1,
                    dir_id_bitmap := bitmap_clear (dir_id_bitmap (dtree_root sb)) h 1\<rparr>\<rparr>)))))))))))"

text \<open>
  \<open>delete_dir\<close> keeps going while the name matches and removes the first directory whose name
  does not.
\<close>

fun delete_dir_find :: "flatfs_sb_info \<Rightarrow> qstr \<Rightarrow> nat \<Rightarrow> nat option \<Rightarrow> nat option res" where
  "delete_dir_find sb child 0 dle = Inr None"
| "delete_dir_find sb child (Suc n) dle =
     (case dle of
        None \<Rightarrow> Inr None
      | Some a \<Rightarrow>
          bind_res (get_dle sb a) (\<lambda>e.
          bind_res (get_de sb (le_de e)) (\<lambda>d.
          bind_res (if q_len child = namelen d then memcmp_eq (nat (q_len child)) (q_name child) (dir_name d)
                    else Inr False) (\<lambda>m.
          if m then delete_dir_find sb child n (le_next e) else Inr (Some a)))))"

definition delete_dir :: "nat \<Rightarrow> flatfs_sb_info \<Rightarrow> u64 \<Rightarrow> qstr \<Rightarrow> flatfs_sb_info res option" where
  "delete_dir fuel sb ino child =
     (let p = unat (inode_to_dir_id ino);
          found = bind_res (get_de sb p) (\<lambda>dir.
                  bind_res (get_list dir) (\<lambda>l.
                    delete_dir_find sb child (unat (dir_size dir)) (dl_head l)))
      in case found of
           Inl e \<Rightarrow> Some (Inl e)
         | Inr None \<Rightarrow> Some (Inr sb)
         | Inr (Some a) \<Rightarrow>
             (case bind_res (get_de sb p) (\<lambda>dir.
                   bind_res (get_list dir) (\<lambda>l.
                   bind_res (get_dle sb a) (\<lambda>e.
                   bind_res (if dl_head l = Some a
                             then Inr (put_de p (dir\<lparr>subdirs := Some (l\<lparr>dl_head := le_next e\<rparr>)\<rparr>) sb)
                             else bind_res (deref (le_last e)) (\<lambda>pre.
                                  bind_res (get_dle sb pre) (\<lambda>pe. Inr (put_dle pre (pe\<lparr>le_next := le_next e\<rparr>) sb)))) (\<lambda>sb.
                   bind_res (get_de sb p) (\<lambda>dir.
                   bind_res (get_list dir) (\<lambda>l.
                   bind_res (if dl_tail l = Some a
                             then Inr (put_de p (dir\<lparr>subdirs := Some (l\<lparr>dl_tail := le_last e\<rparr>)\<rparr>) sb)
                             else bind_res (deref (le_next e)) (\<lambda>suf.
                                  bind_res (get_dle sb suf) (\<lambda>se. Inr (put_dle suf (se\<lparr>le_last := le_last e\<rparr>) sb)))) (\<lambda>sb.
                   Inr (le_de e, sb)))))))) of
                Inl e \<Rightarrow> Some (Inl e)
              | Inr (d, sb) \<Rightarrow>
                  map_option (\<lambda>r. bind_res r (\<lambda>sb. Inr (free_dle a sb))) (clear_dir_entry fuel d sb)))"

section \<open>Looking up and listing subdirectories\<close>

fun dir_by_name_loop :: "flatfs_sb_info \<Rightarrow> qstr \<Rightarrow> nat \<Rightarrow> nat option \<Rightarrow> u64 \<Rightarrow> u64 res" where
  "dir_by_name_loop sb child 0 dir_node ino = Inr ino"
| "dir_by_name_loop sb child (Suc n) dir_node ino =
     (case dir_node of
        None \<Rightarrow> Inr ino
      | Some a \<Rightarrow>
          bind_res (get_dle sb a) (\<lambda>e.
          bind_res (get_de sb (le_de e)) (\<lambda>d.
          bind_res (if q_len child = namelen d then strncmp_eq (nat (q_len child)) (q_name child) (dir_name d)
                    else Inr False) (\<lambda>m.
          if m then Inr (dir_id d) else dir_by_name_loop sb child n (le_next e) ino))))"

definition flatfs_dir_inode_by_name :: "flatfs_sb_info \<Rightarrow> u64 \<Rightarrow> qstr \<Rightarrow> u64 res" where
  "flatfs_dir_inode_by_name sb parent_ino child =
     (let parent_dir_id = inode_to_dir_id parent_ino in
      bind_res (get_de sb (unat parent_dir_id)) (\<lambda>dir.
      bind_res (get_list dir) (\<lambda>l.
      bind_res (dir_by_name_loop sb child (unat (dir_size dir)) (dl_head l) parent_dir_id) (\<lambda>ino.
      if ino = parent_dir_id then Inr 0 else Inr (dir_id_to_inode ino)))))"

text \<open>
  Directory listing hands each name to the caller's \<open>actor\<close> with the caller's own state; its
  answer (whether there was room) is not used. Inode numbers are cut to 32 bits by
  \<open>le32_to_cpu\<close>.
\<close>

type_synonym 'c actor = "'c \<Rightarrow> bytes \<Rightarrow> int \<Rightarrow> u64 \<Rightarrow> u8 \<Rightarrow> int \<times> 'c"

record 'c dir_context =
  ctx_pos :: int
  ctx_data :: 'c

definition dir_emit :: "'c actor \<Rightarrow> 'c dir_context \<Rightarrow> bytes \<Rightarrow> int \<Rightarrow> u64 \<Rightarrow> u8 \<Rightarrow> (bool \<times> 'c dir_context) res" where
  "dir_emit actor ctx name len ino ty =
     (if nat len \<le> length name
      then let (r, c) = actor (ctx_data ctx) (take (nat len) name) (ctx_pos ctx) ino ty
           in Inr (r = 0, ctx\<lparr>ctx_data := c\<rparr>)
      else Inl OutOfBounds)"

definition le32_to_cpu :: "u64 \<Rightarrow> u64" where
  "le32_to_cpu x = ucast (ucast x :: u32)"

definition ffs_rec_len_from_dtree :: "u16 \<Rightarrow> int" where
  "ffs_rec_len_from_dtree dlen = uint dlen"

definition DT_DIR :: u8 where "DT_DIR = 4"

fun skip_dirs :: "flatfs_sb_info \<Rightarrow> nat \<Rightarrow> int \<Rightarrow> int \<Rightarrow> nat option \<Rightarrow> (int \<times> nat option) res" where
  "skip_dirs sb 0 depos pos dle = Inr (pos, dle)"
| "skip_dirs sb (Suc n) depos pos dle =
     (case dle of
        None \<Rightarrow> Inr (pos, dle)
      | Some a \<Rightarrow>
          if pos < depos then bind_res (get_dle sb a) (\<lambda>e. skip_dirs sb n depos (pos + 1) (le_next e))
          else Inr (pos, dle))"

fun emit_dirs ::
  "'c actor \<Rightarrow> nat \<Rightarrow> nat \<Rightarrow> int \<Rightarrow> nat option \<Rightarrow> flatfs_sb_info \<Rightarrow> 'c dir_context \<Rightarrow> (int \<times> flatfs_sb_info \<times> 'c dir_context) res" where
  "emit_dirs actor i 0 pos dle sb ctx = Inr (pos, sb, ctx)"
| "emit_dirs actor i (Suc n) pos dle sb ctx =
     (case dle of
        None \<Rightarrow> Inr (pos, sb, ctx)
      | Some a \<Rightarrow>
          bind_res (get_dle sb a) (\<lambda>e.
          bind_res (get_de sb (le_de e)) (\<lambda>d.
          if rec_len d = 0 then Inr (- 5, sb, ctx)
          else bind_res (dir_emit actor ctx (dir_name d) (namelen d) (le32_to_cpu (dir_id_to_inode (dir_id d))) DT_DIR) (\<lambda>(ok, ctx).
               bind_res (get_de sb i) (\<lambda>di.
               emit_dirs actor i n (pos + 1) (le_next e)
                 (put_de i (di\<lparr>de_pos := de_pos di + ffs_rec_len_from_dtree 1\<rparr>) sb)
                 (ctx\<lparr>ctx_pos := ctx_pos ctx + ffs_rec_len_from_dtree 1\<rparr>))))))"

definition read_dir_dirs ::
  "'c actor \<Rightarrow> flatfs_sb_info \<Rightarrow> u64 \<Rightarrow> 'c dir_context \<Rightarrow> (int \<times> flatfs_sb_info \<times> 'c dir_context) res" where
  "read_dir_dirs actor sb ino ctx =
     (let i = unat (drop_bit (MIN_FILE_BUCKET_BITS + FILE_SLOT_BITS) (ino - 1)) in
      bind_res (get_de sb i) (\<lambda>d.
      bind_res (get_list d) (\<lambda>l.
      if ctx_pos ctx = 0
      then emit_dirs actor i (unat (dir_size d)) 0 (dl_head l) (put_de i (d\<lparr>de_pos := 0\<rparr>) sb) ctx
      else bind_res (skip_dirs sb (unat (dir_size d)) (de_pos d) 0 (dl_head l)) (\<lambda>(pos, dle).
           emit_dirs actor i (unat (dir_size d) - nat pos) pos dle sb ctx))))"

section \<open>Extension tables for big directories\<close>

definition sb_tail :: "flatfs_sb_info \<Rightarrow> bitmap" where
  "sb_tail sb = big_dir_bitmap sb @ ucast (big_dir_num sb) # sb_slack sb"

definition resize_dir :: "flatfs_sb_info \<Rightarrow> Big_Dir_HashTable option \<Rightarrow> (int \<times> flatfs_sb_info) res" where
  "resize_dir sb junk =
     (if unat (big_dir_num sb) > NR_BIG_DIRS then Inr (- 1, sb)
      else bind_res (find_first_zero_bit (sb_tail sb) NR_DIRS) (\<lambda>pos.
           if NR_BIG_DIRS \<le> pos then Inl OutOfBounds
           else bind_res (init_big_file_ht junk) (\<lambda>t.
             Inr (int pos, sb\<lparr>big_dir_hashtbl := (big_dir_hashtbl sb)(pos := t),
                             big_dir_bitmap := bitmap_set (big_dir_bitmap sb) pos 1,
                             big_dir_num := big_dir_num sb + 1\<rparr>))))"

end
