(* ===== verification/Dir_Lists.thy ===== *)
theory Dir_Lists
  imports Dir_Tree
begin

text \<open>
  The subdirectory lists of the directory tree: a predicate that says that the nodes of a
  directory form a doubly linked list of the right length, the tree invariant built from it, and
  what adding, finding, listing and removing a directory does to it.
\<close>

section \<open>Memory\<close>

lemma heap_put [simp, heap_simps]:
  "dle_heap (put_de i d sb) = dle_heap sb" "dle_next (put_de i d sb) = dle_next sb"
  "de (dtree_root (put_de i d sb)) = (de (dtree_root sb))(i := d)"
  "dle_heap (put_dle a e sb) = (dle_heap sb)(a \<mapsto> e)" "dle_next (put_dle a e sb) = dle_next sb"
  "dtree_root (put_dle a e sb) = dtree_root sb"
  "dle_heap (free_dle a sb) = (dle_heap sb)(a := None)" "dle_next (free_dle a sb) = dle_next sb"
  "dtree_root (free_dle a sb) = dtree_root sb"
  by (simp_all add: put_de_def put_dle_def free_dle_def)

lemma heap_put_rest [simp, heap_simps]:
  "dir_id_bitmap (dtree_root (put_de i d sb)) = dir_id_bitmap (dtree_root sb)"
  "hashtbl (put_de i d sb) = hashtbl sb" "hashtbl (put_dle a e sb) = hashtbl sb" "hashtbl (free_dle a sb) = hashtbl sb"
  "big_dir_hashtbl (put_de i d sb) = big_dir_hashtbl sb" "big_dir_hashtbl (put_dle a e sb) = big_dir_hashtbl sb"
  "big_dir_hashtbl (free_dle a sb) = big_dir_hashtbl sb"
  by (simp_all add: put_de_def put_dle_def free_dle_def)

lemma get_de_Inr [simp]: "i < NR_DIRS \<Longrightarrow> get_de sb i = Inr (de (dtree_root sb) i)"
  by (simp add: get_de_def)

lemma get_dle_Some [simp]: "dle_heap sb a = Some e \<Longrightarrow> get_dle sb a = Inr e"
  by (simp add: get_dle_def)

lemma get_dle_None [simp]: "dle_heap sb a = None \<Longrightarrow> get_dle sb a = Inl UseAfterFree"
  by (simp add: get_dle_def)

lemma get_list_Some [simp]: "subdirs d = Some l \<Longrightarrow> get_list d = Inr l"
  by (simp add: get_list_def)

lemma deref_simps [simp]: "deref (Some a) = Inr a" "deref None = Inl NullDeref"
  by (simp_all add: deref_def)

section \<open>Doubly linked lists\<close>

type_synonym dle_store = "nat \<Rightarrow> dir_list_entry option"

fun dlist :: "dle_store \<Rightarrow> nat option \<Rightarrow> nat option \<Rightarrow> nat list \<Rightarrow> bool" where
  "dlist h prev p [] \<longleftrightarrow> p = None"
| "dlist h prev p (a # as) \<longleftrightarrow>
     p = Some a \<and> (\<exists>e. h a = Some e \<and> le_last e = prev \<and> dlist h (Some a) (le_next e) as)"

lemma dlist_frame: "\<forall>a \<in> set as. h' a = h a \<Longrightarrow> dlist h' prev p as = dlist h prev p as"
  by (induction as arbitrary: prev p) auto

lemma dlist_upd [simp]: "x \<notin> set as \<Longrightarrow> dlist (h(x := e)) prev p as = dlist h prev p as"
  by (rule dlist_frame) auto

lemma dlist_alloc: "dlist h prev p as \<Longrightarrow> a \<in> set as \<Longrightarrow> \<exists>e. h a = Some e"
  by (induction as arbitrary: prev p) auto

lemma dlist_append_node:
  assumes "dlist h prev p (as @ [t])" "x \<notin> set (as @ [t])" "distinct (as @ [t])"
  shows "dlist (h(t \<mapsto> (the (h t))\<lparr>le_next := Some x\<rparr>, x \<mapsto> \<lparr>le_de = k, le_last = Some t, le_next = None\<rparr>)) prev p (as @ [t, x])"
  using assms by (induction as arbitrary: prev p) auto


section \<open>The list of a directory\<close>

definition dir_children :: "flatfs_sb_info \<Rightarrow> nat \<Rightarrow> nat list \<Rightarrow> bool" where
  "dir_children sb d as \<longleftrightarrow>
     (\<exists>l. subdirs (de (dtree_root sb) d) = Some l \<and> dlist (dle_heap sb) None (dl_head l) as \<and>
          (as \<noteq> [] \<longrightarrow> dl_tail l = Some (last as))) \<and>
     dir_size (de (dtree_root sb) d) = of_nat (length as) \<and> distinct as \<and> length as < NR_DIRS"

definition child :: "flatfs_sb_info \<Rightarrow> nat \<Rightarrow> nat" where
  "child sb a = le_de (the (dle_heap sb a))"

text \<open>The invariant of the tree; \<open>C\<close> gives the list nodes of every directory.\<close>

definition tree_ok :: "flatfs_sb_info \<Rightarrow> (nat \<Rightarrow> nat list) \<Rightarrow> bool" where
  "tree_ok sb C \<longleftrightarrow>
     (\<forall>d<NR_DIRS. dir_children sb d (C d)) \<and>
     (\<forall>d<NR_DIRS. \<forall>d'<NR_DIRS. d \<noteq> d' \<longrightarrow> set (C d) \<inter> set (C d') = {}) \<and>
     (\<forall>a \<ge> dle_next sb. dle_heap sb a = None) \<and>
     (\<forall>d<NR_DIRS. dir_id (de (dtree_root sb) d) = of_nat d \<and> length (dir_name (de (dtree_root sb) d)) = 482) \<and>
     (\<forall>d<NR_DIRS. \<forall>a \<in> set (C d). child sb a < NR_DIRS)"

lemma dir_children_size: "dir_children sb d as \<Longrightarrow> unat (dir_size (de (dtree_root sb) d)) = length as"
  by (simp add: dir_children_def layout_simps unat_of_nat_less)

lemma tree_ok_children: "tree_ok sb C \<Longrightarrow> d < NR_DIRS \<Longrightarrow> dir_children sb d (C d)"
  by (simp add: tree_ok_def)

lemma tree_ok_alloc: "tree_ok sb C \<Longrightarrow> d < NR_DIRS \<Longrightarrow> a \<in> set (C d) \<Longrightarrow> \<exists>e. dle_heap sb a = Some e"
  by (auto simp: tree_ok_def dir_children_def dest: dlist_alloc)

lemma tree_ok_new: "tree_ok sb C \<Longrightarrow> d < NR_DIRS \<Longrightarrow> dle_next sb \<notin> set (C d)"
  using tree_ok_alloc [of sb C d "dle_next sb"] by (auto simp: tree_ok_def)

lemma tree_ok_frame:
  assumes T: "tree_ok sb C" and p: "p < NR_DIRS"
    and others: "\<And>d. d < NR_DIRS \<Longrightarrow> d \<noteq> p \<Longrightarrow> subdirs (de (dtree_root sb') d) = subdirs (de (dtree_root sb) d) \<and>
      dir_size (de (dtree_root sb') d) = dir_size (de (dtree_root sb) d) \<or> C d = [] \<and> dir_children sb' d []"
    and names: "\<And>d. d < NR_DIRS \<Longrightarrow> dir_id (de (dtree_root sb') d) = of_nat d \<and> length (dir_name (de (dtree_root sb') d)) = 482"
    and list: "dir_children sb' p bs" "\<forall>a \<in> set bs. child sb' a < NR_DIRS"
    and fresh: "\<forall>a \<in> set bs. a \<in> set (C p) \<or> dle_heap sb a = None"
    and heap: "\<And>a. a \<notin> set (C p) \<Longrightarrow> a \<notin> set bs \<Longrightarrow> dle_heap sb' a = dle_heap sb a"
    and brk: "\<forall>a \<ge> dle_next sb'. dle_heap sb' a = None"
  shows "tree_ok sb' (C(p := bs))"
proof -
  have out: "a \<notin> set (C p) \<and> a \<notin> set bs" if d: "d < NR_DIRS" "d \<noteq> p" "a \<in> set (C d)" for a d
  proof -
    have "a \<notin> set (C p)" using T d p unfolding tree_ok_def by blast
    moreover obtain e where "dle_heap sb a = Some e" using tree_ok_alloc [OF T d(1,3)] by blast
    ultimately show ?thesis using fresh by auto
  qed
  have "dir_children sb' d (C d)" if d: "d < NR_DIRS" "d \<noteq> p" for d
  proof -
    have "dlist (dle_heap sb') prev q (C d) = dlist (dle_heap sb) prev q (C d)" for prev q
      by (rule dlist_frame) (use heap out [OF d] in blast)
    then show ?thesis
      using tree_ok_children [OF T d(1)] others [OF d] by (elim disjE) (simp_all add: dir_children_def)
  qed
  moreover have "child sb' a < NR_DIRS" if "d < NR_DIRS" "d \<noteq> p" "a \<in> set (C d)" for a d
    using heap [of a] out [OF that] T that by (simp add: tree_ok_def child_def)
  moreover have "set (C d) \<inter> set bs = {}" "set bs \<inter> set (C d) = {}" if "d < NR_DIRS" "d \<noteq> p" for d using out [OF that] by auto
  moreover have "set (C d) \<inter> set (C d') = {}" if "d < NR_DIRS" "d' < NR_DIRS" "d \<noteq> d'" for d d'
    using T that by (simp add: tree_ok_def)
  ultimately show ?thesis using list names brk by (simp add: tree_ok_def)
qed

section \<open>Adding a directory\<close>

lemma dir_children_cases:
  assumes "dir_children sb d as"
  obtains l where "subdirs (de (dtree_root sb) d) = Some l" "dlist (dle_heap sb) None (dl_head l) as"
    "as \<noteq> [] \<Longrightarrow> dl_tail l = Some (last as)" "dir_size (de (dtree_root sb) d) = of_nat (length as)"
    "dir_size (de (dtree_root sb) d) = 0 \<longleftrightarrow> as = []"
proof -
  have "dir_size (de (dtree_root sb) d) = 0 \<longleftrightarrow> as = []"
    using dir_children_size [OF assms] by (auto simp: unat_eq_0 [symmetric])
  then show thesis using assms that by (auto simp: dir_children_def)
qed

definition same_entries :: "flatfs_sb_info \<Rightarrow> flatfs_sb_info \<Rightarrow> bool" where
  "same_entries sb sb' \<longleftrightarrow> (\<forall>d. dir_id (de (dtree_root sb') d) = dir_id (de (dtree_root sb) d) \<and>
     dir_name (de (dtree_root sb') d) = dir_name (de (dtree_root sb) d) \<and>
     namelen (de (dtree_root sb') d) = namelen (de (dtree_root sb) d) \<and>
     rec_len (de (dtree_root sb') d) = rec_len (de (dtree_root sb) d))"

lemma insert_dir_ok:
  assumes T: "tree_ok sb C" and p: "p < NR_DIRS" and k: "k < NR_DIRS" and len: "Suc (length (C p)) < NR_DIRS"
  shows "\<exists>sb'. insert_dir True sb (of_nat p) (of_nat k) = Inr sb' \<and> tree_ok sb' (C(p := C p @ [dle_next sb])) \<and>
    child sb' (dle_next sb) = k \<and> (\<forall>d<NR_DIRS. \<forall>a \<in> set (C d). child sb' a = child sb a) \<and> same_entries sb sb' \<and>
    dir_id_bitmap (dtree_root sb') = dir_id_bitmap (dtree_root sb)"
proof -
  let ?n = "dle_next sb" and ?d = "de (dtree_root sb) p"
  have un: "unat (of_nat p :: u64) = p" "unat (of_nat k :: u64) = k" using p k by (simp_all add: layout_simps unat_of_nat_less)
  obtain l where l: "subdirs ?d = Some l" "dlist (dle_heap sb) None (dl_head l) (C p)" "C p \<noteq> [] \<Longrightarrow> dl_tail l = Some (last (C p))"
    "dir_size ?d = of_nat (length (C p))" "dir_size ?d = 0 \<longleftrightarrow> C p = []"
    using dir_children_cases [OF tree_ok_children [OF T p]] by blast
  have new: "?n \<notin> set (C p)" "dle_heap sb ?n = None" using tree_ok_new [OF T p] T by (auto simp: tree_ok_def)
  have brk: "dle_heap sb a = None" if "?n \<le> a" for a using T that by (simp add: tree_ok_def)
  have names: "dir_id (de (dtree_root sb) d) = of_nat d \<and> length (dir_name (de (dtree_root sb) d)) = 482" if "d < NR_DIRS" for d
    using T that by (simp add: tree_ok_def)
  have kids: "\<forall>a \<in> set (C p). child sb a < NR_DIRS" using T p by (simp add: tree_ok_def)
  have dist: "distinct (C p)" using tree_ok_children [OF T p] by (simp add: dir_children_def)
  show ?thesis
  proof (cases "C p" rule: rev_cases)
    case Nil
    let ?sb = "put_de p (?d\<lparr>subdirs := Some \<lparr>dl_head = Some ?n, dl_tail = Some ?n\<rparr>, dir_size := 1\<rparr>)
      (put_dle ?n \<lparr>le_de = k, le_last = None, le_next = None\<rparr> (sb\<lparr>dle_next := ?n + 1\<rparr>))"
    have run: "insert_dir True sb (of_nat p) (of_nat k) = Inr ?sb"
      using Nil l p by (cases l) (simp add: insert_dir_def Let_def un)
    have "tree_ok ?sb (C(p := [?n]))"
      by (rule tree_ok_frame [OF T p])
        (use Nil new brk names k in \<open>auto simp: dir_children_def child_def layout_simps\<close>)
    with run Nil tree_ok_new [OF T] show ?thesis by (auto simp: child_def same_entries_def)
  next
    case (snoc as t)
    obtain te where te: "dle_heap sb t = Some te" using tree_ok_alloc [OF T p, of t] snoc by auto
    let ?h = "(dle_heap sb)(t \<mapsto> te\<lparr>le_next := Some ?n\<rparr>, ?n \<mapsto> \<lparr>le_de = k, le_last = Some t, le_next = None\<rparr>)"
    let ?sb = "put_de p (?d\<lparr>subdirs := Some (l\<lparr>dl_tail := Some ?n\<rparr>), dir_size := dir_size ?d + 1\<rparr>)
      (put_dle ?n \<lparr>le_de = k, le_last = Some t, le_next = None\<rparr> (put_dle t (te\<lparr>le_next := Some ?n\<rparr>)
      (put_dle ?n \<lparr>le_de = k, le_last = None, le_next = None\<rparr> (sb\<lparr>dle_next := ?n + 1\<rparr>))))"
    have tn: "t \<noteq> ?n" using snoc new by auto
    have run: "insert_dir True sb (of_nat p) (of_nat k) = Inr ?sb"
      using snoc l p te tn by (simp add: insert_dir_def Let_def un)
    have heap: "dle_heap ?sb = ?h" using tn by (simp add: fun_upd_twist)
    have "dlist ?h None (dl_head l) (as @ [t, ?n])"
      using dlist_append_node [of "dle_heap sb" None "dl_head l" as t ?n k] l(2) snoc new te dist by simp
    then have "dlist (dle_heap ?sb) None (dl_head l) (C p @ [?n])" unfolding heap snoc by simp
    then have "dir_children ?sb p (C p @ [?n])"
      using snoc new dist len l(4) by (simp add: dir_children_def)
    then have "tree_ok ?sb (C(p := C p @ [?n]))"
      by (rule tree_ok_frame [OF T p, rotated 2])
        (use snoc new brk names k kids te tn in \<open>auto simp: child_def\<close>)
    with run te tn tree_ok_new [OF T] show ?thesis by (auto simp: child_def same_entries_def)
  qed
qed

section \<open>Looking up a subdirectory\<close>

definition dir_named :: "flatfs_sb_info \<Rightarrow> bytes \<Rightarrow> nat \<Rightarrow> bool" where
  "dir_named sb nm i \<longleftrightarrow>
     namelen (de (dtree_root sb) i) = int (length nm) \<and> take (length nm) (dir_name (de (dtree_root sb) i)) = nm"

definition name_arg :: "bytes \<Rightarrow> qstr" where
  "name_arg nm = \<lparr>q_name = nm @ [0], q_len = int (length nm)\<rparr>"

lemma name_arg_sel [simp]: "q_name (name_arg nm) = nm @ [0]" "q_len (name_arg nm) = int (length nm)"
  by (simp_all add: name_arg_def)

lemma strncmp_eq_take:
  "0 \<notin> set nm \<Longrightarrow> length nm \<le> length dn \<Longrightarrow> strncmp_eq (length nm) (nm @ r) dn = Inr (take (length nm) dn = nm)"
proof (induction nm arbitrary: dn)
  case (Cons x nm)
  then show ?case by (cases dn) auto
qed simp

lemma dir_by_name_loop_find:
  assumes nm: "0 \<notin> set nm" "length nm \<le> 482"
    and names: "\<And>i. i < NR_DIRS \<Longrightarrow> length (dir_name (de (dtree_root sb) i)) = 482"
  shows "dlist (dle_heap sb) prev q as \<Longrightarrow> \<forall>a \<in> set as. child sb a < NR_DIRS \<Longrightarrow>
    dir_by_name_loop sb (name_arg nm) (length as) q ino =
      Inr (case find (dir_named sb nm) (map (child sb) as) of None \<Rightarrow> ino | Some i \<Rightarrow> dir_id (de (dtree_root sb) i))"
proof (induction as arbitrary: prev q)
  case (Cons a as)
  then obtain e where e: "q = Some a" "dle_heap sb a = Some e" "dlist (dle_heap sb) (Some a) (le_next e) as" by auto
  have i: "le_de e = child sb a" "child sb a < NR_DIRS" using e Cons.prems(2) by (simp_all add: child_def)
  have cmp: "strncmp_eq (length nm) (nm @ [0]) (dir_name (de (dtree_root sb) (child sb a))) =
      Inr (take (length nm) (dir_name (de (dtree_root sb) (child sb a))) = nm)"
    using nm names [OF i(2)] by (intro strncmp_eq_take) simp_all
  have "(if q_len (name_arg nm) = namelen (de (dtree_root sb) (child sb a))
      then strncmp_eq (nat (q_len (name_arg nm))) (q_name (name_arg nm)) (dir_name (de (dtree_root sb) (child sb a)))
      else Inr False) = Inr (dir_named sb nm (child sb a))"
    unfolding name_arg_sel nat_int cmp by (auto simp: dir_named_def)
  with Cons.IH [OF e(3)] Cons.prems(2) e i show ?case by auto
qed simp

lemma lookup_dir:
  assumes T: "tree_ok sb C" and p: "p < NR_DIRS" and nm: "0 \<notin> set nm" "length nm \<le> 482"
  shows "flatfs_dir_inode_by_name sb (dir_id_to_inode (of_nat p)) (name_arg nm) =
    Inr (case find (dir_named sb nm) (map (child sb) (C p)) of
           None \<Rightarrow> 0 | Some i \<Rightarrow> if i = p then 0 else dir_id_to_inode (of_nat i))"
proof -
  have un: "unat (of_nat x :: u64) = x" if "x < NR_DIRS" for x using that by (simp add: layout_simps unat_of_nat_less)
  have "inode_to_dir_id (dir_id_to_inode (of_nat p)) = of_nat p"
    using p un [OF p] by (intro dir_id_inode_id) (simp add: layout_simps)
  moreover obtain l where l: "subdirs (de (dtree_root sb) p) = Some l" "dlist (dle_heap sb) None (dl_head l) (C p)"
    using dir_children_cases [OF tree_ok_children [OF T p]] by blast
  moreover have sz: "unat (dir_size (de (dtree_root sb) p)) = length (C p)"
    using dir_children_size [OF tree_ok_children [OF T p]] .
  moreover have kids: "\<forall>a \<in> set (C p). child sb a < NR_DIRS" using T p by (simp add: tree_ok_def)
  moreover have names: "length (dir_name (de (dtree_root sb) i)) = 482" "dir_id (de (dtree_root sb) i) = of_nat i"
    if "i < NR_DIRS" for i using T that by (simp_all add: tree_ok_def)
  ultimately have run: "flatfs_dir_inode_by_name sb (dir_id_to_inode (of_nat p)) (name_arg nm) =
      (let ino = (case find (dir_named sb nm) (map (child sb) (C p)) of
           None \<Rightarrow> of_nat p | Some i \<Rightarrow> dir_id (de (dtree_root sb) i))
       in if ino = of_nat p then Inr 0 else Inr (dir_id_to_inode ino))"
    using p by (simp add: flatfs_dir_inode_by_name_def Let_def un dir_by_name_loop_find [OF nm])
  show ?thesis
  proof (cases "find (dir_named sb nm) (map (child sb) (C p))")
    case (Some i)
    then have "i \<in> set (map (child sb) (C p))" by (auto simp: find_Some_iff)
    then have i: "i < NR_DIRS" using kids by auto
    then have "(of_nat i :: u64) = of_nat p \<longleftrightarrow> i = p" using un p by metis
    with run Some i names(2) show ?thesis by simp
  qed (simp add: run)
qed

section \<open>Removing a directory\<close>

lemma unat_dir [simp]: "i < NR_DIRS \<Longrightarrow> unat (of_nat i :: u64) = i"
  by (simp add: layout_simps unat_of_nat_less)

lemma of_nat_dir_eq: "i < NR_DIRS \<Longrightarrow> j < NR_DIRS \<Longrightarrow> (of_nat i :: u64) = of_nat j \<longleftrightarrow> i = j"
  using unat_dir by metis

lemma dlist_ConsE:
  assumes "dlist h prev p (a # as)"
  obtains e where "p = Some a" "h a = Some e" "le_last e = prev" "dlist h (Some a) (le_next e) as"
  using assms by auto

lemma dlist_at:
  "dlist h prev p (xs @ a # ys) \<Longrightarrow>
    \<exists>e. h a = Some e \<and> le_last e = (if xs = [] then prev else Some (last xs)) \<and> dlist h (Some a) (le_next e) ys"
proof (induction xs arbitrary: prev p)
  case (Cons x xs)
  then obtain e where "h x = Some e" "dlist h (Some x) (le_next e) (xs @ a # ys)" by auto
  from Cons.IH [OF this(2)] show ?case by auto
qed auto

text \<open>The heap after the node \<open>a\<close> between \<open>xs\<close> and \<open>ys\<close> has been taken out.\<close>

definition cut_entry :: "dle_store \<Rightarrow> nat list \<Rightarrow> nat \<Rightarrow> nat list \<Rightarrow> nat \<Rightarrow> dir_list_entry \<Rightarrow> dir_list_entry" where
  "cut_entry h xs a ys x f =
     (let f = (if xs \<noteq> [] \<and> x = last xs then f\<lparr>le_next := le_next (the (h a))\<rparr> else f)
      in if ys \<noteq> [] \<and> x = hd ys then f\<lparr>le_last := le_last (the (h a))\<rparr> else f)"

definition cut_heap :: "dle_store \<Rightarrow> nat list \<Rightarrow> nat \<Rightarrow> nat list \<Rightarrow> dle_store" where
  "cut_heap h xs a ys = (\<lambda>x. if x = a then None else map_option (cut_entry h xs a ys x) (h x))"

lemma cut_heap_other: "x \<noteq> a \<Longrightarrow> x \<notin> set xs \<Longrightarrow> ys = [] \<or> x \<noteq> hd ys \<Longrightarrow> cut_heap h xs a ys x = h x"
  by (cases "h x") (auto simp: cut_heap_def cut_entry_def Let_def)

lemma cut_heap_gone [simp]: "cut_heap h xs a ys a = None"
  by (simp add: cut_heap_def)

lemma cut_heap_child: "h x = Some e \<Longrightarrow> x \<noteq> a \<Longrightarrow> \<exists>e'. cut_heap h xs a ys x = Some e' \<and> le_de e' = le_de e"
  by (simp add: cut_heap_def cut_entry_def Let_def)

lemma dlist_cut_tail:
  assumes "dlist h (Some a) q ys" "h a = Some e" "distinct (xs @ a # ys)"
  shows "dlist (cut_heap h xs a ys) (le_last e) q ys"
proof (cases ys)
  case (Cons y zs)
  obtain f where f: "q = Some y" "h y = Some f" "dlist h (Some y) (le_next f) zs"
    using assms(1) Cons by (auto elim: dlist_ConsE)
  have "dlist (cut_heap h xs a ys) (Some y) (le_next f) zs"
  proof (subst dlist_frame [of _ _ h])
    show "\<forall>z \<in> set zs. cut_heap h xs a ys z = h z" using assms(3) Cons by (auto intro!: cut_heap_other)
  qed (rule f)
  moreover have "cut_heap h xs a ys y = Some (f\<lparr>le_last := le_last e\<rparr>)"
    using assms Cons f by (auto simp: cut_heap_def cut_entry_def Let_def)
  ultimately show ?thesis using Cons f by simp
qed (use assms in simp)

lemma dlist_cut:
  "dlist h prev p (xs @ a # ys) \<Longrightarrow> distinct (xs @ a # ys) \<Longrightarrow> h a = Some e \<Longrightarrow>
    dlist (cut_heap h xs a ys) prev (if xs = [] then le_next e else p) (xs @ ys)"
proof (induction xs arbitrary: prev p)
  case Nil
  then have "le_last e = prev" "dlist h (Some a) (le_next e) ys" by auto
  then show ?case using dlist_cut_tail [of h a "le_next e" ys e "[]"] Nil by simp
next
  case (Cons x xs)
  obtain f where f: "p = Some x" "h x = Some f" "le_last f = prev" "dlist h (Some x) (le_next f) (xs @ a # ys)"
    using Cons.prems(1) by (auto elim: dlist_ConsE)
  have x: "x \<noteq> a" "x \<notin> set xs" "ys = [] \<or> x \<noteq> hd ys" using Cons.prems(2) by auto
  show ?case
  proof (cases "xs = []")
    case True
    then have e: "le_last e = Some x" "dlist h (Some a) (le_next e) ys" using f Cons.prems by auto
    have "cut_heap h [x] a ys x = Some (f\<lparr>le_next := le_next e\<rparr>)"
      using x f Cons.prems(3) by (auto simp: cut_heap_def cut_entry_def Let_def)
    then show ?thesis
      using True f dlist_cut_tail [OF e(2) Cons.prems(3), of "[x]"] Cons.prems(2) e(1) by simp
  next
    case False
    then have "cut_entry h (x # xs) a ys = cut_entry h xs a ys" by (simp add: cut_entry_def fun_eq_iff)
    then have eq: "cut_heap h (x # xs) a ys = cut_heap h xs a ys" by (simp add: cut_heap_def cong: if_cong)
    from Cons.IH [OF f(4)] Cons.prems False have "dlist (cut_heap h xs a ys) (Some x) (le_next f) (xs @ ys)" by simp
    then show ?thesis using f eq cut_heap_other [OF x, of h] by simp
  qed
qed

lemma find_dle_first:
  assumes "dlist (dle_heap sb) prev q (xs @ a # ys)" "i < NR_DIRS" "child sb a = i"
    and "\<And>j. j < NR_DIRS \<Longrightarrow> dir_id (de (dtree_root sb) j) = of_nat j"
    and "\<forall>x \<in> set xs. child sb x < NR_DIRS \<and> child sb x \<noteq> i"
  shows "find_dle sb (of_nat i) (length (xs @ a # ys)) s q = Inr (Some (s + length xs, a))"
  using assms(1,5)
proof (induction xs arbitrary: prev q s)
  case Nil
  then show ?case using assms(2-4) by (auto simp: child_def)
next
  case (Cons x xs)
  then obtain e where e: "q = Some x" "dle_heap sb x = Some e" "dlist (dle_heap sb) (Some x) (le_next e) (xs @ a # ys)"
    by (auto elim: dlist_ConsE)
  have x: "le_de e = child sb x" "child sb x < NR_DIRS" "child sb x \<noteq> i" using Cons.prems(2) e by (auto simp: child_def)
  then have "(of_nat i :: u64) \<noteq> of_nat (child sb x)" using of_nat_dir_eq assms(2) by blast
  then show ?case using Cons.IH [OF e(3)] Cons.prems(2) e x assms(4) by simp
qed

lemma unlink_dle_run:
  assumes list: "dlist (dle_heap sb) None (dl_head l) (xs @ a # ys)" "distinct (xs @ a # ys)"
    and p: "p < NR_DIRS" "i < NR_DIRS" "p \<noteq> i" and l: "subdirs (de (dtree_root sb) p) = Some l"
    and e: "dle_heap sb a = Some e" and far: "of_nat (length xs) \<noteq> dir_size (de (dtree_root sb) i) - 1"
  shows "unlink_dle sb p i (length xs) a =
    Inr (sb\<lparr>dtree_root := (dtree_root sb)\<lparr>de := (de (dtree_root sb))(p := (de (dtree_root sb) p)
              \<lparr>subdirs := Some (l\<lparr>dl_head := (if xs = [] then le_next e else dl_head l)\<rparr>),
                dir_size := dir_size (de (dtree_root sb) p) - 1\<rparr>)\<rparr>,
            dle_heap := cut_heap (dle_heap sb) xs a ys\<rparr>)"
proof -
  have e': "le_last e = (if xs = [] then None else Some (last xs))" "dlist (dle_heap sb) (Some a) (le_next e) ys"
    using dlist_at [OF list(1)] e by auto
  have n: "le_next e = (if ys = [] then None else Some (hd ys))" using e'(2) by (cases ys) auto
  define f where "f = the (dle_heap sb (last xs))"
  have f: "xs \<noteq> [] \<Longrightarrow> dle_heap sb (last xs) = Some f"
    using dlist_alloc [OF list(1), of "last xs"] by (auto simp: f_def)
  define g where "g = the (dle_heap sb (hd ys))"
  have g: "ys \<noteq> [] \<Longrightarrow> dle_heap sb (hd ys) = Some g"
    using dlist_alloc [OF list(1), of "hd ys"] by (auto simp: g_def)
  have d: "xs \<noteq> [] \<Longrightarrow> last xs \<noteq> a" "ys \<noteq> [] \<Longrightarrow> hd ys \<noteq> a" "xs \<noteq> [] \<Longrightarrow> ys \<noteq> [] \<Longrightarrow> last xs \<noteq> hd ys"
    using list(2) by (auto dest: last_in_set hd_in_set)
  have heap: "cut_heap (dle_heap sb) xs a ys =
     (let h1 = (if xs = [] then dle_heap sb else (dle_heap sb)(last xs \<mapsto> f\<lparr>le_next := le_next e\<rparr>));
          h2 = (if ys = [] then h1 else h1(hd ys \<mapsto> g\<lparr>le_last := le_last e\<rparr>))
      in h2(a := None))"
  proof (rule ext)
    fix x
    consider "x = a" | "x \<noteq> a" "xs \<noteq> []" "x = last xs" | "x \<noteq> a" "ys \<noteq> []" "x = hd ys"
      | "x \<noteq> a" "\<not> (xs \<noteq> [] \<and> x = last xs)" "\<not> (ys \<noteq> [] \<and> x = hd ys)" by blast
    then show "cut_heap (dle_heap sb) xs a ys x = (let h1 = (if xs = [] then dle_heap sb else (dle_heap sb)(last xs \<mapsto> f\<lparr>le_next := le_next e\<rparr>));
          h2 = (if ys = [] then h1 else h1(hd ys \<mapsto> g\<lparr>le_last := le_last e\<rparr>)) in h2(a := None)) x"
    proof cases
      case 2
      then show ?thesis using d(3) f e by (auto simp: cut_heap_def cut_entry_def Let_def)
    next
      case 3
      then show ?thesis using d(3) g e by (auto simp: cut_heap_def cut_entry_def Let_def)
    next
      case 4
      then have "cut_entry (dle_heap sb) xs a ys x = (\<lambda>f. f)" by (auto simp: cut_entry_def Let_def)
      with 4 show ?thesis
        by (cases "xs = []"; cases "ys = []") (simp_all add: cut_heap_def Let_def option.map_ident)
    qed (simp add: Let_def)
  qed
  have same: "(de (dtree_root sb) p)\<lparr>subdirs := Some l, dir_size := x\<rparr> = (de (dtree_root sb) p)\<lparr>dir_size := x\<rparr>" for x
    using l by (cases "de (dtree_root sb) p") simp
  note run = unlink_dle_def Let_def put_de_def put_dle_def free_dle_def
  show ?thesis
  proof (cases "xs = []")
    case True
    show ?thesis
    proof (cases "ys = []")
      case ys: True
      show ?thesis using p l e e'(1) n far heap True ys by (simp add: run)
    next
      case ys: False
      show ?thesis using p l e e'(1) n g [OF ys] d(2) [OF ys] far heap True ys by (simp add: run)
    qed
  next
    case False
    show ?thesis
    proof (cases "ys = []")
      case ys: True
      show ?thesis using p l e e'(1) n f [OF False] far heap False ys by (simp add: run same)
    next
      case ys: False
      show ?thesis using p l e e'(1) n f [OF False] g [OF ys] d(3) [OF False ys] far heap False ys by (simp add: run same)
    qed
  qed
qed

lemma my_strlen_nul: "0 \<in> set bs \<Longrightarrow> my_strlen bs = Inr (int (length (cstr bs)))"
  by (induction bs) (auto simp: cstr_def)

lemma dir_ino_index: "p < NR_DIRS \<Longrightarrow> unat (inode_to_dir_id (dir_id_to_inode (of_nat p))) = p"
  using dir_id_inode_id [of "of_nat p"] by (simp add: layout_simps unat_of_nat_less)

definition removed_entry :: "dir_entry \<Rightarrow> dir_entry" where
  "removed_entry d = d\<lparr>dir_name := zero_name (dir_name d) (length (cstr (dir_name d))), namelen := 0,
     subdirs := Some \<lparr>dl_head = None, dl_tail = None\<rparr>\<rparr>"

definition parent_after :: "dir_entry \<Rightarrow> nat list \<Rightarrow> nat option \<Rightarrow> dir_entry" where
  "parent_after d xs nxt = d\<lparr>subdirs := map_option (\<lambda>l. l\<lparr>dl_head := (if xs = [] then nxt else dl_head l)\<rparr>) (subdirs d),
     dir_size := dir_size d - 1\<rparr>"

lemma remove_dir_run:
  assumes T: "tree_ok sb C" and p: "p < NR_DIRS" "i < NR_DIRS" "p \<noteq> i" and Cp: "C p = xs @ a # ys"
    and a: "child sb a = i" "\<forall>x \<in> set xs. child sb x \<noteq> i" and Ci: "C i = []"
    and nul: "0 \<in> set (dir_name (de (dtree_root sb) i))" and big: "b < 0"
  shows "\<exists>sb'. remove_dir sb (dir_id_to_inode (of_nat p)) (dir_id_to_inode (of_nat i)) b = Inr sb' \<and>
    dle_heap sb' = cut_heap (dle_heap sb) xs a ys \<and> dle_next sb' = dle_next sb \<and>
    de (dtree_root sb') = (de (dtree_root sb))(p := parent_after (de (dtree_root sb) p) xs (le_next (the (dle_heap sb a))),
      i := removed_entry (de (dtree_root sb) i)) \<and>
    dir_id_bitmap (dtree_root sb') = clear_bit1 i (dir_id_bitmap (dtree_root sb)) \<and> hashtbl sb' i = None"
proof -
  obtain l where l: "subdirs (de (dtree_root sb) p) = Some l" "dlist (dle_heap sb) None (dl_head l) (C p)"
    using dir_children_cases [OF tree_ok_children [OF T p(1)]] by blast
  obtain li where li: "subdirs (de (dtree_root sb) i) = Some li" "dir_size (de (dtree_root sb) i) = 0"
    using dir_children_cases [OF tree_ok_children [OF T p(2)]] Ci by (metis of_nat_0 list.size(3))
  have sz: "unat (dir_size (de (dtree_root sb) p)) = length (xs @ a # ys)" and dist: "distinct (xs @ a # ys)"
    and short: "length xs < NR_DIRS"
    using dir_children_size [OF tree_ok_children [OF T p(1)]] tree_ok_children [OF T p(1)] Cp by (auto simp: dir_children_def)
  have ids: "dir_id (de (dtree_root sb) j) = of_nat j" if "j < NR_DIRS" for j using T that by (simp add: tree_ok_def)
  obtain e where e: "dle_heap sb a = Some e" using tree_ok_alloc [OF T p(1), of a] Cp by auto
  have find: "find_dle sb (of_nat i) (length (xs @ a # ys)) 0 (dl_head l) = Inr (Some (length xs, a))"
  proof -
    have "\<forall>x \<in> set xs. child sb x < NR_DIRS \<and> child sb x \<noteq> i" using T p(1) Cp a by (auto simp: tree_ok_def)
    from find_dle_first [OF l(2) [unfolded Cp] p(2) a(1) ids this, of 0] show ?thesis by simp
  qed
  have far: "of_nat (length xs) \<noteq> dir_size (de (dtree_root sb) i) - 1"
  proof
    assume "of_nat (length xs) = dir_size (de (dtree_root sb) i) - 1"
    then have "(of_nat (length xs) :: u64) = - 1" using li by simp
    then have "unat (of_nat (length xs) :: u64) = 2 ^ 64 - 1" by (simp add: unsigned_minus_1_eq_mask mask_eq_exp_minus_1)
    then show False using short by (simp add: layout_simps)
  qed
  have nil: "li\<lparr>dl_head := None, dl_tail := None\<rparr> = \<lparr>dl_head = None, dl_tail = None\<rparr>" by (cases li) simp
  note un = unlink_dle_run [OF l(2) [unfolded Cp] dist p l(1) e far]
  show ?thesis
    using p l li sz find un ids [OF p(2)] big e
    by (cases "hashtbl sb i")
      (simp_all add: remove_dir_def Let_def dir_ino_index my_strlen_nul [OF nul] release_big_def put_de_def
        removed_entry_def parent_after_def free_file_ht_def nil)
qed

lemma remove_dir_ok:
  assumes T: "tree_ok sb C" and p: "p < NR_DIRS" "i < NR_DIRS" "p \<noteq> i" and Cp: "C p = xs @ a # ys"
    and a: "child sb a = i" "\<forall>x \<in> set xs. child sb x \<noteq> i" and Ci: "C i = []"
    and nul: "0 \<in> set (dir_name (de (dtree_root sb) i))" and big: "b < 0"
    and tail: "ys \<noteq> [] \<or> xs = []"
  shows "\<exists>sb'. remove_dir sb (dir_id_to_inode (of_nat p)) (dir_id_to_inode (of_nat i)) b = Inr sb' \<and>
    tree_ok sb' (C(p := xs @ ys)) \<and> (\<forall>x \<in> set (xs @ ys). child sb' x = child sb x) \<and>
    dir_id_bitmap (dtree_root sb') = clear_bit1 i (dir_id_bitmap (dtree_root sb)) \<and> hashtbl sb' i = None"
proof -
  obtain sb' where sb': "remove_dir sb (dir_id_to_inode (of_nat p)) (dir_id_to_inode (of_nat i)) b = Inr sb'"
    "dle_heap sb' = cut_heap (dle_heap sb) xs a ys" "dle_next sb' = dle_next sb"
    "de (dtree_root sb') = (de (dtree_root sb))(p := parent_after (de (dtree_root sb) p) xs (le_next (the (dle_heap sb a))),
      i := removed_entry (de (dtree_root sb) i))"
    "dir_id_bitmap (dtree_root sb') = clear_bit1 i (dir_id_bitmap (dtree_root sb))" "hashtbl sb' i = None"
    using remove_dir_run [OF T p Cp a Ci nul big] by blast
  obtain l where l: "subdirs (de (dtree_root sb) p) = Some l" "dlist (dle_heap sb) None (dl_head l) (C p)"
    "dl_tail l = Some (last (C p))"
    using dir_children_cases [OF tree_ok_children [OF T p(1)]] Cp by auto
  have sz: "dir_size (de (dtree_root sb) p) = of_nat (length (xs @ a # ys))" and dist: "distinct (xs @ a # ys)"
    and len: "length (xs @ a # ys) < NR_DIRS"
    using tree_ok_children [OF T p(1)] Cp by (auto simp: dir_children_def)
  obtain e where e: "dle_heap sb a = Some e" using tree_ok_alloc [OF T p(1), of a] Cp by auto
  have al: "\<exists>f. dle_heap sb x = Some f" if "x \<in> set (xs @ ys)" for x using tree_ok_alloc [OF T p(1), of x] Cp that by auto
  have kids: "child sb' x = child sb x" if x: "x \<in> set (xs @ ys)" for x
  proof -
    have "x \<noteq> a" using dist x by auto
    obtain f where f: "dle_heap sb x = Some f" using al [OF x] by blast
    from cut_heap_child [of "dle_heap sb", OF f \<open>x \<noteq> a\<close>, of xs ys] f show ?thesis by (auto simp: child_def sb'(2))
  qed
  have tl: "last (xs @ ys) = last (C p)" if "xs @ ys \<noteq> []" using tail that Cp by auto
  have pd: "dir_children sb' p (xs @ ys)"
    using dlist_cut [OF l(2) [unfolded Cp] dist e] sz dist len l tl p e
    by (auto simp: dir_children_def sb'(2,4) parent_after_def)
  have "tree_ok sb' (C(p := xs @ ys))"
  proof (rule tree_ok_frame [OF T p(1) _ _ pd])
    fix d assume "d < NR_DIRS" "d \<noteq> p"
    then show "subdirs (de (dtree_root sb') d) = subdirs (de (dtree_root sb) d) \<and>
        dir_size (de (dtree_root sb') d) = dir_size (de (dtree_root sb) d) \<or> C d = [] \<and> dir_children sb' d []"
      using tree_ok_children [OF T p(2)] Ci
      by (cases "d = i") (auto simp: sb'(4) dir_children_def removed_entry_def)
  next
    fix d assume "d < NR_DIRS"
    then show "dir_id (de (dtree_root sb') d) = of_nat d \<and> length (dir_name (de (dtree_root sb') d)) = 482"
      using T cstr_len_less [OF nul] by (auto simp: sb'(4) tree_ok_def parent_after_def removed_entry_def zero_name_def)
  next
    show "\<forall>x \<in> set (xs @ ys). child sb' x < NR_DIRS" using kids T p Cp by (auto simp: tree_ok_def)
  next
    show "\<forall>x \<in> set (xs @ ys). x \<in> set (C p) \<or> dle_heap sb x = None" using Cp by auto
  next
    fix x assume "x \<notin> set (C p)" "x \<notin> set (xs @ ys)"
    then show "dle_heap sb' x = dle_heap sb x" using Cp by (auto simp: sb'(2) intro!: cut_heap_other)
  next
    show "\<forall>x \<ge> dle_next sb'. dle_heap sb' x = None" using T by (auto simp: sb'(2,3) cut_heap_def tree_ok_def)
  qed
  with sb' kids show ?thesis by blast
qed

lemma remove_last_then_insert:
  assumes T: "tree_ok sb C" and p: "p < NR_DIRS" "i < NR_DIRS" "p \<noteq> i" and Cp: "C p = xs @ [a]" "xs \<noteq> []"
    and a: "child sb a = i" "\<forall>x \<in> set xs. child sb x \<noteq> i" and Ci: "C i = []"
    and nul: "0 \<in> set (dir_name (de (dtree_root sb) i))" and big: "b < 0"
  shows "\<exists>sb'. remove_dir sb (dir_id_to_inode (of_nat p)) (dir_id_to_inode (of_nat i)) b = Inr sb' \<and>
    insert_dir True sb' (of_nat p) k = Inl UseAfterFree"
proof -
  obtain sb' where sb': "remove_dir sb (dir_id_to_inode (of_nat p)) (dir_id_to_inode (of_nat i)) b = Inr sb'"
    "dle_heap sb' = cut_heap (dle_heap sb) xs a []" "dle_next sb' = dle_next sb"
    "de (dtree_root sb') = (de (dtree_root sb))(p := parent_after (de (dtree_root sb) p) xs (le_next (the (dle_heap sb a))),
      i := removed_entry (de (dtree_root sb) i))"
    using remove_dir_run [OF T p _ a Ci nul big, of "[]"] Cp by auto
  obtain l where l: "subdirs (de (dtree_root sb) p) = Some l" "dl_tail l = Some a"
    using dir_children_cases [OF tree_ok_children [OF T p(1)]] Cp by auto
  have "dir_size (de (dtree_root sb) p) = of_nat (length (xs @ [a]))" "length (xs @ [a]) < NR_DIRS"
    using tree_ok_children [OF T p(1)] Cp by (simp_all add: dir_children_def)
  then have "unat (dir_size (de (dtree_root sb) p) - 1) = length xs" by simp
  then have "dir_size (de (dtree_root sb) p) - 1 \<noteq> 0" using Cp(2) by (metis length_0_conv unat_0)
  moreover have "a \<noteq> dle_next sb" using tree_ok_new [OF T p(1)] Cp by auto
  ultimately have "insert_dir True sb' (of_nat p) k = Inl UseAfterFree"
    using p l Cp(2) by (simp add: insert_dir_def Let_def sb'(2,3,4) parent_after_def)
  with sb'(1) show ?thesis by blast
qed

section \<open>Creating the entry of a directory\<close>

lemma get_unused_dir_id_cases:
  assumes "length bmp = 256"
  shows "(\<exists>i<NR_DIRS. get_unused_dir_id bmp = Inr (of_nat i, set_bit1 i bmp) \<and> \<not> test_bit i bmp) \<or>
    get_unused_dir_id bmp = Inr (0, bmp) \<and> (\<forall>i<NR_DIRS. test_bit i bmp)"
proof -
  have "NR_DIRS \<le> bitmap_bits bmp" using assms by (simp add: bitmap_bits_def BITS_PER_LONG_def layout_simps)
  then obtain i where i: "i \<le> NR_DIRS" "find_first_zero_bit bmp NR_DIRS = Inr i" "i = NR_DIRS \<longleftrightarrow> (\<forall>j<NR_DIRS. test_bit j bmp)"
    using bm.ffz_total [of NR_DIRS bmp] bm.ffz_full [of NR_DIRS bmp] by auto
  show ?thesis
  proof (cases "i = NR_DIRS")
    case False
    with i have "i < NR_DIRS" by simp
    with bm.ffz_found [of i NR_DIRS bmp] i False show ?thesis by (auto simp: get_unused_dir_id_def)
  qed (use i in \<open>simp add: get_unused_dir_id_def\<close>)
qed

lemma fill_entry_run:
  assumes T: "tree_ok sb C" and bmp: "length (dir_id_bitmap (dtree_root sb)) = 256" "test_bit 0 (dir_id_bitmap (dtree_root sb))"
    and free: "\<exists>i<NR_DIRS. \<not> test_bit i (dir_id_bitmap (dtree_root sb))"
    and unused: "\<forall>i<NR_DIRS. \<not> test_bit i (dir_id_bitmap (dtree_root sb)) \<longrightarrow> C i = []"
    and nm: "0 \<notin> set nm" "length nm \<le> 482"
  shows "\<exists>i sb'. fill_one_dir_entry sb (nm @ [0]) = Inr (of_nat i, sb') \<and> 0 < i \<and> i < NR_DIRS \<and>
    \<not> test_bit i (dir_id_bitmap (dtree_root sb)) \<and>
    dir_id_bitmap (dtree_root sb') = set_bit1 i (dir_id_bitmap (dtree_root sb)) \<and> dle_heap sb' = dle_heap sb \<and>
    dle_next sb' = dle_next sb \<and> tree_ok sb' C \<and> dir_named sb' nm i \<and>
    dir_name (de (dtree_root sb') i) = nm @ drop (length nm) (dir_name (de (dtree_root sb) i)) \<and>
    (\<forall>j. j \<noteq> i \<longrightarrow> de (dtree_root sb') j = de (dtree_root sb) j)"
proof -
  obtain i where i: "i < NR_DIRS" "\<not> test_bit i (dir_id_bitmap (dtree_root sb))"
    "get_unused_dir_id (dir_id_bitmap (dtree_root sb)) = Inr (of_nat i, set_bit1 i (dir_id_bitmap (dtree_root sb)))"
    using get_unused_dir_id_cases [OF bmp(1)] free by blast
  have pos: "0 < i" using i bmp(2) by (metis gr0I)
  have id0: "(of_nat i :: u64) \<noteq> 0" using pos i(1) by (metis unat_dir unat_0 less_numeral_extra(3))
  have len: "length (dir_name (de (dtree_root sb) i)) = 482" using T i by (simp add: tree_ok_def)
  let ?nm = "nm @ drop (length nm) (dir_name (de (dtree_root sb) i))"
  let ?d = "(de (dtree_root sb) i)\<lparr>dir_size := 0, namelen := int (length nm),
      rec_len := word_of_int (FFS_DIR_REC_LEN (int (length nm))), dir_name := ?nm\<rparr>"
  let ?sb = "sb\<lparr>dtree_root := (dtree_root sb)\<lparr>de := (de (dtree_root sb))(i := ?d),
      dir_entry_num := dir_entry_num (dtree_root sb) + 1, dir_id_bitmap := set_bit1 i (dir_id_bitmap (dtree_root sb))\<rparr>\<rparr>"
  have "my_strlen (nm @ [0]) = Inr (int (length nm))" using my_strlen_nul [of "nm @ [0]"] nm by simp
  then have "fill_one_dir_entry sb (nm @ [0]) = Inr (of_nat i, ?sb)"
    using i id0 nm len by (auto simp: fill_one_dir_entry_def Let_def memcpy_def put_de_def)
  moreover have "tree_ok ?sb C"
  proof -
    have Ci: "C i = []" using unused i by simp
    have "dir_children ?sb d (C d)" if "d < NR_DIRS" for d
      using tree_ok_children [OF T that] Ci by (cases "d = i") (simp_all add: dir_children_def)
    then show ?thesis using T nm len by (simp add: tree_ok_def child_def)
  qed
  moreover have "dir_named ?sb nm i" by (simp add: dir_named_def)
  ultimately show ?thesis using i pos by (intro exI [of _ i] exI [of _ ?sb]) simp
qed

end
