(* ===== verification/Dir_Props.thy ===== *)
theory Dir_Props
  imports Dir_Lists
begin

text \<open>
  Listing of subdirectories, construction and destruction of the tree, and the properties of
  \<open>dir.c\<close>.
\<close>

section \<open>Listing\<close>

definition emit1 :: "'c actor \<Rightarrow> flatfs_sb_info \<Rightarrow> 'c dir_context \<Rightarrow> nat \<Rightarrow> 'c dir_context" where
  "emit1 actor sb ctx j =
     (let d = de (dtree_root sb) j
      in ctx\<lparr>ctx_data := snd (actor (ctx_data ctx) (take (nat (namelen d)) (dir_name d)) (ctx_pos ctx)
               (le32_to_cpu (dir_id_to_inode (dir_id d))) DT_DIR),
             ctx_pos := ctx_pos ctx + 1\<rparr>)"

lemma same_entries_emit1: "same_entries sb sb' \<Longrightarrow> emit1 actor sb' = emit1 actor sb"
  by (simp add: same_entries_def emit1_def Let_def fun_eq_iff)

lemma same_entries_trans: "same_entries a b \<Longrightarrow> same_entries b c \<Longrightarrow> same_entries a c"
  by (simp add: same_entries_def)

lemma rec_len_from_1 [simp]: "ffs_rec_len_from_dtree 1 = 1"
  by (simp add: ffs_rec_len_from_dtree_def)

lemma emit_dirs_fold:
  assumes "dlist (dle_heap sb) prev q as" "\<forall>a \<in> set as. child sb a < NR_DIRS" "i < NR_DIRS"
    and "\<And>j. j < NR_DIRS \<Longrightarrow> nat (namelen (de (dtree_root sb) j)) \<le> length (dir_name (de (dtree_root sb) j))"
    and "\<forall>a \<in> set as. rec_len (de (dtree_root sb) (child sb a)) \<noteq> 0"
  shows "\<exists>sb'. emit_dirs actor i (length as) pos q sb ctx =
      Inr (pos + int (length as), sb', foldl (emit1 actor sb) ctx (map (child sb) as)) \<and>
    same_entries sb sb' \<and> dle_heap sb' = dle_heap sb \<and>
    de_pos (de (dtree_root sb') i) = de_pos (de (dtree_root sb) i) + int (length as) \<and>
    (\<forall>d. subdirs (de (dtree_root sb') d) = subdirs (de (dtree_root sb) d) \<and>
         dir_size (de (dtree_root sb') d) = dir_size (de (dtree_root sb) d))"
  using assms
proof (induction as arbitrary: prev q pos sb ctx)
  case Nil
  then show ?case by (auto simp: same_entries_def)
next
  case (Cons a as)
  obtain e where e: "q = Some a" "dle_heap sb a = Some e" "dlist (dle_heap sb) (Some a) (le_next e) as"
    using Cons.prems(1) by (auto elim: dlist_ConsE)
  let ?j = "child sb a"
  have j: "le_de e = ?j" "?j < NR_DIRS" "rec_len (de (dtree_root sb) ?j) \<noteq> 0"
    "nat (namelen (de (dtree_root sb) ?j)) \<le> length (dir_name (de (dtree_root sb) ?j))"
    using e Cons.prems by (auto simp: child_def)
  let ?sb = "put_de i ((de (dtree_root sb) i)\<lparr>de_pos := de_pos (de (dtree_root sb) i) + 1\<rparr>) sb"
  have same: "same_entries sb ?sb" by (auto simp: same_entries_def)
  have ch: "child ?sb = child sb" by (simp add: child_def fun_eq_iff)
  have "emit_dirs actor i (length (a # as)) pos q sb ctx = emit_dirs actor i (length as) (pos + 1) (le_next e) ?sb (emit1 actor sb ctx ?j)"
    using e j Cons.prems(3) by (simp add: dir_emit_def emit1_def Let_def split: prod.split)
  moreover have "\<exists>sb'. emit_dirs actor i (length as) (pos + 1) (le_next e) ?sb (emit1 actor sb ctx ?j) =
      Inr (pos + 1 + int (length as), sb', foldl (emit1 actor ?sb) (emit1 actor sb ctx ?j) (map (child ?sb) as)) \<and>
    same_entries ?sb sb' \<and> dle_heap sb' = dle_heap ?sb \<and>
    de_pos (de (dtree_root sb') i) = de_pos (de (dtree_root ?sb) i) + int (length as) \<and>
    (\<forall>d. subdirs (de (dtree_root sb') d) = subdirs (de (dtree_root ?sb) d) \<and>
         dir_size (de (dtree_root sb') d) = dir_size (de (dtree_root ?sb) d))"
    by (rule Cons.IH) (use e(3) Cons.prems in \<open>auto simp: ch\<close>)
  ultimately show ?case
    using same by (auto simp: ch same_entries_emit1 [OF same] split: if_splits intro: same_entries_trans)
qed

definition listing_ok :: "flatfs_sb_info \<Rightarrow> nat list \<Rightarrow> bool" where
  "listing_ok sb as \<longleftrightarrow>
     (\<forall>j<NR_DIRS. nat (namelen (de (dtree_root sb) j)) \<le> length (dir_name (de (dtree_root sb) j))) \<and>
     (\<forall>a \<in> set as. rec_len (de (dtree_root sb) (child sb a)) \<noteq> 0)"

lemma dir_index: "p < NR_DIRS \<Longrightarrow> unat (drop_bit (MIN_FILE_BUCKET_BITS + FILE_SLOT_BITS) (dir_id_to_inode (of_nat p) - 1)) = p"
  using dir_ino_index [of p] by (simp add: inode_to_dir_id_def)

lemma read_dir_dirs_first:
  assumes T: "tree_ok sb C" and p: "p < NR_DIRS" and ok: "listing_ok sb (C p)" and c0: "ctx_pos ctx = 0"
  shows "\<exists>sb'. read_dir_dirs actor sb (dir_id_to_inode (of_nat p)) ctx =
    Inr (int (length (C p)), sb', foldl (emit1 actor sb) ctx (map (child sb) (C p))) \<and>
    de_pos (de (dtree_root sb') p) = int (length (C p)) \<and> same_entries sb sb' \<and> dle_heap sb' = dle_heap sb"
proof -
  obtain l where l: "subdirs (de (dtree_root sb) p) = Some l" "dlist (dle_heap sb) None (dl_head l) (C p)"
    using dir_children_cases [OF tree_ok_children [OF T p]] by blast
  have sz: "unat (dir_size (de (dtree_root sb) p)) = length (C p)"
    using dir_children_size [OF tree_ok_children [OF T p]] .
  have kids: "\<forall>a \<in> set (C p). child sb a < NR_DIRS" using T p by (simp add: tree_ok_def)
  let ?sb = "put_de p ((de (dtree_root sb) p)\<lparr>de_pos := 0\<rparr>) sb"
  have same: "same_entries sb ?sb" by (auto simp: same_entries_def)
  have ch: "child ?sb = child sb" by (simp add: child_def fun_eq_iff)
  have "\<exists>sb'. emit_dirs actor p (length (C p)) 0 (dl_head l) ?sb ctx =
      Inr (0 + int (length (C p)), sb', foldl (emit1 actor ?sb) ctx (map (child ?sb) (C p))) \<and>
    same_entries ?sb sb' \<and> dle_heap sb' = dle_heap ?sb \<and>
    de_pos (de (dtree_root sb') p) = de_pos (de (dtree_root ?sb) p) + int (length (C p)) \<and>
    (\<forall>d. subdirs (de (dtree_root sb') d) = subdirs (de (dtree_root ?sb) d) \<and>
         dir_size (de (dtree_root sb') d) = dir_size (de (dtree_root ?sb) d))"
    by (rule emit_dirs_fold) (use l kids p ok in \<open>auto simp: ch listing_ok_def\<close>)
  then show ?thesis
    using l sz p c0 same
    by (auto simp: read_dir_dirs_def dir_index Let_def ch same_entries_emit1 [OF same] intro: same_entries_trans)
qed

section \<open>Ids in use\<close>

abbreviation id_map :: "flatfs_sb_info \<Rightarrow> bitmap" where
  "id_map sb \<equiv> dir_id_bitmap (dtree_root sb)"

definition ids_ok :: "flatfs_sb_info \<Rightarrow> (nat \<Rightarrow> nat list) \<Rightarrow> bool" where
  "ids_ok sb C \<longleftrightarrow> length (id_map sb) = 256 \<and> test_bit 0 (id_map sb) \<and>
     (\<forall>d<NR_DIRS. \<forall>a \<in> set (C d). test_bit (child sb a) (id_map sb)) \<and>
     (\<forall>i<NR_DIRS. \<not> test_bit i (id_map sb) \<longrightarrow> C i = [])"

text \<open>Every name array ends with a NUL byte, so that \<open>my_strlen\<close> stays inside it.\<close>

definition nul_ok :: "flatfs_sb_info \<Rightarrow> bool" where
  "nul_ok sb \<longleftrightarrow> (\<forall>j<NR_DIRS. dir_name (de (dtree_root sb) j) ! 481 = 0)"

lemma nul_ok_mem: "tree_ok sb C \<Longrightarrow> nul_ok sb \<Longrightarrow> i < NR_DIRS \<Longrightarrow> 0 \<in> set (dir_name (de (dtree_root sb) i))"
  by (auto simp: tree_ok_def nul_ok_def in_set_conv_nth intro!: exI [of _ 481])

lemma bits_256: "length bmp = 256 \<Longrightarrow> bitmap_bits bmp = NR_DIRS"
  by (simp add: bitmap_bits_def BITS_PER_LONG_def layout_simps)

lemma mkdir_steps:
  assumes T: "tree_ok sb C" and I: "ids_ok sb C" and p: "p < NR_DIRS" "test_bit p (id_map sb)"
    and room: "Suc (length (C p)) < NR_DIRS" "\<exists>i<NR_DIRS. \<not> test_bit i (id_map sb)"
    and nm: "0 \<notin> set nm" "length nm \<le> 482"
  obtains i sb1 sb2 where "fill_one_dir_entry sb (nm @ [0]) = Inr (of_nat i, sb1)"
    "insert_dir True sb1 (of_nat p) (of_nat i) = Inr sb2" "i < NR_DIRS" "\<not> test_bit i (id_map sb)"
    "id_map sb2 = set_bit1 i (id_map sb)" "tree_ok sb2 (C(p := C p @ [dle_next sb]))"
    "child sb2 (dle_next sb) = i" "\<forall>d<NR_DIRS. \<forall>a \<in> set (C d). child sb2 a = child sb a"
    "dir_named sb2 nm i" "\<forall>x j. j \<noteq> i \<longrightarrow> dir_named sb2 x j = dir_named sb x j"
    "ids_ok sb2 (C(p := C p @ [dle_next sb]))" "length nm < 482 \<Longrightarrow> nul_ok sb \<Longrightarrow> nul_ok sb2"
proof -
  have b: "length (id_map sb) = 256" "test_bit 0 (id_map sb)" "\<forall>i<NR_DIRS. \<not> test_bit i (id_map sb) \<longrightarrow> C i = []"
    using I by (simp_all add: ids_ok_def)
  obtain i sb1 where 1: "fill_one_dir_entry sb (nm @ [0]) = Inr (of_nat i, sb1)" "i < NR_DIRS"
    "\<not> test_bit i (id_map sb)" "id_map sb1 = set_bit1 i (id_map sb)" "dle_heap sb1 = dle_heap sb"
    "dle_next sb1 = dle_next sb" "tree_ok sb1 C" "dir_named sb1 nm i"
    "\<forall>j. j \<noteq> i \<longrightarrow> de (dtree_root sb1) j = de (dtree_root sb) j"
    "dir_name (de (dtree_root sb1) i) = nm @ drop (length nm) (dir_name (de (dtree_root sb) i))"
    using fill_entry_run [OF T b(1,2) room(2) b(3) nm] by blast
  have ch: "child sb1 = child sb" using 1(5) by (simp add: child_def fun_eq_iff)
  obtain sb2 where 2: "insert_dir True sb1 (of_nat p) (of_nat i) = Inr sb2"
    "tree_ok sb2 (C(p := C p @ [dle_next sb]))" "child sb2 (dle_next sb) = i"
    "same_entries sb1 sb2" "id_map sb2 = set_bit1 i (id_map sb)"
    "\<forall>d<NR_DIRS. \<forall>a \<in> set (C d). child sb2 a = child sb a"
    using insert_dir_ok [OF 1(7) p(1) 1(2) room(1)] 1(4,6) ch by auto
  have named: "dir_named sb2 x j = dir_named sb1 x j" for x j using 2(4) by (simp add: dir_named_def same_entries_def)
  have "dir_named sb2 x j = dir_named sb x j" if "j \<noteq> i" for x j using named 1(9) that by (simp add: dir_named_def)
  moreover have "ids_ok sb2 (C(p := C p @ [dle_next sb]))"
  proof -
    have t: "test_bit j (set_bit1 i (id_map sb)) \<longleftrightarrow> j = i \<or> test_bit j (id_map sb)" for j
      using bits_256 [OF b(1)] 1(2) by (simp add: test_set_bit1)
    show ?thesis using I 2 p t by (auto simp: ids_ok_def set_bit1_def)
  qed
  moreover have "nul_ok sb2" if "length nm < 482" "nul_ok sb"
  proof -
    have "length (dir_name (de (dtree_root sb) i)) = 482" using T 1(2) by (simp add: tree_ok_def)
    then have "dir_name (de (dtree_root sb1) i) ! 481 = dir_name (de (dtree_root sb) i) ! 481"
      using that(1) by (simp add: 1(10) nth_append)
    then have "dir_name (de (dtree_root sb1) j) ! 481 = dir_name (de (dtree_root sb) j) ! 481" for j
      using 1(9) by (cases "j = i") simp_all
    moreover have "dir_name (de (dtree_root sb2) j) = dir_name (de (dtree_root sb1) j)" for j
      using 2(4) by (simp add: same_entries_def)
    ultimately show ?thesis using that(2) by (simp add: nul_ok_def)
  qed
  ultimately show thesis using that [OF 1(1) 2(1) 1(2,3) 2(5,2,3,6)] named 1(8) by blast
qed

section \<open>The tree after mounting\<close>

definition fresh_entry :: "dir_entry \<Rightarrow> nat \<Rightarrow> dir_entry" where
  "fresh_entry d i = d\<lparr>dir_id := of_nat i, dir_size := 0, namelen := 0, rec_len := 0, dir_name := (dir_name d)[0 := 0],
     subdirs := Some \<lparr>dl_head = None, dl_tail = None\<rparr>\<rparr>"

lemma init_entries_run:
  "\<forall>i \<in> set is. list_ok i \<Longrightarrow> distinct is \<Longrightarrow>
    init_entries list_ok is d = Inr (\<lambda>i. if i \<in> set is then fresh_entry (d i) i else d i)"
proof (induction "is" arbitrary: d)
  case (Cons i "is")
  then show ?case by (auto simp: fresh_entry_def fun_eq_iff)
qed simp

lemma init_id_map:
  assumes "length bmp = 256"
  shows "\<exists>b. init_dir_id_bitmap bmp = Inr b \<and> length b = 256 \<and> (\<forall>i. test_bit i b \<longleftrightarrow> i < 3)"
proof -
  have "init_dir_id_bitmap bmp = Inr (set_bit1 2 (set_bit1 1 (set_bit1 0 (replicate 256 0))))"
    using assms by (simp add: init_dir_id_bitmap_def bitmap_zero_fits BITS_TO_LONGS_def BITS_PER_LONG_def layout_simps)
  moreover have "test_bit i (set_bit1 2 (set_bit1 1 (set_bit1 0 (replicate 256 0)))) \<longleftrightarrow> i < 3" for i
    by (auto simp: test_set_bit1)
  ultimately show ?thesis by (auto simp: set_bit1_def)
qed

lemma mount_tree:
  assumes junk: "\<forall>i<NR_DIRS. length (dir_name (de junk i)) = 482" "length (dir_id_bitmap junk) = 256"
    and heap: "dle_heap sb = (\<lambda>_. None)"
  shows "\<exists>t sb'. init_dir_tree True (\<lambda>_. True) junk = Inr t \<and>
    init_root_entry True (sb\<lparr>dtree_root := t\<rparr>) 0 = Inr sb' \<and> tree_ok sb' (\<lambda>_. []) \<and> ids_ok sb' (\<lambda>_. []) \<and>
    (\<forall>i. test_bit i (id_map sb') \<longleftrightarrow> i < 3) \<and> root sb' = 2 \<and> dir_named sb' [47] 2 \<and> listing_ok sb' [] \<and>
    ((\<forall>i<NR_DIRS. dir_name (de junk i) ! 481 = 0) \<longrightarrow> nul_ok sb') \<and>
    sb' = sb\<lparr>dtree_root := dtree_root sb', root := 2\<rparr>"
proof -
  obtain b where b: "init_dir_id_bitmap (dir_id_bitmap junk) = Inr b" "length b = 256" "\<forall>i. test_bit i b \<longleftrightarrow> i < 3"
    using init_id_map [OF junk(2)] by blast
  define d where "d = (\<lambda>i. if i < NR_DIRS then fresh_entry (de junk i) i else de junk i)"
  define t where "t = \<lparr>de = d, dir_entry_num = 1, dir_id_bitmap = b\<rparr>"
  have t: "init_dir_tree True (\<lambda>_. True) junk = Inr t"
    using b by (simp add: init_dir_tree_def init_entries_run t_def d_def cong: if_cong)
  have two: "2 < NR_DIRS" "unat FLATFS_ROOT_INO = 2" by (simp_all add: layout_simps)
  have nm2: "length (dir_name (d 2)) = 482" using junk two by (simp add: d_def fresh_entry_def)
  let ?r = "(d 2)\<lparr>dir_id := 2, dir_name := [47] @ drop 1 (dir_name (d 2)), namelen := 1,
      rec_len := word_of_int (FFS_DIR_REC_LEN 1), subdirs := Some \<lparr>dl_head = None, dl_tail = None\<rparr>, dir_size := 0\<rparr>"
  let ?sb = "put_de 2 ?r (sb\<lparr>dtree_root := t, root := 2\<rparr>)"
  have "init_root_entry True (sb\<lparr>dtree_root := t\<rparr>) 0 = Inr ?sb"
    using two nm2 by (simp add: init_root_entry_def Let_def memcpy_def t_def FLATFS_ROOT_INO_def)
  moreover have "dir_children ?sb i []" if "i < NR_DIRS" for i
    using that by (cases "i = 2") (simp_all add: dir_children_def t_def d_def fresh_entry_def)
  then have "tree_ok ?sb (\<lambda>_. [])"
    using junk nm2 heap by (auto simp: tree_ok_def t_def d_def fresh_entry_def)
  moreover have "ids_ok ?sb (\<lambda>_. [])" using b by (simp add: ids_ok_def t_def)
  moreover have "dir_named ?sb [47] 2" by (simp add: dir_named_def)
  moreover have "root ?sb = 2" "?sb = sb\<lparr>dtree_root := dtree_root ?sb, root := 2\<rparr>" by (simp_all add: put_de_def)
  moreover have "nul_ok ?sb" if "\<forall>i<NR_DIRS. dir_name (de junk i) ! 481 = 0"
    using that two nm2 by (simp add: nul_ok_def t_def d_def fresh_entry_def nth_append)
  moreover have "listing_ok ?sb []" using junk nm2 by (simp add: listing_ok_def t_def d_def fresh_entry_def)
  ultimately show ?thesis using t b(3) by (intro exI [of _ t] exI [of _ ?sb]) (simp add: t_def)
qed

section \<open>Freeing the tree\<close>

lemma clear_leaf:
  assumes "dir_children sb d []" "d < NR_DIRS"
  shows "clear_dir_entry (Suc (Suc n)) d sb =
    Some (Inr (put_de d ((de (dtree_root sb) d)\<lparr>namelen := 0, dir_size := 0, subdirs := None\<rparr>) sb))"
proof -
  obtain l where "subdirs (de (dtree_root sb) d) = Some l" "dl_head l = None"
    using assms(1) by (auto simp: dir_children_def)
  then show ?thesis using assms(2) by simp
qed

lemma clear_uaf:
  assumes T: "tree_ok sb C" and p: "p < NR_DIRS" and Cp: "C p = a # as" and leaf: "C (child sb a) = []"
  shows "clear_dir_entry (Suc (Suc (Suc (Suc n)))) p sb = Some (Inl UseAfterFree)"
proof -
  obtain l where l: "subdirs (de (dtree_root sb) p) = Some l" "dlist (dle_heap sb) None (dl_head l) (C p)"
    using dir_children_cases [OF tree_ok_children [OF T p]] by blast
  then obtain e where e: "dl_head l = Some a" "dle_heap sb a = Some e" using Cp by auto
  have sz: "0 < unat (dir_size (de (dtree_root sb) p))"
    using dir_children_size [OF tree_ok_children [OF T p]] Cp by simp
  have k: "child sb a < NR_DIRS" "le_de e = child sb a" using T p Cp e by (auto simp: tree_ok_def child_def)
  have "dir_children sb (child sb a) []" using tree_ok_children [OF T k(1)] leaf by simp
  from clear_leaf [OF this k(1), of n] show ?thesis using l e k sz p by simp
qed

section \<open>A mounted tree\<close>

definition blank_entry :: dir_entry where
  "blank_entry = \<lparr>dir_id = 0, dir_name = replicate 482 0, namelen = 0, rec_len = 0, subdirs = None, dir_size = 0, de_pos = 0\<rparr>"

definition blank_tree :: dir_tree where
  "blank_tree = \<lparr>de = (\<lambda>_. blank_entry), dir_entry_num = 0, dir_id_bitmap = replicate 256 0\<rparr>"

definition blank_sb :: flatfs_sb_info where
  "blank_sb = \<lparr>root = 0, dtree_root = blank_tree, sb_name = [], hashtbl = (\<lambda>_. None), big_dir_hashtbl = (\<lambda>_. None),
     big_dir_bitmap = [0], big_dir_num = 0, sb_slack = replicate 16284 0, dle_heap = (\<lambda>_. None), dle_next = 0\<rparr>"

lemma mounted_sb:
  obtains sb where "tree_ok sb (\<lambda>_. [])" "ids_ok sb (\<lambda>_. [])" "\<forall>i. test_bit i (id_map sb) \<longleftrightarrow> i < 3"
    "\<exists>i<NR_DIRS. \<not> test_bit i (id_map sb)" "listing_ok sb []" "nul_ok sb"
proof -
  have "3 < NR_DIRS" by (simp add: layout_simps)
  moreover obtain sb where "tree_ok sb (\<lambda>_. [])" "ids_ok sb (\<lambda>_. [])" "\<forall>i. test_bit i (id_map sb) \<longleftrightarrow> i < 3" "listing_ok sb []" "nul_ok sb"
    using mount_tree [of blank_tree blank_sb] by (auto simp: blank_tree_def blank_entry_def blank_sb_def)
  ultimately show thesis using that by blast
qed

lemma small_dirs: "(2::nat) < NR_DIRS" "(3::nat) < NR_DIRS" "Suc 0 < NR_DIRS" "Suc (Suc 0) < NR_DIRS"
  by (simp_all add: layout_simps)

text \<open>A tree whose root has two subdirectories, \<open>a\<close> and \<open>b\<close>.\<close>

lemma two_dirs:
  obtains sb C x y i j where "tree_ok sb C" "ids_ok sb C" "nul_ok sb" "C 2 = [x, y]" "child sb x = i" "child sb y = j" "i \<noteq> j"
    "i \<noteq> 2" "j \<noteq> 2" "i < NR_DIRS" "j < NR_DIRS" "C i = []" "C j = []"
proof -
  obtain sb0 where m: "tree_ok sb0 (\<lambda>_. [])" "ids_ok sb0 (\<lambda>_. [])" "\<forall>i. test_bit i (id_map sb0) \<longleftrightarrow> i < 3"
    "\<exists>i<NR_DIRS. \<not> test_bit i (id_map sb0)" "listing_ok sb0 []" "nul_ok sb0" by (rule mounted_sb)
  have t: "test_bit 2 (id_map sb0)" using m(3) by simp
  have n: "(0::u8) \<notin> set [97]" "length [97::u8] \<le> 482" "Suc (length ([]::nat list)) < NR_DIRS"
    "(0::u8) \<notin> set [98]" "length [98::u8] \<le> 482" "length [97::u8] < 482" "length [98::u8] < 482" using small_dirs by simp_all
  obtain i sb1 sb2 where i: "i < NR_DIRS" "\<not> test_bit i (id_map sb0)" "id_map sb2 = set_bit1 i (id_map sb0)"
    "tree_ok sb2 ((\<lambda>_. [])(2 := [] @ [dle_next sb0]))" "child sb2 (dle_next sb0) = i"
    "ids_ok sb2 ((\<lambda>_. [])(2 := [] @ [dle_next sb0]))" "nul_ok sb2"
    using mkdir_steps [OF m(1,2) small_dirs(1) t n(3) m(4) n(1,2)] n(6) m(6) by metis
  define C where "C = (\<lambda>_::nat. []::nat list)(2 := [dle_next sb0])"
  have bits: "bitmap_bits (id_map sb0) = NR_DIRS" using m(2) bits_256 by (simp add: ids_ok_def)
  have tb: "test_bit k (id_map sb2) \<longleftrightarrow> k = i \<or> k < 3" for k
    using i(1) bits m(3) by (simp add: i(3) test_set_bit1)
  have t2: "test_bit 2 (id_map sb2)" "\<not> i < 3" using tb i(2) m(3) by simp_all
  have free: "\<exists>k<NR_DIRS. \<not> test_bit k (id_map sb2)"
    by (rule exI [of _ "if i = 3 then 4 else 3"]) (simp add: tb layout_simps)
  have C2: "tree_ok sb2 C" "ids_ok sb2 C" "Suc (length (C 2)) < NR_DIRS" using i small_dirs by (simp_all add: C_def)
  obtain j sb4 where j: "j < NR_DIRS" "\<not> test_bit j (id_map sb2)" "tree_ok sb4 (C(2 := C 2 @ [dle_next sb2]))"
    "child sb4 (dle_next sb2) = j" "\<forall>d<NR_DIRS. \<forall>a \<in> set (C d). child sb4 a = child sb2 a"
    "ids_ok sb4 (C(2 := C 2 @ [dle_next sb2]))" "nul_ok sb4"
    using mkdir_steps [OF C2(1,2) small_dirs(1) t2(1) C2(3) free n(4,5)] n(7) i(7) by metis
  have c: "child sb4 (dle_next sb0) = i" using j(5) small_dirs(1) i(5) by (auto simp: C_def)
  show thesis
    by (rule that [OF j(3,6,7) _ c j(4) _ _ _ i(1) j(1)]) (use j(2) tb t2 in \<open>auto simp: C_def\<close>)
qed

lemma mkdir_found:
  assumes "tree_ok sb C" "ids_ok sb C" "p < NR_DIRS" "test_bit p (id_map sb)" "Suc (length (C p)) < NR_DIRS"
    and "\<exists>i<NR_DIRS. \<not> test_bit i (id_map sb)" "0 \<notin> set nm" "length nm \<le> 482"
    and fresh: "\<forall>a \<in> set (C p). \<not> dir_named sb nm (child sb a)"
  obtains i sb1 sb2 where "fill_one_dir_entry sb (nm @ [0]) = Inr (of_nat i, sb1)"
    "insert_dir True sb1 (of_nat p) (of_nat i) = Inr sb2" "i < NR_DIRS" "\<not> test_bit i (id_map sb)"
    "tree_ok sb2 (C(p := C p @ [dle_next sb]))" "ids_ok sb2 (C(p := C p @ [dle_next sb]))"
    "flatfs_dir_inode_by_name sb2 (dir_id_to_inode (of_nat p)) (name_arg nm) = Inr (dir_id_to_inode (of_nat i))"
proof -
  obtain i sb1 sb2 where s: "fill_one_dir_entry sb (nm @ [0]) = Inr (of_nat i, sb1)"
    "insert_dir True sb1 (of_nat p) (of_nat i) = Inr sb2" "i < NR_DIRS" "\<not> test_bit i (id_map sb)"
    "id_map sb2 = set_bit1 i (id_map sb)" "tree_ok sb2 (C(p := C p @ [dle_next sb]))" "child sb2 (dle_next sb) = i"
    "\<forall>d<NR_DIRS. \<forall>a \<in> set (C d). child sb2 a = child sb a" "dir_named sb2 nm i"
    "\<forall>x j. j \<noteq> i \<longrightarrow> dir_named sb2 x j = dir_named sb x j" "ids_ok sb2 (C(p := C p @ [dle_next sb]))"
    by (rule mkdir_steps [OF assms(1-8)])
  have "\<not> dir_named sb2 nm (child sb2 a)" if a: "a \<in> set (C p)" for a
  proof -
    have c: "child sb2 a = child sb a" using s(8) assms(3) a by simp
    have "test_bit (child sb a) (id_map sb)" using assms(2,3) a by (simp add: ids_ok_def)
    then have "child sb a \<noteq> i" using s(4) by auto
    then show ?thesis using s(10) fresh a by (simp add: c)
  qed
  then have "find (dir_named sb2 nm) (map (child sb2) (C p) @ [i]) = Some i"
    using s(9) by (intro find_snoc) auto
  then have "find (dir_named sb2 nm) (map (child sb2) (C p @ [dle_next sb])) = Some i" by (simp add: s(7))
  moreover have "i \<noteq> p" using s(4) assms(4) by auto
  ultimately have "flatfs_dir_inode_by_name sb2 (dir_id_to_inode (of_nat p)) (name_arg nm) = Inr (dir_id_to_inode (of_nat i))"
    using lookup_dir [OF s(6) assms(3,7,8)] by simp
  then show thesis using that s(1,2,3,4,6,11) by blast
qed

section \<open>Properties of the directory tree\<close>

text \<open>
  C7: Making a directory and looking it up: while an id is free and the parent has no
  subdirectory of that name, creating the entry and linking it into the parent returns an unused
  id, keeps the tree well-formed, and a lookup of the name in the parent then returns the inode
  number of that id.
\<close>
theorem mkdir_then_lookup:
  assumes "tree_ok sb C" "ids_ok sb C" "p < NR_DIRS" "test_bit p (id_map sb)" "Suc (length (C p)) < NR_DIRS"
    and "\<exists>i<NR_DIRS. \<not> test_bit i (id_map sb)" "0 \<notin> set nm" "length nm \<le> 482"
    and fresh: "\<forall>a \<in> set (C p). \<not> dir_named sb nm (child sb a)"
  shows "\<exists>i sb1 sb2. fill_one_dir_entry sb (nm @ [0]) = Inr (of_nat i, sb1) \<and>
    insert_dir True sb1 (of_nat p) (of_nat i) = Inr sb2 \<and> \<not> test_bit i (id_map sb) \<and>
    tree_ok sb2 (C(p := C p @ [dle_next sb])) \<and> ids_ok sb2 (C(p := C p @ [dle_next sb])) \<and>
    flatfs_dir_inode_by_name sb2 (dir_id_to_inode (of_nat p)) (name_arg nm) = Inr (dir_id_to_inode (of_nat i))"
proof -
  obtain i sb1 sb2 where "fill_one_dir_entry sb (nm @ [0]) = Inr (of_nat i, sb1)"
    "insert_dir True sb1 (of_nat p) (of_nat i) = Inr sb2" "i < NR_DIRS" "\<not> test_bit i (id_map sb)"
    "tree_ok sb2 (C(p := C p @ [dle_next sb]))" "ids_ok sb2 (C(p := C p @ [dle_next sb]))"
    "flatfs_dir_inode_by_name sb2 (dir_id_to_inode (of_nat p)) (name_arg nm) = Inr (dir_id_to_inode (of_nat i))"
    by (rule mkdir_found [OF assms])
  then show ?thesis by (intro exI conjI)
qed

theorem mkdir_then_lookup_witness:
  "\<exists>sb i sb1 sb2. fill_one_dir_entry sb [97, 0] = Inr (of_nat i, sb1) \<and> insert_dir True sb1 2 (of_nat i) = Inr sb2 \<and>
     flatfs_dir_inode_by_name sb2 (dir_id_to_inode 2) (name_arg [97]) = Inr (dir_id_to_inode (of_nat i))"
proof -
  obtain sb where sb: "tree_ok sb (\<lambda>_. [])" "ids_ok sb (\<lambda>_. [])" "\<forall>i. test_bit i (id_map sb) \<longleftrightarrow> i < 3"
    "\<exists>i<NR_DIRS. \<not> test_bit i (id_map sb)" "listing_ok sb []" "nul_ok sb" by (rule mounted_sb)
  have t: "test_bit 2 (id_map sb)" using sb(3) by simp
  have n: "(0::u8) \<notin> set [97]" "length [97::u8] \<le> 482" "Suc (length ([]::nat list)) < NR_DIRS" using small_dirs by simp_all
  show ?thesis
    using mkdir_then_lookup [OF sb(1,2) small_dirs(1) t n(3) sb(4) n(1,2)] by fastforce
qed

text \<open>
  C24: In a well-formed tree, looking up a name in a directory that is not its own subdirectory returns the
  inode number of the first subdirectory in list order whose recorded name is that name, and 0 when there is none.
\<close>
theorem dir_lookup_refines_find:
  assumes "tree_ok sb C" "p < NR_DIRS" "0 \<notin> set nm" "length nm \<le> 482" "\<forall>a \<in> set (C p). child sb a \<noteq> p"
  shows "flatfs_dir_inode_by_name sb (dir_id_to_inode (of_nat p)) (name_arg nm) =
    Inr (case find (dir_named sb nm) (map (child sb) (C p)) of None \<Rightarrow> 0 | Some i \<Rightarrow> dir_id_to_inode (of_nat i))"
proof -
  have "i \<noteq> p" if "find (dir_named sb nm) (map (child sb) (C p)) = Some i" for i
    using that assms(5) by (auto simp: find_Some_iff)
  then show ?thesis using lookup_dir [OF assms(1-4)] by (simp split: option.split)
qed

theorem dir_lookup_refines_find_witness:
  "\<exists>sb i. 2 < i \<and> i < NR_DIRS \<and> flatfs_dir_inode_by_name sb (dir_id_to_inode 2) (name_arg [97]) = Inr (dir_id_to_inode (of_nat i))"
proof -
  obtain sb0 where m: "tree_ok sb0 (\<lambda>_. [])" "ids_ok sb0 (\<lambda>_. [])" "\<forall>i. test_bit i (id_map sb0) \<longleftrightarrow> i < 3"
    "\<exists>i<NR_DIRS. \<not> test_bit i (id_map sb0)" by (rule mounted_sb)
  let ?C = "(\<lambda>_::nat. []::nat list)(2 := [] @ [dle_next sb0])"
  have t: "test_bit 2 (id_map sb0)" "Suc (length ([]::nat list)) < NR_DIRS" using m(3) small_dirs by simp_all
  have nm: "(0::u8) \<notin> set [97]" "length [97::u8] \<le> 482" by simp_all
  obtain i sb where i: "i < NR_DIRS" "\<not> test_bit i (id_map sb0)" "tree_ok sb ?C" "child sb (dle_next sb0) = i" "dir_named sb [97] i"
    by (rule mkdir_steps [OF m(1,2) small_dirs(1) t m(4) nm]) (rule that, assumption+)
  have "\<not> i < 3" using i(2) m(3) by simp
  then show ?thesis
    using dir_lookup_refines_find [OF i(3) small_dirs(1) nm] i by (intro exI [of _ sb] exI [of _ i]) simp
qed

text \<open>
  C27: Listing a directory from the start, with an \<open>actor\<close> that records what it is given and never stops the
  listing, in a tree where the lengths that the listing reads are set (every name length is within its field, every
  listed entry has a record length): every subdirectory is handed to the caller exactly once, in list order, with its
  recorded name and (32-bit) inode number, and the directory's cursor is left behind the last one.
\<close>
theorem read_dir_dirs_lists_all:
  assumes "tree_ok sb C" "p < NR_DIRS" "listing_ok sb (C p)" "ctx_pos ctx = 0"
    and "\<And>c nm pos ino ty. actor c nm pos ino ty = (0, c @ [(nm, ino)])"
  shows "\<exists>sb' ctx'. read_dir_dirs actor sb (dir_id_to_inode (of_nat p)) ctx = Inr (int (length (C p)), sb', ctx') \<and>
    ctx_data ctx' = ctx_data ctx @ map (\<lambda>a. let d = de (dtree_root sb) (child sb a) in
      (take (nat (namelen d)) (dir_name d), le32_to_cpu (dir_id_to_inode (dir_id d)))) (C p) \<and>
    ctx_pos ctx' = int (length (C p)) \<and> de_pos (de (dtree_root sb') p) = int (length (C p))"
proof -
  have f: "ctx_data (foldl (emit1 actor sb) c (map (child sb) as)) = ctx_data c @ map (\<lambda>a. let d = de (dtree_root sb) (child sb a) in
      (take (nat (namelen d)) (dir_name d), le32_to_cpu (dir_id_to_inode (dir_id d)))) as \<and>
    ctx_pos (foldl (emit1 actor sb) c (map (child sb) as)) = ctx_pos c + int (length as)" for c as
    by (induction as arbitrary: c) (simp_all add: emit1_def assms(5) Let_def)
  then show ?thesis using read_dir_dirs_first [OF assms(1-4), of actor] assms(4) by auto
qed

lemma insert_dir_entry:
  "insert_dir alloc sb p i = Inr sb' \<Longrightarrow> rec_len (de (dtree_root sb') j) = rec_len (de (dtree_root sb) j) \<and>
     namelen (de (dtree_root sb') j) = namelen (de (dtree_root sb) j) \<and> dir_name (de (dtree_root sb') j) = dir_name (de (dtree_root sb) j)"
  by (auto simp: insert_dir_def Let_def res_simps put_de_def put_dle_def get_de_def split: if_splits)

lemma fill_entry_lens:
  assumes "fill_one_dir_entry sb (nm @ [0]) = Inr (of_nat i, sb')" "i < NR_DIRS" "i \<noteq> 0" "0 \<notin> set nm" "nm \<noteq> []"
    "length nm \<le> length (dir_name (de (dtree_root sb) i))"
  shows "namelen (de (dtree_root sb') i) = int (length nm)" "rec_len (de (dtree_root sb') i) = word_of_int (FFS_DIR_REC_LEN (int (length nm)))"
    "dir_name (de (dtree_root sb') i) = nm @ drop (length nm) (dir_name (de (dtree_root sb) i))"
    "j \<noteq> i \<Longrightarrow> de (dtree_root sb') j = de (dtree_root sb) j"
proof -
  have u: "unat (of_nat i :: u64) = i" using assms(2) by (simp add: unat_of_nat_less layout_simps)
  then have z: "(of_nat i :: u64) \<noteq> 0" using assms(3) by (metis unat_0)
  have "my_strlen (nm @ [0]) = Inr (int (length nm))" using my_strlen_nul [of "nm @ [0]"] assms(4) by simp
  then show "namelen (de (dtree_root sb') i) = int (length nm)" "rec_len (de (dtree_root sb') i) = word_of_int (FFS_DIR_REC_LEN (int (length nm)))"
    "dir_name (de (dtree_root sb') i) = nm @ drop (length nm) (dir_name (de (dtree_root sb) i))"
    "j \<noteq> i \<Longrightarrow> de (dtree_root sb') j = de (dtree_root sb) j"
    using assms u z by (auto simp: fill_one_dir_entry_def Let_def res_simps put_de_def get_de_def memcpy_def split: if_splits)
qed

text \<open>A root with one subdirectory \<open>a\<close>, listed.\<close>

theorem read_dir_dirs_lists_all_witness:
  "\<exists>sb sb' ctx'. read_dir_dirs (\<lambda>c nm pos ino ty. (0, c @ [(nm, ino)])) sb (dir_id_to_inode 2)
     \<lparr>ctx_pos = 0, ctx_data = []\<rparr> = Inr (1, sb', ctx') \<and> map fst (ctx_data ctx') = [[97]]"
proof -
  obtain sb0 where m: "tree_ok sb0 (\<lambda>_. [])" "ids_ok sb0 (\<lambda>_. [])" "\<forall>i. test_bit i (id_map sb0) \<longleftrightarrow> i < 3"
    "\<exists>i<NR_DIRS. \<not> test_bit i (id_map sb0)" "listing_ok sb0 []" by (rule mounted_sb)
  let ?C = "(\<lambda>_::nat. []::nat list)(2 := [] @ [dle_next sb0])"
  have t: "test_bit 2 (id_map sb0)" "Suc (length ([]::nat list)) < NR_DIRS" using m(3) small_dirs by simp_all
  have nm: "(0::u8) \<notin> set [97]" "length [97::u8] \<le> 482" by simp_all
  obtain i sb1 sb2 where i: "fill_one_dir_entry sb0 ([97] @ [0]) = Inr (of_nat i, sb1)" "insert_dir True sb1 (of_nat 2) (of_nat i) = Inr sb2"
    "i < NR_DIRS" "\<not> test_bit i (id_map sb0)" "tree_ok sb2 ?C" "child sb2 (dle_next sb0) = i"
    by (rule mkdir_steps [OF m(1,2) small_dirs(1) t m(4) nm]) (rule that, assumption+)
  have i0: "i \<noteq> 0" using i(4) m(3) by auto
  have dn: "length (dir_name (de (dtree_root sb0) j)) = 482" if "j < NR_DIRS" for j using m(1) that by (simp add: tree_ok_def)
  have l: "length [97::u8] \<le> length (dir_name (de (dtree_root sb0) i))" using dn [OF i(3)] by simp
  have f: "namelen (de (dtree_root sb1) i) = 1" "rec_len (de (dtree_root sb1) i) = word_of_int (FFS_DIR_REC_LEN 1)"
    "dir_name (de (dtree_root sb1) i) = 97 # drop 1 (dir_name (de (dtree_root sb0) i))" "\<And>j. j \<noteq> i \<Longrightarrow> de (dtree_root sb1) j = de (dtree_root sb0) j"
    using fill_entry_lens [OF i(1,3) i0 nm(1) _ l] by simp_all
  note e = insert_dir_entry [OF i(2)]
  have r: "(word_of_int (FFS_DIR_REC_LEN 1) :: u16) \<noteq> 0" by code_simp
  have "nat (namelen (de (dtree_root sb2) j)) \<le> length (dir_name (de (dtree_root sb2) j))" if "j < NR_DIRS" for j
    using e [of j] f(1,3) f(4) [of j] m(5) that by (cases "j = i") (simp_all add: listing_ok_def)
  then have ok: "listing_ok sb2 (?C 2)" using e [of i] f(2) r i(6) by (simp add: listing_ok_def)
  then show ?thesis
    using read_dir_dirs_lists_all [OF i(5) small_dirs(1) ok, of "\<lparr>ctx_pos = 0, ctx_data = []\<rparr>" "\<lambda>c nm pos ino ty. (0, c @ [(nm, ino)])"] i(6) e [of i] f(1,3)
    by - (rule exI [of _ sb2], auto simp: Let_def)
qed

text \<open>
  C26: Removing an empty subdirectory that is not the last of several unlinks exactly its node, keeps the other
  subdirectories in order, frees its id and its file table and keeps the tree well-formed.
\<close>
theorem remove_dir_unlinks:
  assumes "tree_ok sb C" "p < NR_DIRS" "i < NR_DIRS" "p \<noteq> i" "C p = xs @ a # ys" "child sb a = i"
    and "\<forall>x \<in> set xs. child sb x \<noteq> i" "C i = []" "nul_ok sb" "ys \<noteq> [] \<or> xs = []"
  shows "\<exists>sb'. remove_dir sb (dir_id_to_inode (of_nat p)) (dir_id_to_inode (of_nat i)) (- 1) = Inr sb' \<and>
    tree_ok sb' (C(p := xs @ ys)) \<and> (\<forall>x \<in> set (xs @ ys). child sb' x = child sb x) \<and>
    id_map sb' = clear_bit1 i (id_map sb) \<and> hashtbl sb' i = None"
  by (rule remove_dir_ok [OF assms(1-8) nul_ok_mem [OF assms(1,9,3)] _ assms(10)]) simp

theorem remove_dir_unlinks_witness:
  "\<exists>sb i sb'. remove_dir sb (dir_id_to_inode 2) (dir_id_to_inode (of_nat i)) (- 1) = Inr sb' \<and> hashtbl sb' i = None"
proof -
  obtain sb C x y i j where t: "tree_ok sb C" "ids_ok sb C" "nul_ok sb" "C 2 = [x, y]" "child sb x = i" "child sb y = j" "i \<noteq> j"
    "i \<noteq> 2" "j \<noteq> 2" "i < NR_DIRS" "j < NR_DIRS" "C i = []" "C j = []" by (rule two_dirs)
  show ?thesis using remove_dir_unlinks [OF t(1) small_dirs(1) t(10), of "[]" x "[y]"] t by fastforce
qed



text \<open>
  C40: Freeing a tree whose root has a subdirectory, the first of them a leaf, reads the \<open>next\<close>
  field of a list node after the node was freed; the fuel needed is four.
\<close>
theorem dir_exit_use_after_free:
  assumes "tree_ok sb C" "root sb < NR_DIRS" "C (root sb) = a # as" "C (child sb a) = []"
  shows "dir_exit (4 + n) sb = Some (Inl UseAfterFree)"
  using clear_uaf [OF assms] by (simp add: dir_exit_def numeral_eq_Suc)

theorem dir_exit_use_after_free_witness:
  "\<exists>sb. dir_exit 4 sb = Some (Inl UseAfterFree)"
proof -
  obtain sb C x y i j where t: "tree_ok sb C" "ids_ok sb C" "nul_ok sb" "C 2 = [x, y]" "child sb x = i" "child sb y = j" "i \<noteq> j"
    "i \<noteq> 2" "j \<noteq> 2" "i < NR_DIRS" "j < NR_DIRS" "C i = []" "C j = []" by (rule two_dirs)
  have "tree_ok (sb\<lparr>root := 2\<rparr>) C" "child (sb\<lparr>root := 2\<rparr>) x = i"
    using t(1,5) by (simp_all add: tree_ok_def dir_children_def child_def)
  then show ?thesis using dir_exit_use_after_free [of "sb\<lparr>root := 2\<rparr>" C x "[y]" 0] t small_dirs(1) by fastforce
qed

text \<open>
  When every directory id is in use, making an entry returns id 0 and changes nothing;
  otherwise it takes an id that was free.
\<close>
theorem dir_ids_exhausted:
  assumes "length (id_map sb) = 256"
  shows "(\<forall>i<NR_DIRS. test_bit i (id_map sb)) \<and> fill_one_dir_entry sb nm = Inr (0, sb) \<or>
    (\<exists>i<NR_DIRS. \<not> test_bit i (id_map sb) \<and> get_unused_dir_id (id_map sb) = Inr (of_nat i, set_bit1 i (id_map sb)))"
  using get_unused_dir_id_cases [OF assms] by (auto simp: fill_one_dir_entry_def Let_def)

theorem dir_ids_exhausted_witness:
  "\<exists>sb. fill_one_dir_entry sb [97, 0] = Inr (0, sb)"
proof -
  define sb where "sb = blank_sb\<lparr>dtree_root := blank_tree\<lparr>dir_id_bitmap := replicate 256 (- 1)\<rparr>\<rparr>"
  have l: "length (id_map sb) = 256" by (simp add: sb_def)
  have "test_bit i (id_map sb)" if "i < NR_DIRS" for i
    using that by (simp add: sb_def test_bit_def BITS_PER_LONG_def layout_simps)
  then have "fill_one_dir_entry sb [97, 0] = Inr (0, sb)" using dir_ids_exhausted [OF l, of "[97, 0]"] by blast
  then show ?thesis by blast
qed

lemma test_bit_append: "i < bitmap_bits b \<Longrightarrow> test_bit i (b @ r) = test_bit i b"
  by (auto simp: test_bit_def bitmap_bits_def BITS_PER_LONG_def nth_append less_mult_imp_div_less)

lemma sb_tail_bit: "length (big_dir_bitmap sb) = 1 \<Longrightarrow> i < 64 \<Longrightarrow> test_bit i (sb_tail sb) = test_bit i (big_dir_bitmap sb)"
  unfolding sb_tail_def by (rule test_bit_append) (simp add: bitmap_bits_def BITS_PER_LONG_def)

lemma sb_tail_bits: "length (big_dir_bitmap sb) = 1 \<Longrightarrow> 254 \<le> length (sb_slack sb) \<Longrightarrow> NR_DIRS \<le> bitmap_bits (sb_tail sb)"
  by (simp add: sb_tail_def bitmap_bits_def BITS_PER_LONG_def layout_simps)

text \<open>
  Extending a directory takes the first free of the 64 extension tables and initialises it;
  once all 64 are taken the guard still lets the 65th request pass, and it indexes the array of
  tables out of its bounds.
\<close>
theorem resize_dir_outcome:
  assumes "length (big_dir_bitmap sb) = 1" "254 \<le> length (sb_slack sb)" "unat (big_dir_num sb) \<le> 64"
  shows "if \<forall>i<64. test_bit i (big_dir_bitmap sb) then resize_dir sb (Some junk) = Inl OutOfBounds
    else \<exists>pos<64. \<not> test_bit pos (big_dir_bitmap sb) \<and> (\<forall>j<pos. test_bit j (big_dir_bitmap sb)) \<and>
      (\<forall>t. init_big_file_ht (Some junk) = Inr t \<longrightarrow>
        resize_dir sb (Some junk) = Inr (int pos, sb\<lparr>big_dir_hashtbl := (big_dir_hashtbl sb)(pos := t),
          big_dir_bitmap := bitmap_set (big_dir_bitmap sb) pos 1, big_dir_num := big_dir_num sb + 1\<rparr>))"
proof -
  have n: "\<not> unat (big_dir_num sb) > NR_BIG_DIRS" "NR_BIG_DIRS = 64" "64 < NR_DIRS" using assms(3) by (simp_all add: layout_simps)
  obtain k where k: "k \<le> NR_DIRS" "find_first_zero_bit (sb_tail sb) NR_DIRS = Inr k"
    using bm.ffz_total [OF sb_tail_bits [OF assms(1,2)]] by blast
  have full: "k = NR_DIRS \<longleftrightarrow> (\<forall>j<NR_DIRS. test_bit j (sb_tail sb))"
    using bm.ffz_full [OF sb_tail_bits [OF assms(1,2)]] k(2) by simp
  show ?thesis
  proof (cases "\<forall>i<64. test_bit i (big_dir_bitmap sb)")
    case True
    then have "\<not> k < 64" using bm.ffz_found [of k NR_DIRS "sb_tail sb"] k n sb_tail_bit [OF assms(1)] by auto
    then show ?thesis using True n k by (simp add: resize_dir_def)
  next
    case False
    then obtain i where i: "i < 64" "\<not> test_bit i (sb_tail sb)" using sb_tail_bit [OF assms(1)] by auto
    have "k < NR_DIRS" using full i n k by (metis le_neq_implies_less less_trans)
    then have f: "\<not> test_bit k (sb_tail sb)" "\<forall>j<k. test_bit j (sb_tail sb)" using bm.ffz_found k(2) by blast+
    then have "k < 64" using i by (metis linorder_neqE_nat less_trans)
    then show ?thesis using False f n k sb_tail_bit [OF assms(1)] by (auto simp: resize_dir_def)
  qed
qed

theorem resize_dir_outcome_witness:
  "\<exists>pos<64. \<not> test_bit pos (big_dir_bitmap blank_sb) \<and> (\<forall>j<pos. test_bit j (big_dir_bitmap blank_sb)) \<and>
    resize_dir (blank_sb\<lparr>big_dir_bitmap := [- 1], big_dir_num := 64\<rparr>) (Some empty_bt) = Inl OutOfBounds"
proof -
  have f: "\<forall>i<64. test_bit i [- 1]" by (simp add: test_bit_def BITS_PER_LONG_def)
  have e: "\<not> (\<forall>i<64. test_bit i [0])" by (auto simp: test_bit_def BITS_PER_LONG_def intro!: exI [of _ 0])
  have l: "length (sb_slack blank_sb) = 16284" "big_dir_bitmap blank_sb = [0]" "big_dir_num blank_sb = 0"
    by (simp_all add: blank_sb_def)
  show ?thesis
    using resize_dir_outcome [of "blank_sb\<lparr>big_dir_bitmap := [- 1], big_dir_num := 64\<rparr>" empty_bt]
      resize_dir_outcome [of blank_sb empty_bt] f e l by (auto split: if_splits)
qed

end
