(* ===== verification/Buffer_Cache.thy ===== *)
theory Buffer_Cache
  imports Dir_Tree
begin

text \<open>
  Buffers of the block device and the bytes inside them. A block is a list of 4096 bytes; the C
  code overlays it with \<open>struct ffs_inode\<close> (a directory's inode, at offset 0) or with
  \<open>struct ffs_inode_page\<close> (a header of 64 bytes and eight inodes of 504 bytes). The offsets are
  those of the x86-64 ABI: \<open>valid\<close> at 0, \<open>size\<close> at 8, \<open>filename.name_len\<close> at 16, \<open>filename.name\<close>
  (482 bytes) at 17.

  A buffer head is named by its block number. \<open>sb_bread\<close> returns null for the blocks that the
  device cannot deliver. \<open>lock_buffer\<close> on a buffer that is locked waits; as an operation by itself
  it does not come back (\<open>Deadlock\<close>). The buffer layer of the kernel clears \<open>b_private\<close> when it
  sets up a buffer, and no code of the module ever stores a pointer there.
\<close>

section \<open>Bytes of a block\<close>

definition BLOCK_BYTES :: nat where "BLOCK_BYTES = 4096"
definition PAGE_HEADER_BYTES :: nat where "PAGE_HEADER_BYTES = 64"
definition INODE_BYTES :: nat where "INODE_BYTES = 504"

lemmas block_simps = BLOCK_BYTES_def PAGE_HEADER_BYTES_def INODE_BYTES_def

definition get_bytes :: "bytes \<Rightarrow> nat \<Rightarrow> nat \<Rightarrow> bytes res" where
  "get_bytes blk off n = (if off + n \<le> length blk then Inr (take n (drop off blk)) else Inl OutOfBounds)"

definition put_bytes :: "bytes \<Rightarrow> nat \<Rightarrow> bytes \<Rightarrow> bytes res" where
  "put_bytes blk off bs =
     (if off + length bs \<le> length blk then Inr (take off blk @ bs @ drop (off + length bs) blk) else Inl OutOfBounds)"

fun le_bytes :: "nat \<Rightarrow> u64 \<Rightarrow> bytes" where
  "le_bytes 0 w = []"
| "le_bytes (Suc n) w = ucast w # le_bytes n (drop_bit 8 w)"

fun le_value :: "bytes \<Rightarrow> u64" where
  "le_value [] = 0"
| "le_value (b # bs) = ucast b OR push_bit 8 (le_value bs)"

text \<open>Whether \<open>strcmp(a, b)\<close> is 0.\<close>

fun strcmp_eq :: "bytes \<Rightarrow> bytes \<Rightarrow> bool res" where
  "strcmp_eq (x # a) (y # b) = (if x \<noteq> y then Inr False else if x = 0 then Inr True else strcmp_eq a b)"
| "strcmp_eq a b = Inl OutOfBounds"

section \<open>On-disk inodes\<close>

record ffs_name =
  name_len :: u8
  fname :: bytes

record ffs_inode =
  ri_valid :: int
  ri_size :: int
  ri_filename :: ffs_name

text \<open>Where \<open>&raw_inode_page->inode[slot]\<close> points; the inode of a directory is at the start.\<close>

definition slot_off :: "nat \<Rightarrow> nat" where
  "slot_off s = PAGE_HEADER_BYTES + INODE_BYTES * s"

definition read_raw :: "bytes \<Rightarrow> nat \<Rightarrow> ffs_inode res" where
  "read_raw blk off =
     bind_res (get_bytes blk off 4) (\<lambda>v.
     bind_res (get_bytes blk (off + 8) 8) (\<lambda>s.
     bind_res (get_bytes blk (off + 16) 1) (\<lambda>l.
     bind_res (get_bytes blk (off + 17) 482) (\<lambda>nm.
       Inr \<lparr>ri_valid = cint (uint (le_value v)), ri_size = sint (le_value s),
            ri_filename = \<lparr>name_len = hd l, fname = nm\<rparr>\<rparr>))))"

text \<open>
  The four assignments of \<open>ffs_dirty_inode\<close> to \<open>raw_inode\<close>; only \<open>name_len\<close> bytes of the name are
  stored, without a terminating NUL.
\<close>

definition write_raw :: "bytes \<Rightarrow> nat \<Rightarrow> ffs_inode \<Rightarrow> bytes res" where
  "write_raw blk off ri =
     bind_res (put_bytes blk (off + 8) (le_bytes 8 (word_of_int (ri_size ri)))) (\<lambda>blk.
     bind_res (put_bytes blk off (le_bytes 4 (word_of_int (ri_valid ri)))) (\<lambda>blk.
     bind_res (put_bytes blk (off + 16) [name_len (ri_filename ri)]) (\<lambda>blk.
     if unat (name_len (ri_filename ri)) \<le> length (fname (ri_filename ri))
     then put_bytes blk (off + 17) (take (unat (name_len (ri_filename ri))) (fname (ri_filename ri)))
     else Inl OutOfBounds)))"

definition page_slot_bitmap :: "bytes \<Rightarrow> bitmap res" where
  "page_slot_bitmap blk = bind_res (get_bytes blk 0 8) (\<lambda>v. Inr [le_value v])"

definition put_slot_bitmap :: "bytes \<Rightarrow> bitmap \<Rightarrow> bytes res" where
  "put_slot_bitmap blk bm = put_bytes blk 0 (le_bytes 8 (bm ! 0))"

definition page_valid_slot_num :: "bytes \<Rightarrow> int res" where
  "page_valid_slot_num blk = bind_res (get_bytes blk 8 4) (\<lambda>v. Inr (cint (uint (le_value v))))"

definition put_valid_slot_num :: "bytes \<Rightarrow> int \<Rightarrow> bytes res" where
  "put_valid_slot_num blk n = put_bytes blk 8 (le_bytes 4 (word_of_int n))"

section \<open>Buffer heads\<close>

text \<open>The in-memory superblock an end-of-I/O record points to is the only one there is.\<close>

record ffs_io_end =
  io_dir_id :: int
  io_bucket_id :: int
  io_slot_id :: int
  io_is_big_dir :: u8
  io_big_dir_id :: int

record buffer_head =
  b_data :: bytes
  b_uptodate :: bool
  b_dirty :: bool
  b_locked :: bool
  b_count :: int
  b_private :: "ffs_io_end option"
  b_end_io :: bool

type_synonym buffers = "u64 \<Rightarrow> buffer_head option"

definition sb_bread :: "buffers \<Rightarrow> u64 \<Rightarrow> u64 option \<times> buffers" where
  "sb_bread bf blk =
     (case bf blk of
        None \<Rightarrow> (None, bf)
      | Some b \<Rightarrow> (Some blk, bf(blk \<mapsto> b\<lparr>b_uptodate := True, b_count := b_count b + 1\<rparr>)))"

definition get_bh :: "buffers \<Rightarrow> u64 option \<Rightarrow> (u64 \<times> buffer_head) res" where
  "get_bh bf p =
     (case p of None \<Rightarrow> Inl NullDeref
      | Some n \<Rightarrow> (case bf n of None \<Rightarrow> Inl UseAfterFree | Some b \<Rightarrow> Inr (n, b)))"

definition upd_bh :: "(buffer_head \<Rightarrow> buffer_head) \<Rightarrow> u64 option \<Rightarrow> buffers \<Rightarrow> buffers res" where
  "upd_bh f p bf = bind_res (get_bh bf p) (\<lambda>(n, b). Inr (bf(n \<mapsto> f b)))"

definition lock_buffer :: "u64 option \<Rightarrow> buffers \<Rightarrow> buffers res" where
  "lock_buffer p bf =
     bind_res (get_bh bf p) (\<lambda>(n, b).
     if b_locked b then Inl Deadlock else Inr (bf(n \<mapsto> b\<lparr>b_locked := True\<rparr>)))"

definition unlock_buffer :: "u64 option \<Rightarrow> buffers \<Rightarrow> buffers res" where
  "unlock_buffer = upd_bh (\<lambda>b. b\<lparr>b_locked := False\<rparr>)"

definition mark_buffer_dirty :: "u64 option \<Rightarrow> buffers \<Rightarrow> buffers res" where
  "mark_buffer_dirty = upd_bh (\<lambda>b. b\<lparr>b_dirty := True\<rparr>)"

definition set_buffer_uptodate :: "u64 option \<Rightarrow> buffers \<Rightarrow> buffers res" where
  "set_buffer_uptodate = upd_bh (\<lambda>b. b\<lparr>b_uptodate := True\<rparr>)"

definition brelse :: "u64 option \<Rightarrow> buffers \<Rightarrow> buffers" where
  "brelse p bf =
     (case p of None \<Rightarrow> bf
      | Some n \<Rightarrow> (case bf n of None \<Rightarrow> bf | Some b \<Rightarrow> bf(n \<mapsto> b\<lparr>b_count := b_count b - 1\<rparr>)))"

section \<open>Reading back what was written\<close>

lemma length_le_bytes [simp]: "length (le_bytes n w) = n"
  by (induction n w rule: le_bytes.induct) simp_all

lemma le_value_bytes: "le_value (le_bytes n w) = take_bit (8 * n) w"
proof (induction n w rule: le_bytes.induct)
  case (2 n w)
  have "ucast (ucast w :: u8) = take_bit 8 w"
    by (rule bit_word_eqI) (auto simp: bit_ucast_iff bit_take_bit_iff)
  then have "le_value (le_bytes (Suc n) w) = take_bit 8 w OR push_bit 8 (take_bit (8 * n) (drop_bit 8 w))"
    using 2 by simp
  also have "\<dots> = take_bit (8 * Suc n) w"
    by (rule bit_word_eqI) (auto simp: bit_take_bit_iff bit_or_iff bit_push_bit_iff bit_drop_bit_eq)
  finally show ?case .
qed simp

lemma put_bytes_length: "put_bytes blk off bs = Inr blk' \<Longrightarrow> length blk' = length blk"
  by (auto simp: put_bytes_def split: if_splits)

lemma get_put_same: "put_bytes blk off bs = Inr blk' \<Longrightarrow> get_bytes blk' off (length bs) = Inr bs"
  by (auto simp: put_bytes_def get_bytes_def split: if_splits)

lemma put_bytes_nth:
  "put_bytes blk off bs = Inr blk' \<Longrightarrow> i < length blk \<Longrightarrow>
    blk' ! i = (if off \<le> i \<and> i < off + length bs then bs ! (i - off) else blk ! i)"
  by (auto simp: put_bytes_def nth_append min_def not_less split: if_splits)

lemma drop_take_nth_eq:
  "length a = length b \<Longrightarrow> (\<And>i. off \<le> i \<Longrightarrow> i < off + n \<Longrightarrow> i < length a \<Longrightarrow> a ! i = b ! i) \<Longrightarrow>
    take n (drop off a) = take n (drop off b)"
  by (rule nth_equalityI) auto

lemma get_put_other:
  assumes "put_bytes blk off bs = Inr blk'" "off' + n \<le> off \<or> off + length bs \<le> off'"
  shows "get_bytes blk' off' n = get_bytes blk off' n"
proof -
  have l: "length blk' = length blk" using put_bytes_length [OF assms(1)] .
  have "blk' ! i = blk ! i" if "off' \<le> i" "i < off' + n" "i < length blk'" for i
    using put_bytes_nth [OF assms(1), of i] assms(2) that l by auto
  then have "take n (drop off' blk') = take n (drop off' blk)" using l by (intro drop_take_nth_eq) auto
  then show ?thesis by (simp add: get_bytes_def l)
qed

lemma put_bytes_ok: "off + length bs \<le> length blk \<Longrightarrow> \<exists>blk'. put_bytes blk off bs = Inr blk'"
  by (simp add: put_bytes_def)

end
