(* ===== verification/Inode_State.thy ===== *)
theory Inode_State
  imports Buffer_Cache
begin

text \<open>
  The in-memory inodes, the state of the mounted file system, and the inode operations of
  \<open>super.c\<close>: allocation, the dirty-inode hook that copies an inode into its block, and the
  construction of inodes.

  The state has the in-memory superblock, the buffers, the live inodes by address, the kernel's inode
  hash (\<open>icache\<close>) and the blocks with a write in flight. What comes from outside the module is in
  \<open>kenv\<close>: credentials, time, and the outcome of each allocation (\<open>k_inode\<close> is what the memory of an inode
  holds when the slab cache and \<open>inode_init_always\<close> hand it out). Where that memory is, is up to the slab
  cache: \<open>slab\<close> is an arbitrary choice that depends on the inodes in use. All that is relied on is that it is not
  in use (\<open>slab_ok\<close>); the address of a freed inode may be handed out again.
\<close>

section \<open>State\<close>

datatype iops = NoOps | FileOps | DirOps | SpecialOps

record ffs_inode_info =
  fi_dir_id :: int
  fi_bucket_id :: int
  fi_slot_id :: int
  fi_valid :: int
  fi_is_big_dir :: u8
  fi_big_dir_id :: int
  fi_size :: int
  fi_filename :: ffs_name
  fi_test :: u8
  i_ino :: u64
  i_mode :: u16
  i_uid :: u32
  i_gid :: u32
  i_size :: int
  i_nlink :: u32
  i_rdev :: u32
  i_new :: bool
  i_version :: int
  i_op :: iops
  i_atime :: int
  i_mtime :: int
  i_ctime :: int

record ffs_state =
  sbi :: flatfs_sb_info
  bufs :: buffers
  inodes :: "nat \<Rightarrow> ffs_inode_info option"
  slab :: "(nat \<Rightarrow> ffs_inode_info option) \<Rightarrow> nat"
  icache :: "u64 \<Rightarrow> nat option"
  pending :: "u64 list"
  io_uptodate :: bool
  bd_inode :: bool
  s_dev :: u32

record kenv =
  k_uid :: u32
  k_gid :: u32
  k_now :: int
  k_inode :: "ffs_inode_info option"
  k_dle :: bool
  k_ht :: bool
  k_big :: "Big_Dir_HashTable option"

definition FFS_I :: "ffs_state \<Rightarrow> nat option \<Rightarrow> (nat \<times> ffs_inode_info) res" where
  "FFS_I st p =
     (case p of None \<Rightarrow> Inl NullDeref
      | Some a \<Rightarrow> (case inodes st a of None \<Rightarrow> Inl UseAfterFree | Some fi \<Rightarrow> Inr (a, fi)))"

definition put_inode :: "nat \<Rightarrow> ffs_inode_info \<Rightarrow> ffs_state \<Rightarrow> ffs_state" where
  "put_inode a fi st = st\<lparr>inodes := (inodes st)(a \<mapsto> fi)\<rparr>"

definition upd_inode :: "(ffs_inode_info \<Rightarrow> ffs_inode_info) \<Rightarrow> nat option \<Rightarrow> ffs_state \<Rightarrow> ffs_state res" where
  "upd_inode f p st = bind_res (FFS_I st p) (\<lambda>(a, fi). Inr (put_inode a (f fi) st))"

definition pos_of :: "ffs_inode_info \<Rightarrow> file_pos" where
  "pos_of fi = \<lparr>fp_dir_id = fi_dir_id fi, fp_bucket_id = fi_bucket_id fi, fp_slot_id = fi_slot_id fi\<rparr>"

section \<open>Allocating inodes\<close>

text \<open>
  \<open>ffs_alloc_inode\<close> takes an object from the slab cache; \<open>new_inode\<close> and \<open>iget_locked\<close> call it.
  Freeing happens in an RCU callback.
\<close>

definition ffs_alloc_inode :: "kenv \<Rightarrow> ffs_inode_info option" where
  "ffs_alloc_inode K = map_option (\<lambda>fi. fi\<lparr>i_version := 1\<rparr>) (k_inode K)"

definition inode_next :: "ffs_state \<Rightarrow> nat" where
  "inode_next st = slab st (inodes st)"

definition slab_ok :: "ffs_state \<Rightarrow> bool" where
  "slab_ok st \<longleftrightarrow> finite (dom (inodes st)) \<and> (\<forall>m. finite (dom m) \<longrightarrow> m (slab st m) = None)"

definition new_inode :: "kenv \<Rightarrow> ffs_state \<Rightarrow> nat option \<times> ffs_state" where
  "new_inode K st =
     (case ffs_alloc_inode K of
        None \<Rightarrow> (None, st)
      | Some fi \<Rightarrow> (Some (inode_next st), put_inode (inode_next st) (fi\<lparr>i_new := False\<rparr>) st))"

definition iget_locked :: "kenv \<Rightarrow> u64 \<Rightarrow> ffs_state \<Rightarrow> nat option \<times> ffs_state" where
  "iget_locked K ino st =
     (case icache st ino of
        Some a \<Rightarrow> (Some a, st)
      | None \<Rightarrow>
          (case ffs_alloc_inode K of
             None \<Rightarrow> (None, st)
           | Some fi \<Rightarrow>
               (let a = inode_next st
                in (Some a, put_inode a (fi\<lparr>i_ino := ino, i_new := True\<rparr>)
                     (st\<lparr>icache := (icache st)(ino \<mapsto> a)\<rparr>)))))"

text \<open>
  \<open>insert_inode_locked\<close> refuses an inode number that is in the hash already (\<open>-EBUSY\<close>).
\<close>

definition insert_inode_locked :: "nat \<Rightarrow> ffs_state \<Rightarrow> (int \<times> ffs_state) res" where
  "insert_inode_locked a st =
     bind_res (FFS_I st (Some a)) (\<lambda>(a, fi).
     case icache st (i_ino fi) of
       Some _ \<Rightarrow> Inr (- 16, st)
     | None \<Rightarrow> Inr (0, put_inode a (fi\<lparr>i_new := True\<rparr>) (st\<lparr>icache := (icache st)(i_ino fi \<mapsto> a)\<rparr>)))"

definition unlock_new_inode :: "nat option \<Rightarrow> ffs_state \<Rightarrow> ffs_state res" where
  "unlock_new_inode = upd_inode (\<lambda>fi. fi\<lparr>i_new := False\<rparr>)"

definition ffs_i_callback :: "nat \<Rightarrow> ffs_state \<Rightarrow> ffs_state" where
  "ffs_i_callback a st = st\<lparr>inodes := (inodes st)(a := None)\<rparr>"

definition ffs_destroy_inode :: "nat list \<Rightarrow> nat \<Rightarrow> nat list" where
  "ffs_destroy_inode rcu a = rcu @ [a]"

section \<open>Completion of a write\<close>

text \<open>
  The end-of-I/O handler of the write that an unlink submits: it gives the slot back to the table
  of the directory. The completion is an event of its own; \<open>io_uptodate\<close> is the outcome the device
  reports.
\<close>

definition tbl_index :: "nat \<Rightarrow> int \<Rightarrow> nat res" where
  "tbl_index n i = (if 0 \<le> i \<and> i < int n then Inr (nat i) else Inl OutOfBounds)"

definition callback_for_discard :: "platform \<Rightarrow> ffs_io_end \<Rightarrow> flatfs_sb_info \<Rightarrow> flatfs_sb_info res" where
  "callback_for_discard P fi sb =
     (if io_is_big_dir fi = 0
      then bind_res (tbl_index NR_DIRS (io_dir_id fi)) (\<lambda>d.
           case hashtbl sb d of
             None \<Rightarrow> Inl NullDeref
           | Some t \<Rightarrow>
               bind_res (delete_file P t (io_bucket_id fi) (io_slot_id fi)) (\<lambda>(err, t).
               Inr (sb\<lparr>hashtbl := (hashtbl sb)(d \<mapsto> t)\<rparr>)))
      else bind_res (tbl_index NR_BIG_DIRS (io_big_dir_id fi)) (\<lambda>g.
           case big_dir_hashtbl sb g of
             None \<Rightarrow> Inl NullDeref
           | Some t \<Rightarrow>
               bind_res (delete_big_file P t (io_bucket_id fi) (io_slot_id fi)) (\<lambda>(err, t).
               Inr (sb\<lparr>big_dir_hashtbl := (big_dir_hashtbl sb)(g \<mapsto> t)\<rparr>))))"

text \<open>\<open>end_buffer_write_sync\<close> records the outcome, unlocks the buffer and drops the reference.\<close>

definition end_buffer_write_sync :: "u64 option \<Rightarrow> bool \<Rightarrow> buffers \<Rightarrow> buffers res" where
  "end_buffer_write_sync p uptodate =
     upd_bh (\<lambda>b. b\<lparr>b_uptodate := uptodate, b_locked := False, b_count := b_count b - 1\<rparr>) p"

definition define_callback_for_discard :: "platform \<Rightarrow> u64 \<Rightarrow> bool \<Rightarrow> ffs_state \<Rightarrow> ffs_state res" where
  "define_callback_for_discard P bh uptodate st =
     bind_res (get_bh (bufs st) (Some bh)) (\<lambda>(n, b).
     case b_private b of
       None \<Rightarrow> Inl NullDeref
     | Some io \<Rightarrow>
         bind_res (callback_for_discard P io (sbi st)) (\<lambda>sb.
         bind_res (end_buffer_write_sync (Some bh) uptodate (bufs st)) (\<lambda>bf.
         Inr (st\<lparr>sbi := sb, bufs := bf\<rparr>))))"

definition io_complete :: "platform \<Rightarrow> u64 \<Rightarrow> ffs_state \<Rightarrow> ffs_state res" where
  "io_complete P bh st =
     bind_res (define_callback_for_discard P bh (io_uptodate st) st) (\<lambda>st.
     Inr (st\<lparr>pending := remove1 bh (pending st)\<rparr>))"

text \<open>
  Taking the lock of a buffer that is being written waits for the completion of the write; if no
  write is in flight, nobody will unlock it.
\<close>

definition lock_buffer_wait :: "platform \<Rightarrow> u64 option \<Rightarrow> ffs_state \<Rightarrow> ffs_state res" where
  "lock_buffer_wait P p st =
     bind_res (get_bh (bufs st) p) (\<lambda>(n, b).
     bind_res (if b_locked b \<and> n \<in> set (pending st) then io_complete P n st else Inr st) (\<lambda>st.
     bind_res (lock_buffer p (bufs st)) (\<lambda>bf. Inr (st\<lparr>bufs := bf\<rparr>))))"

text \<open>\<open>wait_on_buffer\<close> waits in the same way; it reads the lock bit, so it needs a buffer head.\<close>

definition wait_on_buffer :: "platform \<Rightarrow> u64 option \<Rightarrow> ffs_state \<Rightarrow> ffs_state res" where
  "wait_on_buffer P p st =
     bind_res (get_bh (bufs st) p) (\<lambda>(n, b).
     if \<not> b_locked b then Inr st
     else if n \<in> set (pending st) then io_complete P n st
     else Inl Deadlock)"

section \<open>Copying an inode into its block\<close>

definition inode_pblk :: "platform \<Rightarrow> ffs_inode_info \<Rightarrow> lba_t" where
  "inode_pblk P fi =
     (if fi_bucket_id fi \<ge> 0
      then if fi_is_big_dir fi = 0 then ffs_get_lba_meta P (pos_of fi) else ffs_get_big_file_lba_meta P (pos_of fi)
      else ffs_get_lba_dir_meta (word_of_int (fi_bucket_id fi)) (fi_dir_id fi))"

text \<open>
  The guard on the name length compares an unsigned byte with 480. A slot other than -1 addresses
  an element of the inode page and marks it in the page's bitmap.
\<close>

definition fill_raw_inode :: "ffs_inode_info \<Rightarrow> bytes \<Rightarrow> bytes res" where
  "fill_raw_inode fi blk =
     (if fi_valid fi = 0 then Inr blk
      else if unat (name_len (fi_filename fi)) > FFS_MAX_FILENAME_LEN then Inr blk
      else let ri = \<lparr>ri_valid = fi_valid fi, ri_size = i_size fi, ri_filename = fi_filename fi\<rparr>
      in if fi_slot_id fi = - 1 then write_raw blk 0 ri
      else if fi_slot_id fi < 0 then Inl OutOfBounds
      else bind_res (page_slot_bitmap blk) (\<lambda>bm.
           bind_res (put_slot_bitmap blk (bitmap_set bm (nat (fi_slot_id fi)) 1)) (\<lambda>blk.
           write_raw blk (slot_off (nat (fi_slot_id fi))) ri)))"

definition ffs_dirty_inode :: "platform \<Rightarrow> nat option \<Rightarrow> ffs_state \<Rightarrow> ffs_state res" where
  "ffs_dirty_inode P inode st =
     bind_res (FFS_I st inode) (\<lambda>(a, fi).
     if \<not> bd_inode st then Inr st
     else let (ibh, bf) = sb_bread (bufs st) (inode_pblk P fi) in
     bind_res (lock_buffer_wait P ibh (st\<lparr>bufs := bf\<rparr>)) (\<lambda>st.
     bind_res (get_bh (bufs st) ibh) (\<lambda>(n, b).
     bind_res (fill_raw_inode fi (b_data b)) (\<lambda>blk.
     let bf = (bufs st)(n \<mapsto> b\<lparr>b_data := blk\<rparr>) in
     bind_res (get_bh bf ibh) (\<lambda>(n, b).
     bind_res (if \<not> b_uptodate b then set_buffer_uptodate ibh bf else Inr bf) (\<lambda>bf.
     bind_res (unlock_buffer ibh bf) (\<lambda>bf.
     bind_res (mark_buffer_dirty ibh bf) (\<lambda>bf.
     Inr (st\<lparr>bufs := brelse ibh bf\<rparr>)))))))))"

text \<open>\<open>mark_inode_dirty\<close> of a dirtied inode calls the dirty-inode hook of the file system.\<close>

definition mark_inode_dirty :: "platform \<Rightarrow> nat option \<Rightarrow> ffs_state \<Rightarrow> ffs_state res" where
  "mark_inode_dirty P inode st = ffs_dirty_inode P inode st"

definition inc_nlink :: "nat option \<Rightarrow> ffs_state \<Rightarrow> ffs_state res" where
  "inc_nlink = upd_inode (\<lambda>fi. fi\<lparr>i_nlink := i_nlink fi + 1\<rparr>)"

definition drop_nlink :: "nat option \<Rightarrow> ffs_state \<Rightarrow> ffs_state res" where
  "drop_nlink = upd_inode (\<lambda>fi. fi\<lparr>i_nlink := i_nlink fi - 1\<rparr>)"

definition inode_inc_link_count :: "platform \<Rightarrow> nat option \<Rightarrow> ffs_state \<Rightarrow> ffs_state res" where
  "inode_inc_link_count P inode st = bind_res (inc_nlink inode st) (mark_inode_dirty P inode)"

definition inode_dec_link_count :: "platform \<Rightarrow> nat option \<Rightarrow> ffs_state \<Rightarrow> ffs_state res" where
  "inode_dec_link_count P inode st = bind_res (drop_nlink inode st) (mark_inode_dirty P inode)"

section \<open>Constructing inodes\<close>

definition S_IFMT :: u16 where "S_IFMT = 0xF000"
definition S_IFDIR :: u16 where "S_IFDIR = 0x4000"
definition S_IFREG :: u16 where "S_IFREG = 0x8000"

lemmas mode_simps = S_IFMT_def S_IFDIR_def S_IFREG_def

text \<open>
  The \<open>switch\<close> on the file type; \<open>init_special_inode\<close> installs the operations of a device, pipe or
  socket and records the device number.
\<close>

definition set_ops :: "u16 \<Rightarrow> u32 \<Rightarrow> ffs_inode_info \<Rightarrow> ffs_inode_info" where
  "set_ops mode dev fi =
     (if mode AND S_IFMT = S_IFREG then fi\<lparr>i_op := FileOps\<rparr>
      else if mode AND S_IFMT = S_IFDIR then fi\<lparr>i_op := DirOps, i_nlink := i_nlink fi + 1\<rparr>
      else fi\<lparr>i_op := SpecialOps, i_mode := mode, i_rdev := dev\<rparr>)"

definition init_vfs_inode :: "kenv \<Rightarrow> u16 \<Rightarrow> u32 \<Rightarrow> ffs_inode_info \<Rightarrow> ffs_inode_info" where
  "init_vfs_inode K mode dev fi =
     set_ops mode dev (fi\<lparr>i_mode := mode, i_uid := k_uid K, i_gid := k_gid K, i_size := 0,
       i_atime := k_now K, i_mtime := k_now K, i_ctime := k_now K\<rparr>)"

definition flatfs_get_inode :: "kenv \<Rightarrow> u16 \<Rightarrow> u32 \<Rightarrow> ffs_state \<Rightarrow> nat option \<times> ffs_state" where
  "flatfs_get_inode K mode dev st =
     (let (p, st) = new_inode K st
      in case p of
           None \<Rightarrow> (None, st)
         | Some a \<Rightarrow>
             (case inodes st a of
                None \<Rightarrow> (p, st)
              | Some fi \<Rightarrow> (p, put_inode a (init_vfs_inode K mode dev fi) st)))"

text \<open>
  \<open>flatfs_iget\<close> is only used for the root directory. It reads the root's block and computes a
  pointer to its data, so that a block that cannot be read is a null dereference, but takes
  nothing from it. The reference to the buffer is not dropped.
\<close>

definition flatfs_iget :: "kenv \<Rightarrow> u16 \<Rightarrow> u32 \<Rightarrow> ffs_state \<Rightarrow> (nat option \<times> ffs_state) res" where
  "flatfs_iget K mode dev st =
     (let (p, st) = iget_locked K (dir_id_to_inode FLATFS_ROOT_INO) st in
      case p of
        None \<Rightarrow> Inr (None, st)
      | Some a \<Rightarrow>
          let pblk = ffs_get_lba_dir_meta (dir_id_to_inode FLATFS_ROOT_INO) (cint (uint FLATFS_ROOT_INO));
              (bh, bf) = sb_bread (bufs st) pblk; st = st\<lparr>bufs := bf\<rparr> in
          bind_res (get_bh bf bh) (\<lambda>_.
          bind_res (FFS_I st p) (\<lambda>(a, ei).
          bind_res (memcpy (fname (fi_filename ei)) [47, 0] 1) (\<lambda>nm.
          bind_res (my_strlen [47, 0]) (\<lambda>n.
          Inr (p, put_inode a (init_vfs_inode K mode dev
            (ei\<lparr>fi_valid := 1, fi_bucket_id := - 1, fi_dir_id := cint (uint FLATFS_ROOT_INO), fi_is_big_dir := 0,
                fi_big_dir_id := - 1, fi_test := 0, fi_slot_id := 0,
                fi_filename := \<lparr>name_len = word_of_int n, fname = nm\<rparr>\<rparr>)) st))))))"

section \<open>Free addresses\<close>

lemma inode_next_free: "slab_ok st \<Longrightarrow> inodes st (inode_next st) = None"
  by (simp add: slab_ok_def inode_next_def)

lemma inode_next_other: "slab_ok st \<Longrightarrow> inodes st d = Some dfi \<Longrightarrow> inode_next st \<noteq> d \<and> d \<noteq> inode_next st"
  using inode_next_free [of st] by auto

lemma inode_next_frame [simp]:
  "inode_next (st\<lparr>sbi := x\<rparr>) = inode_next st" "inode_next (st\<lparr>bufs := y\<rparr>) = inode_next st" "inode_next (st\<lparr>icache := z\<rparr>) = inode_next st"
  "inode_next (st\<lparr>pending := u\<rparr>) = inode_next st"
  by (simp_all add: inode_next_def)

lemma slab_ok_frame [simp]:
  "slab_ok (st\<lparr>sbi := x\<rparr>) = slab_ok st" "slab_ok (st\<lparr>bufs := y\<rparr>) = slab_ok st" "slab_ok (st\<lparr>icache := z\<rparr>) = slab_ok st"
  "slab_ok (st\<lparr>pending := u\<rparr>) = slab_ok st" "slab_ok (put_inode a fi st) = slab_ok st"
  by (simp_all add: slab_ok_def put_inode_def)

lemma slab_ok_inodes: "slab_ok st \<Longrightarrow> slab st' = slab st \<Longrightarrow> dom (inodes st') \<subseteq> insert a (dom (inodes st)) \<Longrightarrow> slab_ok st'"
  by (auto simp: slab_ok_def intro: finite_subset)

end
