(* ===== verification/File_Lookup.thy ===== *)
theory File_Lookup
  imports Inode_State
begin

text \<open>
  Finding and listing files (\<open>lba.c\<close>, \<open>file.c\<close>): the name of a file is only in the inode page of
  its bucket, so a lookup reads that page and compares the eight stored names, and a listing reads
  one block per non-empty bucket. A null pointer to a table is \<open>None\<close>. Waiting for a buffer may run the completion of a
  write, which changes the tables, so a listing reads its table anew for every bucket.
\<close>

section \<open>Looking up a file\<close>

text \<open>The scan of a slot bitmap for a used slot.\<close>

definition first_slot :: "bitmap \<Rightarrow> nat option" where
  "first_slot bm = find (\<lambda>slt. test_bit slt bm) [0..<FILE_SLOT_NUM]"

text \<open>The comparison loop over the names of an inode page.\<close>

fun match_slot :: "bytes \<Rightarrow> bytes \<Rightarrow> nat list \<Rightarrow> nat option res" where
  "match_slot blk filename [] = Inr None"
| "match_slot blk filename (slt # slts) =
     bind_res (strcmp_eq filename (drop (slot_off slt + 17) blk)) (\<lambda>m.
     if m then Inr (Some slt) else match_slot blk filename slts)"

definition seg_in_page :: "u64 \<Rightarrow> bytes \<Rightarrow> bytes \<Rightarrow> u64 res" where
  "seg_in_page bucket_id blk filename =
     bind_res (match_slot blk filename [0..<FILE_SLOT_NUM]) (\<lambda>m.
     case m of
       None \<Rightarrow> Inr 0
     | Some slt \<Rightarrow> Inr ((0 OR of_nat slt) OR push_bit FILE_SLOT_BITS bucket_id))"

text \<open>
  The functions also take pointers \<open>raw_inode\<close> and \<open>bh\<close> by value; what they assign to them does not
  reach the caller. \<open>wait_on_buffer\<close> comes before the test for a null buffer.
\<close>

definition get_file_seg ::
  "platform \<Rightarrow> ffs_inode_info \<Rightarrow> HashTable option \<Rightarrow> bytes \<Rightarrow> ffs_state \<Rightarrow> (u64 \<times> ffs_state) res" where
  "get_file_seg P fi file_ht filename st =
     bind_res (BKDRHash filename) (\<lambda>hashcode.
     let bucket_id = ht_bucket_id hashcode in
     bind_res (my_strlen filename) (\<lambda>namelen.
     case file_ht of
       None \<Rightarrow> Inl NullDeref
     | Some t \<Rightarrow>
         (case first_slot (slot_bitmap (ht_buckets t (unat bucket_id))) of
            None \<Rightarrow> Inr (0, st)
          | Some _ \<Rightarrow>
              let pblk = compose_lba P (fi_dir_id fi) (cint (uint bucket_id)) 0 0; (bh, bf) = sb_bread (bufs st) pblk in
              bind_res (wait_on_buffer P bh (st\<lparr>bufs := bf\<rparr>)) (\<lambda>st.
              bind_res (get_bh (bufs st) bh) (\<lambda>(n, b).
              bind_res (seg_in_page bucket_id (b_data b) filename) (\<lambda>file_seg. Inr (file_seg, st)))))))"

definition get_big_file_seg ::
  "platform \<Rightarrow> ffs_inode_info \<Rightarrow> Big_Dir_HashTable option \<Rightarrow> bytes \<Rightarrow> ffs_state \<Rightarrow> (u64 \<times> ffs_state) res" where
  "get_big_file_seg P fi file_ht filename st =
     bind_res (BKDRHash filename) (\<lambda>hashcode.
     let bucket_id = bt_bucket_id hashcode in
     bind_res (my_strlen filename) (\<lambda>namelen.
     case file_ht of
       None \<Rightarrow> Inl NullDeref
     | Some t \<Rightarrow>
         (case first_slot (slot_bitmap (bt_buckets t (unat bucket_id))) of
            None \<Rightarrow> Inr (0, st)
          | Some _ \<Rightarrow>
              let pblk = compose_big_file_lba P (fi_dir_id fi) (cint (uint bucket_id)) 0 0; (bh, bf) = sb_bread (bufs st) pblk in
              bind_res (wait_on_buffer P bh (st\<lparr>bufs := bf\<rparr>)) (\<lambda>st.
              bind_res (get_bh (bufs st) bh) (\<lambda>(n, b).
              bind_res (seg_in_page bucket_id (b_data b) filename) (\<lambda>file_seg. Inr (file_seg, st)))))))"

definition flatfs_file_inode_by_name ::
  "platform \<Rightarrow> HashTable option \<Rightarrow> ffs_inode_info \<Rightarrow> int \<Rightarrow> qstr \<Rightarrow> ffs_state \<Rightarrow> (u64 \<times> ffs_state) res" where
  "flatfs_file_inode_by_name P tbl parent parent_dir_id child st =
     bind_res (get_file_seg P parent tbl (q_name child) st) (\<lambda>(file_seg, st).
     if file_seg = 0 then Inr (0, st)
     else Inr (file_seg OR word_of_int (cint (push_bit (FILE_SLOT_BITS + MIN_FILE_BUCKET_BITS) parent_dir_id)), st))"

definition flatfs_big_file_inode_by_name ::
  "platform \<Rightarrow> Big_Dir_HashTable option \<Rightarrow> ffs_inode_info \<Rightarrow> int \<Rightarrow> qstr \<Rightarrow> ffs_state \<Rightarrow> (u64 \<times> ffs_state) res" where
  "flatfs_big_file_inode_by_name P tbl parent parent_dir_id child st =
     bind_res (get_big_file_seg P parent tbl (q_name child) st) (\<lambda>(file_seg, st).
     if file_seg = 0 then Inr (0, st)
     else Inr (file_seg OR
       word_of_int (cint (push_bit (FILE_SLOT_BITS + MIN_FILE_BUCKET_BITS + MIN_DIR_BITS) parent_dir_id)), st))"

section \<open>Listing files\<close>

text \<open>
  \<open>base\<close> is \<open>dir_id << bits\<close>, the part of an inode number that comes from the directory. A file's
  number doubles as the number of the block its bucket's names are read from.
\<close>

definition slot_ino :: "u64 \<Rightarrow> nat \<Rightarrow> nat \<Rightarrow> u64" where
  "slot_ino base bkt slt = of_nat slt + push_bit FILE_SLOT_BITS (of_nat bkt + base)"

definition FT_UNKNOWN :: u8 where "FT_UNKNOWN = 0"

text \<open>
  One pass over slots of a bucket. The name is taken at \<open>slt * 512\<close> in the block. \<open>hpos\<close> is the
  \<open>pos\<close> field of the table.
\<close>

fun emit_slots ::
  "'c actor \<Rightarrow> (nat \<Rightarrow> bucket) \<Rightarrow> u64 \<Rightarrow> nat \<Rightarrow> bytes \<Rightarrow> nat list \<Rightarrow> int \<Rightarrow> 'c dir_context \<Rightarrow> (int \<times> 'c dir_context) res" where
  "emit_slots actor bs base bkt blk [] hpos ctx = Inr (hpos, ctx)"
| "emit_slots actor bs base bkt blk (slt # slts) hpos ctx =
     (if test_bit slt (slot_bitmap (bs bkt))
      then bind_res (get_bytes blk (slt * 512 + 16) 1) (\<lambda>l.
           bind_res (dir_emit actor ctx (drop (slt * 512 + 17) blk) (uint (hd l)) (le32_to_cpu (slot_ino base bkt slt)) FT_UNKNOWN) (\<lambda>(ok, ctx).
           emit_slots actor bs base bkt blk slts (hpos + 1) (ctx\<lparr>ctx_pos := ctx_pos ctx + 1\<rparr>)))
      else emit_slots actor bs base bkt blk slts hpos ctx)"

text \<open>
  The loop over the remaining buckets; \<open>ibh\<close> is the buffer of the last bucket that was read, and \<open>tbl\<close> reads the
  buckets of the table in a state.
\<close>

fun emit_buckets ::
  "platform \<Rightarrow> 'c actor \<Rightarrow> (ffs_state \<Rightarrow> (nat \<Rightarrow> bucket) res) \<Rightarrow> u64 \<Rightarrow> nat list \<Rightarrow> u64 option \<Rightarrow> ffs_state \<Rightarrow> int \<Rightarrow> 'c dir_context \<Rightarrow>
    (u64 option \<times> ffs_state \<times> int \<times> 'c dir_context) res" where
  "emit_buckets P actor tbl base [] ibh st hpos ctx = Inr (ibh, st, hpos, ctx)"
| "emit_buckets P actor tbl base (bkt # bkts) ibh st hpos ctx =
     bind_res (tbl st) (\<lambda>bs.
     case first_slot (slot_bitmap (bs bkt)) of
       None \<Rightarrow> emit_buckets P actor tbl base bkts ibh st hpos ctx
     | Some slt \<Rightarrow>
         let (ibh, bf) = sb_bread (bufs st) (slot_ino base bkt slt) in
         bind_res (wait_on_buffer P ibh (st\<lparr>bufs := bf\<rparr>)) (\<lambda>st.
         bind_res (get_bh (bufs st) ibh) (\<lambda>(n, b).
         bind_res (tbl st) (\<lambda>bs.
         bind_res (emit_slots actor bs base bkt (b_data b) [0..<FILE_SLOT_NUM] hpos ctx) (\<lambda>(hpos, ctx).
         emit_buckets P actor tbl base bkts ibh st hpos ctx)))))"

text \<open>The two nested loops that move to the entry after the first \<open>hpos\<close> ones.\<close>

fun skip_slots :: "bitmap \<Rightarrow> int \<Rightarrow> int \<Rightarrow> nat list \<Rightarrow> int \<times> nat" where
  "skip_slots bm hpos pos [] = (pos, FILE_SLOT_NUM)"
| "skip_slots bm hpos pos (slt # slts) =
     (if pos \<ge> hpos then (pos, slt) else skip_slots bm hpos (if test_bit slt bm then pos + 1 else pos) slts)"

fun skip_buckets :: "(nat \<Rightarrow> bucket) \<Rightarrow> nat \<Rightarrow> int \<Rightarrow> int \<Rightarrow> nat list \<Rightarrow> nat \<times> nat" where
  "skip_buckets bs nb hpos pos [] = (nb, FILE_SLOT_NUM)"
| "skip_buckets bs nb hpos pos (bkt # bkts) =
     (let (pos, slt) = skip_slots (slot_bitmap (bs bkt)) hpos pos [0..<FILE_SLOT_NUM]
      in if pos \<ge> hpos then (bkt, slt) else skip_buckets bs nb hpos pos bkts)"

definition read_files ::
  "platform \<Rightarrow> 'c actor \<Rightarrow> (ffs_state \<Rightarrow> (nat \<Rightarrow> bucket) res) \<Rightarrow> nat \<Rightarrow> u64 \<Rightarrow> ffs_state \<Rightarrow> int \<Rightarrow> 'c dir_context \<Rightarrow>
    (ffs_state \<times> int \<times> 'c dir_context) res" where
  "read_files P actor tbl nb base st hpos ctx =
     bind_res
       (if hpos = 0 then emit_buckets P actor tbl base [0..<nb] None st hpos ctx
        else bind_res (tbl st) (\<lambda>bs.
             let (bkt, slt) = skip_buckets bs nb hpos 0 [0..<nb];
                 (ibh, bf) = sb_bread (bufs st) (push_bit FILE_SLOT_BITS (of_nat bkt + base)) in
             bind_res (wait_on_buffer P ibh (st\<lparr>bufs := bf\<rparr>)) (\<lambda>st.
             bind_res (get_bh (bufs st) ibh) (\<lambda>(n, b).
             bind_res (tbl st) (\<lambda>bs.
             bind_res (emit_slots actor bs base bkt (b_data b) [slt..<FILE_SLOT_NUM] hpos ctx) (\<lambda>(hpos, ctx).
             emit_buckets P actor tbl base [Suc bkt..<nb] ibh st hpos ctx))))))
       (\<lambda>(ibh, st, hpos, ctx). Inr (st\<lparr>bufs := brelse ibh (bufs st)\<rparr>, hpos, ctx))"

definition ht_at :: "nat \<Rightarrow> ffs_state \<Rightarrow> HashTable res" where
  "ht_at d st = (case hashtbl (sbi st) d of None \<Rightarrow> Inl NullDeref | Some t \<Rightarrow> Inr t)"

definition bt_at :: "nat \<Rightarrow> ffs_state \<Rightarrow> Big_Dir_HashTable res" where
  "bt_at g st = (case big_dir_hashtbl (sbi st) g of None \<Rightarrow> Inl NullDeref | Some t \<Rightarrow> Inr t)"

definition read_dir_files :: "platform \<Rightarrow> 'c actor \<Rightarrow> nat \<Rightarrow> u64 \<Rightarrow> ffs_state \<Rightarrow> 'c dir_context \<Rightarrow> (int \<times> ffs_state \<times> 'c dir_context) res" where
  "read_dir_files P actor d ino st ctx =
     (let dir_id = drop_bit (MIN_FILE_BUCKET_BITS + FILE_SLOT_BITS) (ino - 1); tbl = (\<lambda>st. bind_res (ht_at d st) (\<lambda>t. Inr (ht_buckets t))) in
      bind_res (ht_at d st) (\<lambda>t.
      bind_res (read_files P actor tbl NR_BUCKETS (push_bit MIN_FILE_BUCKET_BITS dir_id) st (ht_pos t) ctx) (\<lambda>(st, hpos, ctx).
      bind_res (ht_at d st) (\<lambda>t.
      Inr (0, st\<lparr>sbi := (sbi st)\<lparr>hashtbl := (hashtbl (sbi st))(d \<mapsto> t\<lparr>ht_pos := hpos\<rparr>)\<rparr>\<rparr>, ctx)))))"

definition read_big_dir_files :: "platform \<Rightarrow> 'c actor \<Rightarrow> nat \<Rightarrow> u64 \<Rightarrow> ffs_state \<Rightarrow> 'c dir_context \<Rightarrow> (int \<times> ffs_state \<times> 'c dir_context) res" where
  "read_big_dir_files P actor g ino st ctx =
     (let dir_id = drop_bit (MIN_FILE_BUCKET_BITS + FILE_SLOT_BITS) (ino - 1); tbl = (\<lambda>st. bind_res (bt_at g st) (\<lambda>t. Inr (bt_buckets t))) in
      bind_res (bt_at g st) (\<lambda>t.
      bind_res (read_files P actor tbl NR_BIG_BUCKETS (push_bit (MIN_FILE_BUCKET_BITS + MIN_DIR_BITS) dir_id) st (bt_pos t) ctx) (\<lambda>(st, hpos, ctx).
      bind_res (bt_at g st) (\<lambda>t.
      Inr (0, st\<lparr>sbi := (sbi st)\<lparr>big_dir_hashtbl := (big_dir_hashtbl (sbi st))(g \<mapsto> t\<lparr>bt_pos := hpos\<rparr>)\<rparr>\<rparr>, ctx)))))"

section \<open>Listing a directory\<close>

text \<open>The start of \<open>ffs_readdir\<close>: a listing from the beginning resets the cursors of the tables.\<close>

definition reset_cursors :: "ffs_inode_info \<Rightarrow> flatfs_sb_info \<Rightarrow> flatfs_sb_info res" where
  "reset_cursors dfi sb =
     bind_res (tbl_index NR_DIRS (fi_dir_id dfi)) (\<lambda>d.
     case hashtbl sb d of
       None \<Rightarrow> Inl NullDeref
     | Some t \<Rightarrow>
         let sb = sb\<lparr>hashtbl := (hashtbl sb)(d \<mapsto> t\<lparr>ht_pos := 0\<rparr>)\<rparr> in
         if fi_is_big_dir dfi = 0 then Inr sb
         else bind_res (tbl_index NR_BIG_DIRS (fi_big_dir_id dfi)) (\<lambda>g.
              case big_dir_hashtbl sb g of
                None \<Rightarrow> Inl NullDeref
              | Some t \<Rightarrow> Inr (sb\<lparr>big_dir_hashtbl := (big_dir_hashtbl sb)(g \<mapsto> t\<lparr>bt_pos := 0\<rparr>)\<rparr>)))"

definition ffs_readdir ::
  "platform \<Rightarrow> 'c actor \<Rightarrow> nat option \<Rightarrow> ffs_state \<Rightarrow> 'c dir_context \<Rightarrow> (int \<times> ffs_state \<times> 'c dir_context) res" where
  "ffs_readdir P actor ino st ctx =
     bind_res (FFS_I st ino) (\<lambda>(a, dfi).
     let dir_ino = word_of_int (cint (push_bit (MIN_FILE_BUCKET_BITS + FILE_SLOT_BITS) (fi_dir_id dfi)) + 1) in
     bind_res (if ctx_pos ctx = 0 then reset_cursors dfi (sbi st) else Inr (sbi st)) (\<lambda>sb.
     bind_res (read_dir_dirs actor sb dir_ino ctx) (\<lambda>(_, sb, ctx).
     bind_res (tbl_index NR_DIRS (fi_dir_id dfi)) (\<lambda>d.
     bind_res (read_dir_files P actor d dir_ino (st\<lparr>sbi := sb\<rparr>) ctx) (\<lambda>(_, st, ctx).
     if fi_is_big_dir dfi = 0 then Inr (0, st, ctx)
     else bind_res (tbl_index NR_BIG_DIRS (fi_big_dir_id dfi)) (\<lambda>g.
          bind_res (read_big_dir_files P actor g dir_ino st ctx) (\<lambda>(_, st, ctx). Inr (0, st, ctx))))))))"

end
