(* ===== verification/Inode_Ops.thy ===== *)
theory Inode_Ops
  imports File_Lookup
begin

text \<open>
  The inode operations of \<open>inode.c\<close>: lookup, mknod (with create and mkdir on top of it), unlink
  with its asynchronous completion, and rmdir. An operation returns the C return value, the new
  state and, where it instantiates a dentry, the address of the inode it bound to it.
\<close>

section \<open>Searching the eight blocks of a bucket\<close>

text \<open>
  \<open>ll_rw_block\<close> takes the lock of each buffer it is given, so it needs all of them; buffers that
  \<open>sb_bread\<close> returned are up to date and are left as they are.
\<close>

fun bread_blocks :: "nat \<Rightarrow> u64 \<Rightarrow> buffers \<Rightarrow> u64 option list \<times> buffers" where
  "bread_blocks 0 slba bf = ([], bf)"
| "bread_blocks (Suc n) slba bf =
     (let (p, bf) = sb_bread bf slba; (ps, bf) = bread_blocks n (slba + 1) bf in (p # ps, bf))"

fun ll_rw_block :: "u64 option list \<Rightarrow> buffers \<Rightarrow> buffers res" where
  "ll_rw_block [] bf = Inr bf"
| "ll_rw_block (p # ps) bf = bind_res (get_bh bf p) (\<lambda>_. ll_rw_block ps bf)"

fun wait_all :: "platform \<Rightarrow> u64 option list \<Rightarrow> ffs_state \<Rightarrow> ffs_state res" where
  "wait_all P [] st = Inr st"
| "wait_all P (None # ps) st = wait_all P ps st"
| "wait_all P (Some p # ps) st = bind_res (wait_on_buffer P (Some p) st) (wait_all P ps)"

text \<open>
  The search loop: the slot and the buffers of the first valid inode with the name, or the first
  free slot (\<open>free\<close>, uninitialised before the first one is seen). A match locks its buffer twice.
\<close>

fun find_inode_loop ::
  "platform \<Rightarrow> bytes \<Rightarrow> nat \<Rightarrow> u64 option list \<Rightarrow> bool \<Rightarrow> int \<Rightarrow> ffs_state \<Rightarrow> ((nat \<times> u64 option) option \<times> int \<times> ffs_state) res" where
  "find_inode_loop P name i [] first_time free st = Inr (None, free, st)"
| "find_inode_loop P name i (p # ps) first_time free st =
     bind_res (get_bh (bufs st) p) (\<lambda>(n, b).
     bind_res (read_raw (b_data b) 0) (\<lambda>temp.
     if ri_valid temp = 0
     then find_inode_loop P name (Suc i) ps False (if first_time then int i else free) st
     else bind_res (my_strlen name) (\<lambda>len.
          bind_res (if uint (name_len (ri_filename temp)) = len then strcmp_eq (fname (ri_filename temp)) name else Inr False) (\<lambda>m.
          if m
          then bind_res (lock_buffer_wait P p st) (\<lambda>st.
               bind_res (get_bh (bufs st) p) (\<lambda>(n, b).
               bind_res (if \<not> b_uptodate b then set_buffer_uptodate p (bufs st) else Inr (bufs st)) (\<lambda>bf.
               bind_res (lock_buffer_wait P p (st\<lparr>bufs := bf\<rparr>)) (\<lambda>st. Inr (Some (i, p), free, st)))))
          else find_inode_loop P name (Suc i) ps first_time free st))))"

definition ffs_find_get_inode_file ::
  "platform \<Rightarrow> u64 \<Rightarrow> bytes \<Rightarrow> int \<Rightarrow> ffs_state \<Rightarrow> (u64 option \<times> int \<times> ffs_state) res" where
  "ffs_find_get_inode_file P slba name junk st =
     (let (bhs, bf) = bread_blocks (unat SLOTS_PER_BUCKET) (drop_bit BLOCK_SHIFT slba) (bufs st) in
      bind_res (ll_rw_block bhs bf) (\<lambda>bf.
      bind_res (wait_all P bhs (st\<lparr>bufs := bf\<rparr>)) (\<lambda>st.
      bind_res (find_inode_loop P name 0 bhs True junk st) (\<lambda>(r, free_slot_id, st).
      case r of
        None \<Rightarrow> Inr (None, free_slot_id, st)
      | Some (index, p) \<Rightarrow>
          Inr (p, int index, st\<lparr>bufs := fold brelse (map snd (filter (\<lambda>(i, q). i \<noteq> index) (enumerate 0 bhs))) (bufs st)\<rparr>)))))"

definition ffs_get_inode_dir :: "u64 \<Rightarrow> buffers \<Rightarrow> u64 option \<times> buffers" where
  "ffs_get_inode_dir slba bf = sb_bread bf (drop_bit BLOCK_SHIFT slba)"

section \<open>Lookup\<close>

datatype lookup_result = LookupNull | LookupErr int | Splice "nat option"

text \<open>
  Filling an inode from its raw image. The local \<open>raw_inode\<close> of \<open>ffs_lookup\<close> starts as null and is
  only passed by value, so this part of the function is never reached.
\<close>

definition fill_from_raw ::
  "kenv \<Rightarrow> u32 \<Rightarrow> ffs_inode_info \<Rightarrow> int \<Rightarrow> int \<Rightarrow> int \<Rightarrow> ffs_inode \<Rightarrow> ffs_inode_info \<Rightarrow> ffs_inode_info" where
  "fill_from_raw K dev dir did bucket_id slot_id raw_inode fi =
     fi\<lparr>fi_dir_id := did, fi_valid := 1, i_size := ri_size raw_inode, i_atime := k_now K, i_mtime := k_now K,
        i_ctime := k_now K, i_uid := i_uid dir, i_gid := i_gid dir, i_rdev := dev, fi_bucket_id := bucket_id,
        fi_slot_id := slot_id, i_mode := i_mode fi OR S_IFREG, i_op := FileOps, i_nlink := 1\<rparr>"

text \<open>The search for the inode number: the directory tree, the file table, the extension table.\<close>

definition lookup_ino :: "platform \<Rightarrow> ffs_inode_info \<Rightarrow> qstr \<Rightarrow> ffs_state \<Rightarrow> (u64 \<times> int \<times> ffs_state) res" where
  "lookup_ino P dfi name st =
     bind_res (flatfs_dir_inode_by_name (sbi st) (i_ino dfi) name) (\<lambda>ino.
     let dir_id = cint (uint (drop_bit (MIN_FILE_BUCKET_BITS + FILE_SLOT_BITS) (ino - 1))) in
     if ino \<noteq> 0 then Inr (ino, dir_id, st)
     else bind_res (tbl_index NR_DIRS (uint (inode_to_dir_id (i_ino dfi)))) (\<lambda>d.
          bind_res (flatfs_file_inode_by_name P (hashtbl (sbi st) d) dfi dir_id name st) (\<lambda>(ino, st).
          if ino = 0 \<and> fi_is_big_dir dfi \<noteq> 0
          then bind_res (tbl_index NR_BIG_DIRS (fi_big_dir_id dfi)) (\<lambda>g.
               bind_res (flatfs_big_file_inode_by_name P (big_dir_hashtbl (sbi st) g) dfi dir_id name st) (\<lambda>(ino, st).
               Inr (ino, dir_id, st)))
          else Inr (ino, dir_id, st))))"

definition ffs_lookup :: "platform \<Rightarrow> kenv \<Rightarrow> int \<Rightarrow> nat option \<Rightarrow> qstr \<Rightarrow> ffs_state \<Rightarrow> (lookup_result \<times> ffs_state) res" where
  "ffs_lookup P K bucket_id dir name st =
     (let raw_inode = None :: ffs_inode option; slot_id = 0 in
      bind_res (FFS_I st dir) (\<lambda>(d, dfi).
      if q_len name > int FFS_MAX_FILENAME_LEN then Inr (LookupNull, st)
      else bind_res (lookup_ino P dfi name st) (\<lambda>(ino, dir_id, st).
      if ino = 0 then Inr (Splice None, st)
      else let (inode, st) = iget_locked K ino st in
      case inode of
        None \<Rightarrow> Inr (LookupErr (- 12), st)
      | Some a \<Rightarrow>
          bind_res (FFS_I st inode) (\<lambda>(a, fi).
          let st = (if \<not> i_new fi then st
                    else case raw_inode of
                           None \<Rightarrow> st
                         | Some ri \<Rightarrow> put_inode a (fill_from_raw K (s_dev st) dfi dir_id bucket_id slot_id ri fi) st) in
          bind_res (unlock_new_inode inode st) (\<lambda>st. Inr (Splice inode, st))))))"

section \<open>Making files and directories\<close>

text \<open>
  \<open>set_name\<close> is the pair of statements that store the name: its length as an unsigned byte, and as
  many bytes. A null inode is dereferenced by the first assignment to \<open>fi\<close>.
\<close>

definition set_name :: "bytes \<Rightarrow> ffs_inode_info \<Rightarrow> ffs_inode_info res" where
  "set_name name fi =
     bind_res (my_strlen name) (\<lambda>n.
     let l = word_of_int n :: u8 in
     bind_res (memcpy (fname (fi_filename fi)) name (unat l)) (\<lambda>nm.
     Inr (fi\<lparr>fi_filename := \<lparr>name_len = l, fname = nm\<rparr>\<rparr>)))"

definition mknod_dir ::
  "kenv \<Rightarrow> ffs_inode_info \<Rightarrow> bytes \<Rightarrow> nat option \<Rightarrow> ffs_state \<Rightarrow> (u64 \<times> ffs_state) res" where
  "mknod_dir K dfi name inode st =
     bind_res (fill_one_dir_entry (sbi st) name) (\<lambda>(dir_id, sb).
     bind_res (insert_dir (k_dle K) sb (word_of_int (fi_dir_id dfi)) dir_id) (\<lambda>sb.
     bind_res (tbl_index NR_DIRS (uint dir_id)) (\<lambda>d.
     bind_res (init_file_ht (k_ht K)) (\<lambda>t.
     let st = st\<lparr>sbi := sb\<lparr>hashtbl := (hashtbl sb)(d := t)\<rparr>\<rparr> in
     bind_res (FFS_I st inode) (\<lambda>(a, fi).
     bind_res (set_name name (fi\<lparr>fi_dir_id := cint (uint dir_id), fi_bucket_id := - 1, fi_slot_id := - 1, fi_valid := 1,
                                 fi_is_big_dir := 0, fi_big_dir_id := - 1\<rparr>)) (\<lambda>fi.
     Inr (push_bit (MIN_FILE_BUCKET_BITS + FILE_SLOT_BITS) dir_id + 1, put_inode a (fi\<lparr>fi_test := 0\<rparr>) st)))))))"

definition mknod_big ::
  "platform \<Rightarrow> ffs_inode_info \<Rightarrow> bytes \<Rightarrow> nat option \<Rightarrow> ffs_state \<Rightarrow> (u64 option \<times> ffs_state) res" where
  "mknod_big P dfi name inode st =
     bind_res (tbl_index NR_BIG_DIRS (fi_big_dir_id dfi)) (\<lambda>g.
     case big_dir_hashtbl (sbi st) g of
       None \<Rightarrow> Inl NullDeref
     | Some t \<Rightarrow>
         bind_res (flatfs_big_file_slot_alloc_by_name P t (fi_dir_id dfi) name) (\<lambda>(ino, t).
         let st = st\<lparr>sbi := (sbi st)\<lparr>big_dir_hashtbl := (big_dir_hashtbl (sbi st))(g \<mapsto> t)\<rparr>\<rparr> in
         if ino = - 1 then Inr (None, st)
         else bind_res (FFS_I st inode) (\<lambda>(a, fi).
              bind_res (set_name name (fi\<lparr>fi_dir_id := fi_dir_id dfi, fi_bucket_id := cint (uint (big_ino_to_bucket ino)),
                                          fi_slot_id := cint (uint (big_ino_to_slot ino)), fi_valid := 1, fi_size := 0,
                                          fi_is_big_dir := 1, fi_big_dir_id := fi_big_dir_id dfi\<rparr>)) (\<lambda>fi.
              Inr (Some ino, put_inode a fi st)))))"

text \<open>
  A full bucket turns the directory into a big one and starts over, which then takes the branch
  for big directories. \<open>None\<close> is the early \<open>return -1\<close>.
\<close>

definition mknod_file ::
  "platform \<Rightarrow> kenv \<Rightarrow> nat \<Rightarrow> ffs_inode_info \<Rightarrow> bytes \<Rightarrow> nat option \<Rightarrow> ffs_state \<Rightarrow> (u64 option \<times> ffs_state) res" where
  "mknod_file P K dir dfi name inode st =
     (if fi_is_big_dir dfi \<noteq> 0 then mknod_big P dfi name inode st
      else bind_res (tbl_index NR_DIRS (fi_dir_id dfi)) (\<lambda>d.
      case hashtbl (sbi st) d of
        None \<Rightarrow> Inl NullDeref
      | Some t \<Rightarrow>
          bind_res (flatfs_file_slot_alloc_by_name P t (fi_dir_id dfi) name) (\<lambda>(ino, t).
          let st = st\<lparr>sbi := (sbi st)\<lparr>hashtbl := (hashtbl (sbi st))(d \<mapsto> t)\<rparr>\<rparr> in
          if ino = - 1
          then bind_res (resize_dir (sbi st) (k_big K)) (\<lambda>(error, sb).
               let st = st\<lparr>sbi := sb\<rparr> in
               if error = - 1 then Inr (None, st)
               else let dfi = dfi\<lparr>fi_is_big_dir := 1, fi_big_dir_id := error\<rparr>
                    in mknod_big P dfi name inode (put_inode dir dfi st))
          else bind_res (FFS_I st inode) (\<lambda>(a, fi).
               bind_res (set_name name (fi\<lparr>fi_dir_id := fi_dir_id dfi, fi_bucket_id := cint (uint (ino_to_bucket ino)),
                                           fi_slot_id := cint (uint (ino_to_slot ino)), fi_valid := 1, fi_is_big_dir := 0,
                                           fi_big_dir_id := - 1, fi_size := 0\<rparr>)) (\<lambda>fi.
               Inr (Some ino, put_inode a fi st))))))"

definition mknod_finish :: "platform \<Rightarrow> u64 \<Rightarrow> nat option \<Rightarrow> ffs_state \<Rightarrow> (int \<times> nat option \<times> ffs_state) res" where
  "mknod_finish P ino inode st =
     bind_res (FFS_I st inode) (\<lambda>(a, fi).
     bind_res (insert_inode_locked a (put_inode a (fi\<lparr>i_ino := ino\<rparr>) st)) (\<lambda>(_, st).
     bind_res (mark_inode_dirty P inode st) (\<lambda>st.
     bind_res (unlock_new_inode inode st) (\<lambda>st.
     Inr (0, inode, st)))))"

definition ffs_mknod ::
  "platform \<Rightarrow> kenv \<Rightarrow> nat option \<Rightarrow> qstr \<Rightarrow> u16 \<Rightarrow> u32 \<Rightarrow> ffs_state \<Rightarrow> (int \<times> nat option \<times> ffs_state) res" where
  "ffs_mknod P K dir dentry mode dev st =
     (let (inode, st) = flatfs_get_inode K mode dev st in
      bind_res (FFS_I st dir) (\<lambda>(d, dfi).
      if mode AND S_IFDIR \<noteq> 0
      then bind_res (mknod_dir K dfi (q_name dentry) inode st) (\<lambda>(ino, st). mknod_finish P ino inode st)
      else bind_res (mknod_file P K d dfi (q_name dentry) inode st) (\<lambda>(r, st).
           case r of
             None \<Rightarrow> Inr (- 1, None, st)
           | Some ino \<Rightarrow> mknod_finish P ino inode st)))"

definition ffs_mkdir ::
  "platform \<Rightarrow> kenv \<Rightarrow> nat option \<Rightarrow> qstr \<Rightarrow> u16 \<Rightarrow> ffs_state \<Rightarrow> (int \<times> nat option \<times> ffs_state) res" where
  "ffs_mkdir P K dir dentry mode st =
     bind_res (ffs_mknod P K dir dentry (mode OR S_IFDIR) 0 st) (\<lambda>(ret, inode, st).
     if ret = 0 then bind_res (inc_nlink dir st) (\<lambda>st. Inr (ret, inode, st)) else Inr (ret, inode, st))"

definition ffs_create ::
  "platform \<Rightarrow> kenv \<Rightarrow> nat option \<Rightarrow> qstr \<Rightarrow> u16 \<Rightarrow> ffs_state \<Rightarrow> (int \<times> nat option \<times> ffs_state) res" where
  "ffs_create P K dir dentry mode st = ffs_mknod P K dir dentry (mode OR S_IFREG) 0 st"

section \<open>Submitting the write that follows an unlink\<close>

text \<open>The record is filled through \<open>b_private\<close>; \<open>is_big_dir\<close> is not among the fields copied.\<close>

definition init_handler_for_discard :: "u64 option \<Rightarrow> ffs_inode_info \<Rightarrow> buffers \<Rightarrow> buffers res" where
  "init_handler_for_discard p fi bf =
     bind_res (get_bh bf p) (\<lambda>(n, b).
     case b_private b of
       None \<Rightarrow> Inl NullDeref
     | Some io \<Rightarrow>
         Inr (bf(n \<mapsto> b\<lparr>b_private := Some (io\<lparr>io_big_dir_id := fi_big_dir_id fi, io_dir_id := fi_dir_id fi,
           io_bucket_id := fi_bucket_id fi, io_slot_id := fi_slot_id fi\<rparr>)\<rparr>)))"

fun submit_bio_for_discard :: "int \<Rightarrow> u64 option list \<Rightarrow> ffs_state \<Rightarrow> ffs_state res" where
  "submit_bio_for_discard op [] st = Inr st"
| "submit_bio_for_discard op (p # ps) st =
     bind_res (get_bh (bufs st) p) (\<lambda>(n, b).
     if b_locked b then submit_bio_for_discard op ps st
     else if op = 1 \<and> b_dirty b
     then submit_bio_for_discard op ps
            (st\<lparr>bufs := (bufs st)(n \<mapsto> b\<lparr>b_locked := True, b_dirty := False, b_end_io := True, b_count := b_count b + 1\<rparr>),
                pending := pending st @ [n]\<rparr>)
     else submit_bio_for_discard op ps
            (st\<lparr>bufs := (bufs st)(n \<mapsto> b\<lparr>b_locked := False, b_dirty := (if op = 1 then False else b_dirty b)\<rparr>)\<rparr>))"

definition compose_pblk_for_discard :: "platform \<Rightarrow> ffs_inode_info \<Rightarrow> lba_t" where
  "compose_pblk_for_discard P fi =
     (if fi_is_big_dir fi = 0 then compose_lba P (fi_dir_id fi) (fi_bucket_id fi) 0 0
      else compose_big_file_lba P (fi_dir_id fi) (fi_bucket_id fi) 0 0)"

section \<open>Unlink and rmdir\<close>

definition unlink_page :: "platform \<Rightarrow> ffs_inode_info \<Rightarrow> ffs_state \<Rightarrow> ffs_state res" where
  "unlink_page P fi st =
     (let (bh, bf) = sb_bread (bufs st) (compose_pblk_for_discard P fi) in
      bind_res (get_bh bf bh) (\<lambda>_.
      bind_res (lock_buffer_wait P bh (st\<lparr>bufs := bf\<rparr>)) (\<lambda>st.
      bind_res (get_bh (bufs st) bh) (\<lambda>(n, b).
      bind_res (page_slot_bitmap (b_data b)) (\<lambda>bm.
      if fi_slot_id fi < 0 then Inl OutOfBounds
      else bind_res (put_slot_bitmap (b_data b) (bitmap_clear bm (nat (fi_slot_id fi)) 1)) (\<lambda>blk.
      bind_res (page_valid_slot_num blk) (\<lambda>v.
      bind_res (put_valid_slot_num blk (v - 1)) (\<lambda>blk.
      bind_res (init_handler_for_discard bh fi ((bufs st)(n \<mapsto> b\<lparr>b_data := blk\<rparr>))) (\<lambda>bf.
      bind_res (unlock_buffer bh bf) (\<lambda>bf.
      bind_res (mark_buffer_dirty bh bf) (\<lambda>bf.
      submit_bio_for_discard 1 [bh] (st\<lparr>bufs := brelse bh bf\<rparr>))))))))))))"

definition clear_name :: "ffs_name \<Rightarrow> ffs_name res" where
  "clear_name f =
     (if unat (name_len f) \<le> length (fname f)
      then Inr \<lparr>name_len = 0, fname = replicate (unat (name_len f)) 0 @ drop (unat (name_len f)) (fname f)\<rparr>
      else Inl OutOfBounds)"

definition ffs_unlink :: "platform \<Rightarrow> nat option \<Rightarrow> nat option \<Rightarrow> ffs_state \<Rightarrow> (int \<times> ffs_state) res" where
  "ffs_unlink P dir inode st =
     bind_res (FFS_I st inode) (\<lambda>(a, fi).
     bind_res (if fi_slot_id fi \<noteq> - 1 then unlink_page P fi st else Inr st) (\<lambda>st.
     bind_res (clear_name (fi_filename fi)) (\<lambda>fn.
     bind_res (FFS_I st dir) (\<lambda>(d, dfi).
     let st = put_inode a (fi\<lparr>fi_valid := 0, fi_filename := fn, i_ctime := i_ctime dfi\<rparr>) st in
     bind_res (inode_dec_link_count P inode st) (\<lambda>st. Inr (0, st))))))"

definition ffs_rmdir :: "platform \<Rightarrow> nat option \<Rightarrow> nat option \<Rightarrow> ffs_state \<Rightarrow> (int \<times> ffs_state) res" where
  "ffs_rmdir P dir inode st =
     bind_res (FFS_I st inode) (\<lambda>(a, fi).
     if i_size fi = 0
     then bind_res (ffs_unlink P dir inode st) (\<lambda>(err, st).
          if err = 0
          then bind_res (upd_inode (\<lambda>fi. fi\<lparr>i_size := 0\<rparr>) inode st) (\<lambda>st.
               bind_res (inode_dec_link_count P inode st) (\<lambda>st.
               bind_res (inode_dec_link_count P dir st) (\<lambda>st.
               bind_res (FFS_I st dir) (\<lambda>(d, dfi).
               bind_res (FFS_I st inode) (\<lambda>(a, fi).
               bind_res (remove_dir (sbi st) (i_ino dfi) (i_ino fi) (fi_big_dir_id fi)) (\<lambda>sb.
               Inr (0, st\<lparr>sbi := sb\<rparr>)))))))
          else Inr (0, st))
     else Inr (- 39, st))"

end
