(* ===== verification/Page_Lemmas.thy ===== *)
theory Page_Lemmas
  imports File_Lookup
begin

text \<open>
  Inode pages: what a write of an inode changes and what it leaves, reading an inode back, and the
  name comparison of a lookup as a search for the first slot that stores the name.
\<close>

section \<open>Writing an inode\<close>

definition raw_ok :: "ffs_inode \<Rightarrow> bool" where
  "raw_ok ri \<longleftrightarrow> length (fname (ri_filename ri)) = 482"

text \<open>The bytes at \<open>off ..< off + n\<close> are the only ones that differ.\<close>

definition only_at :: "nat \<Rightarrow> nat \<Rightarrow> bytes \<Rightarrow> bytes \<Rightarrow> bool" where
  "only_at off n blk blk' \<longleftrightarrow> length blk' = length blk \<and>
     (\<forall>i<length blk. i < off \<or> off + n \<le> i \<longrightarrow> blk' ! i = blk ! i)"

lemma only_at_refl: "only_at off n blk blk" by (simp add: only_at_def)

lemma only_at_trans: "only_at off n a b \<Longrightarrow> only_at off n b c \<Longrightarrow> only_at off n a c"
  by (simp add: only_at_def)

lemma only_at_put:
  "put_bytes blk off' bs = Inr blk' \<Longrightarrow> off \<le> off' \<Longrightarrow> off' + length bs \<le> off + n \<Longrightarrow> only_at off n blk blk'"
  by (auto simp: only_at_def put_bytes_length put_bytes_nth)

lemma only_at_get:
  assumes "only_at off n blk blk'" "off' + k \<le> off \<or> off + n \<le> off'"
  shows "get_bytes blk' off' k = get_bytes blk off' k"
proof -
  have l: "length blk' = length blk" using assms(1) by (simp add: only_at_def)
  have "take k (drop off' blk') = take k (drop off' blk)"
    by (rule drop_take_nth_eq) (use assms l in \<open>auto simp: only_at_def\<close>)
  then show ?thesis by (simp add: get_bytes_def l)
qed

lemma only_at_drop:
  assumes "only_at off n blk blk'" "off + n \<le> off' \<or> off' + k \<le> off"
  shows "take k (drop off' blk') = take k (drop off' blk)"
  by (rule drop_take_nth_eq) (use assms in \<open>auto simp: only_at_def\<close>)

lemma write_raw_run:
  assumes off: "off + INODE_BYTES \<le> length blk" and ok: "raw_ok ri"
  obtains blk' where "write_raw blk off ri = Inr blk'" "only_at off INODE_BYTES blk blk'"
    "get_bytes blk' off 4 = Inr (le_bytes 4 (word_of_int (ri_valid ri)))"
    "get_bytes blk' (off + 8) 8 = Inr (le_bytes 8 (word_of_int (ri_size ri)))"
    "get_bytes blk' (off + 16) 1 = Inr [name_len (ri_filename ri)]"
    "\<forall>j<482. blk' ! (off + 17 + j) =
       (if j < unat (name_len (ri_filename ri)) then fname (ri_filename ri) ! j else blk ! (off + 17 + j))"
proof -
  let ?n = "unat (name_len (ri_filename ri))"
  have "?n < 2 ^ LENGTH(8)" by (rule unsigned_less)
  then have n: "?n < 256" by simp
  then have nl: "?n \<le> length (fname (ri_filename ri))" using ok by (simp add: raw_ok_def)
  obtain b1 where 1: "put_bytes blk (off + 8) (le_bytes 8 (word_of_int (ri_size ri))) = Inr b1"
    using put_bytes_ok [of "off + 8" _ blk] off by (fastforce simp: block_simps)
  obtain b2 where 2: "put_bytes b1 off (le_bytes 4 (word_of_int (ri_valid ri))) = Inr b2"
    using put_bytes_ok [of off _ b1] off put_bytes_length [OF 1] by (fastforce simp: block_simps)
  obtain b3 where 3: "put_bytes b2 (off + 16) [name_len (ri_filename ri)] = Inr b3"
    using put_bytes_ok [of "off + 16" _ b2] off put_bytes_length [OF 1] put_bytes_length [OF 2] by (fastforce simp: block_simps)
  let ?nm = "take ?n (fname (ri_filename ri))"
  have lnm: "length ?nm = ?n" using nl by simp
  note len = put_bytes_length [OF 1] put_bytes_length [OF 2] put_bytes_length [OF 3]
  obtain b4 where 4: "put_bytes b3 (off + 17) ?nm = Inr b4"
    using put_bytes_ok [of "off + 17" ?nm b3] off len n lnm by (auto simp: block_simps)
  have w: "write_raw blk off ri = Inr b4" using 1 2 3 4 nl by (simp add: write_raw_def)
  have o: "only_at off INODE_BYTES blk b4"
    by (rule only_at_trans [OF only_at_put [OF 1] only_at_trans [OF only_at_put [OF 2] only_at_trans [OF only_at_put [OF 3] only_at_put [OF 4]]]])
      (use n in \<open>simp_all add: block_simps\<close>)
  have g: "get_bytes b4 off 4 = Inr (le_bytes 4 (word_of_int (ri_valid ri)))"
    "get_bytes b4 (off + 8) 8 = Inr (le_bytes 8 (word_of_int (ri_size ri)))"
    "get_bytes b4 (off + 16) 1 = Inr [name_len (ri_filename ri)]"
    using get_put_same [OF 2] get_put_same [OF 1] get_put_same [OF 3]
    by (simp_all add: get_put_other [OF 4] get_put_other [OF 3] get_put_other [OF 2])
  have nm: "b4 ! (off + 17 + j) = (if j < ?n then fname (ri_filename ri) ! j else blk ! (off + 17 + j))" if "j < 482" for j
  proof -
    have i: "off + 17 + j < length blk" using that off by (simp add: block_simps)
    have "b3 ! (off + 17 + j) = blk ! (off + 17 + j)"
      using i by (simp add: put_bytes_nth [OF 3] put_bytes_nth [OF 2] put_bytes_nth [OF 1] len)
    then show ?thesis using i nl by (simp add: put_bytes_nth [OF 4] len lnm)
  qed
  show thesis by (rule that [OF w o g]) (use nm in simp)
qed

lemma read_raw_of:
  assumes "off + INODE_BYTES \<le> length blk"
    and "get_bytes blk off 4 = Inr (le_bytes 4 (word_of_int v))"
    and "get_bytes blk (off + 8) 8 = Inr (le_bytes 8 (word_of_int z))" and "get_bytes blk (off + 16) 1 = Inr [l]"
    and "- (2 ^ 31) \<le> v" "v < 2 ^ 31" "- (2 ^ 63) \<le> z" "z < 2 ^ 63"
  shows "read_raw blk off = Inr \<lparr>ri_valid = v, ri_size = z, ri_filename = \<lparr>name_len = l, fname = take 482 (drop (off + 17) blk)\<rparr>\<rparr>"
proof -
  have "cint (uint (take_bit 32 (word_of_int v :: u64))) = v"
  proof -
    have "uint (take_bit 32 (word_of_int v :: u64)) = take_bit 32 v"
      by (simp add: unsigned_take_bit_eq uint_word_of_int_eq take_bit_take_bit)
    then show ?thesis using assms(5,6) by (simp add: cint_def signed_take_bit_take_bit signed_take_bit_int_eq_self)
  qed
  moreover have "sint (word_of_int z :: u64) = z"
    using assms(7,8) by (simp add: sint_sbintrunc' signed_take_bit_int_eq_self)
  ultimately show ?thesis
    using assms by (simp add: read_raw_def le_value_bytes get_bytes_def block_simps take_bit_word_eq_self)
qed

section \<open>Comparing names\<close>

definition stored :: "bytes \<Rightarrow> bytes \<Rightarrow> nat \<Rightarrow> bool" where
  "stored blk nm s \<longleftrightarrow> take (Suc (length nm)) (drop (slot_off s + 17) blk) = nm @ [0]"

lemma strcmp_eq_nul:
  "0 \<notin> set nm \<Longrightarrow> length nm < length b \<Longrightarrow> strcmp_eq (nm @ 0 # r) b = Inr (take (Suc (length nm)) b = nm @ [0])"
proof (induction nm arbitrary: b)
  case Nil
  then show ?case by (cases b) auto
next
  case (Cons x nm)
  then show ?case by (cases b) auto
qed

lemma slot_room: "length blk = BLOCK_BYTES \<Longrightarrow> s < 8 \<Longrightarrow> length nm < 482 \<Longrightarrow> length nm < length (drop (slot_off s + 17) blk)"
  by (simp add: slot_off_def block_simps)

lemma match_slot_find:
  assumes "length blk = BLOCK_BYTES" "0 \<notin> set nm" "length nm < 482"
  shows "\<forall>s \<in> set ss. s < 8 \<Longrightarrow> match_slot blk (nm @ 0 # r) ss = Inr (find (stored blk nm) ss)"
proof (induction ss)
  case (Cons s ss)
  have "strcmp_eq (nm @ 0 # r) (drop (slot_off s + 17) blk) = Inr (stored blk nm s)"
    unfolding stored_def by (rule strcmp_eq_nul [OF assms(2) slot_room [OF assms(1) _ assms(3)]]) (use Cons.prems in simp)
  then show ?case using Cons by simp
qed simp

lemma file_seg_or: "s < 8 \<Longrightarrow> of_nat s OR push_bit FILE_SLOT_BITS (of_nat b) = file_seg b s"
proof -
  assume "s < 8"
  then have "(ucast (of_nat s :: u8) :: u64) = of_nat s"
    by (intro word_unat_eq_iff [THEN iffD2]) (simp add: unsigned_ucast_eq unat_of_nat_less take_bit_nat_eq_self)
  then show ?thesis by (simp add: file_seg_def file_seg_of_def)
qed

lemma seg_in_page_find:
  assumes "length blk = BLOCK_BYTES" "0 \<notin> set nm" "length nm < 482"
  shows "seg_in_page (of_nat b) blk (nm @ 0 # r) =
    Inr (case find (stored blk nm) [0..<8] of None \<Rightarrow> 0 | Some s \<Rightarrow> file_seg b s)"
proof -
  have "match_slot blk (nm @ 0 # r) [0..<8] = Inr (find (stored blk nm) [0..<8])"
    by (rule match_slot_find [OF assms]) simp
  moreover have "s < 8" if "find (stored blk nm) [0..<8] = Some s" for s
    using that by (auto simp: find_Some_iff)
  moreover have "FILE_SLOT_NUM = 8" by (simp add: layout_simps)
  ultimately show ?thesis
    unfolding seg_in_page_def by (auto simp del: upt.simps upt_rec_numeral split: option.split simp: file_seg_or)
qed

lemma first_slot_None: "first_slot bm = None \<longleftrightarrow> (\<forall>s<8. \<not> test_bit s bm)"
proof -
  have "FILE_SLOT_NUM = 8" by (simp add: layout_simps)
  then show ?thesis unfolding first_slot_def by (auto simp: find_None_iff simp del: upt_rec_numeral upt.simps)
qed

section \<open>Looking up a name in a bucket\<close>

definition page_lba :: "platform \<Rightarrow> ffs_inode_info \<Rightarrow> nat \<Rightarrow> u64" where
  "page_lba P dfi b = compose_lba P (fi_dir_id dfi) (int b) 0 0"

text \<open>A buffer that can be read: present, unlocked, a full block.\<close>

definition readable :: "buffers \<Rightarrow> u64 \<Rightarrow> bytes \<Rightarrow> bool" where
  "readable bf n blk \<longleftrightarrow> (\<exists>b. bf n = Some b \<and> \<not> b_locked b \<and> b_data b = blk) \<and> length blk = BLOCK_BYTES"

definition held :: "buffers \<Rightarrow> u64 \<Rightarrow> buffers" where
  "held bf n = snd (sb_bread bf n)"

lemma readable_bread:
  "readable bf n blk \<Longrightarrow> sb_bread bf n = (Some n, held bf n) \<and> wait_on_buffer P (Some n) (st\<lparr>bufs := held bf n\<rparr>) = Inr (st\<lparr>bufs := held bf n\<rparr>) \<and>
     (\<exists>b. get_bh (held bf n) (Some n) = Inr (n, b) \<and> b_data b = blk \<and> \<not> b_locked b)"
  by (auto simp: readable_def held_def sb_bread_def wait_on_buffer_def get_bh_def)

lemma readable_held: "readable (held bf m) n blk = readable bf n blk"
  by (auto simp: readable_def held_def sb_bread_def split: option.splits if_splits)

lemma ht_bucket_of_nat: "0 \<in> set n \<Longrightarrow> ht_bucket_id (name_hash n) = of_nat (ht_home n)"
  by (simp add: ht_home_def)

lemma cint_home: "cint (uint (of_nat (ht_home n) :: u64)) = int (ht_home n)"
proof -
  have "ht_home n < 2 ^ 12" using ht_home_less [of n] by (simp add: layout_simps)
  then have "uint (of_nat (ht_home n) :: u64) = int (ht_home n)" by (simp add: uint_nat unat_of_nat_less)
  then show ?thesis using \<open>ht_home n < 2 ^ 12\<close> by (simp add: cint_id)
qed

lemma get_file_seg_run:
  assumes nm: "0 \<notin> set nm" "length nm < 482" and rd: "readable (bufs st) (page_lba P dfi (ht_home (nm @ [0]))) blk"
  shows "get_file_seg P dfi (Some t) (nm @ [0]) st =
    (if \<forall>s<8. \<not> test_bit s (slot_bitmap (ht_buckets t (ht_home (nm @ [0])))) then Inr (0, st)
     else Inr (case find (stored blk nm) [0..<8] of None \<Rightarrow> 0 | Some s \<Rightarrow> file_seg (ht_home (nm @ [0])) s,
               st\<lparr>bufs := held (bufs st) (page_lba P dfi (ht_home (nm @ [0])))\<rparr>))"
proof -
  let ?h = "ht_home (nm @ [0])"
  let ?st = "st\<lparr>bufs := held (bufs st) (page_lba P dfi ?h)\<rparr>"
  have z: "0 \<in> set (nm @ [0])" by simp
  obtain b where b: "get_bh (bufs ?st) (Some (page_lba P dfi ?h)) = Inr (page_lba P dfi ?h, b)" "b_data b = blk"
    and r: "sb_bread (bufs st) (page_lba P dfi ?h) = (Some (page_lba P dfi ?h), held (bufs st) (page_lba P dfi ?h))"
      "wait_on_buffer P (Some (page_lba P dfi ?h)) ?st = Inr ?st"
    using readable_bread [OF rd, of P st] by auto
  have hash: "BKDRHash (nm @ [0]) = Inr (name_hash (nm @ [0]))" "ht_bucket_id (name_hash (nm @ [0])) = of_nat ?h"
    "unat (of_nat ?h :: u64) = ?h"
    using BKDRHash_nul [OF z] ht_home_less [of "nm @ [0]"] by (simp_all add: ht_home_def)
  have lba: "compose_lba P (fi_dir_id dfi) (cint (uint (of_nat ?h :: u64))) 0 0 = page_lba P dfi ?h"
    by (simp only: cint_home page_lba_def)
  have len: "length blk = BLOCK_BYTES" using rd by (simp add: readable_def)
  have sl: "my_strlen (nm @ [0]) = Inr (int (length nm))" using nm(1) by (induction nm) auto
  have seg: "seg_in_page (of_nat ?h) blk (nm @ [0]) = Inr (case find (stored blk nm) [0..<8] of None \<Rightarrow> 0 | Some s \<Rightarrow> file_seg ?h s)"
    using seg_in_page_find [OF len nm, of ?h "[]"] by simp
  show ?thesis
  proof (cases "first_slot (slot_bitmap (ht_buckets t ?h))")
    case None
    then show ?thesis using first_slot_None [of "slot_bitmap (ht_buckets t ?h)"]
      by (simp add: get_file_seg_def hash sl Let_def)
  next
    case (Some s)
    then have "\<not> (\<forall>s<8. \<not> test_bit s (slot_bitmap (ht_buckets t ?h)))"
      using first_slot_None [of "slot_bitmap (ht_buckets t ?h)"] by simp
    then show ?thesis using Some b
      by (simp only: get_file_seg_def hash sl Let_def bind_res_Inr option.case lba r seg if_False prod.case)
  qed
qed

end
