(* ===== verification/Create_Lemmas.thy ===== *)
theory Create_Lemmas
  imports Inode_Ops Page_Lemmas
begin

text \<open>
  Creating a file, step by step: the page an inode is copied into, the dirty-inode hook, the name of
  the new inode, and the whole of \<open>ffs_mknod\<close> for a regular file in a directory with room.
\<close>

section \<open>The inode's page\<close>

lemma FFS_I_Some [simp]: "inodes st a = Some fi \<Longrightarrow> FFS_I st (Some a) = Inr (a, fi)"
  by (simp add: FFS_I_def)

lemma put_inode_sel [simp]:
  "inodes (put_inode a fi st) = (inodes st)(a \<mapsto> fi)" "sbi (put_inode a fi st) = sbi st" "bufs (put_inode a fi st) = bufs st"
  "icache (put_inode a fi st) = icache st" "bd_inode (put_inode a fi st) = bd_inode st" "slab (put_inode a fi st) = slab st"
  "pending (put_inode a fi st) = pending st" "s_dev (put_inode a fi st) = s_dev st"
  by (simp_all add: put_inode_def)

lemma slot_off_apart: "s \<noteq> s' \<Longrightarrow> slot_off s' + INODE_BYTES \<le> slot_off s \<or> slot_off s + INODE_BYTES \<le> slot_off s'"
  by (cases "s < s'") (auto simp: slot_off_def block_simps)

lemma slot_off_ge: "64 \<le> slot_off s" by (simp add: slot_off_def block_simps)

lemma slot_off_fits: "length blk = BLOCK_BYTES \<Longrightarrow> s < 8 \<Longrightarrow> slot_off s + INODE_BYTES \<le> length blk"
  by (simp add: slot_off_def block_simps)

lemma name_len_max: "unat (l :: u8) < 256"
proof -
  have "unat l < 2 ^ LENGTH(8)" by (rule unsigned_less)
  then show ?thesis by simp
qed

text \<open>What copying a file's inode into its page does to the page.\<close>

definition page_after :: "ffs_inode_info \<Rightarrow> nat \<Rightarrow> bytes \<Rightarrow> bytes \<Rightarrow> bool" where
  "page_after fi s blk blk' \<longleftrightarrow> length blk' = BLOCK_BYTES \<and>
     (\<forall>s'<8. s' \<noteq> s \<longrightarrow> take INODE_BYTES (drop (slot_off s') blk') = take INODE_BYTES (drop (slot_off s') blk)) \<and>
     get_bytes blk' (slot_off s) 4 = Inr (le_bytes 4 (word_of_int (fi_valid fi))) \<and>
     get_bytes blk' (slot_off s + 8) 8 = Inr (le_bytes 8 (word_of_int (i_size fi))) \<and>
     get_bytes blk' (slot_off s + 16) 1 = Inr [name_len (fi_filename fi)] \<and>
     (\<forall>j<482. blk' ! (slot_off s + 17 + j) =
        (if j < unat (name_len (fi_filename fi)) then fname (fi_filename fi) ! j else blk ! (slot_off s + 17 + j))) \<and>
     (\<exists>w w'. page_slot_bitmap blk = Inr [w] \<and> page_slot_bitmap blk' = Inr [w'] \<and> [w'] = set_bit1 s [w])"

lemma fill_raw_file:
  assumes v: "fi_valid fi \<noteq> 0" and s: "fi_slot_id fi = int s" "s < 8" and nm: "length (fname (fi_filename fi)) = 482"
    and blk: "length blk = BLOCK_BYTES"
  shows "\<exists>blk'. fill_raw_inode fi blk = Inr blk' \<and> page_after fi s blk blk'"
proof -
  let ?ri = "\<lparr>ri_valid = fi_valid fi, ri_size = i_size fi, ri_filename = fi_filename fi\<rparr>"
  obtain v0 where v0: "get_bytes blk 0 8 = Inr v0" using blk by (simp add: get_bytes_def block_simps)
  define bm where "bm = set_bit1 s [le_value v0]"
  have "length bm = 1" by (simp only: bm_def set_bit1_def length_list_update) simp
  then obtain w' where lbm: "bm = [w']" by (cases bm) auto
  obtain b1 where b1: "put_bytes blk 0 (le_bytes 8 w') = Inr b1"
    using put_bytes_ok [of 0 _ blk] blk by (fastforce simp: block_simps)
  have l1: "length b1 = BLOCK_BYTES" using put_bytes_length [OF b1] blk by simp
  have o1: "only_at 0 8 blk b1" by (rule only_at_put [OF b1]) simp_all
  define ri where "ri = ?ri"
  have sel: "ri_valid ri = fi_valid fi" "ri_size ri = i_size fi" "ri_filename ri = fi_filename fi" by (simp_all add: ri_def)
  have "raw_ok ri" using nm by (simp add: raw_ok_def sel)
  then obtain b2 where b2: "write_raw b1 (slot_off s) ri = Inr b2" "only_at (slot_off s) INODE_BYTES b1 b2"
    "get_bytes b2 (slot_off s) 4 = Inr (le_bytes 4 (word_of_int (fi_valid fi)))"
    "get_bytes b2 (slot_off s + 8) 8 = Inr (le_bytes 8 (word_of_int (i_size fi)))"
    "get_bytes b2 (slot_off s + 16) 1 = Inr [name_len (fi_filename fi)]"
    "\<forall>j<482. b2 ! (slot_off s + 17 + j) = (if j < unat (name_len (fi_filename fi)) then fname (fi_filename fi) ! j else b1 ! (slot_off s + 17 + j))"
    using write_raw_run [OF slot_off_fits [OF l1 s(2)], of ri] unfolding sel by metis
  have "fill_raw_inode fi blk = Inr b2"
    using v s v0 b1 b2(1) name_len_max [of "name_len (fi_filename fi)"]
    by (simp add: fill_raw_inode_def Let_def page_slot_bitmap_def put_slot_bitmap_def lbm layout_simps flip: bm_def ri_def)
  moreover have "take INODE_BYTES (drop (slot_off s') b2) = take INODE_BYTES (drop (slot_off s') blk)" if "s' < 8" "s' \<noteq> s" for s'
    using only_at_drop [OF b2(2), of "slot_off s'" INODE_BYTES] only_at_drop [OF o1, of "slot_off s'" INODE_BYTES] slot_off_apart [of s s'] that slot_off_ge [of s']
    by auto
  moreover have "b1 ! (slot_off s + 17 + j) = blk ! (slot_off s + 17 + j)" if "j < 482" for j
    using that slot_off_fits [OF blk s(2)] o1 slot_off_ge [of s] by (simp add: only_at_def block_simps)
  moreover have "page_slot_bitmap b2 = Inr bm"
  proof -
    have "get_bytes b2 0 8 = get_bytes b1 0 8" using slot_off_ge [of s] by (intro only_at_get [OF b2(2)]) simp
    then have "page_slot_bitmap b2 = Inr [w']"
      using get_put_same [OF b1] by (simp add: page_slot_bitmap_def le_value_bytes take_bit_word_eq_self)
    then show ?thesis using lbm by simp
  qed
  moreover have "\<exists>w w'. page_slot_bitmap blk = Inr [w] \<and> page_slot_bitmap b2 = Inr [w'] \<and> [w'] = set_bit1 s [w]"
    using \<open>page_slot_bitmap b2 = Inr bm\<close> lbm v0
    by (rule_tac x = "le_value v0" in exI, rule_tac x = w' in exI) (simp add: page_slot_bitmap_def flip: bm_def)
  moreover have "length b2 = BLOCK_BYTES" using b2(2) l1 by (simp add: only_at_def)
  ultimately have "page_after fi s blk b2" unfolding page_after_def using b2(3-6) by simp
  with \<open>fill_raw_inode fi blk = Inr b2\<close> show ?thesis by blast
qed

text \<open>Names after the copy: other slots keep theirs; the new one needs a NUL left behind it.\<close>

lemma take_take_drop: "17 + Suc k \<le> n \<Longrightarrow> take n a = take n b \<Longrightarrow> take (Suc k) (drop 17 a) = take (Suc k) (drop 17 b)"
proof -
  assume n: "17 + Suc k \<le> n" and eq: "take n a = take n b"
  have "take (Suc k + 17) (take n a) = take (Suc k + 17) (take n b)" by (simp only: eq)
  then have "take (Suc k + 17) a = take (Suc k + 17) b" using n by (simp add: min_absorb1)
  then show ?thesis by (simp only: take_drop)
qed

lemma stored_other:
  assumes "page_after fi s blk blk'" "s' < 8" "s' \<noteq> s" "length nm < 482"
  shows "stored blk' nm s' = stored blk nm s'"
proof -
  have "take INODE_BYTES (drop (slot_off s') blk') = take INODE_BYTES (drop (slot_off s') blk)"
    using assms by (simp add: page_after_def)
  from take_take_drop [OF _ this, of "length nm"] assms(4) show ?thesis
    by (simp add: stored_def block_simps add.commute)
qed

lemma stored_here:
  assumes pa: "page_after fi s blk blk'" and s: "s < 8" and nm: "unat (name_len (fi_filename fi)) = length nm" "length nm < 482"
    and fn: "take (length nm) (fname (fi_filename fi)) = nm"
  shows "stored blk' nm s \<longleftrightarrow> blk ! (slot_off s + 17 + length nm) = 0"
proof -
  have len: "length blk' = BLOCK_BYTES" using pa by (simp add: page_after_def)
  have b: "blk' ! (slot_off s + 17 + j) = (if j < length nm then nm ! j else blk ! (slot_off s + 17 + j))" if "j \<le> length nm" for j
    using pa nm that fn by (auto simp: page_after_def) (metis nth_take)
  have fit: "slot_off s + 17 + length nm < length blk'" using slot_off_fits [OF len s] nm by (simp add: block_simps)
  have "take (Suc (length nm)) (drop (slot_off s + 17) blk') = nm @ [blk' ! (slot_off s + 17 + length nm)]"
    by (rule nth_equalityI) (use fit b in \<open>auto simp: nth_append less_Suc_eq\<close>)
  then show ?thesis using b [of "length nm"] by (simp add: stored_def)
qed

section \<open>The dirty-inode hook\<close>

lemma dirty_inode_run:
  assumes i: "inodes st a = Some fi" and bd: "bd_inode st" and rd: "readable (bufs st) (inode_pblk P fi) blk"
    and fill: "fill_raw_inode fi blk = Inr blk'" and len: "length blk' = BLOCK_BYTES"
  shows "\<exists>bf. ffs_dirty_inode P (Some a) st = Inr (st\<lparr>bufs := bf\<rparr>) \<and> readable bf (inode_pblk P fi) blk' \<and>
    (\<forall>n. n \<noteq> inode_pblk P fi \<longrightarrow> bf n = bufs st n)"
proof -
  obtain b where b: "bufs st (inode_pblk P fi) = Some b" "\<not> b_locked b" "b_data b = blk" using rd by (auto simp: readable_def)
  show ?thesis
    using i bd b fill len
    by (intro exI [of _ "(bufs st)(inode_pblk P fi \<mapsto> b\<lparr>b_uptodate := True, b_data := blk', b_locked := False, b_dirty := True\<rparr>)"])
      (simp add: ffs_dirty_inode_def sb_bread_def lock_buffer_wait_def lock_buffer_def get_bh_def unlock_buffer_def mark_buffer_dirty_def
        upd_bh_def brelse_def readable_def)
qed

section \<open>The new inode\<close>

lemma my_strlen_name: "0 \<notin> set nm \<Longrightarrow> my_strlen (nm @ [0]) = Inr (int (length nm))"
  by (induction nm) auto

lemma set_name_run:
  assumes "0 \<notin> set nm" "length nm < 256" "length (fname (fi_filename fi)) = 482"
  shows "set_name (nm @ [0]) fi = Inr (fi\<lparr>fi_filename := \<lparr>name_len = of_nat (length nm),
    fname = nm @ drop (length nm) (fname (fi_filename fi))\<rparr>\<rparr>)"
proof -
  have "unat (of_nat (length nm) :: u8) = length nm" using assms(2) by (simp add: unat_of_nat_less)
  then show ?thesis using assms by (simp add: set_name_def my_strlen_name memcpy_def Let_def)
qed

lemma init_vfs_keep [simp]:
  "fi_filename (init_vfs_inode K mode dev fi) = fi_filename fi" "i_size (init_vfs_inode K mode dev fi) = 0"
  by (simp_all add: init_vfs_inode_def set_ops_def)

abbreviation fresh_inode :: "kenv \<Rightarrow> u16 \<Rightarrow> ffs_inode_info \<Rightarrow> ffs_inode_info" where
  "fresh_inode K mode mem \<equiv> init_vfs_inode K mode 0 (mem\<lparr>i_version := 1, i_new := False\<rparr>)"

lemma get_inode_run:
  "k_inode K = Some mem \<Longrightarrow> flatfs_get_inode K mode 0 st =
    (Some (inode_next st), put_inode (inode_next st) (fresh_inode K mode mem) st)"
  by (simp add: flatfs_get_inode_def new_inode_def ffs_alloc_inode_def put_inode_def)

definition file_ino :: "nat \<Rightarrow> nat \<Rightarrow> nat \<Rightarrow> u64" where
  "file_ino p b s = file_seg b s OR word_of_int (cint (push_bit 15 (int p)))"

lemma file_ino_fields:
  assumes "p < NR_DIRS" "b < NR_BUCKETS" "s < 8"
  shows "cint (uint (ino_to_bucket (file_ino p b s))) = int b" "cint (uint (ino_to_slot (file_ino p b s))) = int s"
    "file_ino p b s \<noteq> - 1" "unat (file_ino p b s) = p * 2 ^ 15 + (b * 8 + s)"
proof -
  show u: "unat (file_ino p b s) = p * 2 ^ 15 + (b * 8 + s)"
    using unat_ino [of "int p" b s] assms by (simp add: file_ino_def layout_simps)
  have "uint (ino_to_bucket (file_ino p b s)) = int b" "uint (ino_to_slot (file_ino p b s)) = int s"
    using ino_fields [OF u assms(2,3)] by (simp_all add: uint_nat)
  then show "cint (uint (ino_to_bucket (file_ino p b s))) = int b" "cint (uint (ino_to_slot (file_ino p b s))) = int s"
    using assms by (simp_all add: cint_id layout_simps)
  show "file_ino p b s \<noteq> - 1"
    using u assms by (auto simp: layout_simps unsigned_minus_1_eq_mask mask_eq_exp_minus_1)
qed

text \<open>The in-core inode of a file that \<open>ffs_mknod\<close> returns.\<close>

definition file_inode :: "kenv \<Rightarrow> u16 \<Rightarrow> ffs_inode_info \<Rightarrow> nat \<Rightarrow> nat \<Rightarrow> nat \<Rightarrow> bytes \<Rightarrow> ffs_inode_info" where
  "file_inode K mode mem p b s nm = (fresh_inode K mode mem)\<lparr>fi_dir_id := int p, fi_bucket_id := int b, fi_slot_id := int s,
     fi_valid := 1, fi_is_big_dir := 0, fi_big_dir_id := - 1, fi_size := 0,
     fi_filename := \<lparr>name_len = of_nat (length nm), fname = nm @ drop (length nm) (fname (fi_filename mem))\<rparr>,
     i_ino := file_ino p b s, i_new := False\<rparr>"

section \<open>Creating a regular file\<close>

lemma mknod_finish_run:
  assumes i: "inodes st a = Some fi" and fresh: "icache st ino = None" and bd: "bd_inode st"
    and fill: "fill_raw_inode (fi\<lparr>i_ino := ino, i_new := True\<rparr>) blk = Inr blk'" "length blk' = BLOCK_BYTES"
    and rd: "readable (bufs st) (inode_pblk P fi) blk"
  shows "\<exists>bf st'. mknod_finish P ino (Some a) st = Inr (0, Some a, st') \<and>
    st' = st\<lparr>inodes := (inodes st)(a \<mapsto> fi\<lparr>i_ino := ino, i_new := False\<rparr>), icache := (icache st)(ino \<mapsto> a), bufs := bf\<rparr> \<and>
    readable bf (inode_pblk P fi) blk' \<and> (\<forall>n. n \<noteq> inode_pblk P fi \<longrightarrow> bf n = bufs st n)"
proof -
  let ?fi = "fi\<lparr>i_ino := ino, i_new := True\<rparr>"
  let ?st = "st\<lparr>inodes := (inodes st)(a \<mapsto> ?fi), icache := (icache st)(ino \<mapsto> a)\<rparr>"
  have pb: "inode_pblk P ?fi = inode_pblk P fi" by (simp add: inode_pblk_def pos_of_def)
  have "\<exists>bf. ffs_dirty_inode P (Some a) ?st = Inr (?st\<lparr>bufs := bf\<rparr>) \<and> readable bf (inode_pblk P ?fi) blk' \<and>
    (\<forall>n. n \<noteq> inode_pblk P ?fi \<longrightarrow> bf n = bufs ?st n)"
    by (rule dirty_inode_run) (use bd fill rd pb in simp_all)
  then obtain bf where bf: "ffs_dirty_inode P (Some a) ?st = Inr (?st\<lparr>bufs := bf\<rparr>)" "readable bf (inode_pblk P fi) blk'"
    "\<forall>n. n \<noteq> inode_pblk P fi \<longrightarrow> bf n = bufs st n" unfolding pb by auto
  have ins: "insert_inode_locked a (put_inode a (fi\<lparr>i_ino := ino\<rparr>) st) = Inr (0, ?st)"
    using fresh by (simp add: insert_inode_locked_def put_inode_def)
  have "mknod_finish P ino (Some a) st =
      Inr (0, Some a, st\<lparr>inodes := (inodes st)(a \<mapsto> fi\<lparr>i_ino := ino, i_new := False\<rparr>), icache := (icache st)(ino \<mapsto> a), bufs := bf\<rparr>)"
    using i ins bf(1) by (simp add: mknod_finish_def mark_inode_dirty_def unlock_new_inode_def upd_inode_def put_inode_def)
  with bf show ?thesis by blast
qed

lemma tbl_index_ok [simp]: "p < n \<Longrightarrow> tbl_index n (int p) = Inr p"
  by (simp add: tbl_index_def)

lemma create_run:
  assumes dir: "inodes st d = Some dfi" "slab_ok st"
    and mem: "k_inode K = Some mem" "length (fname (fi_filename mem)) = 482"
    and p: "fi_dir_id dfi = int p" "p < NR_DIRS" "fi_is_big_dir dfi = 0"
    and t: "hashtbl (sbi st) p = Some t" "ht_inv t" "ht_ready P t (ht_home (nm @ [0]))"
    and room: "s0 < 8" "(ht_home (nm @ [0]), s0) \<notin> ht_taken t"
    and fresh: "\<forall>s<8. icache st (file_ino p (ht_home (nm @ [0])) s) = None"
    and nm: "0 \<notin> set nm" "length nm < 256"
    and bd: "bd_inode st" and rd: "readable (bufs st) (page_lba P dfi (ht_home (nm @ [0]))) blk"
    and mode: "mode AND S_IFDIR = 0"
  shows "\<exists>s st' t' blk'. s < 8 \<and> (ht_home (nm @ [0]), s) \<notin> ht_taken t \<and>
    ffs_mknod P K (Some d) (\<lparr>q_name = nm @ [0], q_len = int (length nm)\<rparr>) mode 0 st = Inr (0, Some (inode_next st), st') \<and>
    inodes st' = (inodes st)(inode_next st \<mapsto> file_inode K mode mem p (ht_home (nm @ [0])) s nm) \<and>
    icache st' = (icache st)(file_ino p (ht_home (nm @ [0])) s \<mapsto> inode_next st) \<and>
    sbi st' = (sbi st)\<lparr>hashtbl := (hashtbl (sbi st))(p \<mapsto> t')\<rparr> \<and> ht_inv t' \<and> ht_taken t' = insert (ht_home (nm @ [0]), s) (ht_taken t) \<and>
    slab st' = slab st \<and>
    page_after (file_inode K mode mem p (ht_home (nm @ [0])) s nm) s blk blk' \<and>
    readable (bufs st') (page_lba P dfi (ht_home (nm @ [0]))) blk'"
proof -
  let ?h = "ht_home (nm @ [0])" and ?a = "inode_next st"
  have da: "d \<noteq> ?a" using inode_next_free [OF dir(2)] dir(1) by auto
  have z: "0 \<in> set (nm @ [0])" by simp
  obtain s where s: "s < 8" "(?h, s) \<notin> ht_taken t" "insert_file P t (nm @ [0]) = Inr (file_seg ?h s,
      t\<lparr>ht_buckets := (ht_buckets t)(?h := took (ht_buckets t) ?h s)\<rparr>)"
    using insert_file_cases [OF t(2) z t(3)] room by (auto split: if_splits)
  define t' where "t' = t\<lparr>ht_buckets := (ht_buckets t)(?h := took (ht_buckets t) ?h s)\<rparr>"
  have t': "ht_inv t'" "ht_taken t' = insert (?h, s) (ht_taken t)"
    using arr_took [OF t(2) ht_home_less s(1,2)] by (simp_all add: t'_def)
  have h: "?h < 2 ^ 60" using ht_home_less [of "nm @ [0]"] by (simp add: layout_simps)
  have alloc: "flatfs_file_slot_alloc_by_name P t (int p) (nm @ [0]) = Inr (file_ino p ?h s, t')"
    using s(3) file_seg_not_full [OF h s(1)]
    by (simp add: flatfs_file_slot_alloc_by_name_def t'_def file_ino_def layout_simps)
  note ino = file_ino_fields [OF p(2) ht_home_less [of "nm @ [0]"] s(1)]
  define fi where "fi = (fresh_inode K mode mem)\<lparr>fi_dir_id := int p, fi_bucket_id := int ?h, fi_slot_id := int s, fi_valid := 1,
     fi_is_big_dir := 0, fi_big_dir_id := - 1, fi_size := 0,
     fi_filename := \<lparr>name_len = of_nat (length nm), fname = nm @ drop (length nm) (fname (fi_filename mem))\<rparr>\<rparr>"
  define st2 where "st2 = st\<lparr>sbi := (sbi st)\<lparr>hashtbl := (hashtbl (sbi st))(p \<mapsto> t')\<rparr>,
     inodes := (inodes st)(?a \<mapsto> fi)\<rparr>"
  have nma: "set_name (nm @ [0]) ((fresh_inode K mode mem)\<lparr>fi_dir_id := int p, fi_bucket_id := int ?h, fi_slot_id := int s, fi_valid := 1,
     fi_is_big_dir := 0, fi_big_dir_id := - 1, fi_size := 0\<rparr>) = Inr fi"
    by (subst set_name_run) (use nm mem in \<open>simp_all add: fi_def\<close>)
  have mk: "mknod_file P K d dfi (nm @ [0]) (Some ?a)
      (put_inode ?a (fresh_inode K mode mem) st) = Inr (Some (file_ino p ?h s), st2)"
    using p t(1) alloc ino nma by (simp add: mknod_file_def Let_def put_inode_def st2_def FFS_I_def)
  have pb: "inode_pblk P fi = page_lba P dfi ?h"
    by (simp add: inode_pblk_def fi_def ffs_get_lba_meta_def pos_of_def page_lba_def p)
  let ?fi = "fi\<lparr>i_ino := file_ino p ?h s, i_new := True\<rparr>"
  have "\<exists>blk'. fill_raw_inode ?fi blk = Inr blk' \<and> page_after ?fi s blk blk'"
    by (rule fill_raw_file) (use s nm mem rd in \<open>simp_all add: fi_def readable_def\<close>)
  then obtain blk' where blk': "fill_raw_inode ?fi blk = Inr blk'" "page_after ?fi s blk blk'" by blast
  have fin: "fi\<lparr>i_ino := file_ino p ?h s, i_new := False\<rparr> = file_inode K mode mem p ?h s nm"
    by (simp add: file_inode_def fi_def)
  have pa: "page_after (file_inode K mode mem p ?h s nm) s blk blk'"
    using blk'(2) unfolding fin [symmetric] by (simp add: page_after_def)
  have "\<exists>bf st'. mknod_finish P (file_ino p ?h s) (Some ?a) st2 = Inr (0, Some ?a, st') \<and>
    st' = st2\<lparr>inodes := (inodes st2)(?a \<mapsto> fi\<lparr>i_ino := file_ino p ?h s, i_new := False\<rparr>),
             icache := (icache st2)(file_ino p ?h s \<mapsto> ?a), bufs := bf\<rparr> \<and>
    readable bf (inode_pblk P fi) blk' \<and> (\<forall>n. n \<noteq> inode_pblk P fi \<longrightarrow> bf n = bufs st2 n)"
    by (rule mknod_finish_run [OF _ _ _ blk'(1)])
      (use fresh s bd rd pb blk'(2) in \<open>simp_all add: st2_def page_after_def\<close>)
  then obtain bf st' where st': "mknod_finish P (file_ino p ?h s) (Some ?a) st2 = Inr (0, Some ?a, st')"
    "st' = st2\<lparr>inodes := (inodes st2)(?a \<mapsto> file_inode K mode mem p ?h s nm), icache := (icache st2)(file_ino p ?h s \<mapsto> ?a), bufs := bf\<rparr>"
    "readable bf (page_lba P dfi ?h) blk'" unfolding pb fin by blast
  have "ffs_mknod P K (Some d) \<lparr>q_name = nm @ [0], q_len = int (length nm)\<rparr> mode 0 st = Inr (0, Some ?a, st')"
    using mk st'(1) dir(1) da mode by (simp add: ffs_mknod_def get_inode_run [OF mem(1)])
  then show ?thesis
    using s(1,2) t' st'(2,3) pa
    by (intro exI [of _ s] exI [of _ st'] exI [of _ t'] exI [of _ blk'])
      (simp add: st2_def)
qed

end
