(* ===== verification/Super.thy ===== *)
theory Super
  imports Inode_Ops Dir_Props
begin

text \<open>
  Mounting and unmounting (\<open>super.c\<close>): \<open>flatfs_fill_super\<close> builds the in-memory superblock, the
  directory tree and the root's file table, and the module entry points create the inode cache
  and register the file system.
\<close>

section \<open>The VFS superblock\<close>

record super_block =
  s_blocksize :: int
  s_blocksize_bits :: int
  s_maxbytes :: int
  s_magic :: u64
  s_time_gran :: int
  s_fs_info :: bool
  s_root :: "nat option"

definition FLATFS_MAGIC :: u64 where "FLATFS_MAGIC = 0x73616d70"
definition MAX_LFS_FILESIZE :: int where "MAX_LFS_FILESIZE = 2 ^ 63 - 1"

text \<open>\<open>blksize_bits\<close>: the number of halvings down to 256, plus 8, at least 9.\<close>

fun blksize_bits_loop :: "nat \<Rightarrow> nat \<Rightarrow> nat \<Rightarrow> nat" where
  "blksize_bits_loop 0 bits sz = bits"
| "blksize_bits_loop (Suc n) bits sz = (let bits = bits + 1; sz = sz div 2 in if sz > 256 then blksize_bits_loop n bits sz else bits)"

definition blksize_bits :: "nat \<Rightarrow> nat" where
  "blksize_bits sz = blksize_bits_loop sz 8 sz"

definition sb_set_blocksize :: "int \<Rightarrow> super_block \<Rightarrow> int \<Rightarrow> int \<times> super_block" where
  "sb_set_blocksize set_blocksize sb sz =
     (if set_blocksize \<noteq> 0 then (0, sb)
      else (sz, sb\<lparr>s_blocksize := sz, s_blocksize_bits := int (blksize_bits (nat sz))\<rparr>))"

section \<open>Mounting\<close>

text \<open>
  What the rest of the kernel supplies to a mount: the name of the file system type, whether each
  allocation succeeds, and what the memory of the directory tree held.
\<close>

record mount_env =
  m_type_name :: bytes
  m_sb_ok :: bool
  m_tree_ok :: bool
  m_list_ok :: "nat \<Rightarrow> bool"
  m_root_list_ok :: bool
  m_junk :: dir_tree
  m_ht_ok :: bool
  m_dentry_ok :: bool

definition zero_sb_info :: "platform \<Rightarrow> dir_tree \<Rightarrow> flatfs_sb_info" where
  "zero_sb_info P t =
     \<lparr>root = 0, dtree_root = t, sb_name = replicate 256 0, hashtbl = (\<lambda>_. None), big_dir_hashtbl = (\<lambda>_. None),
      big_dir_bitmap = [0], big_dir_num = 0, sb_slack = replicate (pf_slack P) 0, dle_heap = (\<lambda>_. None), dle_next = 0\<rparr>"

definition strcpy :: "bytes \<Rightarrow> bytes \<Rightarrow> bytes res" where
  "strcpy dst src = bind_res (my_strlen src) (\<lambda>n. memcpy dst src (nat n + 1))"

text \<open>
  \<open>bitmap_zero\<close> is told that the bitmap of 64 bits has \<open>1 << MAX_DIR_BITS\<close>: it clears the words that
  follow it in the same allocation too.
\<close>

definition init_big_dirs :: "flatfs_sb_info \<Rightarrow> flatfs_sb_info res" where
  "init_big_dirs sb =
     (let sb = sb\<lparr>big_dir_num := 0\<rparr> in
      bind_res (bitmap_zero (sb_tail sb) NR_DIRS) (\<lambda>t.
      Inr (sb\<lparr>big_dir_bitmap := take 1 t, big_dir_num := ucast (t ! 1), sb_slack := drop 2 t\<rparr>)))"

definition fill_sb_info :: "platform \<Rightarrow> mount_env \<Rightarrow> int \<Rightarrow> flatfs_sb_info \<Rightarrow> flatfs_sb_info res" where
  "fill_sb_info P M isize ffs_sb =
     bind_res (init_dir_tree (m_tree_ok M) (m_list_ok M) (m_junk M)) (\<lambda>t.
     bind_res (init_root_entry (m_root_list_ok M) (ffs_sb\<lparr>dtree_root := t\<rparr>) isize) (\<lambda>ffs_sb.
     bind_res (init_file_ht (m_ht_ok M)) (\<lambda>h.
     init_big_dirs (ffs_sb\<lparr>hashtbl := (hashtbl ffs_sb)(unat FLATFS_ROOT_INO := h)\<rparr>))))"

text \<open>
  The superblock at block 1 is read and ignored. The name of the root dentry is printed before the
  test whether there is one.
\<close>

definition flatfs_fill_super ::
  "platform \<Rightarrow> kenv \<Rightarrow> mount_env \<Rightarrow> super_block \<Rightarrow> ffs_state \<Rightarrow> (int \<times> super_block \<times> ffs_state) res" where
  "flatfs_fill_super P K M sb st =
     (let (bh, bf) = sb_bread (bufs st) 1; st = st\<lparr>bufs := bf\<rparr> in
      if \<not> m_sb_ok M then Inl NullDeref
      else bind_res (strcpy (sb_name (zero_sb_info P (m_junk M))) (m_type_name M)) (\<lambda>nm.
      let ffs_sb = (zero_sb_info P (m_junk M))\<lparr>sb_name := nm\<rparr>;
          sb = sb\<lparr>s_maxbytes := MAX_LFS_FILESIZE, s_blocksize := 2 ^ BLOCK_SHIFT, s_blocksize_bits := int BLOCK_SHIFT,
                  s_magic := FLATFS_MAGIC, s_time_gran := 1\<rparr> in
      bind_res (flatfs_iget K (S_IFDIR OR 0x1ED) 0 st) (\<lambda>(inode, st).
      case inode of
        None \<Rightarrow> Inr (- 12, sb, st)
      | Some a \<Rightarrow>
          bind_res (upd_inode (\<lambda>fi. fi\<lparr>i_ino := dir_id_to_inode FLATFS_ROOT_INO\<rparr>) inode st) (\<lambda>st.
          bind_res (FFS_I st inode) (\<lambda>(a, fi).
          bind_res (fill_sb_info P M (i_size fi) ffs_sb) (\<lambda>ffs_sb.
          let st = st\<lparr>sbi := ffs_sb\<rparr>; sb = sb\<lparr>s_fs_info := True\<rparr> in
          if \<not> m_dentry_ok M then Inl NullDeref
          else let sb = sb\<lparr>s_root := inode\<rparr> in
          bind_res (mark_inode_dirty P inode st) (\<lambda>st.
          bind_res (unlock_new_inode inode st) (\<lambda>st.
          Inr (0, sb, st)))))))))"

text \<open>Unmounting frees the in-memory superblock and nothing that hangs off it.\<close>

definition flatfs_put_super :: "flatfs_sb_info option \<Rightarrow> flatfs_sb_info option" where
  "flatfs_put_super ffs_sb = (case ffs_sb of None \<Rightarrow> None | Some _ \<Rightarrow> None)"

definition flatfs_super_statfs :: int where "flatfs_super_statfs = 0"

section \<open>Module entry and exit\<close>

text \<open>The constructor of the slab cache initialises the VFS part of each new inode object.\<close>

definition init_once :: "(ffs_inode_info \<Rightarrow> ffs_inode_info) \<Rightarrow> ffs_inode_info \<Rightarrow> ffs_inode_info" where
  "init_once inode_init_once fi = inode_init_once fi"

record module_state =
  inode_cachep :: bool
  registered :: bool

definition init_inodecache :: "bool \<Rightarrow> module_state \<Rightarrow> int \<times> module_state" where
  "init_inodecache cache_ok m = (let m = m\<lparr>inode_cachep := cache_ok\<rparr> in if \<not> inode_cachep m then (- 12, m) else (0, m))"

definition destroy_inodecache :: "module_state \<Rightarrow> module_state" where
  "destroy_inodecache m = m\<lparr>inode_cachep := False\<rparr>"

definition init_flatfs_fs :: "bool \<Rightarrow> int \<Rightarrow> module_state \<Rightarrow> int \<times> module_state" where
  "init_flatfs_fs cache_ok register_filesystem m =
     (let (err, m) = init_inodecache cache_ok m
      in if err \<noteq> 0 then (err, m)
         else let err = register_filesystem in
              if err \<noteq> 0 then (err, destroy_inodecache m) else (0, m\<lparr>registered := True\<rparr>))"

definition exit_flatfs_fs :: "module_state \<Rightarrow> module_state" where
  "exit_flatfs_fs m = destroy_inodecache (m\<lparr>registered := False\<rparr>)"

end
