(* ===== verification/Inode_Props.thy ===== *)
theory Inode_Props
  imports Create_Lemmas Super
begin

text \<open>
  Properties of the inode operations that span the components: creating a file, finding it on its
  page, and looking it up.
\<close>

section \<open>A small mounted state\<close>

definition zero_buf :: buffer_head where
  "zero_buf = \<lparr>b_data = replicate BLOCK_BYTES 0, b_uptodate = True, b_dirty = False, b_locked = False, b_count = 0,
     b_private = None, b_end_io = False\<rparr>"

definition blank_inode :: ffs_inode_info where
  "blank_inode = \<lparr>fi_dir_id = 0, fi_bucket_id = 0, fi_slot_id = 0, fi_valid = 0, fi_is_big_dir = 0, fi_big_dir_id = - 1, fi_size = 0,
     fi_filename = \<lparr>name_len = 0, fname = replicate 482 0\<rparr>, fi_test = 0, i_ino = 0, i_mode = 0, i_uid = 0, i_gid = 0, i_size = 0,
     i_nlink = 1, i_rdev = 0, i_new = False, i_version = 0, i_op = NoOps, i_atime = 0, i_mtime = 0, i_ctime = 0\<rparr>"

definition demo_dir :: ffs_inode_info where
  "demo_dir = blank_inode\<lparr>fi_dir_id := 2, fi_bucket_id := - 1, fi_slot_id := - 1, fi_valid := 1,
     i_ino := dir_id_to_inode 2, i_mode := S_IFDIR\<rparr>"

definition demo_env :: kenv where
  "demo_env = \<lparr>k_uid = 0, k_gid = 0, k_now = 0, k_inode = Some blank_inode, k_dle = True, k_ht = True, k_big = Some empty_bt\<rparr>"

text \<open>A slab cache that hands out the lowest free address.\<close>

definition first_free :: "(nat \<Rightarrow> 'a option) \<Rightarrow> nat" where
  "first_free m = (LEAST a. m a = None)"

lemma first_free: "finite (dom m) \<Longrightarrow> m (first_free m) = None"
  unfolding first_free_def by (rule LeastI_ex) (metis ex_new_if_finite infinite_UNIV_nat domIff)

lemma first_free_is: "m a = None \<Longrightarrow> (\<And>b. b < a \<Longrightarrow> m b \<noteq> None) \<Longrightarrow> first_free m = a"
  unfolding first_free_def by (rule Least_equality) (metis not_le)+

definition demo_st :: "flatfs_sb_info \<Rightarrow> ffs_state" where
  "demo_st sb = \<lparr>sbi = sb\<lparr>hashtbl := [2 \<mapsto> empty_ht]\<rparr>, bufs = (\<lambda>_. Some zero_buf), inodes = [0 \<mapsto> demo_dir], slab = first_free,
     icache = (\<lambda>_. None), pending = [], io_uptodate = True, bd_inode = True, s_dev = 0\<rparr>"

lemma demo_sel [simp]:
  "fi_dir_id demo_dir = 2" "fi_is_big_dir demo_dir = 0" "i_ino demo_dir = dir_id_to_inode 2"
  "k_inode demo_env = Some blank_inode" "k_dle demo_env" "k_ht demo_env"
  "fname (fi_filename blank_inode) = replicate 482 0"
  "inodes (demo_st sb) 0 = Some demo_dir" "hashtbl (sbi (demo_st sb)) 2 = Some empty_ht"
  "icache (demo_st sb) i = None" "bd_inode (demo_st sb)" "readable (bufs (demo_st sb)) n (replicate BLOCK_BYTES 0)"
  by (simp_all add: demo_dir_def blank_inode_def demo_env_def demo_st_def readable_def zero_buf_def)

lemma demo_slab [simp]: "inode_next (demo_st sb) = Suc 0" "slab_ok (demo_st sb)" "slab (demo_st sb) = first_free"
  by (auto simp: inode_next_def slab_ok_def demo_st_def first_free intro: first_free_is)

lemma zero_page [simp]: "s < 8 \<Longrightarrow> k < 500 \<Longrightarrow> replicate BLOCK_BYTES (0::u8) ! (k + slot_off s) = 0"
  by (simp add: slot_off_def block_simps)

lemma zero_page_stored: "x \<noteq> 0 \<Longrightarrow> \<not> stored (replicate BLOCK_BYTES 0) (x # nm) s"
  by (auto simp: stored_def drop_replicate) (metis in_set_replicate list.set_intros(1))

lemma find_only:
  assumes "s < n" "\<And>k. k < n \<Longrightarrow> Q k \<longleftrightarrow> k = s \<and> b"
  shows "find Q [0..<n] = (if b then Some s else None)"
  using assms by (auto simp: find_Some_iff find_None_iff intro!: exI [of _ s])

lemma get_file_seg_any:
  assumes "0 \<notin> set nm" "length nm < 482" "readable (bufs st) (page_lba P dfi (ht_home (nm @ [0]))) blk"
  obtains f bf where "get_file_seg P dfi (Some t) (nm @ [0]) st = Inr (f, st\<lparr>bufs := bf\<rparr>)"
  using get_file_seg_run [OF assms, of t] that [of 0 "bufs st"] that by (auto split: if_splits simp del: upt_rec_numeral)

section \<open>Creating a file and finding it\<close>

text \<open>
  C1: Creating a file in an ordinary directory whose bucket for the name is not locked and has a free slot, in a
  page that can be read and does not store the name yet: the call returns 0 and the new inode has the number of a
  free slot of the name's bucket. The name is written without a terminating NUL, so what a search of the page for
  the name then gives depends on the byte that was behind the name in that slot: if it was 0 the search finds
  exactly that slot, and if a longer name was there before the search finds nothing.
\<close>
theorem create_then_find:
  assumes "inodes st d = Some dfi" "slab_ok st" "k_inode K = Some mem" "length (fname (fi_filename mem)) = 482"
    and "fi_dir_id dfi = int p" "p < NR_DIRS" "fi_is_big_dir dfi = 0" "hashtbl (sbi st) p = Some t" "ht_inv t"
    and "ht_ready P t (ht_home (nm @ [0]))" "s0 < 8" "(ht_home (nm @ [0]), s0) \<notin> ht_taken t"
    and "\<forall>s<8. icache st (file_ino p (ht_home (nm @ [0])) s) = None" "0 \<notin> set nm" "length nm < 256"
    and "bd_inode st" "readable (bufs st) (page_lba P dfi (ht_home (nm @ [0]))) blk" "(mode OR S_IFREG) AND S_IFDIR = 0"
    and new: "\<forall>s<8. \<not> stored blk nm s"
  shows "\<exists>s st' st'' fi. s < 8 \<and> (ht_home (nm @ [0]), s) \<notin> ht_taken t \<and>
    ffs_create P K (Some d) (name_arg nm) mode st = Inr (0, Some (inode_next st), st') \<and>
    inodes st' (inode_next st) = Some fi \<and> i_ino fi = file_ino p (ht_home (nm @ [0])) s \<and>
    get_file_seg P dfi (hashtbl (sbi st') p) (nm @ [0]) st' =
      Inr (if blk ! (slot_off s + 17 + length nm) = 0 then file_seg (ht_home (nm @ [0])) s else 0, st'')"
proof -
  let ?h = "ht_home (nm @ [0])" and ?m = "mode OR S_IFREG"
  obtain s st' t' blk' where c: "s < 8" "(?h, s) \<notin> ht_taken t"
    "ffs_mknod P K (Some d) (name_arg nm) ?m 0 st = Inr (0, Some (inode_next st), st')"
    "inodes st' = (inodes st)(inode_next st \<mapsto> file_inode K ?m mem p ?h s nm)"
    "sbi st' = (sbi st)\<lparr>hashtbl := (hashtbl (sbi st))(p \<mapsto> t')\<rparr>" "ht_taken t' = insert (?h, s) (ht_taken t)"
    "page_after (file_inode K ?m mem p ?h s nm) s blk blk'" "readable (bufs st') (page_lba P dfi ?h) blk'"
    unfolding name_arg_def using create_run [OF assms(1-18)] by blast
  have nm: "length nm < 482" using assms(15) by simp
  have "unat (of_nat (length nm) :: u8) = length nm" using assms(15) by (simp add: unat_of_nat_less)
  then have "stored blk' nm s \<longleftrightarrow> blk ! (slot_off s + 17 + length nm) = 0"
    by (intro stored_here [OF c(7,1)]) (use nm in \<open>simp_all add: file_inode_def\<close>)
  moreover have "\<not> stored blk' nm s'" if "s' < 8" "s' \<noteq> s" for s' using stored_other [OF c(7) that nm] new that by simp
  ultimately have f: "find (stored blk' nm) [0..<8] = (if blk ! (slot_off s + 17 + length nm) = 0 then Some s else None)"
    using c(1) by (intro find_only) auto
  have "test_bit s (slot_bitmap (ht_buckets t' ?h))" using c(1,6) by (auto simp: arr_taken_def set_eq_iff)
  then have "\<exists>st''. get_file_seg P dfi (Some t') (nm @ [0]) st' =
      Inr (if blk ! (slot_off s + 17 + length nm) = 0 then file_seg ?h s else 0, st'')"
    using get_file_seg_run [OF assms(14) nm c(8), of t'] f c(1) by (auto simp del: upt_rec_numeral)
  then show ?thesis using c(1-5) by (auto simp: ffs_create_def file_inode_def)
qed

theorem create_then_find_witness:
  "\<exists>st s st' st''. ffs_create x86_64_smp demo_env (Some 0) (name_arg [97]) 0x1A4 st = Inr (0, Some 1, st') \<and>
     get_file_seg x86_64_smp demo_dir (hashtbl (sbi st') 2) [97, 0] st' = Inr (file_seg (ht_home [97, 0]) s, st'')"
  using create_then_find [of "demo_st blank_sb" 0 demo_dir demo_env blank_inode 2 empty_ht x86_64_smp "[97]" 0
      "replicate BLOCK_BYTES 0" "0x1A4"]
  by (fastforce simp: zero_page_stored S_IFREG_def S_IFDIR_def small_dirs)

lemma dir_by_name_hashtbl [simp]: "dir_by_name_loop (sb\<lparr>hashtbl := x\<rparr>) nm n q i = dir_by_name_loop sb nm n q i"
proof (induction n arbitrary: q)
  case (Suc n)
  then show ?case by (simp add: get_dle_def get_de_def bind_res_def split: option.split sum.split)
qed simp

lemma dir_inode_by_name_hashtbl [simp]:
  "flatfs_dir_inode_by_name (sb\<lparr>hashtbl := x\<rparr>) i nm = flatfs_dir_inode_by_name sb i nm"
  by (simp add: flatfs_dir_inode_by_name_def Let_def get_de_def)

text \<open>The inode numbers that a lookup computes for files: the directory id it passes on is -1.\<close>

lemma lookup_dir_id: "cint (uint (drop_bit (MIN_FILE_BUCKET_BITS + FILE_SLOT_BITS) (0 - 1 :: u64))) = - 1"
  by code_simp

lemma lookup_number_high: "2 ^ 63 \<le> unat (f OR word_of_int (cint (push_bit (FILE_SLOT_BITS + MIN_FILE_BUCKET_BITS) (- 1))) :: u64)"
proof -
  let ?x = "f OR word_of_int (cint (push_bit (FILE_SLOT_BITS + MIN_FILE_BUCKET_BITS) (- 1))) :: u64"
  have "(word_of_int (cint (push_bit (FILE_SLOT_BITS + MIN_FILE_BUCKET_BITS) (- 1))) :: u64) = - 32768"
    by code_simp
  moreover have "bit (- 32768 :: u64) 63" by simp
  ultimately have "bit ?x 63" by (simp add: bit_or_iff)
  then have "bit (unat ?x) 63" by (simp only: bit_unsigned_iff) simp
  then have "odd (unat ?x div 2 ^ 63)" unfolding bit_iff_odd .
  then have "unat ?x div 2 ^ 63 \<noteq> 0" by (metis even_zero)
  then show ?thesis by (simp add: div_eq_0_iff not_less)
qed

lemma number_differs:
  assumes "p < NR_DIRS" "b < NR_BUCKETS" "s < 8"
  shows "f OR word_of_int (cint (push_bit (FILE_SLOT_BITS + MIN_FILE_BUCKET_BITS) (- 1))) \<noteq> file_ino p b s"
proof
  assume "f OR word_of_int (cint (push_bit (FILE_SLOT_BITS + MIN_FILE_BUCKET_BITS) (- 1))) = file_ino p b s"
  then have "2 ^ 63 \<le> unat (file_ino p b s)" using lookup_number_high [of f] by simp
  then show False using file_ino_fields(4) [OF assms] assms by (simp add: layout_simps)
qed

text \<open>The inode hash refers to live inodes only.\<close>

definition icache_ok :: "ffs_state \<Rightarrow> bool" where
  "icache_ok st \<longleftrightarrow> (\<forall>i a. icache st i = Some a \<longrightarrow> inodes st a \<noteq> None)"

lemma icache_ok_free: "icache_ok st \<Longrightarrow> slab_ok st \<Longrightarrow> icache st i \<noteq> Some (inode_next st)"
  using inode_next_free [of st] unfolding icache_ok_def by metis

lemma iget_locked_other:
  assumes "icache_ok st" "icache st ino \<noteq> Some a" "slab_ok st" "inodes st a \<noteq> None" "k_inode K = Some mem"
  obtains a' st' fi where "iget_locked K ino st = (Some a', st')" "a' \<noteq> a" "inodes st' a' = Some fi"
proof (cases "icache st ino")
  case None
  then show thesis using that [of "inode_next st"] assms(4,5) inode_next_free [OF assms(3)] by (fastforce simp: iget_locked_def ffs_alloc_inode_def Let_def)
next
  case (Some x)
  then obtain fi where "inodes st x = Some fi" using assms(1) by (auto simp: icache_ok_def)
  with Some that assms(2) show thesis by (simp add: iget_locked_def)
qed

lemma lookup_splice:
  assumes "inodes st d = Some dfi" "q_len name \<le> int FFS_MAX_FILENAME_LEN"
    and "lookup_ino P dfi name st = Inr (ino, did, st1)" "ino \<noteq> 0"
    and "iget_locked K ino st1 = (Some a', st')" "inodes st' a' = Some fi"
  shows "\<exists>st''. ffs_lookup P K bk (Some d) name st = Inr (Splice (Some a'), st'')"
  using assms by (simp add: ffs_lookup_def Let_def unlock_new_inode_def upd_inode_def)

text \<open>
  C30: Looking up a file that was just created never returns its inode: the directory id that the
  lookup puts into the number is that of inode number 0, namely -1, so the number differs from the
  one the file was created with; and a file in bucket 0, slot 0 is reported as missing.
\<close>
theorem lookup_misses_created_file:
  assumes "inodes st d = Some dfi" "slab_ok st" "k_inode K = Some mem" "length (fname (fi_filename mem)) = 482"
    and "fi_dir_id dfi = int p" "p < NR_DIRS" "fi_is_big_dir dfi = 0" "hashtbl (sbi st) p = Some t" "ht_inv t"
    and "ht_ready P t (ht_home (nm @ [0]))" "s0 < 8" "(ht_home (nm @ [0]), s0) \<notin> ht_taken t"
    and "\<forall>s<8. icache st (file_ino p (ht_home (nm @ [0])) s) = None" "0 \<notin> set nm" "length nm < 256"
    and "bd_inode st" "readable (bufs st) (page_lba P dfi (ht_home (nm @ [0]))) blk" "(mode OR S_IFREG) AND S_IFDIR = 0"
    and ic: "icache_ok st" and dno: "i_ino dfi = dir_id_to_inode (of_nat p)"
    and nodir: "flatfs_dir_inode_by_name (sbi st) (i_ino dfi) (name_arg nm) = Inr 0"
  shows "\<exists>st' r st''. ffs_create P K (Some d) (name_arg nm) mode st = Inr (0, Some (inode_next st), st') \<and>
    ffs_lookup P K bk (Some d) (name_arg nm) st' = Inr (Splice r, st'') \<and> r \<noteq> Some (inode_next st)"
proof -
  let ?h = "ht_home (nm @ [0])" and ?m = "mode OR S_IFREG" and ?a = "inode_next st"
  obtain s st' t' blk' where c: "s < 8"
    "ffs_mknod P K (Some d) (name_arg nm) ?m 0 st = Inr (0, Some ?a, st')"
    "inodes st' = (inodes st)(?a \<mapsto> file_inode K ?m mem p ?h s nm)" "icache st' = (icache st)(file_ino p ?h s \<mapsto> ?a)"
    "sbi st' = (sbi st)\<lparr>hashtbl := (hashtbl (sbi st))(p \<mapsto> t')\<rparr>" "slab st' = slab st"
    "readable (bufs st') (page_lba P dfi ?h) blk'"
    unfolding name_arg_def using create_run [OF assms(1-18)] by blast
  have nm: "length nm < 482" using assms(15) by simp
  have d': "inodes st' d = Some dfi" using c(3) assms(1) inode_next_free [OF assms(2)] by auto
  have q: "q_len (name_arg nm) \<le> int FFS_MAX_FILENAME_LEN" using assms(15) by (simp add: layout_simps)
  have pi: "uint (inode_to_dir_id (i_ino dfi)) = int p"
    using assms(6) by (simp add: dno dir_id_inode_id layout_simps unat_of_nat_less uint_nat)
  obtain f bf where f: "get_file_seg P dfi (Some t') (nm @ [0]) st' = Inr (f, st'\<lparr>bufs := bf\<rparr>)"
    by (rule get_file_seg_any [OF assms(14) nm c(7)])
  let ?ino = "if f = 0 then 0 else f OR word_of_int (cint (push_bit (FILE_SLOT_BITS + MIN_FILE_BUCKET_BITS) (- 1)))"
  have li: "lookup_ino P dfi (name_arg nm) st' = Inr (?ino, - 1, st'\<lparr>bufs := bf\<rparr>)"
    using nodir assms(6,7) f
    by (simp add: lookup_ino_def c(5) lookup_dir_id [simplified] pi flatfs_file_inode_by_name_def)
  have cr: "ffs_create P K (Some d) (name_arg nm) mode st = Inr (0, Some ?a, st')" using c(2) by (simp add: ffs_create_def)
  show ?thesis
  proof (cases "?ino = 0")
    case True
    then have "ffs_lookup P K bk (Some d) (name_arg nm) st' = Inr (Splice None, st'\<lparr>bufs := bf\<rparr>)"
      using d' q li by (simp add: ffs_lookup_def Let_def)
    with cr show ?thesis by blast
  next
    case False
    let ?st = "st'\<lparr>bufs := bf\<rparr>"
    have ne: "?ino \<noteq> file_ino p ?h s" using False number_differs [OF assms(6) ht_home_less c(1)] by auto
    have icst: "icache ?st = (icache st)(file_ino p ?h s \<mapsto> ?a)" using c(4) by simp
    have "slab_ok ?st" using slab_ok_inodes [OF assms(2) c(6)] c(3) by (metis dom_fun_upd option.distinct(1) order_refl slab_ok_frame(2))
    moreover have "icache_ok ?st" using ic c(3,4) by (auto simp: icache_ok_def)
    moreover have "icache ?st ?ino \<noteq> Some ?a" 
      unfolding trans [OF fun_cong [OF icst] fun_upd_other [OF ne]] by (rule icache_ok_free [OF ic assms(2)])
    ultimately obtain a' st2 fi where "iget_locked K ?ino ?st = (Some a', st2)" "a' \<noteq> ?a" "inodes st2 a' = Some fi"
      using iget_locked_other [of ?st ?ino ?a K mem] c(3) assms(3) by auto
    with lookup_splice [OF d' q li False] cr show ?thesis by blast
  qed
qed

lemma demo_lookup_none:
  obtains sb where "flatfs_dir_inode_by_name (sbi (demo_st sb)) (dir_id_to_inode 2) (name_arg [97]) = Inr 0"
proof -
  obtain sb where "tree_ok sb (\<lambda>_. [])" by (rule mounted_sb)
  then have "flatfs_dir_inode_by_name sb (dir_id_to_inode 2) (name_arg [97]) = Inr 0"
    using lookup_dir [of sb "\<lambda>_. []" 2 "[97]"] small_dirs by simp
  then show thesis by (intro that [of sb]) (simp add: demo_st_def)
qed

theorem lookup_misses_created_file_witness:
  "\<exists>st st' r st''. ffs_create x86_64_smp demo_env (Some 0) (name_arg [97]) 0x1A4 st = Inr (0, Some 1, st') \<and>
     ffs_lookup x86_64_smp demo_env 0 (Some 0) (name_arg [97]) st' = Inr (Splice r, st'') \<and> r \<noteq> Some 1"
proof -
  obtain sb where sb: "flatfs_dir_inode_by_name (sbi (demo_st sb)) (dir_id_to_inode 2) (name_arg [97]) = Inr 0"
    by (rule demo_lookup_none)
  have "icache_ok (demo_st sb)" by (simp add: icache_ok_def)
  then show ?thesis
    using lookup_misses_created_file [of "demo_st sb" 0 demo_dir demo_env blank_inode 2 empty_ht x86_64_smp "[97]" 0
        "replicate BLOCK_BYTES 0" "0x1A4" 0] sb small_dirs
    by (fastforce simp: S_IFREG_def S_IFDIR_def)
qed

end
