(* ===== verification/Mkdir_Props.thy ===== *)
theory Mkdir_Props
  imports Inode_Props
begin

text \<open>Making, finding and removing directories through the inode operations.\<close>

section \<open>Inodes of directories\<close>

definition dir_inode_ok :: "ffs_inode_info \<Rightarrow> nat \<Rightarrow> bool" where
  "dir_inode_ok fi i \<longleftrightarrow> fi_dir_id fi = int i \<and> fi_bucket_id fi = - 1 \<and> (fi_slot_id fi = - 1 \<or> fi_slot_id fi = 0) \<and>
     length (fname (fi_filename fi)) = 482"

text \<open>The blocks that hold the inodes of directories can be read.\<close>

definition dir_blocks :: "buffers \<Rightarrow> bool" where
  "dir_blocks bf \<longleftrightarrow> (\<forall>i<NR_DIRS. \<exists>blk. readable bf (of_nat i) blk)"

lemma dir_pblk: "dir_inode_ok fi i \<Longrightarrow> inode_pblk P fi = of_nat i"
  by (simp add: dir_inode_ok_def inode_pblk_def ffs_get_lba_dir_meta_def)

lemma fill_raw_len:
  assumes "dir_inode_ok fi i" "length blk = BLOCK_BYTES"
  obtains blk' where "fill_raw_inode fi blk = Inr blk'" "length blk' = BLOCK_BYTES"
proof (cases "fi_valid fi = 0")
  case True
  then show thesis using that [of blk] assms by (simp add: fill_raw_inode_def)
next
  case False
  show thesis
  proof (cases "fi_slot_id fi = - 1")
    case True
    let ?ri = "\<lparr>ri_valid = fi_valid fi, ri_size = i_size fi, ri_filename = fi_filename fi\<rparr>"
    have "raw_ok ?ri" using assms by (simp add: raw_ok_def dir_inode_ok_def)
    moreover have "0 + INODE_BYTES \<le> length blk" using assms by (simp add: block_simps)
    ultimately obtain blk' where "write_raw blk 0 ?ri = Inr blk'" "only_at 0 INODE_BYTES blk blk'"
      using write_raw_run [of 0 blk ?ri] by metis
    then show thesis
      using that [of blk'] False True assms name_len_max [of "name_len (fi_filename fi)"]
      by (simp add: fill_raw_inode_def only_at_def layout_simps)
  next
    case neg: False
    then show thesis using that fill_raw_file [of fi 0 blk] assms False by (auto simp: dir_inode_ok_def page_after_def)
  qed
qed

lemma dirty_dir:
  assumes "inodes st a = Some fi" "dir_inode_ok fi i" "i < NR_DIRS" "bd_inode st" "dir_blocks (bufs st)"
  obtains bf where "ffs_dirty_inode P (Some a) st = Inr (st\<lparr>bufs := bf\<rparr>)" "dir_blocks bf"
proof -
  obtain blk where rd: "readable (bufs st) (inode_pblk P fi) blk" using assms by (auto simp: dir_blocks_def dir_pblk [OF assms(2)])
  then have "length blk = BLOCK_BYTES" by (simp add: readable_def)
  then obtain blk' where blk': "fill_raw_inode fi blk = Inr blk'" "length blk' = BLOCK_BYTES" by (rule fill_raw_len [OF assms(2)])
  obtain bf where bf: "ffs_dirty_inode P (Some a) st = Inr (st\<lparr>bufs := bf\<rparr>)" "readable bf (inode_pblk P fi) blk'"
    "\<forall>n. n \<noteq> inode_pblk P fi \<longrightarrow> bf n = bufs st n"
    using dirty_inode_run [OF assms(1,4) rd blk'] by blast
  have "\<exists>b. readable bf (of_nat j) b" if "j < NR_DIRS" for j
  proof (cases "of_nat j = inode_pblk P fi")
    case False
    then have "readable bf (of_nat j) = readable (bufs st) (of_nat j)" using bf(3) by (simp add: readable_def fun_eq_iff)
    then show ?thesis using assms(5) that by (simp add: dir_blocks_def)
  qed (use bf(2) in auto)
  then show thesis using that [OF bf(1)] by (simp add: dir_blocks_def)
qed

section \<open>Making a directory\<close>

definition new_dir_inode :: "kenv \<Rightarrow> u16 \<Rightarrow> ffs_inode_info \<Rightarrow> nat \<Rightarrow> bytes \<Rightarrow> ffs_inode_info" where
  "new_dir_inode K mode mem i nm = (fresh_inode K mode mem)\<lparr>fi_dir_id := int i, fi_bucket_id := - 1, fi_slot_id := - 1,
     fi_valid := 1, fi_is_big_dir := 0, fi_big_dir_id := - 1,
     fi_filename := \<lparr>name_len = of_nat (length nm), fname = nm @ drop (length nm) (fname (fi_filename mem))\<rparr>, fi_test := 0\<rparr>"

lemma new_dir_inode_ok: "length nm < 256 \<Longrightarrow> length (fname (fi_filename mem)) = 482 \<Longrightarrow> dir_inode_ok (new_dir_inode K mode mem i nm) i"
  by (simp add: dir_inode_ok_def new_dir_inode_def)

lemma mknod_dir_run:
  assumes nm: "0 \<notin> set nm" "length nm < 256" and mem: "length (fname (fi_filename mem)) = 482"
    and p: "fi_dir_id dfi = int p" and K: "k_dle K" "k_ht K" and i: "i < NR_DIRS"
    and f: "fill_one_dir_entry (sbi st) (nm @ [0]) = Inr (of_nat i, sb1)" "insert_dir True sb1 (of_nat p) (of_nat i) = Inr sb2"
    and a: "inodes st a = Some (fresh_inode K mode mem)"
  shows "mknod_dir K dfi (nm @ [0]) (Some a) st = Inr (dir_id_to_inode (of_nat i),
    st\<lparr>sbi := sb2\<lparr>hashtbl := (hashtbl sb2)(i \<mapsto> empty_ht)\<rparr>, inodes := (inodes st)(a \<mapsto> new_dir_inode K mode mem i nm)\<rparr>)"
proof -
  have u: "uint (of_nat i :: u64) = int i" using i by (simp add: uint_nat unat_of_nat_less layout_simps)
  have c: "cint (int i) = int i" using i by (simp add: cint_id layout_simps)
  have s: "set_name (nm @ [0]) ((fresh_inode K mode mem)\<lparr>fi_dir_id := int i, fi_bucket_id := - 1, fi_slot_id := - 1, fi_valid := 1,
     fi_is_big_dir := 0, fi_big_dir_id := - 1\<rparr>) = Inr ((fresh_inode K mode mem)\<lparr>fi_dir_id := int i, fi_bucket_id := - 1,
     fi_slot_id := - 1, fi_valid := 1, fi_is_big_dir := 0, fi_big_dir_id := - 1,
     fi_filename := \<lparr>name_len = of_nat (length nm), fname = nm @ drop (length nm) (fname (fi_filename mem))\<rparr>\<rparr>)"
    by (subst set_name_run) (use nm mem in simp_all)
  show ?thesis
    using f K i p a s
    by (simp add: mknod_dir_def u c init_file_ht_ok empty_ht_def Let_def FFS_I_def put_inode_def new_dir_inode_def dir_id_to_inode_def)
qed

lemma tree_ok_hashtbl [simp]: "tree_ok (sb\<lparr>hashtbl := x\<rparr>) C = tree_ok sb C" "ids_ok (sb\<lparr>hashtbl := x\<rparr>) C = ids_ok sb C"
  by (simp_all add: tree_ok_def dir_children_def child_def ids_ok_def)

lemma mode_dir: "(mode OR S_IFDIR) AND S_IFDIR \<noteq> 0"
proof
  assume "(mode OR S_IFDIR) AND S_IFDIR = 0"
  then have "bit ((mode OR S_IFDIR) AND S_IFDIR) 14 = bit (0::u16) 14" by simp
  then show False by (simp add: S_IFDIR_def bit_or_iff bit_and_iff)
qed

lemma dir_ino_nonzero: "i < NR_DIRS \<Longrightarrow> dir_id_to_inode (of_nat i) \<noteq> 0"
proof
  assume i: "i < NR_DIRS" and "dir_id_to_inode (of_nat i) = 0"
  then have "inode_to_dir_id 0 = of_nat i" using dir_id_inode_id [of "of_nat i"] by (simp add: unat_of_nat_less layout_simps)
  then have "uint (inode_to_dir_id 0) = int i" using i by (simp add: uint_nat unat_of_nat_less layout_simps)
  moreover have "uint (inode_to_dir_id 0) = 2 ^ 49 - 1" by code_simp
  ultimately show False using i by (simp add: layout_simps)
qed

text \<open>
  The directory branch of \<open>ffs_mknod\<close>, which every mode with the bit of \<open>S_IFDIR\<close> takes.
\<close>

lemma mknod_dirbit_run:
  assumes dir: "inodes st d = Some dfi" "slab_ok st" "fi_dir_id dfi = int p"
    and mem: "k_inode K = Some mem" "length (fname (fi_filename mem)) = 482" and K: "k_dle K" "k_ht K"
    and nm: "0 \<notin> set nm" "length nm < 256" and i: "i < NR_DIRS" "icache st (dir_id_to_inode (of_nat i)) = None"
    and f: "fill_one_dir_entry (sbi st) (nm @ [0]) = Inr (of_nat i, sb1)" "insert_dir True sb1 (of_nat p) (of_nat i) = Inr sb2"
    and bl: "bd_inode st" "dir_blocks (bufs st)" and m: "m AND S_IFDIR \<noteq> 0"
  obtains st' where "ffs_mknod P K (Some d) (name_arg nm) m 0 st = Inr (0, Some (inode_next st), st')"
    "sbi st' = sb2\<lparr>hashtbl := (hashtbl sb2)(i \<mapsto> empty_ht)\<rparr>"
    "inodes st' = (inodes st)(inode_next st \<mapsto> (new_dir_inode K m mem i nm)\<lparr>i_ino := dir_id_to_inode (of_nat i), i_new := False\<rparr>)"
    "icache st' = (icache st)(dir_id_to_inode (of_nat i) \<mapsto> inode_next st)"
proof -
  let ?a = "inode_next st" and ?ino = "dir_id_to_inode (of_nat i)"
  define fi where "fi = new_dir_inode K m mem i nm"
  define st2 where "st2 = st\<lparr>sbi := sb2\<lparr>hashtbl := (hashtbl sb2)(i \<mapsto> empty_ht)\<rparr>, inodes := (inodes st)(?a \<mapsto> fi)\<rparr>"
  have mk: "mknod_dir K dfi (nm @ [0]) (Some ?a) (put_inode ?a (fresh_inode K m mem) st) = Inr (?ino, st2)"
    by (subst mknod_dir_run [OF nm mem(2) dir(3) K i(1)])
      (use f in \<open>simp_all add: put_inode_def st2_def fi_def\<close>)
  have fok: "dir_inode_ok (fi\<lparr>i_ino := ?ino, i_new := True\<rparr>) i" "dir_inode_ok fi i"
    using new_dir_inode_ok [OF nm(2) mem(2), of K m i] by (simp_all add: fi_def dir_inode_ok_def)
  obtain blk where rd: "readable (bufs st) (of_nat i) blk" using bl(2) i(1) by (auto simp: dir_blocks_def)
  then have "length blk = BLOCK_BYTES" by (simp add: readable_def)
  then obtain blk' where blk': "fill_raw_inode (fi\<lparr>i_ino := ?ino, i_new := True\<rparr>) blk = Inr blk'" "length blk' = BLOCK_BYTES"
    by (rule fill_raw_len [OF fok(1)])
  have "\<exists>bf st'. mknod_finish P ?ino (Some ?a) st2 = Inr (0, Some ?a, st') \<and>
    st' = st2\<lparr>inodes := (inodes st2)(?a \<mapsto> fi\<lparr>i_ino := ?ino, i_new := False\<rparr>), icache := (icache st2)(?ino \<mapsto> ?a), bufs := bf\<rparr> \<and>
    readable bf (inode_pblk P fi) blk' \<and> (\<forall>n. n \<noteq> inode_pblk P fi \<longrightarrow> bf n = bufs st2 n)"
    by (rule mknod_finish_run [OF _ _ _ blk']) (use i bl rd dir_pblk [OF fok(2)] in \<open>simp_all add: st2_def\<close>)
  then obtain bf st3 where st3: "mknod_finish P ?ino (Some ?a) st2 = Inr (0, Some ?a, st3)"
    "st3 = st2\<lparr>inodes := (inodes st2)(?a \<mapsto> fi\<lparr>i_ino := ?ino, i_new := False\<rparr>), icache := (icache st2)(?ino \<mapsto> ?a), bufs := bf\<rparr>"
    by blast
  have "ffs_mknod P K (Some d) (name_arg nm) m 0 st = Inr (0, Some ?a, st3)"
    using mk st3(1) dir m inode_next_other [OF dir(2,1)] by (simp add: ffs_mknod_def get_inode_run [OF mem(1)])
  then show thesis by (rule that) (simp_all add: st3(2) st2_def fi_def)
qed

lemma mkdir_run:
  assumes dir: "inodes st d = Some dfi" "slab_ok st" "fi_dir_id dfi = int p"
    and mem: "k_inode K = Some mem" "length (fname (fi_filename mem)) = 482" and K: "k_dle K" "k_ht K"
    and nm: "0 \<notin> set nm" "length nm < 256" and i: "i < NR_DIRS" "icache st (dir_id_to_inode (of_nat i)) = None"
    and f: "fill_one_dir_entry (sbi st) (nm @ [0]) = Inr (of_nat i, sb1)" "insert_dir True sb1 (of_nat p) (of_nat i) = Inr sb2"
    and bl: "bd_inode st" "dir_blocks (bufs st)"
  obtains st' where "ffs_mkdir P K (Some d) (name_arg nm) mode st = Inr (0, Some (inode_next st), st')"
    "sbi st' = sb2\<lparr>hashtbl := (hashtbl sb2)(i \<mapsto> empty_ht)\<rparr>"
    "inodes st' = (inodes st)(inode_next st \<mapsto> (new_dir_inode K (mode OR S_IFDIR) mem i nm)\<lparr>i_ino := dir_id_to_inode (of_nat i), i_new := False\<rparr>,
       d \<mapsto> dfi\<lparr>i_nlink := i_nlink dfi + 1\<rparr>)"
    "icache st' = (icache st)(dir_id_to_inode (of_nat i) \<mapsto> inode_next st)"
proof -
  obtain st3 where st3: "ffs_mknod P K (Some d) (name_arg nm) (mode OR S_IFDIR) 0 st = Inr (0, Some (inode_next st), st3)"
    "sbi st3 = sb2\<lparr>hashtbl := (hashtbl sb2)(i \<mapsto> empty_ht)\<rparr>"
    "inodes st3 = (inodes st)(inode_next st \<mapsto> (new_dir_inode K (mode OR S_IFDIR) mem i nm)\<lparr>i_ino := dir_id_to_inode (of_nat i), i_new := False\<rparr>)"
    "icache st3 = (icache st)(dir_id_to_inode (of_nat i) \<mapsto> inode_next st)"
    by (rule mknod_dirbit_run [OF assms mode_dir])
  then have "inodes st3 d = Some dfi" using dir inode_next_other [OF dir(2,1)] by simp
  with st3(1) have "ffs_mkdir P K (Some d) (name_arg nm) mode st =
      Inr (0, Some (inode_next st), put_inode d (dfi\<lparr>i_nlink := i_nlink dfi + 1\<rparr>) st3)"
    by (simp add: ffs_mkdir_def inc_nlink_def upd_inode_def)
  then show thesis by (rule that) (simp_all add: st3)
qed

text \<open>
  C2: Making a directory and looking it up: with an id free and the name new in its parent, the
  directory operation \<open>mkdir\<close> returns 0 with a new inode, gives the directory an empty file table and
  keeps the tree well-formed, and \<open>lookup\<close> of the name in the parent then returns that very inode.
\<close>
theorem mkdir_then_ffs_lookup:
  assumes "inodes st d = Some dfi" "slab_ok st" "fi_dir_id dfi = int p" "k_inode K = Some mem"
    and "length (fname (fi_filename mem)) = 482" "k_dle K" "k_ht K" "0 \<notin> set nm" "length nm < 256"
    and dno: "i_ino dfi = dir_id_to_inode (of_nat p)" and p: "p < NR_DIRS" "test_bit p (id_map (sbi st))"
    and tree: "tree_ok (sbi st) C" "ids_ok (sbi st) C" "Suc (length (C p)) < NR_DIRS" "\<exists>i<NR_DIRS. \<not> test_bit i (id_map (sbi st))"
    and new: "\<forall>a \<in> set (C p). \<not> dir_named (sbi st) nm (child (sbi st) a)"
    and bl: "bd_inode st" "dir_blocks (bufs st)"
    and ic: "\<forall>i<NR_DIRS. \<not> test_bit i (id_map (sbi st)) \<longrightarrow> icache st (dir_id_to_inode (of_nat i)) = None"
  shows "\<exists>i st' st''. \<not> test_bit i (id_map (sbi st)) \<and>
    ffs_mkdir P K (Some d) (name_arg nm) mode st = Inr (0, Some (inode_next st), st') \<and>
    tree_ok (sbi st') (C(p := C p @ [dle_next (sbi st)])) \<and> hashtbl (sbi st') i = Some empty_ht \<and>
    ffs_lookup P K bk (Some d) (name_arg nm) st' = Inr (Splice (Some (inode_next st)), st'')"
proof -
  have nm: "length nm \<le> 482" using assms(9) by simp
  obtain i sb1 sb2 where m: "fill_one_dir_entry (sbi st) (nm @ [0]) = Inr (of_nat i, sb1)"
    "insert_dir True sb1 (of_nat p) (of_nat i) = Inr sb2" "i < NR_DIRS" "\<not> test_bit i (id_map (sbi st))"
    "tree_ok sb2 (C(p := C p @ [dle_next (sbi st)]))"
    "flatfs_dir_inode_by_name sb2 (dir_id_to_inode (of_nat p)) (name_arg nm) = Inr (dir_id_to_inode (of_nat i))"
    using mkdir_found [OF tree(1,2) p tree(3,4) assms(8) nm new] by metis
  have ici: "icache st (dir_id_to_inode (of_nat i)) = None" using ic m(3,4) by simp
  obtain st' where r: "ffs_mkdir P K (Some d) (name_arg nm) mode st = Inr (0, Some (inode_next st), st')"
    "sbi st' = sb2\<lparr>hashtbl := (hashtbl sb2)(i \<mapsto> empty_ht)\<rparr>"
    "inodes st' = (inodes st)(inode_next st \<mapsto> (new_dir_inode K (mode OR S_IFDIR) mem i nm)\<lparr>i_ino := dir_id_to_inode (of_nat i), i_new := False\<rparr>,
       d \<mapsto> dfi\<lparr>i_nlink := i_nlink dfi + 1\<rparr>)"
    "icache st' = (icache st)(dir_id_to_inode (of_nat i) \<mapsto> inode_next st)"
    by (rule mkdir_run [OF assms(1-9) m(3) ici m(1,2) bl])
  let ?dfi = "dfi\<lparr>i_nlink := i_nlink dfi + 1\<rparr>"
  have d: "inodes st' d = Some ?dfi" using r(3) by simp
  have q: "q_len (name_arg nm) \<le> int FFS_MAX_FILENAME_LEN" using assms(9) by (simp add: layout_simps)
  have li: "lookup_ino P ?dfi (name_arg nm) st' = Inr (dir_id_to_inode (of_nat i),
      cint (uint (drop_bit (MIN_FILE_BUCKET_BITS + FILE_SLOT_BITS) (dir_id_to_inode (of_nat i) - 1))), st')"
    using m(6) dir_ino_nonzero [OF m(3)] by (simp add: lookup_ino_def r(2) dno Let_def)
  have ig: "iget_locked K (dir_id_to_inode (of_nat i)) st' = (Some (inode_next st), st')"
    using r(4) by (simp add: iget_locked_def)
  obtain fi where fi: "inodes st' (inode_next st) = Some fi" using r(3) inode_next_other [OF assms(2,1)] by simp
  obtain st'' where "ffs_lookup P K bk (Some d) (name_arg nm) st' = Inr (Splice (Some (inode_next st)), st'')"
    using lookup_splice [OF d q li dir_ino_nonzero [OF m(3)] ig fi] by blast
  moreover have "tree_ok (sbi st') (C(p := C p @ [dle_next (sbi st)]))" "hashtbl (sbi st') i = Some empty_ht"
    using m(5) r(2) by simp_all
  ultimately show ?thesis using m(4) r(1) by blast
qed

lemma demo_mounted:
  obtains sb where "tree_ok (sbi (demo_st sb)) (\<lambda>_. [])" "ids_ok (sbi (demo_st sb)) (\<lambda>_. [])"
    "\<forall>i. test_bit i (id_map (sbi (demo_st sb))) \<longleftrightarrow> i < 3" "\<exists>i<NR_DIRS. \<not> test_bit i (id_map (sbi (demo_st sb)))"
    "nul_ok (sbi (demo_st sb))" "dir_blocks (bufs (demo_st sb))"
proof -
  obtain sb where "tree_ok sb (\<lambda>_. [])" "ids_ok sb (\<lambda>_. [])" "\<forall>i. test_bit i (id_map sb) \<longleftrightarrow> i < 3"
    "\<exists>i<NR_DIRS. \<not> test_bit i (id_map sb)" "listing_ok sb []" "nul_ok sb" by (rule mounted_sb)
  then show thesis by (intro that [of sb]) (simp_all add: demo_st_def dir_blocks_def readable_def zero_buf_def nul_ok_def)
qed

theorem mkdir_then_ffs_lookup_witness:
  "\<exists>st st' st''. ffs_mkdir x86_64_smp demo_env (Some 0) (name_arg [97]) 0x1ED st = Inr (0, Some 1, st') \<and>
     ffs_lookup x86_64_smp demo_env 0 (Some 0) (name_arg [97]) st' = Inr (Splice (Some 1), st'')"
proof -
  obtain sb where sb: "tree_ok (sbi (demo_st sb)) (\<lambda>_. [])" "ids_ok (sbi (demo_st sb)) (\<lambda>_. [])"
    "\<forall>i. test_bit i (id_map (sbi (demo_st sb))) \<longleftrightarrow> i < 3" "\<exists>i<NR_DIRS. \<not> test_bit i (id_map (sbi (demo_st sb)))"
    "nul_ok (sbi (demo_st sb))" "dir_blocks (bufs (demo_st sb))" by (rule demo_mounted)
  show ?thesis
    using mkdir_then_ffs_lookup [of "demo_st sb" 0 demo_dir 2 demo_env blank_inode "[97]" "\<lambda>_. []" x86_64_smp "0x1ED" 0] sb small_dirs
    by fastforce
qed

section \<open>Removing a directory\<close>

lemma clear_name_ok:
  assumes "length (fname f) = 482"
  obtains g where "clear_name f = Inr g" "length (fname g) = 482"
  using that [of "\<lparr>name_len = 0, fname = replicate (unat (name_len f)) 0 @ drop (unat (name_len f)) (fname f)\<rparr>"]
    assms name_len_max [of "name_len f"] by (simp add: clear_name_def)

lemma dec_link_dir:
  assumes "inodes st a = Some fi" "dir_inode_ok fi i" "i < NR_DIRS" "bd_inode st" "dir_blocks (bufs st)"
  obtains bf where "inode_dec_link_count P (Some a) st = Inr (st\<lparr>inodes := (inodes st)(a \<mapsto> fi\<lparr>i_nlink := i_nlink fi - 1\<rparr>), bufs := bf\<rparr>)"
    "dir_blocks bf"
proof -
  let ?fi = "fi\<lparr>i_nlink := i_nlink fi - 1\<rparr>" and ?st = "put_inode a (fi\<lparr>i_nlink := i_nlink fi - 1\<rparr>) st"
  have "dir_inode_ok ?fi i" using assms(2) by (simp add: dir_inode_ok_def)
  then obtain bf where "ffs_dirty_inode P (Some a) ?st = Inr (?st\<lparr>bufs := bf\<rparr>)" "dir_blocks bf"
    using dirty_dir [of ?st a ?fi i P] assms by auto
  then show thesis
    using that assms(1) by (simp add: inode_dec_link_count_def drop_nlink_def upd_inode_def mark_inode_dirty_def put_inode_def)
qed

lemma unlink_dir_run:
  assumes i: "inodes st a = Some fi" "inodes st d = Some dfi" "dir_inode_ok fi i" "fi_slot_id fi = - 1" "i < NR_DIRS"
    and bl: "bd_inode st" "dir_blocks (bufs st)"
  obtains bf fn where "ffs_unlink P (Some d) (Some a) st = Inr (0, st\<lparr>inodes := (inodes st)(a \<mapsto> fi\<lparr>fi_valid := 0, fi_filename := fn,
      i_ctime := i_ctime dfi, i_nlink := i_nlink fi - 1\<rparr>), bufs := bf\<rparr>)" "dir_blocks bf" "length (fname fn) = 482"
proof -
  obtain fn where fn: "clear_name (fi_filename fi) = Inr fn" "length (fname fn) = 482"
    by (rule clear_name_ok [of "fi_filename fi"]) (use i(3) in \<open>auto simp: dir_inode_ok_def\<close>)
  let ?fi = "fi\<lparr>fi_valid := 0, fi_filename := fn, i_ctime := i_ctime dfi\<rparr>" and ?st = "put_inode a (fi\<lparr>fi_valid := 0, fi_filename := fn, i_ctime := i_ctime dfi\<rparr>) st"
  have "dir_inode_ok ?fi i" using i(3) fn(2) by (simp add: dir_inode_ok_def)
  then obtain bf where bf: "inode_dec_link_count P (Some a) ?st = Inr (?st\<lparr>inodes := (inodes ?st)(a \<mapsto> ?fi\<lparr>i_nlink := i_nlink ?fi - 1\<rparr>), bufs := bf\<rparr>)"
    "dir_blocks bf"
    using dec_link_dir [of ?st a ?fi i P] i(5) bl by auto
  have "ffs_unlink P (Some d) (Some a) st = Inr (0, st\<lparr>inodes := (inodes st)(a \<mapsto> fi\<lparr>fi_valid := 0, fi_filename := fn,
      i_ctime := i_ctime dfi, i_nlink := i_nlink fi - 1\<rparr>), bufs := bf\<rparr>)"
    using i fn(1) bf(1) by (simp add: ffs_unlink_def put_inode_def)
  then show thesis by (rule that) (rule bf(2), rule fn(2))
qed

lemma rmdir_run:
  assumes i: "inodes st a = Some fi" "inodes st d = Some dfi" "a \<noteq> d" "dir_inode_ok fi i" "fi_slot_id fi = - 1" "dir_inode_ok dfi p"
    and n: "i < NR_DIRS" "p < NR_DIRS" "i_ino fi = dir_id_to_inode (of_nat i)" "i_ino dfi = dir_id_to_inode (of_nat p)"
    and z: "i_size fi = 0" "fi_big_dir_id fi = - 1" and bl: "bd_inode st" "dir_blocks (bufs st)"
    and r: "remove_dir (sbi st) (dir_id_to_inode (of_nat p)) (dir_id_to_inode (of_nat i)) (- 1) = Inr sb"
  obtains st' where "ffs_rmdir P (Some d) (Some a) st = Inr (0, st')" "sbi st' = sb"
proof -
  obtain bf fn where u: "ffs_unlink P (Some d) (Some a) st = Inr (0, st\<lparr>inodes := (inodes st)(a \<mapsto> fi\<lparr>fi_valid := 0, fi_filename := fn,
      i_ctime := i_ctime dfi, i_nlink := i_nlink fi - 1\<rparr>), bufs := bf\<rparr>)" "dir_blocks bf" "length (fname fn) = 482"
    by (rule unlink_dir_run [OF i(1,2,4,5) n(1) bl])
  define fi1 where "fi1 = fi\<lparr>fi_valid := 0, fi_filename := fn, i_ctime := i_ctime dfi, i_nlink := i_nlink fi - 1, i_size := 0\<rparr>"
  define st1 where "st1 = st\<lparr>inodes := (inodes st)(a \<mapsto> fi1), bufs := bf\<rparr>"
  have "inodes st1 a = Some fi1" "bd_inode st1" "dir_blocks (bufs st1)" "dir_inode_ok fi1 i"
    using u bl i(4) by (simp_all add: st1_def fi1_def dir_inode_ok_def)
  then obtain bf2 where 2: "inode_dec_link_count P (Some a) st1 = Inr (st1\<lparr>inodes := (inodes st1)(a \<mapsto> fi1\<lparr>i_nlink := i_nlink fi1 - 1\<rparr>), bufs := bf2\<rparr>)"
    "dir_blocks bf2" using dec_link_dir [of st1 a fi1 i P] n(1) by blast
  define st2 where "st2 = st1\<lparr>inodes := (inodes st1)(a \<mapsto> fi1\<lparr>i_nlink := i_nlink fi1 - 1\<rparr>), bufs := bf2\<rparr>"
  have "inodes st2 d = Some dfi" "bd_inode st2" "dir_blocks (bufs st2)" using i(2,3) bl 2 by (simp_all add: st2_def st1_def)
  then obtain bf3 where 3: "inode_dec_link_count P (Some d) st2 = Inr (st2\<lparr>inodes := (inodes st2)(d \<mapsto> dfi\<lparr>i_nlink := i_nlink dfi - 1\<rparr>), bufs := bf3\<rparr>)"
    using dec_link_dir [of st2 d dfi p P] i(6) n(2) by blast
  define st3 where "st3 = st2\<lparr>inodes := (inodes st2)(d \<mapsto> dfi\<lparr>i_nlink := i_nlink dfi - 1\<rparr>), bufs := bf3\<rparr>"
  have f: "FFS_I st3 (Some d) = Inr (d, dfi\<lparr>i_nlink := i_nlink dfi - 1\<rparr>)" "FFS_I st3 (Some a) = Inr (a, fi1\<lparr>i_nlink := i_nlink fi1 - 1\<rparr>)"
    "sbi st3 = sbi st" using i(3) by (simp_all add: st3_def st2_def st1_def FFS_I_def)
  have up: "upd_inode (\<lambda>fi. fi\<lparr>i_size := 0\<rparr>) (Some a) (st\<lparr>inodes := (inodes st)(a \<mapsto> fi\<lparr>fi_valid := 0, fi_filename := fn,
      i_ctime := i_ctime dfi, i_nlink := i_nlink fi - 1\<rparr>), bufs := bf\<rparr>) = Inr st1"
    by (simp add: upd_inode_def FFS_I_def put_inode_def st1_def fi1_def)
  have "ffs_rmdir P (Some d) (Some a) st = Inr (0, st3\<lparr>sbi := sb\<rparr>)"
  proof -
    have "i_ino fi1 = i_ino fi" "fi_big_dir_id fi1 = - 1" using z(2) by (simp_all add: fi1_def)
    then show ?thesis
      using i(1) z(1) u(1) up 2(1) [folded st2_def] 3 [folded st3_def] f r n by (simp add: ffs_rmdir_def)
  qed
  then show thesis by (rule that) simp
qed

text \<open>
  C32: Removing a directory that still holds files succeeds: the only emptiness test is the size of
  its inode, which is 0 for every directory. The files' table is freed with it.
\<close>
theorem rmdir_discards_files:
  assumes "inodes st a = Some fi" "inodes st d = Some dfi" "a \<noteq> d" "dir_inode_ok fi i" "fi_slot_id fi = - 1" "dir_inode_ok dfi p"
    and "i < NR_DIRS" "p < NR_DIRS" "i_ino fi = dir_id_to_inode (of_nat i)" "i_ino dfi = dir_id_to_inode (of_nat p)"
    and "i_size fi = 0" "fi_big_dir_id fi = - 1" "bd_inode st" "dir_blocks (bufs st)"
    and T: "tree_ok (sbi st) C" "nul_ok (sbi st)" "p \<noteq> i" "C p = xs @ x # ys" "child (sbi st) x = i" "\<forall>y \<in> set xs. child (sbi st) y \<noteq> i"
      "C i = []" "ys \<noteq> [] \<or> xs = []"
    and files: "hashtbl (sbi st) i = Some t" "ht_taken t \<noteq> {}"
  shows "\<exists>st'. ffs_rmdir P (Some d) (Some a) st = Inr (0, st') \<and> hashtbl (sbi st') i = None \<and> tree_ok (sbi st') (C(p := xs @ ys))"
proof -
  obtain sb where sb: "remove_dir (sbi st) (dir_id_to_inode (of_nat p)) (dir_id_to_inode (of_nat i)) (- 1) = Inr sb"
    "tree_ok sb (C(p := xs @ ys))" "hashtbl sb i = None"
    using remove_dir_ok [OF T(1) assms(8,7) T(3-7) nul_ok_mem [OF T(1,2) assms(7)] _ T(8), of "- 1"] by auto
  obtain st' where "ffs_rmdir P (Some d) (Some a) st = Inr (0, st')" "sbi st' = sb"
    by (rule rmdir_run [OF assms(1-14) sb(1)])
  with sb show ?thesis by auto
qed

lemma hashtbl_frame [simp]: "nul_ok (sb\<lparr>hashtbl := h\<rparr>) = nul_ok sb" "child (sb\<lparr>hashtbl := h\<rparr>) = child sb"
  by (simp_all add: nul_ok_def child_def fun_eq_iff)

theorem rmdir_discards_files_witness:
  "\<exists>st i st' t. hashtbl (sbi st) i = Some t \<and> ht_taken t \<noteq> {} \<and>
     ffs_rmdir x86_64_smp (Some 0) (Some 1) st = Inr (0, st') \<and> hashtbl (sbi st') i = None"
proof -
  obtain sb C x y i j where t: "tree_ok sb C" "ids_ok sb C" "nul_ok sb" "C 2 = [x, y]" "child sb x = i" "child sb y = j" "i \<noteq> j"
    "i \<noteq> 2" "j \<noteq> 2" "i < NR_DIRS" "j < NR_DIRS" "C i = []" "C j = []" by (rule two_dirs)
  let ?t = "empty_ht\<lparr>ht_buckets := (\<lambda>_. full_bucket)\<rparr>"
  let ?fi = "blank_inode\<lparr>fi_dir_id := int i, fi_bucket_id := - 1, fi_slot_id := - 1, i_ino := dir_id_to_inode (of_nat i)\<rparr>"
  let ?st = "(demo_st sb)\<lparr>sbi := sb\<lparr>hashtbl := [i \<mapsto> ?t]\<rparr>, inodes := [0 \<mapsto> demo_dir, 1 \<mapsto> ?fi]\<rparr>"
  have d: "dir_inode_ok ?fi i" "dir_inode_ok demo_dir 2" "dir_blocks (bufs ?st)" "i_size ?fi = 0" "fi_big_dir_id ?fi = - 1"
    by (simp_all add: dir_inode_ok_def blank_inode_def demo_dir_def dir_blocks_def readable_def demo_st_def zero_buf_def)
  have "(0, 0) \<in> ht_taken ?t" by (simp add: full_arr layout_simps)
  then have ne: "ht_taken ?t \<noteq> {}" by blast
  have "\<exists>st'. ffs_rmdir x86_64_smp (Some 0) (Some 1) ?st = Inr (0, st') \<and> hashtbl (sbi st') i = None \<and> tree_ok (sbi st') (C(2 := [] @ [y]))"
    by (rule rmdir_discards_files [where fi = ?fi and dfi = demo_dir and x = x and t = ?t]) (use t d ne small_dirs in simp_all)
  then obtain st' where r: "ffs_rmdir x86_64_smp (Some 0) (Some 1) ?st = Inr (0, st')" "hashtbl (sbi st') i = None" by blast
  have h: "hashtbl (sbi ?st) i = Some ?t" by simp
  show ?thesis by (intro exI conjI) (rule h, rule ne, rule r(1), rule r(2))
qed

end
