(* ===== verification/Mount_Props.thy ===== *)
theory Mount_Props
  imports Mkdir_Props
begin

text \<open>What a successful mount establishes.\<close>

lemma root_block: "ffs_get_lba_dir_meta (dir_id_to_inode FLATFS_ROOT_INO) (cint (uint FLATFS_ROOT_INO)) = 2"
  by code_simp

lemma root_cint: "cint (uint FLATFS_ROOT_INO) = 2"
  by code_simp

definition root_inode :: "kenv \<Rightarrow> ffs_inode_info \<Rightarrow> ffs_inode_info" where
  "root_inode K mem = init_vfs_inode K (S_IFDIR OR 0x1ED) 0
     (mem\<lparr>i_version := 1, i_ino := dir_id_to_inode FLATFS_ROOT_INO, i_new := True, fi_valid := 1, fi_bucket_id := - 1, fi_dir_id := 2,
       fi_is_big_dir := 0, fi_big_dir_id := - 1, fi_test := 0, fi_slot_id := 0,
       fi_filename := \<lparr>name_len = 1, fname = 47 # drop 1 (fname (fi_filename mem))\<rparr>\<rparr>)"

lemma root_inode_sel:
  "length (fname (fi_filename mem)) = 482 \<Longrightarrow> dir_inode_ok (root_inode K mem) 2" "i_ino (root_inode K mem) = dir_id_to_inode 2"
  "i_size (root_inode K mem) = 0" "fi_is_big_dir (root_inode K mem) = 0"
  by (simp_all add: root_inode_def dir_inode_ok_def init_vfs_inode_def set_ops_def FLATFS_ROOT_INO_def)

lemma iget_root_run:
  assumes "icache st (dir_id_to_inode 2) = None" "k_inode K = Some mem" "length (fname (fi_filename mem)) = 482" "readable (bufs st) 2 blk"
  shows "flatfs_iget K (S_IFDIR OR 0x1ED) 0 st = Inr (Some (inode_next st), st\<lparr>
    icache := (icache st)(dir_id_to_inode 2 \<mapsto> inode_next st), bufs := held (bufs st) 2, inodes := (inodes st)(inode_next st \<mapsto> root_inode K mem)\<rparr>)"
proof -
  obtain b where b: "sb_bread (bufs st) 2 = (Some 2, held (bufs st) 2)" "get_bh (held (bufs st) 2) (Some 2) = Inr (2, b)"
    using readable_bread [OF assms(4), of undefined st] by auto
  have r: "FLATFS_ROOT_INO = 2" by (simp add: layout_simps)
  have lba: "ffs_get_lba_dir_meta (dir_id_to_inode 2) 2 = 2" using root_block root_cint by (simp add: r)
  have c2: "cint 2 = 2" by code_simp
  show ?thesis
    using assms(1-3) b
    by (simp add: flatfs_iget_def iget_locked_def r ffs_alloc_inode_def Let_def lba c2 memcpy_def root_inode_def
        put_inode_def FFS_I_def)
qed

lemma init_big_dirs_run:
  assumes "length (big_dir_bitmap sb) = 1" "254 \<le> length (sb_slack sb)"
  shows "\<exists>sl. init_big_dirs sb = Inr (sb\<lparr>big_dir_bitmap := [0], big_dir_num := 0, sb_slack := sl\<rparr>)"
proof -
  have "BITS_TO_LONGS NR_DIRS = 256" by (simp add: BITS_TO_LONGS_def BITS_PER_LONG_def layout_simps)
  then show ?thesis
    using assms by (intro exI [of _ "replicate 254 0 @ drop 254 (sb_slack sb)"]) (simp add: init_big_dirs_def Let_def bitmap_zero_def sb_tail_def nth_append)
qed

lemma mount_run:
  assumes M: "m_sb_ok M" "m_tree_ok M" "\<forall>i. m_list_ok M i" "m_root_list_ok M" "m_ht_ok M" "m_dentry_ok M"
    and nm: "m_type_name M = nm @ [0]" "0 \<notin> set nm" "length nm < 256"
    and junk: "\<forall>i<NR_DIRS. length (dir_name (de (m_junk M) i)) = 482" "length (dir_id_bitmap (m_junk M)) = 256"
    and K: "k_inode K = Some mem" "length (fname (fi_filename mem)) = 482"
    and st: "icache st (dir_id_to_inode 2) = None" "bd_inode st" "dir_blocks (bufs st)" and slack: "254 \<le> pf_slack P"
  shows "\<exists>sb' st' fi. flatfs_fill_super P K M sb st = Inr (0, sb', st') \<and> s_root sb' = Some (inode_next st) \<and>
    tree_ok (sbi st') (\<lambda>_. []) \<and> ids_ok (sbi st') (\<lambda>_. []) \<and> (\<forall>i. test_bit i (id_map (sbi st')) \<longleftrightarrow> i < 3) \<and>
    hashtbl (sbi st') = [2 \<mapsto> empty_ht] \<and> big_dir_bitmap (sbi st') = [0] \<and>
    icache st' (dir_id_to_inode 2) = Some (inode_next st) \<and> inodes st' (inode_next st) = Some fi \<and>
    i_ino fi = dir_id_to_inode 2 \<and> dir_inode_ok fi 2 \<and> dir_blocks (bufs st') \<and> fi_is_big_dir fi = 0 \<and>
    bd_inode st' \<and> slab st' = slab st \<and> inodes st' = (inodes st)(inode_next st \<mapsto> fi) \<and> icache st' = (icache st)(dir_id_to_inode 2 \<mapsto> inode_next st)"
proof -
  let ?a = "inode_next st"
  have db: "dir_blocks (held bf n) = dir_blocks bf" for bf n by (simp add: dir_blocks_def readable_held)
  define st0 where "st0 = st\<lparr>bufs := held (bufs st) 1\<rparr>"
  have s0: "icache st0 (dir_id_to_inode 2) = None" "bd_inode st0" "dir_blocks (bufs st0)" "inode_next st0 = ?a"
    using st by (simp_all add: st0_def db)
  have two: "2 < NR_DIRS" by (simp add: layout_simps)
  obtain blk where "readable (bufs st0) (of_nat 2) blk" using s0(3) two unfolding dir_blocks_def by blast
  then have rd: "readable (bufs st0) 2 blk" by simp
  define st1 where "st1 = st0\<lparr>icache := (icache st0)(dir_id_to_inode 2 \<mapsto> ?a),
    bufs := held (bufs st0) 2, inodes := (inodes st0)(?a \<mapsto> root_inode K mem)\<rparr>"
  have ig: "flatfs_iget K (S_IFDIR OR 0x1ED) 0 st0 = Inr (Some ?a, st1)"
    using iget_root_run [OF s0(1) K rd] s0(4) by (simp add: st1_def)
  have cpy: "strcpy (replicate 256 0) (nm @ [0]) = Inr (nm @ 0 # replicate (255 - length nm) 0)"
    using nm by (simp add: strcpy_def my_strlen_name memcpy_def nat_add_distrib)
  define z where "z = (zero_sb_info P (m_junk M))\<lparr>sb_name := nm @ 0 # replicate (255 - length nm) 0\<rparr>"
  have heap: "dle_heap z = (\<lambda>_. None)" by (simp add: z_def zero_sb_info_def)
  obtain t z1 where t: "init_dir_tree True (\<lambda>_. True) (m_junk M) = Inr t" "init_root_entry True (z\<lparr>dtree_root := t\<rparr>) 0 = Inr z1"
    "tree_ok z1 (\<lambda>_. [])" "ids_ok z1 (\<lambda>_. [])" "\<forall>i. test_bit i (id_map z1) \<longleftrightarrow> i < 3" "z1 = z\<lparr>dtree_root := dtree_root z1, root := 2\<rparr>"
    using mount_tree [OF junk heap] by blast
  have zf: "big_dir_bitmap z1 = [0]" "length (sb_slack z1) = pf_slack P" "hashtbl z1 = (\<lambda>_. None)"
    by (subst t(6), simp add: z_def zero_sb_info_def)+
  obtain sl where sl: "init_big_dirs (z1\<lparr>hashtbl := [2 \<mapsto> empty_ht]\<rparr>) = Inr (z1\<lparr>hashtbl := [2 \<mapsto> empty_ht], big_dir_bitmap := [0], big_dir_num := 0, sb_slack := sl\<rparr>)"
    using init_big_dirs_run [of "z1\<lparr>hashtbl := [2 \<mapsto> empty_ht]\<rparr>"] zf slack by auto
  let ?z = "z1\<lparr>hashtbl := [2 \<mapsto> empty_ht], big_dir_bitmap := [0], big_dir_num := 0, sb_slack := sl\<rparr>"
  have lo: "m_list_ok M = (\<lambda>_. True)" using M(3) by (simp add: fun_eq_iff)
  have fs: "fill_sb_info P M 0 z = Inr ?z"
    using M t(1,2) sl zf(3) by (simp add: fill_sb_info_def lo init_file_ht_ok layout_simps flip: empty_ht_def)
  have ri: "(root_inode K mem)\<lparr>i_ino := dir_id_to_inode 2\<rparr> = root_inode K mem" using root_inode_sel(2) [of K mem] by simp
  define st2 where "st2 = st1\<lparr>sbi := ?z\<rparr>"
  have i2: "inodes st2 ?a = Some (root_inode K mem)" "bd_inode st2" "dir_blocks (bufs st2)"
    using s0 by (simp_all add: st2_def st1_def db)
  obtain bf where bf: "ffs_dirty_inode P (Some ?a) st2 = Inr (st2\<lparr>bufs := bf\<rparr>)" "dir_blocks bf"
    by (rule dirty_dir [OF i2(1) root_inode_sel(1) [OF K(2)] two i2(2,3)])
  let ?sb = "sb\<lparr>s_maxbytes := MAX_LFS_FILESIZE, s_blocksize := 2 ^ BLOCK_SHIFT, s_blocksize_bits := int BLOCK_SHIFT,
                  s_magic := FLATFS_MAGIC, s_time_gran := 1, s_fs_info := True, s_root := Some ?a\<rparr>"
  let ?st = "put_inode ?a ((root_inode K mem)\<lparr>i_new := False\<rparr>) (st2\<lparr>bufs := bf\<rparr>)"
  have "flatfs_fill_super P K M sb st = Inr (0, ?sb, ?st)"
  proof -
    have br: "sb_bread (bufs st) 1 = (fst (sb_bread (bufs st) 1), held (bufs st) 1)" by (simp add: held_def)
    have zn: "sb_name (zero_sb_info P (m_junk M)) = replicate 256 0" by (simp add: zero_sb_info_def)
    have u: "upd_inode (\<lambda>fi. fi\<lparr>i_ino := dir_id_to_inode FLATFS_ROOT_INO\<rparr>) (Some ?a) st1 = Inr st1"
      using ri by (simp add: upd_inode_def FFS_I_def st1_def put_inode_def FLATFS_ROOT_INO_def)
    have f: "FFS_I st1 (Some ?a) = Inr (?a, root_inode K mem)" by (simp add: st1_def FFS_I_def)
    show ?thesis
      unfolding flatfs_fill_super_def
      using M(1,6) cpy ig u f fs bf(1) i2(1)
      by (subst br) (simp add: Let_def nm(1) zn root_inode_sel mark_inode_dirty_def unlock_new_inode_def upd_inode_def
          flip: st0_def z_def st2_def)
  qed
  moreover have "tree_ok ?z (\<lambda>_. [])" "ids_ok ?z (\<lambda>_. [])"
    using t(3,4) by (simp_all add: tree_ok_def dir_children_def child_def ids_ok_def)
  ultimately show ?thesis
    using t(5) bf(2) root_inode_sel(1) [OF K(2), of K] root_inode_sel(2,4) [of K mem] st(2)
    by (intro exI [of _ ?sb] exI [of _ ?st] exI [of _ "(root_inode K mem)\<lparr>i_new := False\<rparr>"])
      (simp add: st2_def st1_def st0_def dir_inode_ok_def)
qed

text \<open>
  C14: Mounting with every allocation successful and the root's block readable returns 0 and leaves a
  well-formed file system: a directory tree with only the root, its ids reserved, an empty file table
  for the root and for nothing else, no big directories, and the root's inode in the inode hash under
  the number of directory 2. The oversized clearing of the big-directory bitmap stays inside the
  allocation when that has 254 more words.
\<close>
theorem mount_ok:
  assumes M: "m_sb_ok M" "m_tree_ok M" "\<forall>i. m_list_ok M i" "m_root_list_ok M" "m_ht_ok M" "m_dentry_ok M"
    and nm: "m_type_name M = nm @ [0]" "0 \<notin> set nm" "length nm < 256"
    and junk: "\<forall>i<NR_DIRS. length (dir_name (de (m_junk M) i)) = 482" "length (dir_id_bitmap (m_junk M)) = 256"
    and K: "k_inode K = Some mem" "length (fname (fi_filename mem)) = 482"
    and st: "icache st (dir_id_to_inode 2) = None" "bd_inode st" "dir_blocks (bufs st)" and slack: "254 \<le> pf_slack P"
  shows "\<exists>sb' st' fi. flatfs_fill_super P K M sb st = Inr (0, sb', st') \<and> s_root sb' = Some (inode_next st) \<and>
    tree_ok (sbi st') (\<lambda>_. []) \<and> ids_ok (sbi st') (\<lambda>_. []) \<and> (\<forall>i. test_bit i (id_map (sbi st')) \<longleftrightarrow> i < 3) \<and>
    hashtbl (sbi st') = [2 \<mapsto> empty_ht] \<and> big_dir_bitmap (sbi st') = [0] \<and>
    icache st' (dir_id_to_inode 2) = Some (inode_next st) \<and> inodes st' (inode_next st) = Some fi \<and>
    i_ino fi = dir_id_to_inode 2 \<and> dir_inode_ok fi 2 \<and> dir_blocks (bufs st')"
  using mount_run [OF assms] by metis

definition demo_mount :: mount_env where
  "demo_mount = \<lparr>m_type_name = [102, 108, 97, 116, 102, 115, 0], m_sb_ok = True, m_tree_ok = True, m_list_ok = (\<lambda>_. True),
     m_root_list_ok = True, m_junk = blank_tree, m_ht_ok = True, m_dentry_ok = True\<rparr>"

definition demo_super :: super_block where
  "demo_super = \<lparr>s_blocksize = 0, s_blocksize_bits = 0, s_maxbytes = 0, s_magic = 0, s_time_gran = 0, s_fs_info = False, s_root = None\<rparr>"

theorem mount_ok_witness:
  "\<exists>sb' st' fi. flatfs_fill_super x86_64_smp demo_env demo_mount demo_super (demo_st blank_sb) = Inr (0, sb', st') \<and>
     s_root sb' = Some 1 \<and> inodes st' 1 = Some fi \<and> i_ino fi = dir_id_to_inode 2"
proof -
  have db: "dir_blocks (bufs (demo_st blank_sb))" by (simp add: demo_st_def dir_blocks_def readable_def zero_buf_def)
  have nm: "m_type_name demo_mount = [102, 108, 97, 116, 102, 115] @ [0]" by (simp add: demo_mount_def)
  have junk: "\<forall>i<NR_DIRS. length (dir_name (de (m_junk demo_mount) i)) = 482" "length (dir_id_bitmap (m_junk demo_mount)) = 256"
    by (simp_all add: demo_mount_def blank_tree_def blank_entry_def)
  show ?thesis
    using mount_ok [OF _ _ _ _ _ _ nm _ _ junk, of demo_env blank_inode "demo_st blank_sb" x86_64_smp demo_super] db
    by (fastforce simp: demo_mount_def x86_64_smp_def)
qed

end
