(* ===== verification/File_Ops.thy ===== *)
theory File_Ops
  imports Inode_State
begin

text \<open>
  The data path of \<open>file.c\<close>: the block mapping function that all page-cache operations share, the
  size update of \<open>write_begin\<close>, and the address-space operations, which hand the mapping function
  to the generic routines of the kernel (parameters here).
\<close>

section \<open>Mapping a block of a file\<close>

text \<open>What \<open>map_bh\<close> and \<open>set_buffer_new\<close> record in the buffer head of a page.\<close>

record bh_map =
  m_blocknr :: u64
  m_mapped :: bool
  m_new :: bool

text \<open>
  \<open>iblock >= size\<close> compares an unsigned block number with a signed byte count, which C converts to
  unsigned.
\<close>

definition ffs_get_block_prep :: "platform \<Rightarrow> ffs_inode_info \<Rightarrow> u64 \<Rightarrow> bh_map \<Rightarrow> int \<times> bh_map" where
  "ffs_get_block_prep P fi iblock bh =
     (let pblk = (if fi_is_big_dir fi = 0 then ffs_get_lba_data P (pos_of fi) iblock
                  else ffs_get_big_file_lba_data P (pos_of fi) iblock);
          pblk = drop_bit BLOCK_SHIFT pblk;
          new = (word_of_int (fi_size fi) \<le> iblock);
          bh = bh\<lparr>m_blocknr := pblk, m_mapped := True\<rparr>
      in (0, if new then bh\<lparr>m_new := True\<rparr> else bh))"

type_synonym get_block = "ffs_inode_info \<Rightarrow> u64 \<Rightarrow> bh_map \<Rightarrow> int \<times> bh_map"

section \<open>Address-space operations\<close>

text \<open>
  \<open>block_write_begin\<close> is a parameter; whatever it returns, the size is raised afterwards. The end
  of the write is computed in 64-bit signed arithmetic.
\<close>

definition ffs_write_begin ::
  "platform \<Rightarrow> (get_block \<Rightarrow> 'm \<Rightarrow> int \<Rightarrow> u32 \<Rightarrow> u32 \<Rightarrow> int \<times> 'm) \<Rightarrow> nat option \<Rightarrow> int \<Rightarrow> u32 \<Rightarrow> u32 \<Rightarrow> 'm \<Rightarrow> ffs_state \<Rightarrow>
    (int \<times> 'm \<times> ffs_state) res" where
  "ffs_write_begin P block_write_begin host pos len flags m st =
     (let (ret, m) = block_write_begin (ffs_get_block_prep P) m pos len flags;
          end_pos = signed_take_bit 63 (pos + uint len)
      in bind_res (upd_inode (\<lambda>fi. if end_pos \<ge> fi_size fi then fi\<lparr>fi_size := end_pos\<rparr> else fi) host st) (\<lambda>st.
         Inr (ret, m, st)))"

definition ffs_writepage :: "platform \<Rightarrow> ('p \<Rightarrow> get_block \<Rightarrow> 'w \<Rightarrow> int) \<Rightarrow> 'p \<Rightarrow> 'w \<Rightarrow> int" where
  "ffs_writepage P block_write_full_page page wbc = block_write_full_page page (ffs_get_block_prep P) wbc"

definition ffs_writepages :: "platform \<Rightarrow> ('m \<Rightarrow> 'w \<Rightarrow> get_block \<Rightarrow> int) \<Rightarrow> 'm \<Rightarrow> 'w \<Rightarrow> int" where
  "ffs_writepages P mpage_writepages mapping wbc = mpage_writepages mapping wbc (ffs_get_block_prep P)"

definition ffs_readpage :: "platform \<Rightarrow> ('p \<Rightarrow> get_block \<Rightarrow> int) \<Rightarrow> 'p \<Rightarrow> int" where
  "ffs_readpage P mpage_readpage page = mpage_readpage page (ffs_get_block_prep P)"

definition ffs_readpages :: "platform \<Rightarrow> ('m \<Rightarrow> 'l \<Rightarrow> u32 \<Rightarrow> get_block \<Rightarrow> int) \<Rightarrow> 'm \<Rightarrow> 'l \<Rightarrow> u32 \<Rightarrow> int" where
  "ffs_readpages P mpage_readpages mapping pages nr_pages = mpage_readpages mapping pages nr_pages (ffs_get_block_prep P)"

definition ffs_direct_IO :: "platform \<Rightarrow> ('k \<Rightarrow> 'i \<Rightarrow> 't \<Rightarrow> get_block \<Rightarrow> int) \<Rightarrow> ('k \<Rightarrow> 'i) \<Rightarrow> 'k \<Rightarrow> 't \<Rightarrow> int" where
  "ffs_direct_IO P blockdev_direct_IO host_of iocb iter =
     (let inode = host_of iocb in blockdev_direct_IO iocb inode iter (ffs_get_block_prep P))"

definition ffs_fsync :: "('f \<Rightarrow> int \<Rightarrow> int \<Rightarrow> int \<Rightarrow> int) \<Rightarrow> 'f \<Rightarrow> int \<Rightarrow> int \<Rightarrow> int \<Rightarrow> int" where
  "ffs_fsync generic_file_fsync file start end_pos datasync = generic_file_fsync file start end_pos datasync"

section \<open>Files beyond 4 GiB\<close>

lemma even_word_plus_1: "even s \<Longrightarrow> word_of_int (s + 1) = (word_of_int s OR 1 :: u64)"
proof -
  assume s: "even s"
  have "(word_of_int s + 1 :: u64) = word_of_int s OR 1"
    by (rule disjunctive_add) (use s in \<open>auto simp: bit_1_iff bit_word_of_int_iff bit_0 intro: gr0I\<close>)
  then show ?thesis by simp
qed

lemma block_carry: "unat i < 2 ^ 20 \<Longrightarrow> i + 2 ^ 20 = (i OR 2 ^ 20 :: u64)"
proof (rule disjunctive_add)
  fix n
  assume "unat i < 2 ^ 20"
  then have "take_bit 20 i = i" by (simp add: word_unat_eq_iff unsigned_take_bit_eq take_bit_nat_eq_self)
  then have "bit i n \<longrightarrow> n < 20" by (metis bit_take_bit_iff)
  then show "\<not> bit i n \<or> \<not> bit (2 ^ 20 :: u64) n" by (simp only: bit_exp_iff) auto
qed

lemma data_overlap:
  assumes "even s" "unat i < 2 ^ 20"
  shows "ffs_get_lba_data P \<lparr>fp_dir_id = d, fp_bucket_id = b, fp_slot_id = s\<rparr> (i + 2 ^ 20) =
    ffs_get_lba_data P \<lparr>fp_dir_id = d, fp_bucket_id = b, fp_slot_id = s + 1\<rparr> i"
proof -
  have 1: "push_bit 12 (i + 2 ^ 20) = push_bit 12 i OR (2 ^ 32 :: u64)"
    unfolding block_carry [OF assms(2)] push_bit_or by (simp add: push_bit_eq_mult)
  have 2: "push_bit 32 (word_of_int (s + 1)) = push_bit 32 (word_of_int s) OR (2 ^ 32 :: u64)"
    unfolding even_word_plus_1 [OF assms(1)] push_bit_or by (simp add: push_bit_eq_mult)
  show ?thesis
    unfolding ffs_get_lba_data_def compose_lba_def Let_def BLOCK_SHIFT_def DEFAULT_FILE_BLOCK_BITS_def file_pos.simps
    unfolding 1 2 by (simp only: if_False one_neq_zero or.assoc or.left_commute or.commute)
qed

text \<open>
  C34: The data of a file that grows beyond 4 GiB runs into the next slot of its bucket: block
  2^20 + i of a file in an even slot is mapped to the same device block as block i of the file in
  the slot after it, and nothing in the mapping refuses the block (the call returns 0 and marks the
  buffer as mapped).
\<close>
theorem get_block_overlaps_next_slot:
  assumes "fi_is_big_dir fi = 0" "even (fi_slot_id fi)" "unat i < 2 ^ 20"
    and "fi' = fi\<lparr>fi_slot_id := fi_slot_id fi + 1\<rparr>"
  shows "\<exists>m m'. ffs_get_block_prep P fi (i + 2 ^ 20) bh = (0, m) \<and> ffs_get_block_prep P fi' i bh = (0, m') \<and>
    m_mapped m \<and> m_mapped m' \<and> m_blocknr m = m_blocknr m'"
  using data_overlap [OF assms(2,3), of P "fi_dir_id fi" "fi_bucket_id fi"] assms(1,4)
  by (simp add: ffs_get_block_prep_def Let_def pos_of_def)

definition sample_file :: ffs_inode_info where
  "sample_file = \<lparr>fi_dir_id = 2, fi_bucket_id = 5, fi_slot_id = 0, fi_valid = 1, fi_is_big_dir = 0, fi_big_dir_id = - 1, fi_size = 0,
     fi_filename = \<lparr>name_len = 1, fname = 97 # replicate 481 0\<rparr>, fi_test = 0, i_ino = 65576, i_mode = S_IFREG, i_uid = 0, i_gid = 0,
     i_size = 0, i_nlink = 1, i_rdev = 0, i_new = False, i_version = 1, i_op = FileOps, i_atime = 0, i_mtime = 0, i_ctime = 0\<rparr>"

theorem get_block_overlaps_next_slot_witness:
  "m_blocknr (snd (ffs_get_block_prep x86_64_smp sample_file (7 + 2 ^ 20) \<lparr>m_blocknr = 0, m_mapped = False, m_new = False\<rparr>)) =
   m_blocknr (snd (ffs_get_block_prep x86_64_smp (sample_file\<lparr>fi_slot_id := 1\<rparr>) 7 \<lparr>m_blocknr = 0, m_mapped = False, m_new = False\<rparr>))"
proof -
  have "fi_is_big_dir sample_file = 0" "even (fi_slot_id sample_file)" "unat (7 :: u64) < 2 ^ 20"
    "sample_file\<lparr>fi_slot_id := 1\<rparr> = sample_file\<lparr>fi_slot_id := fi_slot_id sample_file + 1\<rparr>"
    by (simp_all add: sample_file_def)
  from get_block_overlaps_next_slot [OF this, of x86_64_smp "\<lparr>m_blocknr = 0, m_mapped = False, m_new = False\<rparr>"]
  show ?thesis by (metis snd_conv)
qed

end
