(* ===== verification/Vfs_Perm.thy ===== *)
theory Vfs_Perm
  imports Inode_State
begin

text \<open>
  The access checks that the VFS layer (\<open>extra/namei.c\<close>, with the macros of \<open>extra/fs.h\<close>) makes
  before it calls into a file system. An inode is seen through the fields these checks read.
  What comes from other parts of the kernel (credentials, capabilities, POSIX ACLs, the device
  cgroup and the security modules, the flags of the superblock, the sysctls) is in the
  environment record. A check returns 0 or a negative error code; \<open>inode_permission\<close> may also set
  the cached \<open>IOP_FASTPERM\<close> flag of the inode, so it returns the inode.
\<close>

section \<open>Constants\<close>

named_theorems vfs_simps \<open>constants of the VFS\<close>

definition MAY_EXEC :: u32 where [vfs_simps]: "MAY_EXEC = 0x01"
definition MAY_WRITE :: u32 where [vfs_simps]: "MAY_WRITE = 0x02"
definition MAY_READ :: u32 where [vfs_simps]: "MAY_READ = 0x04"
definition MAY_OPEN :: u32 where [vfs_simps]: "MAY_OPEN = 0x20"
definition MAY_NOT_BLOCK :: u32 where [vfs_simps]: "MAY_NOT_BLOCK = 0x80"

definition S_APPEND :: u32 where [vfs_simps]: "S_APPEND = 4"
definition S_IMMUTABLE :: u32 where [vfs_simps]: "S_IMMUTABLE = 8"
definition S_DEAD :: u32 where [vfs_simps]: "S_DEAD = 16"
definition S_SWAPFILE :: u32 where [vfs_simps]: "S_SWAPFILE = 256"
definition IOP_FASTPERM :: u16 where [vfs_simps]: "IOP_FASTPERM = 1"

definition S_IFLNK :: u16 where [vfs_simps]: "S_IFLNK = 0xA000"
definition S_IFBLK :: u16 where [vfs_simps]: "S_IFBLK = 0x6000"
definition S_IFCHR :: u16 where [vfs_simps]: "S_IFCHR = 0x2000"
definition S_IFIFO :: u16 where [vfs_simps]: "S_IFIFO = 0x1000"
definition S_IFSOCK :: u16 where [vfs_simps]: "S_IFSOCK = 0xC000"
definition S_ISUID :: u16 where [vfs_simps]: "S_ISUID = 0x800"
definition S_ISGID :: u16 where [vfs_simps]: "S_ISGID = 0x400"
definition S_ISVTX :: u16 where [vfs_simps]: "S_ISVTX = 0x200"
definition S_IRWXG :: u16 where [vfs_simps]: "S_IRWXG = 0x38"
definition S_IXGRP :: u16 where [vfs_simps]: "S_IXGRP = 0x08"
definition S_IWOTH :: u16 where [vfs_simps]: "S_IWOTH = 0x02"
definition S_IXUGO :: u16 where [vfs_simps]: "S_IXUGO = 0x49"
definition S_IRWXUGO :: u16 where [vfs_simps]: "S_IRWXUGO = 0x1FF"
definition S_IALLUGO :: u16 where [vfs_simps]: "S_IALLUGO = 0xFFF"

definition O_ACCMODE :: u32 where [vfs_simps]: "O_ACCMODE = 3"
definition O_WRONLY :: u32 where [vfs_simps]: "O_WRONLY = 1"
definition O_RDWR :: u32 where [vfs_simps]: "O_RDWR = 2"
definition O_CREAT :: u32 where [vfs_simps]: "O_CREAT = 0x40"
definition O_EXCL :: u32 where [vfs_simps]: "O_EXCL = 0x80"
definition O_TRUNC :: u32 where [vfs_simps]: "O_TRUNC = 0x200"
definition O_APPEND :: u32 where [vfs_simps]: "O_APPEND = 0x400"
definition O_DIRECTORY :: u32 where [vfs_simps]: "O_DIRECTORY = 0x10000"
definition O_NOATIME :: u32 where [vfs_simps]: "O_NOATIME = 0x40000"
definition LOOKUP_DIRECTORY :: u32 where [vfs_simps]: "LOOKUP_DIRECTORY = 0x02"
definition LOOKUP_RCU :: u32 where [vfs_simps]: "LOOKUP_RCU = 0x40"

definition EPERM :: int where [vfs_simps]: "EPERM = 1"
definition ENOENT :: int where [vfs_simps]: "ENOENT = 2"
definition EIO :: int where [vfs_simps]: "EIO = 5"
definition ECHILD :: int where [vfs_simps]: "ECHILD = 10"
definition EAGAIN :: int where [vfs_simps]: "EAGAIN = 11"
definition EACCES :: int where [vfs_simps]: "EACCES = 13"
definition EBUSY :: int where [vfs_simps]: "EBUSY = 16"
definition EEXIST :: int where [vfs_simps]: "EEXIST = 17"
definition ENOTDIR :: int where [vfs_simps]: "ENOTDIR = 20"
definition EISDIR :: int where [vfs_simps]: "EISDIR = 21"
definition EINVAL :: int where [vfs_simps]: "EINVAL = 22"
definition EROFS :: int where [vfs_simps]: "EROFS = 30"
definition EMLINK :: int where [vfs_simps]: "EMLINK = 31"
definition ELOOP :: int where [vfs_simps]: "ELOOP = 40"
definition EOVERFLOW :: int where [vfs_simps]: "EOVERFLOW = 75"

section \<open>Inodes, dentries and the environment of the checks\<close>

record vinode =
  v_mode :: u16
  v_uid :: u32
  v_gid :: u32
  v_flags :: u32
  v_opflags :: u16

text \<open>
  A dentry is its name, its inode, its type as the dcache recorded it, and the facts about its
  place that the checks ask for. A directory without a \<open>lookup\<close> operation has the type
  \<open>DCACHE_AUTODIR_TYPE\<close>: \<open>d_is_dir\<close> counts it as a directory, \<open>d_can_lookup\<close> does not.
\<close>

datatype dtype = MissType | DirectoryType | AutodirType | RegularType | SymlinkType | SpecialType

record dentry =
  d_name :: qstr
  d_inode :: "nat option"
  d_type :: dtype
  d_parent_inode :: nat
  d_is_root :: bool
  d_in_lookup :: bool
  d_op_revalidate :: bool
  d_hashed :: bool
  d_nfsfs_renamed :: bool
  is_local_mountpoint :: bool

definition d_is_negative :: "dentry \<Rightarrow> bool" where "d_is_negative d \<longleftrightarrow> d_type d = MissType"
definition dtype_is_dir :: "dtype \<Rightarrow> bool" where "dtype_is_dir t \<longleftrightarrow> t = DirectoryType \<or> t = AutodirType"
definition d_is_dir :: "dentry \<Rightarrow> bool" where "d_is_dir d \<longleftrightarrow> dtype_is_dir (d_type d)"

datatype capability = CAP_DAC_OVERRIDE | CAP_DAC_READ_SEARCH | CAP_FOWNER | CAP_MKNOD

text \<open>What the cache of ACLs holds for an inode: nothing, the mark for "not read yet", or an ACL.\<close>

datatype 'a cached_acl = NoAcl | UncachedAcl | CachedAcl 'a

record 'a vfs_env =
  current_fsuid :: u32
  current_fsgid :: u32
  current_umask :: u16
  in_group_p :: "u32 \<Rightarrow> bool"
  capable_wrt_inode_uidgid :: "u32 \<Rightarrow> u32 \<Rightarrow> capability \<Rightarrow> bool"
  capable :: "capability \<Rightarrow> bool"
  inode_owner_or_capable :: "vinode \<Rightarrow> bool"
  uid_valid :: "u32 \<Rightarrow> bool"
  gid_valid :: "u32 \<Rightarrow> bool"
  kuid_has_mapping :: "u32 \<Rightarrow> bool"
  kgid_has_mapping :: "u32 \<Rightarrow> bool"
  sb_posixacl :: bool
  sb_rdonly :: bool
  config_posix_acl :: bool
  get_cached_acl_rcu :: "vinode \<Rightarrow> 'a cached_acl"
  get_acl :: "vinode \<Rightarrow> int + 'a option"
  posix_acl_permission :: "vinode \<Rightarrow> 'a \<Rightarrow> u32 \<Rightarrow> int"
  iop_permission :: "vinode \<Rightarrow> (u32 \<Rightarrow> int) option"
  devcgroup_inode_permission :: "vinode \<Rightarrow> u32 \<Rightarrow> int"
  security_inode_permission :: "vinode \<Rightarrow> u32 \<Rightarrow> int"
  devcgroup_inode_mknod :: "u16 \<Rightarrow> u32 \<Rightarrow> int"
  security_path_mknod :: "dentry \<Rightarrow> u16 \<Rightarrow> int"
  security_inode_create :: "vinode \<Rightarrow> dentry \<Rightarrow> u16 \<Rightarrow> int"
  security_inode_mknod :: "vinode \<Rightarrow> dentry \<Rightarrow> u16 \<Rightarrow> u32 \<Rightarrow> int"
  security_inode_mkdir :: "vinode \<Rightarrow> dentry \<Rightarrow> u16 \<Rightarrow> int"
  security_inode_rmdir :: "vinode \<Rightarrow> dentry \<Rightarrow> int"
  security_inode_unlink :: "vinode \<Rightarrow> dentry \<Rightarrow> int"
  try_break_deleg :: "vinode \<Rightarrow> int"
  s_max_links :: u32
  sysctl_protected_symlinks :: int
  sysctl_protected_hardlinks :: int
  sysctl_protected_fifos :: int
  sysctl_protected_regular :: int

definition is_type :: "u16 \<Rightarrow> u16 \<Rightarrow> bool" where
  "is_type t m \<longleftrightarrow> m AND S_IFMT = t"

definition IS_APPEND :: "vinode \<Rightarrow> bool" where "IS_APPEND v \<longleftrightarrow> v_flags v AND S_APPEND \<noteq> 0"
definition IS_IMMUTABLE :: "vinode \<Rightarrow> bool" where "IS_IMMUTABLE v \<longleftrightarrow> v_flags v AND S_IMMUTABLE \<noteq> 0"
definition IS_DEADDIR :: "vinode \<Rightarrow> bool" where "IS_DEADDIR v \<longleftrightarrow> v_flags v AND S_DEAD \<noteq> 0"
definition IS_SWAPFILE :: "vinode \<Rightarrow> bool" where "IS_SWAPFILE v \<longleftrightarrow> v_flags v AND S_SWAPFILE \<noteq> 0"

definition HAS_UNMAPPED_ID :: "'a vfs_env \<Rightarrow> vinode \<Rightarrow> bool" where
  "HAS_UNMAPPED_ID E v \<longleftrightarrow> \<not> uid_valid E (v_uid v) \<or> \<not> gid_valid E (v_gid v)"

section \<open>Permission to access an inode\<close>

definition check_acl :: "'a vfs_env \<Rightarrow> vinode \<Rightarrow> u32 \<Rightarrow> int" where
  "check_acl E inode msk =
     (if \<not> config_posix_acl E then - EAGAIN
      else if msk AND MAY_NOT_BLOCK \<noteq> 0
      then (case get_cached_acl_rcu E inode of
              NoAcl \<Rightarrow> - EAGAIN
            | UncachedAcl \<Rightarrow> - ECHILD
            | CachedAcl acl \<Rightarrow> posix_acl_permission E inode acl (msk AND NOT MAY_NOT_BLOCK))
      else (case get_acl E inode of
              Inl err \<Rightarrow> err
            | Inr None \<Rightarrow> - EAGAIN
            | Inr (Some acl) \<Rightarrow> posix_acl_permission E inode acl msk))"

definition acl_permission_check :: "'a vfs_env \<Rightarrow> vinode \<Rightarrow> u32 \<Rightarrow> int" where
  "acl_permission_check E inode msk =
     (let mode = ucast (v_mode inode) :: u32;
          bits = (\<lambda>mode. if msk AND NOT mode AND (MAY_READ OR MAY_WRITE OR MAY_EXEC) = 0 then 0 else - EACCES)
      in if current_fsuid E = v_uid inode then bits (drop_bit 6 mode)
         else let error = (if sb_posixacl E \<and> v_mode inode AND S_IRWXG \<noteq> 0 then check_acl E inode msk else - EAGAIN)
              in if error \<noteq> - EAGAIN then error
                 else bits (if in_group_p E (v_gid inode) then drop_bit 3 mode else mode))"

definition generic_permission :: "'a vfs_env \<Rightarrow> vinode \<Rightarrow> u32 \<Rightarrow> int" where
  "generic_permission E inode msk =
     (let ret = acl_permission_check E inode msk in
      if ret \<noteq> - EACCES then ret
      else if is_type S_IFDIR (v_mode inode)
      then if msk AND MAY_WRITE = 0 \<and> capable_wrt_inode_uidgid E (v_uid inode) (v_gid inode) CAP_DAC_READ_SEARCH then 0
           else if capable_wrt_inode_uidgid E (v_uid inode) (v_gid inode) CAP_DAC_OVERRIDE then 0
           else - EACCES
      else let msk = msk AND (MAY_READ OR MAY_WRITE OR MAY_EXEC) in
           if msk = MAY_READ \<and> capable_wrt_inode_uidgid E (v_uid inode) (v_gid inode) CAP_DAC_READ_SEARCH then 0
           else if (msk AND MAY_EXEC = 0 \<or> v_mode inode AND S_IXUGO \<noteq> 0) \<and> capable_wrt_inode_uidgid E (v_uid inode) (v_gid inode) CAP_DAC_OVERRIDE
           then 0
           else - EACCES)"

definition do_inode_permission :: "'a vfs_env \<Rightarrow> vinode \<Rightarrow> u32 \<Rightarrow> int \<times> vinode" where
  "do_inode_permission E inode msk =
     (if v_opflags inode AND IOP_FASTPERM = 0
      then (case iop_permission E inode of
              Some permission \<Rightarrow> (permission msk, inode)
            | None \<Rightarrow> let inode = inode\<lparr>v_opflags := v_opflags inode OR IOP_FASTPERM\<rparr> in (generic_permission E inode msk, inode))
      else (generic_permission E inode msk, inode))"

definition sb_permission :: "'a vfs_env \<Rightarrow> vinode \<Rightarrow> u32 \<Rightarrow> int" where
  "sb_permission E inode msk =
     (if msk AND MAY_WRITE \<noteq> 0
      then let mode = v_mode inode in
           if sb_rdonly E \<and> (is_type S_IFREG mode \<or> is_type S_IFDIR mode \<or> is_type S_IFLNK mode) then - EROFS else 0
      else 0)"

definition inode_permission :: "'a vfs_env \<Rightarrow> vinode \<Rightarrow> u32 \<Rightarrow> int \<times> vinode" where
  "inode_permission E inode msk =
     (let retval = sb_permission E inode msk in
      if retval \<noteq> 0 then (retval, inode)
      else if msk AND MAY_WRITE \<noteq> 0 \<and> IS_IMMUTABLE inode then (- EPERM, inode)
      else if msk AND MAY_WRITE \<noteq> 0 \<and> HAS_UNMAPPED_ID E inode then (- EACCES, inode)
      else let (retval, inode) = do_inode_permission E inode msk in
           if retval \<noteq> 0 then (retval, inode)
           else let retval = devcgroup_inode_permission E inode msk in
                if retval \<noteq> 0 then (retval, inode)
                else (security_inode_permission E inode msk, inode))"

section \<open>Links\<close>

definition may_follow_link :: "'a vfs_env \<Rightarrow> vinode \<Rightarrow> vinode \<Rightarrow> u32 \<Rightarrow> int" where
  "may_follow_link E parent inode nd_flags =
     (if sysctl_protected_symlinks E = 0 then 0
      else if current_fsuid E = v_uid inode then 0
      else if v_mode parent AND (S_ISVTX OR S_IWOTH) \<noteq> S_ISVTX OR S_IWOTH then 0
      else if uid_valid E (v_uid parent) \<and> v_uid parent = v_uid inode then 0
      else if nd_flags AND LOOKUP_RCU \<noteq> 0 then - ECHILD
      else - EACCES)"

definition safe_hardlink_source :: "'a vfs_env \<Rightarrow> vinode \<Rightarrow> bool \<times> vinode" where
  "safe_hardlink_source E inode =
     (let mode = v_mode inode in
      if \<not> is_type S_IFREG mode then (False, inode)
      else if mode AND S_ISUID \<noteq> 0 then (False, inode)
      else if mode AND (S_ISGID OR S_IXGRP) = S_ISGID OR S_IXGRP then (False, inode)
      else let (r, inode) = inode_permission E inode (MAY_READ OR MAY_WRITE) in (r = 0, inode))"

definition may_linkat :: "'a vfs_env \<Rightarrow> vinode \<Rightarrow> int \<times> vinode" where
  "may_linkat E inode =
     (if \<not> uid_valid E (v_uid inode) \<or> \<not> gid_valid E (v_gid inode) then (- EOVERFLOW, inode)
      else if sysctl_protected_hardlinks E = 0 then (0, inode)
      else let (safe, inode) = safe_hardlink_source E inode in
           if safe \<or> inode_owner_or_capable E inode then (0, inode) else (- EPERM, inode))"

definition may_create_in_sticky :: "'a vfs_env \<Rightarrow> vinode \<Rightarrow> vinode \<Rightarrow> int" where
  "may_create_in_sticky E dir inode =
     (if (sysctl_protected_fifos E = 0 \<and> is_type S_IFIFO (v_mode inode)) \<or>
         (sysctl_protected_regular E = 0 \<and> is_type S_IFREG (v_mode inode)) \<or>
         v_mode dir AND S_ISVTX = 0 \<or> v_uid inode = v_uid dir \<or> current_fsuid E = v_uid inode
      then 0
      else if v_mode dir AND 0x02 \<noteq> 0 \<or>
         (v_mode dir AND 0x10 \<noteq> 0 \<and>
          ((sysctl_protected_fifos E \<ge> 2 \<and> is_type S_IFIFO (v_mode inode)) \<or>
           (sysctl_protected_regular E \<ge> 2 \<and> is_type S_IFREG (v_mode inode))))
      then - EACCES
      else 0)"

section \<open>Permission to create, delete and open\<close>

definition check_sticky_slow :: "'a vfs_env \<Rightarrow> vinode \<Rightarrow> vinode \<Rightarrow> bool" where
  "check_sticky_slow E dir inode =
     (if v_uid inode = current_fsuid E then False
      else if v_uid dir = current_fsuid E then False
      else \<not> capable_wrt_inode_uidgid E (v_uid inode) (v_gid inode) CAP_FOWNER)"

definition check_sticky :: "'a vfs_env \<Rightarrow> vinode \<Rightarrow> vinode \<Rightarrow> bool" where
  "check_sticky E dir inode = (if v_mode dir AND S_ISVTX = 0 then False else check_sticky_slow E dir inode)"

text \<open>\<open>dir\<close> comes with its address, which a \<open>BUG_ON\<close> compares with the parent of the victim.\<close>

definition may_delete ::
  "'a vfs_env \<Rightarrow> nat \<Rightarrow> vinode \<Rightarrow> dentry \<Rightarrow> vinode option \<Rightarrow> bool \<Rightarrow> (int \<times> vinode) res" where
  "may_delete E d dir victim inode isdir =
     (if d_is_negative victim then Inr (- ENOENT, dir)
      else case inode of
        None \<Rightarrow> Inl KernelBug
      | Some inode \<Rightarrow>
          if d_parent_inode victim \<noteq> d then Inl KernelBug
          else if \<not> uid_valid E (v_uid inode) \<or> \<not> gid_valid E (v_gid inode) then Inr (- EOVERFLOW, dir)
          else let (error, dir) = inode_permission E dir (MAY_WRITE OR MAY_EXEC) in
          if error \<noteq> 0 then Inr (error, dir)
          else if IS_APPEND dir then Inr (- EPERM, dir)
          else if check_sticky E dir inode \<or> IS_APPEND inode \<or> IS_IMMUTABLE inode \<or> IS_SWAPFILE inode \<or> HAS_UNMAPPED_ID E inode
          then Inr (- EPERM, dir)
          else if isdir \<and> \<not> d_is_dir victim then Inr (- ENOTDIR, dir)
          else if isdir \<and> d_is_root victim then Inr (- EBUSY, dir)
          else if \<not> isdir \<and> d_is_dir victim then Inr (- EISDIR, dir)
          else if IS_DEADDIR dir then Inr (- ENOENT, dir)
          else if d_nfsfs_renamed victim then Inr (- EBUSY, dir)
          else Inr (0, dir))"

definition may_create :: "'a vfs_env \<Rightarrow> vinode \<Rightarrow> dentry \<Rightarrow> int \<times> vinode" where
  "may_create E dir child =
     (if d_inode child \<noteq> None then (- EEXIST, dir)
      else if IS_DEADDIR dir then (- ENOENT, dir)
      else if \<not> kuid_has_mapping E (current_fsuid E) \<or> \<not> kgid_has_mapping E (current_fsgid E) then (- EOVERFLOW, dir)
      else inode_permission E dir (MAY_WRITE OR MAY_EXEC))"

definition may_open_dev :: "bool \<Rightarrow> bool \<Rightarrow> bool" where
  "may_open_dev mnt_nodev sb_i_nodev \<longleftrightarrow> \<not> mnt_nodev \<and> \<not> sb_i_nodev"

text \<open>The switch on the type: an early error, or the flags to go on with.\<close>

definition may_open_type :: "vinode \<Rightarrow> bool \<Rightarrow> u32 \<Rightarrow> u32 \<Rightarrow> int + u32" where
  "may_open_type inode dev_ok acc_mode flag =
     (let t = v_mode inode AND S_IFMT in
      if t = S_IFLNK then Inl (- ELOOP)
      else if t = S_IFDIR then (if acc_mode AND MAY_WRITE \<noteq> 0 then Inl (- EISDIR) else Inr flag)
      else if t = S_IFBLK \<or> t = S_IFCHR then (if \<not> dev_ok then Inl (- EACCES) else Inr (flag AND NOT O_TRUNC))
      else if t = S_IFIFO \<or> t = S_IFSOCK then Inr (flag AND NOT O_TRUNC)
      else Inr flag)"

definition may_open :: "'a vfs_env \<Rightarrow> bool \<Rightarrow> bool \<Rightarrow> vinode option \<Rightarrow> u32 \<Rightarrow> u32 \<Rightarrow> int \<times> vinode option" where
  "may_open E mnt_nodev sb_i_nodev inode acc_mode flag =
     (case inode of
        None \<Rightarrow> (- ENOENT, None)
      | Some inode \<Rightarrow>
          (case may_open_type inode (may_open_dev mnt_nodev sb_i_nodev) acc_mode flag of
             Inl error \<Rightarrow> (error, Some inode)
           | Inr flag \<Rightarrow>
               let (error, inode) = inode_permission E inode (MAY_OPEN OR acc_mode) in
               if error \<noteq> 0 then (error, Some inode)
               else if IS_APPEND inode \<and> flag AND O_ACCMODE \<noteq> 0 \<and> flag AND O_APPEND = 0 then (- EPERM, Some inode)
               else if IS_APPEND inode \<and> flag AND O_TRUNC \<noteq> 0 then (- EPERM, Some inode)
               else if flag AND O_NOATIME \<noteq> 0 \<and> \<not> inode_owner_or_capable E inode then (- EPERM, Some inode)
               else (0, Some inode)))"

definition may_o_create :: "'a vfs_env \<Rightarrow> vinode \<Rightarrow> dentry \<Rightarrow> u16 \<Rightarrow> int \<times> vinode" where
  "may_o_create E dir dentry mode =
     (let error = security_path_mknod E dentry mode in
      if error \<noteq> 0 then (error, dir)
      else if \<not> kuid_has_mapping E (current_fsuid E) \<or> \<not> kgid_has_mapping E (current_fsgid E) then (- EOVERFLOW, dir)
      else let (error, dir) = inode_permission E dir (MAY_WRITE OR MAY_EXEC) in
           if error \<noteq> 0 then (error, dir) else (security_inode_create E dir dentry mode, dir))"

definition open_to_namei_flags :: "u32 \<Rightarrow> u32" where
  "open_to_namei_flags flag = (if flag AND O_ACCMODE = 3 then flag - 1 else flag)"

definition may_mknod :: "u16 \<Rightarrow> int" where
  "may_mknod mode =
     (let t = mode AND S_IFMT in
      if t = S_IFREG \<or> t = S_IFCHR \<or> t = S_IFBLK \<or> t = S_IFIFO \<or> t = S_IFSOCK \<or> t = 0 then 0
      else if t = S_IFDIR then - EPERM
      else - EINVAL)"

end
