(* ===== verification/Vfs_Ops.thy ===== *)
theory Vfs_Ops
  imports Vfs_Perm Inode_Ops
begin

text \<open>
  The VFS operations of \<open>extra/namei.c\<close> that reach the file system: create, mknod, mkdir, rmdir,
  unlink, and the last step of an open, which this version of the kernel changes to take the
  global \<open>flatfs_spinlock\<close> around the calls into flatfs. The file system is called through the
  operation tables of \<open>inode.c\<close>.

  The state is the state of the file system with what the VFS keeps for each inode (flags, the
  inode lock), the spin lock and \<open>shared_is_flatfs\<close>. Dentries are passed and returned; reference
  counts, the audit records and the notifications are not modelled.
\<close>

section \<open>State\<close>

record vfs_state =
  fs_st :: ffs_state
  i_flags :: "nat \<Rightarrow> u32"
  i_opflags :: "nat \<Rightarrow> u16"
  i_rwsem :: "nat \<Rightarrow> bool"
  flatfs_spinlock :: bool
  shared_is_flatfs :: int

definition vinode_of :: "vfs_state \<Rightarrow> nat \<Rightarrow> ffs_inode_info \<Rightarrow> vinode" where
  "vinode_of V a fi = \<lparr>v_mode = i_mode fi, v_uid = i_uid fi, v_gid = i_gid fi, v_flags = i_flags V a, v_opflags = i_opflags V a\<rparr>"

definition get_vinode :: "vfs_state \<Rightarrow> nat option \<Rightarrow> (ffs_inode_info \<times> vinode) res" where
  "get_vinode V p = bind_res (FFS_I (fs_st V) p) (\<lambda>(a, fi). Inr (fi, vinode_of V a fi))"

definition put_opflags :: "nat \<Rightarrow> vinode \<Rightarrow> vfs_state \<Rightarrow> vfs_state" where
  "put_opflags a v V = V\<lparr>i_opflags := (i_opflags V)(a := v_opflags v)\<rparr>"

definition inode_lock :: "nat \<Rightarrow> vfs_state \<Rightarrow> vfs_state res" where
  "inode_lock a V = (if i_rwsem V a then Inl Deadlock else Inr (V\<lparr>i_rwsem := (i_rwsem V)(a := True)\<rparr>))"

definition inode_unlock :: "nat \<Rightarrow> vfs_state \<Rightarrow> vfs_state" where
  "inode_unlock a V = V\<lparr>i_rwsem := (i_rwsem V)(a := False)\<rparr>"

section \<open>Operation tables\<close>

text \<open>What \<open>i_op->atomic_open\<close> leaves in \<open>file->f_path.dentry\<close>; no table of the module has it.\<close>

datatype file_dentry = DentryNotSet | FileDentry "dentry option"

record inode_operations =
  op_lookup :: "(nat option \<Rightarrow> qstr \<Rightarrow> ffs_state \<Rightarrow> (lookup_result \<times> ffs_state) res) option"
  op_create :: "(nat option \<Rightarrow> qstr \<Rightarrow> u16 \<Rightarrow> ffs_state \<Rightarrow> (int \<times> nat option \<times> ffs_state) res) option"
  op_mknod :: "(nat option \<Rightarrow> qstr \<Rightarrow> u16 \<Rightarrow> u32 \<Rightarrow> ffs_state \<Rightarrow> (int \<times> nat option \<times> ffs_state) res) option"
  op_mkdir :: "(nat option \<Rightarrow> qstr \<Rightarrow> u16 \<Rightarrow> ffs_state \<Rightarrow> (int \<times> nat option \<times> ffs_state) res) option"
  op_rmdir :: "(nat option \<Rightarrow> nat option \<Rightarrow> ffs_state \<Rightarrow> (int \<times> ffs_state) res) option"
  op_unlink :: "(nat option \<Rightarrow> nat option \<Rightarrow> ffs_state \<Rightarrow> (int \<times> ffs_state) res) option"
  op_atomic_open :: "(nat \<Rightarrow> dentry \<Rightarrow> u32 \<Rightarrow> u16 \<Rightarrow> ffs_state \<Rightarrow> (int \<times> u32 \<times> file_dentry \<times> ffs_state) res) option"

definition ffs_file_inode_ops :: inode_operations where
  "ffs_file_inode_ops = \<lparr>op_lookup = None, op_create = None, op_mknod = None, op_mkdir = None, op_rmdir = None,
     op_unlink = None, op_atomic_open = None\<rparr>"

definition ffs_dir_inode_ops :: "platform \<Rightarrow> kenv \<Rightarrow> int \<Rightarrow> inode_operations" where
  "ffs_dir_inode_ops P K bucket_id = \<lparr>op_lookup = Some (ffs_lookup P K bucket_id), op_create = Some (ffs_create P K),
     op_mknod = Some (ffs_mknod P K), op_mkdir = Some (ffs_mkdir P K), op_rmdir = Some (ffs_rmdir P),
     op_unlink = Some (ffs_unlink P), op_atomic_open = None\<rparr>"

text \<open>Inodes whose operations the module did not set have the empty table of the kernel.\<close>

definition iop_table :: "platform \<Rightarrow> kenv \<Rightarrow> int \<Rightarrow> ffs_inode_info \<Rightarrow> inode_operations" where
  "iop_table P K bucket_id fi = (if i_op fi = DirOps then ffs_dir_inode_ops P K bucket_id else ffs_file_inode_ops)"

section \<open>Dentries\<close>

text \<open>
  The type that the dcache records for an inode: a directory whose table has no \<open>lookup\<close> is an automount
  directory, and only a table with \<open>get_link\<close>, which the module never installs, makes a symbolic link.
\<close>

definition dtype_of :: "u16 \<Rightarrow> iops \<Rightarrow> dtype" where
  "dtype_of m ops =
     (if is_type S_IFDIR m then if ops = DirOps then DirectoryType else AutodirType
      else if is_type S_IFREG m then RegularType else SpecialType)"

text \<open>\<open>d_instantiate\<close>, which the operations of the module call when they succeed.\<close>

definition d_instantiate :: "ffs_state \<Rightarrow> nat option \<Rightarrow> dentry \<Rightarrow> dentry" where
  "d_instantiate st inode d =
     (case inode of
        None \<Rightarrow> d
      | Some a \<Rightarrow> (case inodes st a of
                   None \<Rightarrow> d
                 | Some fi \<Rightarrow> d\<lparr>d_inode := Some a, d_type := dtype_of (i_mode fi) (i_op fi)\<rparr>))"

text \<open>
  \<open>d_delete\<close>: the dentry turns negative if nobody else uses it, otherwise it is taken out of the
  dcache.
\<close>

definition d_delete :: "bool \<Rightarrow> dentry \<Rightarrow> dentry" where
  "d_delete sole d = (if sole then d\<lparr>d_inode := None, d_type := MissType\<rparr> else d\<lparr>d_hashed := False\<rparr>)"

definition d_revalidate :: "(dentry \<Rightarrow> int) \<Rightarrow> dentry \<Rightarrow> int" where
  "d_revalidate d_op d = (if d_op_revalidate d then d_op d else 1)"

section \<open>Creating\<close>

definition vfs_create ::
  "platform \<Rightarrow> kenv \<Rightarrow> int \<Rightarrow> 'a vfs_env \<Rightarrow> nat \<Rightarrow> dentry \<Rightarrow> u16 \<Rightarrow> vfs_state \<Rightarrow> (int \<times> dentry \<times> vfs_state) res" where
  "vfs_create P K junk E dir dentry mode V =
     bind_res (get_vinode V (Some dir)) (\<lambda>(dfi, dv).
     let (error, dv) = may_create E dv dentry; V = put_opflags dir dv V in
     if error \<noteq> 0 then Inr (error, dentry, V)
     else case op_create (iop_table P K junk dfi) of
       None \<Rightarrow> Inr (- EACCES, dentry, V)
     | Some create \<Rightarrow>
         let mode = (mode AND S_IALLUGO) OR S_IFREG;
             error = security_inode_create E dv dentry mode in
         if error \<noteq> 0 then Inr (error, dentry, V)
         else bind_res (create (Some dir) (d_name dentry) mode (fs_st V)) (\<lambda>(error, inode, st).
              Inr (error, d_instantiate st inode dentry, V\<lparr>fs_st := st\<rparr>)))"

definition vfs_mknod ::
  "platform \<Rightarrow> kenv \<Rightarrow> int \<Rightarrow> 'a vfs_env \<Rightarrow> nat \<Rightarrow> dentry \<Rightarrow> u16 \<Rightarrow> u32 \<Rightarrow> vfs_state \<Rightarrow> (int \<times> dentry \<times> vfs_state) res" where
  "vfs_mknod P K junk E dir dentry mode dev V =
     bind_res (get_vinode V (Some dir)) (\<lambda>(dfi, dv).
     let (error, dv) = may_create E dv dentry; V = put_opflags dir dv V in
     if error \<noteq> 0 then Inr (error, dentry, V)
     else if (is_type S_IFCHR mode \<or> is_type S_IFBLK mode) \<and> \<not> capable E CAP_MKNOD then Inr (- EPERM, dentry, V)
     else case op_mknod (iop_table P K junk dfi) of
       None \<Rightarrow> Inr (- EPERM, dentry, V)
     | Some mknod \<Rightarrow>
         let error = devcgroup_inode_mknod E mode dev in
         if error \<noteq> 0 then Inr (error, dentry, V)
         else let error = security_inode_mknod E dv dentry mode dev in
         if error \<noteq> 0 then Inr (error, dentry, V)
         else bind_res (mknod (Some dir) (d_name dentry) mode dev (fs_st V)) (\<lambda>(error, inode, st).
              Inr (error, d_instantiate st inode dentry, V\<lparr>fs_st := st\<rparr>)))"

definition vfs_mkdir ::
  "platform \<Rightarrow> kenv \<Rightarrow> int \<Rightarrow> 'a vfs_env \<Rightarrow> nat \<Rightarrow> dentry \<Rightarrow> u16 \<Rightarrow> vfs_state \<Rightarrow> (int \<times> dentry \<times> vfs_state) res" where
  "vfs_mkdir P K junk E dir dentry mode V =
     bind_res (get_vinode V (Some dir)) (\<lambda>(dfi, dv).
     let (error, dv) = may_create E dv dentry; V = put_opflags dir dv V in
     if error \<noteq> 0 then Inr (error, dentry, V)
     else case op_mkdir (iop_table P K junk dfi) of
       None \<Rightarrow> Inr (- EPERM, dentry, V)
     | Some mkdir \<Rightarrow>
         let mode = mode AND (S_IRWXUGO OR S_ISVTX);
             error = security_inode_mkdir E dv dentry mode in
         if error \<noteq> 0 then Inr (error, dentry, V)
         else if s_max_links E \<noteq> 0 \<and> i_nlink dfi \<ge> s_max_links E then Inr (- EMLINK, dentry, V)
         else bind_res (mkdir (Some dir) (d_name dentry) mode (fs_st V)) (\<lambda>(error, inode, st).
              Inr (error, d_instantiate st inode dentry, V\<lparr>fs_st := st\<rparr>)))"

section \<open>Deleting\<close>

text \<open>The inode of the victim, which is null for a negative dentry.\<close>

definition victim_inode :: "vfs_state \<Rightarrow> dentry \<Rightarrow> vinode option res" where
  "victim_inode V dentry =
     (case d_inode dentry of
        None \<Rightarrow> Inr None
      | Some a \<Rightarrow> bind_res (get_vinode V (Some a)) (\<lambda>(fi, v). Inr (Some v)))"

text \<open>
  \<open>vfs_rmdir_locked\<close> and \<open>vfs_unlink_locked\<close> are the parts that run under the lock of the victim.
\<close>

definition vfs_rmdir_locked ::
  "'a vfs_env \<Rightarrow> (nat option \<Rightarrow> nat option \<Rightarrow> ffs_state \<Rightarrow> (int \<times> ffs_state) res) \<Rightarrow> nat \<Rightarrow> vinode \<Rightarrow> dentry \<Rightarrow> nat \<Rightarrow> vfs_state \<Rightarrow>
    (int \<times> vfs_state) res" where
  "vfs_rmdir_locked E rmdir dir dv dentry a V =
     (if is_local_mountpoint dentry then Inr (- EBUSY, V)
      else let error = security_inode_rmdir E dv dentry in
      if error \<noteq> 0 then Inr (error, V)
      else bind_res (rmdir (Some dir) (d_inode dentry) (fs_st V)) (\<lambda>(error, st).
      let V = V\<lparr>fs_st := st\<rparr> in
      if error \<noteq> 0 then Inr (error, V)
      else Inr (0, V\<lparr>i_flags := (i_flags V)(a := i_flags V a OR S_DEAD)\<rparr>)))"

definition vfs_rmdir ::
  "platform \<Rightarrow> kenv \<Rightarrow> int \<Rightarrow> 'a vfs_env \<Rightarrow> bool \<Rightarrow> nat \<Rightarrow> dentry \<Rightarrow> vfs_state \<Rightarrow> (int \<times> dentry \<times> vfs_state) res" where
  "vfs_rmdir P K junk E sole dir dentry V =
     bind_res (get_vinode V (Some dir)) (\<lambda>(dfi, dv).
     bind_res (victim_inode V dentry) (\<lambda>victim.
     bind_res (may_delete E dir dv dentry victim True) (\<lambda>(error, dv).
     let V = put_opflags dir dv V in
     if error \<noteq> 0 then Inr (error, dentry, V)
     else case op_rmdir (iop_table P K junk dfi) of
       None \<Rightarrow> Inr (- EPERM, dentry, V)
     | Some rmdir \<Rightarrow>
         (case d_inode dentry of
            None \<Rightarrow> Inl NullDeref
          | Some a \<Rightarrow>
              bind_res (inode_lock a V) (\<lambda>V.
              bind_res (vfs_rmdir_locked E rmdir dir dv dentry a V) (\<lambda>(error, V).
              let V = inode_unlock a V in
              Inr (error, if error = 0 then d_delete sole dentry else dentry, V)))))))"

definition vfs_unlink_locked ::
  "'a vfs_env \<Rightarrow> (nat option \<Rightarrow> nat option \<Rightarrow> ffs_state \<Rightarrow> (int \<times> ffs_state) res) \<Rightarrow> nat \<Rightarrow> vinode \<Rightarrow> vinode \<Rightarrow> dentry \<Rightarrow> vfs_state \<Rightarrow>
    (int \<times> vfs_state) res" where
  "vfs_unlink_locked E unlink dir dv target dentry V =
     (if is_local_mountpoint dentry then Inr (- EBUSY, V)
      else let error = security_inode_unlink E dv dentry in
      if error \<noteq> 0 then Inr (error, V)
      else let error = try_break_deleg E target in
      if error \<noteq> 0 then Inr (error, V)
      else bind_res (unlink (Some dir) (d_inode dentry) (fs_st V)) (\<lambda>(error, st).
           Inr (error, V\<lparr>fs_st := st\<rparr>)))"

definition vfs_unlink ::
  "platform \<Rightarrow> kenv \<Rightarrow> int \<Rightarrow> 'a vfs_env \<Rightarrow> bool \<Rightarrow> nat \<Rightarrow> dentry \<Rightarrow> vfs_state \<Rightarrow> (int \<times> dentry \<times> vfs_state) res" where
  "vfs_unlink P K junk E sole dir dentry V =
     bind_res (get_vinode V (Some dir)) (\<lambda>(dfi, dv).
     bind_res (victim_inode V dentry) (\<lambda>victim.
     bind_res (may_delete E dir dv dentry victim False) (\<lambda>(error, dv).
     let V = put_opflags dir dv V in
     if error \<noteq> 0 then Inr (error, dentry, V)
     else case op_unlink (iop_table P K junk dfi) of
       None \<Rightarrow> Inr (- EPERM, dentry, V)
     | Some unlink \<Rightarrow>
         (case (d_inode dentry, victim) of
            (Some a, Some target) \<Rightarrow>
              bind_res (inode_lock a V) (\<lambda>V.
              bind_res (vfs_unlink_locked E unlink dir dv target dentry V) (\<lambda>(error, V).
              let V = inode_unlock a V in
              Inr (error, if error = 0 \<and> \<not> d_nfsfs_renamed dentry then d_delete sole dentry else dentry, V)))
          | _ \<Rightarrow> Inl NullDeref))))"

section \<open>The last step of an open\<close>

definition FMODE_OPENED :: u32 where [vfs_simps]: "FMODE_OPENED = 0x80000"
definition FMODE_CREATED :: u32 where [vfs_simps]: "FMODE_CREATED = 0x100000"

text \<open>
  The result of a look-up is the return value, the dentry stored in \<open>path\<close> (if any), and the mode
  of the file.
\<close>

type_synonym open_result = "int \<times> dentry option \<times> u32 \<times> vfs_state"

definition atomic_open ::
  "'a vfs_env \<Rightarrow> bool \<Rightarrow> bool \<Rightarrow> (nat \<Rightarrow> dentry \<Rightarrow> u32 \<Rightarrow> u16 \<Rightarrow> ffs_state \<Rightarrow> (int \<times> u32 \<times> file_dentry \<times> ffs_state) res) \<Rightarrow>
    u32 \<Rightarrow> u32 \<Rightarrow> nat \<Rightarrow> dentry \<Rightarrow> u32 \<Rightarrow> u16 \<Rightarrow> vfs_state \<Rightarrow> open_result res" where
  "atomic_open E mnt_nodev sb_i_nodev aopen nd_flags acc_mode dir dentry open_flag mode V =
     (let open_flag = (if NOT open_flag AND (O_EXCL OR O_CREAT) = 0 then open_flag AND NOT O_TRUNC else open_flag);
          open_flag = (if nd_flags AND LOOKUP_DIRECTORY \<noteq> 0 then open_flag OR O_DIRECTORY else open_flag) in
      bind_res (aopen dir dentry (open_to_namei_flags open_flag) mode (fs_st V)) (\<lambda>(error, f_mode, fd, st).
      let V = V\<lparr>fs_st := st\<rparr> in
      if error \<noteq> 0 then Inr (error, None, f_mode, V)
      else if f_mode AND FMODE_OPENED \<noteq> 0
      then let acc_mode = (if f_mode AND FMODE_CREATED \<noteq> 0 then 0 else acc_mode) in
           (case fd of
              FileDentry (Some d) \<Rightarrow>
                bind_res (victim_inode V d) (\<lambda>v.
                let (error, v) = may_open E mnt_nodev sb_i_nodev v acc_mode open_flag;
                    V = (case (d_inode d, v) of (Some a, Some v) \<Rightarrow> put_opflags a v V | _ \<Rightarrow> V)
                in Inr (if error > 0 then - EINVAL else error, None, f_mode, V))
            | _ \<Rightarrow> Inl NullDeref)
      else (case fd of
              DentryNotSet \<Rightarrow> Inr (- EIO, None, f_mode, V)
            | FileDentry fd \<Rightarrow>
                let d = (case fd of Some d \<Rightarrow> d | None \<Rightarrow> dentry) in
                if d_is_negative d then Inr (- ENOENT, None, f_mode, V) else Inr (0, Some d, f_mode, V))))"

text \<open>
  The loop that finds or allocates the dentry. \<open>allocs\<close> is what the successive calls of
  \<open>d_alloc_parallel\<close> return; \<open>None\<close> means that the loop is still running when they are used up.
\<close>

definition check_dentry :: "(dentry \<Rightarrow> int) \<Rightarrow> dentry \<Rightarrow> (int + dentry) option" where
  "check_dentry d_op d =
     (if d_in_lookup d then Some (Inr d)
      else let error = d_revalidate d_op d in
           if error > 0 then Some (Inr d) else if error \<noteq> 0 then Some (Inl error) else None)"

fun alloc_loop :: "(dentry \<Rightarrow> int) \<Rightarrow> (int + dentry) list \<Rightarrow> (int + dentry) option" where
  "alloc_loop d_op [] = None"
| "alloc_loop d_op (Inl e # allocs) = Some (Inl e)"
| "alloc_loop d_op (Inr d # allocs) = (case check_dentry d_op d of Some r \<Rightarrow> Some r | None \<Rightarrow> alloc_loop d_op allocs)"

definition get_dentry :: "(dentry \<Rightarrow> int) \<Rightarrow> (int + dentry) list \<Rightarrow> dentry option \<Rightarrow> (int + dentry) option" where
  "get_dentry d_op allocs dentry = alloc_loop d_op (case dentry of None \<Rightarrow> allocs | Some d \<Rightarrow> Inr d # allocs)"

text \<open>
  The flags that decide whether the file may be created: the error to report if it does not exist,
  the flags and the mode to go on with, and whether to go to \<open>no_open\<close>.
\<close>

definition create_flags ::
  "'a vfs_env \<Rightarrow> bool \<Rightarrow> u32 \<Rightarrow> u16 \<Rightarrow> dentry \<Rightarrow> vinode \<Rightarrow> int \<times> u32 \<times> u16 \<times> bool \<times> vinode" where
  "create_flags E got_write open_flag mode dentry dv =
     (if open_flag AND O_CREAT \<noteq> 0
      then let mode = (if \<not> sb_posixacl E then mode AND NOT (current_umask E) else mode) in
           if \<not> got_write
           then let open_flag = open_flag AND NOT O_CREAT in (- EROFS, open_flag, mode, open_flag AND (O_EXCL OR O_TRUNC) \<noteq> 0, dv)
           else let (create_error, dv) = may_o_create E dv dentry mode in
                if create_error \<noteq> 0
                then let open_flag = open_flag AND NOT O_CREAT in (create_error, open_flag, mode, open_flag AND O_EXCL \<noteq> 0, dv)
                else (create_error, open_flag, mode, False, dv)
      else (0, open_flag, mode, open_flag AND (O_TRUNC OR O_WRONLY OR O_RDWR) \<noteq> 0 \<and> \<not> got_write, dv))"

text \<open>A call into the file system, under the spin lock when the file system is flatfs.\<close>

definition flatfs_call :: "platform \<Rightarrow> bool \<Rightarrow> (ffs_state \<Rightarrow> ('r \<times> ffs_state) res) \<Rightarrow> vfs_state \<Rightarrow> ('r \<times> vfs_state) res" where
  "flatfs_call P flat f V =
     (if flat
      then bind_res (spin_lock P (flatfs_spinlock V)) (\<lambda>l.
           let V = V\<lparr>flatfs_spinlock := l, shared_is_flatfs := 1\<rparr> in
           bind_res (f (fs_st V)) (\<lambda>(r, st).
           Inr (r, V\<lparr>fs_st := st, shared_is_flatfs := 0, flatfs_spinlock := False\<rparr>)))
      else bind_res (f (fs_st V)) (\<lambda>(r, st). Inr (r, V\<lparr>fs_st := st\<rparr>)))"

definition flatfs_name :: bytes where "flatfs_name = [102, 108, 97, 116, 102, 115, 0]"

text \<open>
  The look-up of a dentry that is not in the dcache. \<open>alias\<close> is what \<open>d_splice_alias\<close> knows: another
  dentry of the directory that was found, which then replaces this one.
\<close>

definition open_lookup ::
  "platform \<Rightarrow> bytes \<Rightarrow> (nat \<Rightarrow> dentry option) \<Rightarrow> inode_operations \<Rightarrow> nat \<Rightarrow> u32 \<Rightarrow> dentry \<Rightarrow> vfs_state \<Rightarrow> ((int + dentry) \<times> vfs_state) res" where
  "open_lookup P type_name alias ops dir open_flag dentry V =
     (if \<not> d_in_lookup dentry then Inr (Inr dentry, V)
      else bind_res (if open_flag AND O_CREAT \<noteq> 0 then strcmp_eq type_name flatfs_name else Inr False) (\<lambda>flat.
      case op_lookup ops of
        None \<Rightarrow> Inl NullDeref
      | Some lookup \<Rightarrow>
          bind_res (flatfs_call P flat (lookup (Some dir) (d_name dentry)) V) (\<lambda>(res, V).
          let dentry = dentry\<lparr>d_in_lookup := False\<rparr> in
          case res of
            LookupErr e \<Rightarrow> Inr (Inl e, V)
          | LookupNull \<Rightarrow> Inr (Inr dentry, V)
          | Splice None \<Rightarrow> Inr (Inr (dentry\<lparr>d_hashed := True\<rparr>), V)
          | Splice (Some a) \<Rightarrow>
              (case alias a of
                 Some d \<Rightarrow> Inr (Inr d, V)
               | None \<Rightarrow> Inr (Inr (d_instantiate (fs_st V) (Some a) (dentry\<lparr>d_hashed := True\<rparr>)), V)))))"

definition open_create ::
  "platform \<Rightarrow> bytes \<Rightarrow> inode_operations \<Rightarrow> nat \<Rightarrow> u16 \<Rightarrow> dentry \<Rightarrow> vfs_state \<Rightarrow> ((int + dentry) \<times> vfs_state) res" where
  "open_create P type_name ops dir mode dentry V =
     (case op_create ops of
        None \<Rightarrow> Inr (Inl (- EACCES), V)
      | Some create \<Rightarrow>
          bind_res (strcmp_eq type_name flatfs_name) (\<lambda>flat.
          bind_res (flatfs_call P flat (\<lambda>st. bind_res (create (Some dir) (d_name dentry) mode st) (\<lambda>(e, i, st). Inr ((e, i), st))) V)
            (\<lambda>((error, inode), V).
          if error \<noteq> 0 then Inr (Inl error, V) else Inr (Inr (d_instantiate (fs_st V) inode dentry), V))))"

definition open_finish :: "int \<Rightarrow> u32 \<Rightarrow> dentry \<Rightarrow> vfs_state \<Rightarrow> open_result" where
  "open_finish create_error f_mode dentry V =
     (if create_error \<noteq> 0 \<and> d_inode dentry = None then (create_error, None, f_mode, V) else (0, Some dentry, f_mode, V))"

definition no_open ::
  "platform \<Rightarrow> bytes \<Rightarrow> (nat \<Rightarrow> dentry option) \<Rightarrow> inode_operations \<Rightarrow> nat \<Rightarrow> int \<Rightarrow> u32 \<Rightarrow> u16 \<Rightarrow> u32 \<Rightarrow> dentry \<Rightarrow> vfs_state \<Rightarrow>
    open_result res" where
  "no_open P type_name alias ops dir create_error open_flag mode f_mode dentry V =
     bind_res (open_lookup P type_name alias ops dir open_flag dentry V) (\<lambda>(r, V).
     case r of
       Inl error \<Rightarrow> Inr (error, None, f_mode, V)
     | Inr dentry \<Rightarrow>
         if d_inode dentry = None \<and> open_flag AND O_CREAT \<noteq> 0
         then let f_mode = f_mode OR FMODE_CREATED in
              bind_res (open_create P type_name ops dir mode dentry V) (\<lambda>(r, V).
              case r of
                Inl error \<Rightarrow> Inr (error, None, f_mode, V)
              | Inr dentry \<Rightarrow> Inr (open_finish create_error f_mode dentry V))
         else Inr (open_finish create_error f_mode dentry V))"

record open_args =
  oa_type_name :: bytes
  oa_alias :: "nat \<Rightarrow> dentry option"
  oa_revalidate :: "dentry \<Rightarrow> int"
  oa_cached :: "dentry option"
  oa_allocs :: "(int + dentry) list"
  oa_nd_flags :: u32
  oa_open_flag :: u32
  oa_acc_mode :: u32
  oa_mode :: u16
  oa_got_write :: bool
  oa_mnt_nodev :: bool
  oa_sb_i_nodev :: bool

definition lookup_open ::
  "platform \<Rightarrow> kenv \<Rightarrow> int \<Rightarrow> 'a vfs_env \<Rightarrow> open_args \<Rightarrow> nat \<Rightarrow> u32 \<Rightarrow> vfs_state \<Rightarrow> open_result res option" where
  "lookup_open P K junk E A dir f_mode V =
     (case get_vinode V (Some dir) of
        Inl e \<Rightarrow> Some (Inl e)
      | Inr (dfi, dv) \<Rightarrow>
          if IS_DEADDIR dv then Some (Inr (- ENOENT, None, f_mode, V))
          else let f_mode = f_mode AND NOT FMODE_CREATED; ops = iop_table P K junk dfi in
          (case get_dentry (oa_revalidate A) (oa_allocs A) (oa_cached A) of
             None \<Rightarrow> None
           | Some (Inl error) \<Rightarrow> Some (Inr (error, None, f_mode, V))
           | Some (Inr dentry) \<Rightarrow>
               if d_inode dentry \<noteq> None then Some (Inr (0, Some dentry, f_mode, V))
               else let (create_error, open_flag, mode, skip, dv) = create_flags E (oa_got_write A) (oa_open_flag A) (oa_mode A) dentry dv;
                        V = put_opflags dir dv V in
               Some (case (skip, op_atomic_open ops) of
                       (False, Some aopen) \<Rightarrow>
                         bind_res (atomic_open E (oa_mnt_nodev A) (oa_sb_i_nodev A) aopen (oa_nd_flags A) (oa_acc_mode A) dir dentry open_flag mode V)
                           (\<lambda>(error, d, f_mode, V).
                         Inr (if error = - ENOENT \<and> create_error \<noteq> 0 then create_error else error, d, f_mode, V))
                     | _ \<Rightarrow> no_open P (oa_type_name A) (oa_alias A) ops dir create_error open_flag mode f_mode dentry V)))"

end
