(* ===== verification/Type_Props.thy ===== *)
theory Type_Props
  imports Vfs_Ops
begin

text \<open>
  The type of an inode (the type bits of its mode and the operation table) is fixed when the inode
  is made: no operation of the module changes it, and what the VFS makes has the type that was
  asked for.
\<close>

section \<open>Types are kept\<close>

definition same_types :: "ffs_state \<Rightarrow> ffs_state \<Rightarrow> bool" where
  "same_types st st' \<longleftrightarrow>
     (\<forall>a fi. inodes st a = Some fi \<longrightarrow> (\<exists>fi'. inodes st' a = Some fi' \<and> i_mode fi' = i_mode fi \<and> i_op fi' = i_op fi))"

named_theorems types_intro \<open>operations that keep the types of inodes\<close>

lemma same_types_refl [simp]: "same_types st st"
  by (simp add: same_types_def)

lemma same_types_trans: "same_types st st' \<Longrightarrow> same_types st' st'' \<Longrightarrow> same_types st st''"
  by (fastforce simp: same_types_def)

lemma same_types_inodes: "inodes st' = inodes st \<Longrightarrow> same_types st st'"
  by (simp add: same_types_def)

lemma same_types_put:
  "inodes st a = Some fi \<Longrightarrow> i_mode f = i_mode fi \<Longrightarrow> i_op f = i_op fi \<Longrightarrow> inodes st' = (inodes st)(a \<mapsto> f) \<Longrightarrow> same_types st st'"
  by (auto simp: same_types_def)

lemma FFS_I_eq: "FFS_I st p = Inr (a, fi) \<longleftrightarrow> p = Some a \<and> inodes st a = Some fi"
  by (auto simp: FFS_I_def split: option.splits)

lemma upd_inode_types:
  assumes "upd_inode f p st = Inr st'" "\<And>fi. i_mode (f fi) = i_mode fi" "\<And>fi. i_op (f fi) = i_op fi"
  shows "same_types st st'"
  using assms by (auto simp: upd_inode_def res_simps FFS_I_eq put_inode_def same_types_def)

lemma dirty_inode_inodes: "ffs_dirty_inode P p st = Inr st' \<Longrightarrow> inodes st' = inodes st"
  by (auto simp: ffs_dirty_inode_def lock_buffer_wait_def io_complete_def define_callback_for_discard_def Let_def res_simps
      split: if_splits prod.splits option.splits)

lemma set_name_keeps: "set_name nm fi = Inr fi' \<Longrightarrow> i_mode fi' = i_mode fi \<and> i_op fi' = i_op fi"
  by (auto simp: set_name_def Let_def res_simps)

lemma mknod_dir_types: "mknod_dir K dfi nm p st = Inr (ino, st') \<Longrightarrow> same_types st st'"
  by (auto simp: mknod_dir_def res_simps FFS_I_eq put_inode_def Let_def same_types_def dest!: set_name_keeps)

lemma mknod_big_types: "mknod_big P dfi nm p st = Inr (r, st') \<Longrightarrow> same_types st st'"
  by (auto simp: mknod_big_def res_simps FFS_I_eq put_inode_def Let_def same_types_def dest!: set_name_keeps
      split: option.splits if_splits)

lemma mknod_file_types:
  assumes "mknod_file P K d dfi nm p st = Inr (r, st')" "inodes st d = Some dfi"
  shows "same_types st st'"
proof (cases "fi_is_big_dir dfi = 0")
  case False
  with assms show ?thesis by (auto simp: mknod_file_def dest: mknod_big_types)
next
  case True
  then obtain i t ino t' where i: "tbl_index NR_DIRS (fi_dir_id dfi) = Inr i" "hashtbl (sbi st) i = Some t"
    "flatfs_file_slot_alloc_by_name P t (fi_dir_id dfi) nm = Inr (ino, t')"
    using assms(1) by (auto simp: mknod_file_def res_simps split: option.splits)
  let ?st = "st\<lparr>sbi := (sbi st)\<lparr>hashtbl := (hashtbl (sbi st))(i \<mapsto> t')\<rparr>\<rparr>"
  show ?thesis
  proof (cases "ino = - 1")
    case ino: True
    then obtain g sb where g: "resize_dir (sbi ?st) (k_big K) = Inr (g, sb)"
      using assms(1) True i by (auto simp: mknod_file_def res_simps)
    show ?thesis
    proof (cases "g = - 1")
      case True
      with assms(1) \<open>fi_is_big_dir dfi = 0\<close> i ino g show ?thesis by (auto simp: mknod_file_def Let_def intro: same_types_inodes)
    next
      case False
      let ?dfi = "dfi\<lparr>fi_is_big_dir := 1, fi_big_dir_id := g\<rparr>"
      have "mknod_big P ?dfi nm p (put_inode d ?dfi (?st\<lparr>sbi := sb\<rparr>)) = Inr (r, st')"
        using assms(1) \<open>fi_is_big_dir dfi = 0\<close> i ino g False by (simp add: mknod_file_def Let_def)
      then have "same_types (put_inode d ?dfi (?st\<lparr>sbi := sb\<rparr>)) st'" by (rule mknod_big_types)
      moreover have "same_types st (put_inode d ?dfi (?st\<lparr>sbi := sb\<rparr>))"
        by (rule same_types_put [OF assms(2)]) (simp_all add: put_inode_def)
      ultimately show ?thesis by (rule same_types_trans [rotated])
    qed
  next
    case False
    with assms(1) True i show ?thesis
      by (auto simp: mknod_file_def res_simps FFS_I_eq put_inode_def Let_def same_types_def dest!: set_name_keeps)
  qed
qed

lemma mknod_finish_types:
  assumes "mknod_finish P ino p st = Inr (r, q, st')"
  shows "same_types st st' \<and> q = p \<and> r = 0"
proof -
  obtain a fi e st1 st2 where s: "p = Some a" "inodes st a = Some fi" "insert_inode_locked a (put_inode a (fi\<lparr>i_ino := ino\<rparr>) st) = Inr (e, st1)"
    "ffs_dirty_inode P p st1 = Inr st2" "unlock_new_inode p st2 = Inr st'" "q = p" "r = 0"
    using assms by (auto simp: mknod_finish_def res_simps FFS_I_eq mark_inode_dirty_def)
  have "same_types st (put_inode a (fi\<lparr>i_ino := ino\<rparr>) st)" by (rule same_types_put [OF s(2)]) (simp_all add: put_inode_def)
  moreover have "same_types (put_inode a (fi\<lparr>i_ino := ino\<rparr>) st) st1"
    using s(3) by (auto simp: insert_inode_locked_def res_simps FFS_I_eq put_inode_def same_types_def split: option.splits)
  moreover have "same_types st1 st2" using dirty_inode_inodes [OF s(4)] by (rule same_types_inodes)
  moreover have "same_types st2 st'" using s(5) by (auto simp: unlock_new_inode_def intro: upd_inode_types)
  ultimately show ?thesis using s(6,7) by (meson same_types_trans)
qed

section \<open>What is made has the type asked for\<close>

definition has_type :: "ffs_state \<Rightarrow> nat \<Rightarrow> u16 \<Rightarrow> iops \<Rightarrow> bool" where
  "has_type st a m ops \<longleftrightarrow> (\<exists>fi. inodes st a = Some fi \<and> i_mode fi = m \<and> i_op fi = ops)"

lemma has_type_kept: "has_type st a m ops \<Longrightarrow> same_types st st' \<Longrightarrow> has_type st' a m ops"
  by (fastforce simp: has_type_def same_types_def)

definition ops_of_mode :: "u16 \<Rightarrow> iops" where
  "ops_of_mode m = (if is_type S_IFREG m then FileOps else if is_type S_IFDIR m then DirOps else SpecialOps)"

lemma get_inode_type:
  assumes "flatfs_get_inode K m dev st = (p, st1)" "inodes st (inode_next st) = None"
  shows "same_types st st1 \<and> (p \<noteq> None \<longrightarrow> p = Some (inode_next st) \<and> has_type st1 (inode_next st) m (ops_of_mode m))"
  using assms
  by (auto simp: flatfs_get_inode_def new_inode_def put_inode_def has_type_def same_types_def init_vfs_inode_def set_ops_def
      ops_of_mode_def is_type_def split: option.splits if_splits)

lemma mknod_type:
  assumes "ffs_mknod P K (Some d) q m dev st = Inr (0, p, st')" "inodes st (inode_next st) = None" "inodes st d = Some dfi"
  shows "same_types st st' \<and> p = Some (inode_next st) \<and> has_type st' (inode_next st) m (ops_of_mode m)"
proof -
  obtain p1 st1 where g: "flatfs_get_inode K m dev st = (p1, st1)" by fastforce
  have g1: "same_types st st1" "p1 \<noteq> None \<longrightarrow> p1 = Some (inode_next st) \<and> has_type st1 (inode_next st) m (ops_of_mode m)"
    using get_inode_type [OF g assms(2)] by simp_all
  have dd: "d \<noteq> inode_next st" using assms(2,3) by auto
  have d1: "inodes st1 d = Some dfi"
    using g assms(3) dd by (auto simp: flatfs_get_inode_def new_inode_def put_inode_def split: option.splits)
  obtain ino st2 where f: "mknod_finish P ino p1 st2 = Inr (0, p, st')" "same_types st1 st2"
  proof (cases "m AND S_IFDIR = 0")
    case False
    then show thesis using that assms(1) d1 g by (auto simp: ffs_mknod_def res_simps FFS_I_eq dest: mknod_dir_types)
  next
    case True
    then show thesis
      using that assms(1) d1 g by (auto simp: ffs_mknod_def res_simps FFS_I_eq split: option.splits dest!: mknod_file_types)
  qed
  have fin: "same_types st2 st'" "p = p1" using mknod_finish_types [OF f(1)] by simp_all
  have "p1 \<noteq> None" using f(1) by (cases p1) (auto simp: mknod_finish_def FFS_I_def)
  then show ?thesis
    using g1 f(2) fin by (meson has_type_kept same_types_trans)
qed

lemma mkdir_type:
  assumes "ffs_mkdir P K (Some d) q m st = Inr (0, p, st')" "inodes st (inode_next st) = None" "inodes st d = Some dfi"
  shows "same_types st st' \<and> p = Some (inode_next st) \<and> has_type st' (inode_next st) (m OR S_IFDIR) (ops_of_mode (m OR S_IFDIR))"
proof -
  obtain st1 where m: "ffs_mknod P K (Some d) q (m OR S_IFDIR) 0 st = Inr (0, p, st1)" "inc_nlink (Some d) st1 = Inr st'"
    using assms(1) by (auto simp: ffs_mkdir_def res_simps split: if_splits)
  have "same_types st1 st'" using m(2) by (auto simp: inc_nlink_def intro: upd_inode_types)
  then show ?thesis using mknod_type [OF m(1) assms(2,3)] by (meson has_type_kept same_types_trans)
qed

end
