(* ===== verification/Vfs_Props.thy ===== *)
theory Vfs_Props
  imports Vfs_Ops Mount_Props
begin

text \<open>
  What the VFS promises to its users and to flatfs: the access rule of \<open>inode_permission\<close>, the
  discipline of \<open>flatfs_spinlock\<close>, and what the composition of the VFS operations with those of the
  module does.
\<close>

section \<open>The access rule\<close>

text \<open>
  The rule of POSIX: the class of the caller (owner, group, other) selects three bits of the mode,
  and every right that is asked for must be among them.
\<close>

definition class_bits :: "'a vfs_env \<Rightarrow> vinode \<Rightarrow> u16" where
  "class_bits E v =
     (if current_fsuid E = v_uid v then drop_bit 6 (v_mode v)
      else if in_group_p E (v_gid v) then drop_bit 3 (v_mode v)
      else v_mode v)"

definition rights_granted :: "'a vfs_env \<Rightarrow> vinode \<Rightarrow> u32 \<Rightarrow> bool" where
  "rights_granted E v msk \<longleftrightarrow> (\<forall>i<3. bit msk i \<longrightarrow> bit (class_bits E v) i)"

definition override :: "'a vfs_env \<Rightarrow> vinode \<Rightarrow> u32 \<Rightarrow> bool" where
  "override E v msk \<longleftrightarrow>
     (if is_type S_IFDIR (v_mode v)
      then capable_wrt_inode_uidgid E (v_uid v) (v_gid v) CAP_DAC_OVERRIDE \<or> (\<not> bit msk 1 \<and> capable_wrt_inode_uidgid E (v_uid v) (v_gid v) CAP_DAC_READ_SEARCH)
      else (capable_wrt_inode_uidgid E (v_uid v) (v_gid v) CAP_DAC_OVERRIDE \<and> (bit msk 0 \<longrightarrow> v_mode v AND S_IXUGO \<noteq> 0)) \<or>
           (bit msk 2 \<and> \<not> bit msk 1 \<and> \<not> bit msk 0 \<and> capable_wrt_inode_uidgid E (v_uid v) (v_gid v) CAP_DAC_READ_SEARCH))"

text \<open>The restrictions that hold for writing whatever the mode says.\<close>

definition write_barred :: "'a vfs_env \<Rightarrow> vinode \<Rightarrow> bool" where
  "write_barred E v \<longleftrightarrow>
     sb_rdonly E \<and> (is_type S_IFREG (v_mode v) \<or> is_type S_IFDIR (v_mode v) \<or> is_type S_IFLNK (v_mode v)) \<or>
     IS_IMMUTABLE v \<or> HAS_UNMAPPED_ID E v"

lemma and_bit_iff: "x AND 2 ^ n \<noteq> 0 \<longleftrightarrow> bit x n" if "n < LENGTH('a)" for x :: "'a::len word"
proof
  show "bit x n" if "x AND 2 ^ n \<noteq> 0"
  proof (rule ccontr)
    assume "\<not> bit x n"
    then have "x AND 2 ^ n = 0" by (intro bit_word_eqI) (auto simp: bit_and_iff bit_exp_iff)
    with that show False by simp
  qed
  show "x AND 2 ^ n \<noteq> 0" if "bit x n"
  proof
    assume "x AND 2 ^ n = 0"
    then have "\<not> bit (x AND 2 ^ n) n" by simp
    then show False using that \<open>n < LENGTH('a)\<close> by (simp add: bit_and_iff bit_exp_iff)
  qed
qed

lemma may_bits:
  "msk AND MAY_WRITE \<noteq> 0 \<longleftrightarrow> bit msk 1" "msk AND MAY_EXEC \<noteq> 0 \<longleftrightarrow> bit msk 0"
  using and_bit_iff [of 1 msk] and_bit_iff [of 0 msk] by (simp_all add: MAY_WRITE_def MAY_EXEC_def)

lemma may_all: "MAY_READ OR MAY_WRITE OR MAY_EXEC = mask 3"
  by (simp add: vfs_simps mask_eq_exp_minus_1)

lemma rights_of_mode:
  "msk AND NOT (ucast c) AND (MAY_READ OR MAY_WRITE OR MAY_EXEC) = 0 \<longleftrightarrow> (\<forall>i<3. bit msk i \<longrightarrow> bit c i)" for c :: u16 and msk :: u32
proof -
  have b: "bit (msk AND NOT (ucast c) AND mask 3) i \<longleftrightarrow> i < 3 \<and> bit msk i \<and> \<not> bit c i" for i
    by (auto simp: bit_and_iff bit_not_iff bit_mask_iff bit_ucast_iff)
  have "msk AND NOT (ucast c) AND mask 3 = 0 \<longleftrightarrow> (\<forall>i. \<not> bit (msk AND NOT (ucast c) AND mask 3) i)"
    by (metis bit_0_eq bot_apply bot_bool_def bit_word_eqI)
  then show ?thesis unfolding may_all b by blast
qed

lemma word_bits_eq: "a = b \<longleftrightarrow> (\<forall>i<LENGTH('a). bit a i = bit b i)" for a b :: "'a::len word"
  by (auto intro: bit_word_eqI)

lemma only_read: "msk AND (MAY_READ OR MAY_WRITE OR MAY_EXEC) = MAY_READ \<longleftrightarrow> bit msk 2 \<and> \<not> bit msk 1 \<and> \<not> bit msk 0" for msk :: u32
proof -
  have r: "bit MAY_READ i \<longleftrightarrow> i = 2" for i
    using bit_exp_iff [where 'a = u32, of 2 i] by (simp add: MAY_READ_def) auto
  have "msk AND mask 3 = MAY_READ \<longleftrightarrow> (\<forall>i<32. (i < 3 \<and> bit msk i) \<longleftrightarrow> i = 2)"
    unfolding word_bits_eq by (simp add: r bit_and_iff bit_mask_iff) blast
  also have "\<dots> \<longleftrightarrow> (\<forall>i<3. bit msk i \<longleftrightarrow> i = 2)"
  proof (rule iffI; intro allI impI)
    fix i :: nat assume a: "\<forall>i<32. (i < 3 \<and> bit msk i) \<longleftrightarrow> i = 2" and "i < 3"
    then have "i < 32" by linarith
    then show "bit msk i \<longleftrightarrow> i = 2" using a \<open>i < 3\<close> by blast
  qed auto
  also have "\<dots> \<longleftrightarrow> bit msk 2 \<and> \<not> bit msk 1 \<and> \<not> bit msk 0"
    by (auto simp: less_Suc_eq numeral_3_eq_3 numeral_2_eq_2)
  finally show ?thesis unfolding may_all .
qed

lemma exec_of_all: "(msk AND (MAY_READ OR MAY_WRITE OR MAY_EXEC)) AND MAY_EXEC = msk AND MAY_EXEC" for msk :: u32
  by (simp add: vfs_simps and.assoc)

lemma ucast_drop: "drop_bit n (ucast m :: u32) = ucast (drop_bit n m)" for m :: u16
  by (rule bit_word_eqI) (auto simp: bit_drop_bit_eq bit_ucast_iff dest: bit_imp_le_length)

lemma acl_check_class:
  assumes "\<not> sb_posixacl E"
  shows "acl_permission_check E v msk = (if rights_granted E v msk then 0 else - EACCES)"
  using assms
  by (cases "current_fsuid E = v_uid v"; cases "in_group_p E (v_gid v)")
    (simp_all add: acl_permission_check_def Let_def rights_granted_def class_bits_def rights_of_mode ucast_drop)

lemma generic_permission_rule:
  assumes "\<not> sb_posixacl E"
  shows "generic_permission E v msk = (if rights_granted E v msk \<or> override E v msk then 0 else - EACCES)"
proof -
  have "- EACCES \<noteq> 0" by (simp add: vfs_simps)
  then show ?thesis
    using assms may_bits [of msk] only_read [of msk]
    by (auto simp: generic_permission_def acl_check_class Let_def override_def exec_of_all)
qed

lemma rights_opflags [simp]:
  "rights_granted E (v\<lparr>v_opflags := f\<rparr>) msk = rights_granted E v msk" "override E (v\<lparr>v_opflags := f\<rparr>) msk = override E v msk"
  by (simp_all add: rights_granted_def class_bits_def override_def)

text \<open>
  C21: Without POSIX ACLs, and where neither the file system nor a security module or the device
  cgroup has a rule of its own, access to an inode is granted exactly if writing is not barred
  altogether (read-only file system, immutable file, unmapped owner) and the three mode bits of the
  caller's class contain every right asked for, or a capability overrides them.
\<close>
theorem inode_permission_posix:
  assumes "\<not> sb_posixacl E" "iop_permission E v = None" "\<And>v m. devcgroup_inode_permission E v m = 0"
    and "\<And>v m. security_inode_permission E v m = 0"
  shows "fst (inode_permission E v msk) = 0 \<longleftrightarrow>
    \<not> (bit msk 1 \<and> write_barred E v) \<and> (rights_granted E v msk \<or> override E v msk)"
proof -
  have e: "- EACCES \<noteq> 0" "- EPERM \<noteq> 0" "- EROFS \<noteq> 0" by (simp_all add: vfs_simps)
  have g: "fst (do_inode_permission E v msk) = (if rights_granted E v msk \<or> override E v msk then 0 else - EACCES)"
    using assms(1,2)
    by (simp add: do_inode_permission_def Let_def generic_permission_rule)
  obtain r v' where d: "do_inode_permission E v msk = (r, v')" by fastforce
  have tail: "fst (case do_inode_permission E v msk of (retval, inode) \<Rightarrow> if retval \<noteq> 0 then (retval, inode)
      else let retval = devcgroup_inode_permission E inode msk in
           if retval \<noteq> 0 then (retval, inode) else (security_inode_permission E inode msk, inode)) = r"
    using assms(3,4) by (simp add: d)
  have r: "r = 0 \<longleftrightarrow> rights_granted E v msk \<or> override E v msk" using g e(1) by (simp add: d)
  show ?thesis
  proof (cases "bit msk 1 \<and> write_barred E v")
    case True
    then have "msk AND MAY_WRITE \<noteq> 0" by (simp add: may_bits)
    with True show ?thesis
      using e by (simp add: inode_permission_def sb_permission_def write_barred_def Let_def) blast
  next
    case False
    then have "sb_permission E v msk = 0" "\<not> (msk AND MAY_WRITE \<noteq> 0 \<and> IS_IMMUTABLE v)"
      "\<not> (msk AND MAY_WRITE \<noteq> 0 \<and> HAS_UNMAPPED_ID E v)"
      by (auto simp: may_bits sb_permission_def write_barred_def Let_def)
    then have "fst (inode_permission E v msk) = r" using tail by (simp add: inode_permission_def) metis
    with False r show ?thesis by simp
  qed
qed

text \<open>An environment in which nothing but the mode bits decides, for user 1000.\<close>

definition demo_venv :: "unit vfs_env" where
  "demo_venv = \<lparr>current_fsuid = 1000, current_fsgid = 1000, current_umask = 0x12, in_group_p = (\<lambda>g. g = 1000),
     capable_wrt_inode_uidgid = (\<lambda>_ _ _. False), capable = (\<lambda>_. False), inode_owner_or_capable = (\<lambda>v. v_uid v = 1000),
     uid_valid = (\<lambda>u. u \<noteq> - 1), gid_valid = (\<lambda>g. g \<noteq> - 1), kuid_has_mapping = (\<lambda>_. True), kgid_has_mapping = (\<lambda>_. True),
     sb_posixacl = False, sb_rdonly = False, config_posix_acl = False, get_cached_acl_rcu = (\<lambda>_. NoAcl), get_acl = (\<lambda>_. Inr None),
     posix_acl_permission = (\<lambda>_ _ _. 0), iop_permission = (\<lambda>_. None), devcgroup_inode_permission = (\<lambda>_ _. 0),
     security_inode_permission = (\<lambda>_ _. 0), devcgroup_inode_mknod = (\<lambda>_ _. 0), security_path_mknod = (\<lambda>_ _. 0),
     security_inode_create = (\<lambda>_ _ _. 0), security_inode_mknod = (\<lambda>_ _ _ _. 0), security_inode_mkdir = (\<lambda>_ _ _. 0),
     security_inode_rmdir = (\<lambda>_ _. 0), security_inode_unlink = (\<lambda>_ _. 0), try_break_deleg = (\<lambda>_. 0), s_max_links = 0,
     sysctl_protected_symlinks = 0, sysctl_protected_hardlinks = 0, sysctl_protected_fifos = 0, sysctl_protected_regular = 0\<rparr>"

text \<open>A file with mode 0644: its owner may write, another user may not.\<close>

theorem inode_permission_posix_witness:
  "fst (inode_permission demo_venv \<lparr>v_mode = 0x81A4, v_uid = 1000, v_gid = 5, v_flags = 0, v_opflags = 0\<rparr> 2) = 0 \<and>
   fst (inode_permission demo_venv \<lparr>v_mode = 0x81A4, v_uid = 1001, v_gid = 5, v_flags = 0, v_opflags = 0\<rparr> 2) \<noteq> 0"
proof -
  have E: "\<not> sb_posixacl demo_venv" "iop_permission demo_venv v = None" "devcgroup_inode_permission demo_venv v m = 0"
    "security_inode_permission demo_venv v m = 0" for v m
    by (simp_all add: demo_venv_def)
  let ?v = "\<lambda>u. \<lparr>v_mode = 0x81A4, v_uid = u, v_gid = 5, v_flags = 0, v_opflags = 0\<rparr>"
  have "\<not> write_barred demo_venv (?v 1000)"
    by (simp add: write_barred_def demo_venv_def HAS_UNMAPPED_ID_def IS_IMMUTABLE_def)
  moreover have "rights_granted demo_venv (?v 1000) 2"
    by (simp add: rights_granted_def class_bits_def demo_venv_def less_Suc_eq numeral_3_eq_3)
  moreover have "\<not> rights_granted demo_venv (?v 1001) 2"
    by (auto simp: rights_granted_def class_bits_def demo_venv_def intro!: exI [of _ 1])
  moreover have "\<not> override demo_venv (?v 1001) 2" by (simp add: override_def demo_venv_def)
  ultimately show ?thesis
    using inode_permission_posix [OF E(1) E(2) E(3) E(4), of "?v 1000" 2] inode_permission_posix [OF E(1) E(2) E(3) E(4), of "?v 1001" 2]
    by simp
qed

section \<open>The spin lock around flatfs\<close>

definition lock_free :: "vfs_state \<Rightarrow> bool" where
  "lock_free V \<longleftrightarrow> \<not> flatfs_spinlock V \<and> shared_is_flatfs V = 0"

lemma flatfs_call_free: "flatfs_call P flat f V = Inr (r, V') \<Longrightarrow> lock_free V \<Longrightarrow> lock_free V'"
  by (auto simp: flatfs_call_def lock_free_def res_simps split: if_splits)

lemma no_atomic_open [simp]: "op_atomic_open (iop_table P K junk fi) = None"
  by (simp add: iop_table_def ffs_dir_inode_ops_def ffs_file_inode_ops_def)

lemma open_lookup_free:
  assumes "open_lookup P tn al ops dir fl d V = Inr (r, V')" "lock_free V"
  shows "lock_free V'"
proof (cases "d_in_lookup d")
  case True
  then obtain flat lookup res V1 where c: "op_lookup ops = Some lookup" "flatfs_call P flat (lookup (Some dir) (d_name d)) V = Inr (res, V1)"
    and f: "(if fl AND O_CREAT \<noteq> 0 then strcmp_eq tn flatfs_name else Inr False) = Inr flat"
    using assms(1) by (auto simp: open_lookup_def res_simps split: option.splits)
  have "lock_free V1" by (rule flatfs_call_free [OF c(2) assms(2)])
  moreover have "V' = V1"
    using True assms(1) f c by (cases res) (auto simp: open_lookup_def Let_def split: option.splits)
  ultimately show ?thesis by simp
qed (use assms in \<open>auto simp: open_lookup_def\<close>)

lemma open_create_free: "open_create P tn ops dir m d V = Inr (r, V') \<Longrightarrow> lock_free V \<Longrightarrow> lock_free V'"
  by (auto simp: open_create_def res_simps split: if_splits option.splits dest!: flatfs_call_free)

lemma no_open_free:
  assumes "no_open P tn al ops dir ce fl m fm d V = Inr (e, d', fm', V')" "lock_free V"
  shows "lock_free V'"
proof -
  obtain r V1 where l: "open_lookup P tn al ops dir fl d V = Inr (r, V1)" "lock_free V1"
    using assms open_lookup_free by (auto simp: no_open_def res_simps)
  show ?thesis
  proof (cases r)
    case (Inl er)
    with assms(1) l show ?thesis by (simp add: no_open_def)
  next
    case (Inr d1)
    show ?thesis
    proof (cases "d_inode d1 = None \<and> fl AND O_CREAT \<noteq> 0")
      case True
      then obtain r2 V2 where c: "open_create P tn ops dir m d1 V1 = Inr (r2, V2)" "lock_free V2"
        using assms(1) l Inr open_create_free by (auto simp: no_open_def res_simps Let_def)
      with True assms(1) l Inr show ?thesis by (cases r2) (auto simp: no_open_def open_finish_def Let_def split: if_splits)
    next
      case False
      then show ?thesis using assms(1) l Inr by (auto simp: no_open_def open_finish_def split: if_splits)
    qed
  qed
qed

section \<open>Opening a new file\<close>

lemma lookup_missing:
  assumes d: "inodes st d = Some dfi" and p: "p < NR_DIRS" "fi_is_big_dir dfi = 0" "i_ino dfi = dir_id_to_inode (of_nat p)"
    and t: "hashtbl (sbi st) p = Some t" and nm: "0 \<notin> set nm" "length nm < 256"
    and rd: "readable (bufs st) (page_lba P dfi (ht_home (nm @ [0]))) blk" and new: "\<forall>s<8. \<not> stored blk nm s"
    and nodir: "flatfs_dir_inode_by_name (sbi st) (i_ino dfi) (name_arg nm) = Inr 0"
  obtains bf where "ffs_lookup P K bk (Some d) (name_arg nm) st = Inr (Splice None, st\<lparr>bufs := bf\<rparr>)"
    "readable bf (page_lba P dfi (ht_home (nm @ [0]))) blk"
proof -
  have nm': "length nm < 482" using nm(2) by simp
  have pi: "uint (inode_to_dir_id (i_ino dfi)) = int p"
    using p by (simp add: dir_id_inode_id layout_simps unat_of_nat_less uint_nat)
  have q: "q_len (name_arg nm) \<le> int FFS_MAX_FILENAME_LEN" using nm(2) by (simp add: layout_simps)
  have "find (stored blk nm) [0..<8] = None" using new by (auto simp: find_None_iff simp del: upt_rec_numeral)
  then obtain bf where f: "get_file_seg P dfi (Some t) (nm @ [0]) st = Inr (0, st\<lparr>bufs := bf\<rparr>)"
    and bf: "readable bf (page_lba P dfi (ht_home (nm @ [0]))) blk"
    using get_file_seg_run [OF nm(1) nm' rd, of t] rd readable_held that [of "bufs st"] by (fastforce simp del: upt_rec_numeral split: if_splits)
  have "lookup_ino P dfi (name_arg nm) st = Inr (0, - 1, st\<lparr>bufs := bf\<rparr>)"
    using nodir p(1,2) f t by (simp add: lookup_ino_def lookup_dir_id [simplified] pi flatfs_file_inode_by_name_def)
  then have "ffs_lookup P K bk (Some d) (name_arg nm) st = Inr (Splice None, st\<lparr>bufs := bf\<rparr>)"
    using d q by (simp add: ffs_lookup_def Let_def)
  then show thesis using bf by (rule that)
qed

lemma reg_not_dir: "is_type S_IFREG m \<Longrightarrow> m AND S_IFDIR = 0"
proof -
  assume "is_type S_IFREG m"
  then have "(m AND S_IFMT) AND S_IFDIR = S_IFREG AND S_IFDIR" by (simp add: is_type_def)
  then show ?thesis by (simp add: S_IFMT_def S_IFDIR_def S_IFREG_def and.assoc)
qed

lemma file_inode_mode [simp]: "i_mode (file_inode K mode mem p b s nm) = mode"
  by (simp add: file_inode_def init_vfs_inode_def set_ops_def)

lemma flatfs_strcmp: "strcmp_eq flatfs_name flatfs_name = Inr True"
  by (simp add: flatfs_name_def)

lemma dtype_regular: "is_type S_IFREG m \<Longrightarrow> dtype_of m ops = RegularType"
  by (simp add: dtype_of_def is_type_def S_IFREG_def S_IFDIR_def)

lemma open_creat_run:
  assumes dir: "inodes (fs_st V) d = Some dfi" "slab_ok (fs_st V)" "i_op dfi = DirOps" "\<not> IS_DEADDIR (vinode_of V d dfi)"
    and mem: "k_inode K = Some mem" "length (fname (fi_filename mem)) = 482"
    and p: "fi_dir_id dfi = int p" "p < NR_DIRS" "fi_is_big_dir dfi = 0" "i_ino dfi = dir_id_to_inode (of_nat p)"
    and t: "hashtbl (sbi (fs_st V)) p = Some t" "ht_inv t" "ht_ready P t (ht_home (nm @ [0]))"
    and room: "s0 < 8" "(ht_home (nm @ [0]), s0) \<notin> ht_taken t"
    and fresh: "\<forall>s<8. icache (fs_st V) (file_ino p (ht_home (nm @ [0])) s) = None"
    and nm: "0 \<notin> set nm" "length nm < 256"
    and bd: "bd_inode (fs_st V)" and rd: "readable (bufs (fs_st V)) (page_lba P dfi (ht_home (nm @ [0]))) blk"
    and new: "\<forall>s<8. \<not> stored blk nm s" "flatfs_dir_inode_by_name (sbi (fs_st V)) (i_ino dfi) (name_arg nm) = Inr 0"
    and A: "oa_type_name A = flatfs_name" "get_dentry (oa_revalidate A) (oa_allocs A) (oa_cached A) = Some (Inr dn)" "oa_got_write A"
    and O: "oa_open_flag A AND O_CREAT \<noteq> 0" and dn: "d_inode dn = None" "d_name dn = name_arg nm"
    and E: "\<not> sb_posixacl E" "may_o_create E (vinode_of V d dfi) dn (oa_mode A AND NOT (current_umask E)) = (0, dv)"
    and m: "m = (oa_mode A AND NOT (current_umask E)) OR S_IFREG" "is_type S_IFREG m" and lf: "lock_free V"
  shows "\<exists>s dn' V' fi. s < 8 \<and> (ht_home (nm @ [0]), s) \<notin> ht_taken t \<and>
    lookup_open P K junk E A d f_mode V = Some (Inr (0, Some dn', (f_mode AND NOT FMODE_CREATED) OR FMODE_CREATED, V')) \<and>
    d_inode dn' = Some (inode_next (fs_st V)) \<and> d_type dn' = RegularType \<and>
    inodes (fs_st V') (inode_next (fs_st V)) = Some fi \<and> i_mode fi = m \<and> i_ino fi = file_ino p (ht_home (nm @ [0])) s \<and> lock_free V'"
proof -
  let ?h = "ht_home (nm @ [0])" and ?st = "fs_st V"
  obtain bf where lk: "ffs_lookup P K junk (Some d) (name_arg nm) ?st = Inr (Splice None, ?st\<lparr>bufs := bf\<rparr>)"
    and rd': "readable bf (page_lba P dfi ?h) blk"
    by (rule lookup_missing [OF dir(1) p(2-4) t(1) nm rd new])
  define st1 where "st1 = (if d_in_lookup dn then ?st\<lparr>bufs := bf\<rparr> else ?st)"
  have c1: "inodes st1 d = Some dfi" "slab_ok st1" "hashtbl (sbi st1) p = Some t" "bd_inode st1"
    "\<forall>s<8. icache st1 (file_ino p ?h s) = None" "readable (bufs st1) (page_lba P dfi ?h) blk"
    and nx: "inode_next st1 = inode_next ?st"
    using dir t fresh bd rd rd' by (simp_all add: st1_def)
  obtain s st' where c: "s < 8" "(?h, s) \<notin> ht_taken t" "ffs_mknod P K (Some d) (name_arg nm) m 0 st1 = Inr (0, Some (inode_next st1), st')"
    "inodes st' = (inodes st1)(inode_next st1 \<mapsto> file_inode K m mem p ?h s nm)"
    unfolding name_arg_def
    using create_run [OF c1(1,2) mem p(1-3) c1(3) t(2,3) room c1(5) nm c1(4,6) reg_not_dir [OF m(2)]] by blast
  define V1 where "V1 = put_opflags d dv V"
  have v1: "fs_st V1 = ?st" "\<not> flatfs_spinlock V1" "shared_is_flatfs V1 = 0" using lf by (simp_all add: V1_def put_opflags_def lock_free_def)
  define d1 where "d1 = (if d_in_lookup dn then dn\<lparr>d_in_lookup := False, d_hashed := True\<rparr> else dn)"
  define V2 where "V2 = V1\<lparr>fs_st := st1\<rparr>"
  let ?V3 = "V1\<lparr>fs_st := st', shared_is_flatfs := 0, flatfs_spinlock := False\<rparr>"
  let ?d2 = "d_instantiate st' (Some (inode_next ?st)) d1"
  have d1: "d_inode d1 = None" "d_name d1 = name_arg nm" using dn by (simp_all add: d1_def)
  have v2: "V2 = V1\<lparr>fs_st := st1, shared_is_flatfs := 0, flatfs_spinlock := False\<rparr>" "\<not> d_in_lookup dn \<Longrightarrow> V2 = V1"
    using v1 by (simp_all add: V2_def st1_def)
  have ops: "iop_table P K junk dfi = ffs_dir_inode_ops P K junk" by (simp add: iop_table_def dir(3))
  have ol: "open_lookup P flatfs_name al (ffs_dir_inode_ops P K junk) d (oa_open_flag A) dn V1 = Inr (Inr d1, V2)" for al
    using dn O lk v1 v2 by (cases "d_in_lookup dn")
      (simp_all add: open_lookup_def flatfs_strcmp ffs_dir_inode_ops_def flatfs_call_def Let_def d1_def st1_def)
  have oc: "open_create P flatfs_name (ffs_dir_inode_ops P K junk) d (oa_mode A AND NOT (current_umask E)) d1 V2 = Inr (Inr ?d2, ?V3)"
    using d1 c(3) v1 nx v2(1) by (simp add: open_create_def flatfs_strcmp ffs_dir_inode_ops_def flatfs_call_def Let_def ffs_create_def m(1))
  have fl: "create_flags E True (oa_open_flag A) (oa_mode A) dn (vinode_of V d dfi) =
      (0, oa_open_flag A, oa_mode A AND NOT (current_umask E), False, dv)"
    using O E by (simp add: create_flags_def Let_def)
  have "lookup_open P K junk E A d f_mode V = Some (Inr (0, Some ?d2, (f_mode AND NOT FMODE_CREATED) OR FMODE_CREATED, ?V3))"
    using dir(1,4) A dn(1) O fl ol oc d1(1)
    by (simp add: lookup_open_def get_vinode_def Let_def ops no_open_def open_finish_def
        ffs_dir_inode_ops_def [THEN arg_cong, of op_atomic_open] flip: V1_def)
  moreover have "d_inode ?d2 = Some (inode_next ?st)" "d_type ?d2 = RegularType"
    using c(4) by (simp_all add: d_instantiate_def dtype_regular m(2) nx)
  ultimately show ?thesis
    using c(1,2,4) lf nx by (intro exI [of _ s] exI [of _ ?d2] exI [of _ ?V3] exI [of _ "file_inode K m mem p ?h s nm"])
      (simp add: lock_free_def file_inode_def [THEN arg_cong, of i_ino])
qed

text \<open>With the spin lock held elsewhere, neither call into the module starts.\<close>

lemma open_lock_held:
  assumes smp: "pf_smp P" and held: "flatfs_spinlock V" and op: "i_op dfi = DirOps" and O: "flag AND O_CREAT \<noteq> 0"
  shows "d_in_lookup dn \<Longrightarrow> open_lookup P flatfs_name al (iop_table P K junk dfi) d flag dn V = Inl Deadlock"
    and "open_create P flatfs_name (iop_table P K junk dfi) d mode dn V = Inl Deadlock"
  using assms
  by (simp_all add: open_lookup_def open_create_def flatfs_strcmp flatfs_call_def iop_table_def ffs_dir_inode_ops_def spin_lock_def)

lemma open_creat_waits:
  assumes dir: "inodes (fs_st V) d = Some dfi" "i_op dfi = DirOps" "\<not> IS_DEADDIR (vinode_of V d dfi)"
    and A: "oa_type_name A = flatfs_name" "get_dentry (oa_revalidate A) (oa_allocs A) (oa_cached A) = Some (Inr dn)" "oa_got_write A"
    and O: "oa_open_flag A AND O_CREAT \<noteq> 0" and dn: "d_inode dn = None"
    and E: "\<not> sb_posixacl E" "may_o_create E (vinode_of V d dfi) dn (oa_mode A AND NOT (current_umask E)) = (0, dv)"
    and smp: "pf_smp P"
  shows "lookup_open P K junk E A d f_mode (V\<lparr>flatfs_spinlock := True\<rparr>) = Some (Inl Deadlock)"
proof -
  let ?V = "put_opflags d dv (V\<lparr>flatfs_spinlock := True\<rparr>)"
  have "flatfs_spinlock ?V" by (simp add: put_opflags_def)
  note w = open_lock_held [OF smp this dir(2) O]
  have at: "op_atomic_open (iop_table P K junk dfi) = None" by (simp add: iop_table_def dir(2) ffs_dir_inode_ops_def)
  have n: "no_open P flatfs_name al (iop_table P K junk dfi) d 0 (oa_open_flag A) md f dn ?V = Inl Deadlock" for al md f
    using w O dn by (cases "d_in_lookup dn") (simp_all add: no_open_def, simp add: open_lookup_def)
  have v: "vinode_of (V\<lparr>flatfs_spinlock := True\<rparr>) d dfi = vinode_of V d dfi" by (simp add: vinode_of_def)
  have fl: "create_flags E True (oa_open_flag A) (oa_mode A) dn (vinode_of V d dfi) =
      (0, oa_open_flag A, oa_mode A AND NOT (current_umask E), False, dv)"
    using O E by (simp add: create_flags_def Let_def)
  show ?thesis
    using dir(1,3) A O dn n by (simp add: lookup_open_def get_vinode_def Let_def v fl at)
qed

text \<open>A mounted state with a root directory that everybody may write to.\<close>

definition demo_root :: ffs_inode_info where
  "demo_root = demo_dir\<lparr>i_op := DirOps, i_mode := 0x41FF\<rparr>"

definition demo_vst :: "flatfs_sb_info \<Rightarrow> vfs_state" where
  "demo_vst sb = \<lparr>fs_st = (demo_st sb)\<lparr>inodes := [0 \<mapsto> demo_root]\<rparr>, i_flags = (\<lambda>_. 0), i_opflags = (\<lambda>_. 0), i_rwsem = (\<lambda>_. False),
     flatfs_spinlock = False, shared_is_flatfs = 0\<rparr>"

definition demo_dentry :: dentry where
  "demo_dentry = \<lparr>d_name = name_arg [97], d_inode = None, d_type = MissType, d_parent_inode = 0, d_is_root = False, d_in_lookup = True,
     d_op_revalidate = False, d_hashed = False, d_nfsfs_renamed = False, is_local_mountpoint = False\<rparr>"

definition demo_open :: open_args where
  "demo_open = \<lparr>oa_type_name = flatfs_name, oa_alias = (\<lambda>_. None), oa_revalidate = (\<lambda>_. 1), oa_cached = None,
     oa_allocs = [Inr demo_dentry], oa_nd_flags = 0, oa_open_flag = 0x42, oa_acc_mode = 6, oa_mode = 0x81B6, oa_got_write = True,
     oa_mnt_nodev = False, oa_sb_i_nodev = False\<rparr>"

lemma demo_perm: "inode_permission demo_venv (vinode_of (demo_vst sb) 0 demo_root) (MAY_WRITE OR MAY_EXEC) =
    (0, (vinode_of (demo_vst sb) 0 demo_root)\<lparr>v_opflags := 1\<rparr>)"
proof -
  have "generic_permission demo_venv ((vinode_of (demo_vst sb) 0 demo_root)\<lparr>v_opflags := 1\<rparr>) (MAY_WRITE OR MAY_EXEC) = 0"
    by (simp add: generic_permission_def acl_permission_check_def Let_def demo_venv_def vinode_of_def demo_root_def demo_dir_def
        blank_inode_def demo_vst_def vfs_simps)
  then show ?thesis
    by (simp add: inode_permission_def sb_permission_def do_inode_permission_def Let_def demo_venv_def IS_IMMUTABLE_def
        HAS_UNMAPPED_ID_def vinode_of_def demo_root_def demo_dir_def blank_inode_def demo_vst_def vfs_simps)
qed

lemma demo_may_create: "may_o_create demo_venv (vinode_of (demo_vst sb) 0 demo_root) demo_dentry m =
    (0, (vinode_of (demo_vst sb) 0 demo_root)\<lparr>v_opflags := 1\<rparr>)"
  using demo_perm [of sb] by (simp add: may_o_create_def Let_def demo_venv_def)

lemma demo_fs_st: "fs_st (demo_vst sb) = (demo_st sb)\<lparr>inodes := [0 \<mapsto> demo_root]\<rparr>" by (simp add: demo_vst_def)

lemma demo_slab_at:
  "slab_ok ((demo_st sb)\<lparr>inodes := [0 \<mapsto> fi]\<rparr>)" "inode_next ((demo_st sb)\<lparr>inodes := [0 \<mapsto> fi]\<rparr>) = Suc 0"
  by (auto simp: inode_next_def slab_ok_def first_free intro: first_free_is)

lemma demo_root_facts:
  "fi_dir_id demo_root = int 2" "fi_is_big_dir demo_root = 0" "i_ino demo_root = dir_id_to_inode (of_nat 2)" "i_op demo_root = DirOps"
  "\<not> IS_DEADDIR (vinode_of (demo_vst sb) 0 demo_root)"
  by (simp_all add: demo_root_def IS_DEADDIR_def vinode_of_def demo_vst_def)

lemma demo_open_facts:
  "oa_type_name demo_open = flatfs_name" "get_dentry (oa_revalidate demo_open) (oa_allocs demo_open) (oa_cached demo_open) = Some (Inr demo_dentry)" "oa_got_write demo_open"
  "oa_open_flag demo_open AND O_CREAT \<noteq> 0" "d_inode demo_dentry = None" "d_name demo_dentry = name_arg [97]"
  "0x81A4 = (oa_mode demo_open AND NOT (current_umask demo_venv)) OR S_IFREG" "is_type S_IFREG 0x81A4" "\<not> sb_posixacl demo_venv"
  by (simp_all add: demo_open_def get_dentry_def check_dentry_def O_CREAT_def demo_dentry_def demo_venv_def is_type_def S_IFREG_def S_IFMT_def)

lemma demo_vst_facts:
  "inodes (fs_st (demo_vst sb)) 0 = Some demo_root" "slab_ok (fs_st (demo_vst sb))" "inode_next (fs_st (demo_vst sb)) = 1"
  "hashtbl (sbi (fs_st (demo_vst sb))) 2 = Some empty_ht" "\<forall>s<8. icache (fs_st (demo_vst sb)) (file_ino 2 h s) = None"
  "bd_inode (fs_st (demo_vst sb))" "readable (bufs (fs_st (demo_vst sb))) n (replicate BLOCK_BYTES 0)" "lock_free (demo_vst sb)"
  by (simp_all add: demo_fs_st demo_slab_at) (simp add: lock_free_def demo_vst_def)

lemma demo_table_facts:
  "k_inode demo_env = Some blank_inode" "length (fname (fi_filename blank_inode)) = 482"
  "2 < NR_DIRS" "ht_inv empty_ht" "ht_ready x86_64_smp empty_ht h" "(0::nat) < 8" "(h, 0) \<notin> ht_taken empty_ht"
  "0 \<notin> set [97 :: u8]" "length [97 :: u8] < 256" "\<forall>s<8. \<not> stored (replicate BLOCK_BYTES 0) [97] s"
  using small_dirs by (simp_all add: zero_page_stored)

lemma demo_no_dir:
  obtains sb where "flatfs_dir_inode_by_name (sbi (fs_st (demo_vst sb))) (i_ino demo_root) (name_arg [97]) = Inr 0"
proof -
  obtain sb where "flatfs_dir_inode_by_name (sbi (demo_st sb)) (dir_id_to_inode 2) (name_arg [97]) = Inr 0" by (rule demo_lookup_none)
  then show thesis by (intro that [of sb]) (simp add: demo_fs_st demo_root_facts)
qed

text \<open>
  C13: An open with \<open>O_CREAT\<close>, by a caller who may create it, of a name that an ordinary directory does not
  have and whose bucket is not locked, has a free slot and can be read: the open returns 0 with the dentry of a
  new regular file that has the requested mode less the umask, in a free slot of the name's bucket, the file is
  marked as created, and the spin lock is free afterwards. The look-up in the module (made when the dentry is
  still being looked up) and the creation each take that lock: where another processor holds it, each of them,
  and so the open, waits.
\<close>
theorem open_creates_file:
  assumes dir: "inodes (fs_st V) d = Some dfi" "slab_ok (fs_st V)" "i_op dfi = DirOps" "\<not> IS_DEADDIR (vinode_of V d dfi)"
    and mem: "k_inode K = Some mem" "length (fname (fi_filename mem)) = 482"
    and p: "fi_dir_id dfi = int p" "p < NR_DIRS" "fi_is_big_dir dfi = 0" "i_ino dfi = dir_id_to_inode (of_nat p)"
    and t: "hashtbl (sbi (fs_st V)) p = Some t" "ht_inv t" "ht_ready P t (ht_home (nm @ [0]))"
    and room: "s0 < 8" "(ht_home (nm @ [0]), s0) \<notin> ht_taken t"
    and fresh: "\<forall>s<8. icache (fs_st V) (file_ino p (ht_home (nm @ [0])) s) = None"
    and nm: "0 \<notin> set nm" "length nm < 256"
    and bd: "bd_inode (fs_st V)" and rd: "readable (bufs (fs_st V)) (page_lba P dfi (ht_home (nm @ [0]))) blk"
    and new: "\<forall>s<8. \<not> stored blk nm s" "flatfs_dir_inode_by_name (sbi (fs_st V)) (i_ino dfi) (name_arg nm) = Inr 0"
    and A: "oa_type_name A = flatfs_name" "get_dentry (oa_revalidate A) (oa_allocs A) (oa_cached A) = Some (Inr dn)" "oa_got_write A"
    and O: "oa_open_flag A AND O_CREAT \<noteq> 0" and dn: "d_inode dn = None" "d_name dn = name_arg nm"
    and E: "\<not> sb_posixacl E" "may_o_create E (vinode_of V d dfi) dn (oa_mode A AND NOT (current_umask E)) = (0, dv)"
    and m: "m = (oa_mode A AND NOT (current_umask E)) OR S_IFREG" "is_type S_IFREG m" and lf: "lock_free V"
  shows "\<exists>s dn' V' fi. s < 8 \<and> (ht_home (nm @ [0]), s) \<notin> ht_taken t \<and>
    lookup_open P K junk E A d f_mode V = Some (Inr (0, Some dn', (f_mode AND NOT FMODE_CREATED) OR FMODE_CREATED, V')) \<and>
    d_inode dn' = Some (inode_next (fs_st V)) \<and> d_type dn' = RegularType \<and>
    inodes (fs_st V') (inode_next (fs_st V)) = Some fi \<and> i_mode fi = m \<and> i_ino fi = file_ino p (ht_home (nm @ [0])) s \<and> lock_free V' \<and>
    (pf_smp P \<longrightarrow>
       (d_in_lookup dn \<longrightarrow> open_lookup P flatfs_name (oa_alias A) (iop_table P K junk dfi) d (oa_open_flag A) dn (V\<lparr>flatfs_spinlock := True\<rparr>) = Inl Deadlock) \<and>
       open_create P flatfs_name (iop_table P K junk dfi) d (oa_mode A AND NOT (current_umask E)) dn (V\<lparr>flatfs_spinlock := True\<rparr>) = Inl Deadlock \<and>
       lookup_open P K junk E A d f_mode (V\<lparr>flatfs_spinlock := True\<rparr>) = Some (Inl Deadlock))"
  using open_creat_run [OF assms, of junk f_mode] open_lock_held [of P "V\<lparr>flatfs_spinlock := True\<rparr>" dfi, OF _ _ dir(3) O]
    open_creat_waits [OF dir(1,3,4) A O dn(1) E, of P K junk f_mode] by fastforce

theorem open_creates_file_witness:
  "\<exists>sb dn V' fi. lookup_open x86_64_smp demo_env 0 demo_venv demo_open 0 0 (demo_vst sb) = Some (Inr (0, Some dn, FMODE_CREATED, V')) \<and>
     d_inode dn = Some 1 \<and> inodes (fs_st V') 1 = Some fi \<and> i_mode fi = 0x81A4"
proof -
  obtain sb where sb: "flatfs_dir_inode_by_name (sbi (fs_st (demo_vst sb))) (i_ino demo_root) (name_arg [97]) = Inr 0" by (rule demo_no_dir)
  show ?thesis
    using open_creates_file [where junk = 0 and f_mode = 0, OF demo_vst_facts(1,2) demo_root_facts(4,5) demo_table_facts(1,2) demo_root_facts(1) demo_table_facts(3)
        demo_root_facts(2,3) demo_vst_facts(4) demo_table_facts(4-7) demo_vst_facts(5) demo_table_facts(8,9) demo_vst_facts(6,7)
        demo_table_facts(10) sb demo_open_facts(1-6,9) demo_may_create demo_open_facts(7,8) demo_vst_facts(8)]
    by (intro exI [of _ sb]) (auto simp: demo_vst_facts(3))
qed

section \<open>The spin lock is released\<close>

text \<open>
  C18: Whatever an open does in flatfs, when it returns, the global spin lock and the flag that
  goes with it are free again, on every path: cached dentries, errors of the look-up and of the
  creation included.
\<close>
theorem lookup_open_releases_spinlock:
  assumes "lookup_open P K junk E A dir f_mode V = Some (Inr (e, d, m, V'))" "lock_free V"
  shows "lock_free V'"
proof -
  obtain dfi dv where g: "get_vinode V (Some dir) = Inr (dfi, dv)" using assms(1) by (auto simp: lookup_open_def split: sum.splits)
  show ?thesis
  proof (cases "IS_DEADDIR dv")
    case True
    with assms g show ?thesis by (simp add: lookup_open_def)
  next
    case False
    then obtain r where r: "get_dentry (oa_revalidate A) (oa_allocs A) (oa_cached A) = Some r"
      using assms(1) g by (cases "get_dentry (oa_revalidate A) (oa_allocs A) (oa_cached A)") (simp_all add: lookup_open_def Let_def)
    show ?thesis
    proof (cases r)
      case (Inl er)
      with assms g False r show ?thesis by (simp add: lookup_open_def)
    next
      case (Inr dn)
      obtain ce fl md sk dv' where c: "create_flags E (oa_got_write A) (oa_open_flag A) (oa_mode A) dn dv = (ce, fl, md, sk, dv')"
        by (metis prod_cases5)
      have lf: "lock_free (put_opflags dir dv' V)" using assms(2) by (simp add: lock_free_def put_opflags_def)
      show ?thesis
      proof (cases "d_inode dn = None")
        case True
        with assms(1) g False r Inr c have
          "no_open P (oa_type_name A) (oa_alias A) (iop_table P K junk dfi) dir ce fl md (f_mode AND NOT FMODE_CREATED) dn (put_opflags dir dv' V) =
            Inr (e, d, m, V')"
          by (simp add: lookup_open_def Let_def split: bool.splits)
        then show ?thesis by (rule no_open_free [OF _ lf])
      next
        case False
        with assms g \<open>\<not> IS_DEADDIR dv\<close> r Inr show ?thesis by (simp add: lookup_open_def Let_def)
      qed
    qed
  qed
qed

theorem lookup_open_releases_spinlock_witness:
  "\<exists>sb dn V'. lookup_open x86_64_smp demo_env 0 demo_venv demo_open 0 0 (demo_vst sb) = Some (Inr (0, Some dn, FMODE_CREATED, V')) \<and>
     lock_free V'"
proof -
  obtain sb where sb: "flatfs_dir_inode_by_name (sbi (fs_st (demo_vst sb))) (i_ino demo_root) (name_arg [97]) = Inr 0" by (rule demo_no_dir)
  obtain dn V' where r: "lookup_open x86_64_smp demo_env 0 demo_venv demo_open 0 0 (demo_vst sb) = Some (Inr (0, Some dn, FMODE_CREATED, V'))"
    using open_creat_run [where junk = 0 and f_mode = 0, OF demo_vst_facts(1,2) demo_root_facts(4,5) demo_table_facts(1,2) demo_root_facts(1) demo_table_facts(3)
        demo_root_facts(2,3) demo_vst_facts(4) demo_table_facts(4-7) demo_vst_facts(5) demo_table_facts(8,9) demo_vst_facts(6,7)
        demo_table_facts(10) sb demo_open_facts(1-6,9) demo_may_create demo_open_facts(7,8) demo_vst_facts(8)]
    by auto
  then show ?thesis using lookup_open_releases_spinlock [OF r demo_vst_facts(8)] by blast
qed

end
