(* ===== verification/Vfs_Mknod_Props.thy ===== *)
theory Vfs_Mknod_Props
  imports Vfs_Props Type_Props
begin

text \<open>
  Types of what the VFS makes in flatfs. Regular files and directories come out as asked for.
  Special files do not: the module tells directories from other files by the one bit of \<open>S_IFDIR\<close>, which
  the modes of sockets and block devices have too.
\<close>

section \<open>Sockets\<close>

lemma sock_has_dirbit: "is_type S_IFSOCK m \<Longrightarrow> m AND S_IFDIR \<noteq> 0"
proof
  assume "is_type S_IFSOCK m" "m AND S_IFDIR = 0"
  then have "(m AND S_IFMT) AND S_IFDIR = S_IFSOCK AND S_IFDIR" by (simp add: is_type_def)
  then have "m AND S_IFDIR = S_IFDIR" by (simp add: S_IFMT_def S_IFDIR_def S_IFSOCK_def and.assoc)
  with \<open>m AND S_IFDIR = 0\<close> show False by (simp add: S_IFDIR_def)
qed

lemma dtype_sock: "is_type S_IFSOCK m \<Longrightarrow> dtype_of m ops = SpecialType"
  by (simp add: dtype_of_def is_type_def S_IFREG_def S_IFDIR_def S_IFSOCK_def)

lemma sock_no_cap: "is_type S_IFSOCK m \<Longrightarrow> \<not> is_type S_IFCHR m \<and> \<not> is_type S_IFBLK m"
  by (simp add: is_type_def S_IFSOCK_def S_IFCHR_def S_IFBLK_def)

lemma new_dir_mode [simp]: "i_mode (new_dir_inode K mode mem i nm) = mode"
  by (simp add: new_dir_inode_def init_vfs_inode_def set_ops_def)

text \<open>
  C29: Making a socket (what binding a Unix socket to a path does) in a flatfs directory: the VFS
  returns 0 and believes that the new dentry is a special file, while the module has entered the
  name into the directory tree as a subdirectory with an id and a file table of its own, and a
  look-up of the name in the tree finds that subdirectory.
\<close>
theorem vfs_mknod_socket_makes_directory:
  assumes "inodes (fs_st V) d = Some dfi" "slab_ok (fs_st V)" "fi_dir_id dfi = int p" "k_inode K = Some mem"
    and "length (fname (fi_filename mem)) = 482" "k_dle K" "k_ht K" "0 \<notin> set nm" "length nm < 256"
    and op: "i_op dfi = DirOps" and dno: "i_ino dfi = dir_id_to_inode (of_nat p)" and p: "p < NR_DIRS" "test_bit p (id_map (sbi (fs_st V)))"
    and tree: "tree_ok (sbi (fs_st V)) C" "ids_ok (sbi (fs_st V)) C" "Suc (length (C p)) < NR_DIRS"
      "\<exists>i<NR_DIRS. \<not> test_bit i (id_map (sbi (fs_st V)))"
    and new: "\<forall>a \<in> set (C p). \<not> dir_named (sbi (fs_st V)) nm (child (sbi (fs_st V)) a)"
    and bl: "bd_inode (fs_st V)" "dir_blocks (bufs (fs_st V))"
    and ic: "\<forall>i<NR_DIRS. \<not> test_bit i (id_map (sbi (fs_st V))) \<longrightarrow> icache (fs_st V) (dir_id_to_inode (of_nat i)) = None"
    and dn: "d_name dn = name_arg nm" "may_create E (vinode_of V d dfi) dn = (0, dv)"
    and E: "devcgroup_inode_mknod E mode 0 = 0" "security_inode_mknod E dv dn mode 0 = 0" and sock: "is_type S_IFSOCK mode"
  shows "\<exists>i dn' V'. i < NR_DIRS \<and> \<not> test_bit i (id_map (sbi (fs_st V))) \<and>
    vfs_mknod P K junk E d dn mode 0 V = Inr (0, dn', V') \<and> d_inode dn' = Some (inode_next (fs_st V)) \<and> d_type dn' = SpecialType \<and>
    tree_ok (sbi (fs_st V')) (C(p := C p @ [dle_next (sbi (fs_st V))])) \<and> hashtbl (sbi (fs_st V')) i = Some empty_ht \<and>
    flatfs_dir_inode_by_name (sbi (fs_st V')) (i_ino dfi) (name_arg nm) = Inr (dir_id_to_inode (of_nat i))"
proof -
  have nm: "length nm \<le> 482" using assms(9) by simp
  obtain i sb1 sb2 where m: "fill_one_dir_entry (sbi (fs_st V)) (nm @ [0]) = Inr (of_nat i, sb1)"
    "insert_dir True sb1 (of_nat p) (of_nat i) = Inr sb2" "i < NR_DIRS" "\<not> test_bit i (id_map (sbi (fs_st V)))"
    "tree_ok sb2 (C(p := C p @ [dle_next (sbi (fs_st V))]))"
    "flatfs_dir_inode_by_name sb2 (dir_id_to_inode (of_nat p)) (name_arg nm) = Inr (dir_id_to_inode (of_nat i))"
    using mkdir_found [OF tree(1,2) p tree(3,4) assms(8) nm new] by metis
  have ici: "icache (fs_st V) (dir_id_to_inode (of_nat i)) = None" using ic m(3,4) by simp
  obtain st' where r: "ffs_mknod P K (Some d) (name_arg nm) mode 0 (fs_st V) = Inr (0, Some (inode_next (fs_st V)), st')"
    "sbi st' = sb2\<lparr>hashtbl := (hashtbl sb2)(i \<mapsto> empty_ht)\<rparr>"
    "inodes st' = (inodes (fs_st V))(inode_next (fs_st V) \<mapsto>
       (new_dir_inode K mode mem i nm)\<lparr>i_ino := dir_id_to_inode (of_nat i), i_new := False\<rparr>)"
    by (rule mknod_dirbit_run [OF assms(1-9) m(3) ici m(1,2) bl sock_has_dirbit [OF sock]])
  let ?V = "(put_opflags d dv V)\<lparr>fs_st := st'\<rparr>" and ?dn = "d_instantiate st' (Some (inode_next (fs_st V))) dn"
  have "vfs_mknod P K junk E d dn mode 0 V = Inr (0, ?dn, ?V)"
    using assms(1) op dn E r(1) sock_no_cap [OF sock]
    by (simp add: vfs_mknod_def get_vinode_def iop_table_def ffs_dir_inode_ops_def Let_def put_opflags_def)
  moreover have "d_inode ?dn = Some (inode_next (fs_st V))" "d_type ?dn = SpecialType"
    using r(3) by (simp_all add: d_instantiate_def dtype_sock [OF sock])
  ultimately show ?thesis
    using m(3-6) r(2) by (intro exI [of _ i] exI [of _ ?dn] exI [of _ ?V]) (simp add: dno)
qed

lemma demo_vst_mounted:
  obtains sb where "tree_ok (sbi (fs_st (demo_vst sb))) (\<lambda>_. [])" "ids_ok (sbi (fs_st (demo_vst sb))) (\<lambda>_. [])"
    "test_bit 2 (id_map (sbi (fs_st (demo_vst sb))))" "\<exists>i<NR_DIRS. \<not> test_bit i (id_map (sbi (fs_st (demo_vst sb))))"
    "dir_blocks (bufs (fs_st (demo_vst sb)))"
proof -
  obtain sb where "tree_ok (sbi (demo_st sb)) (\<lambda>_. [])" "ids_ok (sbi (demo_st sb)) (\<lambda>_. [])"
    "\<forall>i. test_bit i (id_map (sbi (demo_st sb))) \<longleftrightarrow> i < 3" "\<exists>i<NR_DIRS. \<not> test_bit i (id_map (sbi (demo_st sb)))"
    "dir_blocks (bufs (demo_st sb))" by (rule demo_mounted)
  then show thesis by (intro that [of sb]) (simp_all add: demo_fs_st)
qed

lemma demo_may_make: "may_create demo_venv (vinode_of (demo_vst sb) 0 demo_root) demo_dentry =
    (0, (vinode_of (demo_vst sb) 0 demo_root)\<lparr>v_opflags := 1\<rparr>)"
  using demo_perm [of sb] demo_root_facts(5) [of sb] demo_open_facts(5) by (simp add: may_create_def) (simp add: demo_venv_def)

theorem vfs_mknod_socket_makes_directory_witness:
  "\<exists>sb i dn V'. vfs_mknod x86_64_smp demo_env 0 demo_venv 0 demo_dentry 0xC1ED 0 (demo_vst sb) = Inr (0, dn, V') \<and> d_type dn = SpecialType \<and>
     flatfs_dir_inode_by_name (sbi (fs_st V')) (dir_id_to_inode 2) (name_arg [97]) = Inr (dir_id_to_inode (of_nat i))"
proof -
  obtain sb where sb: "tree_ok (sbi (fs_st (demo_vst sb))) (\<lambda>_. [])" "ids_ok (sbi (fs_st (demo_vst sb))) (\<lambda>_. [])"
    "test_bit 2 (id_map (sbi (fs_st (demo_vst sb))))" "\<exists>i<NR_DIRS. \<not> test_bit i (id_map (sbi (fs_st (demo_vst sb))))"
    "dir_blocks (bufs (fs_st (demo_vst sb)))" by (rule demo_vst_mounted)
  have ic: "\<forall>i<NR_DIRS. \<not> test_bit i (id_map (sbi (fs_st (demo_vst sb)))) \<longrightarrow> icache (fs_st (demo_vst sb)) (dir_id_to_inode (of_nat i)) = None"
    by (simp add: demo_fs_st)
  have E: "devcgroup_inode_mknod demo_venv 0xC1ED 0 = 0" "security_inode_mknod demo_venv v demo_dentry 0xC1ED 0 = 0" for v
    by (simp_all add: demo_venv_def)
  have small: "Suc (length ([] :: nat list)) < NR_DIRS" "\<forall>a \<in> set []. \<not> dir_named (sbi (fs_st (demo_vst sb))) [97] (child (sbi (fs_st (demo_vst sb))) a)"
    by (simp_all add: layout_simps)
  have K: "k_dle demo_env" "k_ht demo_env" "is_type S_IFSOCK 0xC1ED" by (simp_all add: is_type_def S_IFSOCK_def S_IFMT_def)
  show ?thesis
    using vfs_mknod_socket_makes_directory [where junk = 0 and P = x86_64_smp, OF demo_vst_facts(1,2) demo_root_facts(1) demo_table_facts(1,2) K(1,2)
        demo_table_facts(8,9) demo_root_facts(4,3) demo_table_facts(3) sb(3,1,2) small(1) sb(4) small(2) demo_vst_facts(6) sb(5) ic
        demo_open_facts(6) demo_may_make E K(3)]
    by (auto simp: demo_root_facts(3))
qed

section \<open>Regular files and directories\<close>

lemma create_mode_type: "is_type S_IFREG ((mode AND S_IALLUGO) OR S_IFREG)"
  by (simp add: is_type_def S_IALLUGO_def S_IFREG_def S_IFMT_def bit.conj_disj_distrib2 and.assoc)

lemma mkdir_mode_type: "is_type S_IFDIR ((mode AND (S_IRWXUGO OR S_ISVTX)) OR S_IFDIR)"
  by (simp add: is_type_def S_IRWXUGO_def S_ISVTX_def S_IFDIR_def S_IFMT_def bit.conj_disj_distrib2 and.assoc)

lemma reg_is_not_dir: "is_type S_IFDIR m \<Longrightarrow> \<not> is_type S_IFREG m"
  by (simp add: is_type_def S_IFREG_def S_IFDIR_def)

lemma instantiate_type: "has_type st a m ops \<Longrightarrow> d_inode (d_instantiate st (Some a) dn) = Some a \<and> d_type (d_instantiate st (Some a) dn) = dtype_of m ops"
  by (auto simp: has_type_def d_instantiate_def)

text \<open>
  C16: A regular file that \<open>vfs_create\<close> makes and a directory that \<open>vfs_mkdir\<close> makes, in a directory of
  any size: whatever mode bits the caller passes, the new inode and its dentry have the type that
  was asked for, the inode has the permission bits that the VFS lets through and the operation
  table of its type, and no other inode changes its mode or operations.
\<close>
theorem vfs_makes_typed_inodes:
  assumes d: "inodes (fs_st V) d = Some dfi" "inodes (fs_st V) (inode_next (fs_st V)) = None"
  shows "(\<forall>dn' V'. vfs_create P K junk E d dn mode V = Inr (0, dn', V') \<longrightarrow>
      d_inode dn' = Some (inode_next (fs_st V)) \<and> d_type dn' = RegularType \<and> same_types (fs_st V) (fs_st V') \<and>
      has_type (fs_st V') (inode_next (fs_st V)) ((mode AND S_IALLUGO) OR S_IFREG) FileOps) \<and>
    (\<forall>dn' V'. vfs_mkdir P K junk E d dn mode V = Inr (0, dn', V') \<longrightarrow>
      d_inode dn' = Some (inode_next (fs_st V)) \<and> d_type dn' = DirectoryType \<and> same_types (fs_st V) (fs_st V') \<and>
      has_type (fs_st V') (inode_next (fs_st V)) ((mode AND (S_IRWXUGO OR S_ISVTX)) OR S_IFDIR) DirOps)"
proof (intro conjI allI impI)
  fix dn' V'
  assume c: "vfs_create P K junk E d dn mode V = Inr (0, dn', V')"
  let ?m = "(mode AND S_IALLUGO) OR S_IFREG" and ?a = "inode_next (fs_st V)"
  have "\<exists>p st'. ffs_mknod P K (Some d) (d_name dn) ?m 0 (fs_st V) = Inr (0, p, st') \<and> dn' = d_instantiate st' p dn \<and> fs_st V' = st'"
    using c d(1)
    by (auto simp: vfs_create_def get_vinode_def res_simps FFS_I_eq Let_def iop_table_def ffs_dir_inode_ops_def ffs_file_inode_ops_def
        put_opflags_def ffs_create_def or.assoc vfs_simps split: if_splits prod.splits)
  then obtain p st' where m: "ffs_mknod P K (Some d) (d_name dn) ?m 0 (fs_st V) = Inr (0, p, st')" "dn' = d_instantiate st' p dn" "fs_st V' = st'"
    by blast
  have t: "same_types (fs_st V) st'" "p = Some ?a" "has_type st' ?a ?m FileOps"
    using mknod_type [OF m(1) d(2,1)] create_mode_type [of mode] by (simp_all add: ops_of_mode_def)
  show "d_inode dn' = Some ?a" "d_type dn' = RegularType" "same_types (fs_st V) (fs_st V')" "has_type (fs_st V') ?a ?m FileOps"
    using t m instantiate_type [OF t(3), of dn] dtype_regular [OF create_mode_type] by simp_all
next
  fix dn' V'
  assume c: "vfs_mkdir P K junk E d dn mode V = Inr (0, dn', V')"
  let ?m = "(mode AND (S_IRWXUGO OR S_ISVTX)) OR S_IFDIR" and ?a = "inode_next (fs_st V)"
  have "\<exists>p st'. ffs_mkdir P K (Some d) (d_name dn) (mode AND (S_IRWXUGO OR S_ISVTX)) (fs_st V) = Inr (0, p, st') \<and> dn' = d_instantiate st' p dn \<and> fs_st V' = st'"
    using c d(1)
    by (auto simp: vfs_mkdir_def get_vinode_def res_simps FFS_I_eq Let_def iop_table_def ffs_dir_inode_ops_def ffs_file_inode_ops_def
        put_opflags_def vfs_simps split: if_splits prod.splits)
  then obtain p st' where m: "ffs_mkdir P K (Some d) (d_name dn) (mode AND (S_IRWXUGO OR S_ISVTX)) (fs_st V) = Inr (0, p, st')"
    "dn' = d_instantiate st' p dn" "fs_st V' = st'" by blast
  have t: "same_types (fs_st V) st'" "p = Some ?a" "has_type st' ?a ?m DirOps"
    using mkdir_type [OF m(1) d(2,1)] mkdir_mode_type [of mode] reg_is_not_dir by (auto simp: ops_of_mode_def)
  have "dtype_of ?m DirOps = DirectoryType" using mkdir_mode_type [of mode] by (simp add: dtype_of_def)
  then show "d_inode dn' = Some ?a" "d_type dn' = DirectoryType" "same_types (fs_st V) (fs_st V')" "has_type (fs_st V') ?a ?m DirOps"
    using t m instantiate_type [OF t(3), of dn] by simp_all
qed

lemma demo_vfs_create:
  "\<exists>dn V'. vfs_create x86_64_smp demo_env 0 demo_venv 0 demo_dentry 0x1A4 (demo_vst sb) = Inr (0, dn, V')"
proof -
  let ?V = "put_opflags 0 ((vinode_of (demo_vst sb) 0 demo_root)\<lparr>v_opflags := 1\<rparr>) (demo_vst sb)"
  have "(0x81A4 :: u16) AND S_IFDIR = 0" by (simp add: S_IFDIR_def)
  from create_run [OF demo_vst_facts(1,2) demo_table_facts(1,2) demo_root_facts(1) demo_table_facts(3) demo_root_facts(2) demo_vst_facts(4)
      demo_table_facts(4-7) demo_vst_facts(5) demo_table_facts(8,9) demo_vst_facts(6,7) this]
  obtain st' where "ffs_mknod x86_64_smp demo_env (Some 0) (name_arg [97]) 0x81A4 0 (fs_st (demo_vst sb)) =
      Inr (0, Some (inode_next (fs_st (demo_vst sb))), st')"
    by (auto simp: name_arg_def)
  then have "ffs_create x86_64_smp demo_env (Some 0) (name_arg [97]) 0x81A4 (fs_st ?V) = Inr (0, Some (inode_next (fs_st (demo_vst sb))), st')"
    by (simp add: ffs_create_def put_opflags_def S_IFREG_def)
  then show ?thesis
    using demo_vst_facts(1) [of sb] demo_root_facts(4) demo_may_make [of sb] demo_open_facts(6)
    by (simp add: vfs_create_def get_vinode_def iop_table_def ffs_dir_inode_ops_def Let_def S_IALLUGO_def S_IFREG_def)
      (simp add: demo_venv_def)
qed

theorem vfs_makes_typed_inodes_witness:
  "\<exists>sb dn V'. vfs_create x86_64_smp demo_env 0 demo_venv 0 demo_dentry 0x1A4 (demo_vst sb) = Inr (0, dn, V') \<and> d_type dn = RegularType \<and>
     has_type (fs_st V') 1 0x81A4 FileOps"
proof -
  have f: "inodes (fs_st (demo_vst blank_sb)) (inode_next (fs_st (demo_vst blank_sb))) = None"
    by (rule inode_next_free [OF demo_vst_facts(2)])
  obtain dn V' where r: "vfs_create x86_64_smp demo_env 0 demo_venv 0 demo_dentry 0x1A4 (demo_vst blank_sb) = Inr (0, dn, V')"
    using demo_vfs_create by blast
  then show ?thesis
    using vfs_makes_typed_inodes [OF demo_vst_facts(1) f, of x86_64_smp demo_env 0 demo_venv demo_dentry "0x1A4"]
    by (intro exI [of _ blank_sb] exI [of _ dn] exI [of _ V']) (simp add: demo_vst_facts(3) S_IALLUGO_def S_IFREG_def)
qed

end
