(* ===== verification/Vfs_Name.thy ===== *)
theory Vfs_Name
  imports Buffer_Cache
begin

text \<open>
  Hashing of path components (\<open>extra/namei.c\<close>), in the two forms the kernel can be built with: a
  word at a time and a byte at a time. \<open>hash_name\<close> hashes a component while it looks for its end;
  \<open>full_name_hash\<close> hashes a name of known length. The dcache relies on the two being the same
  function of the component. The word operations and the building blocks of the byte-wise hash
  come from headers of the kernel that are not part of the repository, so they are parameters.
\<close>

section \<open>A word at a time\<close>

text \<open>
  \<open>has_zero\<close> returns its verdict and the data that \<open>prep_zero_mask\<close> takes; a load delivers the eight
  bytes at an offset.
\<close>

record word_ops =
  load_unaligned_zeropad :: "bytes \<Rightarrow> nat \<Rightarrow> u64"
  has_zero :: "u64 \<Rightarrow> u64 \<times> u64"
  prep_zero_mask :: "u64 \<Rightarrow> u64 \<Rightarrow> u64"
  create_zero_mask :: "u64 \<Rightarrow> u64"
  zero_bytemask :: "u64 \<Rightarrow> u64"
  find_zero :: "u64 \<Rightarrow> u64"
  bytemask_from_count :: "u32 \<Rightarrow> u64"
  hashlen_create :: "u32 \<Rightarrow> u64 \<Rightarrow> u64"
  GOLDEN_RATIO_64 :: u64

definition REPEAT_BYTE :: "u64 \<Rightarrow> u64" where
  "REPEAT_BYTE x = 0x0101010101010101 * x"

definition HASH_MIX :: "u64 \<Rightarrow> u64 \<Rightarrow> u64 \<Rightarrow> u64 \<times> u64" where
  "HASH_MIX x y a =
     (let x = x XOR a; y = y XOR x; x = word_rotl 12 x; x = x + y; y = word_rotl 45 y; y = y * 9 in (x, y))"

definition fold_hash :: "word_ops \<Rightarrow> u64 \<Rightarrow> u64 \<Rightarrow> u32" where
  "fold_hash W x y = (let y = y XOR x * GOLDEN_RATIO_64 W; y = y * GOLDEN_RATIO_64 W in ucast (drop_bit 32 y))"

function full_name_loop :: "word_ops \<Rightarrow> bytes \<Rightarrow> nat \<Rightarrow> u32 \<Rightarrow> u64 \<Rightarrow> u64 \<Rightarrow> u64 \<times> u64" where
  "full_name_loop W name off len x y =
     (if len = 0 then (x, y)
      else let a = load_unaligned_zeropad W name off in
           if len < 8 then (x XOR (a AND bytemask_from_count W len), y)
           else let (x, y) = HASH_MIX x y a in full_name_loop W name (off + 8) (len - 8) x y)"
  by pat_completeness auto

termination
proof (relation "measure (\<lambda>(W, name, off, len, x, y). unat len)")
  fix W :: word_ops and name :: bytes and off and len :: u32 and x y a :: u64 and p xa ya
  assume "\<not> len < 8"
  then have "unat (len - 8) = unat len - 8" "8 \<le> unat len"
    using unat_sub [of 8 len] by (simp_all add: word_le_nat_alt not_less)
  then show "((W, name, off + 8, len - 8, xa, ya), W, name, off, len, x, y) \<in> measure (\<lambda>(W, name, off, len, x, y). unat len)"
    by simp
qed simp

declare full_name_loop.simps [simp del]

definition full_name_hash :: "word_ops \<Rightarrow> u64 \<Rightarrow> bytes \<Rightarrow> u32 \<Rightarrow> u32" where
  "full_name_hash W salt name len = (let (x, y) = full_name_loop W name 0 len 0 salt in fold_hash W x y)"

partial_function (option) hashlen_loop :: "word_ops \<Rightarrow> bytes \<Rightarrow> u64 \<Rightarrow> u64 \<Rightarrow> u64 \<Rightarrow> u64 option" where
  "hashlen_loop W name len x y =
     (let a = load_unaligned_zeropad W name (unat len); (za, adata) = has_zero W a in
      if za = 0 then let (x, y) = HASH_MIX x y a in hashlen_loop W name (len + 8) x y
      else let adata = prep_zero_mask W a adata; m = create_zero_mask W adata; x = x XOR (a AND zero_bytemask W m)
           in Some (hashlen_create W (fold_hash W x y) (len + find_zero W m)))"

definition hashlen_string :: "word_ops \<Rightarrow> u64 \<Rightarrow> bytes \<Rightarrow> u64 option" where
  "hashlen_string W salt name = hashlen_loop W name 0 0 salt"

partial_function (option) hash_name_loop :: "word_ops \<Rightarrow> bytes \<Rightarrow> u64 \<Rightarrow> u64 \<Rightarrow> u64 \<Rightarrow> u64 option" where
  "hash_name_loop W name len x y =
     (let a = load_unaligned_zeropad W name (unat len); b = a XOR REPEAT_BYTE 47;
          (za, adata) = has_zero W a; (zb, bdata) = has_zero W b in
      if za OR zb = 0 then let (x, y) = HASH_MIX x y a in hash_name_loop W name (len + 8) x y
      else let adata = prep_zero_mask W a adata; bdata = prep_zero_mask W b bdata;
               m = create_zero_mask W (adata OR bdata); x = x XOR (a AND zero_bytemask W m)
           in Some (hashlen_create W (fold_hash W x y) (len + find_zero W m)))"

definition hash_name :: "word_ops \<Rightarrow> u64 \<Rightarrow> bytes \<Rightarrow> u64 option" where
  "hash_name W salt name = hash_name_loop W name 0 0 salt"

section \<open>A byte at a time\<close>

record byte_ops =
  init_name_hash :: "u64 \<Rightarrow> u64"
  partial_name_hash :: "u64 \<Rightarrow> u64 \<Rightarrow> u64"
  end_name_hash :: "u64 \<Rightarrow> u32"
  hashlen_create_b :: "u32 \<Rightarrow> u64 \<Rightarrow> u64"

text \<open>Reading past the mapped bytes is out of bounds here.\<close>

fun full_name_bytes :: "byte_ops \<Rightarrow> bytes \<Rightarrow> nat \<Rightarrow> u64 \<Rightarrow> u64 res" where
  "full_name_bytes B name 0 h = Inr h"
| "full_name_bytes B [] (Suc n) h = Inl OutOfBounds"
| "full_name_bytes B (c # name) (Suc n) h = full_name_bytes B name n (partial_name_hash B (ucast c) h)"

definition full_name_hash_slow :: "byte_ops \<Rightarrow> u64 \<Rightarrow> bytes \<Rightarrow> u32 \<Rightarrow> u32 res" where
  "full_name_hash_slow B salt name len =
     bind_res (full_name_bytes B name (unat len) (init_name_hash B salt)) (\<lambda>h. Inr (end_name_hash B h))"

fun hashlen_bytes :: "byte_ops \<Rightarrow> bytes \<Rightarrow> u64 \<Rightarrow> u64 \<Rightarrow> u64 res" where
  "hashlen_bytes B [] len h = Inl OutOfBounds"
| "hashlen_bytes B (c # name) len h =
     (if c = 0 then Inr (hashlen_create_b B (end_name_hash B h) len)
      else hashlen_bytes B name (len + 1) (partial_name_hash B (ucast c) h))"

definition hashlen_string_slow :: "byte_ops \<Rightarrow> u64 \<Rightarrow> bytes \<Rightarrow> u64 res" where
  "hashlen_string_slow B salt name = hashlen_bytes B name 0 (init_name_hash B salt)"

text \<open>The do-while loop: the first byte is hashed without being looked at.\<close>

fun hash_name_bytes :: "byte_ops \<Rightarrow> bytes \<Rightarrow> u64 \<Rightarrow> u64 \<Rightarrow> u64 res" where
  "hash_name_bytes B [] len h = Inl OutOfBounds"
| "hash_name_bytes B (c # name) len h =
     (if c \<noteq> 0 \<and> c \<noteq> 47 then hash_name_bytes B name (len + 1) (partial_name_hash B (ucast c) h)
      else Inr (hashlen_create_b B (end_name_hash B h) len))"

definition hash_name_slow :: "byte_ops \<Rightarrow> u64 \<Rightarrow> bytes \<Rightarrow> u64 res" where
  "hash_name_slow B salt name =
     (case name of
        [] \<Rightarrow> Inl OutOfBounds
      | c # name \<Rightarrow> hash_name_bytes B name 1 (partial_name_hash B (ucast c) (init_name_hash B salt)))"

end
