(* ===== verification/Vfs_Name_Props.thy ===== *)
theory Vfs_Name_Props
  imports Vfs_Name
begin

text \<open>
  The two component hashes agree. Both loops are compared with \<open>ref_hash\<close>, which folds a list of
  bytes eight at a time and takes the rest as a shorter word.
\<close>

section \<open>Bytes and words\<close>

lemma le_bytes_le_value: "length bs \<le> 8 \<Longrightarrow> le_bytes (length bs) (le_value bs) = bs"
proof (induction bs)
  case (Cons b bs)
  have bnd: "take_bit (8 * length bs) (le_value bs) = le_value bs"
    using le_value_bytes [of "length bs" "le_value bs"] Cons by simp
  have "drop_bit 8 (push_bit 8 (le_value bs)) = le_value bs"
  proof (rule bit_word_eqI)
    fix n assume "n < LENGTH(64)"
    have "\<not> bit (le_value bs) n" if "56 \<le> n"
      using that Cons.prems arg_cong [OF bnd, of "\<lambda>w. bit w n"] by (simp add: bit_take_bit_iff)
    then show "bit (drop_bit 8 (push_bit 8 (le_value bs))) n = bit (le_value bs) n"
      using \<open>n < LENGTH(64)\<close> by (cases "56 \<le> n") (auto simp: bit_drop_bit_eq bit_push_bit_iff)
  qed
  moreover have "ucast (ucast b OR push_bit 8 (le_value bs) :: u64) = b"
    by (rule bit_word_eqI) (auto simp: bit_ucast_iff bit_or_iff bit_push_bit_iff)
  moreover have "drop_bit 8 (ucast b :: u64) = 0"
    by (rule bit_word_eqI) (auto simp: bit_ucast_iff bit_drop_bit_eq dest: bit_imp_le_length)
  ultimately show ?case using Cons by simp
qed simp

lemma le_bytes_xor: "le_bytes n (a XOR b) = map2 (XOR) (le_bytes n a) (le_bytes n b)"
proof (induction n a arbitrary: b rule: le_bytes.induct)
  case (2 n w)
  have "(ucast (w XOR b) :: u8) = ucast w XOR ucast b"
    by (rule bit_word_eqI) (auto simp: bit_ucast_iff bit_xor_iff)
  then show ?case using 2 by simp
qed simp

lemma le_bytes_repeat: "le_bytes 8 (REPEAT_BYTE 47) = replicate 8 47"
  by code_simp

lemma word_xor_eq_0: "x XOR y = 0 \<longleftrightarrow> x = y" for x y :: "'a::len word"
  by (metis xor.assoc xor.left_neutral xor.right_neutral xor_self_eq)

lemma word_or_eq_0: "x OR y = 0 \<longleftrightarrow> x = 0 \<and> y = 0" for x y :: "'a::len word"
  by (rule or_eq_0_iff)

lemma zero_of_xor: "i < 8 \<Longrightarrow> le_bytes 8 (a XOR REPEAT_BYTE 47) ! i = 0 \<longleftrightarrow> le_bytes 8 a ! i = 47"
  unfolding le_bytes_xor le_bytes_repeat by (simp add: word_xor_eq_0 del: replicate_Suc)

section \<open>What the word operations promise\<close>

text \<open>
  The documented behaviour of the operations: a load delivers the bytes in little-endian order
  with zeroes for what is not mapped; the zero test finds the first zero byte of a word, or of
  either of two words; the masks keep the bytes before it.
\<close>

definition first_zero :: "(nat \<Rightarrow> bool) \<Rightarrow> nat \<Rightarrow> bool" where
  "first_zero z i \<longleftrightarrow> i < 8 \<and> z i \<and> (\<forall>j<i. \<not> z j)"

definition mask_ok :: "word_ops \<Rightarrow> u64 \<Rightarrow> nat \<Rightarrow> bool" where
  "mask_ok W m i \<longleftrightarrow> find_zero W m = of_nat i \<and> (\<forall>c. c AND zero_bytemask W m = le_value (take i (le_bytes 8 c)))"

definition word_ops_ok :: "word_ops \<Rightarrow> bool" where
  "word_ops_ok W \<longleftrightarrow>
     (\<forall>name off. load_unaligned_zeropad W name off = le_value (take 8 (drop off name @ replicate 8 0))) \<and>
     (\<forall>a. fst (has_zero W a) = 0 \<longleftrightarrow> 0 \<notin> set (le_bytes 8 a)) \<and>
     (\<forall>a i. first_zero (\<lambda>j. le_bytes 8 a ! j = 0) i \<longrightarrow>
        mask_ok W (create_zero_mask W (prep_zero_mask W a (snd (has_zero W a)))) i) \<and>
     (\<forall>a b i. first_zero (\<lambda>j. le_bytes 8 a ! j = 0 \<or> le_bytes 8 b ! j = 0) i \<longrightarrow>
        mask_ok W (create_zero_mask W (prep_zero_mask W a (snd (has_zero W a)) OR prep_zero_mask W b (snd (has_zero W b)))) i) \<and>
     (\<forall>n<8. \<forall>c. c AND bytemask_from_count W n = le_value (take (unat n) (le_bytes 8 c)))"

lemma two_zeros:
  assumes "word_ops_ok W" "first_zero (\<lambda>j. le_bytes 8 a ! j = 0 \<or> le_bytes 8 b ! j = 0) i"
  shows "mask_ok W (create_zero_mask W (prep_zero_mask W a (snd (has_zero W a)) OR prep_zero_mask W b (snd (has_zero W b)))) i"
  using assms unfolding word_ops_ok_def by blast

lemma load_bytes:
  assumes "word_ops_ok W" "drop off name = s @ r"
  shows "le_bytes 8 (load_unaligned_zeropad W name off) = take 8 (s @ r @ replicate 8 0)"
    and "load_unaligned_zeropad W name off = le_value (take 8 (s @ r @ replicate 8 0))"
proof -
  have len: "length (take 8 (s @ r @ replicate 8 0)) = 8" by simp
  show "load_unaligned_zeropad W name off = le_value (take 8 (s @ r @ replicate 8 0))"
    using assms unfolding word_ops_ok_def by (metis append.assoc)
  then show "le_bytes 8 (load_unaligned_zeropad W name off) = take 8 (s @ r @ replicate 8 0)"
    using le_bytes_le_value [of "take 8 (s @ r @ replicate 8 0)"] len by (simp del: take_append)
qed

section \<open>The reference\<close>

function ref_hash :: "bytes \<Rightarrow> u64 \<Rightarrow> u64 \<Rightarrow> u64 \<times> u64" where
  "ref_hash bs x y =
     (if length bs < 8 then (x XOR le_value bs, y)
      else let (x, y) = HASH_MIX x y (le_value (take 8 bs)) in ref_hash (drop 8 bs) x y)"
  by pat_completeness auto
termination by (relation "measure (\<lambda>(bs, x, y). length bs)") auto

declare ref_hash.simps [simp del]

lemma full_name_loop_ref:
  assumes W: "word_ops_ok W"
  shows "drop off name = s @ r \<Longrightarrow> length s < 2 ^ 32 \<Longrightarrow> full_name_loop W name off (of_nat (length s)) x y = ref_hash s x y"
proof (induction s x y arbitrary: off rule: ref_hash.induct)
  case (1 s x y)
  have un: "unat (of_nat (length s) :: u32) = length s" using 1 by (simp add: unat_of_nat)
  note l = load_bytes [OF W 1(2)]
  show ?case
  proof (cases "length s < 8")
    case True
    then have lt: "(of_nat (length s) :: u32) < 8" using un by (simp add: word_less_nat_alt)
    have z: "(of_nat (length s) :: u32) = 0 \<longleftrightarrow> s = []" by (metis un unat_eq_zero length_0_conv)
    have "c AND bytemask_from_count W (of_nat (length s)) = le_value (take (length s) (le_bytes 8 c))" for c
      using W lt un unfolding word_ops_ok_def by metis
    then have "load_unaligned_zeropad W name off AND bytemask_from_count W (of_nat (length s)) = le_value s"
      using l(1) True by simp
    then show ?thesis using True lt z by (subst full_name_loop.simps, subst ref_hash.simps) simp
  next
    case False
    have n: "\<not> (of_nat (length s) :: u32) < 8" "(of_nat (length s) :: u32) \<noteq> 0"
      using False un by (auto simp: word_less_nat_alt unat_eq_0 [symmetric])
    have d: "(of_nat (length s) :: u32) - 8 = of_nat (length (drop 8 s))"
      using False by (simp add: of_nat_diff)
    have a: "load_unaligned_zeropad W name off = le_value (take 8 s)" using l(2) False by simp
    have o: "drop (off + 8) name = drop 8 s @ r"
      using 1(2) False by (simp add: add.commute [of off 8] flip: drop_drop)
    obtain x' y' where xy: "HASH_MIX x y (le_value (take 8 s)) = (x', y')" by fastforce
    have "full_name_loop W name (off + 8) (of_nat (length (drop 8 s))) x' y' = ref_hash (drop 8 s) x' y'"
      using 1(1) [OF False, of _ x' y'] xy o 1(3) by simp
    moreover have "full_name_loop W name off (of_nat (length s)) x y = full_name_loop W name (off + 8) (of_nat (length s) - 8) x' y'"
      by (subst full_name_loop.simps) (simp only: n xy a Let_def prod.case if_False)
    moreover have "ref_hash s x y = ref_hash (drop 8 s) x' y'"
      by (subst ref_hash.simps) (simp only: False xy Let_def prod.case if_False)
    ultimately show ?thesis by (simp only: d)
  qed
qed

lemma hash_name_loop_ref:
  assumes W: "word_ops_ok W"
  shows "drop off name = s @ r \<Longrightarrow> 0 \<notin> set s \<Longrightarrow> 47 \<notin> set s \<Longrightarrow> r = [] \<or> hd r = 0 \<or> hd r = 47 \<Longrightarrow> off + length s < 2 ^ 64 \<Longrightarrow>
    hash_name_loop W name (of_nat off) x y =
      Some (case ref_hash s x y of (x, y) \<Rightarrow> hashlen_create W (fold_hash W x y) (of_nat (off + length s)))"
proof (induction s x y arbitrary: off rule: ref_hash.induct)
  case (1 s x y)
  define a where "a = load_unaligned_zeropad W name off"
  have un: "unat (of_nat off :: u64) = off" using 1(6) by (simp add: unat_of_nat)
  note l = load_bytes [OF W 1(2), folded a_def]
  obtain za adata zb bdata where z: "has_zero W a = (za, adata)" "has_zero W (a XOR REPEAT_BYTE 47) = (zb, bdata)"
    by (meson surj_pair)
  have hz: "fst (has_zero W c) = 0 \<longleftrightarrow> (\<forall>i<8. le_bytes 8 c ! i \<noteq> 0)" for c
    using W by (simp add: word_ops_ok_def in_set_conv_nth)
  have both: "za OR zb = 0 \<longleftrightarrow> (\<forall>i<8. le_bytes 8 a ! i \<noteq> 0 \<and> le_bytes 8 a ! i \<noteq> 47)"
    using hz [of a] hz [of "a XOR REPEAT_BYTE 47"] z by (auto simp: zero_of_xor word_or_eq_0)
  show ?case
  proof (cases "length s < 8")
    case True
    let ?n = "length s"
    have end_byte: "le_bytes 8 a ! ?n = 0 \<or> le_bytes 8 a ! ?n = 47"
      using l(1) True 1(5) by (cases r) (auto simp: nth_append)
    have before: "le_bytes 8 a ! j \<noteq> 0 \<and> le_bytes 8 a ! j \<noteq> 47" if "j < ?n" for j
    proof -
      have "le_bytes 8 a ! j = s ! j" using l(1) True that by (simp add: nth_append)
      then show ?thesis using 1(3,4) nth_mem [OF that] by metis
    qed
    have "first_zero (\<lambda>j. le_bytes 8 a ! j = 0 \<or> le_bytes 8 (a XOR REPEAT_BYTE 47) ! j = 0) ?n"
      using end_byte before True by (auto simp: first_zero_def zero_of_xor)
    then have m: "mask_ok W (create_zero_mask W (prep_zero_mask W a adata OR prep_zero_mask W (a XOR REPEAT_BYTE 47) bdata)) ?n"
      using two_zeros [OF W] z by fastforce
    have "za OR zb \<noteq> 0" using both end_byte True by auto
    then show ?thesis
      using True z m l(1) un
      by (subst hash_name_loop.simps) (subst ref_hash.simps, simp add: Let_def mask_ok_def flip: a_def)
  next
    case False
    have byt: "le_bytes 8 a = take 8 s" using l(1) False by simp
    have "za OR zb = 0"
      unfolding both using byt False 1(3,4) by (auto simp: in_set_conv_nth)
    moreover have av: "a = le_value (take 8 s)" using l(2) False by simp
    moreover obtain x' y' where xy: "HASH_MIX x y (le_value (take 8 s)) = (x', y')" by fastforce
    moreover have o: "drop (off + 8) name = drop 8 s @ r"
      using 1(2) False by (simp add: add.commute [of off 8] flip: drop_drop)
    have "hash_name_loop W name (of_nat (off + 8)) x' y' =
      Some (case ref_hash (drop 8 s) x' y' of (x, y) \<Rightarrow> hashlen_create W (fold_hash W x y) (of_nat (off + 8 + length (drop 8 s))))"
      using 1(1) [OF False, of _ x' y' "off + 8"] xy o 1(3-6) False
      by (auto dest: in_set_dropD)
    ultimately show ?thesis
      using False z un
      by (subst hash_name_loop.simps, subst ref_hash.simps) (simp add: Let_def flip: a_def)
  qed
qed

section \<open>The component hashes agree\<close>

text \<open>The byte-wise loops of the other configuration, for any choice of the hash steps.\<close>

lemma full_name_bytes_fold:
  "full_name_bytes B (nm @ r) (length nm) h = Inr (fold (\<lambda>c. partial_name_hash B (ucast c)) nm h)"
  by (induction nm arbitrary: h) simp_all

lemma hash_name_bytes_fold:
  "0 \<notin> set nm \<Longrightarrow> 47 \<notin> set nm \<Longrightarrow> d = 0 \<or> d = 47 \<Longrightarrow> hash_name_bytes B (nm @ d # r) len h =
    Inr (hashlen_create_b B (end_name_hash B (fold (\<lambda>c. partial_name_hash B (ucast c)) nm h)) (len + of_nat (length nm)))"
  by (induction nm arbitrary: h len) (auto simp: ac_simps)

lemma hash_name_slow_matches:
  assumes "nm \<noteq> []" "0 \<notin> set nm" "47 \<notin> set nm" "length nm < 2 ^ 32" "d = 0 \<or> d = 47"
  shows "hash_name_slow B salt (nm @ d # r) =
    bind_res (full_name_hash_slow B salt (nm @ r') (of_nat (length nm))) (\<lambda>h. Inr (hashlen_create_b B h (of_nat (length nm))))"
proof -
  obtain c cs where nm: "nm = c # cs" using assms(1) by (cases nm) auto
  have "unat (of_nat (length nm) :: u32) = length nm" using assms(4) by (simp add: unat_of_nat)
  then show ?thesis
    using assms hash_name_bytes_fold [of cs d B r 1] full_name_bytes_fold [of B nm r' "init_name_hash B salt"]
    by (simp add: hash_name_slow_def full_name_hash_slow_def nm ac_simps)
qed

text \<open>
  C20: For a path component followed by a slash, a NUL or the end of the mapped memory,
  \<open>hash_name\<close> finds the end of the component and returns its length together with the hash that
  \<open>full_name_hash\<close> computes for that many bytes, wherever these bytes stand and whatever follows
  them there.
\<close>
theorem hash_name_matches_full_name_hash:
  assumes "word_ops_ok W" "0 \<notin> set nm" "47 \<notin> set nm" "length nm < 2 ^ 32" "r = [] \<or> hd r = 0 \<or> hd r = 47"
  shows "hash_name W salt (nm @ r) =
    Some (hashlen_create W (full_name_hash W salt (nm @ r') (of_nat (length nm))) (of_nat (length nm)))"
proof -
  have "full_name_loop W (nm @ r') 0 (of_nat (length nm)) 0 salt = ref_hash nm 0 salt"
    using full_name_loop_ref [OF assms(1), of 0 "nm @ r'" nm r'] assms(4) by simp
  then show ?thesis
    using hash_name_loop_ref [OF assms(1), of 0 "nm @ r" nm r 0 salt] assms
    by (simp add: hash_name_def full_name_hash_def split: prod.splits)
qed

text \<open>Straightforward word operations with the documented behaviour.\<close>

definition ref_word_ops :: word_ops where
  "ref_word_ops = \<lparr>load_unaligned_zeropad = (\<lambda>name off. le_value (take 8 (drop off name @ replicate 8 0))),
     has_zero = (\<lambda>a. (if 0 \<in> set (le_bytes 8 a) then 1 else 0, 0)),
     prep_zero_mask = (\<lambda>a _. le_value (map (\<lambda>b. if b = 0 then 1 else 0) (le_bytes 8 a))),
     create_zero_mask = (\<lambda>w. of_nat (length (takeWhile (\<lambda>b. b = 0) (le_bytes 8 w)))),
     zero_bytemask = (\<lambda>m. le_value (replicate (unat m) 255)), find_zero = (\<lambda>m. m),
     bytemask_from_count = (\<lambda>n. le_value (replicate (unat n) 255)),
     hashlen_create = (\<lambda>h len. push_bit 32 len OR ucast h), GOLDEN_RATIO_64 = 0x61C8864680B583EB\<rparr>"

lemma ref_word_ops_sel [simp]:
  "has_zero ref_word_ops a = (if 0 \<in> set (le_bytes 8 a) then 1 else 0, 0)"
  "prep_zero_mask ref_word_ops a d = le_value (map (\<lambda>b. if b = 0 then 1 else 0) (le_bytes 8 a))"
  "create_zero_mask ref_word_ops w = of_nat (length (takeWhile (\<lambda>b. b = 0) (le_bytes 8 w)))"
  "zero_bytemask ref_word_ops m = le_value (replicate (unat m) 255)" "find_zero ref_word_ops m = m"
  "bytemask_from_count ref_word_ops n = le_value (replicate (unat n) 255)"
  by (simp_all add: ref_word_ops_def)

lemma le_bytes_ones: "n \<le> 8 \<Longrightarrow> le_value (replicate n 255) = take_bit (8 * n) (- 1)"
proof -
  assume n: "n \<le> 8"
  have "le_bytes k (- 1) = replicate k 255" if "k \<in> {0, 1, 2, 3, 4, 5, 6, 7, 8}" for k
    using that by (elim insertE emptyE; simp only:) code_simp+
  then have "le_bytes n (- 1) = replicate n 255" using n by (simp add: le_Suc_eq numeral_eq_Suc)
  then show ?thesis using le_value_bytes [of n "- 1"] by simp
qed

lemma take_le_bytes: "n \<le> k \<Longrightarrow> take n (le_bytes k w) = le_bytes n w"
proof (induction n w arbitrary: k rule: le_bytes.induct)
  case (2 n w)
  then show ?case by (cases k) simp_all
qed simp

lemma and_ones: "n \<le> 8 \<Longrightarrow> c AND le_value (replicate n 255) = le_value (take n (le_bytes 8 c))"
  by (simp add: le_bytes_ones take_le_bytes le_value_bytes take_bit_eq_mask and.commute)

lemma le_value_or: "length xs = length ys \<Longrightarrow> le_value xs OR le_value ys = le_value (map2 (OR) xs ys)"
proof (induction xs ys rule: list_induct2)
  case (Cons x xs y ys)
  have "ucast (x OR y) = (ucast x OR ucast y :: u64)" by (rule bit_word_eqI) (auto simp: bit_ucast_iff bit_or_iff)
  then show ?case using Cons by (simp add: push_bit_or [symmetric] ac_simps)
qed simp

lemma first_nonzero:
  assumes "i < length zs" "zs ! i \<noteq> 0" "\<forall>j<i. zs ! j = (0 :: u8)"
  shows "length (takeWhile (\<lambda>b. b = 0) zs) = i"
proof -
  have "takeWhile (\<lambda>b. b = 0) zs = take i zs" by (rule takeWhile_eq_take_P_nth) (use assms in auto)
  then show ?thesis using assms(1) by simp
qed

lemma ref_mask_ok:
  assumes "length zs = 8" "i < 8" "zs ! i \<noteq> 0" "\<forall>j<i. zs ! j = 0"
  shows "mask_ok ref_word_ops (create_zero_mask ref_word_ops (le_value zs)) i"
proof -
  have "le_bytes 8 (le_value zs) = zs" using le_bytes_le_value [of zs] assms(1) by simp
  then have "create_zero_mask ref_word_ops (le_value zs) = of_nat i" using first_nonzero [of i zs] assms by simp
  moreover have "unat (of_nat i :: u64) = i" using assms(2) by (simp add: unat_of_nat)
  ultimately show ?thesis using assms(2) by (simp add: mask_ok_def and_ones)
qed

lemma ref_word_ops_ok: "word_ops_ok ref_word_ops"
proof -
  have 1: "mask_ok ref_word_ops (create_zero_mask ref_word_ops (prep_zero_mask ref_word_ops a d)) i"
    if "first_zero (\<lambda>j. le_bytes 8 a ! j = 0) i" for a d i
    using that by (subst ref_word_ops_sel(2), intro ref_mask_ok) (auto simp: first_zero_def)
  have 2: "mask_ok ref_word_ops (create_zero_mask ref_word_ops (prep_zero_mask ref_word_ops a d OR prep_zero_mask ref_word_ops b e)) i"
    if "first_zero (\<lambda>j. le_bytes 8 a ! j = 0 \<or> le_bytes 8 b ! j = 0) i" for a b d e i
    using that unfolding ref_word_ops_sel(2)
    by (subst le_value_or, simp, intro ref_mask_ok) (auto simp: first_zero_def)
  have 3: "c AND bytemask_from_count ref_word_ops n = le_value (take (unat n) (le_bytes 8 c))" if "n < 8" for n c
    using that by (simp add: and_ones word_less_nat_alt)
  have 4: "load_unaligned_zeropad ref_word_ops name off = le_value (take 8 (drop off name @ replicate 8 0))" for name off
    by (simp add: ref_word_ops_def)
  have 5: "fst (has_zero ref_word_ops a) = 0 \<longleftrightarrow> 0 \<notin> set (le_bytes 8 a)" for a by simp
  show ?thesis unfolding word_ops_ok_def using 1 2 3 4 5 by blast
qed

text \<open>The component of \<open>readme.txt/x\<close> as the start of a path and as a name on its own.\<close>

theorem hash_name_matches_full_name_hash_witness:
  "hash_name ref_word_ops 0 [114, 101, 97, 100, 109, 101, 46, 116, 120, 116, 47, 120, 0] =
     Some (hashlen_create ref_word_ops (full_name_hash ref_word_ops 0 [114, 101, 97, 100, 109, 101, 46, 116, 120, 116, 0] 10) 10)"
  using hash_name_matches_full_name_hash [OF ref_word_ops_ok, of "[114, 101, 97, 100, 109, 101, 46, 116, 120, 116]" "[47, 120, 0]" 0 "[0]"]
  by simp

end
