(* ===== verification/Res_Post.thy ===== *)
theory Res_Post
  imports Flatfs_Prelude
begin

text \<open>
  Postconditions of operations. \<open>post Q r\<close> says that whatever value \<open>r\<close> comes back with satisfies
  \<open>Q\<close>; a result that is stuck satisfies every postcondition. The rules follow the structure of an
  operation: sequencing, branches, case distinctions.
\<close>

definition post :: "('a \<Rightarrow> bool) \<Rightarrow> 'a res \<Rightarrow> bool" where
  "post Q r \<longleftrightarrow> (\<forall>x. r = Inr x \<longrightarrow> Q x)"

lemma post_Inr [simp]: "post Q (Inr x) = Q x"
  by (simp add: post_def)

lemma post_Inl [simp]: "post Q (Inl e)"
  by (simp add: post_def)

lemma post_bind [simp]: "post Q (bind_res m f) = post (\<lambda>x. post Q (f x)) m"
  by (cases m) simp_all

lemma post_seq: "post R m \<Longrightarrow> (\<And>x. R x \<Longrightarrow> post Q (f x)) \<Longrightarrow> post Q (bind_res m f)"
  by (cases m) simp_all

lemma post_bindI: "post (\<lambda>x. post Q (f x)) m \<Longrightarrow> post Q (bind_res m f)"
  by simp

lemma postD: "post Q r \<Longrightarrow> r = Inr x \<Longrightarrow> Q x"
  by (simp add: post_def)

lemma post_mono: "post R r \<Longrightarrow> (\<And>x. R x \<Longrightarrow> Q x) \<Longrightarrow> post Q r"
  by (simp add: post_def)

lemma post_any: "(\<And>x. Q x) \<Longrightarrow> post Q r"
  by (simp add: post_def)

lemma post_conj: "post Q r \<Longrightarrow> post R r \<Longrightarrow> post (\<lambda>x. Q x \<and> R x) r"
  by (simp add: post_def)

lemma post_if: "(b \<Longrightarrow> post Q r) \<Longrightarrow> (\<not> b \<Longrightarrow> post Q s) \<Longrightarrow> post Q (if b then r else s)"
  by simp

lemma post_option: "(p = None \<Longrightarrow> post Q r) \<Longrightarrow> (\<And>x. p = Some x \<Longrightarrow> post Q (s x)) \<Longrightarrow> post Q (case p of None \<Rightarrow> r | Some x \<Rightarrow> s x)"
  by (cases p) simp_all

lemma post_prod: "(\<And>x y. p = (x, y) \<Longrightarrow> post Q (f x y)) \<Longrightarrow> post Q (case p of (x, y) \<Rightarrow> f x y)"
  by (cases p) simp

lemma post_Let: "(\<And>x. x = v \<Longrightarrow> post Q (f x)) \<Longrightarrow> post Q (let x = v in f x)"
  by simp

lemmas post_rules = post_if post_option post_prod post_Let

end
