(* ===== verification/Big_Table.thy ===== *)
theory Big_Table
  imports File_Table
begin

text \<open>
  What stays true of the tables of big directories although \<open>insert_big_file\<close> never refuses a full
  bucket. As long as nothing is deleted, a bucket fills from slot 0 upwards and its counter counts the
  insertions: it is the number of used slots until all eight are used, and goes on counting (modulo its
  width) after that.
\<close>

definition big_bucket_ok :: "bucket \<Rightarrow> bool" where
  "big_bucket_ok b \<longleftrightarrow> length (slot_bitmap b) = 1 \<and>
     (\<exists>n. valid_slot_count b = of_nat n \<and> (\<forall>s<8. test_bit s (slot_bitmap b) \<longleftrightarrow> s < n))"

definition bt_ok :: "Big_Dir_HashTable \<Rightarrow> bool" where
  "bt_ok t \<longleftrightarrow> (\<forall>b<NR_BIG_BUCKETS. big_bucket_ok (bt_buckets t b))"

lemma big_bucket_bits: "big_bucket_ok b \<Longrightarrow> bitmap_bits (slot_bitmap b) = 64"
  by (simp add: big_bucket_ok_def bitmap_bits_def BITS_PER_LONG_def)

text \<open>A bucket that is not full has the counter of an ordinary bucket.\<close>

lemma big_bucket_counts:
  assumes "big_bucket_ok b" "\<not> test_bit 7 (slot_bitmap b)"
  shows "bucket_ok b"
proof -
  obtain n where n: "valid_slot_count b = of_nat n" "\<forall>s<8. test_bit s (slot_bitmap b) \<longleftrightarrow> s < n"
    using assms(1) by (auto simp: big_bucket_ok_def)
  then have "n \<le> 7" using assms(2) by force
  then have "bm.used (slot_bitmap b) FILE_SLOT_NUM = {..<n}" using n(2) by (auto simp: used_eq layout_simps)
  then show ?thesis using n(1) assms(1) by (simp add: bucket_ok_def big_bucket_ok_def)
qed

lemma big_bucket_scan:
  assumes "big_bucket_ok b"
  obtains n where "valid_slot_count b = of_nat n" "\<forall>s<8. test_bit s (slot_bitmap b) \<longleftrightarrow> s < n"
    "find_first_zero_bit (slot_bitmap b) FILE_SLOT_NUM = Inr (min n 8)"
proof -
  obtain n where n: "valid_slot_count b = of_nat n" "\<forall>s<8. test_bit s (slot_bitmap b) \<longleftrightarrow> s < n"
    using assms by (auto simp: big_bucket_ok_def)
  have 8: "FILE_SLOT_NUM = 8" by (simp add: layout_simps)
  obtain z where z: "z \<le> 8" "find_first_zero_bit (slot_bitmap b) FILE_SLOT_NUM = Inr z"
    using bm.ffz_total [of 8 "slot_bitmap b"] big_bucket_bits [OF assms] 8 by auto
  have "z = min n 8"
  proof (cases "z < 8")
    case True
    then have "\<not> test_bit z (slot_bitmap b)" "\<forall>j<z. test_bit j (slot_bitmap b)"
      using bm.ffz_found [of z 8 "slot_bitmap b"] z 8 by simp_all
    then have "\<not> z < n" "\<forall>j<z. j < n" using n(2) True by auto
    then show ?thesis using True by (metis less_le_not_le linorder_neqE_nat min.absorb1 order_less_irrefl)
  next
    case False
    then have "\<forall>s<8. s < n" using bm.ffz_full [of 8 "slot_bitmap b"] big_bucket_bits [OF assms] z 8 n(2) by auto
    then have "8 \<le> n" by (meson not_less less_irrefl)
    then show ?thesis using False z(1) by simp
  qed
  with z(2) n that show thesis by blast
qed

lemma big_bucket_take:
  assumes "big_bucket_ok b" "valid_slot_count b = of_nat n" "\<forall>s<8. test_bit s (slot_bitmap b) \<longleftrightarrow> s < n"
  shows "big_bucket_ok (b\<lparr>bkt_lock := l, slot_bitmap := set_bit1 (min n 8) (slot_bitmap b), valid_slot_count := valid_slot_count b + 1\<rparr>)"
proof -
  have "test_bit s (set_bit1 (min n 8) (slot_bitmap b)) \<longleftrightarrow> s < Suc n" if "s < 8" for s
    using that assms(3) big_bucket_bits [OF assms(1)] by (auto simp: test_set_bit1)
  moreover have "length (set_bit1 (min n 8) (slot_bitmap b)) = 1" using assms(1) by (simp add: big_bucket_ok_def set_bit1_def)
  ultimately show ?thesis using assms(2) unfolding big_bucket_ok_def by (intro conjI exI [of _ "Suc n"]) (simp_all add: add.commute)
qed

lemma BKDR_loop_nulD: "BKDR_loop n h = Inr r \<Longrightarrow> 0 \<in> set n"
  by (induction n h rule: BKDR_loop.induct) (auto split: if_splits)

lemma insert_big_file_ok:
  assumes "bt_ok t" "insert_big_file P t n = Inr (f, t')"
  shows "bt_ok t'"
proof -
  obtain h where "BKDRHash n = Inr h" using assms(2) by (auto simp: insert_big_file_def res_simps)
  then have z: "0 \<in> set n" by (auto simp: BKDRHash_def res_simps dest: BKDR_loop_nulD)
  let ?h = "bt_home n" and ?b = "bt_buckets t (bt_home n)"
  have r: "arr_ready P (bt_buckets t) ?h"
    using assms(2) by (auto simp: insert_big_file_def BKDRHash_nul [OF z] res_simps arr_ready_def bt_home_def Let_def)
  have b: "big_bucket_ok ?b" using assms(1) bt_home_less by (simp add: bt_ok_def)
  obtain k where k: "valid_slot_count ?b = of_nat k" "\<forall>s<8. test_bit s (slot_bitmap ?b) \<longleftrightarrow> s < k"
    "find_first_zero_bit (slot_bitmap ?b) FILE_SLOT_NUM = Inr (min k 8)" by (rule big_bucket_scan [OF b])
  have "uint (of_nat (min k 8) :: u8) \<noteq> - 1" using uint_ge_0 [of "of_nat (min k 8) :: u8"] by linarith
  then have "t' = t\<lparr>bt_buckets := (bt_buckets t)(?h := took (bt_buckets t) ?h (min k 8))\<rparr>"
    using assms(2) k(3) unat_slot [of "min k 8"]
    by (simp add: insert_big_file_def BKDRHash_nul [OF z] arr_ready_lock [OF r] Let_def flip: bt_home_def)
  then show ?thesis using assms(1) big_bucket_take [OF b k(1,2)] by (simp add: bt_ok_def)
qed

lemma big_slot_alloc_ok:
  "bt_ok t \<Longrightarrow> flatfs_big_file_slot_alloc_by_name P t d n = Inr (ino, t') \<Longrightarrow> bt_ok t'"
  by (auto simp: flatfs_big_file_slot_alloc_by_name_def res_simps split: if_splits dest: insert_big_file_ok)

text \<open>
  \<open>vmalloc\<close> does not clear the memory of a new table; \<open>init_big_file_ht\<close> clears the bitmaps and the
  counters of the buckets, whatever they held.
\<close>

lemma init_big_ok:
  assumes "\<forall>t. junk = Some t \<longrightarrow> (\<forall>b. length (slot_bitmap (bt_buckets t b)) = 1)" "init_big_file_ht junk = Inr (Some t)"
  shows "bt_ok t"
proof -
  obtain j bs where j: "junk = Some j" "init_buckets [0..<NR_BIG_BUCKETS] (bt_buckets j) = Inr bs" "t = j\<lparr>bt_buckets := bs\<rparr>"
    using assms(2) by (auto simp: init_big_file_ht_def res_simps split: option.splits)
  have "init_buckets [0..<NR_BIG_BUCKETS] (bt_buckets j) =
      Inr (\<lambda>b. if b \<in> set [0..<NR_BIG_BUCKETS] then (bt_buckets j b)\<lparr>slot_bitmap := [0], valid_slot_count := 0\<rparr> else bt_buckets j b)"
    by (rule init_buckets_ok) (use assms(1) j(1) in simp_all)
  then show ?thesis using j(2,3) by (auto simp: bt_ok_def big_bucket_ok_def intro!: exI [of _ 0])
qed

lemma bt_ok_pos [simp]: "bt_ok (t\<lparr>bt_pos := x\<rparr>) = bt_ok t"
  by (simp add: bt_ok_def)

end
