(* ===== verification/Unlink_Props.thy ===== *)
theory Unlink_Props
  imports Inode_Props
begin

text \<open>
  Unlinking a file: on a buffer as the kernel sets it up, the header of the page is changed and the record for
  the end-of-I/O handler is then filled through a null pointer, before the write is submitted.
\<close>

section \<open>The page of an unlinked file\<close>

lemma header_update:
  assumes "length blk = BLOCK_BYTES"
  obtains bm blk1 v blk2 where "page_slot_bitmap blk = Inr bm" "put_slot_bitmap blk (bitmap_clear bm s 1) = Inr blk1"
    "page_valid_slot_num blk1 = Inr v" "put_valid_slot_num blk1 (v - 1) = Inr blk2" "only_at 0 12 blk blk2"
proof -
  obtain w where w: "get_bytes blk 0 8 = Inr w" using assms by (simp add: get_bytes_def block_simps)
  let ?bm = "bitmap_clear [le_value w] s 1"
  obtain b1 where b1: "put_bytes blk 0 (le_bytes 8 (?bm ! 0)) = Inr b1"
    using put_bytes_ok [of 0 _ blk] assms by (fastforce simp: block_simps)
  have l1: "length b1 = BLOCK_BYTES" using put_bytes_length [OF b1] assms by simp
  obtain u where u: "get_bytes b1 8 4 = Inr u" using l1 by (simp add: get_bytes_def block_simps)
  obtain b2 where b2: "put_bytes b1 8 (le_bytes 4 (word_of_int (cint (uint (le_value u)) - 1))) = Inr b2"
    using put_bytes_ok [of 8 _ b1] l1 by (fastforce simp: block_simps)
  have "only_at 0 12 blk b2" by (rule only_at_trans [OF only_at_put [OF b1] only_at_put [OF b2]]) simp_all
  then show thesis
    using that [of "[le_value w]" b1 "cint (uint (le_value u))" b2] w b1 u b2
    by (simp add: page_slot_bitmap_def put_slot_bitmap_def page_valid_slot_num_def put_valid_slot_num_def)
qed

section \<open>Unlinking\<close>

text \<open>On a buffer as the kernel sets it up the record is filled through a null pointer.\<close>

lemma unlink_null_private:
  assumes "inodes st a = Some fi" "fi_slot_id fi = int s" "bufs st (compose_pblk_for_discard P fi) = Some b"
    and "\<not> b_locked b" "length (b_data b) = BLOCK_BYTES" "b_private b = None"
  shows "ffs_unlink P dir (Some a) st = Inl NullDeref"
proof -
  obtain bm blk1 v blk2 where "page_slot_bitmap (b_data b) = Inr bm" "put_slot_bitmap (b_data b) (bitmap_clear bm s 1) = Inr blk1"
    "page_valid_slot_num blk1 = Inr v" "put_valid_slot_num blk1 (v - 1) = Inr blk2"
    using header_update [OF assms(5)] by metis
  with assms show ?thesis
    by (simp add: ffs_unlink_def unlink_page_def sb_bread_def get_bh_def lock_buffer_wait_def lock_buffer_def init_handler_for_discard_def)
qed

end
