(* ===== verification/Module_Run.thy ===== *)
theory Module_Run
  imports Res_Post Big_Table Mount_Props Unlink_Props Type_Props File_Ops
begin

text \<open>
  Whole runs of the module: the operations the kernel calls, in any order and with any arguments,
  as a step relation on the state of the mounted file system, and what holds in every state that a
  mount and any number of operations lead to.
\<close>

section \<open>Reachable states\<close>

inductive reachable :: "('s \<Rightarrow> bool) \<Rightarrow> ('s \<Rightarrow> 's \<Rightarrow> bool) \<Rightarrow> 's \<Rightarrow> bool" for init step where
  start: "init s \<Longrightarrow> reachable init step s"
| further: "reachable init step s \<Longrightarrow> step s s' \<Longrightarrow> reachable init step s'"

locale invariant_of =
  fixes init :: "'s \<Rightarrow> bool" and step :: "'s \<Rightarrow> 's \<Rightarrow> bool" and inv :: "'s \<Rightarrow> bool"
  assumes init_inv: "init s \<Longrightarrow> inv s"
    and step_inv: "inv s \<Longrightarrow> step s s' \<Longrightarrow> inv s'"
begin

lemma reachable_inv: "reachable init step s \<Longrightarrow> inv s"
  by (induction rule: reachable.induct) (auto intro: init_inv step_inv)

lemma run_inv: "step\<^sup>*\<^sup>* s s' \<Longrightarrow> inv s \<Longrightarrow> inv s'"
  by (induction rule: rtranclp_induct) (auto intro: step_inv)

end

section \<open>Steps of the module\<close>

text \<open>
  What the allocators hand out are objects of the C types: the name field of an inode has 482 bytes,
  the bitmap of a bucket of a big table is one word. Eviction is the kernel's: the inode leaves the
  inode hash and the RCU callback of the module frees it. A write in flight may complete at any time,
  and the slab cache may at any time change its mind about where the next inode goes, as long as that
  memory is not in use.
\<close>

definition kenv_ok :: "kenv \<Rightarrow> bool" where
  "kenv_ok K \<longleftrightarrow> (\<forall>mem. k_inode K = Some mem \<longrightarrow> length (fname (fi_filename mem)) = 482) \<and>
     (\<forall>t. k_big K = Some t \<longrightarrow> (\<forall>b. length (slot_bitmap (bt_buckets t b)) = 1))"

definition evict :: "nat \<Rightarrow> ffs_state \<Rightarrow> ffs_state" where
  "evict a st = fold ffs_i_callback (ffs_destroy_inode [] a)
     (st\<lparr>icache := (\<lambda>ino. if icache st ino = Some a then None else icache st ino)\<rparr>)"

inductive ffs_step ::
  "platform \<Rightarrow> 'c actor \<Rightarrow> (get_block \<Rightarrow> 'm \<Rightarrow> int \<Rightarrow> u32 \<Rightarrow> u32 \<Rightarrow> int \<times> 'm) \<Rightarrow> ffs_state \<Rightarrow> ffs_state \<Rightarrow> bool"
  for P actor bwb where
  lookup: "kenv_ok K \<Longrightarrow> ffs_lookup P K junk dir name st = Inr (r, st') \<Longrightarrow> ffs_step P actor bwb st st'"
| create: "kenv_ok K \<Longrightarrow> ffs_create P K dir name mode st = Inr (ret, p, st') \<Longrightarrow> ffs_step P actor bwb st st'"
| mknod: "kenv_ok K \<Longrightarrow> ffs_mknod P K dir name mode dev st = Inr (ret, p, st') \<Longrightarrow> ffs_step P actor bwb st st'"
| mkdir: "kenv_ok K \<Longrightarrow> ffs_mkdir P K dir name mode st = Inr (ret, p, st') \<Longrightarrow> ffs_step P actor bwb st st'"
| unlink: "ffs_unlink P dir p st = Inr (ret, st') \<Longrightarrow> ffs_step P actor bwb st st'"
| rmdir: "ffs_rmdir P dir p st = Inr (ret, st') \<Longrightarrow> ffs_step P actor bwb st st'"
| readdir: "ffs_readdir P actor dir st ctx = Inr (ret, st', ctx') \<Longrightarrow> ffs_step P actor bwb st st'"
| write_begin: "ffs_write_begin P bwb p pos len flags m st = Inr (ret, m', st') \<Longrightarrow> ffs_step P actor bwb st st'"
| dirty_inode: "ffs_dirty_inode P p st = Inr st' \<Longrightarrow> ffs_step P actor bwb st st'"
| io_done: "n \<in> set (pending st) \<Longrightarrow> io_complete P n st = Inr st' \<Longrightarrow> ffs_step P actor bwb st st'"
| evict: "ffs_step P actor bwb st (evict a st)"
| slab: "slab_ok (st\<lparr>slab := f\<rparr>) \<Longrightarrow> ffs_step P actor bwb st (st\<lparr>slab := f\<rparr>)"

text \<open>A state right after a mount, of a device with unlocked buffers that nobody uses otherwise.\<close>

definition buf_ok :: "buffer_head \<Rightarrow> bool" where
  "buf_ok b \<longleftrightarrow> \<not> b_locked b \<and> b_private b = None \<and> length (b_data b) = BLOCK_BYTES"

definition bufs_ok :: "buffers \<Rightarrow> bool" where
  "bufs_ok bf \<longleftrightarrow> (\<forall>n b. bf n = Some b \<longrightarrow> buf_ok b)"

definition unmounted :: "ffs_state \<Rightarrow> bool" where
  "unmounted st \<longleftrightarrow> bufs_ok (bufs st) \<and> pending st = [] \<and> inodes st = (\<lambda>_. None) \<and> icache st = (\<lambda>_. None) \<and> slab_ok st"

definition mounted :: "platform \<Rightarrow> ffs_state \<Rightarrow> bool" where
  "mounted P st' \<longleftrightarrow> (\<exists>K M sb sb' st. unmounted st \<and> kenv_ok K \<and> flatfs_fill_super P K M sb st = Inr (0, sb', st'))"

section \<open>The invariant\<close>

definition tables_ok :: "flatfs_sb_info \<Rightarrow> bool" where
  "tables_ok sb \<longleftrightarrow> (\<forall>d t. hashtbl sb d = Some t \<longrightarrow> ht_inv t) \<and> (\<forall>g t. big_dir_hashtbl sb g = Some t \<longrightarrow> bt_ok t)"

definition inodes_ok :: "ffs_state \<Rightarrow> bool" where
  "inodes_ok st \<longleftrightarrow>
     slab_ok st \<and> (\<forall>a fi. inodes st a = Some fi \<longrightarrow> length (fname (fi_filename fi)) = 482) \<and>
     (\<forall>ino a. icache st ino = Some a \<longrightarrow> (\<exists>fi. inodes st a = Some fi \<and> i_ino fi = ino))"

definition ffs_inv :: "ffs_state \<Rightarrow> bool" where
  "ffs_inv st \<longleftrightarrow> bufs_ok (bufs st) \<and> pending st = [] \<and> inodes_ok st \<and> tables_ok (sbi st)"

lemma ffs_invD:
  assumes "ffs_inv st"
  shows "bufs_ok (bufs st)" "pending st = []" "inodes_ok st" "tables_ok (sbi st)" "slab_ok st"
  using assms by (simp_all add: ffs_inv_def inodes_ok_def)

lemma inv_bufs [simp]: "ffs_inv st \<Longrightarrow> bufs_ok bf \<Longrightarrow> ffs_inv (st\<lparr>bufs := bf\<rparr>)"
  by (simp add: ffs_inv_def inodes_ok_def)

lemma inv_sbi [simp]: "ffs_inv st \<Longrightarrow> tables_ok sb \<Longrightarrow> ffs_inv (st\<lparr>sbi := sb\<rparr>)"
  by (simp add: ffs_inv_def inodes_ok_def)

lemma inv_put:
  assumes "ffs_inv st" "inodes st a = Some fi" "i_ino f = i_ino fi" "length (fname (fi_filename f)) = length (fname (fi_filename fi))"
  shows "ffs_inv (put_inode a f st)"
  using assms by (auto simp: ffs_inv_def inodes_ok_def) (fastforce simp: put_inode_def)+

lemma inv_upd:
  assumes "ffs_inv st" "upd_inode f p st = Inr st'"
    and "\<And>fi. i_ino (f fi) = i_ino fi" "\<And>fi. fi_filename (f fi) = fi_filename fi"
  shows "ffs_inv st'"
proof -
  obtain a fi where "inodes st a = Some fi" "st' = put_inode a (f fi) st" using assms(2) by (auto simp: upd_inode_def res_simps FFS_I_eq)
  then show ?thesis using inv_put [OF assms(1)] assms(3,4) by simp
qed

subsection \<open>Buffers\<close>

lemma bufs_ok_upd [simp]: "bufs_ok bf \<Longrightarrow> buf_ok b \<Longrightarrow> bufs_ok (bf(n \<mapsto> b))"
  by (simp add: bufs_ok_def)

lemma bufs_ok_get: "bufs_ok bf \<Longrightarrow> get_bh bf p = Inr (n, b) \<Longrightarrow> buf_ok b \<and> p = Some n \<and> bf n = Some b"
  by (auto simp: get_bh_def bufs_ok_def split: option.splits)

lemma bread_ok: "bufs_ok bf \<Longrightarrow> sb_bread bf n = (p, bf') \<Longrightarrow> bufs_ok bf'"
  by (auto simp: sb_bread_def bufs_ok_def buf_ok_def split: option.splits if_splits)

lemma bread_dom: "sb_bread bf n = (p, bf') \<Longrightarrow> dom bf' = dom bf"
  by (auto simp: sb_bread_def split: option.splits if_splits)

lemma brelse_dom [simp]: "dom (brelse p bf) = dom bf"
  by (auto simp: brelse_def split: option.splits if_splits)

lemma brelse_ok: "bufs_ok bf \<Longrightarrow> bufs_ok (brelse p bf)"
  by (auto simp: brelse_def bufs_ok_def buf_ok_def split: option.splits if_splits)

lemma wait_same: "bufs_ok (bufs st) \<Longrightarrow> wait_on_buffer P p st = Inr st' \<Longrightarrow> st' = st"
  using bufs_ok_get [of "bufs st" p] by (fastforce simp: wait_on_buffer_def res_simps buf_ok_def split: if_splits)

lemma fill_raw_length: "fill_raw_inode fi blk = Inr blk' \<Longrightarrow> length blk' = length blk"
  by (auto simp: fill_raw_inode_def write_raw_def put_slot_bitmap_def Let_def res_simps split: if_splits dest!: put_bytes_length)

lemma lock_then_unlock:
  assumes "ffs_inv st" "lock_buffer_wait P p st = Inr st1"
  obtains n b where "p = Some n" "bufs st n = Some b" "st1 = st\<lparr>bufs := (bufs st)(n \<mapsto> b\<lparr>b_locked := True\<rparr>)\<rparr>" "buf_ok b"
proof -
  obtain n b where n: "get_bh (bufs st) p = Inr (n, b)" using assms(2) by (auto simp: lock_buffer_wait_def res_simps)
  then have b: "buf_ok b" "p = Some n" "bufs st n = Some b" using bufs_ok_get [OF ffs_invD(1) [OF assms(1)]] by auto
  have "st1 = st\<lparr>bufs := (bufs st)(n \<mapsto> b\<lparr>b_locked := True\<rparr>)\<rparr>"
    using assms(2) n b by (auto simp: lock_buffer_wait_def lock_buffer_def res_simps buf_ok_def)
  then show thesis using that b by blast
qed

lemma dirty_inv:
  assumes "ffs_inv st" "ffs_dirty_inode P p st = Inr st'"
  shows "ffs_inv st' \<and> inodes st' = inodes st \<and> icache st' = icache st \<and> slab st' = slab st \<and> sbi st' = sbi st \<and>
    dom (bufs st') = dom (bufs st)"
proof (cases "bd_inode st")
  case False
  then show ?thesis using assms by (auto simp: ffs_dirty_inode_def res_simps)
next
  case True
  obtain a fi where fi: "FFS_I st p = Inr (a, fi)" using assms(2) by (auto simp: ffs_dirty_inode_def res_simps)
  obtain ibh bf where br: "sb_bread (bufs st) (inode_pblk P fi) = (ibh, bf)" by fastforce
  have bf: "ffs_inv (st\<lparr>bufs := bf\<rparr>)" using assms(1) bread_ok [OF ffs_invD(1) [OF assms(1)] br] by simp
  obtain st1 where l: "lock_buffer_wait P ibh (st\<lparr>bufs := bf\<rparr>) = Inr st1"
    using assms(2) True fi br by (auto simp: ffs_dirty_inode_def res_simps)
  obtain n b where n: "ibh = Some n" "bf n = Some b" "st1 = st\<lparr>bufs := bf(n \<mapsto> b\<lparr>b_locked := True\<rparr>)\<rparr>" "buf_ok b"
    by (rule lock_then_unlock [OF bf l]) auto
  obtain blk where blk: "fill_raw_inode fi (b_data b) = Inr blk"
    using assms(2) True fi br l n by (auto simp: ffs_dirty_inode_def res_simps get_bh_def)
  define c where "c = b\<lparr>b_data := blk, b_uptodate := True, b_locked := False, b_dirty := True\<rparr>"
  define c' where "c' = b\<lparr>b_data := blk, b_locked := False, b_dirty := True\<rparr>"
  have c: "buf_ok c" "buf_ok c'" using n(4) fill_raw_length [OF blk] by (simp_all add: c_def c'_def buf_ok_def)
  have "st' = st\<lparr>bufs := brelse (Some n) (bf(n \<mapsto> if b_uptodate b then c' else c))\<rparr>"
    using assms(2) True fi br l n blk
    by (cases "b_uptodate b") (simp_all add: ffs_dirty_inode_def res_simps get_bh_def set_buffer_uptodate_def unlock_buffer_def
        mark_buffer_dirty_def upd_bh_def Let_def c_def c'_def)
  moreover have "bufs_ok (brelse (Some n) (bf(n \<mapsto> if b_uptodate b then c' else c)))"
    using c ffs_invD(1) [OF bf] by (intro brelse_ok) simp
  ultimately show ?thesis using assms(1) bread_dom [OF br] n(2) by auto
qed

subsection \<open>The directory tree leaves the file tables alone\<close>

abbreviation same_tables :: "flatfs_sb_info \<Rightarrow> flatfs_sb_info \<Rightarrow> bool" where
  "same_tables sb sb' \<equiv> hashtbl sb' = hashtbl sb \<and> big_dir_hashtbl sb' = big_dir_hashtbl sb"

lemma put_de_tables [simp]:
  "hashtbl (put_de i d sb) = hashtbl sb" "hashtbl (put_dle a e sb) = hashtbl sb" "hashtbl (free_dle a sb) = hashtbl sb"
  "big_dir_hashtbl (put_de i d sb) = big_dir_hashtbl sb" "big_dir_hashtbl (put_dle a e sb) = big_dir_hashtbl sb"
  "big_dir_hashtbl (free_dle a sb) = big_dir_hashtbl sb"
  by (simp_all add: put_de_def put_dle_def free_dle_def)

lemma fill_entry_tables: "fill_one_dir_entry sb nm = Inr (i, sb') \<Longrightarrow> same_tables sb sb'"
  by (auto simp: fill_one_dir_entry_def Let_def res_simps split: if_splits)

lemma insert_dir_tables: "insert_dir ok sb p i = Inr sb' \<Longrightarrow> same_tables sb sb'"
  by (auto simp: insert_dir_def Let_def res_simps split: if_splits)

lemmas post_reads = post_any [of _ "get_dle sb a" for sb a] post_any [of _ "get_de sb i" for sb i] post_any [of _ "get_list d" for d]
  post_any [of _ "my_strlen n" for n] post_any [of _ "find_dle sb did n start p" for sb did n start p]

lemma unlink_dle_tables: "post (same_tables sb) (unlink_dle sb p i start a)"
proof -
  have 1: "post (same_tables sb) (if b then Inr (put_de p d sb)
    else case last of None \<Rightarrow> Inr sb | Some la \<Rightarrow> bind_res (get_dle sb la) (\<lambda>le. Inr (put_dle la (f le) sb)))" for d last f sb b
    by (auto simp: post_def res_simps split: option.splits)
  show ?thesis
    unfolding unlink_dle_def Let_def post_bind
    by (intro post_reads post_mono [OF 1]) simp
qed

lemma tables_ok_eq: "same_tables sb sb' \<Longrightarrow> tables_ok sb' = tables_ok sb"
  by (simp add: tables_ok_def)

lemma tables_ok_upd: "tables_ok sb \<Longrightarrow> (\<And>t. x = Some t \<Longrightarrow> ht_inv t) \<Longrightarrow> tables_ok (sb\<lparr>hashtbl := (hashtbl sb)(d := x)\<rparr>)"
  by (auto simp: tables_ok_def)

lemma tables_ok_big:
  "tables_ok sb \<Longrightarrow> (\<And>t. x = Some t \<Longrightarrow> bt_ok t) \<Longrightarrow> tables_ok (sb\<lparr>big_dir_hashtbl := (big_dir_hashtbl sb)(g := x)\<rparr>)"
  by (auto simp: tables_ok_def)

lemma resize_tables:
  assumes "kenv_ok K" "tables_ok sb" "resize_dir sb (k_big K) = Inr (g, sb')"
  shows "tables_ok sb'"
proof (cases "sb' = sb")
  case False
  then obtain pos t where t: "init_big_file_ht (k_big K) = Inr t"
    "sb' = sb\<lparr>big_dir_hashtbl := (big_dir_hashtbl sb)(pos := t), big_dir_bitmap := bitmap_set (big_dir_bitmap sb) pos 1, big_dir_num := big_dir_num sb + 1\<rparr>"
    using assms(3) by (auto simp: resize_dir_def res_simps split: if_splits)
  have "tables_ok (sb\<lparr>big_dir_hashtbl := (big_dir_hashtbl sb)(pos := t)\<rparr>)"
    by (rule tables_ok_big [OF assms(2)]) (use t(1) assms(1) init_big_ok [of "k_big K"] in \<open>auto simp: kenv_ok_def\<close>)
  then show ?thesis using t(2) by (simp add: tables_ok_def)
qed (use assms(2) in simp)

lemma release_big_tables: "tables_ok sb \<Longrightarrow> release_big sb g = Inr sb' \<Longrightarrow> tables_ok sb'"
  by (auto simp: release_big_def tables_ok_def free_big_file_ht_def split: if_splits option.splits)

lemma remove_dir_tables:
  assumes "tables_ok sb"
  shows "post tables_ok (remove_dir sb p i g)"
proof -
  have big: "post tables_ok (bind_res (release_big sb g) (\<lambda>sb. Inr (f sb)))" if "tables_ok sb" "\<And>sb. same_tables sb (f sb)" for sb f
    using release_big_tables [OF that(1)] tables_ok_eq [OF that(2)] by (auto simp: post_def res_simps)
  have fin: "post tables_ok (if NR_DIRS \<le> h then Inl OutOfBounds else
      bind_res (release_big (case hashtbl sb' h of None \<Rightarrow> sb' | Some t \<Rightarrow> sb'\<lparr>hashtbl := (hashtbl sb')(h := free_file_ht (Some t))\<rparr>) g) (\<lambda>sb. Inr (f sb)))"
    if "same_tables sb sb'" "\<And>sb. same_tables sb (f sb)" for sb' f h
    using assms that by (intro post_if post_Inl big) (auto simp: tables_ok_def free_file_ht_def split: option.splits)
  show ?thesis
    unfolding remove_dir_def Let_def
    by (intro post_bindI post_reads post_option post_prod post_mono [OF unlink_dle_tables] fin) (use assms in simp_all)
qed

subsection \<open>Making inodes\<close>

definition unhashed :: "nat option \<Rightarrow> ffs_state \<Rightarrow> bool" where
  "unhashed p st \<longleftrightarrow> (\<forall>a ino. p = Some a \<longrightarrow> icache st ino \<noteq> Some a)"

lemma unhashed_next: "ffs_inv st \<Longrightarrow> unhashed (Some (inode_next st)) st"
  using inode_next_free [of st] unfolding ffs_inv_def inodes_ok_def unhashed_def by fastforce

lemma inv_new:
  assumes "ffs_inv st" "length (fname (fi_filename fi)) = 482"
  shows "ffs_inv (put_inode (inode_next st) fi st)"
    and "i_ino fi = ino \<Longrightarrow> ffs_inv (put_inode (inode_next st) fi (st\<lparr>icache := (icache st)(ino \<mapsto> inode_next st)\<rparr>))"
proof -
  have n: "inodes st (inode_next st) = None" by (rule inode_next_free [OF ffs_invD(5) [OF assms(1)]])
  show "ffs_inv (put_inode (inode_next st) fi st)"
    using assms n by (auto simp: ffs_inv_def inodes_ok_def) (fastforce simp: put_inode_def)+
  show "ffs_inv (put_inode (inode_next st) fi (st\<lparr>icache := (icache st)(ino \<mapsto> inode_next st)\<rparr>))" if "i_ino fi = ino"
    using assms n that by (auto simp: ffs_inv_def inodes_ok_def) (fastforce simp: put_inode_def split: if_splits)+
qed

lemma init_vfs_keeps [simp]: "i_ino (init_vfs_inode K m dev fi) = i_ino fi" "fi_filename (init_vfs_inode K m dev fi) = fi_filename fi"
  by (simp_all add: init_vfs_inode_def set_ops_def)

lemma get_inode_inv:
  assumes "kenv_ok K" "ffs_inv st" "flatfs_get_inode K m dev st = (p, st')"
  shows "ffs_inv st' \<and> unhashed p st' \<and> sbi st' = sbi st"
proof (cases "k_inode K")
  case None
  then show ?thesis using assms by (auto simp: flatfs_get_inode_def new_inode_def ffs_alloc_inode_def unhashed_def)
next
  case (Some mem)
  let ?a = "inode_next st" and ?fi = "init_vfs_inode K m dev (mem\<lparr>i_version := 1, i_new := False\<rparr>)"
  have "p = Some ?a" "st' = put_inode ?a ?fi st"
    using assms(3) Some by (auto simp: flatfs_get_inode_def new_inode_def ffs_alloc_inode_def put_inode_def)
  then show ?thesis using inv_new(1) [OF assms(2), of ?fi] unhashed_next [OF assms(2)] assms(1) Some by (simp add: kenv_ok_def unhashed_def put_inode_def)
qed

lemma iget_inv:
  assumes "kenv_ok K" "ffs_inv st" "iget_locked K ino st = (p, st')"
  shows "ffs_inv st' \<and> sbi st' = sbi st"
proof (cases "icache st ino")
  case (Some a)
  then show ?thesis using assms by (auto simp: iget_locked_def)
next
  case None
  then show ?thesis
    using assms inv_new(2) [OF assms(2), of "mem\<lparr>i_version := 1, i_ino := ino, i_new := True\<rparr>" ino for mem]
    by (auto simp: iget_locked_def ffs_alloc_inode_def kenv_ok_def Let_def put_inode_def split: option.splits)
qed

lemma set_name_same: "set_name nm fi = Inr fi' \<Longrightarrow> length (fname (fi_filename fi')) = length (fname (fi_filename fi)) \<and> i_ino fi' = i_ino fi"
  by (auto simp: set_name_def memcpy_def Let_def res_simps split: if_splits)

lemma insert_file_inv:
  assumes "ht_inv t" "insert_file P t n = Inr (x, t')"
  shows "ht_inv t'"
proof -
  have n: "0 \<in> set n" using assms(2) by (auto simp: insert_file_def res_simps BKDRHash_def dest: BKDR_loop_nulD)
  have r: "ht_ready P t (ht_home n)"
    using assms(2) by (auto simp: insert_file_def BKDRHash_nul [OF n] res_simps arr_ready_def ht_home_def Let_def)
  show ?thesis using insert_file_cases [OF assms(1) n r] assms arr_took [OF assms(1)] ht_home_less [of n] by (auto split: if_splits)
qed

text \<open>What the two halves of \<open>ffs_mknod\<close> keep: the invariant, and which inodes are hashed.\<close>

abbreviation kept :: "ffs_state \<Rightarrow> ffs_state \<Rightarrow> bool" where
  "kept st st' \<equiv> ffs_inv st' \<and> icache st' = icache st"

lemma kept_name:
  assumes "ffs_inv st" "inodes st a = Some fi0" "set_name nm fi = Inr fi'" "i_ino fi = i_ino fi0" "fi_filename fi = fi_filename fi0"
    "i_ino f = i_ino fi'" "fi_filename f = fi_filename fi'"
  shows "ffs_inv (put_inode a f st)"
  using inv_put [OF assms(1,2), of f] set_name_same [OF assms(3)] assms(4-7) by simp

lemma mknod_dir_inv:
  assumes "ffs_inv st" "mknod_dir K dfi nm p st = Inr (ino, st')"
  shows "kept st st'"
proof -
  obtain i sb sb' d t a fi fi' where s: "fill_one_dir_entry (sbi st) nm = Inr (i, sb)" "insert_dir (k_dle K) sb (word_of_int (fi_dir_id dfi)) i = Inr sb'"
    "init_file_ht (k_ht K) = Inr t" "inodes st a = Some fi"
    "set_name nm (fi\<lparr>fi_dir_id := cint (uint i), fi_bucket_id := - 1, fi_slot_id := - 1, fi_valid := 1, fi_is_big_dir := 0, fi_big_dir_id := - 1\<rparr>) = Inr fi'"
    "st' = put_inode a (fi'\<lparr>fi_test := 0\<rparr>) (st\<lparr>sbi := sb'\<lparr>hashtbl := (hashtbl sb')(d := t)\<rparr>\<rparr>)"
    using assms(2) by (auto simp: mknod_dir_def res_simps FFS_I_eq Let_def)
  have "tables_ok sb'" using ffs_invD(4) [OF assms(1)] tables_ok_eq [OF fill_entry_tables [OF s(1)]] tables_ok_eq [OF insert_dir_tables [OF s(2)]] by simp
  moreover have "ht_inv h" if "t = Some h" for h
    using s(3) that init_file_ht_ok by (cases "k_ht K") (auto simp: init_file_ht_def)
  ultimately have "tables_ok (sb'\<lparr>hashtbl := (hashtbl sb')(d := t)\<rparr>)" by (rule tables_ok_upd)
  then have "ffs_inv (st\<lparr>sbi := sb'\<lparr>hashtbl := (hashtbl sb')(d := t)\<rparr>\<rparr>)" using assms(1) by simp
  from kept_name [OF this _ s(5)] show ?thesis using s(4,6) by (simp add: put_inode_def)
qed

lemma mknod_big_inv:
  assumes "ffs_inv st" "mknod_big P dfi nm p st = Inr (r, st')"
  shows "kept st st'"
proof -
  obtain g t ino t' where s: "tbl_index NR_BIG_DIRS (fi_big_dir_id dfi) = Inr g" "big_dir_hashtbl (sbi st) g = Some t"
    "flatfs_big_file_slot_alloc_by_name P t (fi_dir_id dfi) nm = Inr (ino, t')"
    using assms(2) by (auto simp: mknod_big_def res_simps split: option.splits)
  let ?st = "st\<lparr>sbi := (sbi st)\<lparr>big_dir_hashtbl := (big_dir_hashtbl (sbi st))(g \<mapsto> t')\<rparr>\<rparr>"
  have "bt_ok t'" using big_slot_alloc_ok [OF _ s(3)] ffs_invD(4) [OF assms(1)] s(2) by (auto simp: tables_ok_def)
  then have inv: "ffs_inv ?st" using tables_ok_big [OF ffs_invD(4) [OF assms(1)], of "Some t'"] assms(1) by simp
  show ?thesis
  proof (cases "ino = - 1")
    case True
    then show ?thesis using assms(2) s inv by (auto simp: mknod_big_def)
  next
    case False
    then obtain a fi fi' f where "inodes st a = Some fi" "set_name nm f = Inr fi'" "i_ino f = i_ino fi" "fi_filename f = fi_filename fi" "st' = put_inode a fi' ?st"
      using assms(2) s by (auto simp: mknod_big_def res_simps FFS_I_eq Let_def)
    then show ?thesis using kept_name [OF inv, of a fi nm f fi' fi'] by (simp add: put_inode_def)
  qed
qed

lemma mknod_file_inv:
  assumes "ffs_inv st" "inodes st d = Some dfi" "mknod_file P K d dfi nm p st = Inr (r, st')" "kenv_ok K"
  shows "kept st st'"
proof (cases "fi_is_big_dir dfi = 0")
  case False
  then show ?thesis using assms by (auto simp: mknod_file_def dest: mknod_big_inv)
next
  case True
  then obtain i t ino t' where i: "tbl_index NR_DIRS (fi_dir_id dfi) = Inr i" "hashtbl (sbi st) i = Some t"
    "flatfs_file_slot_alloc_by_name P t (fi_dir_id dfi) nm = Inr (ino, t')"
    using assms(3) by (auto simp: mknod_file_def res_simps split: option.splits)
  have "ht_inv t'"
    using i ffs_invD(4) [OF assms(1)] by (auto simp: flatfs_file_slot_alloc_by_name_def res_simps tables_ok_def split: if_splits dest!: insert_file_inv)
  define st1 where "st1 = st\<lparr>sbi := (sbi st)\<lparr>hashtbl := (hashtbl (sbi st))(i \<mapsto> t')\<rparr>\<rparr>"
  have inv: "ffs_inv st1"
    unfolding st1_def using assms(1) tables_ok_upd [OF ffs_invD(4) [OF assms(1)], of "Some t'"] \<open>ht_inv t'\<close> by simp
  have st1: "icache st1 = icache st" "inodes st1 = inodes st" by (simp_all add: st1_def)
  show ?thesis
  proof (cases "ino = - 1")
    case ino: True
    then obtain g sb where g: "resize_dir (sbi st1) (k_big K) = Inr (g, sb)"
      using assms(3) True i by (auto simp: mknod_file_def res_simps st1_def)
    have inv2: "ffs_inv (st1\<lparr>sbi := sb\<rparr>)" using inv resize_tables [OF assms(4) ffs_invD(4) [OF inv] g] by simp
    show ?thesis
    proof (cases "g = - 1")
      case True
      then show ?thesis using assms(3) \<open>fi_is_big_dir dfi = 0\<close> i ino g inv2 st1 by (auto simp: mknod_file_def Let_def st1_def)
    next
      case False
      let ?dfi = "dfi\<lparr>fi_is_big_dir := 1, fi_big_dir_id := g\<rparr>"
      have m: "mknod_big P ?dfi nm p (put_inode d ?dfi (st1\<lparr>sbi := sb\<rparr>)) = Inr (r, st')"
        using assms(3) \<open>fi_is_big_dir dfi = 0\<close> i ino g False by (simp add: mknod_file_def Let_def st1_def)
      have "ffs_inv (put_inode d ?dfi (st1\<lparr>sbi := sb\<rparr>))" by (rule inv_put [OF inv2, of d dfi]) (use assms(2) st1 in simp_all)
      from mknod_big_inv [OF this m] show ?thesis using st1 by (simp add: put_inode_def)
    qed
  next
    case False
    then obtain a fi fi' f where "inodes st a = Some fi" "set_name nm f = Inr fi'" "i_ino f = i_ino fi" "fi_filename f = fi_filename fi" "st' = put_inode a fi' st1"
      using assms(3) True i by (auto simp: mknod_file_def res_simps FFS_I_eq st1_def Let_def)
    then show ?thesis using kept_name [OF inv, of a fi nm f fi' fi'] st1 by (simp add: put_inode_def)
  qed
qed

lemma mknod_finish_inv:
  assumes "ffs_inv st" "unhashed p st" "mknod_finish P ino p st = Inr (r, q, st')"
  shows "ffs_inv st'"
proof -
  obtain a fi e st1 st2 where s: "p = Some a" "inodes st a = Some fi" "insert_inode_locked a (put_inode a (fi\<lparr>i_ino := ino\<rparr>) st) = Inr (e, st1)"
    "ffs_dirty_inode P p st1 = Inr st2" "unlock_new_inode p st2 = Inr st'"
    using assms(3) by (auto simp: mknod_finish_def res_simps FFS_I_eq mark_inode_dirty_def)
  have "ffs_inv st1"
    using s(1-3) assms(1,2)
    by (auto simp: insert_inode_locked_def res_simps FFS_I_eq put_inode_def ffs_inv_def inodes_ok_def unhashed_def slab_ok_def split: option.splits if_splits)
  then have "ffs_inv st2" using dirty_inv s(4) by blast
  then show ?thesis using s(5) unfolding unlock_new_inode_def by (rule inv_upd) simp_all
qed

lemma mknod_inv:
  assumes "kenv_ok K" "ffs_inv st" "ffs_mknod P K dir name m dev st = Inr (r, q, st')"
  shows "ffs_inv st'"
proof -
  obtain p st1 where g: "flatfs_get_inode K m dev st = (p, st1)" by fastforce
  have i: "ffs_inv st1" "unhashed p st1" using get_inode_inv [OF assms(1,2) g] by simp_all
  obtain d dfi where d: "inodes st1 d = Some dfi" "dir = Some d" using assms(3) g by (auto simp: ffs_mknod_def res_simps FFS_I_eq)
  have fin: "ffs_inv st'" if "mknod_finish P ino p st2 = Inr (r, q, st')" "kept st1 st2" for ino st2
    by (rule mknod_finish_inv [OF _ _ that(1)]) (use that(2) i(2) in \<open>simp_all add: unhashed_def\<close>)
  show ?thesis
  proof (cases "m AND S_IFDIR = 0")
    case False
    then obtain ino st2 where "mknod_dir K dfi (q_name name) p st1 = Inr (ino, st2)" "mknod_finish P ino p st2 = Inr (r, q, st')"
      using assms(3) g d by (auto simp: ffs_mknod_def res_simps)
    then show ?thesis using fin mknod_dir_inv [OF i(1)] by blast
  next
    case True
    then obtain x st2 where x: "mknod_file P K d dfi (q_name name) p st1 = Inr (x, st2)"
      "x = None \<longrightarrow> st' = st2" "\<forall>ino. x = Some ino \<longrightarrow> mknod_finish P ino p st2 = Inr (r, q, st')"
      using assms(3) g d by (auto simp: ffs_mknod_def res_simps split: option.splits)
    then show ?thesis using fin mknod_file_inv [OF i(1) d(1) x(1) assms(1)] by (cases x) auto
  qed
qed

subsection \<open>The other operations\<close>

text \<open>With no buffer locked, what looks files up changes nothing but the reference counts of buffers.\<close>

definition only_bufs :: "ffs_state \<Rightarrow> ffs_state \<Rightarrow> bool" where
  "only_bufs st st' \<longleftrightarrow> bufs_ok (bufs st') \<and> (\<exists>bf. st' = st\<lparr>bufs := bf\<rparr>)"

lemma only_bufs_refl [simp]: "only_bufs st st \<longleftrightarrow> bufs_ok (bufs st)"
  by (auto simp: only_bufs_def intro: exI [of _ "bufs st"])

lemma only_bufs_upd [simp]: "only_bufs st (st\<lparr>bufs := bf\<rparr>) \<longleftrightarrow> bufs_ok bf"
  by (auto simp: only_bufs_def)

lemma only_bufs_trans: "only_bufs st st' \<Longrightarrow> only_bufs st' st'' \<Longrightarrow> only_bufs st st''"
  by (auto simp: only_bufs_def)

lemma only_bufs_ok: "only_bufs st st' \<Longrightarrow> bufs_ok (bufs st')"
  by (simp add: only_bufs_def)

lemma only_bufs_inv: "ffs_inv st \<Longrightarrow> only_bufs st st' \<Longrightarrow> ffs_inv st' \<and> inodes st' = inodes st \<and> bufs_ok (bufs st')"
  by (auto simp: only_bufs_def)

lemma bread_wait:
  assumes "bufs_ok (bufs st)" "sb_bread (bufs st) n = (p, bf)"
  shows "post (only_bufs st) (wait_on_buffer P p (st\<lparr>bufs := bf\<rparr>))"
  using bread_ok [OF assms] unfolding post_def by (auto dest: wait_same [rotated])

lemmas seg_reads = post_any [of _ "BKDRHash n" for n] post_any [of _ "my_strlen n" for n] post_any [of _ "get_bh bf p" for bf p]
  post_any [of _ "seg_in_page b blk n" for b blk n]

lemma get_file_seg_ok: "bufs_ok (bufs st) \<Longrightarrow> post (\<lambda>(x, st'). only_bufs st st') (get_file_seg P fi t nm st)"
  unfolding get_file_seg_def Let_def
  by (intro post_bindI seg_reads post_option post_prod post_mono [OF bread_wait]) auto

lemma get_big_file_seg_ok: "bufs_ok (bufs st) \<Longrightarrow> post (\<lambda>(x, st'). only_bufs st st') (get_big_file_seg P fi t nm st)"
  unfolding get_big_file_seg_def Let_def
  by (intro post_bindI seg_reads post_option post_prod post_mono [OF bread_wait]) auto

lemma file_by_name_ok:
  assumes "bufs_ok (bufs st)"
  shows "post (\<lambda>(ino, st'). only_bufs st st') (flatfs_file_inode_by_name P t fi did name st)"
    and "post (\<lambda>(ino, st'). only_bufs st st') (flatfs_big_file_inode_by_name P t' fi did name st)"
  unfolding flatfs_file_inode_by_name_def flatfs_big_file_inode_by_name_def
  by (intro post_bindI post_mono [OF get_file_seg_ok [OF assms]] post_mono [OF get_big_file_seg_ok [OF assms]] post_prod post_if; auto)+

lemma lookup_ino_ok:
  assumes "bufs_ok (bufs st)"
  shows "post (\<lambda>(ino, did, st'). only_bufs st st') (lookup_ino P dfi name st)"
  unfolding lookup_ino_def Let_def
  by (intro post_bindI post_any [of _ "tbl_index n i" for n i] post_any [of _ "flatfs_dir_inode_by_name sb i q" for sb i q] post_if
      post_mono [OF file_by_name_ok(1)] post_mono [OF file_by_name_ok(2)] post_prod)
    (use assms in \<open>auto simp: only_bufs_ok intro: only_bufs_trans\<close>)

lemma lookup_inv:
  assumes "kenv_ok K" "ffs_inv st" "ffs_lookup P K junk dir name st = Inr (r, st')"
  shows "ffs_inv st'"
proof -
  obtain d dfi where d: "FFS_I st dir = Inr (d, dfi)" using assms(3) by (auto simp: ffs_lookup_def Let_def res_simps)
  show ?thesis
  proof (cases "q_len name > int FFS_MAX_FILENAME_LEN")
    case True
    then show ?thesis using assms(2,3) d by (simp add: ffs_lookup_def)
  next
    case False
    obtain ino did st0 where l: "lookup_ino P dfi name st = Inr (ino, did, st0)"
      using assms(3) d False by (auto simp: ffs_lookup_def Let_def res_simps)
    have b: "ffs_inv st0" using only_bufs_inv [OF assms(2)] postD [OF lookup_ino_ok [OF ffs_invD(1) [OF assms(2)]] l] by simp
    obtain p st1 where g: "iget_locked K ino st0 = (p, st1)" by fastforce
    have inv: "ffs_inv st1" using iget_inv [OF assms(1) b g] by simp
    show ?thesis
    proof (cases "ino = 0")
      case True
      then show ?thesis using assms(3) d False l b by (simp add: ffs_lookup_def)
    next
      case ino: False
      show ?thesis
      proof (cases p)
        case None
        then show ?thesis using assms(3) d False ino l g inv by (simp add: ffs_lookup_def)
      next
        case (Some a)
        then have "unlock_new_inode p st1 = Inr st'"
          using assms(3) d False ino l g by (auto simp: ffs_lookup_def res_simps split: if_splits)
        then show ?thesis unfolding unlock_new_inode_def by (rule inv_upd [OF inv]) simp_all
      qed
    qed
  qed
qed

lemma dec_link_inv:
  assumes "ffs_inv st" "inode_dec_link_count P p st = Inr st'"
  shows "ffs_inv st'"
proof -
  obtain st1 where s: "drop_nlink p st = Inr st1" "ffs_dirty_inode P p st1 = Inr st'"
    using assms(2) by (auto simp: inode_dec_link_count_def mark_inode_dirty_def res_simps)
  have "ffs_inv st1" using s(1) unfolding drop_nlink_def by (rule inv_upd [OF assms(1)]) simp_all
  then show ?thesis using dirty_inv s(2) by blast
qed

lemma unlink_page_stuck:
  assumes "ffs_inv st"
  shows "unlink_page P fi st \<noteq> Inr st'"
proof
  assume u: "unlink_page P fi st = Inr st'"
  obtain bh bf where br: "sb_bread (bufs st) (compose_pblk_for_discard P fi) = (bh, bf)" by fastforce
  obtain st1 where l: "lock_buffer_wait P bh (st\<lparr>bufs := bf\<rparr>) = Inr st1" using u br by (auto simp: unlink_page_def res_simps)
  have "ffs_inv (st\<lparr>bufs := bf\<rparr>)" using assms bread_ok [OF ffs_invD(1) [OF assms] br] by simp
  then obtain n b where "bh = Some n" "bf n = Some b" "st1 = st\<lparr>bufs := bf(n \<mapsto> b\<lparr>b_locked := True\<rparr>)\<rparr>" "buf_ok b"
    using lock_then_unlock [OF _ l] by auto
  then show False
    using u br l by (auto simp: unlink_page_def res_simps get_bh_def init_handler_for_discard_def buf_ok_def split: if_splits)
qed

lemma clear_name_length: "clear_name f = Inr f' \<Longrightarrow> length (fname f') = length (fname f)"
  by (auto simp: clear_name_def split: if_splits)

lemma unlink_inv:
  assumes "ffs_inv st" "ffs_unlink P dir p st = Inr (r, st')"
  shows "ffs_inv st'"
proof -
  obtain a fi where a: "inodes st a = Some fi" "p = Some a" using assms(2) by (auto simp: ffs_unlink_def res_simps FFS_I_eq)
  have "fi_slot_id fi = - 1" using assms a unlink_page_stuck [OF assms(1)] by (auto simp: ffs_unlink_def res_simps FFS_I_eq split: if_splits)
  then obtain fn and dfi :: ffs_inode_info where s: "clear_name (fi_filename fi) = Inr fn"
    "inode_dec_link_count P p (put_inode a (fi\<lparr>fi_valid := 0, fi_filename := fn, i_ctime := i_ctime dfi\<rparr>) st) = Inr st'"
    using assms(2) a by (auto simp: ffs_unlink_def res_simps FFS_I_eq)
  show ?thesis by (rule dec_link_inv [OF inv_put [OF assms(1) a(1)] s(2)]) (use clear_name_length [OF s(1)] in simp_all)
qed

lemma rmdir_inv:
  assumes "ffs_inv st" "ffs_rmdir P dir p st = Inr (r, st')"
  shows "ffs_inv st'"
proof -
  obtain a fi where a: "FFS_I st p = Inr (a, fi)" using assms(2) by (auto simp: ffs_rmdir_def res_simps)
  show ?thesis
  proof (cases "i_size fi = 0")
    case False
    then show ?thesis using assms a by (simp add: ffs_rmdir_def)
  next
    case True
    obtain e st1 where u: "ffs_unlink P dir p st = Inr (e, st1)" using assms(2) a True by (auto simp: ffs_rmdir_def res_simps)
    have inv: "ffs_inv st1" by (rule unlink_inv [OF assms(1) u])
    show ?thesis
    proof (cases "e = 0")
      case False
      then show ?thesis using assms(2) a True u inv by (simp add: ffs_rmdir_def)
    next
      case e: True
      obtain st2 st3 st4 sb and dfi ffi :: ffs_inode_info where s: "upd_inode (\<lambda>fi. fi\<lparr>i_size := 0\<rparr>) p st1 = Inr st2" "inode_dec_link_count P p st2 = Inr st3"
        "inode_dec_link_count P dir st3 = Inr st4" "remove_dir (sbi st4) (i_ino dfi) (i_ino ffi) (fi_big_dir_id ffi) = Inr sb" "st' = st4\<lparr>sbi := sb\<rparr>"
        using assms(2) a True u e by (auto simp: ffs_rmdir_def res_simps)
      have "ffs_inv st2" by (rule inv_upd [OF inv s(1)]) simp_all
      then have i4: "ffs_inv st4" using s(2,3) dec_link_inv by blast
      then show ?thesis using postD [OF remove_dir_tables s(4)] ffs_invD(4) s(5) by simp
    qed
  qed
qed

lemma reset_cursors_tables:
  assumes "tables_ok sb"
  shows "post tables_ok (reset_cursors dfi sb)"
  unfolding reset_cursors_def
  by (intro post_bindI post_any [of _ "tbl_index n i" for n i] post_option post_Let post_if) (use assms in \<open>auto simp: tables_ok_def\<close>)

lemma emit_dirs_tables: "emit_dirs actor i n pos dle sb ctx = Inr (pos', sb', ctx') \<Longrightarrow> same_tables sb sb'"
  by (induction actor i n pos dle sb ctx rule: emit_dirs.induct) (auto simp: res_simps split: option.splits if_splits)

lemma read_dirs_tables: "read_dir_dirs actor sb ino ctx = Inr (r, sb', ctx') \<Longrightarrow> same_tables sb sb'"
  by (auto simp: read_dir_dirs_def Let_def res_simps split: if_splits dest!: emit_dirs_tables)

lemma emit_buckets_ok:
  "bufs_ok (bufs st) \<Longrightarrow> emit_buckets P actor tbl base bkts p st h ctx = Inr (p', st', h', ctx') \<Longrightarrow> only_bufs st st'"
proof (induction bkts arbitrary: p st h ctx)
  case (Cons bkt bkts)
  obtain bs where bs: "tbl st = Inr bs" using Cons(3) by (auto simp: res_simps)
  show ?case
  proof (cases "first_slot (slot_bitmap (bs bkt))")
    case None
    then show ?thesis using Cons bs by simp
  next
    case (Some slt)
    obtain q bf1 where br: "sb_bread (bufs st) (slot_ino base bkt slt) = (q, bf1)" by fastforce
    then obtain st1 h1 ctx1 where w: "wait_on_buffer P q (st\<lparr>bufs := bf1\<rparr>) = Inr st1"
      and e: "emit_buckets P actor tbl base bkts q st1 h1 ctx1 = Inr (p', st', h', ctx')"
      using Cons(3) Some bs by (auto simp: res_simps)
    have o: "only_bufs st st1" by (rule postD [OF bread_wait [OF Cons(2) br] w])
    then have "bufs_ok (bufs st1)" by (simp add: only_bufs_def)
    then show ?thesis using only_bufs_trans [OF o] Cons(1) [OF _ e] by blast
  qed
qed simp

lemma read_files_ok:
  assumes "bufs_ok (bufs st)" "read_files P actor tbl nb base st h ctx = Inr (st', h', ctx')"
  shows "only_bufs st st'"
proof -
  obtain p st2 h2 c2 ibh st3 h3 c3 bkts where e: "emit_buckets P actor tbl base bkts p st2 h2 c2 = Inr (ibh, st3, h3, c3)" "only_bufs st st2"
    "st' = st3\<lparr>bufs := brelse ibh (bufs st3)\<rparr>"
  proof (cases "h = 0")
    case True
    then show thesis using that [of "[0..<nb]" None st h ctx] assms by (auto simp: read_files_def res_simps)
  next
    case False
    obtain bs where bs: "tbl st = Inr bs" using assms(2) False by (auto simp: read_files_def res_simps)
    obtain bkt slt where sk: "skip_buckets bs nb h 0 [0..<nb] = (bkt, slt)" by fastforce
    obtain q bf1 where br: "sb_bread (bufs st) (push_bit FILE_SLOT_BITS (of_nat bkt + base)) = (q, bf1)" by fastforce
    obtain st2 where w: "wait_on_buffer P q (st\<lparr>bufs := bf1\<rparr>) = Inr st2"
      using assms(2) False bs sk br by (auto simp: read_files_def res_simps Let_def)
    then have "only_bufs st st2" using postD [OF bread_wait [OF assms(1) br]] by blast
    with that show thesis
      using assms(2) False bs sk br w by (auto simp: read_files_def res_simps Let_def)
  qed
  have "only_bufs st2 st3" using emit_buckets_ok [OF _ e(1)] e(2) by (simp add: only_bufs_def)
  then have "only_bufs st st3" by (rule only_bufs_trans [OF e(2)])
  then show ?thesis using e(3) brelse_ok [of "bufs st3" ibh] by (auto simp: only_bufs_def)
qed

lemma read_dir_files_inv:
  assumes "ffs_inv st" "read_dir_files P actor d ino st ctx = Inr (r, st', ctx')"
  shows "ffs_inv st' \<and> inodes st' = inodes st"
proof -
  obtain st1 t h nb base x where s: "read_files P actor (\<lambda>st. bind_res (ht_at d st) (\<lambda>t. Inr (ht_buckets t))) nb base st x ctx = Inr (st1, h, ctx')"
    "ht_at d st1 = Inr t" "st' = st1\<lparr>sbi := (sbi st1)\<lparr>hashtbl := (hashtbl (sbi st1))(d \<mapsto> t\<lparr>ht_pos := h\<rparr>)\<rparr>\<rparr>"
    using assms(2) by (auto simp: read_dir_files_def Let_def res_simps)
  have o: "only_bufs st st1" by (rule read_files_ok [OF ffs_invD(1) [OF assms(1)] s(1)])
  have i: "ffs_inv st1" "inodes st1 = inodes st" using only_bufs_inv [OF assms(1) o] by simp_all
  have "ht_inv t" using s(2) ffs_invD(4) [OF i(1)] by (auto simp: ht_at_def tables_ok_def split: option.splits)
  then show ?thesis using s(3) i tables_ok_upd [OF ffs_invD(4) [OF i(1)], of "Some (t\<lparr>ht_pos := h\<rparr>)" d] by auto
qed

lemma read_big_dir_files_inv:
  assumes "ffs_inv st" "read_big_dir_files P actor g ino st ctx = Inr (r, st', ctx')"
  shows "ffs_inv st' \<and> inodes st' = inodes st"
proof -
  obtain st1 t h nb base x where s: "read_files P actor (\<lambda>st. bind_res (bt_at g st) (\<lambda>t. Inr (bt_buckets t))) nb base st x ctx = Inr (st1, h, ctx')"
    "bt_at g st1 = Inr t" "st' = st1\<lparr>sbi := (sbi st1)\<lparr>big_dir_hashtbl := (big_dir_hashtbl (sbi st1))(g \<mapsto> t\<lparr>bt_pos := h\<rparr>)\<rparr>\<rparr>"
    using assms(2) by (auto simp: read_big_dir_files_def Let_def res_simps)
  have o: "only_bufs st st1" by (rule read_files_ok [OF ffs_invD(1) [OF assms(1)] s(1)])
  have i: "ffs_inv st1" "inodes st1 = inodes st" using only_bufs_inv [OF assms(1) o] by simp_all
  have "bt_ok t" using s(2) ffs_invD(4) [OF i(1)] by (auto simp: bt_at_def tables_ok_def split: option.splits)
  then show ?thesis using s(3) i tables_ok_big [OF ffs_invD(4) [OF i(1)], of "Some (t\<lparr>bt_pos := h\<rparr>)" g] by auto
qed

lemma readdir_inv:
  assumes "ffs_inv st" "ffs_readdir P actor dir st ctx = Inr (r, st', ctx')"
  shows "ffs_inv st' \<and> inodes st' = inodes st"
proof -
  obtain a dfi sb r1 sb1 ctx1 d r2 st2 ctx2 ino where s: "FFS_I st dir = Inr (a, dfi)"
    "(if ctx_pos ctx = 0 then reset_cursors dfi (sbi st) else Inr (sbi st)) = Inr sb"
    "read_dir_dirs actor sb ino ctx = Inr (r1, sb1, ctx1)" "read_dir_files P actor d ino (st\<lparr>sbi := sb1\<rparr>) ctx1 = Inr (r2, st2, ctx2)"
    "st' = st2 \<or> (\<exists>g r3 ctx3. read_big_dir_files P actor g ino st2 ctx2 = Inr (r3, st', ctx3))"
    using assms(2) by (fastforce simp: ffs_readdir_def res_simps Let_def split: if_splits)
  have "tables_ok sb" using s(2) ffs_invD(4) [OF assms(1)] postD [OF reset_cursors_tables] by (auto split: if_splits)
  then have "ffs_inv (st\<lparr>sbi := sb1\<rparr>)" using tables_ok_eq [OF read_dirs_tables [OF s(3)]] assms(1) by simp
  from read_dir_files_inv [OF this s(4)] have 2: "ffs_inv st2" "inodes st2 = inodes st" by simp_all
  from s(5) show ?thesis
  proof (elim disjE exE)
    fix g r3 ctx3
    assume "read_big_dir_files P actor g ino st2 ctx2 = Inr (r3, st', ctx3)"
    then show ?thesis using read_big_dir_files_inv [OF 2(1)] 2(2) by simp
  qed (use 2 in simp)
qed

section \<open>Mounting\<close>

lemma fill_sb_tables:
  assumes "fill_sb_info P M isz sb = Inr sb'" "hashtbl sb = (\<lambda>_. None)" "big_dir_hashtbl sb = (\<lambda>_. None)"
  shows "tables_ok sb'"
proof -
  obtain t sb1 h where s: "init_root_entry (m_root_list_ok M) (sb\<lparr>dtree_root := t\<rparr>) isz = Inr sb1" "init_file_ht (m_ht_ok M) = Inr h"
    "init_big_dirs (sb1\<lparr>hashtbl := (hashtbl sb1)(unat FLATFS_ROOT_INO := h)\<rparr>) = Inr sb'"
    using assms(1) by (auto simp: fill_sb_info_def res_simps)
  have "same_tables sb sb1" using s(1) by (auto simp: init_root_entry_def Let_def res_simps split: if_splits)
  moreover have "hashtbl sb' = (hashtbl sb1)(unat FLATFS_ROOT_INO := h)" "big_dir_hashtbl sb' = big_dir_hashtbl sb1" using s(3) by (auto simp: init_big_dirs_def Let_def res_simps)
  moreover have "ht_inv x" if "h = Some x" for x using s(2) that init_file_ht_ok by (cases "m_ht_ok M") (auto simp: init_file_ht_def)
  ultimately show ?thesis using assms(2,3) by (auto simp: tables_ok_def split: if_splits)
qed

lemma mount_inv:
  assumes "unmounted st" "kenv_ok K" "flatfs_fill_super P K M sb st = Inr (0, sb', st')"
  shows "ffs_inv st' \<and> dom (bufs st') = dom (bufs st)"
proof -
  let ?ino = "dir_id_to_inode FLATFS_ROOT_INO"
  obtain bh bf where br: "sb_bread (bufs st) 1 = (bh, bf)" by fastforce
  define st0 where "st0 = st\<lparr>bufs := bf\<rparr>"
  obtain nm p st1 a st2 z st3 and fi :: ffs_inode_info where s: "flatfs_iget K (S_IFDIR OR 0x1ED) 0 st0 = Inr (p, st1)" "p = Some a"
    "upd_inode (\<lambda>fi. fi\<lparr>i_ino := ?ino\<rparr>) p st1 = Inr st2" "fill_sb_info P M (i_size fi) ((zero_sb_info P (m_junk M))\<lparr>sb_name := nm\<rparr>) = Inr z"
    "ffs_dirty_inode P p (st2\<lparr>sbi := z\<rparr>) = Inr st3" "unlock_new_inode p st3 = Inr st'"
    using assms(3) br
    by (auto simp: flatfs_fill_super_def Let_def res_simps mark_inode_dirty_def st0_def split: if_splits option.splits)
  have z: "tables_ok z" by (rule fill_sb_tables [OF s(4)]) (simp_all add: zero_sb_info_def)
  have b0: "bufs_ok bf" "dom bf = dom (bufs st)" using assms(1) bread_ok [OF _ br] bread_dom [OF br] by (auto simp: unmounted_def)
  obtain mem ei bh1 bf1 where m: "k_inode K = Some mem" "a = inode_next st" "sb_bread bf (ffs_get_lba_dir_meta ?ino (cint (uint FLATFS_ROOT_INO))) = (bh1, bf1)"
    "st1 = put_inode a ei (st\<lparr>icache := [?ino \<mapsto> a], bufs := bf1\<rparr>)" "i_ino ei = ?ino" "length (fname (fi_filename ei)) = 482"
    using s(1,2) assms(1,2)
    by (auto simp: flatfs_iget_def iget_locked_def ffs_alloc_inode_def Let_def res_simps st0_def unmounted_def FFS_I_eq put_inode_def memcpy_def kenv_ok_def
        split: option.splits prod.splits if_splits)
  have b1: "bufs_ok bf1" "dom bf1 = dom (bufs st)" using bread_ok [OF b0(1) m(3)] bread_dom [OF m(3)] b0(2) by simp_all
  have "st2 = put_inode a (ei\<lparr>i_ino := ?ino\<rparr>) st1" using s(2,3) m(4) by (auto simp: upd_inode_def FFS_I_def put_inode_def)
  then have "ffs_inv (st2\<lparr>sbi := z\<rparr>)" "bufs st2 = bf1"
    using m assms(1) b1 z by (auto simp: ffs_inv_def inodes_ok_def put_inode_def unmounted_def slab_ok_def)
  then have "ffs_inv st3" "dom (bufs st3) = dom (bufs st)" using dirty_inv [OF _ s(5)] b1 by auto
  moreover have "ffs_inv st'" using s(6) unfolding unlock_new_inode_def by (rule inv_upd [OF \<open>ffs_inv st3\<close>]) simp_all
  moreover have "bufs st' = bufs st3" using s(6) by (auto simp: unlock_new_inode_def upd_inode_def res_simps put_inode_def)
  ultimately show ?thesis by simp
qed

section \<open>Every reachable state\<close>

lemma evict_inv: "ffs_inv st \<Longrightarrow> ffs_inv (evict a st)"
  by (auto simp: ffs_inv_def inodes_ok_def evict_def ffs_destroy_inode_def ffs_i_callback_def slab_ok_def split: if_splits)

lemma step_inv:
  assumes "ffs_step P actor bwb st st'" "ffs_inv st"
  shows "ffs_inv st'"
  using assms
proof (induction rule: ffs_step.induct)
  case (create K dir name mode st ret p st')
  then show ?case by (auto simp: ffs_create_def intro: mknod_inv)
next
  case (mkdir K dir name mode st ret p st')
  then obtain st1 where "ffs_mknod P K dir name (mode OR S_IFDIR) 0 st = Inr (ret, p, st1)" "st' = st1 \<or> inc_nlink dir st1 = Inr st'"
    by (auto simp: ffs_mkdir_def res_simps split: if_splits)
  then show ?case using mknod_inv mkdir by (fastforce simp: inc_nlink_def intro: inv_upd)
next
  case (write_begin p pos len flags m st ret m' st')
  then have "upd_inode (\<lambda>fi. if signed_take_bit 63 (pos + uint len) \<ge> fi_size fi then fi\<lparr>fi_size := signed_take_bit 63 (pos + uint len)\<rparr> else fi) p st = Inr st'"
    by (auto simp: ffs_write_begin_def res_simps Let_def split: prod.splits)
  then show ?case by (rule inv_upd [OF write_begin(2)]) simp_all
next
  case (io_done n st st')
  then show ?case by (simp add: ffs_inv_def)
next
  case (slab st f)
  then show ?case by (simp add: ffs_inv_def inodes_ok_def)
qed (auto intro: lookup_inv mknod_inv unlink_inv rmdir_inv readdir_inv [THEN conjunct1] dirty_inv [THEN conjunct1] evict_inv)

interpretation run: invariant_of "mounted P" "ffs_step P actor bwb" ffs_inv for P actor bwb
  by unfold_locales (auto simp: mounted_def dest: mount_inv step_inv)

text \<open>A mount of a blank device, for the examples below.\<close>

definition blank_dev :: ffs_state where
  "blank_dev = (demo_st blank_sb)\<lparr>inodes := (\<lambda>_. None)\<rparr>"

lemma blank_slab: "inode_next blank_dev = 0" "slab blank_dev = first_free"
  by (auto simp: inode_next_def blank_dev_def intro: first_free_is)

lemma demo_reachable:
  obtains st fi where "mounted x86_64_smp st" "inodes st 0 = Some fi" "fi_is_big_dir fi = 0" "fi_dir_id fi = 2"
    "hashtbl (sbi st) = [2 \<mapsto> empty_ht]" "dom (bufs st) = UNIV" "bd_inode st" "inode_next st = 1" "slab_ok st" "icache st = [dir_id_to_inode 2 \<mapsto> 0]"
proof -
  have db: "dir_blocks (bufs blank_dev)" by (simp add: blank_dev_def demo_st_def dir_blocks_def readable_def zero_buf_def)
  have nm: "m_type_name demo_mount = [102, 108, 97, 116, 102, 115] @ [0]" by (simp add: demo_mount_def)
  have junk: "\<forall>i<NR_DIRS. length (dir_name (de (m_junk demo_mount) i)) = 482" "length (dir_id_bitmap (m_junk demo_mount)) = 256"
    by (simp_all add: demo_mount_def blank_tree_def blank_entry_def)
  have un: "unmounted blank_dev" "kenv_ok demo_env" "dom (bufs blank_dev) = UNIV"
    using demo_slab(2) [of blank_sb]
    by (simp_all add: unmounted_def blank_dev_def demo_st_def bufs_ok_def buf_ok_def zero_buf_def kenv_ok_def slab_ok_def demo_env_def
        blank_inode_def zero_bucket_def)
  obtain sb' st' fi where m: "flatfs_fill_super x86_64_smp demo_env demo_mount demo_super blank_dev = Inr (0, sb', st')"
    "hashtbl (sbi st') = [2 \<mapsto> empty_ht]" "inodes st' 0 = Some fi" "dir_inode_ok fi 2" "fi_is_big_dir fi = 0" "bd_inode st'"
    "slab st' = first_free" "inodes st' = [0 \<mapsto> fi]" "icache st' = [dir_id_to_inode 2 \<mapsto> 0]"
    using mount_run [OF _ _ _ _ _ _ nm _ _ junk, of demo_env blank_inode blank_dev x86_64_smp demo_super] db
    blank_slab
    by (fastforce simp: demo_mount_def x86_64_smp_def blank_dev_def demo_st_def)
  have "mounted x86_64_smp st'" using un m(1) unfolding mounted_def by blast
  moreover have "dom (bufs st') = UNIV" using mount_inv [OF un(1,2) m(1)] un(3) by simp
  moreover have "inode_next st' = 1" using m(7,8) by (auto simp: inode_next_def intro: first_free_is)
  moreover have "slab_ok st'" using m(7,8) by (simp add: slab_ok_def first_free)
  ultimately show thesis using that m by (simp add: dir_inode_ok_def)
qed

lemma demo_home: "ht_home [97, 0] = 97" by code_simp

lemma demo_ino: "\<forall>s \<in> set [0..<8]. file_ino 2 97 s \<noteq> dir_id_to_inode 2" by code_simp

lemma demo_created:
  obtains st fi x where "reachable (mounted x86_64_smp) (ffs_step x86_64_smp actor bwb) st" "inodes st 1 = Some fi"
    "fi_slot_id fi = int x" "bufs st (compose_pblk_for_discard x86_64_smp fi) \<noteq> None"
proof -
  obtain st0 dfi where s: "mounted x86_64_smp st0" "inodes st0 0 = Some dfi" "fi_is_big_dir dfi = 0" "fi_dir_id dfi = 2"
    "hashtbl (sbi st0) = [2 \<mapsto> empty_ht]" "dom (bufs st0) = UNIV" "bd_inode st0" "inode_next st0 = 1" "slab_ok st0" "icache st0 = [dir_id_to_inode 2 \<mapsto> 0]"
    by (rule demo_reachable)
  have r0: "reachable (mounted x86_64_smp) (ffs_step x86_64_smp actor bwb) st0" using s(1) by (rule reachable.start)
  obtain b where b: "bufs st0 (page_lba x86_64_smp dfi (ht_home ([97] @ [0]))) = Some b" using s(6) by (metis UNIV_I domD)
  have "readable (bufs st0) (page_lba x86_64_smp dfi (ht_home ([97] @ [0]))) (b_data b)"
    using run.reachable_inv [OF r0] b by (auto simp: ffs_inv_def bufs_ok_def buf_ok_def readable_def)
  moreover have "\<forall>s<8. icache st0 (file_ino 2 (ht_home ([97] @ [0])) s) = None" using s(10) demo_home demo_ino by simp
  ultimately obtain x st1 blk' where c: "x < 8" "ffs_mknod x86_64_smp demo_env (Some 0) (name_arg [97]) (0x1A4 OR S_IFREG) 0 st0 = Inr (0, Some 1, st1)"
    "inodes st1 = (inodes st0)(1 \<mapsto> file_inode demo_env (0x1A4 OR S_IFREG) blank_inode 2 (ht_home ([97] @ [0])) x [97])"
    "readable (bufs st1) (page_lba x86_64_smp dfi (ht_home ([97] @ [0]))) blk'"
    using create_run [of st0 0 dfi demo_env blank_inode 2 empty_ht x86_64_smp "[97]" 0 "b_data b" "0x1A4 OR S_IFREG"] s small_dirs
    by (auto simp: name_arg_def S_IFREG_def S_IFDIR_def)
  have "ffs_create x86_64_smp demo_env (Some 0) (name_arg [97]) 0x1A4 st0 = Inr (0, Some 1, st1)" using c(2) by (simp add: ffs_create_def)
  then have "ffs_step x86_64_smp actor bwb st0 st1" by (rule ffs_step.create [rotated]) (simp add: kenv_ok_def demo_env_def zero_bucket_def blank_inode_def)
  with r0 have "reachable (mounted x86_64_smp) (ffs_step x86_64_smp actor bwb) st1" by (rule reachable.further)
  then show thesis
    by (rule that [of _ "file_inode demo_env (0x1A4 OR S_IFREG) blank_inode 2 (ht_home ([97] @ [0])) x [97]" x])
      (use c s(4) in \<open>auto simp: file_inode_def compose_pblk_for_discard_def page_lba_def readable_def\<close>)
qed



text \<open>
  C31: No file is ever unlinked. In every state that a mount and any operations lead to, unlinking an
  inode with a slot, from a page that can be read, follows the null private pointer of the page's
  buffer; and an unlink that does return was of an inode without a slot.
\<close>
theorem files_never_unlinked:
  assumes "reachable (mounted P) (ffs_step P actor bwb) st" "inodes st a = Some fi" "fi_slot_id fi \<noteq> - 1"
  shows "(\<forall>x. ffs_unlink P dir (Some a) st \<noteq> Inr x) \<and>
    (0 \<le> fi_slot_id fi \<and> bufs st (compose_pblk_for_discard P fi) \<noteq> None \<longrightarrow> ffs_unlink P dir (Some a) st = Inl NullDeref)"
proof -
  have inv: "ffs_inv st" by (rule run.reachable_inv [OF assms(1)])
  have "ffs_unlink P dir (Some a) st \<noteq> Inr x" for x
    using unlink_page_stuck [OF inv] assms(2,3) by (cases x) (auto simp: ffs_unlink_def res_simps)
  moreover have "ffs_unlink P dir (Some a) st = Inl NullDeref" if "0 \<le> fi_slot_id fi" "bufs st (compose_pblk_for_discard P fi) \<noteq> None"
    using unlink_null_private [OF assms(2), of "nat (fi_slot_id fi)"] ffs_invD(1) [OF inv] that by (auto simp: bufs_ok_def buf_ok_def)
  ultimately show ?thesis by blast
qed

theorem files_never_unlinked_witness:
  "\<exists>st. reachable (mounted x86_64_smp) (ffs_step x86_64_smp (\<lambda>c nm pos ino ty. (0, c @ [ino])) (\<lambda>gb m pos len fl. (0, m :: nat))) st \<and>
     ffs_unlink x86_64_smp (Some 0) (Some 1) st = Inl NullDeref"
proof -
  obtain st fi x where s: "reachable (mounted x86_64_smp) (ffs_step x86_64_smp (\<lambda>c nm pos ino ty. (0, c @ [ino])) (\<lambda>gb m pos len fl. (0, m :: nat))) st"
    "inodes st 1 = Some fi" "fi_slot_id fi = int x" "bufs st (compose_pblk_for_discard x86_64_smp fi) \<noteq> None" by (rule demo_created)
  then show ?thesis using files_never_unlinked [OF s(1,2), of "Some 0"] by auto
qed

end
