(* ===== verification/Inode_Life.thy ===== *)
theory Inode_Life
  imports Module_Run
begin

text \<open>
  The life of an inode over a run of the module: from the operation that makes it until the kernel
  evicts it, it keeps its mode and its operation table. The memory of an evicted inode may be used
  again for another one.
\<close>

definition life :: "ffs_state \<Rightarrow> ffs_state \<Rightarrow> bool" where
  "life st st' \<longleftrightarrow> (\<forall>a fi. inodes st a = Some fi \<longrightarrow>
     (\<exists>fi'. inodes st' a = Some fi' \<and> i_mode fi' = i_mode fi \<and> i_op fi' = i_op fi))"

lemma life_refl [simp]: "life st st"
  by (simp add: life_def)



























end
