(* ===== verification/Path_Lba.thy ===== *)
theory Path_Lba
  imports Dir_Tree
begin

text \<open>
  Addresses computed from a path (\<open>flatfs_d.c\<close>), an earlier scheme that gives each level of the
  path eight bits of the address, and the name comparison of \<open>flatfs_d.h\<close>. Nothing in the module
  calls the scheme any more; \<open>inode.c\<close> only declares it.

  A \<open>char\<close> is signed. The local \<open>s\<close> of \<open>calculate_filename\<close> is not initialised, so its first value
  is an argument. Shifts of an \<open>int\<close> by a count outside 0..31 are undefined in C; their value is the
  argument \<open>sh\<close>. The search for the depth has no bound in the code and takes fuel here.
\<close>

definition TOTAL_DEPTH :: int where "TOTAL_DEPTH = 8"

fun name_xor :: "u8 \<Rightarrow> bytes \<Rightarrow> u8 res" where
  "name_xor s [] = Inl OutOfBounds"
| "name_xor s (c # cs) = (if c = 0 \<or> c = 46 then Inr s else name_xor (s XOR c) cs)"

definition calculate_filename :: "u8 \<Rightarrow> bytes \<Rightarrow> u8 res" where
  "calculate_filename junk name = name_xor junk name"

definition int_shl :: "(int \<Rightarrow> int \<Rightarrow> int) \<Rightarrow> int \<Rightarrow> int \<Rightarrow> int" where
  "int_shl sh x n = (if 0 \<le> n \<and> n < 32 then cint (x * 2 ^ nat n) else sh x n)"

definition calculate_part_lba :: "(int \<Rightarrow> int \<Rightarrow> int) \<Rightarrow> u8 \<Rightarrow> int \<Rightarrow> u64" where
  "calculate_part_lba sh s depth = 0 + word_of_int (int_shl sh (sint s) (cint (TOTAL_DEPTH * 8 - cint (depth * 8))))"

definition level_mask :: "(int \<Rightarrow> int \<Rightarrow> int) \<Rightarrow> int \<Rightarrow> u64" where
  "level_mask sh depth = word_of_int (int_shl sh 255 (cint (TOTAL_DEPTH * 8 - cint (depth * 8))))"

fun parse_depth_loop :: "(int \<Rightarrow> int \<Rightarrow> int) \<Rightarrow> u64 \<Rightarrow> nat \<Rightarrow> int \<Rightarrow> int option" where
  "parse_depth_loop sh ino 0 depth = None"
| "parse_depth_loop sh ino (Suc fuel) depth =
     (if ino AND level_mask sh depth = 0 then Some depth else parse_depth_loop sh ino fuel (cint (depth + 1)))"

definition parse_depth :: "(int \<Rightarrow> int \<Rightarrow> int) \<Rightarrow> nat \<Rightarrow> u64 \<Rightarrow> int option" where
  "parse_depth sh fuel ino = (if ino = 0 then Some 0 else parse_depth_loop sh ino fuel 1)"

definition calculate_slba :: "(int \<Rightarrow> int \<Rightarrow> int) \<Rightarrow> u8 \<Rightarrow> nat \<Rightarrow> u64 \<Rightarrow> bytes \<Rightarrow> u64 res option" where
  "calculate_slba sh junk fuel dir_ino name =
     (case calculate_filename junk name of
        Inl e \<Rightarrow> Some (Inl e)
      | Inr s \<Rightarrow>
          (case parse_depth sh fuel dir_ino of
             None \<Rightarrow> None
           | Some d \<Rightarrow> Some (Inr (dir_ino AND calculate_part_lba sh s (cint (d + 1))))))"

text \<open>The comparison of a name with a stored one: 1 for success, 0 for failure.\<close>

definition ffs_match :: "int \<Rightarrow> bytes \<Rightarrow> u8 \<Rightarrow> bytes \<Rightarrow> int res" where
  "ffs_match len name dn_len dn_name =
     (if len \<noteq> uint dn_len then Inr 0
      else bind_res (memcmp_eq (nat len) name dn_name) (\<lambda>m. Inr (if m then 1 else 0)))"

section \<open>What the scheme computes\<close>

text \<open>
  The new part of the address is masked with the address of the parent instead of joined to it:
  every entry of the root directory gets address 0, and no entry gets a bit its directory has not.
\<close>

lemma calculate_filename_nul: "0 \<in> set name \<Longrightarrow> \<exists>s. calculate_filename junk name = Inr s"
proof (induction name arbitrary: junk)
  case (Cons c cs)
  then show ?case by (cases "c = 0") (auto simp: calculate_filename_def)
qed simp

theorem slba_of_root_entries_collide:
  assumes "0 \<in> set name"
  shows "calculate_slba sh junk fuel 0 name = Some (Inr 0)"
  using calculate_filename_nul [OF assms, of junk] by (auto simp: calculate_slba_def parse_depth_def)

theorem slba_below_directory:
  assumes "calculate_slba sh junk fuel ino name = Some (Inr lba)"
  shows "lba AND ino = lba"
  using assms by (auto simp: calculate_slba_def ac_simps split: sum.splits option.splits)

text \<open>
  On x86, where the count of a 32-bit shift is taken modulo 32, the search for the depth of an inode
  number with a bit in each of its lower four bytes never ends.
\<close>

definition x86_shl :: "int \<Rightarrow> int \<Rightarrow> int" where
  "x86_shl x n = cint (x * 2 ^ nat (n mod 32))"

lemma int_shl_x86: "int_shl x86_shl x n = cint (x * 2 ^ nat (n mod 32))"
  by (simp add: int_shl_def x86_shl_def)

lemma cint_mod: "cint x mod 32 = x mod 32"
proof -
  have "take_bit 5 (signed_take_bit 31 x) = take_bit 5 x"
    by (rule bit_eqI) (auto simp: bit_simps)
  then show ?thesis by (simp add: cint_def take_bit_eq_mod)
qed

lemma shift_count: "cint (TOTAL_DEPTH * 8 - cint (depth * 8)) mod 32 = (- (8 * depth)) mod 32"
proof -
  have "cint (TOTAL_DEPTH * 8 - cint (depth * 8)) mod 32 = (64 - cint (depth * 8)) mod 32"
    by (simp add: cint_mod TOTAL_DEPTH_def)
  also have "\<dots> = (64 - depth * 8) mod 32" by (rule mod_diff_cong) (simp_all add: cint_mod)
  also have "\<dots> = (- (8 * depth)) mod 32" using mod_mult_self2 [of "- (8 * depth)" 32 2] by (simp add: algebra_simps)
  finally show ?thesis .
qed

lemma shift_count_cases: "(- (8 * depth)) mod 32 \<in> {0, 8, 16, 24 :: int}"
proof -
  have "(- (8 * depth)) mod 32 = 8 * ((- depth) mod 4)" using mult_mod_right [of 8 "- depth" 4] by simp
  moreover have "(- depth) mod 4 \<in> {0, 1, 2, 3}" by simp presburger
  ultimately show ?thesis by auto
qed

theorem parse_depth_never_ends:
  "parse_depth x86_shl fuel 0x01010101 = None"
proof -
  have hit: "(0x01010101 :: u64) AND word_of_int (cint (255 * 2 ^ nat k)) \<noteq> 0" if "k \<in> {0, 8, 16, 24}" for k
    using that by (elim insertE emptyE) (simp_all, code_simp+)
  have "parse_depth_loop x86_shl 0x01010101 fuel depth = None" for depth
  proof (induction fuel arbitrary: depth)
    case (Suc fuel)
    then show ?case using hit [OF shift_count_cases] by (simp add: level_mask_def int_shl_x86 shift_count)
  qed simp
  then show ?thesis by (simp add: parse_depth_def)
qed

end
