(* ===== verification/Walk_State.thy ===== *)
theory Walk_State
  imports Vfs_Perm Res_Post
begin

text \<open>
  The state of a path walk (\<open>extra/namei.c\<close>): \<open>struct nameidata\<close>, the references the walk holds, and
  the functions that take, drop and legitimise them.

  Dentries, mounts and inodes are named by addresses. Their contents and everything the dcache, the
  mount table and the file systems do belong to the rest of the kernel: a type \<open>'k\<close> of worlds and the
  record \<open>walk_env\<close> of functions on it. A function that may answer differently each time, because
  other tasks run, maps a world to its answer and the next world. The references to dentries and
  mounts that this task holds, its shared inode locks and its depth of RCU read sections are counted
  in the state; the kernel functions that return a reference are documented to do so. Loops that only
  the rest of the kernel can end take \<open>w_fuel\<close> rounds at most.
\<close>

section \<open>Constants\<close>

definition LOOKUP_FOLLOW :: u32 where [vfs_simps]: "LOOKUP_FOLLOW = 0x0001"
definition LOOKUP_AUTOMOUNT :: u32 where [vfs_simps]: "LOOKUP_AUTOMOUNT = 0x0004"
definition LOOKUP_PARENT :: u32 where [vfs_simps]: "LOOKUP_PARENT = 0x0010"
definition LOOKUP_REVAL :: u32 where [vfs_simps]: "LOOKUP_REVAL = 0x0020"
definition LOOKUP_NO_REVAL :: u32 where [vfs_simps]: "LOOKUP_NO_REVAL = 0x0080"
definition LOOKUP_OPEN :: u32 where [vfs_simps]: "LOOKUP_OPEN = 0x0100"
definition LOOKUP_CREATE :: u32 where [vfs_simps]: "LOOKUP_CREATE = 0x0200"
definition LOOKUP_JUMPED :: u32 where [vfs_simps]: "LOOKUP_JUMPED = 0x1000"
definition LOOKUP_ROOT :: u32 where [vfs_simps]: "LOOKUP_ROOT = 0x2000"
definition LOOKUP_DOWN :: u32 where [vfs_simps]: "LOOKUP_DOWN = 0x8000"

definition ENOMEM :: int where [vfs_simps]: "ENOMEM = 12"
definition EBADF :: int where [vfs_simps]: "EBADF = 9"
definition EREMOTE :: int where [vfs_simps]: "EREMOTE = 66"
definition ESTALE :: int where [vfs_simps]: "ESTALE = 116"

definition MAXSYMLINKS :: nat where "MAXSYMLINKS = 40"
definition EMBEDDED_LEVELS :: nat where "EMBEDDED_LEVELS = 2"
definition AT_FDCWD :: int where "AT_FDCWD = - 100"

datatype last_type = LAST_NORM | LAST_ROOT | LAST_DOT | LAST_DOTDOT | LAST_BIND

section \<open>State\<close>

record vpath =
  p_mnt :: "nat option"
  p_dentry :: "nat option"

text \<open>A saved position; the delayed call is a handle of the file system's cleanup.\<close>

record saved =
  s_link :: vpath
  s_done :: "nat option"
  s_name :: "bytes option"
  s_seq :: u32

text \<open>\<open>nd_heap\<close>: \<open>nd->stack\<close> is no longer the embedded array.\<close>

record 'k walk =
  world :: 'k
  dref :: "nat \<Rightarrow> int"
  mref :: "nat \<Rightarrow> int"
  ishared :: "nat \<Rightarrow> int"
  rcu_nest :: int
  nd_path :: vpath
  nd_last_hash :: u64
  nd_last_name :: bytes
  nd_root :: vpath
  nd_inode :: "nat option"
  nd_flags :: u32
  nd_seq :: u32
  nd_m_seq :: u32
  nd_last_type :: last_type
  nd_depth :: nat
  nd_total_link_count :: int
  nd_stack :: "saved list"
  nd_heap :: bool
  nd_link_inode :: "nat option"
  nd_root_seq :: u32
  nd_name :: bytes
  nd_dfd :: int

section \<open>The rest of the kernel\<close>

record kdentry =
  kd_inode :: "nat option"
  kd_parent :: nat
  kd_type :: dtype
  kd_op_hash :: bool
  kd_op_revalidate :: bool
  kd_op_weak_revalidate :: bool
  kd_manage_transit :: bool
  kd_has_manage :: bool
  kd_mounted :: bool
  kd_need_automount :: bool
  kd_has_automount :: bool

record kmount =
  mnt_root :: nat
  mnt_parent :: nat
  mnt_mountpoint :: nat
  mnt_sb_multiroot :: bool
  mnt_sb_root :: nat

datatype link_res = LinkErr int | LinkNull | LinkBody bytes
datatype looked = LookedErr int | LookedNull | LookedDentry nat
datatype automount = AutoErr int | AutoNull | AutoMount nat

record ('k, 'a) walk_env =
  w_fuel :: nat
  w_cred :: "'a vfs_env"
  w_junk :: saved
  w_inode :: "'k \<Rightarrow> nat \<Rightarrow> vinode"
  w_put_inode :: "nat \<Rightarrow> vinode \<Rightarrow> 'k \<Rightarrow> 'k"
  w_dentry :: "'k \<Rightarrow> nat \<Rightarrow> kdentry"
  w_mount :: "'k \<Rightarrow> nat \<Rightarrow> kmount"
  k_d_seq_begin :: "nat \<Rightarrow> 'k \<Rightarrow> u32 \<times> 'k"
  k_d_seq_retry :: "nat \<Rightarrow> u32 \<Rightarrow> 'k \<Rightarrow> bool \<times> 'k"
  k_mount_seq_begin :: "'k \<Rightarrow> u32 \<times> 'k"
  k_mount_seq_retry :: "u32 \<Rightarrow> 'k \<Rightarrow> bool \<times> 'k"
  k_fs_seq_retry :: "'k \<Rightarrow> bool \<times> 'k"
  k_fs_root :: "'k \<Rightarrow> vpath"
  k_fs_pwd :: "'k \<Rightarrow> vpath"
  k_fd :: "'k \<Rightarrow> int \<Rightarrow> vpath option"
  k_kmalloc :: "'k \<Rightarrow> bool \<times> 'k"
  k_legitimize_mnt :: "nat \<Rightarrow> u32 \<Rightarrow> 'k \<Rightarrow> int \<times> 'k"
  k_legitimize_mnt_ok :: "nat \<Rightarrow> u32 \<Rightarrow> 'k \<Rightarrow> bool \<times> 'k"
  k_lockref_get :: "nat \<Rightarrow> 'k \<Rightarrow> bool \<times> 'k"
  k_d_lookup_rcu :: "nat \<Rightarrow> u64 \<Rightarrow> bytes \<Rightarrow> 'k \<Rightarrow> (nat \<times> u32) option \<times> 'k"
  k_d_lookup :: "nat \<Rightarrow> u64 \<Rightarrow> bytes \<Rightarrow> 'k \<Rightarrow> nat option \<times> 'k"
  k_d_alloc_parallel :: "nat \<Rightarrow> u64 \<Rightarrow> bytes \<Rightarrow> 'k \<Rightarrow> (int + nat) \<times> 'k"
  k_d_in_lookup :: "'k \<Rightarrow> nat \<Rightarrow> bool"
  k_d_lookup_done :: "nat \<Rightarrow> 'k \<Rightarrow> 'k"
  k_iop_lookup :: "nat \<Rightarrow> nat \<Rightarrow> u32 \<Rightarrow> 'k \<Rightarrow> looked \<times> 'k"
  k_d_revalidate :: "nat \<Rightarrow> u32 \<Rightarrow> 'k \<Rightarrow> int \<times> 'k"
  k_d_weak_revalidate :: "nat \<Rightarrow> u32 \<Rightarrow> 'k \<Rightarrow> int \<times> 'k"
  k_d_invalidate :: "nat \<Rightarrow> 'k \<Rightarrow> 'k"
  k_d_hash :: "nat \<Rightarrow> u64 \<Rightarrow> bytes \<Rightarrow> 'k \<Rightarrow> (int \<times> u64 \<times> bytes) \<times> 'k"
  k_d_manage :: "vpath \<Rightarrow> bool \<Rightarrow> 'k \<Rightarrow> int \<times> 'k"
  k_d_automount :: "vpath \<Rightarrow> 'k \<Rightarrow> automount \<times> 'k"
  k_finish_automount :: "nat \<Rightarrow> vpath \<Rightarrow> 'k \<Rightarrow> (int \<times> vpath) \<times> 'k"
  k_lookup_mnt :: "vpath \<Rightarrow> 'k \<Rightarrow> nat option \<times> 'k"
  k_lookup_mnt_rcu :: "vpath \<Rightarrow> 'k \<Rightarrow> nat option \<times> 'k"
  k_is_subdir :: "nat \<Rightarrow> nat \<Rightarrow> 'k \<Rightarrow> bool \<times> 'k"
  k_dget_parent :: "nat \<Rightarrow> 'k \<Rightarrow> nat \<times> 'k"
  k_atime_needs_update :: "vpath \<Rightarrow> nat \<Rightarrow> 'k \<Rightarrow> bool \<times> 'k"
  k_touch_atime :: "vpath \<Rightarrow> 'k \<Rightarrow> 'k"
  k_follow_link :: "nat \<Rightarrow> nat \<Rightarrow> bool \<Rightarrow> 'k \<Rightarrow> int \<times> 'k"
  k_i_link :: "'k \<Rightarrow> nat \<Rightarrow> bytes option"
  k_get_link :: "nat option \<Rightarrow> nat \<Rightarrow> 'k \<Rightarrow> (link_res \<times> vpath option \<times> nat option) \<times> 'k"
  k_delayed_call :: "nat \<Rightarrow> 'k \<Rightarrow> 'k"
  k_hash_name :: "u64 \<Rightarrow> bytes \<Rightarrow> u64 res"

definition kop :: "('k \<Rightarrow> 'r \<times> 'k) \<Rightarrow> 'k walk \<Rightarrow> 'r \<times> 'k walk" where
  "kop f S = (let (r, w) = f (world S) in (r, S\<lparr>world := w\<rparr>))"

definition null_ok :: "nat option \<Rightarrow> nat res" where
  "null_ok p = (case p of None \<Rightarrow> Inl NullDeref | Some a \<Rightarrow> Inr a)"

section \<open>References\<close>

definition add_ref :: "nat option \<Rightarrow> int \<Rightarrow> (nat \<Rightarrow> int) \<Rightarrow> nat \<Rightarrow> int" where
  "add_ref p n r = (case p of None \<Rightarrow> r | Some a \<Rightarrow> r(a := r a + n))"

definition dget :: "nat option \<Rightarrow> 'k walk \<Rightarrow> 'k walk" where
  "dget d S = S\<lparr>dref := add_ref d 1 (dref S)\<rparr>"

definition dput :: "nat option \<Rightarrow> 'k walk \<Rightarrow> 'k walk" where
  "dput d S = S\<lparr>dref := add_ref d (- 1) (dref S)\<rparr>"

definition mntget :: "nat option \<Rightarrow> 'k walk \<Rightarrow> 'k walk" where
  "mntget m S = S\<lparr>mref := add_ref m 1 (mref S)\<rparr>"

definition mntput :: "nat option \<Rightarrow> 'k walk \<Rightarrow> 'k walk" where
  "mntput m S = S\<lparr>mref := add_ref m (- 1) (mref S)\<rparr>"

definition path_get :: "vpath \<Rightarrow> 'k walk \<Rightarrow> 'k walk" where
  "path_get p S = dget (p_dentry p) (mntget (p_mnt p) S)"

definition path_put :: "vpath \<Rightarrow> 'k walk \<Rightarrow> 'k walk" where
  "path_put p S = mntput (p_mnt p) (dput (p_dentry p) S)"

definition null_path :: vpath where
  "null_path = \<lparr>p_mnt = None, p_dentry = None\<rparr>"

definition in_rcu :: "'k walk \<Rightarrow> bool" where
  "in_rcu S \<longleftrightarrow> nd_flags S AND LOOKUP_RCU \<noteq> 0"

definition has_root_flag :: "'k walk \<Rightarrow> bool" where
  "has_root_flag S \<longleftrightarrow> nd_flags S AND LOOKUP_ROOT \<noteq> 0"

definition clear_rcu :: "'k walk \<Rightarrow> 'k walk" where
  "clear_rcu S = S\<lparr>nd_flags := nd_flags S AND NOT LOOKUP_RCU\<rparr>"

definition rcu_read_lock :: "'k walk \<Rightarrow> 'k walk" where
  "rcu_read_lock S = S\<lparr>rcu_nest := rcu_nest S + 1\<rparr>"

definition rcu_read_unlock :: "'k walk \<Rightarrow> 'k walk" where
  "rcu_read_unlock S = S\<lparr>rcu_nest := rcu_nest S - 1\<rparr>"

text \<open>\<open>if (!(nd->flags & LOOKUP_ROOT)) nd->root.mnt = NULL;\<close>\<close>

definition drop_root :: "'k walk \<Rightarrow> 'k walk" where
  "drop_root S = (if has_root_flag S then S else S\<lparr>nd_root := (nd_root S)\<lparr>p_mnt := None\<rparr>\<rparr>)"

section \<open>The stack of links\<close>

definition get_saved :: "'k walk \<Rightarrow> nat \<Rightarrow> saved res" where
  "get_saved S i = (if i < length (nd_stack S) then Inr (nd_stack S ! i) else Inl OutOfBounds)"

definition put_saved :: "nat \<Rightarrow> saved \<Rightarrow> 'k walk \<Rightarrow> 'k walk" where
  "put_saved i v S = S\<lparr>nd_stack := (nd_stack S)[i := v]\<rparr>"

definition nd_alloc_stack_slow :: "('k, 'a) walk_env \<Rightarrow> 'k walk \<Rightarrow> int \<times> 'k walk" where
  "nd_alloc_stack_slow E S =
     (let (ok, S) = kop (k_kmalloc E) S in
      if \<not> ok then (if in_rcu S then - ECHILD else - ENOMEM, S)
      else (0, S\<lparr>nd_stack := take EMBEDDED_LEVELS (nd_stack S) @ replicate (MAXSYMLINKS - EMBEDDED_LEVELS) (w_junk E), nd_heap := True\<rparr>))"

definition nd_alloc_stack :: "('k, 'a) walk_env \<Rightarrow> 'k walk \<Rightarrow> int \<times> 'k walk" where
  "nd_alloc_stack E S =
     (if nd_depth S \<noteq> EMBEDDED_LEVELS then (0, S)
      else if nd_heap S then (0, S)
      else nd_alloc_stack_slow E S)"

definition do_delayed_call :: "('k, 'a) walk_env \<Rightarrow> nat option \<Rightarrow> 'k walk \<Rightarrow> 'k walk" where
  "do_delayed_call E done S = (case done of None \<Rightarrow> S | Some h \<Rightarrow> S\<lparr>world := k_delayed_call E h (world S)\<rparr>)"

fun drop_links_from :: "('k, 'a) walk_env \<Rightarrow> nat \<Rightarrow> 'k walk \<Rightarrow> 'k walk res" where
  "drop_links_from E 0 S = Inr S"
| "drop_links_from E (Suc i) S =
     bind_res (get_saved S i) (\<lambda>last.
     drop_links_from E i (put_saved i (last\<lparr>s_done := None\<rparr>) (do_delayed_call E (s_done last) S)))"

definition drop_links :: "('k, 'a) walk_env \<Rightarrow> 'k walk \<Rightarrow> 'k walk res" where
  "drop_links E S = drop_links_from E (nd_depth S) S"

fun put_links :: "nat list \<Rightarrow> 'k walk \<Rightarrow> 'k walk res" where
  "put_links [] S = Inr S"
| "put_links (i # is) S = bind_res (get_saved S i) (\<lambda>last. put_links is (path_put (s_link last) S))"

definition terminate_walk :: "('k, 'a) walk_env \<Rightarrow> 'k walk \<Rightarrow> 'k walk res" where
  "terminate_walk E S =
     bind_res (drop_links E S) (\<lambda>S.
     bind_res
       (if \<not> in_rcu S
        then let S = path_put (nd_path S) S in
             bind_res (put_links [0..<nd_depth S] S) (\<lambda>S.
             if p_mnt (nd_root S) \<noteq> None \<and> \<not> has_root_flag S
             then let S = path_put (nd_root S) S in Inr (S\<lparr>nd_root := (nd_root S)\<lparr>p_mnt := None\<rparr>\<rparr>)
             else Inr S)
        else let S = drop_root (clear_rcu S) in Inr (rcu_read_unlock S)) (\<lambda>S.
     Inr (S\<lparr>nd_depth := 0\<rparr>)))"

definition put_link :: "('k, 'a) walk_env \<Rightarrow> 'k walk \<Rightarrow> 'k walk res" where
  "put_link E S =
     (if nd_depth S = 0 then Inl OutOfBounds
      else let S = S\<lparr>nd_depth := nd_depth S - 1\<rparr> in
      bind_res (get_saved S (nd_depth S)) (\<lambda>last.
      let S = do_delayed_call E (s_done last) S in
      Inr (if \<not> in_rcu S then path_put (s_link last) S else S)))"

section \<open>Leaving RCU mode\<close>

text \<open>
  \<open>__legitimize_mnt\<close> returns 0 with a reference, a positive number without one, and a negative number
  with a reference that is still to be dropped; a null mount is fine.
\<close>

definition legitimize_path :: "('k, 'a) walk_env \<Rightarrow> vpath \<Rightarrow> u32 \<Rightarrow> 'k walk \<Rightarrow> (bool \<times> vpath \<times> 'k walk) res" where
  "legitimize_path E path seq S =
     (let (r, S) = (case p_mnt path of None \<Rightarrow> (0, S) | Some m \<Rightarrow> kop (k_legitimize_mnt E m (nd_m_seq S)) S);
          S = (if r \<le> 0 then mntget (p_mnt path) S else S) in
      if r \<noteq> 0 then Inr (False, \<lparr>p_mnt = (if r > 0 then None else p_mnt path), p_dentry = None\<rparr>, S)
      else bind_res (null_ok (p_dentry path)) (\<lambda>d.
           let (ok, S) = kop (k_lockref_get E d) S in
           if \<not> ok then Inr (False, path\<lparr>p_dentry := None\<rparr>, S)
           else let S = dget (Some d) S; (again, S) = kop (k_d_seq_retry E d seq) S in
                Inr (\<not> again, path, S)))"

fun legitimize_links_from :: "('k, 'a) walk_env \<Rightarrow> nat list \<Rightarrow> 'k walk \<Rightarrow> (bool \<times> 'k walk) res" where
  "legitimize_links_from E [] S = Inr (True, S)"
| "legitimize_links_from E (i # is) S =
     bind_res (get_saved S i) (\<lambda>last.
     bind_res (legitimize_path E (s_link last) (s_seq last) S) (\<lambda>(ok, link, S).
     let S = put_saved i (last\<lparr>s_link := link\<rparr>) S in
     if \<not> ok then bind_res (drop_links E S) (\<lambda>S. Inr (False, S\<lparr>nd_depth := i + 1\<rparr>))
     else legitimize_links_from E is S))"

definition legitimize_links :: "('k, 'a) walk_env \<Rightarrow> 'k walk \<Rightarrow> (bool \<times> 'k walk) res" where
  "legitimize_links E S = legitimize_links_from E [0..<nd_depth S] S"

text \<open>What \<open>unlazy_walk\<close> and \<open>unlazy_child\<close> do with a root that the walk has looked up itself.\<close>

definition legitimize_root :: "('k, 'a) walk_env \<Rightarrow> 'k walk \<Rightarrow> (bool \<times> 'k walk) res" where
  "legitimize_root E S =
     (if p_mnt (nd_root S) \<noteq> None \<and> \<not> has_root_flag S
      then bind_res (legitimize_path E (nd_root S) (nd_root_seq S) S) (\<lambda>(ok, root, S). Inr (ok, S\<lparr>nd_root := root\<rparr>))
      else Inr (True, S))"

definition unlazy_walk :: "('k, 'a) walk_env \<Rightarrow> 'k walk \<Rightarrow> (int \<times> 'k walk) res" where
  "unlazy_walk E S =
     (let parent = p_dentry (nd_path S) in
      if \<not> in_rcu S then Inl KernelBug
      else bind_res (legitimize_links E (clear_rcu S)) (\<lambda>(ok, S).
      if \<not> ok then Inr (- ECHILD, rcu_read_unlock (drop_root (S\<lparr>nd_path := null_path\<rparr>)))
      else bind_res (legitimize_path E (nd_path S) (nd_seq S) S) (\<lambda>(ok, path, S).
      let S = S\<lparr>nd_path := path\<rparr> in
      if \<not> ok then Inr (- ECHILD, rcu_read_unlock (drop_root S))
      else bind_res (legitimize_root E S) (\<lambda>(ok, S).
      let S = rcu_read_unlock S in
      if \<not> ok then Inr (- ECHILD, S)
      else bind_res (null_ok parent) (\<lambda>d.
           if nd_inode S \<noteq> kd_inode (w_dentry E (world S) d) then Inl KernelBug else Inr (0, S))))))"

definition unlazy_child :: "('k, 'a) walk_env \<Rightarrow> nat \<Rightarrow> u32 \<Rightarrow> 'k walk \<Rightarrow> (int \<times> 'k walk) res" where
  "unlazy_child E dentry seq S =
     (if \<not> in_rcu S then Inl KernelBug
      else bind_res (legitimize_links E (clear_rcu S)) (\<lambda>(ok, S).
      if \<not> ok then Inr (- ECHILD, drop_root (rcu_read_unlock (S\<lparr>nd_path := null_path\<rparr>)))
      else let (ok, S) = (case p_mnt (nd_path S) of None \<Rightarrow> (True, S) | Some m \<Rightarrow> kop (k_legitimize_mnt_ok E m (nd_m_seq S)) S) in
      if \<not> ok then Inr (- ECHILD, drop_root (rcu_read_unlock (S\<lparr>nd_path := null_path\<rparr>)))
      else let S = mntget (p_mnt (nd_path S)) S in
      bind_res (null_ok (p_dentry (nd_path S))) (\<lambda>d.
      let (ok, S) = kop (k_lockref_get E d) S in
      if \<not> ok then Inr (- ECHILD, drop_root (rcu_read_unlock (S\<lparr>nd_path := (nd_path S)\<lparr>p_dentry := None\<rparr>\<rparr>)))
      else let S = dget (Some d) S; (ok, S) = kop (k_lockref_get E dentry) S in
      if \<not> ok then Inr (- ECHILD, drop_root (rcu_read_unlock S))
      else let S = dget (Some dentry) S; (again, S) = kop (k_d_seq_retry E dentry seq) S in
      if again then Inr (- ECHILD, drop_root (dput (Some dentry) (rcu_read_unlock S)))
      else bind_res (legitimize_root E S) (\<lambda>(ok, S).
      let S = rcu_read_unlock S in
      if \<not> ok then Inr (- ECHILD, dput (Some dentry) S) else Inr (0, S)))))"

definition complete_walk :: "('k, 'a) walk_env \<Rightarrow> 'k walk \<Rightarrow> (int \<times> 'k walk) res" where
  "complete_walk E S =
     (let dentry = p_dentry (nd_path S) in
      bind_res (if in_rcu S then unlazy_walk E (drop_root S) else Inr (0, S)) (\<lambda>(err, S).
      if err \<noteq> 0 then Inr (- ECHILD, S)
      else if nd_flags S AND LOOKUP_JUMPED = 0 then Inr (0, S)
      else bind_res (null_ok dentry) (\<lambda>d.
      if \<not> kd_op_weak_revalidate (w_dentry E (world S) d) then Inr (0, S)
      else let (status, S) = kop (k_d_weak_revalidate E d (nd_flags S)) S in
           if status > 0 then Inr (0, S) else Inr (if status = 0 then - ESTALE else status, S))))"

section \<open>Roots and jumps\<close>

fun set_root_rcu :: "('k, 'a) walk_env \<Rightarrow> nat \<Rightarrow> 'k walk \<Rightarrow> 'k walk res" where
  "set_root_rcu E 0 S = Inl Livelock"
| "set_root_rcu E (Suc n) S =
     (let S = S\<lparr>nd_root := k_fs_root E (world S)\<rparr> in
      bind_res (null_ok (p_dentry (nd_root S))) (\<lambda>d.
      let (seq, S) = kop (k_d_seq_begin E d) S; S = S\<lparr>nd_root_seq := seq\<rparr>; (again, S) = kop (k_fs_seq_retry E) S in
      if again then set_root_rcu E n S else Inr S))"

definition set_root :: "('k, 'a) walk_env \<Rightarrow> 'k walk \<Rightarrow> 'k walk res" where
  "set_root E S =
     (if in_rcu S then set_root_rcu E (w_fuel E) S
      else let root = k_fs_root E (world S) in Inr (path_get root (S\<lparr>nd_root := root\<rparr>)))"

definition path_put_conditional :: "vpath \<Rightarrow> 'k walk \<Rightarrow> 'k walk" where
  "path_put_conditional path S =
     (let S = dput (p_dentry path) S in if p_mnt path \<noteq> p_mnt (nd_path S) then mntput (p_mnt path) S else S)"

definition path_to_nameidata :: "vpath \<Rightarrow> 'k walk \<Rightarrow> 'k walk" where
  "path_to_nameidata path S =
     (let S = (if \<not> in_rcu S
               then let S = dput (p_dentry (nd_path S)) S in
                    if p_mnt (nd_path S) \<noteq> p_mnt path then mntput (p_mnt (nd_path S)) S else S
               else S)
      in S\<lparr>nd_path := path\<rparr>)"

definition nd_jump_root :: "('k, 'a) walk_env \<Rightarrow> 'k walk \<Rightarrow> (int \<times> 'k walk) res" where
  "nd_jump_root E S =
     (let rcu = in_rcu S in
      if rcu
      then let S = S\<lparr>nd_path := nd_root S\<rparr> in
           bind_res (null_ok (p_dentry (nd_path S))) (\<lambda>d.
           let S = S\<lparr>nd_inode := kd_inode (w_dentry E (world S) d), nd_seq := nd_root_seq S\<rparr>;
               (again, S) = kop (k_d_seq_retry E d (nd_seq S)) S in
           if again then Inr (- ECHILD, S) else Inr (0, S\<lparr>nd_flags := nd_flags S OR LOOKUP_JUMPED\<rparr>))
      else let S = path_put (nd_path S) S; S = S\<lparr>nd_path := nd_root S\<rparr>; S = path_get (nd_path S) S in
           bind_res (null_ok (p_dentry (nd_path S))) (\<lambda>d.
           Inr (0, S\<lparr>nd_inode := kd_inode (w_dentry E (world S) d), nd_flags := nd_flags S OR LOOKUP_JUMPED\<rparr>)))"

text \<open>Called by the \<open>get_link\<close> of a file system with a path it holds a reference to.\<close>

definition nd_jump_link :: "('k, 'a) walk_env \<Rightarrow> vpath \<Rightarrow> 'k walk \<Rightarrow> 'k walk res" where
  "nd_jump_link E path S =
     (let S = path_put (nd_path S) S; S = S\<lparr>nd_path := path\<rparr> in
      bind_res (null_ok (p_dentry path)) (\<lambda>d.
      Inr (S\<lparr>nd_inode := kd_inode (w_dentry E (world S) d), nd_flags := nd_flags S OR LOOKUP_JUMPED\<rparr>)))"

end
