(* ===== verification/Walk_Step.thy ===== *)
theory Walk_Step
  imports Walk_State
begin

text \<open>
  One step of a path walk (\<open>extra/namei.c\<close>): crossing mount points, going up, looking a component up
  in the dcache and in the file system, and picking up a symbolic link. A path argument that a
  function changes is returned; \<open>need_mntput\<close> says whether the path holds a reference to its mount.
\<close>

section \<open>Mount points\<close>

definition mounted_root :: "('k, 'a) walk_env \<Rightarrow> nat \<Rightarrow> 'k walk \<Rightarrow> vpath" where
  "mounted_root E m S = \<lparr>p_mnt = Some m, p_dentry = Some (mnt_root (w_mount E (world S) m))\<rparr>"

text \<open>\<open>lookup_mnt\<close> returns a mount with a reference.\<close>

definition lookup_mnt :: "('k, 'a) walk_env \<Rightarrow> vpath \<Rightarrow> 'k walk \<Rightarrow> nat option \<times> 'k walk" where
  "lookup_mnt E path S = (let (m, S) = kop (k_lookup_mnt E path) S in (m, mntget m S))"

definition follow_up :: "('k, 'a) walk_env \<Rightarrow> vpath \<Rightarrow> 'k walk \<Rightarrow> (int \<times> vpath \<times> 'k walk) res" where
  "follow_up E path S =
     bind_res (null_ok (p_mnt path)) (\<lambda>m.
     let mnt = w_mount E (world S) m; parent = mnt_parent mnt in
     if parent = m then Inr (0, path, S)
     else let S = mntget (Some parent) S; mountpoint = mnt_mountpoint mnt; S = dget (Some mountpoint) S;
              S = dput (p_dentry path) S; S = mntput (p_mnt path) S in
          Inr (1, \<lparr>p_mnt = Some parent, p_dentry = Some mountpoint\<rparr>, S))"

text \<open>
  \<open>finish_automount\<close> may move the path to a mount that appeared meanwhile; the references move with
  it. When it succeeds one reference to the new mount is left for the walk.
\<close>

definition finish_automount :: "('k, 'a) walk_env \<Rightarrow> nat \<Rightarrow> vpath \<Rightarrow> 'k walk \<Rightarrow> int \<times> vpath \<times> 'k walk" where
  "finish_automount E m path S =
     (let ((err, path'), S) = kop (k_finish_automount E m path) S;
          S = path_get path' (path_put path S) in
      (err, path', if err = 0 then mntget (Some m) S else S))"

definition follow_automount ::
  "('k, 'a) walk_env \<Rightarrow> vpath \<Rightarrow> bool \<Rightarrow> 'k walk \<Rightarrow> (int \<times> vpath \<times> bool \<times> 'k walk) res" where
  "follow_automount E path need_mntput S =
     bind_res (null_ok (p_dentry path)) (\<lambda>d.
     let dv = w_dentry E (world S) d in
     if \<not> kd_has_automount dv then Inr (- EREMOTE, path, need_mntput, S)
     else if nd_flags S AND (LOOKUP_PARENT OR LOOKUP_DIRECTORY OR LOOKUP_OPEN OR LOOKUP_CREATE OR LOOKUP_AUTOMOUNT) = 0 \<and> kd_inode dv \<noteq> None
     then Inr (- EISDIR, path, need_mntput, S)
     else let S = S\<lparr>nd_total_link_count := nd_total_link_count S + 1\<rparr> in
     if nd_total_link_count S \<ge> 40 then Inr (- ELOOP, path, need_mntput, S)
     else let (mnt, S) = kop (k_d_automount E path) S in
     (case mnt of
        AutoErr e \<Rightarrow> Inr (if e = - EISDIR \<and> nd_flags S AND LOOKUP_PARENT \<noteq> 0 then - EREMOTE else e, path, need_mntput, S)
      | AutoNull \<Rightarrow> Inr (0, path, need_mntput, S)
      | AutoMount m \<Rightarrow>
          let S = (if \<not> need_mntput then mntget (p_mnt path) S else S); (err, path, S) = finish_automount E m path S in
          if err = - EBUSY then Inr (0, path, True, S)
          else if err = 0
          then let S = path_put path S; S = dget (Some (mnt_root (w_mount E (world S) m))) S in Inr (0, mounted_root E m S, True, S)
          else Inr (err, path, True, S)))"

text \<open>The loop of \<open>follow_managed\<close>; it ends with the return value, the path and \<open>need_mntput\<close>.\<close>

fun managed_loop ::
  "('k, 'a) walk_env \<Rightarrow> nat \<Rightarrow> int \<Rightarrow> vpath \<Rightarrow> bool \<Rightarrow> 'k walk \<Rightarrow> (int \<times> vpath \<times> bool \<times> 'k walk) res" where
  "managed_loop E 0 ret path need_mntput S = Inl Livelock"
| "managed_loop E (Suc n) ret path need_mntput S =
     bind_res (null_ok (p_dentry path)) (\<lambda>d.
     let managed = w_dentry E (world S) d in
     if \<not> kd_manage_transit managed \<and> \<not> kd_mounted managed \<and> \<not> kd_need_automount managed then Inr (ret, path, need_mntput, S)
     else if kd_manage_transit managed \<and> \<not> kd_has_manage managed then Inl KernelBug
     else let (ret, S) = (if kd_manage_transit managed then kop (k_d_manage E path False) S else (ret, S)) in
     if kd_manage_transit managed \<and> ret < 0 then Inr (ret, path, need_mntput, S)
     else let (mounted, S) = (if kd_mounted managed then lookup_mnt E path S else (None, S)) in
     (case mounted of
        Some m \<Rightarrow>
          let S = dput (p_dentry path) S; S = (if need_mntput then mntput (p_mnt path) S else S); path = mounted_root E m S;
              S = dget (p_dentry path) S in
          managed_loop E n ret path True S
      | None \<Rightarrow>
          if kd_need_automount managed
          then bind_res (follow_automount E path need_mntput S) (\<lambda>(ret, path, need_mntput, S).
               if ret < 0 then Inr (ret, path, need_mntput, S) else managed_loop E n ret path need_mntput S)
          else Inr (ret, path, need_mntput, S)))"

definition follow_managed :: "('k, 'a) walk_env \<Rightarrow> vpath \<Rightarrow> 'k walk \<Rightarrow> (int \<times> vpath \<times> 'k walk) res" where
  "follow_managed E path S =
     (let mnt = p_mnt path in
      bind_res (managed_loop E (w_fuel E) 0 path False S) (\<lambda>(ret, path, need_mntput, S).
      let S = (if need_mntput \<and> p_mnt path = mnt then mntput (p_mnt path) S else S);
          ret = (if ret = - EISDIR \<or> ret = 0 then 1 else ret);
          S = (if need_mntput then S\<lparr>nd_flags := nd_flags S OR LOOKUP_JUMPED\<rparr> else S);
          S = (if ret < 0 then path_put_conditional path S else S) in
      Inr (ret, path, S)))"

definition follow_down_one :: "('k, 'a) walk_env \<Rightarrow> vpath \<Rightarrow> 'k walk \<Rightarrow> int \<times> vpath \<times> 'k walk" where
  "follow_down_one E path S =
     (let (mounted, S) = lookup_mnt E path S in
      case mounted of
        None \<Rightarrow> (0, path, S)
      | Some m \<Rightarrow>
          let S = dput (p_dentry path) S; S = mntput (p_mnt path) S; path = mounted_root E m S in (1, path, dget (p_dentry path) S))"

definition managed_dentry_rcu :: "('k, 'a) walk_env \<Rightarrow> vpath \<Rightarrow> nat \<Rightarrow> 'k walk \<Rightarrow> int \<times> 'k walk" where
  "managed_dentry_rcu E path d S = (if kd_manage_transit (w_dentry E (world S) d) then kop (k_d_manage E path True) S else (0, S))"

text \<open>Returns whether the walk may go on in RCU mode, with the path, its inode and sequence number.\<close>

fun follow_mount_rcu ::
  "('k, 'a) walk_env \<Rightarrow> nat \<Rightarrow> vpath \<Rightarrow> nat option \<Rightarrow> u32 \<Rightarrow> 'k walk \<Rightarrow> (bool \<times> vpath \<times> nat option \<times> u32 \<times> 'k walk) res" where
  "follow_mount_rcu E 0 path inode seq S = Inl Livelock"
| "follow_mount_rcu E (Suc n) path inode seq S =
     bind_res (null_ok (p_dentry path)) (\<lambda>d.
     let (r, S) = managed_dentry_rcu E path d S in
     if r = - EISDIR then Inr (True, path, inode, seq, S)
     else if r \<noteq> 0 then Inr (False, path, inode, seq, S)
     else let dv = w_dentry E (world S) d in
     if \<not> kd_mounted dv then Inr (\<not> kd_need_automount dv, path, inode, seq, S)
     else let (mounted, S) = kop (k_lookup_mnt_rcu E path) S in
     (case mounted of
        None \<Rightarrow>
          let (again, S) = kop (k_mount_seq_retry E (nd_m_seq S)) S in
          Inr (\<not> again \<and> \<not> kd_need_automount (w_dentry E (world S) d), path, inode, seq, S)
      | Some m \<Rightarrow>
          let path = mounted_root E m S; S = S\<lparr>nd_flags := nd_flags S OR LOOKUP_JUMPED\<rparr>;
              r = mnt_root (w_mount E (world S) m); (seq, S) = kop (k_d_seq_begin E r) S in
          follow_mount_rcu E n path (kd_inode (w_dentry E (world S) r)) seq S))"

section \<open>Going up\<close>

definition path_connected :: "('k, 'a) walk_env \<Rightarrow> vpath \<Rightarrow> 'k walk \<Rightarrow> (bool \<times> 'k walk) res" where
  "path_connected E path S =
     bind_res (null_ok (p_mnt path)) (\<lambda>m.
     let mnt = w_mount E (world S) m in
     if \<not> mnt_sb_multiroot mnt \<and> mnt_root mnt = mnt_sb_root mnt then Inr (True, S)
     else bind_res (null_ok (p_dentry path)) (\<lambda>d. Inr (kop (k_is_subdir E d (mnt_root mnt)) S)))"

text \<open>The two loops of \<open>follow_dotdot_rcu\<close>: up to a parent, and down again through mounts.\<close>

fun dotdot_up_rcu :: "('k, 'a) walk_env \<Rightarrow> nat \<Rightarrow> nat option \<Rightarrow> 'k walk \<Rightarrow> (int \<times> nat option \<times> 'k walk) res" where
  "dotdot_up_rcu E 0 inode S = Inl Livelock"
| "dotdot_up_rcu E (Suc n) inode S =
     (if nd_path S = nd_root S then Inr (0, inode, S)
      else bind_res (null_ok (p_mnt (nd_path S))) (\<lambda>m.
      let mnt = w_mount E (world S) m in
      if p_dentry (nd_path S) \<noteq> Some (mnt_root mnt)
      then bind_res (null_ok (p_dentry (nd_path S))) (\<lambda>old.
           let parent = kd_parent (w_dentry E (world S) old); inode = kd_inode (w_dentry E (world S) parent);
               (seq, S) = kop (k_d_seq_begin E parent) S; (again, S) = kop (k_d_seq_retry E old (nd_seq S)) S in
           if again then Inr (- ECHILD, inode, S)
           else let S = S\<lparr>nd_path := (nd_path S)\<lparr>p_dentry := Some parent\<rparr>, nd_seq := seq\<rparr> in
           bind_res (path_connected E (nd_path S) S) (\<lambda>(ok, S).
           if \<not> ok then Inr (- ENOENT, inode, S) else Inr (0, inode, S)))
      else let mparent = mnt_parent mnt; mountpoint = mnt_mountpoint mnt; inode2 = kd_inode (w_dentry E (world S) mountpoint);
               (seq, S) = kop (k_d_seq_begin E mountpoint) S; (again, S) = kop (k_mount_seq_retry E (nd_m_seq S)) S in
           if again then Inr (- ECHILD, inode, S)
           else if mparent = m then Inr (0, inode, S)
           else dotdot_up_rcu E n inode2 (S\<lparr>nd_path := \<lparr>p_mnt = Some mparent, p_dentry = Some mountpoint\<rparr>, nd_seq := seq\<rparr>)))"

fun dotdot_down_rcu :: "('k, 'a) walk_env \<Rightarrow> nat \<Rightarrow> nat option \<Rightarrow> 'k walk \<Rightarrow> (int \<times> nat option \<times> 'k walk) res" where
  "dotdot_down_rcu E 0 inode S = Inl Livelock"
| "dotdot_down_rcu E (Suc n) inode S =
     bind_res (null_ok (p_dentry (nd_path S))) (\<lambda>d.
     if \<not> kd_mounted (w_dentry E (world S) d) then Inr (0, inode, S)
     else let (mounted, S) = kop (k_lookup_mnt_rcu E (nd_path S)) S; (again, S) = kop (k_mount_seq_retry E (nd_m_seq S)) S in
     if again then Inr (- ECHILD, inode, S)
     else case mounted of
       None \<Rightarrow> Inr (0, inode, S)
     | Some m \<Rightarrow>
         let S = S\<lparr>nd_path := mounted_root E m S\<rparr>; r = mnt_root (w_mount E (world S) m);
             inode = kd_inode (w_dentry E (world S) r); (seq, S) = kop (k_d_seq_begin E r) S in
         dotdot_down_rcu E n inode (S\<lparr>nd_seq := seq\<rparr>))"

definition follow_dotdot_rcu :: "('k, 'a) walk_env \<Rightarrow> 'k walk \<Rightarrow> (int \<times> 'k walk) res" where
  "follow_dotdot_rcu E S =
     bind_res (dotdot_up_rcu E (w_fuel E) (nd_inode S) S) (\<lambda>(err, inode, S).
     if err \<noteq> 0 then Inr (err, S)
     else bind_res (dotdot_down_rcu E (w_fuel E) inode S) (\<lambda>(err, inode, S).
     if err \<noteq> 0 then Inr (err, S) else Inr (0, S\<lparr>nd_inode := inode\<rparr>)))"

text \<open>\<open>follow_down\<close> is for callers outside this file; \<open>follow_mount\<close> is the loop of \<open>follow_dotdot\<close>.\<close>

fun follow_down :: "('k, 'a) walk_env \<Rightarrow> nat \<Rightarrow> vpath \<Rightarrow> 'k walk \<Rightarrow> (int \<times> vpath \<times> 'k walk) res" where
  "follow_down E 0 path S = Inl Livelock"
| "follow_down E (Suc n) path S =
     bind_res (null_ok (p_dentry path)) (\<lambda>d.
     let managed = w_dentry E (world S) d in
     if \<not> kd_manage_transit managed \<and> \<not> kd_mounted managed \<and> \<not> kd_need_automount managed then Inr (0, path, S)
     else if kd_manage_transit managed \<and> \<not> kd_has_manage managed then Inl KernelBug
     else let (ret, S) = (if kd_manage_transit managed then kop (k_d_manage E path False) S else (0, S)) in
     if ret < 0 then Inr (if ret = - EISDIR then 0 else ret, path, S)
     else if \<not> kd_mounted managed then Inr (0, path, S)
     else let (mounted, S) = lookup_mnt E path S in
     case mounted of
       None \<Rightarrow> Inr (0, path, S)
     | Some m \<Rightarrow>
         let S = dput (p_dentry path) S; S = mntput (p_mnt path) S; path = mounted_root E m S in
         follow_down E n path (dget (p_dentry path) S))"

fun follow_mount :: "('k, 'a) walk_env \<Rightarrow> nat \<Rightarrow> vpath \<Rightarrow> 'k walk \<Rightarrow> (vpath \<times> 'k walk) res" where
  "follow_mount E 0 path S = Inl Livelock"
| "follow_mount E (Suc n) path S =
     bind_res (null_ok (p_dentry path)) (\<lambda>d.
     if \<not> kd_mounted (w_dentry E (world S) d) then Inr (path, S)
     else let (mounted, S) = lookup_mnt E path S in
     case mounted of
       None \<Rightarrow> Inr (path, S)
     | Some m \<Rightarrow>
         let S = dput (p_dentry path) S; S = mntput (p_mnt path) S; path = mounted_root E m S in
         follow_mount E n path (dget (p_dentry path) S))"

definition path_parent_directory :: "('k, 'a) walk_env \<Rightarrow> vpath \<Rightarrow> 'k walk \<Rightarrow> (int \<times> vpath \<times> 'k walk) res" where
  "path_parent_directory E path S =
     bind_res (null_ok (p_dentry path)) (\<lambda>old.
     let (parent, S) = kop (k_dget_parent E old) S; S = dget (Some parent) S; path = path\<lparr>p_dentry := Some parent\<rparr>;
         S = dput (Some old) S in
     bind_res (path_connected E path S) (\<lambda>(ok, S). Inr (if \<not> ok then - ENOENT else 0, path, S)))"

fun dotdot_up :: "('k, 'a) walk_env \<Rightarrow> nat \<Rightarrow> 'k walk \<Rightarrow> (int \<times> 'k walk) res" where
  "dotdot_up E 0 S = Inl Livelock"
| "dotdot_up E (Suc n) S =
     (if nd_path S = nd_root S then Inr (0, S)
      else bind_res (null_ok (p_mnt (nd_path S))) (\<lambda>m.
      if p_dentry (nd_path S) \<noteq> Some (mnt_root (w_mount E (world S) m))
      then bind_res (path_parent_directory E (nd_path S) S) (\<lambda>(ret, path, S). Inr (ret, S\<lparr>nd_path := path\<rparr>))
      else bind_res (follow_up E (nd_path S) S) (\<lambda>(r, path, S).
           let S = S\<lparr>nd_path := path\<rparr> in if r = 0 then Inr (0, S) else dotdot_up E n S)))"

definition follow_dotdot :: "('k, 'a) walk_env \<Rightarrow> 'k walk \<Rightarrow> (int \<times> 'k walk) res" where
  "follow_dotdot E S =
     bind_res (dotdot_up E (w_fuel E) S) (\<lambda>(ret, S).
     if ret \<noteq> 0 then Inr (ret, S)
     else bind_res (follow_mount E (w_fuel E) (nd_path S) S) (\<lambda>(path, S).
     bind_res (null_ok (p_dentry path)) (\<lambda>d.
     Inr (0, S\<lparr>nd_path := path, nd_inode := kd_inode (w_dentry E (world S) d)\<rparr>))))"

section \<open>Looking a component up\<close>

definition revalidate :: "('k, 'a) walk_env \<Rightarrow> nat \<Rightarrow> u32 \<Rightarrow> 'k walk \<Rightarrow> int \<times> 'k walk" where
  "revalidate E d flags S = (if kd_op_revalidate (w_dentry E (world S) d) then kop (k_d_revalidate E d flags) S else (1, S))"

definition invalidate :: "('k, 'a) walk_env \<Rightarrow> nat \<Rightarrow> 'k walk \<Rightarrow> 'k walk" where
  "invalidate E d S = S\<lparr>world := k_d_invalidate E d (world S)\<rparr>"

text \<open>
  The end of \<open>lookup_fast\<close>, in reference mode: \<open>dentry\<close> holds a reference. The result is the return
  value, the path, the inode and the sequence number.
\<close>

definition lookup_fast_tail ::
  "('k, 'a) walk_env \<Rightarrow> vpath \<Rightarrow> nat option \<Rightarrow> u32 \<Rightarrow> nat \<Rightarrow> int \<Rightarrow> 'k walk \<Rightarrow> (int \<times> vpath \<times> nat option \<times> u32 \<times> 'k walk) res" where
  "lookup_fast_tail E path inode seq dentry status S =
     (if status \<le> 0
      then let S = (if status = 0 then invalidate E dentry S else S) in Inr (status, path, inode, seq, dput (Some dentry) S)
      else if kd_type (w_dentry E (world S) dentry) = MissType then Inr (- ENOENT, path, inode, seq, dput (Some dentry) S)
      else bind_res (follow_managed E \<lparr>p_mnt = p_mnt (nd_path S), p_dentry = Some dentry\<rparr> S) (\<lambda>(err, path, S).
           bind_res (if err > 0 then bind_res (null_ok (p_dentry path)) (\<lambda>d. Inr (kd_inode (w_dentry E (world S) d))) else Inr inode) (\<lambda>inode.
           Inr (err, path, inode, seq, S))))"

definition lookup_fast :: "('k, 'a) walk_env \<Rightarrow> 'k walk \<Rightarrow> (int \<times> vpath \<times> nat option \<times> u32 \<times> 'k walk) res" where
  "lookup_fast E S =
     (let mnt = p_mnt (nd_path S); inode = None; seq = 0; path = null_path in
      bind_res (null_ok (p_dentry (nd_path S))) (\<lambda>parent.
      if in_rcu S
      then let (found, S) = kop (k_d_lookup_rcu E parent (nd_last_hash S) (nd_last_name S)) S in
           (case found of
              None \<Rightarrow>
                bind_res (unlazy_walk E S) (\<lambda>(err, S). Inr (if err \<noteq> 0 then - ECHILD else 0, path, inode, seq, S))
            | Some (dentry, seq) \<Rightarrow>
                let inode = kd_inode (w_dentry E (world S) dentry); negative = (kd_type (w_dentry E (world S) dentry) = MissType);
                    (again, S) = kop (k_d_seq_retry E dentry seq) S in
                if again then Inr (- ECHILD, path, inode, seq, S)
                else let (again, S) = kop (k_d_seq_retry E parent (nd_seq S)) S in
                if again then Inr (- ECHILD, path, inode, seq, S)
                else let dseq = seq; (status, S) = revalidate E dentry (nd_flags S) S in
                if status > 0 \<and> negative then Inr (- ENOENT, path, inode, seq, S)
                else bind_res (if status > 0 then follow_mount_rcu E (w_fuel E) \<lparr>p_mnt = mnt, p_dentry = Some dentry\<rparr> inode seq S
                               else Inr (False, path, inode, seq, S)) (\<lambda>(ok, path, inode, seq, S).
                if ok then Inr (1, path, inode, seq, S)
                else bind_res (unlazy_child E dentry dseq S) (\<lambda>(err, S).
                if err \<noteq> 0 then Inr (- ECHILD, path, inode, seq, S)
                else let (status, S) = (if status = - ECHILD then revalidate E dentry (nd_flags S) S else (status, S)) in
                     lookup_fast_tail E path inode seq dentry status S)))
      else let (found, S) = kop (k_d_lookup E parent (nd_last_hash S) (nd_last_name S)) S in
           (case found of
              None \<Rightarrow> Inr (0, path, inode, seq, S)
            | Some dentry \<Rightarrow>
                let S = dget (Some dentry) S; (status, S) = revalidate E dentry (nd_flags S) S in
                lookup_fast_tail E path inode seq dentry status S)))"

text \<open>\<open>d_alloc_parallel\<close> and the \<open>lookup\<close> of the file system return counted dentries.\<close>

fun lookup_slow_loop :: "('k, 'a) walk_env \<Rightarrow> nat \<Rightarrow> nat \<Rightarrow> nat \<Rightarrow> u32 \<Rightarrow> 'k walk \<Rightarrow> ((int + nat) \<times> 'k walk) res" where
  "lookup_slow_loop E 0 dir inode flags S = Inl Livelock"
| "lookup_slow_loop E (Suc n) dir inode flags S =
     (let (r, S) = kop (k_d_alloc_parallel E dir (nd_last_hash S) (nd_last_name S)) S in
      case r of
        Inl e \<Rightarrow> Inr (Inl e, S)
      | Inr dentry \<Rightarrow>
          let S = dget (Some dentry) S in
          if \<not> k_d_in_lookup E (world S) dentry
          then if flags AND LOOKUP_NO_REVAL \<noteq> 0 then Inr (Inr dentry, S)
               else let (error, S) = revalidate E dentry flags S in
                    if error > 0 then Inr (Inr dentry, S)
                    else if error = 0 then lookup_slow_loop E n dir inode flags (dput (Some dentry) (invalidate E dentry S))
                    else Inr (Inl error, dput (Some dentry) S)
          else let (old, S) = kop (k_iop_lookup E inode dentry flags) S; S = S\<lparr>world := k_d_lookup_done E dentry (world S)\<rparr> in
               (case old of
                  LookedNull \<Rightarrow> Inr (Inr dentry, S)
                | LookedErr e \<Rightarrow> Inr (Inl e, dput (Some dentry) S)
                | LookedDentry d \<Rightarrow> Inr (Inr d, dput (Some dentry) (dget (Some d) S))))"

definition inode_lock_shared :: "nat \<Rightarrow> 'k walk \<Rightarrow> 'k walk" where
  "inode_lock_shared i S = S\<lparr>ishared := (ishared S)(i := ishared S i + 1)\<rparr>"

definition inode_unlock_shared :: "nat \<Rightarrow> 'k walk \<Rightarrow> 'k walk" where
  "inode_unlock_shared i S = S\<lparr>ishared := (ishared S)(i := ishared S i - 1)\<rparr>"

definition lookup_slow :: "('k, 'a) walk_env \<Rightarrow> nat \<Rightarrow> u32 \<Rightarrow> 'k walk \<Rightarrow> ((int + nat) \<times> 'k walk) res" where
  "lookup_slow E dir flags S =
     bind_res (null_ok (kd_inode (w_dentry E (world S) dir))) (\<lambda>inode.
     let S = inode_lock_shared inode S in
     bind_res (if IS_DEADDIR (w_inode E (world S) inode) then Inr (Inl (- ENOENT), S)
               else lookup_slow_loop E (w_fuel E) dir inode flags S) (\<lambda>(res, S).
     Inr (res, inode_unlock_shared inode S)))"

definition walk_permission :: "('k, 'a) walk_env \<Rightarrow> nat option \<Rightarrow> u32 \<Rightarrow> 'k walk \<Rightarrow> (int \<times> 'k walk) res" where
  "walk_permission E inode msk S =
     bind_res (null_ok inode) (\<lambda>i.
     let (r, v) = inode_permission (w_cred E) (w_inode E (world S) i) msk in
     Inr (r, S\<lparr>world := w_put_inode E i v (world S)\<rparr>))"

definition may_lookup :: "('k, 'a) walk_env \<Rightarrow> 'k walk \<Rightarrow> (int \<times> 'k walk) res" where
  "may_lookup E S =
     (if in_rcu S
      then bind_res (walk_permission E (nd_inode S) (MAY_EXEC OR MAY_NOT_BLOCK) S) (\<lambda>(err, S).
           if err \<noteq> - ECHILD then Inr (err, S)
           else bind_res (unlazy_walk E S) (\<lambda>(e, S).
                if e \<noteq> 0 then Inr (- ECHILD, S) else walk_permission E (nd_inode S) MAY_EXEC S))
      else walk_permission E (nd_inode S) MAY_EXEC S)"

definition handle_dots :: "('k, 'a) walk_env \<Rightarrow> last_type \<Rightarrow> 'k walk \<Rightarrow> (int \<times> 'k walk) res" where
  "handle_dots E type S =
     (if type = LAST_DOTDOT
      then bind_res (if p_mnt (nd_root S) = None then set_root E S else Inr S) (\<lambda>S.
           if in_rcu S then follow_dotdot_rcu E S else follow_dotdot E S)
      else Inr (0, S))"

section \<open>Links\<close>

definition pick_link_alloc :: "('k, 'a) walk_env \<Rightarrow> vpath \<Rightarrow> u32 \<Rightarrow> 'k walk \<Rightarrow> (int \<times> vpath \<times> 'k walk) res" where
  "pick_link_alloc E link seq S =
     (let (error, S) = nd_alloc_stack E S in
      if error = - ECHILD
      then bind_res (legitimize_path E link seq S) (\<lambda>(ok, link, S).
           if \<not> ok
           then bind_res (drop_links E S) (\<lambda>S.
                let S = clear_rcu (S\<lparr>nd_depth := 0\<rparr>) in
                Inr (error, link, rcu_read_unlock (drop_root (S\<lparr>nd_path := null_path\<rparr>))))
           else bind_res (unlazy_walk E S) (\<lambda>(e, S).
                if e = 0 then let (error, S) = nd_alloc_stack E S in Inr (error, link, S) else Inr (error, link, S)))
      else Inr (error, link, S))"

definition pick_link :: "('k, 'a) walk_env \<Rightarrow> vpath \<Rightarrow> nat option \<Rightarrow> u32 \<Rightarrow> 'k walk \<Rightarrow> (int \<times> 'k walk) res" where
  "pick_link E link inode seq S =
     (let count = nd_total_link_count S; S = S\<lparr>nd_total_link_count := count + 1\<rparr> in
      if count \<ge> int MAXSYMLINKS then Inr (- ELOOP, path_to_nameidata link S)
      else let S = (if \<not> in_rcu S \<and> p_mnt link = p_mnt (nd_path S) then mntget (p_mnt link) S else S) in
      bind_res (pick_link_alloc E link seq S) (\<lambda>(error, link, S).
      if error \<noteq> 0 then Inr (error, path_put link S)
      else let i = nd_depth S; S = S\<lparr>nd_depth := i + 1\<rparr> in
           bind_res (get_saved S i) (\<lambda>last.
           Inr (1, (put_saved i (last\<lparr>s_link := link, s_done := None, s_seq := seq\<rparr>) S)\<lparr>nd_link_inode := inode\<rparr>))))"

text \<open>\<open>follow\<close> and \<open>walk_more\<close> are the flags \<open>WALK_FOLLOW\<close> and \<open>WALK_MORE\<close>.\<close>

definition step_into ::
  "('k, 'a) walk_env \<Rightarrow> bool \<Rightarrow> bool \<Rightarrow> vpath \<Rightarrow> nat option \<Rightarrow> u32 \<Rightarrow> 'k walk \<Rightarrow> (int \<times> 'k walk) res" where
  "step_into E follow walk_more path inode seq S =
     bind_res (if \<not> walk_more \<and> nd_depth S \<noteq> 0 then put_link E S else Inr S) (\<lambda>S.
     bind_res (null_ok (p_dentry path)) (\<lambda>d.
     if kd_type (w_dentry E (world S) d) \<noteq> SymlinkType \<or> \<not> (follow \<or> nd_flags S AND LOOKUP_FOLLOW \<noteq> 0)
     then Inr (0, (path_to_nameidata path S)\<lparr>nd_inode := inode, nd_seq := seq\<rparr>)
     else if in_rcu S
     then let (again, S) = kop (k_d_seq_retry E d seq) S in
          if again then Inr (- ECHILD, S) else pick_link E path inode seq S
     else pick_link E path inode seq S))"

definition walk_component :: "('k, 'a) walk_env \<Rightarrow> bool \<Rightarrow> bool \<Rightarrow> 'k walk \<Rightarrow> (int \<times> 'k walk) res" where
  "walk_component E follow walk_more S =
     (if nd_last_type S \<noteq> LAST_NORM
      then bind_res (handle_dots E (nd_last_type S) S) (\<lambda>(err, S).
           bind_res (if \<not> walk_more \<and> nd_depth S \<noteq> 0 then put_link E S else Inr S) (\<lambda>S. Inr (err, S)))
      else bind_res (lookup_fast E S) (\<lambda>(err, path, inode, seq, S).
           if err < 0 then Inr (err, S)
           else if err > 0 then step_into E follow walk_more path inode seq S
           else bind_res (null_ok (p_dentry (nd_path S))) (\<lambda>dir.
                bind_res (lookup_slow E dir (nd_flags S) S) (\<lambda>(r, S).
                case r of
                  Inl e \<Rightarrow> Inr (e, S)
                | Inr dentry \<Rightarrow>
                    bind_res (follow_managed E \<lparr>p_mnt = p_mnt (nd_path S), p_dentry = Some dentry\<rparr> S) (\<lambda>(err, path, S).
                    if err < 0 then Inr (err, S)
                    else bind_res (null_ok (p_dentry path)) (\<lambda>d.
                         if kd_type (w_dentry E (world S) d) = MissType then Inr (- ENOENT, path_to_nameidata path S)
                         else step_into E follow walk_more path (kd_inode (w_dentry E (world S) d)) 0 S))))))"

end
