(* ===== verification/Path_Walk.thy ===== *)
theory Path_Walk
  imports Walk_Step
begin

text \<open>
  Name resolution (\<open>extra/namei.c\<close>): following links, the loop over the components of a name, where a
  walk starts and how it ends, and the retries of \<open>filename_lookup\<close> and \<open>filename_parentat\<close>. A name is
  the list of bytes from the pointer to the end of the string, the NUL included; reading past it is
  out of bounds. A pointer that may carry an error code is an \<open>int + bytes\<close>.

  The auditing calls and the count of the \<open>struct filename\<close> do not influence the walk and are left out.
\<close>

section \<open>Strings\<close>

definition char_at :: "bytes \<Rightarrow> u8 res" where
  "char_at s = (case s of [] \<Rightarrow> Inl OutOfBounds | c # _ \<Rightarrow> Inr c)"

definition advance :: "nat \<Rightarrow> bytes \<Rightarrow> bytes res" where
  "advance n s = (if n \<le> length s then Inr (drop n s) else Inl OutOfBounds)"

fun skip_slashes :: "bytes \<Rightarrow> bytes res" where
  "skip_slashes [] = Inl OutOfBounds"
| "skip_slashes (c # s) = (if c = 47 then skip_slashes s else Inr (c # s))"

definition hashlen_len :: "u64 \<Rightarrow> nat" where
  "hashlen_len h = unat (drop_bit 32 h)"

section \<open>Following a link\<close>

text \<open>
  The \<open>get_link\<close> of the file system: it may call \<open>nd_jump_link\<close> with a path it has taken a reference
  to, and it may leave a call to be made when the body of the link is no longer needed.
\<close>

definition call_get_link ::
  "('k, 'a) walk_env \<Rightarrow> nat option \<Rightarrow> nat \<Rightarrow> 'k walk \<Rightarrow> (link_res \<times> 'k walk) res" where
  "call_get_link E dentry inode S =
     (let ((res, jump, delayed), S) = kop (k_get_link E dentry inode) S in
      bind_res (case jump of None \<Rightarrow> Inr S | Some p \<Rightarrow> nd_jump_link E p (path_get p S)) (\<lambda>S.
      case delayed of
        None \<Rightarrow> Inr (res, S)
      | Some h \<Rightarrow> bind_res (get_saved S (nd_depth S - 1)) (\<lambda>last. Inr (res, put_saved (nd_depth S - 1) (last\<lparr>s_done := Some h\<rparr>) S))))"

definition touch_atime :: "('k, 'a) walk_env \<Rightarrow> vpath \<Rightarrow> 'k walk \<Rightarrow> 'k walk" where
  "touch_atime E path S = S\<lparr>world := k_touch_atime E path (world S)\<rparr>"

definition link_atime :: "('k, 'a) walk_env \<Rightarrow> vpath \<Rightarrow> nat \<Rightarrow> 'k walk \<Rightarrow> (int \<times> 'k walk) res" where
  "link_atime E link inode S =
     (if \<not> in_rcu S then Inr (0, touch_atime E link S)
      else let (update, S) = kop (k_atime_needs_update E link inode) S in
      if \<not> update then Inr (0, S)
      else bind_res (unlazy_walk E S) (\<lambda>(e, S). if e \<noteq> 0 then Inr (- ECHILD, S) else Inr (0, touch_atime E link S)))"

definition link_body :: "('k, 'a) walk_env \<Rightarrow> nat \<Rightarrow> nat \<Rightarrow> 'k walk \<Rightarrow> (link_res \<times> 'k walk) res" where
  "link_body E dentry inode S =
     (case k_i_link E (world S) inode of
        Some s \<Rightarrow> Inr (LinkBody s, S)
      | None \<Rightarrow>
          if in_rcu S
          then bind_res (call_get_link E None inode S) (\<lambda>(res, S).
               if res = LinkErr (- ECHILD)
               then bind_res (unlazy_walk E S) (\<lambda>(e, S).
                    if e \<noteq> 0 then Inr (LinkErr (- ECHILD), S) else call_get_link E (Some dentry) inode S)
               else Inr (res, S))
          else call_get_link E (Some dentry) inode S)"

text \<open>What \<open>get_link\<close> does with a body that is there: an absolute one starts at the root.\<close>

definition link_start :: "('k, 'a) walk_env \<Rightarrow> bytes \<Rightarrow> 'k walk \<Rightarrow> (link_res \<times> 'k walk) res" where
  "link_start E s S =
     bind_res (char_at s) (\<lambda>c.
     bind_res
       (if c = 47
        then bind_res (if p_mnt (nd_root S) = None then set_root E S else Inr S) (\<lambda>S.
             bind_res (nd_jump_root E S) (\<lambda>(e, S).
             if e \<noteq> 0 then Inr (Inl (- ECHILD), S) else bind_res (skip_slashes s) (\<lambda>s. Inr (Inr s, S))))
        else Inr (Inr s, S)) (\<lambda>(r, S).
     case r of
       Inl e \<Rightarrow> Inr (LinkErr e, S)
     | Inr s \<Rightarrow> bind_res (char_at s) (\<lambda>c. Inr (if c = 0 then LinkNull else LinkBody s, S))))"

definition get_link :: "('k, 'a) walk_env \<Rightarrow> 'k walk \<Rightarrow> (link_res \<times> 'k walk) res" where
  "get_link E S =
     (if nd_depth S = 0 then Inl OutOfBounds
      else bind_res (get_saved S (nd_depth S - 1)) (\<lambda>last.
      bind_res (null_ok (p_dentry (s_link last))) (\<lambda>dentry.
      bind_res (null_ok (nd_link_inode S)) (\<lambda>inode.
      bind_res (link_atime E (s_link last) inode S) (\<lambda>(e, S).
      if e \<noteq> 0 then Inr (LinkErr e, S)
      else let (error, S) = kop (k_follow_link E dentry inode (in_rcu S)) S in
      if error \<noteq> 0 then Inr (LinkErr error, S)
      else bind_res (link_body E dentry inode (S\<lparr>nd_last_type := LAST_BIND\<rparr>)) (\<lambda>(res, S).
           case res of LinkBody s \<Rightarrow> link_start E s S | _ \<Rightarrow> Inr (res, S)))))))"

section \<open>The components of a name\<close>

definition component_type :: "bytes \<Rightarrow> nat \<Rightarrow> last_type res" where
  "component_type name len =
     bind_res (char_at name) (\<lambda>c.
     if c = 46 \<and> len = 2 then bind_res (char_at (tl name)) (\<lambda>c. Inr (if c = 46 then LAST_DOTDOT else LAST_NORM))
     else Inr (if c = 46 \<and> len = 1 then LAST_DOT else LAST_NORM))"

text \<open>\<open>..\<close> marks the walk as jumped; an ordinary component clears the mark and may be hashed anew.\<close>

definition classify ::
  "('k, 'a) walk_env \<Rightarrow> last_type \<Rightarrow> bytes \<Rightarrow> u64 \<Rightarrow> 'k walk \<Rightarrow> (int \<times> u64 \<times> bytes \<times> 'k walk) res" where
  "classify E type name hash_len S =
     (if type = LAST_DOTDOT then Inr (0, hash_len, name, S\<lparr>nd_flags := nd_flags S OR LOOKUP_JUMPED\<rparr>)
      else if type = LAST_DOT then Inr (0, hash_len, name, S)
      else let S = S\<lparr>nd_flags := nd_flags S AND NOT LOOKUP_JUMPED\<rparr> in
           bind_res (null_ok (p_dentry (nd_path S))) (\<lambda>parent.
           if \<not> kd_op_hash (w_dentry E (world S) parent) then Inr (0, hash_len, name, S)
           else let ((err, hash_len, name), S) = kop (k_d_hash E parent hash_len name) S in Inr (err, hash_len, name, S)))"

text \<open>
  The first half of a round of \<open>link_path_walk\<close>: the component goes to \<open>nd->last\<close>, and the result is
  the return value of the round if it ends the walk and the rest of the name.
\<close>

definition next_component :: "('k, 'a) walk_env \<Rightarrow> bytes \<Rightarrow> 'k walk \<Rightarrow> (int \<times> bytes \<times> 'k walk) res" where
  "next_component E name S =
     bind_res (may_lookup E S) (\<lambda>(err, S).
     if err \<noteq> 0 then Inr (err, name, S)
     else bind_res (k_hash_name E (case p_dentry (nd_path S) of None \<Rightarrow> 0 | Some d \<Rightarrow> of_nat d) name) (\<lambda>hash_len.
     bind_res (component_type name (hashlen_len hash_len)) (\<lambda>type.
     bind_res (classify E type name hash_len S) (\<lambda>(err, hash_len, name, S).
     if err < 0 then Inr (err, name, S)
     else let S = S\<lparr>nd_last_hash := hash_len, nd_last_name := name, nd_last_type := type\<rparr> in
     bind_res (advance (hashlen_len hash_len) name) (\<lambda>name.
     bind_res (char_at name) (\<lambda>c.
     bind_res (if c = 0 then Inr name else skip_slashes (tl name)) (\<lambda>name. Inr (0, name, S))))))))"

text \<open>The second half: the component is walked into unless it is the last one; \<open>Inl\<close> ends the walk.\<close>

definition check_dir :: "('k, 'a) walk_env \<Rightarrow> bytes \<Rightarrow> 'k walk \<Rightarrow> ((int + bytes) \<times> 'k walk) res" where
  "check_dir E name S =
     bind_res (null_ok (p_dentry (nd_path S))) (\<lambda>d.
     if kd_type (w_dentry E (world S) d) = DirectoryType then Inr (Inr name, S)
     else if in_rcu S
     then bind_res (unlazy_walk E S) (\<lambda>(e, S). Inr (Inl (if e \<noteq> 0 then - ECHILD else - ENOTDIR), S))
     else Inr (Inl (- ENOTDIR), S))"

definition enter_component :: "('k, 'a) walk_env \<Rightarrow> bool \<Rightarrow> bytes \<Rightarrow> 'k walk \<Rightarrow> ((int + bytes) \<times> 'k walk) res" where
  "enter_component E walk_more name S =
     bind_res (walk_component E True walk_more S) (\<lambda>(err, S).
     if err < 0 then Inr (Inl err, S)
     else if err = 0 then check_dir E name S
     else bind_res (get_link E S) (\<lambda>(s, S).
          case s of
            LinkErr e \<Rightarrow> Inr (Inl e, S)
          | LinkNull \<Rightarrow> bind_res (put_link E S) (\<lambda>S. check_dir E name S)
          | LinkBody s \<Rightarrow>
              bind_res (get_saved S (nd_depth S - 1)) (\<lambda>last.
              Inr (Inr s, put_saved (nd_depth S - 1) (last\<lparr>s_name := Some name\<rparr>) S))))"

definition walk_round :: "('k, 'a) walk_env \<Rightarrow> bytes \<Rightarrow> 'k walk \<Rightarrow> ((int + bytes) \<times> 'k walk) res" where
  "walk_round E name S =
     bind_res (next_component E name S) (\<lambda>(err, name, S).
     if err \<noteq> 0 then Inr (Inl err, S)
     else bind_res (char_at name) (\<lambda>c.
     if c \<noteq> 0 then enter_component E True name S
     else if nd_depth S = 0 then Inr (Inl 0, S)
     else bind_res (get_saved S (nd_depth S - 1)) (\<lambda>last.
     case s_name last of None \<Rightarrow> Inr (Inl 0, S) | Some name \<Rightarrow> enter_component E False name S)))"

fun walk_loop :: "('k, 'a) walk_env \<Rightarrow> nat \<Rightarrow> bytes \<Rightarrow> 'k walk \<Rightarrow> (int \<times> 'k walk) res" where
  "walk_loop E 0 name S = Inl OutOfFuel"
| "walk_loop E (Suc n) name S =
     bind_res (walk_round E name S) (\<lambda>(r, S). case r of Inl err \<Rightarrow> Inr (err, S) | Inr name \<Rightarrow> walk_loop E n name S)"

definition link_path_walk :: "('k, 'a) walk_env \<Rightarrow> int + bytes \<Rightarrow> 'k walk \<Rightarrow> (int \<times> 'k walk) res" where
  "link_path_walk E name S =
     (case name of
        Inl e \<Rightarrow> Inr (e, S)
      | Inr s \<Rightarrow>
          bind_res (skip_slashes s) (\<lambda>s.
          bind_res (char_at s) (\<lambda>c. if c = 0 then Inr (0, S) else walk_loop E (w_fuel E) s S)))"

section \<open>The start of a walk\<close>

fun pwd_rcu :: "('k, 'a) walk_env \<Rightarrow> nat \<Rightarrow> 'k walk \<Rightarrow> 'k walk res" where
  "pwd_rcu E 0 S = Inl Livelock"
| "pwd_rcu E (Suc n) S =
     (let S = S\<lparr>nd_path := k_fs_pwd E (world S)\<rparr> in
      bind_res (null_ok (p_dentry (nd_path S))) (\<lambda>d.
      let S = S\<lparr>nd_inode := kd_inode (w_dentry E (world S) d)\<rparr>; (seq, S) = kop (k_d_seq_begin E d) S; S = S\<lparr>nd_seq := seq\<rparr>;
          (again, S) = kop (k_fs_seq_retry E) S in
      if again then pwd_rcu E n S else Inr S))"

definition path_init_root :: "('k, 'a) walk_env \<Rightarrow> u32 \<Rightarrow> bytes \<Rightarrow> u8 \<Rightarrow> 'k walk \<Rightarrow> ((int + bytes) \<times> 'k walk) res" where
  "path_init_root E flags s c S =
     bind_res (null_ok (p_dentry (nd_root S))) (\<lambda>root.
     let inode = kd_inode (w_dentry E (world S) root) in
     if c \<noteq> 0 \<and> kd_type (w_dentry E (world S) root) \<noteq> DirectoryType then Inr (Inl (- ENOTDIR), S)
     else let S = S\<lparr>nd_path := nd_root S, nd_inode := inode\<rparr> in
     if flags AND LOOKUP_RCU \<noteq> 0
     then let (seq, S) = kop (k_d_seq_begin E root) S; (m_seq, S) = kop (k_mount_seq_begin E) S in
          Inr (Inr s, S\<lparr>nd_seq := seq, nd_root_seq := seq, nd_m_seq := m_seq\<rparr>)
     else Inr (Inr s, path_get (nd_path S) S))"

definition path_init_fd :: "('k, 'a) walk_env \<Rightarrow> u32 \<Rightarrow> bytes \<Rightarrow> u8 \<Rightarrow> 'k walk \<Rightarrow> ((int + bytes) \<times> 'k walk) res" where
  "path_init_fd E flags s c S =
     (case k_fd E (world S) (nd_dfd S) of
        None \<Rightarrow> Inr (Inl (- EBADF), S)
      | Some path \<Rightarrow>
          bind_res (null_ok (p_dentry path)) (\<lambda>d.
          if c \<noteq> 0 \<and> kd_type (w_dentry E (world S) d) \<noteq> DirectoryType then Inr (Inl (- ENOTDIR), S)
          else let S = S\<lparr>nd_path := path, nd_inode := kd_inode (w_dentry E (world S) d)\<rparr> in
          if flags AND LOOKUP_RCU \<noteq> 0 then let (seq, S) = kop (k_d_seq_begin E d) S in Inr (Inr s, S\<lparr>nd_seq := seq\<rparr>)
          else Inr (Inr s, path_get path S)))"

definition path_init_cwd :: "('k, 'a) walk_env \<Rightarrow> u32 \<Rightarrow> bytes \<Rightarrow> 'k walk \<Rightarrow> ((int + bytes) \<times> 'k walk) res" where
  "path_init_cwd E flags s S =
     (if flags AND LOOKUP_RCU \<noteq> 0 then bind_res (pwd_rcu E (w_fuel E) S) (\<lambda>S. Inr (Inr s, S))
      else let pwd = k_fs_pwd E (world S); S = path_get pwd (S\<lparr>nd_path := pwd\<rparr>) in
           bind_res (null_ok (p_dentry pwd)) (\<lambda>d. Inr (Inr s, S\<lparr>nd_inode := kd_inode (w_dentry E (world S) d)\<rparr>)))"

definition path_init :: "('k, 'a) walk_env \<Rightarrow> u32 \<Rightarrow> 'k walk \<Rightarrow> ((int + bytes) \<times> 'k walk) res" where
  "path_init E flags S =
     (let s = nd_name S in
      bind_res (char_at s) (\<lambda>c.
      let flags = (if c = 0 then flags AND NOT LOOKUP_RCU else flags);
          S = (if flags AND LOOKUP_RCU \<noteq> 0 then rcu_read_lock S else S);
          S = S\<lparr>nd_last_type := LAST_ROOT, nd_flags := flags OR LOOKUP_JUMPED OR LOOKUP_PARENT, nd_depth := 0\<rparr> in
      if flags AND LOOKUP_ROOT \<noteq> 0 then path_init_root E flags s c S
      else let S = S\<lparr>nd_root := (nd_root S)\<lparr>p_mnt := None\<rparr>, nd_path := null_path\<rparr>;
               (m_seq, S) = kop (k_mount_seq_begin E) S; S = S\<lparr>nd_m_seq := m_seq\<rparr> in
      if c = 47
      then bind_res (set_root E S) (\<lambda>S. bind_res (nd_jump_root E S) (\<lambda>(e, S). Inr (if e = 0 then Inr s else Inl (- ECHILD), S)))
      else if nd_dfd S = AT_FDCWD then path_init_cwd E flags s S
      else path_init_fd E flags s c S))"

section \<open>The end of a walk\<close>

text \<open>\<open>may_follow_link\<close> reads the inode of the link first, and its parent only if the owners differ.\<close>

definition follow_link_allowed :: "('k, 'a) walk_env \<Rightarrow> 'k walk \<Rightarrow> int res" where
  "follow_link_allowed E S =
     (if sysctl_protected_symlinks (w_cred E) = 0 then Inr 0
      else bind_res (null_ok (nd_link_inode S)) (\<lambda>i.
      if current_fsuid (w_cred E) = v_uid (w_inode E (world S) i) then Inr 0
      else bind_res (null_ok (nd_inode S)) (\<lambda>p.
           Inr (may_follow_link (w_cred E) (w_inode E (world S) p) (w_inode E (world S) i) (nd_flags S)))))"

definition trailing_symlink :: "('k, 'a) walk_env \<Rightarrow> 'k walk \<Rightarrow> ((int + bytes) \<times> 'k walk) res" where
  "trailing_symlink E S =
     bind_res (follow_link_allowed E S) (\<lambda>error.
     if error \<noteq> 0 then Inr (Inl error, S)
     else let S = S\<lparr>nd_flags := nd_flags S OR LOOKUP_PARENT\<rparr> in
     bind_res (get_saved S 0) (\<lambda>first.
     bind_res (get_link E (put_saved 0 (first\<lparr>s_name := None\<rparr>) S)) (\<lambda>(s, S).
     Inr (case s of LinkErr e \<Rightarrow> Inl e | LinkNull \<Rightarrow> Inr [0] | LinkBody s \<Rightarrow> Inr s, S))))"

definition lookup_last :: "('k, 'a) walk_env \<Rightarrow> 'k walk \<Rightarrow> (int \<times> 'k walk) res" where
  "lookup_last E S =
     bind_res (if nd_last_type S = LAST_NORM
               then bind_res (advance (hashlen_len (nd_last_hash S)) (nd_last_name S)) char_at
               else Inr 0) (\<lambda>c.
     let S = (if c \<noteq> 0 then S\<lparr>nd_flags := nd_flags S OR LOOKUP_FOLLOW OR LOOKUP_DIRECTORY\<rparr> else S);
         S = S\<lparr>nd_flags := nd_flags S AND NOT LOOKUP_PARENT\<rparr> in
     walk_component E False False S)"

definition handle_lookup_down :: "('k, 'a) walk_env \<Rightarrow> 'k walk \<Rightarrow> (int \<times> 'k walk) res" where
  "handle_lookup_down E S =
     (let path = nd_path S; inode = nd_inode S; seq = nd_seq S in
      if in_rcu S
      then bind_res (follow_mount_rcu E (w_fuel E) path inode seq S) (\<lambda>(ok, path, inode, seq, S).
           if \<not> ok then Inr (- ECHILD, S)
           else Inr (0, (path_to_nameidata path S)\<lparr>nd_inode := inode, nd_seq := seq\<rparr>))
      else bind_res (follow_managed E path (dget (p_dentry path) S)) (\<lambda>(err, path, S).
           if err < 0 then Inr (err, S)
           else bind_res (null_ok (p_dentry path)) (\<lambda>d.
                let inode = kd_inode (w_dentry E (world S) d) in
                Inr (0, (path_to_nameidata path S)\<lparr>nd_inode := inode, nd_seq := 0\<rparr>))))"

text \<open>The loop that \<open>path_lookupat\<close> and \<open>path_mountpoint\<close> share, each with a function of its own for the last component.\<close>

fun lookup_loop :: "('k, 'a) walk_env \<Rightarrow> ('k walk \<Rightarrow> (int \<times> 'k walk) res) \<Rightarrow> nat \<Rightarrow> int + bytes \<Rightarrow> 'k walk \<Rightarrow> (int \<times> 'k walk) res" where
  "lookup_loop E last_step 0 s S = Inl OutOfFuel"
| "lookup_loop E last_step (Suc n) s S =
     bind_res (link_path_walk E s S) (\<lambda>(err, S).
     if err \<noteq> 0 then Inr (err, S)
     else bind_res (last_step S) (\<lambda>(err, S).
     if err > 0 then bind_res (trailing_symlink E S) (\<lambda>(s, S). lookup_loop E last_step n s S) else Inr (err, S)))"

text \<open>The common end: a walk without an error hands its path over, and every other reference goes.\<close>

definition finish_walk :: "('k, 'a) walk_env \<Rightarrow> int \<Rightarrow> 'k walk \<Rightarrow> (int \<times> vpath option \<times> 'k walk) res" where
  "finish_walk E err S =
     (let path = (if err = 0 then Some (nd_path S) else None); S = (if err = 0 then S\<lparr>nd_path := null_path\<rparr> else S) in
      bind_res (terminate_walk E S) (\<lambda>S. Inr (err, path, S)))"

definition path_lookupat :: "('k, 'a) walk_env \<Rightarrow> u32 \<Rightarrow> 'k walk \<Rightarrow> (int \<times> vpath option \<times> 'k walk) res" where
  "path_lookupat E flags S =
     bind_res (path_init E flags S) (\<lambda>(s, S).
     bind_res (case s of
                 Inl e \<Rightarrow> Inr (s, S)
               | Inr _ \<Rightarrow>
                   if flags AND LOOKUP_DOWN = 0 then Inr (s, S)
                   else bind_res (handle_lookup_down E S) (\<lambda>(err, S). Inr (if err < 0 then Inl err else s, S))) (\<lambda>(s, S).
     bind_res (lookup_loop E (lookup_last E) (w_fuel E) s S) (\<lambda>(err, S).
     bind_res (if err = 0 then complete_walk E S else Inr (err, S)) (\<lambda>(err, S).
     bind_res (if err = 0 \<and> nd_flags S AND LOOKUP_DIRECTORY \<noteq> 0
               then bind_res (null_ok (p_dentry (nd_path S))) (\<lambda>d.
                    Inr (if kd_type (w_dentry E (world S) d) \<noteq> DirectoryType then - ENOTDIR else 0))
               else Inr err) (\<lambda>err.
     finish_walk E err S)))))"

definition path_parentat :: "('k, 'a) walk_env \<Rightarrow> u32 \<Rightarrow> 'k walk \<Rightarrow> (int \<times> vpath option \<times> 'k walk) res" where
  "path_parentat E flags S =
     bind_res (path_init E flags S) (\<lambda>(s, S).
     bind_res (link_path_walk E s S) (\<lambda>(err, S).
     bind_res (if err = 0 then complete_walk E S else Inr (err, S)) (\<lambda>(err, S).
     finish_walk E err S)))"

section \<open>Retries\<close>

text \<open>
  \<open>old\<close> is the link count of the walk that is already under way in this task, if there is one. The
  \<open>struct nameidata\<close> on the stack is not initialised: the state that comes in may hold anything.
\<close>

definition set_nameidata :: "('k, 'a) walk_env \<Rightarrow> int \<Rightarrow> bytes \<Rightarrow> int option \<Rightarrow> 'k walk \<Rightarrow> 'k walk" where
  "set_nameidata E dfd name old S =
     S\<lparr>nd_stack := replicate EMBEDDED_LEVELS (w_junk E), nd_heap := False, nd_dfd := dfd, nd_name := name,
       nd_total_link_count := (case old of None \<Rightarrow> 0 | Some n \<Rightarrow> n)\<rparr>"

definition restore_nameidata :: "int option \<Rightarrow> 'k walk \<Rightarrow> int option \<times> 'k walk" where
  "restore_nameidata old S =
     (map_option (\<lambda>_. nd_total_link_count S) old,
      if nd_heap S then S\<lparr>nd_stack := take EMBEDDED_LEVELS (nd_stack S), nd_heap := False\<rparr> else S)"

definition with_retries ::
  "(u32 \<Rightarrow> 'k walk \<Rightarrow> (int \<times> vpath option \<times> 'k walk) res) \<Rightarrow> u32 \<Rightarrow> 'k walk \<Rightarrow> (int \<times> vpath option \<times> 'k walk) res" where
  "with_retries walk flags S =
     bind_res (walk (flags OR LOOKUP_RCU) S) (\<lambda>(retval, path, S).
     bind_res (if retval = - ECHILD then walk flags S else Inr (retval, path, S)) (\<lambda>(retval, path, S).
     if retval = - ESTALE then walk (flags OR LOOKUP_REVAL) S else Inr (retval, path, S)))"

definition filename_lookup ::
  "('k, 'a) walk_env \<Rightarrow> int \<Rightarrow> int + bytes \<Rightarrow> u32 \<Rightarrow> vpath option \<Rightarrow> int option \<Rightarrow> 'k walk \<Rightarrow>
   (int \<times> vpath option \<times> int option \<times> 'k walk) res" where
  "filename_lookup E dfd name flags root_arg old S =
     (case name of
        Inl e \<Rightarrow> Inr (e, None, old, S)
      | Inr s \<Rightarrow>
          let (flags, S) = (case root_arg of None \<Rightarrow> (flags, S) | Some r \<Rightarrow> (flags OR LOOKUP_ROOT, S\<lparr>nd_root := r\<rparr>));
              S = set_nameidata E dfd s old S in
          bind_res (with_retries (path_lookupat E) flags S) (\<lambda>(retval, path, S).
          let (old, S) = restore_nameidata old S in Inr (retval, path, old, S)))"

definition filename_parentat ::
  "('k, 'a) walk_env \<Rightarrow> int \<Rightarrow> int + bytes \<Rightarrow> u32 \<Rightarrow> int option \<Rightarrow> 'k walk \<Rightarrow>
   (int \<times> (vpath \<times> u64 \<times> bytes \<times> last_type) option \<times> int option \<times> 'k walk) res" where
  "filename_parentat E dfd name flags old S =
     (case name of
        Inl e \<Rightarrow> Inr (e, None, old, S)
      | Inr s \<Rightarrow>
          bind_res (with_retries (path_parentat E) flags (set_nameidata E dfd s old S)) (\<lambda>(retval, path, S).
          let parent = map_option (\<lambda>p. (p, nd_last_hash S, nd_last_name S, nd_last_type S)) path;
              (old, S) = restore_nameidata old S in
          Inr (retval, parent, old, S)))"

end
