(* ===== verification/Vfs_Rename.thy ===== *)
theory Vfs_Rename
  imports Vfs_Ops
begin

text \<open>
  Links and renames (\<open>extra/namei.c\<close>): \<open>vfs_symlink\<close>, \<open>vfs_link\<close>, \<open>vfs_rename\<close>, and the locks that a
  rename takes on the parents. The directory operations of the module have \<open>simple_link\<close> and
  \<open>simple_rename\<close> of the kernel's library for these, which are arguments here, and nothing for
  symbolic links.

  As in \<open>Vfs_Ops\<close>, the state of the file system comes with the flags and locks of its inodes; here also with
  the \<open>I_LINKABLE\<close> bits and the rename mutex of the superblock. All inodes are of one superblock.
  References to dentries, the notifications, and mounts on a replaced target are not modelled.
\<close>

section \<open>State and operation tables\<close>

record move_state =
  vfs :: vfs_state
  i_linkable :: "nat \<Rightarrow> bool"
  s_vfs_rename_mutex :: bool

definition RENAME_EXCHANGE :: u32 where [vfs_simps]: "RENAME_EXCHANGE = 2"
definition FS_RENAME_DOES_D_MOVE :: u32 where [vfs_simps]: "FS_RENAME_DOES_D_MOVE = 0x8000"

text \<open>\<open>flatfs_fs_type\<close> does not set \<open>fs_flags\<close>.\<close>

definition flatfs_fs_flags :: u32 where [vfs_simps]: "flatfs_fs_flags = 0"

record move_env =
  k_simple_link :: "nat \<Rightarrow> nat \<Rightarrow> ffs_state \<Rightarrow> (int \<times> ffs_state) res"
  k_simple_rename :: "nat \<Rightarrow> dentry \<Rightarrow> nat \<Rightarrow> dentry \<Rightarrow> u32 \<Rightarrow> ffs_state \<Rightarrow> (int \<times> ffs_state) res"
  security_inode_symlink :: "vinode \<Rightarrow> dentry \<Rightarrow> bytes \<Rightarrow> int"
  security_inode_link :: "dentry \<Rightarrow> vinode \<Rightarrow> dentry \<Rightarrow> int"
  security_inode_rename :: "vinode \<Rightarrow> dentry \<Rightarrow> vinode \<Rightarrow> dentry \<Rightarrow> u32 \<Rightarrow> int"

record move_operations =
  op_symlink :: "(nat \<Rightarrow> dentry \<Rightarrow> bytes \<Rightarrow> ffs_state \<Rightarrow> (int \<times> ffs_state) res) option"
  op_link :: "(nat \<Rightarrow> nat \<Rightarrow> ffs_state \<Rightarrow> (int \<times> ffs_state) res) option"
  op_rename :: "(nat \<Rightarrow> dentry \<Rightarrow> nat \<Rightarrow> dentry \<Rightarrow> u32 \<Rightarrow> ffs_state \<Rightarrow> (int \<times> ffs_state) res) option"

definition move_table :: "move_env \<Rightarrow> ffs_inode_info \<Rightarrow> move_operations" where
  "move_table X fi =
     (if i_op fi = DirOps then \<lparr>op_symlink = None, op_link = Some (k_simple_link X), op_rename = Some (k_simple_rename X)\<rparr>
      else \<lparr>op_symlink = None, op_link = None, op_rename = None\<rparr>)"

section \<open>Links\<close>

definition vfs_symlink :: "move_env \<Rightarrow> 'a vfs_env \<Rightarrow> nat \<Rightarrow> dentry \<Rightarrow> bytes \<Rightarrow> vfs_state \<Rightarrow> (int \<times> vfs_state) res" where
  "vfs_symlink X E dir dentry oldname V =
     bind_res (get_vinode V (Some dir)) (\<lambda>(dfi, dv).
     let (error, dv) = may_create E dv dentry; V = put_opflags dir dv V in
     if error \<noteq> 0 then Inr (error, V)
     else case op_symlink (move_table X dfi) of
       None \<Rightarrow> Inr (- EPERM, V)
     | Some symlink \<Rightarrow>
         let error = security_inode_symlink X dv dentry oldname in
         if error \<noteq> 0 then Inr (error, V)
         else bind_res (symlink dir dentry oldname (fs_st V)) (\<lambda>(error, st). Inr (error, V\<lparr>fs_st := st\<rparr>)))"

text \<open>What \<open>vfs_link\<close> does under the lock of the inode.\<close>

definition vfs_link_locked ::
  "'a vfs_env \<Rightarrow> (nat \<Rightarrow> nat \<Rightarrow> ffs_state \<Rightarrow> (int \<times> ffs_state) res) \<Rightarrow> nat \<Rightarrow> nat \<Rightarrow> move_state \<Rightarrow> (int \<times> move_state) res" where
  "vfs_link_locked E link a dir M =
     bind_res (get_vinode (vfs M) (Some a)) (\<lambda>(fi, v).
     bind_res
       (if i_nlink fi = 0 \<and> \<not> i_linkable M a then Inr (- ENOENT, M)
        else if s_max_links E \<noteq> 0 \<and> i_nlink fi \<ge> s_max_links E then Inr (- EMLINK, M)
        else let error = try_break_deleg E v in
             if error \<noteq> 0 then Inr (error, M)
             else bind_res (link a dir (fs_st (vfs M))) (\<lambda>(error, st). Inr (error, M\<lparr>vfs := (vfs M)\<lparr>fs_st := st\<rparr>\<rparr>))) (\<lambda>(error, M).
     Inr (error, if error = 0 \<and> i_linkable M a then M\<lparr>i_linkable := (i_linkable M)(a := False)\<rparr> else M)))"

definition vfs_link :: "move_env \<Rightarrow> 'a vfs_env \<Rightarrow> dentry \<Rightarrow> nat \<Rightarrow> dentry \<Rightarrow> move_state \<Rightarrow> (int \<times> move_state) res" where
  "vfs_link X E old_dentry dir new_dentry M =
     (case d_inode old_dentry of
        None \<Rightarrow> Inr (- ENOENT, M)
      | Some a \<Rightarrow>
          bind_res (get_vinode (vfs M) (Some dir)) (\<lambda>(dfi, dv).
          let (error, dv) = may_create E dv new_dentry; M = M\<lparr>vfs := put_opflags dir dv (vfs M)\<rparr> in
          if error \<noteq> 0 then Inr (error, M)
          else bind_res (get_vinode (vfs M) (Some a)) (\<lambda>(fi, v).
          if IS_APPEND v \<or> IS_IMMUTABLE v then Inr (- EPERM, M)
          else if HAS_UNMAPPED_ID E v then Inr (- EPERM, M)
          else case op_link (move_table X dfi) of
            None \<Rightarrow> Inr (- EPERM, M)
          | Some link \<Rightarrow>
              if is_type S_IFDIR (v_mode v) then Inr (- EPERM, M)
              else let error = security_inode_link X old_dentry dv new_dentry in
              if error \<noteq> 0 then Inr (error, M)
              else bind_res (inode_lock a (vfs M)) (\<lambda>V.
                   bind_res (vfs_link_locked E link a dir (M\<lparr>vfs := V\<rparr>)) (\<lambda>(error, M).
                   Inr (error, M\<lparr>vfs := inode_unlock a (vfs M)\<rparr>))))))"

section \<open>The locks of a rename\<close>

definition mutex_lock :: "move_state \<Rightarrow> move_state res" where
  "mutex_lock M = (if s_vfs_rename_mutex M then Inl Deadlock else Inr (M\<lparr>s_vfs_rename_mutex := True\<rparr>))"

definition lock_inode :: "nat \<Rightarrow> move_state \<Rightarrow> move_state res" where
  "lock_inode a M = bind_res (inode_lock a (vfs M)) (\<lambda>V. Inr (M\<lparr>vfs := V\<rparr>))"

definition unlock_inode :: "nat \<Rightarrow> move_state \<Rightarrow> move_state" where
  "unlock_inode a M = M\<lparr>vfs := inode_unlock a (vfs M)\<rparr>"

text \<open>
  Dentries of directories are named by addresses; \<open>ino\<close> gives their inodes. \<open>d_ancestor p1 p2\<close> is documented to
  return the child of \<open>p1\<close> on the way to \<open>p2\<close>, and null if \<open>p1\<close> is not above \<open>p2\<close>.
\<close>

definition lock_rename :: "(nat \<Rightarrow> nat \<Rightarrow> nat option) \<Rightarrow> (nat \<Rightarrow> nat) \<Rightarrow> nat \<Rightarrow> nat \<Rightarrow> move_state \<Rightarrow> (nat option \<times> move_state) res" where
  "lock_rename d_ancestor ino p1 p2 M =
     (if p1 = p2 then bind_res (lock_inode (ino p1) M) (\<lambda>M. Inr (None, M))
      else bind_res (mutex_lock M) (\<lambda>M.
      case d_ancestor p2 p1 of
        Some p \<Rightarrow> bind_res (lock_inode (ino p2) M) (\<lambda>M. bind_res (lock_inode (ino p1) M) (\<lambda>M. Inr (Some p, M)))
      | None \<Rightarrow>
          (case d_ancestor p1 p2 of
             Some p \<Rightarrow> bind_res (lock_inode (ino p1) M) (\<lambda>M. bind_res (lock_inode (ino p2) M) (\<lambda>M. Inr (Some p, M)))
           | None \<Rightarrow> bind_res (lock_inode (ino p1) M) (\<lambda>M. bind_res (lock_inode (ino p2) M) (\<lambda>M. Inr (None, M))))))"

definition unlock_rename :: "(nat \<Rightarrow> nat) \<Rightarrow> nat \<Rightarrow> nat \<Rightarrow> move_state \<Rightarrow> move_state" where
  "unlock_rename ino p1 p2 M =
     (let M = unlock_inode (ino p1) M in
      if p1 \<noteq> p2 then (unlock_inode (ino p2) M)\<lparr>s_vfs_rename_mutex := False\<rparr> else M)"

text \<open>
  \<open>lock_two_nondirectories\<close> locks each of its arguments that is not null and not a directory, the lower
  address first and an inode given twice only once.
\<close>

definition is_nondir :: "vfs_state \<Rightarrow> nat \<Rightarrow> bool" where
  "is_nondir V a = (case inodes (fs_st V) a of None \<Rightarrow> True | Some fi \<Rightarrow> \<not> is_type S_IFDIR (i_mode fi))"

definition nondirectories :: "vfs_state \<Rightarrow> nat option \<Rightarrow> nat option \<Rightarrow> nat list" where
  "nondirectories V a b =
     (let xs = remdups (List.map_filter id [a, b]) in filter (is_nondir V) (sort xs))"

fun lock_list :: "nat list \<Rightarrow> vfs_state \<Rightarrow> vfs_state res" where
  "lock_list [] V = Inr V"
| "lock_list (a # as) V = bind_res (inode_lock a V) (lock_list as)"

section \<open>Renaming\<close>

text \<open>\<open>d_move\<close> gives the dentry the name and parent of the target, which leaves the hash; \<open>d_exchange\<close> swaps them.\<close>

definition d_move :: "dentry \<Rightarrow> dentry \<Rightarrow> dentry \<times> dentry" where
  "d_move old new = (old\<lparr>d_name := d_name new, d_parent_inode := d_parent_inode new\<rparr>, new\<lparr>d_hashed := False\<rparr>)"

definition d_exchange :: "dentry \<Rightarrow> dentry \<Rightarrow> dentry \<times> dentry" where
  "d_exchange old new = (old\<lparr>d_name := d_name new, d_parent_inode := d_parent_inode new\<rparr>, new\<lparr>d_name := d_name old, d_parent_inode := d_parent_inode old\<rparr>)"

definition rename_may_replace ::
  "'a vfs_env \<Rightarrow> nat \<Rightarrow> dentry \<Rightarrow> bool \<Rightarrow> u32 \<Rightarrow> vfs_state \<Rightarrow> (int \<times> vfs_state) res" where
  "rename_may_replace E new_dir new_dentry is_dir flags V =
     bind_res (get_vinode V (Some new_dir)) (\<lambda>(nfi, nv).
     bind_res
       (if d_inode new_dentry = None then Inr (may_create E nv new_dentry)
        else bind_res (victim_inode V new_dentry) (\<lambda>tv.
             may_delete E new_dir nv new_dentry tv (if flags AND RENAME_EXCHANGE = 0 then is_dir else d_is_dir new_dentry))) (\<lambda>(error, nv).
     Inr (error, put_opflags new_dir nv V)))"

text \<open>A new parent: the entry \<open>..\<close> of a directory changes.\<close>

definition write_permission :: "'a vfs_env \<Rightarrow> nat option \<Rightarrow> vfs_state \<Rightarrow> (int \<times> vfs_state) res" where
  "write_permission E p V =
     bind_res (FFS_I (fs_st V) p) (\<lambda>(a, fi).
     let (error, v) = inode_permission E (vinode_of V a fi) MAY_WRITE in Inr (error, put_opflags a v V))"

definition rename_may_flip ::
  "'a vfs_env \<Rightarrow> nat \<Rightarrow> nat \<Rightarrow> dentry \<Rightarrow> dentry \<Rightarrow> u32 \<Rightarrow> vfs_state \<Rightarrow> (int \<times> vfs_state) res" where
  "rename_may_flip E old_dir new_dir old_dentry new_dentry flags V =
     (let is_dir = d_is_dir old_dentry; new_is_dir = (d_inode new_dentry \<noteq> None \<and> d_is_dir new_dentry) in
      if new_dir = old_dir then Inr (0, V)
      else bind_res (if is_dir then write_permission E (d_inode old_dentry) V else Inr (0, V)) (\<lambda>(error, V).
      if error \<noteq> 0 then Inr (error, V)
      else if flags AND RENAME_EXCHANGE \<noteq> 0 \<and> new_is_dir then write_permission E (d_inode new_dentry) V
      else Inr (0, V)))"

text \<open>What runs under the locks of the victims.\<close>

definition break_deleg :: "'a vfs_env \<Rightarrow> nat option \<Rightarrow> vfs_state \<Rightarrow> int res" where
  "break_deleg E p V = bind_res (get_vinode V p) (\<lambda>(fi, v). Inr (try_break_deleg E v))"

definition too_many_links :: "'a vfs_env \<Rightarrow> nat \<Rightarrow> nat \<Rightarrow> bool \<Rightarrow> bool \<Rightarrow> u32 \<Rightarrow> vfs_state \<Rightarrow> bool res" where
  "too_many_links E old_dir new_dir is_dir new_is_dir flags V =
     (if s_max_links E = 0 \<or> new_dir = old_dir then Inr False
      else bind_res (FFS_I (fs_st V) (Some new_dir)) (\<lambda>(_, nfi).
      if is_dir \<and> \<not> new_is_dir \<and> i_nlink nfi \<ge> s_max_links E then Inr True
      else bind_res (FFS_I (fs_st V) (Some old_dir)) (\<lambda>(_, ofi).
           Inr (flags AND RENAME_EXCHANGE \<noteq> 0 \<and> \<not> is_dir \<and> new_is_dir \<and> i_nlink ofi \<ge> s_max_links E))))"

definition rename_locked ::
  "'a vfs_env \<Rightarrow> (nat \<Rightarrow> dentry \<Rightarrow> nat \<Rightarrow> dentry \<Rightarrow> u32 \<Rightarrow> ffs_state \<Rightarrow> (int \<times> ffs_state) res) \<Rightarrow>
   nat \<Rightarrow> nat \<Rightarrow> dentry \<Rightarrow> dentry \<Rightarrow> u32 \<Rightarrow> vfs_state \<Rightarrow> (int \<times> dentry \<times> dentry \<times> vfs_state) res" where
  "rename_locked E rename old_dir new_dir old_dentry new_dentry flags V =
     (let is_dir = d_is_dir old_dentry; target = d_inode new_dentry; new_is_dir = (target \<noteq> None \<and> d_is_dir new_dentry);
          fail = (\<lambda>e. Inr (e, old_dentry, new_dentry, V)) in
      if is_local_mountpoint old_dentry \<or> is_local_mountpoint new_dentry then fail (- EBUSY)
      else bind_res (too_many_links E old_dir new_dir is_dir new_is_dir flags V) (\<lambda>many.
      if many then fail (- EMLINK)
      else bind_res (if \<not> is_dir then break_deleg E (d_inode old_dentry) V else Inr 0) (\<lambda>error.
      if error \<noteq> 0 then fail error
      else bind_res (if target \<noteq> None \<and> \<not> new_is_dir then break_deleg E target V else Inr 0) (\<lambda>error.
      if error \<noteq> 0 then fail error
      else bind_res (rename old_dir old_dentry new_dir new_dentry flags (fs_st V)) (\<lambda>(error, st).
      let V = V\<lparr>fs_st := st\<rparr> in
      if error \<noteq> 0 then Inr (error, old_dentry, new_dentry, V)
      else let V = (case target of
                      Some t \<Rightarrow> if flags AND RENAME_EXCHANGE = 0 \<and> is_dir then V\<lparr>i_flags := (i_flags V)(t := i_flags V t OR S_DEAD)\<rparr> else V
                    | None \<Rightarrow> V);
               (old_dentry, new_dentry) =
                 (if flatfs_fs_flags AND FS_RENAME_DOES_D_MOVE = 0
                  then if flags AND RENAME_EXCHANGE = 0 then d_move old_dentry new_dentry else d_exchange old_dentry new_dentry
                  else (old_dentry, new_dentry)) in
           Inr (0, old_dentry, new_dentry, V))))))"

definition rename_victims :: "dentry \<Rightarrow> dentry \<Rightarrow> u32 \<Rightarrow> vfs_state \<Rightarrow> nat list" where
  "rename_victims old_dentry new_dentry flags V =
     (if \<not> d_is_dir old_dentry \<or> flags AND RENAME_EXCHANGE \<noteq> 0 then nondirectories V (d_inode old_dentry) (d_inode new_dentry)
      else case d_inode new_dentry of None \<Rightarrow> [] | Some t \<Rightarrow> [t])"

definition vfs_rename ::
  "move_env \<Rightarrow> 'a vfs_env \<Rightarrow> nat \<Rightarrow> dentry \<Rightarrow> nat \<Rightarrow> dentry \<Rightarrow> u32 \<Rightarrow> vfs_state \<Rightarrow> (int \<times> dentry \<times> dentry \<times> vfs_state) res" where
  "vfs_rename X E old_dir old_dentry new_dir new_dentry flags V =
     (let is_dir = d_is_dir old_dentry; stay = (\<lambda>e V. Inr (e, old_dentry, new_dentry, V)) in
      if d_inode old_dentry = d_inode new_dentry then stay 0 V
      else bind_res (get_vinode V (Some old_dir)) (\<lambda>(ofi, ov).
      bind_res (victim_inode V old_dentry) (\<lambda>sv.
      bind_res (may_delete E old_dir ov old_dentry sv is_dir) (\<lambda>(error, ov).
      let V = put_opflags old_dir ov V in
      if error \<noteq> 0 then stay error V
      else bind_res (rename_may_replace E new_dir new_dentry is_dir flags V) (\<lambda>(error, V).
      if error \<noteq> 0 then stay error V
      else case op_rename (move_table X ofi) of
        None \<Rightarrow> stay (- EPERM) V
      | Some rename \<Rightarrow>
          bind_res (rename_may_flip E old_dir new_dir old_dentry new_dentry flags V) (\<lambda>(error, V).
          if error \<noteq> 0 then stay error V
          else bind_res (get_vinode V (Some old_dir)) (\<lambda>(_, ov).
          bind_res (get_vinode V (Some new_dir)) (\<lambda>(_, nv).
          let error = security_inode_rename X ov old_dentry nv new_dentry flags in
          if error \<noteq> 0 then stay error V
          else let victims = rename_victims old_dentry new_dentry flags V in
          bind_res (lock_list victims V) (\<lambda>V.
          bind_res (rename_locked E rename old_dir new_dir old_dentry new_dentry flags V) (\<lambda>(error, old_dentry, new_dentry, V).
          Inr (error, old_dentry, new_dentry, fold inode_unlock victims V)))))))))))"

end
