(* ===== verification/Sys_Paths.thy ===== *)
theory Sys_Paths
  imports Path_Walk Vfs_Rename
begin

text \<open>
  The system calls that change the tree (\<open>extra/namei.c\<close>): they look up the parent of a name by a path walk,
  lock it, look up or make the dentry of the last component, call the operation of the VFS and give
  everything back; an error \<open>ESTALE\<close> repeats the call once with \<open>LOOKUP_REVAL\<close>.

  The state of a task is that of its walk with the inode locks, the rename mutex, the write accesses to
  mounts and the inode references it holds. Worlds contain the state of the file system that the
  operations of \<open>Vfs_Ops\<close> and \<open>Vfs_Rename\<close> work on (\<open>y_move\<close>) and the dentries as these see them (\<open>y_dentry\<close>); the locks
  are those of the task. Copying a name from user space, the security hooks and the delegations of files are answers of the rest
  of the kernel. The inode of a locked directory does not change. The reference that a delegation holds until it
  is broken is taken and dropped within the rest of the kernel.
\<close>

section \<open>State and environment\<close>

record 'k task =
  wk :: "'k walk"
  held_inode :: "nat \<Rightarrow> bool"
  held_rename :: bool
  writers :: "nat \<Rightarrow> int"
  irefs :: "nat \<Rightarrow> int"

datatype path_hook =
    HookMknod vpath nat u16 u32
  | HookMkdir vpath nat u16
  | HookRmdir vpath nat
  | HookUnlink vpath nat
  | HookSymlink vpath nat bytes
  | HookLink "nat option" vpath nat
  | HookRename vpath nat vpath nat u32

record 'k sys_env =
  y_plat :: platform
  y_kenv :: kenv
  y_junk :: int
  y_ops :: move_env
  y_move :: "'k \<Rightarrow> move_state"
  y_put_move :: "move_state \<Rightarrow> 'k \<Rightarrow> 'k"
  y_dentry :: "'k \<Rightarrow> nat \<Rightarrow> dentry"
  y_put_dentry :: "nat \<Rightarrow> dentry \<Rightarrow> 'k \<Rightarrow> 'k"
  y_sole :: "'k \<Rightarrow> nat \<Rightarrow> bool"
  y_d_lookup :: "nat \<Rightarrow> u64 \<Rightarrow> bytes \<Rightarrow> 'k \<Rightarrow> nat option \<times> 'k"
  y_d_alloc :: "nat \<Rightarrow> u64 \<Rightarrow> bytes \<Rightarrow> 'k \<Rightarrow> nat option \<times> 'k"
  y_d_ancestor :: "'k \<Rightarrow> nat \<Rightarrow> nat \<Rightarrow> nat option"
  y_want_write :: "nat \<Rightarrow> 'k \<Rightarrow> int \<times> 'k"
  y_drop_write :: "nat \<Rightarrow> 'k \<Rightarrow> 'k"
  y_security :: "path_hook \<Rightarrow> 'k \<Rightarrow> int"
  y_delegated :: "int \<Rightarrow> 'k \<Rightarrow> nat option"
  y_break_deleg_wait :: "nat \<Rightarrow> 'k \<Rightarrow> int \<times> 'k"
  y_iput :: "nat \<Rightarrow> 'k \<Rightarrow> 'k"
  y_decode_dev :: "u32 \<Rightarrow> u32"

definition LOOKUP_EXCL :: u32 where [vfs_simps]: "LOOKUP_EXCL = 0x0400"
definition LOOKUP_RENAME_TARGET :: u32 where [vfs_simps]: "LOOKUP_RENAME_TARGET = 0x0800"
definition LOOKUP_EMPTY :: u32 where [vfs_simps]: "LOOKUP_EMPTY = 0x4000"
definition AT_SYMLINK_FOLLOW :: u32 where [vfs_simps]: "AT_SYMLINK_FOLLOW = 0x0400"
definition AT_EMPTY_PATH :: u32 where [vfs_simps]: "AT_EMPTY_PATH = 0x1000"
definition RENAME_NOREPLACE :: u32 where [vfs_simps]: "RENAME_NOREPLACE = 1"
definition RENAME_WHITEOUT :: u32 where [vfs_simps]: "RENAME_WHITEOUT = 4"
definition ENOTEMPTY :: int where [vfs_simps]: "ENOTEMPTY = 39"
definition EXDEV :: int where [vfs_simps]: "EXDEV = 18"

type_synonym 'k getname = "'k \<Rightarrow> (int + bytes) \<times> 'k"

section \<open>Helpers\<close>

definition now :: "'k task \<Rightarrow> 'k" where
  "now S = world (wk S)"

definition on_walk :: "('k walk \<Rightarrow> 'r \<times> 'k walk) \<Rightarrow> 'k task \<Rightarrow> 'r \<times> 'k task" where
  "on_walk f S = (let (r, W) = f (wk S) in (r, S\<lparr>wk := W\<rparr>))"

definition ask :: "('k \<Rightarrow> 'r \<times> 'k) \<Rightarrow> 'k task \<Rightarrow> 'r \<times> 'k task" where
  "ask f S = on_walk (kop f) S"

definition t_dput :: "nat \<Rightarrow> 'k task \<Rightarrow> 'k task" where
  "t_dput d S = S\<lparr>wk := dput (Some d) (wk S)\<rparr>"

definition t_path_put :: "vpath \<Rightarrow> 'k task \<Rightarrow> 'k task" where
  "t_path_put p S = S\<lparr>wk := path_put p (wk S)\<rparr>"

definition want_write :: "'k sys_env \<Rightarrow> nat \<Rightarrow> 'k task \<Rightarrow> int \<times> 'k task" where
  "want_write Y m S =
     (let (e, S) = ask (y_want_write Y m) S in (e, if e = 0 then S\<lparr>writers := (writers S)(m := writers S m + 1)\<rparr> else S))"

definition drop_write :: "'k sys_env \<Rightarrow> nat \<Rightarrow> 'k task \<Rightarrow> 'k task" where
  "drop_write Y m S = S\<lparr>wk := (wk S)\<lparr>world := y_drop_write Y m (now S)\<rparr>, writers := (writers S)(m := writers S m - 1)\<rparr>"

definition t_ihold :: "nat \<Rightarrow> 'k task \<Rightarrow> 'k task" where
  "t_ihold i S = S\<lparr>irefs := (irefs S)(i := irefs S i + 1)\<rparr>"

definition t_iput :: "'k sys_env \<Rightarrow> nat \<Rightarrow> 'k task \<Rightarrow> 'k task" where
  "t_iput Y i S = S\<lparr>wk := (wk S)\<lparr>world := y_iput Y i (now S)\<rparr>, irefs := (irefs S)(i := irefs S i - 1)\<rparr>"

text \<open>\<open>inode_lock(dentry->d_inode)\<close> for the dentry of a directory; the result is the inode.\<close>

definition dir_lock :: "('k, 'a) walk_env \<Rightarrow> nat \<Rightarrow> 'k task \<Rightarrow> (nat \<times> 'k task) res" where
  "dir_lock E dir S =
     bind_res (null_ok (kd_inode (w_dentry E (now S) dir))) (\<lambda>i.
     if held_inode S i then Inl Deadlock else Inr (i, S\<lparr>held_inode := (held_inode S)(i := True)\<rparr>))"

definition dir_unlock :: "nat \<Rightarrow> 'k task \<Rightarrow> 'k task" where
  "dir_unlock i S = S\<lparr>held_inode := (held_inode S)(i := False)\<rparr>"

text \<open>Into the state of the file system, with the locks of the task, and back.\<close>

definition enter_fs :: "'k sys_env \<Rightarrow> 'k task \<Rightarrow> move_state" where
  "enter_fs Y S = (let M = y_move Y (now S) in M\<lparr>vfs := (vfs M)\<lparr>i_rwsem := held_inode S\<rparr>, s_vfs_rename_mutex := held_rename S\<rparr>)"

definition leave_fs :: "'k sys_env \<Rightarrow> move_state \<Rightarrow> 'k task \<Rightarrow> 'k task" where
  "leave_fs Y M S = S\<lparr>wk := (wk S)\<lparr>world := y_put_move Y M (now S)\<rparr>, held_inode := i_rwsem (vfs M), held_rename := s_vfs_rename_mutex M\<rparr>"

definition set_dentry :: "'k sys_env \<Rightarrow> nat \<Rightarrow> dentry \<Rightarrow> 'k task \<Rightarrow> 'k task" where
  "set_dentry Y d dn S = S\<lparr>wk := (wk S)\<lparr>world := y_put_dentry Y d dn (now S)\<rparr>\<rparr>"

definition call_vfs ::
  "'k sys_env \<Rightarrow> nat \<Rightarrow> (dentry \<Rightarrow> vfs_state \<Rightarrow> (int \<times> dentry \<times> vfs_state) res) \<Rightarrow> 'k task \<Rightarrow> (int \<times> 'k task) res" where
  "call_vfs Y d f S =
     (let M = enter_fs Y S in
      bind_res (f (y_dentry Y (now S) d) (vfs M)) (\<lambda>(error, dn, V). Inr (error, set_dentry Y d dn (leave_fs Y (M\<lparr>vfs := V\<rparr>) S))))"

text \<open>\<open>retry_estale\<close>: \<open>again\<close> says whether the end of the body was reached, where the error is examined.\<close>

definition retry_estale :: "int \<Rightarrow> u32 \<Rightarrow> bool" where
  "retry_estale error flags \<longleftrightarrow> error = - ESTALE \<and> flags AND LOOKUP_REVAL = 0"

definition estale_loop :: "(u32 \<Rightarrow> 'k task \<Rightarrow> (bool \<times> int \<times> 'k task) res) \<Rightarrow> u32 \<Rightarrow> 'k task \<Rightarrow> (int \<times> 'k task) res" where
  "estale_loop body flags S =
     bind_res (body flags S) (\<lambda>(again, error, S).
     if again \<and> retry_estale error flags
     then bind_res (body (flags OR LOOKUP_REVAL) S) (\<lambda>(_, error, S). Inr (error, S))
     else Inr (error, S))"

section \<open>The last component\<close>

text \<open>A dentry that does not revalidate is dropped; with 0 instead of an error that counts as not cached.\<close>

definition lookup_dcache ::
  "('k, 'a) walk_env \<Rightarrow> 'k sys_env \<Rightarrow> u64 \<Rightarrow> bytes \<Rightarrow> nat \<Rightarrow> u32 \<Rightarrow> 'k walk \<Rightarrow> (int + nat option) \<times> 'k walk" where
  "lookup_dcache E Y h nm dir flags W =
     (let (found, W) = kop (y_d_lookup Y dir h nm) W in
      case found of
        None \<Rightarrow> (Inr None, W)
      | Some d \<Rightarrow>
          let W = dget (Some d) W; (error, W) = revalidate E d flags W in
          if error \<le> 0
          then let W = (if error = 0 then invalidate E d W else W); W = dput (Some d) W in
               (if error = 0 then Inr None else Inl error, W)
          else (Inr (Some d), W))"

definition lookup_hash ::
  "('k, 'a) walk_env \<Rightarrow> 'k sys_env \<Rightarrow> u64 \<Rightarrow> bytes \<Rightarrow> nat \<Rightarrow> u32 \<Rightarrow> 'k walk \<Rightarrow> ((int + nat) \<times> 'k walk) res" where
  "lookup_hash E Y h nm base flags W =
     (let (r, W) = lookup_dcache E Y h nm base flags W in
      case r of
        Inl e \<Rightarrow> Inr (Inl e, W)
      | Inr (Some d) \<Rightarrow> Inr (Inr d, W)
      | Inr None \<Rightarrow>
          bind_res (null_ok (kd_inode (w_dentry E (world W) base))) (\<lambda>dir.
          if IS_DEADDIR (w_inode E (world W) dir) then Inr (Inl (- ENOENT), W)
          else let (new, W) = kop (y_d_alloc Y base h nm) W in
          (case new of
             None \<Rightarrow> Inr (Inl (- ENOMEM), W)
           | Some d \<Rightarrow>
               let W = dget (Some d) W; (old, W) = kop (k_iop_lookup E dir d flags) W in
               (case old of
                  LookedNull \<Rightarrow> Inr (Inr d, W)
                | LookedErr e \<Rightarrow> Inr (Inl e, dput (Some d) W)
                | LookedDentry d' \<Rightarrow> Inr (Inr d', dput (Some d) (dget (Some d') W))))))"

definition t_lookup_hash ::
  "('k, 'a) walk_env \<Rightarrow> 'k sys_env \<Rightarrow> u64 \<Rightarrow> bytes \<Rightarrow> nat \<Rightarrow> u32 \<Rightarrow> 'k task \<Rightarrow> ((int + nat) \<times> 'k task) res" where
  "t_lookup_hash E Y h nm base flags S = bind_res (lookup_hash E Y h nm base flags (wk S)) (\<lambda>(r, W). Inr (r, S\<lparr>wk := W\<rparr>))"

text \<open>No walk is under way when a system call starts one.\<close>

definition t_parentat ::
  "('k, 'a) walk_env \<Rightarrow> int \<Rightarrow> int + bytes \<Rightarrow> u32 \<Rightarrow> 'k task \<Rightarrow> (int \<times> (vpath \<times> u64 \<times> bytes \<times> last_type) option \<times> 'k task) res" where
  "t_parentat E dfd name flags S =
     bind_res (filename_parentat E dfd name flags None (wk S)) (\<lambda>(error, parent, _, W). Inr (error, parent, S\<lparr>wk := W\<rparr>))"

text \<open>\<open>last.name[last.len]\<close>\<close>

definition after_last :: "u64 \<Rightarrow> bytes \<Rightarrow> u8 res" where
  "after_last h nm = bind_res (advance (hashlen_len h) nm) char_at"

section \<open>Creating\<close>

text \<open>
  Whether the dentry may be created: the error code. The name is read only if a directory is not allowed.
\<close>

definition create_error :: "('k, 'a) walk_env \<Rightarrow> nat \<Rightarrow> bool \<Rightarrow> u64 \<Rightarrow> bytes \<Rightarrow> int \<Rightarrow> 'k task \<Rightarrow> int res" where
  "create_error E d is_dir h nm err2 S =
     (if kd_type (w_dentry E (now S) d) \<noteq> MissType then Inr (- EEXIST)
      else bind_res (if is_dir then Inr 0 else after_last h nm) (\<lambda>c.
      Inr (if \<not> is_dir \<and> c \<noteq> 0 then - ENOENT else err2)))"

text \<open>The result: the dentry, the path of the parent, its mount and its inode.\<close>

definition filename_create ::
  "('k, 'a) walk_env \<Rightarrow> 'k sys_env \<Rightarrow> int \<Rightarrow> int + bytes \<Rightarrow> u32 \<Rightarrow> 'k task \<Rightarrow> ((int + nat \<times> vpath \<times> nat \<times> nat) \<times> 'k task) res" where
  "filename_create E Y dfd name lookup_flags S =
     (let is_dir = (lookup_flags AND LOOKUP_DIRECTORY \<noteq> 0); lookup_flags = lookup_flags AND LOOKUP_REVAL in
      bind_res (t_parentat E dfd name lookup_flags S) (\<lambda>(error, parent, S).
      case parent of
        None \<Rightarrow> Inr (Inl error, S)
      | Some (path, h, nm, type) \<Rightarrow>
          if type \<noteq> LAST_NORM then Inr (Inl (- EEXIST), t_path_put path S)
          else bind_res (null_ok (p_mnt path)) (\<lambda>m.
          let (err2, S) = want_write Y m S; lookup_flags = lookup_flags OR LOOKUP_CREATE OR LOOKUP_EXCL in
          bind_res (null_ok (p_dentry path)) (\<lambda>dir.
          bind_res (dir_lock E dir S) (\<lambda>(i, S).
          bind_res (t_lookup_hash E Y h nm dir lookup_flags S) (\<lambda>(r, S).
          bind_res (case r of
                      Inl e \<Rightarrow> Inr (Inl e, S)
                    | Inr d \<Rightarrow>
                        bind_res (create_error E d is_dir h nm err2 S) (\<lambda>error.
                        Inr (if error \<noteq> 0 then (Inl error, t_dput d S) else (Inr d, S)))) (\<lambda>(r, S).
          case r of
            Inr d \<Rightarrow> Inr (Inr (d, path, m, i), S)
          | Inl e \<Rightarrow>
              let S = dir_unlock i S; S = (if err2 = 0 then drop_write Y m S else S) in
              Inr (Inl e, t_path_put path S))))))))"

definition done_path_create :: "'k sys_env \<Rightarrow> nat \<times> vpath \<times> nat \<times> nat \<Rightarrow> 'k task \<Rightarrow> 'k task" where
  "done_path_create Y made S =
     (case made of (d, path, m, i) \<Rightarrow> t_path_put path (drop_write Y m (dir_unlock i (t_dput d S))))"

text \<open>\<open>kern_path_locked\<close> returns with the parent locked.\<close>

definition kern_path_locked ::
  "('k, 'a) walk_env \<Rightarrow> 'k sys_env \<Rightarrow> int + bytes \<Rightarrow> 'k task \<Rightarrow> ((int + nat \<times> vpath \<times> nat) \<times> 'k task) res" where
  "kern_path_locked E Y name S =
     bind_res (t_parentat E AT_FDCWD name 0 S) (\<lambda>(error, parent, S).
     case parent of
       None \<Rightarrow> Inr (Inl error, S)
     | Some (path, h, nm, type) \<Rightarrow>
         if type \<noteq> LAST_NORM then Inr (Inl (- EINVAL), t_path_put path S)
         else bind_res (null_ok (p_dentry path)) (\<lambda>dir.
         bind_res (dir_lock E dir S) (\<lambda>(i, S).
         bind_res (t_lookup_hash E Y h nm dir 0 S) (\<lambda>(r, S).
         case r of Inl e \<Rightarrow> Inr (Inl e, t_path_put path (dir_unlock i S)) | Inr d \<Rightarrow> Inr (Inr (d, path, i), S)))))"

text \<open>What the four calls that make something have in common; \<open>work\<close> gets the dentry, the path and the inode of the parent.\<close>

definition create_at ::
  "('k, 'a) walk_env \<Rightarrow> 'k sys_env \<Rightarrow> int \<Rightarrow> 'k getname \<Rightarrow> (nat \<Rightarrow> vpath \<Rightarrow> nat \<Rightarrow> 'k task \<Rightarrow> (int \<times> 'k task) res) \<Rightarrow>
   u32 \<Rightarrow> 'k task \<Rightarrow> (bool \<times> int \<times> 'k task) res" where
  "create_at E Y dfd getname work flags S =
     (let (name, S) = ask getname S in
      bind_res (filename_create E Y dfd name flags S) (\<lambda>(r, S).
      case r of
        Inl e \<Rightarrow> Inr (False, e, S)
      | Inr (d, path, m, i) \<Rightarrow>
          bind_res (work d path i S) (\<lambda>(error, S). Inr (True, error, done_path_create Y (d, path, m, i) S))))"

definition masked :: "('k, 'a) walk_env \<Rightarrow> u16 \<Rightarrow> u16" where
  "masked E mode = (if \<not> sb_posixacl (w_cred E) then mode AND NOT (current_umask (w_cred E)) else mode)"

definition mknod_work ::
  "('k, 'a) walk_env \<Rightarrow> 'k sys_env \<Rightarrow> u16 \<Rightarrow> u32 \<Rightarrow> nat \<Rightarrow> vpath \<Rightarrow> nat \<Rightarrow> 'k task \<Rightarrow> (int \<times> 'k task) res" where
  "mknod_work E Y mode dev d path i S =
     (let mode = masked E mode; error = y_security Y (HookMknod path d mode dev) (now S);
          mknod = (\<lambda>dev. call_vfs Y d (\<lambda>dn. vfs_mknod (y_plat Y) (y_kenv Y) (y_junk Y) (w_cred E) i dn mode dev)) in
      if error \<noteq> 0 then Inr (error, S)
      else if mode AND S_IFMT = 0 \<or> mode AND S_IFMT = S_IFREG
      then call_vfs Y d (\<lambda>dn. vfs_create (y_plat Y) (y_kenv Y) (y_junk Y) (w_cred E) i dn mode) S
      else if mode AND S_IFMT = S_IFCHR \<or> mode AND S_IFMT = S_IFBLK then mknod (y_decode_dev Y dev) S
      else if mode AND S_IFMT = S_IFIFO \<or> mode AND S_IFMT = S_IFSOCK then mknod 0 S
      else Inr (error, S))"

definition do_mknodat :: "('k, 'a) walk_env \<Rightarrow> 'k sys_env \<Rightarrow> int \<Rightarrow> 'k getname \<Rightarrow> u16 \<Rightarrow> u32 \<Rightarrow> 'k task \<Rightarrow> (int \<times> 'k task) res" where
  "do_mknodat E Y dfd filename mode dev S =
     (let error = may_mknod mode in
      if error \<noteq> 0 then Inr (error, S) else estale_loop (create_at E Y dfd filename (mknod_work E Y mode dev)) 0 S)"

definition mkdir_work ::
  "('k, 'a) walk_env \<Rightarrow> 'k sys_env \<Rightarrow> u16 \<Rightarrow> nat \<Rightarrow> vpath \<Rightarrow> nat \<Rightarrow> 'k task \<Rightarrow> (int \<times> 'k task) res" where
  "mkdir_work E Y mode d path i S =
     (let mode = masked E mode; error = y_security Y (HookMkdir path d mode) (now S) in
      if error \<noteq> 0 then Inr (error, S)
      else call_vfs Y d (\<lambda>dn. vfs_mkdir (y_plat Y) (y_kenv Y) (y_junk Y) (w_cred E) i dn mode) S)"

definition do_mkdirat :: "('k, 'a) walk_env \<Rightarrow> 'k sys_env \<Rightarrow> int \<Rightarrow> 'k getname \<Rightarrow> u16 \<Rightarrow> 'k task \<Rightarrow> (int \<times> 'k task) res" where
  "do_mkdirat E Y dfd pathname mode S = estale_loop (create_at E Y dfd pathname (mkdir_work E Y mode)) LOOKUP_DIRECTORY S"

definition symlink_work ::
  "('k, 'a) walk_env \<Rightarrow> 'k sys_env \<Rightarrow> bytes \<Rightarrow> nat \<Rightarrow> vpath \<Rightarrow> nat \<Rightarrow> 'k task \<Rightarrow> (int \<times> 'k task) res" where
  "symlink_work E Y from d path i S =
     (let error = y_security Y (HookSymlink path d from) (now S) in
      if error \<noteq> 0 then Inr (error, S)
      else call_vfs Y d (\<lambda>dn V. bind_res (vfs_symlink (y_ops Y) (w_cred E) i dn from V) (\<lambda>(error, V). Inr (error, dn, V))) S)"

definition do_symlinkat :: "('k, 'a) walk_env \<Rightarrow> 'k sys_env \<Rightarrow> 'k getname \<Rightarrow> int \<Rightarrow> 'k getname \<Rightarrow> 'k task \<Rightarrow> (int \<times> 'k task) res" where
  "do_symlinkat E Y oldname newdfd newname S =
     (let (from, S) = ask oldname S in
      case from of
        Inl e \<Rightarrow> Inr (e, S)
      | Inr s \<Rightarrow> estale_loop (create_at E Y newdfd newname (symlink_work E Y s)) 0 S)"

section \<open>Deleting\<close>

definition rmdir_found ::
  "('k, 'a) walk_env \<Rightarrow> 'k sys_env \<Rightarrow> vpath \<Rightarrow> nat \<Rightarrow> nat \<Rightarrow> 'k task \<Rightarrow> (int \<times> 'k task) res" where
  "rmdir_found E Y path i d S =
     (if kd_inode (w_dentry E (now S) d) = None then Inr (- ENOENT, S)
      else let error = y_security Y (HookRmdir path d) (now S) in
      if error \<noteq> 0 then Inr (error, S)
      else call_vfs Y d (\<lambda>dn. vfs_rmdir (y_plat Y) (y_kenv Y) (y_junk Y) (w_cred E) (y_sole Y (now S) d) i dn) S)"

definition rmdir_parent ::
  "('k, 'a) walk_env \<Rightarrow> 'k sys_env \<Rightarrow> vpath \<Rightarrow> u64 \<Rightarrow> bytes \<Rightarrow> last_type \<Rightarrow> u32 \<Rightarrow> 'k task \<Rightarrow> (int \<times> 'k task) res" where
  "rmdir_parent E Y path h nm type flags S =
     (if type = LAST_DOTDOT then Inr (- ENOTEMPTY, S)
      else if type = LAST_DOT then Inr (- EINVAL, S)
      else if type = LAST_ROOT then Inr (- EBUSY, S)
      else bind_res (null_ok (p_mnt path)) (\<lambda>m.
      let (error, S) = want_write Y m S in
      if error \<noteq> 0 then Inr (error, S)
      else bind_res (null_ok (p_dentry path)) (\<lambda>dir.
      bind_res (dir_lock E dir S) (\<lambda>(i, S).
      bind_res (t_lookup_hash E Y h nm dir flags S) (\<lambda>(r, S).
      bind_res (case r of
                  Inl e \<Rightarrow> Inr (e, S)
                | Inr d \<Rightarrow> bind_res (rmdir_found E Y path i d S) (\<lambda>(error, S). Inr (error, t_dput d S))) (\<lambda>(error, S).
      Inr (error, drop_write Y m (dir_unlock i S))))))))"

definition do_rmdir :: "('k, 'a) walk_env \<Rightarrow> 'k sys_env \<Rightarrow> int \<Rightarrow> 'k getname \<Rightarrow> 'k task \<Rightarrow> (int \<times> 'k task) res" where
  "do_rmdir E Y dfd pathname S =
     estale_loop (\<lambda>flags S.
       let (name, S) = ask pathname S in
       bind_res (t_parentat E dfd name flags S) (\<lambda>(error, parent, S).
       case parent of
         None \<Rightarrow> Inr (False, error, S)
       | Some (path, h, nm, type) \<Rightarrow>
           bind_res (rmdir_parent E Y path h nm type flags S) (\<lambda>(error, S). Inr (True, error, t_path_put path S)))) 0 S"

text \<open>
  The victim of an unlink: the error code, the inode to put, and the delegation to wait for. A name that
  ends with slashes, or that leads nowhere, is refused.
\<close>

definition unlink_found ::
  "('k, 'a) walk_env \<Rightarrow> 'k sys_env \<Rightarrow> vpath \<Rightarrow> nat \<Rightarrow> u64 \<Rightarrow> bytes \<Rightarrow> nat \<Rightarrow> 'k task \<Rightarrow> (int \<times> nat option \<times> nat option \<times> 'k task) res" where
  "unlink_found E Y path i h nm d S =
     (let dn = w_dentry E (now S) d;
          slashes = (if kd_type dn = MissType then - ENOENT else if dtype_is_dir (kd_type dn) then - EISDIR else - ENOTDIR) in
      bind_res (after_last h nm) (\<lambda>c.
      if c \<noteq> 0 then Inr (slashes, None, None, S)
      else if kd_type dn = MissType then Inr (slashes, kd_inode dn, None, S)
      else bind_res (null_ok (kd_inode dn)) (\<lambda>a.
           let S = t_ihold a S; error = y_security Y (HookUnlink path d) (now S) in
           if error \<noteq> 0 then Inr (error, Some a, None, S)
           else bind_res (call_vfs Y d (\<lambda>dn. vfs_unlink (y_plat Y) (y_kenv Y) (y_junk Y) (w_cred E) (y_sole Y (now S) d) i dn) S) (\<lambda>(error, S).
                Inr (error, Some a, y_delegated Y error (now S), S)))))"

fun unlink_deleg ::
  "('k, 'a) walk_env \<Rightarrow> 'k sys_env \<Rightarrow> nat \<Rightarrow> vpath \<Rightarrow> u64 \<Rightarrow> bytes \<Rightarrow> u32 \<Rightarrow> 'k task \<Rightarrow> (int \<times> 'k task) res" where
  "unlink_deleg E Y 0 path h nm flags S = Inl Livelock"
| "unlink_deleg E Y (Suc n) path h nm flags S =
     bind_res (null_ok (p_dentry path)) (\<lambda>dir.
     bind_res (dir_lock E dir S) (\<lambda>(i, S).
     bind_res (t_lookup_hash E Y h nm dir flags S) (\<lambda>(r, S).
     bind_res (case r of
                 Inl e \<Rightarrow> Inr (e, None, None, S)
               | Inr d \<Rightarrow> bind_res (unlink_found E Y path i h nm d S) (\<lambda>(error, a, deleg, S). Inr (error, a, deleg, t_dput d S))) (\<lambda>(error, a, deleg, S).
     let S = dir_unlock i S; S = (case a of None \<Rightarrow> S | Some a \<Rightarrow> t_iput Y a S) in
     case deleg of
       None \<Rightarrow> Inr (error, S)
     | Some j \<Rightarrow>
         let (error, S) = ask (y_break_deleg_wait Y j) S in
         if error = 0 then unlink_deleg E Y n path h nm flags S else Inr (error, S)))))"

definition do_unlinkat :: "('k, 'a) walk_env \<Rightarrow> 'k sys_env \<Rightarrow> int \<Rightarrow> int + bytes \<Rightarrow> 'k task \<Rightarrow> (int \<times> 'k task) res" where
  "do_unlinkat E Y dfd name S =
     estale_loop (\<lambda>flags S.
       bind_res (t_parentat E dfd name flags S) (\<lambda>(error, parent, S).
       case parent of
         None \<Rightarrow> Inr (False, error, S)
       | Some (path, h, nm, type) \<Rightarrow>
           bind_res
             (if type \<noteq> LAST_NORM then Inr (- EISDIR, S)
              else bind_res (null_ok (p_mnt path)) (\<lambda>m.
                   let (error, S) = want_write Y m S in
                   if error \<noteq> 0 then Inr (error, S)
                   else bind_res (unlink_deleg E Y (w_fuel E) path h nm flags S) (\<lambda>(error, S). Inr (error, drop_write Y m S)))) (\<lambda>(error, S).
           Inr (True, error, t_path_put path S)))) 0 S"

end
