(* ===== verification/Sys_Move.thy ===== *)
theory Sys_Move
  imports Sys_Paths
begin

text \<open>
  The system calls with two names, \<open>do_linkat\<close> and \<open>do_renameat2\<close> (\<open>extra/namei.c\<close>), and the table of the
  system calls. Waiting for a delegation to be given up and starting over can go on as long as the rest
  of the kernel hands out delegations, so these loops take \<open>w_fuel\<close> rounds at most.
\<close>

section \<open>Hard links\<close>

definition t_lookup ::
  "('k, 'a) walk_env \<Rightarrow> int \<Rightarrow> int + bytes \<Rightarrow> u32 \<Rightarrow> 'k task \<Rightarrow> (int \<times> vpath option \<times> 'k task) res" where
  "t_lookup E dfd name flags S =
     bind_res (filename_lookup E dfd name flags None None (wk S)) (\<lambda>(error, path, _, W). Inr (error, path, S\<lparr>wk := W\<rparr>))"

definition t_may_linkat :: "('k, 'a) walk_env \<Rightarrow> nat \<Rightarrow> 'k task \<Rightarrow> (int \<times> 'k task) res" where
  "t_may_linkat E d S =
     bind_res (null_ok (kd_inode (w_dentry E (now S) d))) (\<lambda>a.
     let (error, v) = may_linkat (w_cred E) (w_inode E (now S) a) in
     Inr (error, S\<lparr>wk := (wk S)\<lparr>world := w_put_inode E a v (now S)\<rparr>\<rparr>))"

text \<open>The error code and the delegation to wait for.\<close>

definition link_work ::
  "('k, 'a) walk_env \<Rightarrow> 'k sys_env \<Rightarrow> vpath \<Rightarrow> nat \<Rightarrow> vpath \<Rightarrow> nat \<Rightarrow> 'k task \<Rightarrow> (int \<times> nat option \<times> 'k task) res" where
  "link_work E Y old_path d new_path i S =
     (if p_mnt old_path \<noteq> p_mnt new_path then Inr (- EXDEV, None, S)
      else bind_res (null_ok (p_dentry old_path)) (\<lambda>old.
      bind_res (t_may_linkat E old S) (\<lambda>(error, S).
      if error \<noteq> 0 then Inr (error, None, S)
      else let error = y_security Y (HookLink (p_dentry old_path) new_path d) (now S) in
      if error \<noteq> 0 then Inr (error, None, S)
      else bind_res (vfs_link (y_ops Y) (w_cred E) (y_dentry Y (now S) old) i (y_dentry Y (now S) d) (enter_fs Y S)) (\<lambda>(error, M).
           let S = leave_fs Y M S in Inr (error, y_delegated Y error (now S), S)))))"

fun linkat_loop ::
  "('k, 'a) walk_env \<Rightarrow> 'k sys_env \<Rightarrow> nat \<Rightarrow> int \<Rightarrow> 'k getname \<Rightarrow> int \<Rightarrow> 'k getname \<Rightarrow> u32 \<Rightarrow> 'k task \<Rightarrow> (int \<times> 'k task) res" where
  "linkat_loop E Y 0 olddfd oldname newdfd newname how S = Inl Livelock"
| "linkat_loop E Y (Suc n) olddfd oldname newdfd newname how S =
     (let (name, S) = ask oldname S in
      bind_res (t_lookup E olddfd name how S) (\<lambda>(error, path, S).
      case path of
        None \<Rightarrow> Inr (error, S)
      | Some old_path \<Rightarrow>
          let (name, S) = ask newname S in
          bind_res (filename_create E Y newdfd name (how AND LOOKUP_REVAL) S) (\<lambda>(r, S).
          case r of
            Inl e \<Rightarrow> Inr (e, t_path_put old_path S)
          | Inr (d, new_path, m, i) \<Rightarrow>
              bind_res (link_work E Y old_path d new_path i S) (\<lambda>(error, deleg, S).
              let S = done_path_create Y (d, new_path, m, i) S;
                  (error, S) = (case deleg of None \<Rightarrow> (error, S) | Some j \<Rightarrow> ask (y_break_deleg_wait Y j) S);
                  S = t_path_put old_path S in
              if deleg \<noteq> None \<and> error = 0 then linkat_loop E Y n olddfd oldname newdfd newname how S
              else if retry_estale error how then linkat_loop E Y n olddfd oldname newdfd newname (how OR LOOKUP_REVAL) S
              else Inr (error, S)))))"

definition do_linkat ::
  "('k, 'a) walk_env \<Rightarrow> 'k sys_env \<Rightarrow> int \<Rightarrow> 'k getname \<Rightarrow> int \<Rightarrow> 'k getname \<Rightarrow> u32 \<Rightarrow> 'k task \<Rightarrow> (int \<times> 'k task) res" where
  "do_linkat E Y olddfd oldname newdfd newname flags S =
     (if flags AND NOT (AT_SYMLINK_FOLLOW OR AT_EMPTY_PATH) \<noteq> 0 then Inr (- EINVAL, S)
      else if flags AND AT_EMPTY_PATH \<noteq> 0 \<and> \<not> capable (w_cred E) CAP_DAC_READ_SEARCH then Inr (- ENOENT, S)
      else let how = (if flags AND AT_EMPTY_PATH \<noteq> 0 then LOOKUP_EMPTY else 0);
               how = (if flags AND AT_SYMLINK_FOLLOW \<noteq> 0 then how OR LOOKUP_FOLLOW else how) in
           linkat_loop E Y (w_fuel E) olddfd oldname newdfd newname how S)"

section \<open>Renames\<close>

text \<open>The parent that is locked first and its inode, then the other one.\<close>

definition t_lock_rename ::
  "('k, 'a) walk_env \<Rightarrow> 'k sys_env \<Rightarrow> nat \<Rightarrow> nat \<Rightarrow> 'k task \<Rightarrow> (nat option \<times> nat \<times> nat \<times> 'k task) res" where
  "t_lock_rename E Y p1 p2 S =
     bind_res (null_ok (kd_inode (w_dentry E (now S) p1))) (\<lambda>i1.
     bind_res (null_ok (kd_inode (w_dentry E (now S) p2))) (\<lambda>i2.
     bind_res (lock_rename (y_d_ancestor Y (now S)) (\<lambda>p. if p = p1 then i1 else i2) p1 p2 (enter_fs Y S)) (\<lambda>(trap, M).
     Inr (trap, i1, i2, leave_fs Y M S))))"

definition t_unlock_rename :: "'k sys_env \<Rightarrow> nat \<Rightarrow> nat \<Rightarrow> nat \<Rightarrow> nat \<Rightarrow> 'k task \<Rightarrow> 'k task" where
  "t_unlock_rename Y p1 i1 p2 i2 S =
     leave_fs Y (unlock_rename (\<lambda>p. if p = p1 then i1 else i2) p1 p2 (enter_fs Y S)) S"

definition exchange_error :: "dtype \<Rightarrow> u64 \<Rightarrow> bytes \<Rightarrow> u32 \<Rightarrow> int res" where
  "exchange_error new_type h nm flags =
     (if flags AND RENAME_EXCHANGE = 0 then Inr 0
      else if new_type = MissType then Inr (- ENOENT)
      else if \<not> dtype_is_dir new_type then bind_res (after_last h nm) (\<lambda>c. Inr (if c \<noteq> 0 then - ENOTDIR else 0))
      else Inr 0)"

text \<open>Unless the source is a directory, trailing slashes give \<open>ENOTDIR\<close>.\<close>

definition slashes_error :: "dtype \<Rightarrow> u64 \<Rightarrow> bytes \<Rightarrow> u64 \<Rightarrow> bytes \<Rightarrow> u32 \<Rightarrow> int res" where
  "slashes_error old_type oh onm nh nnm flags =
     (if dtype_is_dir old_type then Inr 0
      else bind_res (after_last oh onm) (\<lambda>c.
      if c \<noteq> 0 then Inr (- ENOTDIR)
      else if flags AND RENAME_EXCHANGE = 0 then bind_res (after_last nh nnm) (\<lambda>c. Inr (if c \<noteq> 0 then - ENOTDIR else 0))
      else Inr 0))"

definition rename_error ::
  "('k, 'a) walk_env \<Rightarrow> nat \<Rightarrow> u64 \<Rightarrow> bytes \<Rightarrow> nat \<Rightarrow> u64 \<Rightarrow> bytes \<Rightarrow> nat option \<Rightarrow> u32 \<Rightarrow> 'k task \<Rightarrow> int res" where
  "rename_error E old oh onm new nh nnm trap flags S =
     (let old_type = kd_type (w_dentry E (now S) old); new_type = kd_type (w_dentry E (now S) new) in
      if flags AND RENAME_NOREPLACE \<noteq> 0 \<and> new_type \<noteq> MissType then Inr (- EEXIST)
      else bind_res (exchange_error new_type nh nnm flags) (\<lambda>error.
      if error \<noteq> 0 then Inr error
      else bind_res (slashes_error old_type oh onm nh nnm flags) (\<lambda>error.
      if error \<noteq> 0 then Inr error
      else if trap = Some old then Inr (- EINVAL)
      else if trap = Some new then Inr (if flags AND RENAME_EXCHANGE = 0 then - ENOTEMPTY else - EINVAL)
      else Inr 0)))"

definition call_rename ::
  "('k, 'a) walk_env \<Rightarrow> 'k sys_env \<Rightarrow> vpath \<Rightarrow> nat \<Rightarrow> nat \<Rightarrow> vpath \<Rightarrow> nat \<Rightarrow> nat \<Rightarrow> u32 \<Rightarrow> 'k task \<Rightarrow> (int \<times> nat option \<times> 'k task) res" where
  "call_rename E Y old_path oi old new_path ni new flags S =
     (let error = y_security Y (HookRename old_path old new_path new flags) (now S) in
      if error \<noteq> 0 then Inr (error, None, S)
      else let M = enter_fs Y S in
      bind_res (vfs_rename (y_ops Y) (w_cred E) oi (y_dentry Y (now S) old) ni (y_dentry Y (now S) new) flags (vfs M)) (\<lambda>(error, odn, ndn, V).
      let S = set_dentry Y new ndn (set_dentry Y old odn (leave_fs Y (M\<lparr>vfs := V\<rparr>) S)) in
      Inr (error, y_delegated Y error (now S), S)))"

text \<open>With the source found: the target is looked up, and dropped after the work.\<close>

definition rename_target ::
  "('k, 'a) walk_env \<Rightarrow> 'k sys_env \<Rightarrow> vpath \<Rightarrow> nat \<Rightarrow> nat \<Rightarrow> u64 \<Rightarrow> bytes \<Rightarrow> vpath \<Rightarrow> nat \<Rightarrow> nat \<Rightarrow> u64 \<Rightarrow> bytes \<Rightarrow>
   nat option \<Rightarrow> u32 \<Rightarrow> u32 \<Rightarrow> 'k task \<Rightarrow> (int \<times> nat option \<times> 'k task) res" where
  "rename_target E Y old_path oi old oh onm new_path np ni nh nnm trap flags target_flags S =
     bind_res (t_lookup_hash E Y nh nnm np target_flags S) (\<lambda>(r, S).
     case r of
       Inl e \<Rightarrow> Inr (e, None, S)
     | Inr new \<Rightarrow>
         bind_res (rename_error E old oh onm new nh nnm trap flags S) (\<lambda>error.
         bind_res (if error \<noteq> 0 then Inr (error, None, S) else call_rename E Y old_path oi old new_path ni new flags S) (\<lambda>(error, deleg, S).
         Inr (error, deleg, t_dput new S))))"

fun rename_deleg ::
  "('k, 'a) walk_env \<Rightarrow> 'k sys_env \<Rightarrow> nat \<Rightarrow> vpath \<Rightarrow> u64 \<Rightarrow> bytes \<Rightarrow> vpath \<Rightarrow> u64 \<Rightarrow> bytes \<Rightarrow> u32 \<Rightarrow> u32 \<Rightarrow> u32 \<Rightarrow> 'k task \<Rightarrow> (int \<times> 'k task) res" where
  "rename_deleg E Y 0 old_path oh onm new_path nh nnm flags lookup_flags target_flags S = Inl Livelock"
| "rename_deleg E Y (Suc n) old_path oh onm new_path nh nnm flags lookup_flags target_flags S =
     bind_res (null_ok (p_dentry new_path)) (\<lambda>np.
     bind_res (null_ok (p_dentry old_path)) (\<lambda>op.
     bind_res (t_lock_rename E Y np op S) (\<lambda>(trap, ni, oi, S).
     bind_res (t_lookup_hash E Y oh onm op lookup_flags S) (\<lambda>(r, S).
     bind_res (case r of
                 Inl e \<Rightarrow> Inr (e, None, S)
               | Inr old \<Rightarrow>
                   bind_res (if kd_type (w_dentry E (now S) old) = MissType then Inr (- ENOENT, None, S)
                             else rename_target E Y old_path oi old oh onm new_path np ni nh nnm trap flags (lookup_flags OR target_flags) S)
                     (\<lambda>(error, deleg, S). Inr (error, deleg, t_dput old S))) (\<lambda>(error, deleg, S).
     let S = t_unlock_rename Y np ni op oi S in
     case deleg of
       None \<Rightarrow> Inr (error, S)
     | Some j \<Rightarrow>
         let (error, S) = ask (y_break_deleg_wait Y j) S in
         if error = 0 then rename_deleg E Y n old_path oh onm new_path nh nnm flags lookup_flags target_flags S else Inr (error, S))))))"

text \<open>With both parents found: the checks that need no lock.\<close>

definition rename_parents ::
  "('k, 'a) walk_env \<Rightarrow> 'k sys_env \<Rightarrow> vpath \<times> u64 \<times> bytes \<times> last_type \<Rightarrow> vpath \<times> u64 \<times> bytes \<times> last_type \<Rightarrow> u32 \<Rightarrow> u32 \<Rightarrow>
   'k task \<Rightarrow> (int \<times> 'k task) res" where
  "rename_parents E Y old new flags lookup_flags S =
     (case (old, new) of ((old_path, oh, onm, old_type), (new_path, nh, nnm, new_type)) \<Rightarrow>
      if p_mnt old_path \<noteq> p_mnt new_path then Inr (- EXDEV, S)
      else if old_type \<noteq> LAST_NORM then Inr (- EBUSY, S)
      else if new_type \<noteq> LAST_NORM then Inr (if flags AND RENAME_NOREPLACE \<noteq> 0 then - EEXIST else - EBUSY, S)
      else bind_res (null_ok (p_mnt old_path)) (\<lambda>m.
           let (error, S) = want_write Y m S in
           if error \<noteq> 0 then Inr (error, S)
           else bind_res (rename_deleg E Y (w_fuel E) old_path oh onm new_path nh nnm flags lookup_flags
                            (if flags AND RENAME_EXCHANGE \<noteq> 0 then 0 else LOOKUP_RENAME_TARGET) S) (\<lambda>(error, S).
                Inr (error, drop_write Y m S))))"

definition rename_once ::
  "('k, 'a) walk_env \<Rightarrow> 'k sys_env \<Rightarrow> int \<Rightarrow> 'k getname \<Rightarrow> int \<Rightarrow> 'k getname \<Rightarrow> u32 \<Rightarrow> u32 \<Rightarrow> 'k task \<Rightarrow> (bool \<times> int \<times> 'k task) res" where
  "rename_once E Y olddfd oldname newdfd newname flags lookup_flags S =
     (let (from, S) = ask oldname S in
      bind_res (t_parentat E olddfd from lookup_flags S) (\<lambda>(error, old, S).
      case old of
        None \<Rightarrow> Inr (False, error, S)
      | Some (old_path, oh, onm, old_type) \<Rightarrow>
          let (to, S) = ask newname S in
          bind_res (t_parentat E newdfd to lookup_flags S) (\<lambda>(error, new, S).
          case new of
            None \<Rightarrow> Inr (False, error, t_path_put old_path S)
          | Some (new_path, nh, nnm, new_type) \<Rightarrow>
              bind_res (rename_parents E Y (old_path, oh, onm, old_type) (new_path, nh, nnm, new_type) flags lookup_flags S) (\<lambda>(error, S).
              Inr (True, error, t_path_put old_path (t_path_put new_path S))))))"

definition do_renameat2 ::
  "('k, 'a) walk_env \<Rightarrow> 'k sys_env \<Rightarrow> int \<Rightarrow> 'k getname \<Rightarrow> int \<Rightarrow> 'k getname \<Rightarrow> u32 \<Rightarrow> 'k task \<Rightarrow> (int \<times> 'k task) res" where
  "do_renameat2 E Y olddfd oldname newdfd newname flags S =
     (if flags AND NOT (RENAME_NOREPLACE OR RENAME_EXCHANGE OR RENAME_WHITEOUT) \<noteq> 0 then Inr (- EINVAL, S)
      else if flags AND (RENAME_NOREPLACE OR RENAME_WHITEOUT) \<noteq> 0 \<and> flags AND RENAME_EXCHANGE \<noteq> 0 then Inr (- EINVAL, S)
      else if flags AND RENAME_WHITEOUT \<noteq> 0 \<and> \<not> capable (w_cred E) CAP_MKNOD then Inr (- EPERM, S)
      else estale_loop (rename_once E Y olddfd oldname newdfd newname flags) 0 S)"

section \<open>The system calls\<close>

text \<open>The calls without a directory descriptor pass \<open>AT_FDCWD\<close>; \<open>rename\<close> and \<open>renameat\<close> pass no flags.\<close>

definition AT_REMOVEDIR :: u32 where [vfs_simps]: "AT_REMOVEDIR = 0x200"

datatype 'k syscall =
    Mknodat int "'k getname" u16 u32
  | Mkdirat int "'k getname" u16
  | Rmdir "'k getname"
  | Unlinkat int "'k getname" u32
  | Symlinkat "'k getname" int "'k getname"
  | Linkat int "'k getname" int "'k getname" u32
  | Renameat2 int "'k getname" int "'k getname" u32

definition sys_unlinkat :: "('k, 'a) walk_env \<Rightarrow> 'k sys_env \<Rightarrow> int \<Rightarrow> 'k getname \<Rightarrow> u32 \<Rightarrow> 'k task \<Rightarrow> (int \<times> 'k task) res" where
  "sys_unlinkat E Y dfd pathname flag S =
     (if flag AND NOT AT_REMOVEDIR \<noteq> 0 then Inr (- EINVAL, S)
      else if flag AND AT_REMOVEDIR \<noteq> 0 then do_rmdir E Y dfd pathname S
      else let (name, S) = ask pathname S in do_unlinkat E Y dfd name S)"

definition run_syscall :: "('k, 'a) walk_env \<Rightarrow> 'k sys_env \<Rightarrow> 'k syscall \<Rightarrow> 'k task \<Rightarrow> (int \<times> 'k task) res" where
  "run_syscall E Y c =
     (case c of
        Mknodat dfd name mode dev \<Rightarrow> do_mknodat E Y dfd name mode dev
      | Mkdirat dfd name mode \<Rightarrow> do_mkdirat E Y dfd name mode
      | Rmdir name \<Rightarrow> do_rmdir E Y AT_FDCWD name
      | Unlinkat dfd name flag \<Rightarrow> sys_unlinkat E Y dfd name flag
      | Symlinkat old dfd new \<Rightarrow> do_symlinkat E Y old dfd new
      | Linkat odfd old ndfd new flags \<Rightarrow> do_linkat E Y odfd old ndfd new flags
      | Renameat2 odfd old ndfd new flags \<Rightarrow> do_renameat2 E Y odfd old ndfd new flags)"

fun run_syscalls :: "('k, 'a) walk_env \<Rightarrow> 'k sys_env \<Rightarrow> 'k syscall list \<Rightarrow> 'k task \<Rightarrow> (int list \<times> 'k task) res" where
  "run_syscalls E Y [] S = Inr ([], S)"
| "run_syscalls E Y (c # cs) S =
     bind_res (run_syscall E Y c S) (\<lambda>(r, S). bind_res (run_syscalls E Y cs S) (\<lambda>(rs, S). Inr (r # rs, S)))"

end
