(* ===== verification/Walk_Refs.thy ===== *)
theory Walk_Refs
  imports Path_Walk
begin

text \<open>
  What a path walk owes. In reference mode a walk holds one reference for its current path, one for
  every link on its stack and one for the root it has looked up itself; in RCU mode it holds none but
  is in an RCU read section. \<open>bal\<close> is the number of references of the task less what the walk holds:
  no function of the walk changes it, on success or on failure, and that is why \<open>terminate_walk\<close>
  leaves nothing behind. The predicates \<open>ok\<close> and \<open>bad\<close> add what a step keeps of the stack of links.
\<close>

section \<open>Operations that do not get stuck on their own\<close>

text \<open>
  Null pointers, the \<open>BUG_ON\<close>s and loops that never end are up to the rest of the kernel; an array or
  string overrun and a loop of the walk itself that does not end are not.
\<close>

definition safe :: "('a \<Rightarrow> bool) \<Rightarrow> 'a res \<Rightarrow> bool" where
  "safe Q r = (case r of Inl e \<Rightarrow> e \<in> {NullDeref, KernelBug, Livelock} | Inr x \<Rightarrow> Q x)"

lemma safe_Inr [simp]: "safe Q (Inr x) = Q x"
  by (simp add: safe_def)

lemma safe_Inl [simp]: "safe Q (Inl e) = (e \<in> {NullDeref, KernelBug, Livelock})"
  by (simp add: safe_def)

lemma safe_bind [simp]: "safe Q (bind_res m f) = safe (\<lambda>x. safe Q (f x)) m"
  by (cases m) simp_all

lemma safe_mono: "safe R r \<Longrightarrow> (\<And>x. R x \<Longrightarrow> Q x) \<Longrightarrow> safe Q r"
  by (cases r) simp_all

lemma safe_null_ok [simp]: "safe Q (null_ok p) = (\<forall>a. p = Some a \<longrightarrow> Q a)"
  by (simp add: null_ok_def split: option.split)

lemma safe_if: "(b \<Longrightarrow> safe Q r) \<Longrightarrow> (\<not> b \<Longrightarrow> safe Q s) \<Longrightarrow> safe Q (if b then r else s)"
  by simp

lemma safe_prod: "(\<And>x y. p = (x, y) \<Longrightarrow> safe Q (f x y)) \<Longrightarrow> safe Q (case p of (x, y) \<Rightarrow> f x y)"
  by (cases p) simp

lemma safe_kop: "(\<And>r w. safe Q (f r (S\<lparr>world := w\<rparr>))) \<Longrightarrow> safe Q (case kop g S of (r, S') \<Rightarrow> f r S')"
  by (simp add: kop_def split: prod.split)

lemma safe_get_saved: "i < length (nd_stack S) \<Longrightarrow> (safe Q (get_saved S i)) = Q (nd_stack S ! i)"
  by (simp add: get_saved_def)

section \<open>References\<close>

text \<open>The references of the task, to dentries on the left and to mounts on the right.\<close>

definition refs :: "'k walk \<Rightarrow> nat + nat \<Rightarrow> int" where
  "refs S x = (case x of Inl a \<Rightarrow> dref S a | Inr a \<Rightarrow> mref S a)"

definition d_ref :: "nat option \<Rightarrow> nat + nat \<Rightarrow> int" where
  "d_ref p x = (case x of Inl a \<Rightarrow> if p = Some a then 1 else 0 | Inr _ \<Rightarrow> 0)"

definition m_ref :: "nat option \<Rightarrow> nat + nat \<Rightarrow> int" where
  "m_ref p x = (case x of Inl _ \<Rightarrow> 0 | Inr a \<Rightarrow> if p = Some a then 1 else 0)"

definition path_refs :: "vpath \<Rightarrow> nat + nat \<Rightarrow> int" where
  "path_refs p x = d_ref (p_dentry p) x + m_ref (p_mnt p) x"

definition link_refs :: "'k walk \<Rightarrow> nat + nat \<Rightarrow> int" where
  "link_refs S x = (\<Sum>s\<leftarrow>take (nd_depth S) (nd_stack S). path_refs (s_link s) x)"

definition root_refs :: "'k walk \<Rightarrow> nat + nat \<Rightarrow> int" where
  "root_refs S x = (if p_mnt (nd_root S) \<noteq> None \<and> \<not> has_root_flag S then path_refs (nd_root S) x else 0)"

definition held :: "'k walk \<Rightarrow> nat + nat \<Rightarrow> int" where
  "held S x = (if in_rcu S then 0 else path_refs (nd_path S) x + link_refs S x + root_refs S x)"

definition bal :: "'k walk \<Rightarrow> nat + nat \<Rightarrow> int" where
  "bal S x = refs S x - held S x"

definition rbal :: "'k walk \<Rightarrow> int" where
  "rbal S = rcu_nest S - (if in_rcu S then 1 else 0)"

definition acct :: "(nat + nat \<Rightarrow> int) \<Rightarrow> 'k walk \<Rightarrow> 'k walk \<Rightarrow> bool" where
  "acct f K S \<longleftrightarrow> (\<forall>x. bal S x = bal K x + f x) \<and> rbal S = rbal K \<and> ishared S = ishared K"

lemma d_ref_None [simp]: "d_ref None x = 0"
  by (simp add: d_ref_def split: sum.split)

lemma m_ref_None [simp]: "m_ref None x = 0"
  by (simp add: m_ref_def split: sum.split)

lemma path_refs_null [simp]: "path_refs null_path x = 0"
  by (simp add: path_refs_def null_path_def)

lemma refs_get_put [simp]:
  "refs (dget d S) x = refs S x + d_ref d x" "refs (dput d S) x = refs S x - d_ref d x"
  "refs (mntget m S) x = refs S x + m_ref m x" "refs (mntput m S) x = refs S x - m_ref m x"
  "refs (path_get p S) x = refs S x + path_refs p x" "refs (path_put p S) x = refs S x - path_refs p x"
  by (auto simp: refs_def dget_def dput_def mntget_def mntput_def add_ref_def d_ref_def m_ref_def path_refs_def
      path_get_def path_put_def split: sum.split option.split)

lemma refs_cong: "dref T = dref S \<Longrightarrow> mref T = mref S \<Longrightarrow> refs T = refs S"
  by (simp add: refs_def fun_eq_iff split: sum.split)

lemma refs_frame [simp]:
  "refs (S\<lparr>world := w\<rparr>) = refs S" "refs (S\<lparr>nd_path := p\<rparr>) = refs S" "refs (S\<lparr>nd_root := p\<rparr>) = refs S"
  "refs (S\<lparr>nd_stack := st\<rparr>) = refs S" "refs (S\<lparr>nd_depth := k\<rparr>) = refs S" "refs (S\<lparr>nd_flags := g\<rparr>) = refs S"
  "refs (S\<lparr>rcu_nest := n\<rparr>) = refs S" "refs (clear_rcu S) = refs S" "refs (drop_root S) = refs S" "refs (rcu_read_unlock S) = refs S"
  "refs (rcu_read_lock S) = refs S" "refs (S\<lparr>world := w, dref := d, mref := m\<rparr>) = refs (S\<lparr>dref := d, mref := m\<rparr>)"
  by (rule refs_cong; simp add: clear_rcu_def drop_root_def rcu_read_unlock_def rcu_read_lock_def)+

section \<open>The stack of links\<close>

text \<open>What every step keeps, and what a step that does not fail keeps.\<close>

definition last_ok :: "'k walk \<Rightarrow> bool" where
  "last_ok S \<longleftrightarrow> (nd_last_type S = LAST_NORM \<longrightarrow> hashlen_len (nd_last_hash S) < length (nd_last_name S))"

definition shrinks :: "'k walk \<Rightarrow> 'k walk \<Rightarrow> bool" where
  "shrinks K S \<longleftrightarrow> nd_depth S \<le> nd_depth K \<and> length (nd_stack S) = length (nd_stack K) \<and> nd_heap S = nd_heap K \<and>
     nd_total_link_count K \<le> nd_total_link_count S \<and> nd_name S = nd_name K \<and> nd_dfd S = nd_dfd K \<and>
     has_root_flag S = has_root_flag K \<and>
     (has_root_flag K \<and> p_mnt (nd_root K) \<noteq> None \<longrightarrow> nd_root S = nd_root K) \<and> (in_rcu S \<longrightarrow> in_rcu K) \<and>
     (last_ok K \<longrightarrow> last_ok S)"

definition keeps :: "'k walk \<Rightarrow> 'k walk \<Rightarrow> bool" where
  "keeps K S \<longleftrightarrow> shrinks K S \<and> nd_depth S = nd_depth K \<and> map s_name (nd_stack S) = map s_name (nd_stack K)"

definition ok :: "'k walk \<Rightarrow> (nat + nat \<Rightarrow> int) \<Rightarrow> 'k walk \<Rightarrow> bool" where
  "ok K f S \<longleftrightarrow> acct f K S \<and> keeps K S"

definition bad :: "'k walk \<Rightarrow> (nat + nat \<Rightarrow> int) \<Rightarrow> 'k walk \<Rightarrow> bool" where
  "bad K f S \<longleftrightarrow> acct f K S \<and> shrinks K S"


lemmas balance_defs = acct_def bal_def rbal_def held_def link_refs_def root_refs_def
lemmas step_defs = ok_def bad_def keeps_def shrinks_def balance_defs

lemma ok_bad: "ok K f S \<Longrightarrow> bad K f S"
  by (simp add: ok_def bad_def keeps_def)

lemma okI: "ok K g S \<Longrightarrow> (\<And>x. f x = g x) \<Longrightarrow> ok K f S"
  by (simp add: ok_def acct_def)

lemma badI: "bad K g S \<Longrightarrow> (\<And>x. f x = g x) \<Longrightarrow> bad K f S"
  by (simp add: bad_def acct_def)

lemma ok_refl [simp]: "ok S (\<lambda>x. 0) S"
  by (simp add: step_defs)

lemma ok_not_rcu: "ok K f S \<Longrightarrow> \<not> in_rcu K \<Longrightarrow> \<not> in_rcu S"
  by (auto simp: ok_def keeps_def shrinks_def)

section \<open>Rewriting\<close>

text \<open>Updates that neither matter for the references nor for the stack.\<close>

lemma flags_frame [simp]:
  "in_rcu (S\<lparr>world := w\<rparr>) = in_rcu S" "has_root_flag (S\<lparr>world := w\<rparr>) = has_root_flag S"
  "in_rcu (S\<lparr>nd_path := p\<rparr>) = in_rcu S" "has_root_flag (S\<lparr>nd_path := p\<rparr>) = has_root_flag S"
  "in_rcu (S\<lparr>nd_inode := i\<rparr>) = in_rcu S" "in_rcu (S\<lparr>nd_seq := n\<rparr>) = in_rcu S" "in_rcu (S\<lparr>nd_root := p\<rparr>) = in_rcu S"
  "in_rcu (S\<lparr>nd_depth := k\<rparr>) = in_rcu S" "in_rcu (S\<lparr>nd_stack := st\<rparr>) = in_rcu S" "in_rcu (S\<lparr>nd_root_seq := n\<rparr>) = in_rcu S"
  "in_rcu (S\<lparr>nd_total_link_count := c\<rparr>) = in_rcu S" "in_rcu (S\<lparr>nd_m_seq := n\<rparr>) = in_rcu S"
  "in_rcu (dget d S) = in_rcu S" "in_rcu (dput d S) = in_rcu S" "in_rcu (mntget m S) = in_rcu S" "in_rcu (mntput m S) = in_rcu S"
  "in_rcu (path_get q S) = in_rcu S" "in_rcu (path_put q S) = in_rcu S"
  "in_rcu (inode_lock_shared j S) = in_rcu S" "in_rcu (inode_unlock_shared j S) = in_rcu S" "in_rcu (drop_root S) = in_rcu S"
  "has_root_flag (S\<lparr>nd_root := p\<rparr>) = has_root_flag S" "has_root_flag (dget d S) = has_root_flag S"
  "has_root_flag (dput d S) = has_root_flag S" "has_root_flag (mntget m S) = has_root_flag S"
  "has_root_flag (mntput m S) = has_root_flag S" "has_root_flag (path_get q S) = has_root_flag S"
  "has_root_flag (path_put q S) = has_root_flag S" "has_root_flag (S\<lparr>nd_depth := k\<rparr>) = has_root_flag S"
  "has_root_flag (S\<lparr>nd_stack := st\<rparr>) = has_root_flag S"
  by (simp_all add: in_rcu_def has_root_flag_def dget_def dput_def mntget_def mntput_def path_get_def path_put_def
      inode_lock_shared_def inode_unlock_shared_def drop_root_def)

lemma sel_frame [simp]:
  "world (dget d S) = world S" "world (dput d S) = world S" "world (mntget m S) = world S" "world (mntput m S) = world S"
  "nd_path (dget d S) = nd_path S" "nd_path (dput d S) = nd_path S" "nd_path (mntget m S) = nd_path S" "nd_path (mntput m S) = nd_path S"
  "world (path_get q S) = world S" "world (path_put q S) = world S" "nd_path (path_get q S) = nd_path S" "nd_path (path_put q S) = nd_path S"
  "nd_root (path_get q S) = nd_root S" "nd_root (path_put q S) = nd_root S"
  "nd_root (dget d S) = nd_root S" "nd_root (dput d S) = nd_root S" "nd_root (mntget m S) = nd_root S" "nd_root (mntput m S) = nd_root S"
  "nd_depth (dget d S) = nd_depth S" "nd_depth (dput d S) = nd_depth S" "nd_depth (mntget m S) = nd_depth S" "nd_depth (mntput m S) = nd_depth S"
  "nd_stack (dget d S) = nd_stack S" "nd_stack (dput d S) = nd_stack S" "nd_stack (mntget m S) = nd_stack S" "nd_stack (mntput m S) = nd_stack S"
  "nd_stack (path_get q S) = nd_stack S" "nd_stack (path_put q S) = nd_stack S"
  "nd_depth (path_get q S) = nd_depth S" "nd_depth (path_put q S) = nd_depth S"
  by (simp_all add: dget_def dput_def mntget_def mntput_def path_get_def path_put_def)

lemma flag_bits:
  assumes "c AND d = (0 :: u32)"
  shows "(f OR c) AND d = f AND d" "(f AND NOT c) AND d = f AND d"
proof -
  show "(f OR c) AND d = f AND d" using assms by (simp add: bit.conj_disj_distrib2)
  have "bit c n \<Longrightarrow> \<not> bit d n" for n using assms by (metis bit_and_iff bit_0_eq bot_apply bot_bool_def)
  then show "(f AND NOT c) AND d = f AND d" by (intro bit_word_eqI) (auto simp: bit_simps)
qed

definition same_mode :: "u32 \<Rightarrow> u32 \<Rightarrow> bool" where
  "same_mode g f \<longleftrightarrow> (g AND LOOKUP_RCU = 0) = (f AND LOOKUP_RCU = 0) \<and> (g AND LOOKUP_ROOT = 0) = (f AND LOOKUP_ROOT = 0)"

lemma flag_disjoint:
  "LOOKUP_JUMPED AND LOOKUP_RCU = 0" "LOOKUP_JUMPED AND LOOKUP_ROOT = 0" "LOOKUP_PARENT AND LOOKUP_RCU = 0"
  "LOOKUP_PARENT AND LOOKUP_ROOT = 0" "LOOKUP_FOLLOW AND LOOKUP_RCU = 0" "LOOKUP_FOLLOW AND LOOKUP_ROOT = 0"
  "LOOKUP_DIRECTORY AND LOOKUP_RCU = 0" "LOOKUP_DIRECTORY AND LOOKUP_ROOT = 0" "LOOKUP_RCU AND LOOKUP_ROOT = 0"
  by (simp_all add: vfs_simps)

lemma same_mode [simp]:
  "same_mode (f OR LOOKUP_JUMPED) f" "same_mode (f AND NOT LOOKUP_JUMPED) f" "same_mode (f OR LOOKUP_PARENT) f"
  "same_mode (f AND NOT LOOKUP_PARENT) f" "same_mode (f OR LOOKUP_FOLLOW OR LOOKUP_DIRECTORY) f"
  by (simp_all add: same_mode_def flag_bits flag_disjoint)

lemma flags_mode: "same_mode g (nd_flags S) \<Longrightarrow> in_rcu (S\<lparr>nd_flags := g\<rparr>) = in_rcu S \<and> has_root_flag (S\<lparr>nd_flags := g\<rparr>) = has_root_flag S"
  by (simp add: same_mode_def in_rcu_def has_root_flag_def)


definition same_view :: "'k walk \<Rightarrow> 'k walk \<Rightarrow> bool" where
  "same_view S T \<longleftrightarrow> dref T = dref S \<and> mref T = mref S \<and> ishared T = ishared S \<and> rcu_nest T = rcu_nest S \<and>
     nd_path T = nd_path S \<and> nd_root T = nd_root S \<and> nd_depth T = nd_depth S \<and> nd_stack T = nd_stack S \<and>
     nd_heap T = nd_heap S \<and> nd_name T = nd_name S \<and> nd_dfd T = nd_dfd S \<and>
     in_rcu T = in_rcu S \<and> has_root_flag T = has_root_flag S \<and> last_ok T = last_ok S"

lemma same_view_bal: "same_view S T \<Longrightarrow> bal T = bal S \<and> rbal T = rbal S"
  using refs_cong [of T S] by (auto simp: same_view_def balance_defs)

lemma same_view_ok:
  assumes "same_view S T" "nd_total_link_count T = nd_total_link_count S"
  shows "ok K f T = ok K f S" "bad K f T = bad K f S"
  using same_view_bal [OF assms(1)] assms
  by (simp_all add: ok_def bad_def acct_def keeps_def shrinks_def same_view_def)

lemma ok_frame [simp]:
  "ok K f (S\<lparr>world := w\<rparr>) = ok K f S" "ok K f (S\<lparr>nd_inode := i\<rparr>) = ok K f S" "ok K f (S\<lparr>nd_seq := n\<rparr>) = ok K f S"
  "ok K f (S\<lparr>nd_m_seq := n\<rparr>) = ok K f S" "ok K f (S\<lparr>nd_root_seq := n\<rparr>) = ok K f S" "ok K f (S\<lparr>nd_link_inode := i\<rparr>) = ok K f S"
  "same_mode g (nd_flags S) \<Longrightarrow> ok K f (S\<lparr>nd_flags := g\<rparr>) = ok K f S"
  by (rule same_view_ok; simp add: same_view_def in_rcu_def has_root_flag_def last_ok_def same_mode_def)+

lemma bad_frame [simp]:
  "bad K f (S\<lparr>world := w\<rparr>) = bad K f S" "bad K f (S\<lparr>nd_inode := i\<rparr>) = bad K f S" "bad K f (S\<lparr>nd_seq := n\<rparr>) = bad K f S"
  by (rule same_view_ok; simp add: same_view_def in_rcu_def has_root_flag_def last_ok_def)+

lemma ok_count:
  assumes "ok K f S"
  shows "ok K f (S\<lparr>nd_total_link_count := nd_total_link_count S + 1\<rparr>)"
proof -
  let ?T = "S\<lparr>nd_total_link_count := nd_total_link_count S + 1\<rparr>"
  have "same_view S ?T" by (simp add: same_view_def in_rcu_def has_root_flag_def last_ok_def)
  then show ?thesis using same_view_bal [of S ?T] assms by (simp add: ok_def acct_def keeps_def shrinks_def same_view_def)
qed

lemma ok_bind: "ok K f S \<Longrightarrow> ok K f (S\<lparr>nd_last_type := LAST_BIND\<rparr>)"
proof -
  let ?T = "S\<lparr>nd_last_type := LAST_BIND\<rparr>"
  assume S: "ok K f S"
  have mode: "in_rcu ?T = in_rcu S" "has_root_flag ?T = has_root_flag S" by (simp_all add: in_rcu_def has_root_flag_def)
  have "refs ?T = refs S" by (rule refs_cong) simp_all
  then have "bal ?T x = bal S x" "rbal ?T = rbal S" for x using mode by (simp_all add: balance_defs)
  moreover have "last_ok ?T" by (simp add: last_ok_def)
  ultimately show ?thesis using S mode by (simp add: ok_def acct_def keeps_def shrinks_def)
qed

text \<open>Updates of the reference counts.\<close>

lemma keeps_refs [simp]:
  "keeps K (dget d S) = keeps K S" "keeps K (dput d S) = keeps K S" "keeps K (mntget m S) = keeps K S" "keeps K (mntput m S) = keeps K S"
  "shrinks K (dget d S) = shrinks K S" "shrinks K (dput d S) = shrinks K S"
  "shrinks K (mntget m S) = shrinks K S" "shrinks K (mntput m S) = shrinks K S"
  by (simp_all add: keeps_def shrinks_def dget_def dput_def mntget_def mntput_def in_rcu_def has_root_flag_def last_ok_def)

lemma held_refs [simp]:
  "held (dget d S) x = held S x" "held (dput d S) x = held S x" "held (mntget m S) x = held S x" "held (mntput m S) x = held S x"
  by (simp_all add: held_def link_refs_def root_refs_def)

lemma bal_refs [simp]:
  "bal (dget d S) x = bal S x + d_ref d x" "bal (dput d S) x = bal S x - d_ref d x"
  "bal (mntget m S) x = bal S x + m_ref m x" "bal (mntput m S) x = bal S x - m_ref m x"
  by (simp_all add: bal_def)

lemma counts_refs [simp]:
  "rbal (dget d S) = rbal S" "rbal (dput d S) = rbal S" "rbal (mntget m S) = rbal S" "rbal (mntput m S) = rbal S"
  "ishared (dget d S) = ishared S" "ishared (dput d S) = ishared S" "ishared (mntget m S) = ishared S" "ishared (mntput m S) = ishared S"
  by (simp_all add: rbal_def, simp_all add: dget_def dput_def mntget_def mntput_def)

lemma acct_refs:
  "acct f K (dget d S) = acct (\<lambda>x. f x - d_ref d x) K S" "acct f K (dput d S) = acct (\<lambda>x. f x + d_ref d x) K S"
  "acct f K (mntget m S) = acct (\<lambda>x. f x - m_ref m x) K S" "acct f K (mntput m S) = acct (\<lambda>x. f x + m_ref m x) K S"
  by (auto simp: acct_def algebra_simps)

lemma ok_refs [simp]:
  "ok K f (dget d S) = ok K (\<lambda>x. f x - d_ref d x) S" "ok K f (dput d S) = ok K (\<lambda>x. f x + d_ref d x) S"
  "ok K f (mntget m S) = ok K (\<lambda>x. f x - m_ref m x) S" "ok K f (mntput m S) = ok K (\<lambda>x. f x + m_ref m x) S"
  "ok K f (path_get p S) = ok K (\<lambda>x. f x - path_refs p x) S" "ok K f (path_put p S) = ok K (\<lambda>x. f x + path_refs p x) S"
  by (simp_all add: ok_def acct_refs path_get_def path_put_def path_refs_def algebra_simps)

lemma bad_refs [simp]:
  "bad K f (dget d S) = bad K (\<lambda>x. f x - d_ref d x) S" "bad K f (dput d S) = bad K (\<lambda>x. f x + d_ref d x) S"
  "bad K f (mntget m S) = bad K (\<lambda>x. f x - m_ref m x) S" "bad K f (mntput m S) = bad K (\<lambda>x. f x + m_ref m x) S"
  "bad K f (path_get p S) = bad K (\<lambda>x. f x - path_refs p x) S" "bad K f (path_put p S) = bad K (\<lambda>x. f x + path_refs p x) S"
  by (simp_all add: bad_def acct_refs path_get_def path_put_def path_refs_def algebra_simps)

lemma ok_path [simp]:
  "ok K f (S\<lparr>nd_path := p\<rparr>) = ok K (\<lambda>x. f x + (if in_rcu S then 0 else path_refs p x - path_refs (nd_path S) x)) S"
proof -
  have "bal (S\<lparr>nd_path := p\<rparr>) x = bal S x - (if in_rcu S then 0 else path_refs p x - path_refs (nd_path S) x)" for x
    by (simp add: balance_defs)
  then show ?thesis by (auto simp: ok_def acct_def keeps_def shrinks_def rbal_def last_ok_def algebra_simps)
qed

end
