(* ===== verification/Walk_Unlazy.thy ===== *)
theory Walk_Unlazy
  imports Walk_Refs
begin

text \<open>
  The functions that drop and legitimise references keep the balance of a walk. A walk leaves RCU mode
  with exactly the references that its new state holds, whether that succeeds or stops half way.
\<close>

section \<open>Links\<close>

lemma drop_links_from_safe:
  "i \<le> length (nd_stack S) \<Longrightarrow> safe (\<lambda>S'. \<exists>w st. S' = S\<lparr>world := w, nd_stack := st\<rparr> \<and>
     map s_link st = map s_link (nd_stack S) \<and> map s_name st = map s_name (nd_stack S)) (drop_links_from E i S)"
proof (induction i arbitrary: S)
  case 0
  show ?case by simp (metis (mono_tags, lifting) walk.surjective walk.update_convs(1) walk.update_convs(17))
next
  case (Suc i)
  let ?last = "nd_stack S ! i"
  let ?T = "put_saved i (?last\<lparr>s_done := None\<rparr>) (do_delayed_call E (s_done ?last) S)"
  let ?st = "(nd_stack S)[i := ?last\<lparr>s_done := None\<rparr>]"
  have T: "?T = S\<lparr>world := world ?T, nd_stack := ?st\<rparr>"
    by (cases "s_done ?last") (simp_all add: put_saved_def do_delayed_call_def)
  have st: "map s_link ?st = map s_link (nd_stack S)" "map s_name ?st = map s_name (nd_stack S)"
    using Suc.prems by (simp_all add: map_update list_update_id nth_list_update_eq list_update_same_conv)
  have "safe (\<lambda>S'. \<exists>w st. S' = ?T\<lparr>world := w, nd_stack := st\<rparr> \<and> map s_link st = map s_link (nd_stack ?T) \<and>
      map s_name st = map s_name (nd_stack ?T)) (drop_links_from E i ?T)"
    using Suc.prems by (intro Suc.IH) (simp add: put_saved_def do_delayed_call_def split: option.split)
  then have "safe (\<lambda>S'. \<exists>w st. S' = S\<lparr>world := w, nd_stack := st\<rparr> \<and> map s_link st = map s_link (nd_stack S) \<and>
      map s_name st = map s_name (nd_stack S)) (drop_links_from E i ?T)"
    by (rule safe_mono) (subst (asm) (1 2 3) T, auto simp: st)
  then show ?case using Suc.prems by (simp add: safe_get_saved)
qed


lemmas drop_links_safe = drop_links_from_safe [of "nd_depth S" S for S, folded drop_links_def]

lemma link_refs_map: "link_refs S x = (\<Sum>p\<leftarrow>take (nd_depth S) (map s_link (nd_stack S)). path_refs p x)"
  by (simp add: link_refs_def take_map comp_def)

definition counted :: "'k walk \<Rightarrow> 'k walk \<Rightarrow> (nat + nat \<Rightarrow> int) \<Rightarrow> bool" where
  "counted S T f \<longleftrightarrow> T = S\<lparr>world := world T, dref := dref T, mref := mref T\<rparr> \<and> (\<forall>x. refs T x = refs S x + f x)"

lemma countedE:
  assumes "counted S T f"
  obtains w d m where "T = S\<lparr>world := w, dref := d, mref := m\<rparr>" "\<And>x. refs T x = refs S x + f x"
  using assms unfolding counted_def by blast

lemma kop_eq: "kop f S = (fst (f (world S)), S\<lparr>world := snd (f (world S))\<rparr>)"
  by (simp add: kop_def case_prod_beta)

lemma legitimize_path_safe:
  "safe (\<lambda>(good, p', T). counted S T (path_refs p') \<and> (good \<longrightarrow> p' = path) \<and>
     (p_mnt path \<noteq> None \<and> p_mnt p' = None \<longrightarrow> p' = null_path)) (legitimize_path E path seq S)"
proof -
  define Q where "Q = (\<lambda>(good, p', T). counted S T (path_refs p') \<and> (good \<longrightarrow> p' = path) \<and>
     (p_mnt path \<noteq> None \<and> p_mnt p' = None \<longrightarrow> p' = null_path))"
  obtain r w where r: "(case p_mnt path of None \<Rightarrow> (0, S) | Some m \<Rightarrow> kop (k_legitimize_mnt E m (nd_m_seq S)) S) = (r, S\<lparr>world := w\<rparr>)"
    "p_mnt path = None \<longrightarrow> r = 0"
    by (cases "p_mnt path") (auto simp: kop_eq intro: that [of 0 "world S"])
  have "safe Q (legitimize_path E path seq S)"
    unfolding legitimize_path_def r Let_def prod.case
    by (auto simp: Q_def kop_def counted_def null_path_def path_refs_def dget_def mntget_def refs_def add_ref_def d_ref_def m_ref_def r(2)
        split: prod.splits option.splits sum.splits intro!: safe_if)
  then show ?thesis by (simp add: Q_def)
qed


lemma legitimize_path_counts: "safe (\<lambda>(good, p', T). counted S T (path_refs p') \<and> (good \<longrightarrow> p' = path)) (legitimize_path E path seq S)"
  by (rule safe_mono [OF legitimize_path_safe]) auto

text \<open>The links from \<open>k\<close> on get references, up to the depth that is left at the end.\<close>

definition links_from :: "nat \<Rightarrow> 'k walk \<Rightarrow> nat + nat \<Rightarrow> int" where
  "links_from k T x = (\<Sum>p\<leftarrow>drop k (take (nd_depth T) (map s_link (nd_stack T))). path_refs p x)"

definition relinked :: "nat \<Rightarrow> 'k walk \<Rightarrow> bool \<Rightarrow> 'k walk \<Rightarrow> bool" where
  "relinked k S good T \<longleftrightarrow>
     T = S\<lparr>world := world T, dref := dref T, mref := mref T, nd_stack := nd_stack T, nd_depth := nd_depth T\<rparr> \<and>
     map s_name (nd_stack T) = map s_name (nd_stack S) \<and>
     take k (map s_link (nd_stack T)) = take k (map s_link (nd_stack S)) \<and> k \<le> nd_depth T \<and> nd_depth T \<le> nd_depth S \<and>
     (good \<longrightarrow> nd_depth T = nd_depth S \<and> map s_link (nd_stack T) = map s_link (nd_stack S)) \<and> (\<forall>x. refs T x = refs S x + links_from k T x)"

lemma relinkedE:
  assumes "relinked k S good T"
  obtains w d m st n where "T = S\<lparr>world := w, dref := d, mref := m, nd_stack := st, nd_depth := n\<rparr>"
    "map s_name st = map s_name (nd_stack S)" "take k (map s_link st) = take k (map s_link (nd_stack S))" "k \<le> n" "n \<le> nd_depth S"
    "good \<longrightarrow> n = nd_depth S \<and> map s_link st = map s_link (nd_stack S)" "\<And>x. refs T x = refs S x + links_from k T x"
  using assms unfolding relinked_def by blast

lemma links_from_step:
  assumes "k < nd_depth T" "nd_depth T \<le> length (nd_stack T)"
  shows "links_from k T x = path_refs (s_link (nd_stack T ! k)) x + links_from (Suc k) T x"
proof -
  let ?L = "take (nd_depth T) (map s_link (nd_stack T))"
  have "drop k ?L = ?L ! k # drop (Suc k) ?L" using assms by (intro Cons_nth_drop_Suc [symmetric]) simp
  then show ?thesis using assms by (simp add: links_from_def)
qed

lemma legitimize_links_from_safe:
  "k \<le> nd_depth S \<Longrightarrow> nd_depth S \<le> length (nd_stack S) \<Longrightarrow>
     safe (\<lambda>(good, T). relinked k S good T) (legitimize_links_from E [k..<nd_depth S] S)"
proof (induction "nd_depth S - k" arbitrary: k S)
  case 0
  then show ?case by (simp add: relinked_def links_from_def)
next
  case (Suc n)
  let ?last = "nd_stack S ! k"
  have k: "k < nd_depth S" "k < length (nd_stack S)" using Suc by simp_all
  then have up: "[k..<nd_depth S] = k # [Suc k..<nd_depth S]" by (simp add: upt_conv_Cons)
  have step: "safe (\<lambda>(good, T). relinked k S good T)
      (let T = put_saved k (?last\<lparr>s_link := p\<rparr>) S1 in
       if \<not> good then bind_res (drop_links E T) (\<lambda>T. Inr (False, T\<lparr>nd_depth := k + 1\<rparr>))
       else legitimize_links_from E [Suc k..<nd_depth S] T)"
    if S1: "counted S S1 (path_refs p)" "good \<longrightarrow> p = s_link ?last" for good p S1
  proof -
    obtain w d m where w: "S1 = S\<lparr>world := w, dref := d, mref := m\<rparr>" using S1(1) by (rule countedE)
    define st where "st = (nd_stack S)[k := ?last\<lparr>s_link := p\<rparr>]"
    define T where "T = put_saved k (?last\<lparr>s_link := p\<rparr>) S1"
    have T: "T = S\<lparr>world := w, dref := d, mref := m, nd_stack := st\<rparr>" by (simp add: T_def put_saved_def w st_def)
    have rT: "refs T x = refs S x + path_refs p x" for x using S1(1) by (simp add: T_def put_saved_def counted_def)
    have st: "length st = length (nd_stack S)" "s_link (st ! k) = p" "map s_name st = map s_name (nd_stack S)"
        "take k (map s_link st) = take k (map s_link (nd_stack S))"
      using k by (simp_all add: st_def map_update list_update_same_conv take_map take_update_cancel)
    show ?thesis
    proof (cases good)
      case True
      then have same: "map s_link st = map s_link (nd_stack S)" using S1(2) k by (simp add: st_def map_update list_update_same_conv)
      have "safe (\<lambda>(good, U). relinked (Suc k) T good U) (legitimize_links_from E [Suc k..<nd_depth T] T)"
        by (rule Suc.hyps(1)) (use Suc.hyps(2) Suc.prems k in \<open>simp_all add: T st\<close>)
      moreover have "relinked k S good' U" if "relinked (Suc k) T good' U" for good' U
        using that
      proof (rule relinkedE)
        fix w' d' m' st' n
        assume U: "U = T\<lparr>world := w', dref := d', mref := m', nd_stack := st', nd_depth := n\<rparr>"
          "map s_name st' = map s_name (nd_stack T)" "take (Suc k) (map s_link st') = take (Suc k) (map s_link (nd_stack T))"
          "Suc k \<le> n" "n \<le> nd_depth T" "good' \<longrightarrow> n = nd_depth T \<and> map s_link st' = map s_link (nd_stack T)" "\<And>x. refs U x = refs T x + links_from (Suc k) U x"
        have len: "length st' = length (nd_stack S)" using arg_cong [OF U(2), of length] by (simp add: T st)
        have pre: "take k (map s_link st') = take k (map s_link (nd_stack S))" "map s_link st' ! k = p"
          using arg_cong [OF U(3), of "take k"] arg_cong [OF U(3), of "\<lambda>xs. xs ! k"] k len by (simp_all add: T st min_def)
        have "refs U x = refs S x + links_from k U x" for x
          using links_from_step [of k U x] U(4,5) Suc.prems(2) len k pre(2) U(6,7) rT by (simp add: U(1) T)
        then show ?thesis using U pre len same by (simp add: relinked_def T st)
      qed
      ultimately show ?thesis using True by (auto simp: T_def [symmetric] T elim: safe_mono)
    next
      case False
      have "relinked k S False (T\<lparr>world := w', nd_stack := st', nd_depth := k + 1\<rparr>)"
        if "map s_link st' = map s_link st" "map s_name st' = map s_name st" for w' st'
      proof -
        let ?U = "T\<lparr>world := w', nd_stack := st', nd_depth := k + 1\<rparr>"
        have len: "length st' = length (nd_stack S)" using arg_cong [OF that(1), of length] by (simp add: st)
        have "map s_link st' ! k = p" using that(1) k st by simp
        then have "links_from k ?U x = path_refs p x" for x
          using links_from_step [of k ?U x] len k by (simp add: links_from_def)
        then show ?thesis using that k st rT by (simp add: relinked_def T) 
      qed
      then show ?thesis using drop_links_safe [of T E] k Suc.prems False
        by (auto simp: T_def [symmetric] T st elim!: safe_mono)
    qed
  qed
  show ?case using legitimize_path_safe [of S "s_link ?last" E "s_seq ?last"] step k
    by (auto simp: up safe_get_saved elim!: safe_mono)
qed


section \<open>Leaving RCU mode\<close>

abbreviation fits :: "'k walk \<Rightarrow> bool" where
  "fits S \<equiv> nd_depth S \<le> length (nd_stack S)"

lemma ok_trans: "ok K f S \<Longrightarrow> ok S g T \<Longrightarrow> ok K (\<lambda>x. f x + g x) T"
  by (auto simp: ok_def acct_def keeps_def shrinks_def)

lemma bad_trans: "ok K f S \<Longrightarrow> bad S g T \<Longrightarrow> bad K (\<lambda>x. f x + g x) T"
  by (auto simp: ok_def bad_def acct_def keeps_def shrinks_def)

lemma ok_fits: "ok K f S \<Longrightarrow> fits K \<Longrightarrow> fits S"
  by (simp add: ok_def keeps_def shrinks_def)

lemma leave_rcu:
  assumes "in_rcu S" "\<not> in_rcu T" "rcu_nest T = rcu_nest S - 1" "ishared T = ishared S"
    "\<And>x. refs T x = refs S x + path_refs (nd_path T) x + link_refs T x + root_refs T x + f x"
  shows "acct f S T"
  using assms by (simp add: acct_def bal_def rbal_def held_def)

lemma clear_rcu_off [simp]: "\<not> in_rcu (clear_rcu S)"
  by (simp add: in_rcu_def clear_rcu_def and.assoc)

lemma mode_simps [simp]:
  "has_root_flag (clear_rcu S) = has_root_flag S"
  "in_rcu (rcu_read_unlock S) = in_rcu S" "has_root_flag (rcu_read_unlock S) = has_root_flag S" "has_root_flag (drop_root S) = has_root_flag S"
  "in_rcu (S\<lparr>dref := d\<rparr>) = in_rcu S" "in_rcu (S\<lparr>mref := d\<rparr>) = in_rcu S" "in_rcu (S\<lparr>rcu_nest := n\<rparr>) = in_rcu S"
  "has_root_flag (S\<lparr>dref := d\<rparr>) = has_root_flag S" "has_root_flag (S\<lparr>mref := d\<rparr>) = has_root_flag S"
  "has_root_flag (S\<lparr>rcu_nest := n\<rparr>) = has_root_flag S"
  by (simp_all add: in_rcu_def has_root_flag_def clear_rcu_def flag_bits flag_disjoint rcu_read_unlock_def drop_root_def)


text \<open>What a walk that has left RCU mode looks like, and what it does not change.\<close>

definition unlazied :: "'k walk \<Rightarrow> (nat + nat \<Rightarrow> int) \<Rightarrow> bool \<Rightarrow> 'k walk \<Rightarrow> bool" where
  "unlazied S f good T \<longleftrightarrow> (if good then ok S f T else bad S f T) \<and> \<not> in_rcu T \<and>
     (good \<longrightarrow> nd_path T = nd_path S \<and> nd_inode T = nd_inode S \<and> nd_link_inode T = nd_link_inode S \<and>
       map s_link (nd_stack T) = map s_link (nd_stack S) \<and> nd_total_link_count T = nd_total_link_count S)"

definition rerooted :: "'k walk \<Rightarrow> bool \<Rightarrow> 'k walk \<Rightarrow> bool" where
  "rerooted S good T \<longleftrightarrow> (\<exists>w d m r. T = S\<lparr>world := w, dref := d, mref := m, nd_root := r\<rparr> \<and>
     (good \<or> has_root_flag S \<longrightarrow> r = nd_root S)) \<and> (\<forall>x. refs T x = refs S x + root_refs T x)"

lemma rerooted_self:
  assumes "p_mnt (nd_root S) = None \<or> has_root_flag S"
  shows "rerooted S True S"
  unfolding rerooted_def
  by (intro conjI, rule exI [of _ "world S"], rule exI [of _ "dref S"], rule exI [of _ "mref S"], rule exI [of _ "nd_root S"])
    (use assms in \<open>auto simp: root_refs_def\<close>)

lemma rerooted_counted:
  assumes "\<not> has_root_flag S" "counted S T (path_refs r)" "good \<longrightarrow> r = nd_root S" "p_mnt r = None \<longrightarrow> r = null_path"
  shows "rerooted S good (T\<lparr>nd_root := r\<rparr>)"
proof -
  obtain w d m where T: "T = S\<lparr>world := w, dref := d, mref := m\<rparr>" "\<And>x. refs T x = refs S x + path_refs r x"
    using assms(2) by (rule countedE) blast
  have "path_refs r x = 0" if "p_mnt r = None" for x using that assms(4) by simp
  then have "refs T x = refs S x + root_refs (T\<lparr>nd_root := r\<rparr>) x" for x
    using assms(1) T by (cases "p_mnt r") (auto simp: root_refs_def)
  then show ?thesis using assms(1,3) by (auto simp: rerooted_def T(1))
qed

lemma legitimize_root_safe: "safe (\<lambda>(good, T). rerooted S good T) (legitimize_root E S)"
  using legitimize_path_safe [of S "nd_root S" E "nd_root_seq S"] rerooted_self [of S]
  by (auto simp: legitimize_root_def elim!: safe_mono intro!: rerooted_counted)

lemmas unlazied_simps = unlazied_def ok_def bad_def keeps_def shrinks_def last_ok_def

lemma links_from_0: "links_from 0 T x = link_refs T x"
  by (simp add: links_from_def link_refs_map)

lemma clear_rcu_sel:
  "nd_root (clear_rcu S) = nd_root S" "rcu_nest (clear_rcu S) = rcu_nest S" "ishared (clear_rcu S) = ishared S"
  "nd_path (clear_rcu S) = nd_path S" "nd_heap (clear_rcu S) = nd_heap S" "nd_total_link_count (clear_rcu S) = nd_total_link_count S"
  "nd_name (clear_rcu S) = nd_name S" "nd_dfd (clear_rcu S) = nd_dfd S" "nd_inode (clear_rcu S) = nd_inode S"
  "nd_link_inode (clear_rcu S) = nd_link_inode S" "nd_last_hash (clear_rcu S) = nd_last_hash S"
  "nd_last_name (clear_rcu S) = nd_last_name S" "nd_last_type (clear_rcu S) = nd_last_type S"
  by (simp_all add: clear_rcu_def)

lemma rerooted_drop: "rerooted S False (drop_root S)"
proof -
  have "\<exists>w d m r. drop_root S = S\<lparr>world := w, dref := d, mref := m, nd_root := r\<rparr> \<and> (False \<or> has_root_flag S \<longrightarrow> r = nd_root S)"
    by (rule exI [of _ "world S"], rule exI [of _ "dref S"], rule exI [of _ "mref S"], rule exI [of _ "nd_root (drop_root S)"])
      (simp add: drop_root_def)
  then show ?thesis by (simp add: rerooted_def root_refs_def drop_root_def)
qed

lemma counted_null: "counted S S (path_refs null_path)"
  by (simp add: counted_def)

text \<open>Every exit: links up to some depth, the path and the root are legitimised, each as far as it goes.\<close>

lemma unlazied_intro:
  assumes "in_rcu S" "relinked 0 (clear_rcu S) g T1" "counted T1 T2 (\<lambda>x. path_refs p x + f x)" "rerooted (T2\<lparr>nd_path := p\<rparr>) h U"
    "good \<longrightarrow> g \<and> p = nd_path S \<and> h"
  shows "unlazied S f good (rcu_read_unlock U)"
proof -
  obtain w d m st n where T1: "T1 = (clear_rcu S)\<lparr>world := w, dref := d, mref := m, nd_stack := st, nd_depth := n\<rparr>"
      "map s_name st = map s_name (nd_stack S)" "n \<le> nd_depth S"
      "g \<longrightarrow> n = nd_depth S \<and> map s_link st = map s_link (nd_stack S)" "\<And>x. refs T1 x = refs S x + link_refs T1 x"
    using assms(2) by (rule relinkedE) (auto simp: links_from_0 clear_rcu_def)
  obtain w' d' m' where T2: "T2 = T1\<lparr>world := w', dref := d', mref := m'\<rparr>" "\<And>x. refs T2 x = refs T1 x + (path_refs p x + f x)"
    using assms(3) by (rule countedE) blast
  obtain w'' d'' m'' r where U: "U = T2\<lparr>nd_path := p\<rparr>\<lparr>world := w'', dref := d'', mref := m'', nd_root := r\<rparr>"
      "h \<or> has_root_flag (T2\<lparr>nd_path := p\<rparr>) \<longrightarrow> r = nd_root (T2\<lparr>nd_path := p\<rparr>)"
      "\<And>x. refs U x = refs (T2\<lparr>nd_path := p\<rparr>) x + root_refs U x"
    using assms(4) unfolding rerooted_def by blast
  let ?U = "rcu_read_unlock U"
  have stack: "nd_stack ?U = st" "nd_depth ?U = n" "nd_root ?U = r" "nd_path ?U = p" "length st = length (nd_stack S)"
    using arg_cong [OF T1(2), of length] by (simp_all add: rcu_read_unlock_def U(1) T2(1) T1(1))
  have mode: "\<not> in_rcu ?U" "has_root_flag ?U = has_root_flag S" "has_root_flag S \<longrightarrow> r = nd_root S" "h \<longrightarrow> r = nd_root S"
    using U(2) by (simp_all add: U(1) T2(1) T1(1) clear_rcu_sel)
  have refs: "refs ?U x = refs S x + path_refs (nd_path ?U) x + link_refs ?U x + root_refs ?U x + f x" for x
  proof -
    have "link_refs ?U x = link_refs T1 x" by (simp add: link_refs_def stack T1(1))
    moreover have "root_refs ?U x = root_refs U x" using stack(3) by (simp add: root_refs_def rcu_read_unlock_def)
    ultimately show ?thesis using T1(5) [of x] T2(2) [of x] U(3) [of x] by (simp add: stack)
  qed
  have "acct f S ?U"
    using assms(1) mode(1) refs by (intro leave_rcu) (simp_all add: rcu_read_unlock_def U(1) T2(1) T1(1) clear_rcu_sel)
  then show ?thesis
    using assms(1,5) mode stack T1(2-4)
    by (auto simp: unlazied_simps U(1) T2(1) T1(1) clear_rcu_sel rcu_read_unlock_def)
qed

lemma legitimize_links_safe: "fits S \<Longrightarrow> safe (\<lambda>(good, T). relinked 0 (clear_rcu S) good T) (legitimize_links E (clear_rcu S))"
  using legitimize_links_from_safe [of 0 "clear_rcu S" E] by (simp add: legitimize_links_def clear_rcu_def)

lemma unlazy_walk_safe:
  assumes "in_rcu S" "fits S"
  shows "safe (\<lambda>(e, T). unlazied S (\<lambda>x. 0) (e = 0) T) (unlazy_walk E S)"
proof -
  note intro = unlazied_intro [OF assms(1), where f = "\<lambda>x. 0", simplified]
  have path: "nd_path T1 = nd_path S" if "relinked 0 (clear_rcu S) good T1" for good T1
    using that by (rule relinkedE) (simp add: clear_rcu_sel)
  show ?thesis
    unfolding unlazy_walk_def Let_def
    using assms(1) legitimize_links_safe [OF assms(2), of E]
    apply (simp only: safe_bind if_not_P not_not simp_thms if_False)
    apply (erule safe_mono)
    apply (clarsimp split del: if_split, rule safe_if)
    subgoal by (simp add: ECHILD_def) (erule intro [OF _ counted_null rerooted_drop], simp)
    apply (simp split del: if_split, rule safe_mono [OF legitimize_path_counts])
    apply (clarsimp split del: if_split, rule safe_if)
    subgoal by (simp add: ECHILD_def) (erule (1) intro [OF _ _ rerooted_drop], simp)
    apply (clarsimp simp: path split del: if_split)
    apply (rule safe_mono [OF legitimize_root_safe])
    apply (clarsimp split del: if_split, rule safe_if)
    subgoal by (simp add: ECHILD_def) (erule (2) intro, simp)
    apply (auto elim!: intro)
    done
qed


lemma drop_root_commute: "drop_root (rcu_read_unlock S) = rcu_read_unlock (drop_root S)" "drop_root (dput d S) = dput d (drop_root S)"
  by (simp_all add: drop_root_def, simp_all add: rcu_read_unlock_def dput_def)

lemma unlazied_dput: "unlazied S (d_ref d) False T \<Longrightarrow> unlazied S (\<lambda>x. 0) False (dput d T)"
  by (simp add: unlazied_def)

lemma unlazied_path: "relinked k (clear_rcu S) good T \<Longrightarrow> nd_path T = nd_path S"
  by (erule relinkedE) (simp add: clear_rcu_sel)

lemma countedI: "T = S\<lparr>world := w, dref := d, mref := m\<rparr> \<Longrightarrow> (\<And>x. refs T x = refs S x + f x) \<Longrightarrow> counted S T f"
  by (simp add: counted_def)

lemma counted_refl: "counted S S (\<lambda>x. 0)"
  by (simp add: counted_def)

lemma counted_world:
  assumes "counted S T f"
  shows "counted S (T\<lparr>world := v\<rparr>) f"
  using assms
proof (rule countedE)
  fix w d m
  assume T: "T = S\<lparr>world := w, dref := d, mref := m\<rparr>" "\<And>x. refs T x = refs S x + f x"
  show ?thesis by (rule countedI [where w = v and d = d and m = m]) (use T in simp_all)
qed

lemma counted_dget:
  assumes "counted S T f"
  shows "counted S (dget p T) (\<lambda>x. f x + d_ref p x)"
  using assms
proof (rule countedE)
  fix w d m
  assume T: "T = S\<lparr>world := w, dref := d, mref := m\<rparr>" "\<And>x. refs T x = refs S x + f x"
  show ?thesis by (rule countedI [where w = w and d = "add_ref p 1 d" and m = m]) (simp add: T(1) dget_def, simp add: T(2))
qed

lemma counted_mntget:
  assumes "counted S T f"
  shows "counted S (mntget p T) (\<lambda>x. f x + m_ref p x)"
  using assms
proof (rule countedE)
  fix w d m
  assume T: "T = S\<lparr>world := w, dref := d, mref := m\<rparr>" "\<And>x. refs T x = refs S x + f x"
  show ?thesis by (rule countedI [where w = w and d = d and m = "add_ref p 1 m"]) (simp add: T(1) mntget_def, simp add: T(2))
qed

lemma path_same: "nd_path U = p \<Longrightarrow> U\<lparr>nd_path := p\<rparr> = U"
  by auto

lemma mount_check_world: "(case p of None \<Rightarrow> (True, S) | Some m \<Rightarrow> kop (f m) S) = (good, T) \<Longrightarrow> \<exists>w. T = S\<lparr>world := w\<rparr>"
  by (cases p) (auto simp: kop_eq intro: exI [of _ "world S"])

text \<open>After the links: the mount and the dentry of the path, the dentry of the child, and the root.\<close>

lemma unlazy_child_rest:
  assumes "in_rcu S" "relinked 0 (clear_rcu S) True T1" "counted T1 T (m_ref (p_mnt (nd_path S)))"
  shows "safe (\<lambda>(e, U). unlazied S (if e = 0 then d_ref (Some dentry) else (\<lambda>x. 0)) (e = 0) U)
     (bind_res (null_ok (p_dentry (nd_path T))) (\<lambda>d.
      let (ok, T) = kop (k_lockref_get E d) T in
      if \<not> ok then Inr (- ECHILD, drop_root (rcu_read_unlock (T\<lparr>nd_path := (nd_path T)\<lparr>p_dentry := None\<rparr>\<rparr>)))
      else let T = dget (Some d) T; (ok, T) = kop (k_lockref_get E dentry) T in
      if \<not> ok then Inr (- ECHILD, drop_root (rcu_read_unlock T))
      else let T = dget (Some dentry) T; (again, T) = kop (k_d_seq_retry E dentry seq) T in
      if again then Inr (- ECHILD, drop_root (dput (Some dentry) (rcu_read_unlock T)))
      else bind_res (legitimize_root E T) (\<lambda>(ok, T).
      let T = rcu_read_unlock T in
      if \<not> ok then Inr (- ECHILD, dput (Some dentry) T) else Inr (0, T))))"
proof -
  note intro = unlazied_intro [OF assms(1,2), where f = "\<lambda>x. 0", simplified]
  note intro' = unlazied_intro [OF assms(1,2), where f = "d_ref (Some dentry)"]
  have path: "nd_path T = nd_path S"
    using unlazied_path [OF assms(2)] assms(3) by (auto elim!: countedE)
  have drop: "unlazied S (\<lambda>x. 0) False (drop_root (rcu_read_unlock U))" if "counted T1 U (path_refs (nd_path U))" for U
    using intro [OF that, of False "drop_root U" False] rerooted_drop [of U] by (simp add: drop_root_commute)
  have root: "unlazied S (if good then d_ref (Some dentry) else (\<lambda>x. 0)) good
      (if good then rcu_read_unlock V else dput (Some dentry) (rcu_read_unlock V))"
    if "counted T1 U (\<lambda>x. path_refs (nd_path U) x + d_ref (Some dentry) x)" "nd_path U = nd_path S" "rerooted U good V" for good U V
  proof -
    have "unlazied S (d_ref (Some dentry)) good (rcu_read_unlock V)"
      using that(2,3) by (intro intro' [OF that(1), of good]) (simp_all add: path_same)
    then show ?thesis by (cases good) (simp_all add: unlazied_dput)
  qed
  have drop': "unlazied S (\<lambda>x. 0) False (drop_root (dput (Some dentry) (rcu_read_unlock U)))"
    if "counted T1 U (\<lambda>x. path_refs (nd_path U) x + d_ref (Some dentry) x)" for U
    using intro' [OF that, of False "drop_root U" False] rerooted_drop [of U]
    by (simp add: drop_root_commute unlazied_dput)
  have ECHILD: "ECHILD \<noteq> 0" by (simp add: ECHILD_def)
  have main: "safe (\<lambda>(e, U). unlazied S (if e = 0 then d_ref (Some dentry) else (\<lambda>x. 0)) (e = 0) U)
     (if \<not> ok1 then Inr (- ECHILD, drop_root (rcu_read_unlock (T\<lparr>world := w, nd_path := (nd_path (T\<lparr>world := w\<rparr>))\<lparr>p_dentry := None\<rparr>\<rparr>)))
      else if \<not> ok2 then Inr (- ECHILD, drop_root (rcu_read_unlock ((dget (Some d) (T\<lparr>world := w\<rparr>))\<lparr>world := v\<rparr>)))
      else let T = (dget (Some dentry) ((dget (Some d) (T\<lparr>world := w\<rparr>))\<lparr>world := v\<rparr>))\<lparr>world := u\<rparr> in
      if again then Inr (- ECHILD, drop_root (dput (Some dentry) (rcu_read_unlock T)))
      else bind_res (legitimize_root E T) (\<lambda>(ok, T).
      let T = rcu_read_unlock T in
      if \<not> ok then Inr (- ECHILD, dput (Some dentry) T) else Inr (0, T)))"
    if d: "p_dentry (nd_path S) = Some d" for d w v u ok1 ok2 again
  proof -
    let ?A = "T\<lparr>world := w, nd_path := (nd_path T)\<lparr>p_dentry := None\<rparr>\<rparr>"
    let ?B = "(dget (Some d) (T\<lparr>world := w\<rparr>))\<lparr>world := v\<rparr>"
    let ?C = "(dget (Some dentry) ?B)\<lparr>world := u\<rparr>"
    have A: "unlazied S (\<lambda>x. 0) False (drop_root (rcu_read_unlock ?A))"
      using intro [OF _ rerooted_drop, of "T\<lparr>world := w\<rparr>" "(nd_path T)\<lparr>p_dentry := None\<rparr>" False] counted_world [OF assms(3), of w]
      by (simp add: drop_root_commute path path_refs_def)
    have B: "counted T1 ?B (path_refs (nd_path ?B))"
      using counted_world [OF counted_dget [OF counted_world [OF assms(3)]]] d by (simp add: path path_refs_def [abs_def] add.commute)
    have C: "counted T1 ?C (\<lambda>x. path_refs (nd_path ?C) x + d_ref (Some dentry) x)"
      using counted_world [OF counted_dget [OF B]] by simp
    show ?thesis
      using A drop [OF B] drop' [OF C] legitimize_root_safe [of ?C E] root [OF C, of True] root [OF C, of False]
      by (auto simp: ECHILD path Let_def elim!: safe_mono)
  qed
  show ?thesis
    unfolding safe_bind safe_null_ok path Let_def kop_eq prod.case
    by (intro allI impI, rule main [unfolded Let_def safe_bind path])
qed

lemma unlazy_child_safe:
  assumes "in_rcu S" "fits S"
  shows "safe (\<lambda>(e, T). unlazied S (if e = 0 then d_ref (Some dentry) else (\<lambda>x. 0)) (e = 0) T) (unlazy_child E dentry seq S)"
proof -
  note intro = unlazied_intro [OF assms(1), where f = "\<lambda>x. 0", simplified]
  have fail: "unlazied S (\<lambda>x. 0) False (drop_root (rcu_read_unlock (T\<lparr>nd_path := null_path\<rparr>)))"
    if "relinked 0 (clear_rcu S) True T1" "counted T1 T (\<lambda>x. 0)" for T1 T
    using intro [OF that(1) _ rerooted_drop, of T null_path False] that(2) by (simp add: drop_root_commute)
  show ?thesis
    unfolding unlazy_child_def
    using assms(1) legitimize_links_safe [OF assms(2), of E]
    apply (simp only: safe_bind if_not_P not_not simp_thms if_False)
    apply (erule safe_mono)
    apply (clarsimp split del: if_split, rule safe_if)
    subgoal by (simp add: ECHILD_def drop_root_commute) (erule intro [OF _ counted_null rerooted_drop], simp)
    apply (clarsimp split del: if_split, rule safe_prod, frule mount_check_world, erule exE, rule safe_if)
    subgoal by (simp add: ECHILD_def) (erule fail, simp add: counted_world counted_refl)
    subgoal for good T1 good' T w
      using unlazy_child_rest [OF assms(1), of T1 "mntget (p_mnt (nd_path S)) (T1\<lparr>world := w\<rparr>)" dentry E seq]
        counted_mntget [OF counted_world [OF counted_refl [of T1], of w], of "p_mnt (nd_path S)"]
        unlazied_path [of 0 S True T1]
      by (simp only: Let_def) simp
    done
qed

end
