(* ===== verification/Walk_Moves.thy ===== *)
theory Walk_Moves
  imports Walk_Unlazy
begin

text \<open>
  The end of a walk, popping a link, and the jumps to a root or to the target of a link: each keeps
  the balance, and \<open>terminate_walk\<close> gives back everything the walk holds.
\<close>

section \<open>The end of a walk\<close>

lemma counted_put:
  assumes "counted S T f"
  shows "counted S (path_put p T) (\<lambda>x. f x - path_refs p x)"
  using assms
proof (rule countedE)
  fix w d m
  assume T: "T = S\<lparr>world := w, dref := d, mref := m\<rparr>" "\<And>x. refs T x = refs S x + f x"
  show ?thesis
    by (rule countedI [where w = w and d = "add_ref (p_dentry p) (- 1) d" and m = "add_ref (p_mnt p) (- 1) m"])
      (simp add: T(1) path_put_def mntput_def dput_def, simp add: T(2))
qed

lemma put_links_safe:
  "\<forall>i\<in>set is. i < length (nd_stack S) \<Longrightarrow> counted S0 S f \<Longrightarrow>
   safe (\<lambda>T. counted S0 T (\<lambda>x. f x - (\<Sum>i\<leftarrow>is. path_refs (s_link (nd_stack S ! i)) x))) (put_links is S)"
proof (induction "is" arbitrary: S f)
  case (Cons i "is")
  have "safe (\<lambda>T. counted S0 T (\<lambda>x. (f x - path_refs (s_link (nd_stack S ! i)) x) -
        (\<Sum>j\<leftarrow>is. path_refs (s_link (nd_stack (path_put (s_link (nd_stack S ! i)) S) ! j)) x)))
      (put_links is (path_put (s_link (nd_stack S ! i)) S))"
    using Cons.prems by (intro Cons.IH counted_put) auto
  then show ?case using Cons.prems by (simp add: safe_get_saved diff_diff_eq)
qed simp

lemma sum_links: "k \<le> length st \<Longrightarrow> (\<Sum>i\<leftarrow>[0..<k]. f (s_link (st ! i))) = (\<Sum>s\<leftarrow>take k st. f (s_link s) :: int)"
  by (rule arg_cong [where f = sum_list], rule nth_equalityI) auto

lemma sum_links_cong:
  assumes "map s_link st = map s_link st'"
  shows "(\<Sum>s\<leftarrow>take k st. f (s_link s)) = (\<Sum>s\<leftarrow>take k st'. f (s_link s) :: int)"
proof -
  have eq: "map (\<lambda>s. f (s_link s)) (take k st) = map f (take k (map s_link st))" for st by (simp add: take_map)
  show ?thesis by (simp only: eq assms)
qed

definition finished :: "'k walk \<Rightarrow> 'k walk \<Rightarrow> bool" where
  "finished S T \<longleftrightarrow> (\<forall>x. refs T x = bal S x) \<and> rcu_nest T = rbal S \<and> ishared T = ishared S \<and> nd_depth T = 0 \<and>
     length (nd_stack T) = length (nd_stack S) \<and> nd_heap T = nd_heap S \<and> nd_total_link_count T = nd_total_link_count S \<and>
     nd_name T = nd_name S \<and> nd_dfd T = nd_dfd S \<and> has_root_flag T = has_root_flag S \<and>
     (has_root_flag S \<longrightarrow> nd_root T = nd_root S)"

lemma terminate_walk_safe:
  assumes "fits S"
  shows "safe (finished S) (terminate_walk E S)"
proof -
  have main: "safe (\<lambda>T. finished S (T\<lparr>nd_depth := 0\<rparr>))
       (if \<not> in_rcu S1
        then let S1 = path_put (nd_path S1) S1 in
             bind_res (put_links [0..<nd_depth S1] S1) (\<lambda>S.
             if p_mnt (nd_root S) \<noteq> None \<and> \<not> has_root_flag S
             then let S = path_put (nd_root S) S in Inr (S\<lparr>nd_root := (nd_root S)\<lparr>p_mnt := None\<rparr>\<rparr>)
             else Inr S)
        else let S1 = drop_root (clear_rcu S1) in Inr (rcu_read_unlock S1))"
    if S1: "S1 = S\<lparr>world := w, nd_stack := st\<rparr>" "map s_link st = map s_link (nd_stack S)" for S1 w st
  proof (cases "in_rcu S")
    case True
    have "length st = length (nd_stack S)" using arg_cong [OF S1(2), of length] by simp
    then show ?thesis using True
      by (simp add: S1(1) finished_def bal_def rbal_def held_def Let_def)
        (simp add: rcu_read_unlock_def drop_root_def clear_rcu_def has_root_flag_def in_rcu_def flag_bits flag_disjoint)
  next
    case False
    let ?S2 = "path_put (nd_path S1) S1"
    have len: "length st = length (nd_stack S)" using arg_cong [OF S1(2), of length] by simp
    have links: "(\<Sum>i\<leftarrow>[0..<nd_depth S]. path_refs (s_link (st ! i)) x) = link_refs S x" for x
      using sum_links [of "nd_depth S" st "\<lambda>p. path_refs p x"] assms len sum_links_cong [OF S1(2), of "\<lambda>p. path_refs p x" "nd_depth S"]
      by (simp add: link_refs_def)
    have c2: "counted S1 ?S2 (\<lambda>x. - path_refs (nd_path S) x)"
      using counted_put [OF counted_refl, of S1 "nd_path S1"] by (simp add: S1(1))
    have put: "safe (\<lambda>T. counted S1 T (\<lambda>x. - path_refs (nd_path S) x - link_refs S x)) (put_links [0..<nd_depth S] ?S2)"
      using put_links_safe [OF _ c2, of "[0..<nd_depth S]"] assms len links by (simp add: S1(1))
    have fin: "finished S ((if p_mnt (nd_root T) \<noteq> None \<and> \<not> has_root_flag T
        then (path_put (nd_root T) T)\<lparr>nd_root := (nd_root T)\<lparr>p_mnt := None\<rparr>\<rparr> else T)\<lparr>nd_depth := 0\<rparr>)"
      if "counted S1 T (\<lambda>x. - path_refs (nd_path S) x - link_refs S x)" for T
      using that
    proof (rule countedE)
      fix w' d m
      assume T: "T = S1\<lparr>world := w', dref := d, mref := m\<rparr>" "\<And>x. refs T x = refs S1 x + (- path_refs (nd_path S) x - link_refs S x)"
      have "refs T x = refs S x - path_refs (nd_path S) x - link_refs S x" for x using T(2) [of x] by (simp add: S1(1))
      then show ?thesis
        using False len by (auto simp: finished_def bal_def rbal_def held_def root_refs_def T(1) S1(1)) 
          (simp_all add: path_put_def mntput_def dput_def has_root_flag_def)
    qed
    show ?thesis using put False by (auto simp: S1(1) Let_def elim!: safe_mono dest!: fin [unfolded S1(1)] split: if_splits)
  qed
  show ?thesis
    unfolding terminate_walk_def safe_bind
    by (rule safe_mono [OF drop_links_safe [OF assms]], elim exE conjE, simp only: safe_bind safe_Inr, rule main [unfolded safe_bind, OF refl])
qed


section \<open>Popping a link\<close>

definition popped :: "'k walk \<Rightarrow> 'k walk \<Rightarrow> bool" where
  "popped S T \<longleftrightarrow> acct (\<lambda>x. 0) S T \<and> (\<exists>w d m. T = S\<lparr>nd_depth := nd_depth S - 1, world := w, dref := d, mref := m\<rparr>)"

lemma put_link_safe:
  assumes "nd_depth S \<noteq> 0" "fits S"
  shows "safe (popped S) (put_link E S)"
proof -
  obtain k where k: "nd_depth S = Suc k" using assms(1) by (cases "nd_depth S") auto
  let ?last = "nd_stack S ! k"
  let ?S1 = "do_delayed_call E (s_done ?last) (S\<lparr>nd_depth := k\<rparr>)"
  let ?T = "if in_rcu S then ?S1 else path_put (s_link ?last) ?S1"
  obtain w where S1: "?S1 = S\<lparr>nd_depth := k, world := w\<rparr>"
    by (cases "s_done ?last") (auto simp: do_delayed_call_def intro: that [of "world S"])
  have "take (Suc k) (nd_stack S) = take k (nd_stack S) @ [?last]" using assms(2) k by (simp add: take_Suc_conv_app_nth)
  then have "link_refs S x = (\<Sum>s\<leftarrow>take k (nd_stack S). path_refs (s_link s) x) + path_refs (s_link ?last) x" for x
    by (simp add: link_refs_def k)
  then have "acct (\<lambda>x. 0) S ?T"
    by (auto simp: S1 acct_def bal_def rbal_def held_def link_refs_def root_refs_def)
      (simp_all add: path_put_def mntput_def dput_def)
  moreover have "\<exists>w d m. ?T = S\<lparr>nd_depth := nd_depth S - 1, world := w, dref := d, mref := m\<rparr>"
    by (rule exI [of _ w], rule exI [of _ "dref ?T"], rule exI [of _ "mref ?T"])
      (simp add: S1 k path_put_def mntput_def dput_def)
  moreover have "put_link E S = Inr ?T"
    using assms k S1 by (simp add: put_link_def get_saved_def Let_def)
  ultimately show ?thesis by (simp add: popped_def)
qed

section \<open>Roots and jumps\<close>

text \<open>A root that came with the walk has a mount; so has the root of the task.\<close>

definition rooted :: "'k walk \<Rightarrow> bool" where
  "rooted S \<longleftrightarrow> (has_root_flag S \<longrightarrow> p_mnt (nd_root S) \<noteq> None)"

lemma shrinks_rooted: "shrinks K S \<Longrightarrow> rooted K \<Longrightarrow> rooted S"
  by (auto simp: shrinks_def rooted_def)

definition fs_ok :: "('k, 'a) walk_env \<Rightarrow> bool" where
  "fs_ok E \<longleftrightarrow> (\<forall>w. p_mnt (k_fs_root E w) \<noteq> None)"

text \<open>The position of the walk and its mode stay.\<close>

definition stays :: "'k walk \<Rightarrow> 'k walk \<Rightarrow> bool" where
  "stays S T \<longleftrightarrow> nd_path T = nd_path S \<and> in_rcu T = in_rcu S \<and> nd_stack T = nd_stack S"

lemma ok_root_rcu:
  assumes "ok K f S" "\<not> has_root_flag S" "in_rcu S"
  shows "ok K f (S\<lparr>nd_root := r\<rparr>)"
  using assms by (auto simp: ok_def acct_def bal_def rbal_def held_def keeps_def shrinks_def last_ok_def)

lemma ok_root_ref:
  assumes "ok K f S" "\<not> has_root_flag S" "\<not> in_rcu S" "p_mnt (nd_root S) = None" "p_mnt r \<noteq> None"
  shows "ok K f (path_get r (S\<lparr>nd_root := r\<rparr>))"
proof -
  have "bal (S\<lparr>nd_root := r\<rparr>) x = bal S x - path_refs r x" for x
    using assms by (auto simp: bal_def held_def root_refs_def link_refs_def)
  then have "ok K (\<lambda>x. f x - path_refs r x) (S\<lparr>nd_root := r\<rparr>)"
    using assms by (auto simp: ok_def acct_def rbal_def keeps_def shrinks_def last_ok_def)
  then show ?thesis by simp
qed

lemma stays_frame [simp]:
  "stays S (T\<lparr>world := w\<rparr>) = stays S T" "stays S (T\<lparr>nd_root := r\<rparr>) = stays S T" "stays S (T\<lparr>nd_root_seq := n\<rparr>) = stays S T"
  "stays S (path_get p T) = stays S T" "stays S S"
  by (simp_all add: stays_def)

lemma has_root_frame [simp]: "has_root_flag (S\<lparr>nd_root_seq := n\<rparr>) = has_root_flag S"
  by (simp add: has_root_flag_def)

lemma stays_trans: "stays S T \<Longrightarrow> stays T U \<Longrightarrow> stays S U"
  by (simp add: stays_def)

lemma set_root_rcu_safe:
  "ok K f S \<Longrightarrow> in_rcu S \<Longrightarrow> \<not> has_root_flag S \<Longrightarrow> safe (\<lambda>T. ok K f T \<and> stays S T) (set_root_rcu E n S)"
proof (induction n arbitrary: S)
  case (Suc n)
  let ?T = "\<lambda>w v s. S\<lparr>nd_root := k_fs_root E (world S), world := w, nd_root_seq := s, world := v\<rparr>"
  have T: "ok K f (?T w v s)" "stays S (?T w v s)" "in_rcu (?T w v s)" "\<not> has_root_flag (?T w v s)" for w v s
    using Suc.prems by (simp_all add: ok_root_rcu)
  have "safe (\<lambda>U. ok K f U \<and> stays S U) (set_root_rcu E n (?T w v s))" for w v s
    using Suc.IH [OF T(1,3,4)] by (rule safe_mono) (use T(2) stays_trans in blast)
  then show ?case using T(1,2) by (simp add: Let_def kop_eq)
qed simp

lemma set_root_safe:
  assumes "ok K f S" "p_mnt (nd_root S) = None" "rooted S" "fs_ok E"
  shows "safe (\<lambda>T. ok K f T \<and> stays S T) (set_root E S)"
  using assms set_root_rcu_safe [of K f S E "w_fuel E"] ok_root_ref [of K f S]
  by (auto simp: set_root_def rooted_def fs_ok_def Let_def simp del: ok_refs)

lemma nd_jump_root_safe:
  assumes "ok K f S"
  shows "safe (\<lambda>(e, T). ok K f T \<and> nd_stack T = nd_stack S \<and> in_rcu T = in_rcu S) (nd_jump_root E S)"
  using assms by (auto simp: nd_jump_root_def Let_def kop_eq flags_mode)

lemma nd_jump_link_safe:
  assumes "ok K f S" "\<not> in_rcu S"
  shows "safe (\<lambda>T. ok K f T \<and> nd_stack T = nd_stack S) (nd_jump_link E p (path_get p S))"
  using assms by (auto simp: nd_jump_link_def Let_def flags_mode)

section \<open>Moving to another path\<close>

text \<open>A path that a lookup has found shares its mount with the walk if it has not left it.\<close>

definition cref :: "'k walk \<Rightarrow> vpath \<Rightarrow> nat + nat \<Rightarrow> int" where
  "cref S p x = (if in_rcu S then 0 else d_ref (p_dentry p) x + (if p_mnt p \<noteq> p_mnt (nd_path S) then m_ref (p_mnt p) x else 0))"

lemma path_to_nameidata_ok:
  assumes "ok K (\<lambda>x. f x + cref S p x) S"
  shows "ok K f (path_to_nameidata p S)"
  using assms by (auto simp: path_to_nameidata_def cref_def Let_def path_refs_def elim!: okI [rotated])

lemma path_put_conditional_ok:
  assumes "ok K (\<lambda>x. f x + cref S p x) S" "\<not> in_rcu S"
  shows "ok K f (path_put_conditional p S)"
  using assms by (auto simp: path_put_conditional_def cref_def Let_def elim!: okI)

section \<open>Leaving RCU mode in the middle of a step\<close>

lemma unlazy_step:
  assumes "ok K f S" "in_rcu S" "fits K"
  shows "safe (\<lambda>(e, T). (if e = 0 then ok K f T \<and> nd_path T = nd_path S \<and> map s_link (nd_stack T) = map s_link (nd_stack S) \<and>
      nd_link_inode T = nd_link_inode S \<and> nd_total_link_count T = nd_total_link_count S else bad K f T) \<and> \<not> in_rcu T) (unlazy_walk E S)"
  by (rule safe_mono [OF unlazy_walk_safe [OF assms(2) ok_fits [OF assms(1,3)]]])
    (use ok_trans [OF assms(1)] bad_trans [OF assms(1)] in \<open>fastforce simp: unlazied_def split: if_splits\<close>)

lemma unlazy_child_step:
  assumes "ok K f S" "in_rcu S" "fits K"
  shows "safe (\<lambda>(e, T). (if e = 0 then ok K (\<lambda>x. f x + d_ref (Some d) x) T \<and> nd_path T = nd_path S else bad K f T) \<and> \<not> in_rcu T)
    (unlazy_child E d seq S)"
  by (rule safe_mono [OF unlazy_child_safe [OF assms(2) ok_fits [OF assms(1,3)]]])
    (use ok_trans [OF assms(1)] bad_trans [OF assms(1)] in \<open>fastforce simp: unlazied_def split: if_splits\<close>)

lemma ok_drop_root:
  assumes "ok K f S" "in_rcu S"
  shows "ok K f (drop_root S)"
  using assms ok_root_rcu [of K f S] by (simp add: drop_root_def)

lemma complete_walk_safe:
  assumes "ok K f S" "fits K"
  shows "safe (\<lambda>(e, T). bad K f T \<and> (e = 0 \<longrightarrow> \<not> in_rcu T)) (complete_walk E S)"
proof -
  define Q where "Q = (\<lambda>(e, T). bad K f T \<and> (e = (0 :: int) \<longrightarrow> \<not> in_rcu T))"
  have tail: "safe Q (if e \<noteq> 0 then Inr (- ECHILD, T)
      else if nd_flags T AND LOOKUP_JUMPED = 0 then Inr (0, T)
      else bind_res (null_ok dentry) (\<lambda>d.
      if \<not> kd_op_weak_revalidate (w_dentry E (world T) d) then Inr (0, T)
      else let (status, T) = kop (k_d_weak_revalidate E d (nd_flags T)) T in
           if status > 0 then Inr (0, T) else Inr (if status = 0 then - ESTALE else status, T)))"
    if "bad K f T" "\<not> in_rcu T" for e T dentry
    using that by (auto simp: Q_def Let_def kop_eq ECHILD_def ESTALE_def)
  have "safe (\<lambda>(e, T). bad K f T \<and> \<not> in_rcu T) (if in_rcu S then unlazy_walk E (drop_root S) else Inr (0, S))"
    using unlazy_step [OF ok_drop_root [OF assms(1)], of E] assms ok_bad by (auto elim!: safe_mono split: if_splits)
  then have "safe Q (complete_walk E S)"
    unfolding complete_walk_def Let_def safe_bind
    by (rule safe_mono) (use tail [unfolded Let_def safe_bind] in \<open>auto simp del: safe_bind\<close>)
  then show ?thesis by (simp add: Q_def)
qed

end
