(* ===== verification/Walk_Mounts.thy ===== *)
theory Walk_Mounts
  imports Walk_Moves
begin

text \<open>Crossing mount points and going up keep the balance of a walk.\<close>

section \<open>Down\<close>

definition here :: "'k walk \<Rightarrow> 'k walk \<Rightarrow> bool" where
  "here S T \<longleftrightarrow> nd_path T = nd_path S \<and> in_rcu T = in_rcu S"

lemma here_frame [simp]:
  "here S S" "here S (T\<lparr>world := w\<rparr>) = here S T" "here S (dget d T) = here S T" "here S (dput d T) = here S T"
  "here S (mntget m T) = here S T" "here S (mntput m T) = here S T" "here S (path_get p T) = here S T" "here S (path_put p T) = here S T"
  "here S (T\<lparr>nd_inode := i\<rparr>) = here S T" "here S (T\<lparr>nd_seq := n\<rparr>) = here S T"
  "here S (T\<lparr>nd_total_link_count := c\<rparr>) = here S T" "same_mode g (nd_flags T) \<Longrightarrow> here S (T\<lparr>nd_flags := g\<rparr>) = here S T"
  by (simp_all add: here_def flags_mode)

lemma here_trans: "here S T \<Longrightarrow> here T U \<Longrightarrow> here S U"
  by (simp add: here_def)

lemma lookup_mnt_eq:
  "lookup_mnt E p S = (fst (k_lookup_mnt E p (world S)), mntget (fst (k_lookup_mnt E p (world S))) (S\<lparr>world := snd (k_lookup_mnt E p (world S))\<rparr>))"
  by (simp add: lookup_mnt_def kop_eq)

lemma mntget_None [simp]: "mntget None S = S"
  by (simp add: mntget_def add_ref_def)

text \<open>What is held for a path while mounts are followed.\<close>

definition hold :: "vpath \<Rightarrow> bool \<Rightarrow> nat + nat \<Rightarrow> int" where
  "hold p need x = d_ref (p_dentry p) x + (if need then m_ref (p_mnt p) x else 0)"

lemma mounted_root_sel [simp]:
  "p_mnt (mounted_root E m S) = Some m" "p_dentry (mounted_root E m S) = Some (mnt_root (w_mount E (world S) m))"
  by (simp_all add: mounted_root_def)

lemma follow_automount_safe:
  assumes "ok K (\<lambda>x. f x + hold path need x) S" "need \<or> p_mnt path = mnt"
  shows "safe (\<lambda>(r, p, need', T). ok K (\<lambda>x. f x + hold p need' x) T \<and> here S T \<and> (need' \<or> p_mnt p = mnt))
    (follow_automount E path need S)"
proof -
  let ?S = "S\<lparr>nd_total_link_count := nd_total_link_count S + 1\<rparr>"
  have S: "ok K (\<lambda>x. f x + hold path need x) ?S" using assms(1) by (rule ok_count)
  then have T: "ok K (\<lambda>x. f x + hold path True x) (if \<not> need then mntget (p_mnt path) (?S\<lparr>world := w\<rparr>) else ?S\<lparr>world := w\<rparr>)" for w
    by (auto simp: hold_def elim!: okI)
  have fin: "ok K (\<lambda>x. f x + hold p True x + (if err = 0 then m_ref (Some m) x else 0)) U \<and> here T U"
    if "ok K (\<lambda>x. f x + hold path True x) T" "finish_automount E m path T = (err, p, U)" for m T err p U
    using that by (auto simp: finish_automount_def kop_eq hold_def path_refs_def case_prod_beta Let_def split: if_splits elim!: okI)
  have mount: "safe (\<lambda>(r, p, need', T). ok K (\<lambda>x. f x + hold p need' x) T \<and> here S T \<and> (need' \<or> p_mnt p = mnt))
      (let (err, path, U) = finish_automount E m path T in
       if err = - EBUSY then Inr (0, path, True, U)
       else if err = 0
       then let U = path_put path U; U = dget (Some (mnt_root (w_mount E (world U) m))) U in Inr (0, mounted_root E m U, True, U)
       else Inr (err, path, True, U))"
    if "ok K (\<lambda>x. f x + hold path True x) T" "here S T" for m T
  proof -
    obtain err p U where U: "finish_automount E m path T = (err, p, U)" by (cases "finish_automount E m path T")
    then show ?thesis using fin [OF that(1) U] here_trans [OF that(2)]
      by (auto simp: Let_def EBUSY_def hold_def path_refs_def elim!: okI)
  qed
  show ?thesis
    using assms S mount [OF T]
    by (auto simp: follow_automount_def Let_def kop_eq split: automount.split if_split_asm)
qed


lemma managed_loop_safe:
  "ok K (\<lambda>x. f x + hold path need x) S \<Longrightarrow> need \<or> p_mnt path = mnt \<Longrightarrow>
   safe (\<lambda>(r, p, need', T). ok K (\<lambda>x. f x + hold p need' x) T \<and> here S T \<and> (need' \<or> p_mnt p = mnt)) (managed_loop E n ret path need S)"
proof (induction n arbitrary: ret path need S)
  case (Suc n)
  define Q where "Q = (\<lambda>(r :: int, p, need', T). ok K (\<lambda>x. f x + hold p need' x) T \<and> here S T \<and> (need' \<or> p_mnt p = mnt))"
  have Qi: "Q (r, p, need', T) \<longleftrightarrow> ok K (\<lambda>x. f x + hold p need' x) T \<and> here S T \<and> (need' \<or> p_mnt p = mnt)" for r p need' T
    by (simp add: Q_def)
  have rec: "safe Q (managed_loop E n r p need' T)"
    if "ok K (\<lambda>x. f x + hold p need' x) T" "need' \<or> p_mnt p = mnt" "here S T" for r p need' T
    using Suc.IH [OF that(1,2)] by (rule safe_mono) (use here_trans [OF that(3)] in \<open>auto simp: Q_def\<close>)
  define G where "G = (\<lambda>(managed :: kdentry) r T. let (mounted, T) = (if kd_mounted managed then lookup_mnt E path T else (None, T)) in
     (case mounted of
        Some m \<Rightarrow>
          let T = dput (p_dentry path) T; T = (if need then mntput (p_mnt path) T else T); path = mounted_root E m T;
              T = dget (p_dentry path) T in
          managed_loop E n r path True T
      | None \<Rightarrow>
          if kd_need_automount managed
          then bind_res (follow_automount E path need T) (\<lambda>(ret, path, need_mntput, T).
               if ret < 0 then Inr (ret, path, need_mntput, T) else managed_loop E n ret path need_mntput T)
          else Inr (r, path, need, T)))"
  have rest: "safe Q (G managed r T)" if "ok K (\<lambda>x. f x + hold path need x) T" "here S T" for managed T r
  proof -
    let ?v = "k_lookup_mnt E path (world T)"
    have T: "ok K (\<lambda>x. f x + hold path need x) (T\<lparr>world := w\<rparr>)" "here S (T\<lparr>world := w\<rparr>)" for w using that by simp_all
    have "safe (\<lambda>x. safe Q (case x of (ret, path, need_mntput, U) \<Rightarrow> if ret < 0 then Inr (ret, path, need_mntput, U)
        else managed_loop E n ret path need_mntput U)) (follow_automount E path need U)"
      if "ok K (\<lambda>x. f x + hold path need x) U" "here S U" for U
      by (rule safe_mono [OF follow_automount_safe [OF that(1) Suc.prems(2)]])
        (use here_trans [OF that(2)] in \<open>auto intro!: rec simp del: safe_if simp: Qi split: prod.split\<close>)
    moreover have "safe Q (managed_loop E n r (mounted_root E m U) True (dget (Some (mnt_root (w_mount E (world U) m))) U))"
      if "U = (if need then mntput (p_mnt path) (dput (p_dentry path) (mntget (Some m) (T\<lparr>world := w\<rparr>)))
               else dput (p_dentry path) (mntget (Some m) (T\<lparr>world := w\<rparr>)))" for m U w
      unfolding that using T by (intro rec) (auto simp: hold_def elim!: okI)
    ultimately show ?thesis
      using T that Suc.prems(2) by (auto simp: G_def Let_def lookup_mnt_eq Qi split: option.split)
  qed
  have eq: "managed_loop E (Suc n) ret path need S = bind_res (null_ok (p_dentry path)) (\<lambda>d.
     let managed = w_dentry E (world S) d in
     if \<not> kd_manage_transit managed \<and> \<not> kd_mounted managed \<and> \<not> kd_need_automount managed then Inr (ret, path, need, S)
     else if kd_manage_transit managed \<and> \<not> kd_has_manage managed then Inl KernelBug
     else let (ret, S) = (if kd_manage_transit managed then kop (k_d_manage E path False) S else (ret, S)) in
     if kd_manage_transit managed \<and> ret < 0 then Inr (ret, path, need, S) else G managed ret S)"
    by (simp only: managed_loop.simps G_def Let_def)
  have "safe Q (managed_loop E (Suc n) ret path need S)"
    unfolding eq Let_def using rest Suc.prems by (auto simp: kop_eq Qi)
  then show ?case by (simp only: Q_def)
qed simp


lemma follow_managed_safe:
  assumes "ok K (\<lambda>x. f x + d_ref (p_dentry path) x) S" "p_mnt path = p_mnt (nd_path S)" "\<not> in_rcu S"
  shows "safe (\<lambda>(r, p, T). here S T \<and> r \<noteq> 0 \<and> (if r < 0 then ok K f T else ok K (\<lambda>x. f x + cref T p x) T)) (follow_managed E path S)"
proof -
  have done_path: "here S (if r < 0 then path_put_conditional p U else U) \<and>
      (if r < 0 then ok K f (path_put_conditional p U) else ok K (\<lambda>x. f x + cref U p x) U)"
    if "ok K (\<lambda>x. f x + hold p need x) T" "here S T" "need \<or> p_mnt p = p_mnt (nd_path S)"
      "U = (if need then V\<lparr>nd_flags := nd_flags V OR LOOKUP_JUMPED\<rparr> else V)"
      "V = (if need \<and> p_mnt p = p_mnt (nd_path S) then mntput (p_mnt p) T else T)" for r :: int and p need T U V
  proof -
    have U: "here S U" "ok K (\<lambda>x. f x + cref U p x) U"
      using that assms(3) by (auto simp: hold_def cref_def here_def flags_mode elim!: okI)
    then have "ok K f (path_put_conditional p U)"
      using assms(3) by (intro path_put_conditional_ok) (auto simp: here_def)
    then show ?thesis using U by (auto simp: path_put_conditional_def Let_def)
  qed
  have tail: "safe (\<lambda>(r, p, T). here S T \<and> r \<noteq> 0 \<and> (if r < 0 then ok K f T else ok K (\<lambda>x. f x + cref T p x) T))
      (let T = (if need \<and> p_mnt p = p_mnt (nd_path S) then mntput (p_mnt p) T else T);
           r = (if r = - EISDIR \<or> r = 0 then 1 else r);
           T = (if need then T\<lparr>nd_flags := nd_flags T OR LOOKUP_JUMPED\<rparr> else T);
           T = (if r < 0 then path_put_conditional p T else T) in
       Inr (r, p, T))"
    if "ok K (\<lambda>x. f x + hold p need x) T" "here S T" "need \<or> p_mnt p = p_mnt (nd_path S)" for r p need T
    using done_path [OF that refl refl, of "if r = - EISDIR \<or> r = 0 then 1 else r"]
    unfolding Let_def safe_Inr prod.case by (cases "(if r = - EISDIR \<or> r = 0 then 1 else r) < 0") (simp_all split: if_splits)
  have "ok K (\<lambda>x. f x + hold path False x) S" using assms(1) by (simp add: hold_def)
  then show ?thesis
    unfolding follow_managed_def Let_def safe_bind
    by (rule safe_mono [OF managed_loop_safe [where mnt = "p_mnt (nd_path S)"]])
      (simp add: assms(2), simp only: assms(2) case_prod_beta, rule tail [unfolded Let_def], simp_all)
qed

lemma follow_mount_rcu_safe:
  "ok K f S \<Longrightarrow> safe (\<lambda>(b, p, i, q, T). ok K f T \<and> here S T) (follow_mount_rcu E n path inode seq S)"
proof (induction n arbitrary: path inode seq S)
  case (Suc n)
  have rec: "safe (\<lambda>(b, p, i, q, U). ok K f U \<and> here S U) (follow_mount_rcu E n p i q T)"
    if "ok K f T" "here S T" for p i q T
    using Suc.IH [OF that(1)] by (rule safe_mono) (use here_trans [OF that(2)] in auto)
  show ?case using Suc.prems
    by (auto simp: managed_dentry_rcu_def Let_def kop_eq intro!: rec split: option.split)
qed simp

section \<open>Up\<close>

lemma path_connected_safe: "ok K f S \<Longrightarrow> safe (\<lambda>(b, T). ok K f T \<and> here S T) (path_connected E path S)"
  by (auto simp: path_connected_def Let_def kop_eq)

lemma dotdot_up_rcu_safe:
  "ok K f S \<Longrightarrow> in_rcu S \<Longrightarrow> safe (\<lambda>(e, i, T). ok K f T \<and> in_rcu T \<and> e \<le> 0) (dotdot_up_rcu E n inode S)"
proof (induction n arbitrary: inode S)
  case (Suc n)
  have conn: "safe (\<lambda>(b, T). ok K f T \<and> in_rcu T) (path_connected E p T)" if "ok K f T" "in_rcu T" for p T
    using path_connected_safe [OF that(1)] by (rule safe_mono) (use that in \<open>auto simp: here_def\<close>)
  show ?case using Suc.prems
    by (auto simp: Let_def kop_eq ECHILD_def ENOENT_def intro!: Suc.IH safe_mono [OF conn])
qed simp

lemma dotdot_down_rcu_safe:
  "ok K f S \<Longrightarrow> in_rcu S \<Longrightarrow> safe (\<lambda>(e, i, T). ok K f T \<and> in_rcu T \<and> e \<le> 0) (dotdot_down_rcu E n inode S)"
proof (induction n arbitrary: inode S)
  case (Suc n)
  show ?case using Suc.prems by (auto simp: Let_def kop_eq ECHILD_def intro!: Suc.IH split: option.split)
qed simp

lemma follow_dotdot_rcu_safe:
  assumes "ok K f S" "in_rcu S"
  shows "safe (\<lambda>(e, T). ok K f T \<and> in_rcu T \<and> e \<le> 0) (follow_dotdot_rcu E S)"
  unfolding follow_dotdot_rcu_def safe_bind
  by (rule safe_mono [OF dotdot_up_rcu_safe [OF assms]])
    (auto intro!: safe_mono [OF dotdot_down_rcu_safe])

lemma follow_mount_safe:
  "ok K (\<lambda>x. f x + path_refs path x) S \<Longrightarrow> safe (\<lambda>(p, T). ok K (\<lambda>x. f x + path_refs p x) T \<and> here S T) (follow_mount E n path S)"
proof (induction n arbitrary: path S)
  case (Suc n)
  have rec: "safe (\<lambda>(p, U). ok K (\<lambda>x. f x + path_refs p x) U \<and> here S U) (follow_mount E n p T)"
    if "ok K (\<lambda>x. f x + path_refs p x) T" "here S T" for p T
    using Suc.IH [OF that(1)] by (rule safe_mono) (use here_trans [OF that(2)] in auto)
  show ?case using Suc.prems
    by (auto simp: Let_def lookup_mnt_eq intro!: rec split: option.split elim!: okI) (simp add: path_refs_def)
qed simp

lemma follow_up_safe:
  assumes "ok K (\<lambda>x. f x + path_refs path x) S"
  shows "safe (\<lambda>(r, p, T). ok K (\<lambda>x. f x + path_refs p x) T \<and> here S T) (follow_up E path S)"
  using assms by (auto simp: follow_up_def Let_def path_refs_def elim!: okI)

lemma path_parent_directory_safe:
  assumes "ok K (\<lambda>x. f x + path_refs path x) S"
  shows "safe (\<lambda>(r, p, T). ok K (\<lambda>x. f x + path_refs p x) T \<and> here S T \<and> r \<le> 0) (path_parent_directory E path S)"
proof -
  have conn: "safe (\<lambda>(b, U). ok K g U \<and> here S U) (path_connected E p T)" if "ok K g T" "here S T" for p g T
    using path_connected_safe [OF that(1)] by (rule safe_mono) (use here_trans [OF that(2)] in auto)
  show ?thesis using assms
    by (auto simp: path_parent_directory_def Let_def kop_eq path_refs_def ENOENT_def intro!: safe_mono [OF conn] elim!: okI)
qed


lemma dotdot_up_safe:
  "ok K f S \<Longrightarrow> \<not> in_rcu S \<Longrightarrow> safe (\<lambda>(e, T). ok K f T \<and> \<not> in_rcu T \<and> e \<le> 0) (dotdot_up E n S)"
proof (induction n arbitrary: S)
  case (Suc n)
  have S: "ok K (\<lambda>x. f x - path_refs (nd_path S) x + path_refs (nd_path S) x) S" using Suc.prems by simp
  have "safe (\<lambda>(r, p, T). ok K f (T\<lparr>nd_path := p\<rparr>) \<and> \<not> in_rcu T \<and> r \<le> 0) (path_parent_directory E (nd_path S) S)"
    by (rule safe_mono [OF path_parent_directory_safe [OF S]]) (use Suc.prems in \<open>auto simp: here_def elim!: okI\<close>)
  moreover have "safe (\<lambda>(r, p, T). ok K f (T\<lparr>nd_path := p\<rparr>) \<and> \<not> in_rcu T) (follow_up E (nd_path S) S)"
    by (rule safe_mono [OF follow_up_safe [OF S]]) (use Suc.prems in \<open>auto simp: here_def elim!: okI\<close>)
  ultimately show ?case using Suc.prems
    by (auto simp: Let_def simp del: ok_path intro!: Suc.IH elim!: safe_mono)
qed simp

lemma follow_dotdot_safe:
  assumes "ok K f S" "\<not> in_rcu S"
  shows "safe (\<lambda>(e, T). ok K f T \<and> \<not> in_rcu T \<and> e \<le> 0) (follow_dotdot E S)"
proof -
  have down: "safe (\<lambda>(p, U). ok K f (U\<lparr>nd_path := p\<rparr>) \<and> \<not> in_rcu U) (follow_mount E n (nd_path T) T)" if "ok K f T" "\<not> in_rcu T" for n T
    by (rule safe_mono [OF follow_mount_safe [of K "\<lambda>x. f x - path_refs (nd_path T) x"]])
      (use that in \<open>auto simp: here_def elim!: okI\<close>)
  show ?thesis
    unfolding follow_dotdot_def safe_bind
    by (intro safe_mono [OF dotdot_up_safe [OF assms]]) (auto simp del: ok_path intro!: safe_mono [OF down])
qed

end
