(* ===== verification/Walk_Lookup.thy ===== *)
theory Walk_Lookup
  imports Walk_Mounts
begin

text \<open>Looking up a component and picking up a link keep the balance of a walk and its stack in bounds.\<close>

section \<open>Looking up\<close>

lemma revalidate_eq: "\<exists>r w. revalidate E d flags S = (r, S\<lparr>world := w\<rparr>)"
  by (auto simp: revalidate_def kop_eq intro: exI [of _ "world S"])

lemma safe_revalidate: "(\<And>r w. safe Q (f r (S\<lparr>world := w\<rparr>))) \<Longrightarrow> safe Q (case revalidate E d flags S of (r, T) \<Rightarrow> f r T)"
  using revalidate_eq [of E d flags S] by auto

lemma safe_null_bind: "(\<And>a. p = Some a \<Longrightarrow> safe Q (f a)) \<Longrightarrow> safe Q (bind_res (null_ok p) f)"
  by simp

lemma safe_seq: "safe R m \<Longrightarrow> (\<And>x. R x \<Longrightarrow> safe Q (f x)) \<Longrightarrow> safe Q (bind_res m f)"
  by (cases m) simp_all

lemma safe_option: "(p = None \<Longrightarrow> safe Q r) \<Longrightarrow> (\<And>x. p = Some x \<Longrightarrow> safe Q (s x)) \<Longrightarrow> safe Q (case p of None \<Rightarrow> r | Some x \<Rightarrow> s x)"
  by (cases p) simp_all

lemma safe_sum: "(\<And>x. p = Inl x \<Longrightarrow> safe Q (r x)) \<Longrightarrow> (\<And>x. p = Inr x \<Longrightarrow> safe Q (s x)) \<Longrightarrow> safe Q (case p of Inl x \<Rightarrow> r x | Inr x \<Rightarrow> s x)"
  by (cases p) simp_all

lemma safe_pair: "(\<And>x y. safe Q (f x y)) \<Longrightarrow> safe Q (case p of (x, y) \<Rightarrow> f x y)"
  by (cases p) simp

lemma lookup_fast_tail_safe:
  assumes "ok K (\<lambda>x. f x + d_ref (Some d) x) S" "\<not> in_rcu S"
  shows "safe (\<lambda>(r, p, i, q, T). here S T \<and> (if r \<le> 0 then ok K f T else ok K (\<lambda>x. f x + cref T p x) T))
    (lookup_fast_tail E path inode seq d status S)"
proof -
  have "safe (\<lambda>(r, p, T). here S T \<and> r \<noteq> 0 \<and> (if r < 0 then ok K f T else ok K (\<lambda>x. f x + cref T p x) T))
      (follow_managed E \<lparr>p_mnt = p_mnt (nd_path S), p_dentry = Some d\<rparr> S)"
    using assms by (intro follow_managed_safe) simp_all
  then show ?thesis using assms
    by (auto simp: lookup_fast_tail_def invalidate_def Let_def ENOENT_def split: if_splits elim!: safe_mono)
qed

text \<open>A found path comes with its references; a result of 0 leaves the lookup to the file system.\<close>

definition found :: "'k walk \<Rightarrow> (nat + nat \<Rightarrow> int) \<Rightarrow> int \<Rightarrow> vpath \<Rightarrow> 'k walk \<Rightarrow> bool" where
  "found K f r p T \<longleftrightarrow>
     (if r < 0 then bad K f T else if r = 0 then ok K f T \<and> \<not> in_rcu T else ok K (\<lambda>x. f x + cref T p x) T)"

lemma lookup_fast_safe:
  assumes "ok K f S" "fits K"
  shows "safe (\<lambda>(r, p, i, q, T). found K f r p T) (lookup_fast E S)"
proof -
  have tail: "safe (\<lambda>(r, p, i, q, T). found K f r p T) (lookup_fast_tail E path inode seq d status T)"
    if "ok K (\<lambda>x. f x + d_ref (Some d) x) T" "\<not> in_rcu T" for path inode seq d status T
    by (rule safe_mono [OF lookup_fast_tail_safe [OF that]]) (use that ok_bad in \<open>auto simp: found_def here_def split: if_splits\<close>)
  have rcu: "safe (\<lambda>(r, p, i, q, T). found K f r p T)
      (bind_res (if status > 0 then follow_mount_rcu E n q inode seq T else Inr (False, path, inode, seq, T)) (\<lambda>(ok, path, inode, seq, S).
       if ok then Inr (1, path, inode, seq, S)
       else bind_res (unlazy_child E d dseq S) (\<lambda>(err, S).
       if err \<noteq> 0 then Inr (- ECHILD, path, inode, seq, S)
       else let (status, S) = (if status = - ECHILD then revalidate E d (nd_flags S) S else (status, S)) in
            lookup_fast_tail E path inode seq d status S)))"
    if "ok K f T" "in_rcu T" for status n q inode seq path d dseq T
  proof -
    have child: "safe (\<lambda>(r, p, i, q, T). found K f r p T)
        (bind_res (unlazy_child E d dseq U) (\<lambda>(err, S).
         if err \<noteq> 0 then Inr (- ECHILD, path, inode, seq, S)
         else let (status, S) = (if status = - ECHILD then revalidate E d (nd_flags S) S else (status, S)) in
              lookup_fast_tail E path inode seq d status S))" if "ok K f U" "in_rcu U" for U path inode seq
      unfolding safe_bind
      by (rule safe_mono [OF unlazy_child_step [OF that assms(2)]])
        (auto simp: found_def ECHILD_def Let_def intro!: tail safe_revalidate split: if_splits)
    have "safe (\<lambda>(b, p, i, q, U). ok K f U \<and> in_rcu U)
        (if status > 0 then follow_mount_rcu E n q inode seq T else Inr (False, path, inode, seq, T))"
      using that by (auto simp: here_def intro: safe_mono [OF follow_mount_rcu_safe [OF that(1)]])
    then show ?thesis
      unfolding safe_bind by (rule safe_mono) (auto simp: found_def cref_def simp del: safe_bind intro!: child)
  qed
  have lazy: "safe (\<lambda>(r, p, i, q, T). found K f r p T)
      (bind_res (unlazy_walk E T) (\<lambda>(err, S). Inr (if err \<noteq> 0 then - ECHILD else 0, path, inode, seq, S)))"
    if "ok K f T" "in_rcu T" for T path inode seq
    unfolding safe_bind by (rule safe_mono [OF unlazy_step [OF that assms(2)]]) (auto simp: found_def ECHILD_def split: if_splits)
  have err: "safe (\<lambda>(r, p, i, q, T). found K f r p T) (Inr (- ECHILD, path, inode, seq, T))"
      "safe (\<lambda>(r, p, i, q, T). found K f r p T) (Inr (- ENOENT, path, inode, seq, T))" if "ok K f T" for path inode seq T
    using that ok_bad by (auto simp: found_def ECHILD_def ENOENT_def)
  show ?thesis
    unfolding lookup_fast_def Let_def kop_eq prod.case
    by (intro safe_null_bind safe_if safe_option safe_pair safe_revalidate lazy err rcu [unfolded Let_def] tail)
      (use assms in \<open>auto simp: found_def\<close>)
qed


text \<open>The error codes that come back as pointers are negative.\<close>

definition errs_ok :: "('k, 'a) walk_env \<Rightarrow> bool" where
  "errs_ok E \<longleftrightarrow>
     (\<forall>dir h nm w e. fst (k_d_alloc_parallel E dir h nm w) = Inl e \<longrightarrow> e < 0) \<and>
     (\<forall>i d g w e. fst (k_iop_lookup E i d g w) = LookedErr e \<longrightarrow> e < 0) \<and>
     (\<forall>d i r w. fst (k_follow_link E d i r w) \<le> 0) \<and>
     (\<forall>d i w e. fst (fst (k_get_link E d i w)) = LinkErr e \<longrightarrow> e < 0)"

definition looked_up :: "'k walk \<Rightarrow> (nat + nat \<Rightarrow> int) \<Rightarrow> int + nat \<Rightarrow> 'k walk \<Rightarrow> bool" where
  "looked_up K f r T \<longleftrightarrow> (case r of Inl e \<Rightarrow> e < 0 \<and> ok K f T | Inr d \<Rightarrow> ok K (\<lambda>x. f x + d_ref (Some d) x) T)"

lemma looked_up_simps [simp]:
  "looked_up K f (Inl e) T \<longleftrightarrow> e < 0 \<and> ok K f T" "looked_up K f (Inr d) T \<longleftrightarrow> ok K (\<lambda>x. f x + d_ref (Some d) x) T"
  by (simp_all add: looked_up_def)

lemma lookup_slow_loop_safe:
  assumes "errs_ok E"
  shows "ok K f S \<Longrightarrow> safe (\<lambda>(r, T). looked_up K f r T \<and> here S T) (lookup_slow_loop E n dir inode flags S)"
proof (induction n arbitrary: S)
  case (Suc n)
  have rec: "safe (\<lambda>(r, U). looked_up K f r U \<and> here S U) (lookup_slow_loop E n dir inode flags T)" if "ok K f T" "here S T" for T
    using Suc.IH [OF that(1)] by (rule safe_mono) (use here_trans [OF that(2)] in auto)
  let ?r = "k_d_alloc_parallel E dir (nd_last_hash S) (nd_last_name S) (world S)"
  have alloc: "fst ?r = Inl e \<Longrightarrow> e < 0" for e using assms by (auto simp: errs_ok_def)
  have iop: "fst (k_iop_lookup E inode d flags w) = LookedErr e \<Longrightarrow> e < 0" for d w e
    using assms by (auto simp: errs_ok_def)
  have dentry: "safe (\<lambda>(r, U). looked_up K f r U \<and> here S U)
      (if \<not> k_d_in_lookup E (world T) d
       then if flags AND LOOKUP_NO_REVAL \<noteq> 0 then Inr (Inr d, T)
            else let (error, T) = revalidate E d flags T in
                 if error > 0 then Inr (Inr d, T)
                 else if error = 0 then lookup_slow_loop E n dir inode flags (dput (Some d) (invalidate E d T))
                 else Inr (Inl error, dput (Some d) T)
       else let (old, T) = kop (k_iop_lookup E inode d flags) T; T = T\<lparr>world := k_d_lookup_done E d (world T)\<rparr> in
            (case old of
               LookedNull \<Rightarrow> Inr (Inr d, T)
             | LookedErr e \<Rightarrow> Inr (Inl e, dput (Some d) T)
             | LookedDentry d' \<Rightarrow> Inr (Inr d', dput (Some d) (dget (Some d') T))))"
    if "ok K (\<lambda>x. f x + d_ref (Some d) x) T" "here S T" for d T
    using that iop
    by (auto simp: Let_def kop_eq invalidate_def intro!: safe_revalidate rec split: looked.split)
  show ?case
    unfolding lookup_slow_loop.simps Let_def kop_eq prod.case
    by (intro safe_sum dentry [unfolded Let_def kop_eq prod.case]) (use Suc.prems alloc in auto)
qed simp


lemma lock_sel [simp]:
  "nd_depth (inode_lock_shared i S) = nd_depth S" "nd_stack (inode_lock_shared i S) = nd_stack S" "nd_heap (inode_lock_shared i S) = nd_heap S"
  "nd_total_link_count (inode_lock_shared i S) = nd_total_link_count S" "nd_name (inode_lock_shared i S) = nd_name S"
  "nd_dfd (inode_lock_shared i S) = nd_dfd S" "has_root_flag (inode_lock_shared i S) = has_root_flag S"
  "nd_root (inode_lock_shared i S) = nd_root S" "nd_path (inode_lock_shared i S) = nd_path S" "last_ok (inode_lock_shared i S) = last_ok S"
  "ishared (inode_lock_shared i S) = (ishared S)(i := ishared S i + 1)" "rcu_nest (inode_lock_shared i S) = rcu_nest S"
  by (simp_all add: inode_lock_shared_def has_root_flag_def last_ok_def)

lemma lock_refs [simp]: "refs (inode_lock_shared i S) = refs S"
  by (rule refs_cong) (simp_all add: inode_lock_shared_def)

lemma unlock_sel [simp]:
  "nd_depth (inode_unlock_shared i S) = nd_depth S" "nd_stack (inode_unlock_shared i S) = nd_stack S" "nd_heap (inode_unlock_shared i S) = nd_heap S"
  "nd_total_link_count (inode_unlock_shared i S) = nd_total_link_count S" "nd_name (inode_unlock_shared i S) = nd_name S"
  "nd_dfd (inode_unlock_shared i S) = nd_dfd S" "has_root_flag (inode_unlock_shared i S) = has_root_flag S"
  "nd_root (inode_unlock_shared i S) = nd_root S" "nd_path (inode_unlock_shared i S) = nd_path S" "last_ok (inode_unlock_shared i S) = last_ok S"
  "ishared (inode_unlock_shared i S) = (ishared S)(i := ishared S i - 1)" "rcu_nest (inode_unlock_shared i S) = rcu_nest S"
  by (simp_all add: inode_unlock_shared_def has_root_flag_def last_ok_def)

lemma unlock_refs [simp]: "refs (inode_unlock_shared i S) = refs S"
  by (rule refs_cong) (simp_all add: inode_unlock_shared_def)

lemma bal_lock [simp]:
  "bal (inode_lock_shared i S) x = bal S x" "rbal (inode_lock_shared i S) = rbal S"
  "bal (inode_unlock_shared i S) x = bal S x" "rbal (inode_unlock_shared i S) = rbal S"
  by (simp_all add: bal_def rbal_def held_def link_refs_def root_refs_def)

lemma ok_lock: "ok K f S \<Longrightarrow> ok (inode_lock_shared i K) f (inode_lock_shared i S)"
  by (simp add: ok_def acct_def keeps_def shrinks_def)

lemma ok_unlock: "ok (inode_lock_shared i K) f T \<Longrightarrow> ok K f (inode_unlock_shared i T)"
  by (simp add: ok_def acct_def keeps_def shrinks_def)

lemma here_lock [simp]: "here (inode_lock_shared i S) T = here S T" "here S (inode_unlock_shared i T) = here S T"
  "here S (inode_lock_shared i T) = here S T"
  by (simp_all add: here_def)

lemma looked_up_unlock: "looked_up (inode_lock_shared i K) f r T \<Longrightarrow> looked_up K f r (inode_unlock_shared i T)"
  by (cases r) (simp_all add: ok_unlock)

lemma lookup_slow_safe:
  assumes "ok K f S" "errs_ok E"
  shows "safe (\<lambda>(r, T). looked_up K f r T \<and> here S T) (lookup_slow E dir flags S)"
proof -
  have loop: "safe (\<lambda>(r, T). looked_up (inode_lock_shared i K) f r T \<and> here S T)
      (if dead then Inr (Inl (- ENOENT), inode_lock_shared i S) else lookup_slow_loop E n dir i flags (inode_lock_shared i S))" for dead i n
    using lookup_slow_loop_safe [OF assms(2) ok_lock [OF assms(1)]] ok_lock [OF assms(1)] by (auto simp: ENOENT_def)
  show ?thesis
    unfolding lookup_slow_def Let_def
    by (intro safe_null_bind safe_seq [OF loop]) (auto intro: looked_up_unlock)
qed

section \<open>Permissions and dots\<close>

definition kept :: "'k walk \<Rightarrow> (nat + nat \<Rightarrow> int) \<Rightarrow> int \<Rightarrow> 'k walk \<Rightarrow> bool" where
  "kept K f e T \<longleftrightarrow> (if e = 0 then ok K f T else bad K f T)"

lemma kept_ok: "ok K f T \<Longrightarrow> kept K f e T"
  by (simp add: kept_def ok_bad)

lemma kept_bad: "bad K f T \<Longrightarrow> e \<noteq> 0 \<Longrightarrow> kept K f e T"
  by (simp add: kept_def)

lemma walk_permission_safe: "ok K f S \<Longrightarrow> safe (\<lambda>(e, T). ok K f T \<and> here S T) (walk_permission E inode msk S)"
  by (auto simp: walk_permission_def Let_def split: prod.split)

lemma may_lookup_safe:
  assumes "ok K f S" "fits K"
  shows "safe (\<lambda>(e, T). kept K f e T) (may_lookup E S)"
proof -
  have perm: "safe (\<lambda>(e, U). kept K f e U) (walk_permission E i m T)" if "ok K f T" for i m T
    by (rule safe_mono [OF walk_permission_safe [OF that]]) (auto intro: kept_ok)
  have lazy: "safe (\<lambda>(e, U). kept K f e U)
      (bind_res (unlazy_walk E T) (\<lambda>(e, S). if e \<noteq> 0 then Inr (- ECHILD, S) else walk_permission E (nd_inode S) MAY_EXEC S))"
    if "ok K f T" "in_rcu T" for T
    by (rule safe_seq [OF unlazy_step [OF that assms(2)]]) (auto simp: ECHILD_def intro!: perm kept_bad split: if_splits)
  show ?thesis
    unfolding may_lookup_def
    by (intro safe_if safe_seq [OF walk_permission_safe [OF assms(1)]] safe_prod perm assms(1))
      (use assms in \<open>auto simp: here_def kept_ok intro!: lazy simp del: safe_bind\<close>)
qed

lemma handle_dots_safe:
  assumes "ok K f S" "rooted S" "fs_ok E"
  shows "safe (\<lambda>(e, T). ok K f T \<and> e \<le> 0) (handle_dots E type S)"
  unfolding handle_dots_def
  by (intro safe_if safe_seq [where R = "ok K f"] safe_mono [OF set_root_safe [OF assms(1) _ assms(2,3)]]
      safe_mono [OF follow_dotdot_safe] safe_mono [OF follow_dotdot_rcu_safe]) (use assms in auto)

end
