(* ===== verification/Walk_Links.thy ===== *)
theory Walk_Links
  imports Walk_Lookup
begin

text \<open>
  Picking up links. The stack holds two links until it is moved to the heap, where it holds forty; the
  count of links, which no walk lets pass forty, is at least the depth, so a push is always in bounds.
\<close>

section \<open>Invariants\<close>

definition stack_ok :: "'k walk \<Rightarrow> bool" where
  "stack_ok S \<longleftrightarrow> length (nd_stack S) = (if nd_heap S then MAXSYMLINKS else EMBEDDED_LEVELS) \<and>
     nd_depth S \<le> length (nd_stack S) \<and> int (nd_depth S) \<le> nd_total_link_count S"

definition common :: "'k walk \<Rightarrow> 'k walk \<Rightarrow> bool" where
  "common K S \<longleftrightarrow> nd_total_link_count K \<le> nd_total_link_count S \<and> nd_name S = nd_name K \<and> nd_dfd S = nd_dfd K \<and>
     has_root_flag S = has_root_flag K \<and> (has_root_flag K \<and> p_mnt (nd_root K) \<noteq> None \<longrightarrow> nd_root S = nd_root K) \<and>
     (in_rcu S \<longrightarrow> in_rcu K) \<and> (last_ok K \<longrightarrow> last_ok S)"

text \<open>A step that may have failed, and one that has kept the names of the first \<open>k\<close> links.\<close>

definition gone :: "(nat + nat \<Rightarrow> int) \<Rightarrow> 'k walk \<Rightarrow> 'k walk \<Rightarrow> bool" where
  "gone f K T \<longleftrightarrow> acct f K T \<and> common K T \<and> stack_ok T"

definition names_kept :: "nat \<Rightarrow> 'k walk \<Rightarrow> 'k walk \<Rightarrow> bool" where
  "names_kept k K T \<longleftrightarrow> take k (map s_name (nd_stack T)) = take k (map s_name (nd_stack K))"

lemma stack_ok_fits: "stack_ok S \<Longrightarrow> fits S"
  by (simp add: stack_ok_def)

lemma bad_gone: "bad K f T \<Longrightarrow> stack_ok K \<Longrightarrow> gone f K T"
  by (auto simp: bad_def gone_def shrinks_def common_def stack_ok_def)

lemma ok_gone: "ok K f T \<Longrightarrow> stack_ok K \<Longrightarrow> gone f K T"
  by (simp add: ok_bad bad_gone)

lemma ok_names: "ok K f T \<Longrightarrow> names_kept k K T"
  by (simp add: ok_def keeps_def names_kept_def)

lemma acct_trans: "acct f K S \<Longrightarrow> acct g S T \<Longrightarrow> acct (\<lambda>x. f x + g x) K T"
  by (simp add: acct_def)

lemma common_trans: "common K S \<Longrightarrow> common S T \<Longrightarrow> common K T"
  by (auto simp: common_def)

lemma gone_trans: "gone f K S \<Longrightarrow> gone g S T \<Longrightarrow> gone (\<lambda>x. f x + g x) K T"
  using acct_trans common_trans by (auto simp: gone_def)

lemma goneI: "gone g K T \<Longrightarrow> (\<And>x. f x = g x) \<Longrightarrow> gone f K T"
  by (simp add: gone_def acct_def)

lemma gone_ok: "gone f K S \<Longrightarrow> ok S g T \<Longrightarrow> gone (\<lambda>x. f x + g x) K T"
  using gone_trans [of f K S g T] ok_gone [of S g T] by (simp add: gone_def [of f K S])

lemma names_kept_trans: "names_kept k K S \<Longrightarrow> names_kept k S T \<Longrightarrow> names_kept k K T"
  by (simp add: names_kept_def)

lemma names_kept_le: "names_kept k K S \<Longrightarrow> j \<le> k \<Longrightarrow> names_kept j K S"
proof -
  assume a: "names_kept k K S" "j \<le> k"
  then have "take j (take k (map s_name (nd_stack S))) = take j (take k (map s_name (nd_stack K)))" by (simp add: names_kept_def)
  then show ?thesis using a(2) by (simp add: names_kept_def min_def)
qed

section \<open>Room for a link\<close>

definition roomy :: "'k walk \<Rightarrow> 'k walk \<Rightarrow> bool" where
  "roomy S T \<longleftrightarrow> (\<exists>w st h. T = S\<lparr>world := w, nd_stack := st, nd_heap := h\<rparr> \<and> length st = (if h then MAXSYMLINKS else EMBEDDED_LEVELS) \<and>
     take (nd_depth S) st = take (nd_depth S) (nd_stack S) \<and> nd_depth S \<le> length st \<and> (nd_depth S < MAXSYMLINKS \<longrightarrow> nd_depth S < length st))"

lemma roomy_same:
  assumes "stack_ok S" "nd_depth S \<noteq> EMBEDDED_LEVELS \<or> nd_heap S"
  shows "roomy S S"
  unfolding roomy_def
  by (rule exI [of _ "world S"], rule exI [of _ "nd_stack S"], rule exI [of _ "nd_heap S"])
    (use assms in \<open>auto simp: stack_ok_def\<close>)

lemma roomy_grow:
  assumes "stack_ok S" "nd_depth S = EMBEDDED_LEVELS" "\<not> nd_heap S"
  shows "roomy S (S\<lparr>world := w, nd_stack := take EMBEDDED_LEVELS (nd_stack S) @ replicate (MAXSYMLINKS - EMBEDDED_LEVELS) junk, nd_heap := True\<rparr>)"
  unfolding roomy_def
  by (rule exI [of _ w], rule exI, rule exI [of _ True], rule conjI [OF refl])
    (use assms in \<open>auto simp: stack_ok_def MAXSYMLINKS_def EMBEDDED_LEVELS_def\<close>)

lemma nd_alloc_stack_ok:
  assumes "stack_ok S" "nd_alloc_stack E S = (e, T)"
  shows "if e = 0 then roomy S T else (\<exists>w. T = S\<lparr>world := w\<rparr>) \<and> e < 0 \<and> (e = - ECHILD \<longleftrightarrow> in_rcu S)"
  using assms(2) roomy_same [OF assms(1)] roomy_grow [OF assms(1)]
  by (auto simp: nd_alloc_stack_def nd_alloc_stack_slow_def kop_eq Let_def ECHILD_def ENOMEM_def split: if_splits)


definition room :: "(nat + nat \<Rightarrow> int) \<Rightarrow> 'k walk \<Rightarrow> 'k walk \<Rightarrow> bool" where
  "room f S T \<longleftrightarrow> gone f S T \<and> nd_depth T = nd_depth S \<and> names_kept (nd_depth S) S T \<and>
     nd_total_link_count T = nd_total_link_count S \<and> (nd_depth S < MAXSYMLINKS \<longrightarrow> nd_depth S < length (nd_stack T))"

lemma roomy_room:
  assumes "roomy S T" "stack_ok S"
  shows "room (\<lambda>x. 0) S T \<and> in_rcu T = in_rcu S"
proof -
  obtain w st h where T: "T = S\<lparr>world := w, nd_stack := st, nd_heap := h\<rparr>" "length st = (if h then MAXSYMLINKS else EMBEDDED_LEVELS)"
      "take (nd_depth S) st = take (nd_depth S) (nd_stack S)" "nd_depth S \<le> length st" "nd_depth S < MAXSYMLINKS \<longrightarrow> nd_depth S < length st"
    using assms(1) unfolding roomy_def by blast
  have mode: "in_rcu T = in_rcu S" "has_root_flag T = has_root_flag S" by (simp_all add: T(1) in_rcu_def has_root_flag_def)
  have "refs T = refs S" by (rule refs_cong) (simp_all add: T(1))
  then have "acct (\<lambda>x. 0) S T" using T(3) mode by (simp add: acct_def bal_def rbal_def held_def link_refs_def root_refs_def, auto simp: T(1))
  moreover have "common S T" "stack_ok T" using assms(2) T(2,4) mode by (simp_all add: common_def stack_ok_def T(1) last_ok_def)
  moreover have "names_kept (nd_depth S) S T" using arg_cong [OF T(3), of "map s_name"] by (simp add: names_kept_def T(1) take_map)
  ultimately show ?thesis using T(5) mode by (simp add: room_def gone_def, simp add: T(1))
qed

lemma ok_counted:
  assumes "ok K f S" "counted S T g"
  shows "in_rcu S \<Longrightarrow> ok K (\<lambda>x. f x + g x) T \<and> in_rcu T"
  using assms(2)
proof (rule countedE)
  fix w d m
  assume rcu: "in_rcu S" and T: "T = S\<lparr>world := w, dref := d, mref := m\<rparr>" "\<And>x. refs T x = refs S x + g x"
  have mode: "in_rcu T" "has_root_flag T = has_root_flag S" "last_ok T = last_ok S" using rcu by (simp_all add: T(1) last_ok_def)
  then have "bal T x = bal S x + g x" "rbal T = rbal S" for x using rcu T(2) by (simp_all add: bal_def held_def rbal_def T(1))
  then show ?thesis using assms(1) mode rcu by (auto simp: ok_def acct_def keeps_def shrinks_def T(1))
qed

text \<open>Giving up in RCU mode: nothing is held any more.\<close>

lemma abort_bad:
  assumes "ok K f S" "in_rcu S" "length st = length (nd_stack S)"
  shows "bad K f (rcu_read_unlock (drop_root ((clear_rcu (S\<lparr>world := w, nd_stack := st, nd_depth := 0\<rparr>))\<lparr>nd_path := null_path\<rparr>)))"
    (is "bad K f ?T")
proof -
  have mode: "\<not> in_rcu ?T" "has_root_flag ?T = has_root_flag S" by simp_all
  have sel: "nd_path ?T = null_path" "nd_depth ?T = 0" "nd_stack ?T = st" "rcu_nest ?T = rcu_nest S - 1" "ishared ?T = ishared S"
    "nd_heap ?T = nd_heap S" "nd_name ?T = nd_name S" "nd_dfd ?T = nd_dfd S" "nd_total_link_count ?T = nd_total_link_count S"
    "last_ok ?T = last_ok S" "has_root_flag S \<longrightarrow> nd_root ?T = nd_root S" "\<not> has_root_flag S \<longrightarrow> p_mnt (nd_root ?T) = None"
    by (simp_all add: rcu_read_unlock_def drop_root_def, simp_all add: clear_rcu_def last_ok_def has_root_flag_def flag_bits flag_disjoint)
  have refs: "refs ?T = refs S" by (rule refs_cong) (simp_all add: rcu_read_unlock_def drop_root_def, simp_all add: clear_rcu_def)
  have "acct (\<lambda>x. 0) S ?T"
    by (rule leave_rcu) (use assms(2) mode sel refs in \<open>auto simp: link_refs_def root_refs_def\<close>)
  then show ?thesis using assms mode sel by (auto simp: bad_def ok_def acct_def keeps_def shrinks_def)
qed

lemma pick_link_alloc_safe:
  assumes "stack_ok S"
  shows "safe (\<lambda>(e, l, T). if e = 0 then l = link \<and> room (\<lambda>x. (if in_rcu T then 0 else path_refs link x) - (if in_rcu S then 0 else path_refs link x)) S T
      else e < 0 \<and> gone (\<lambda>x. path_refs l x - (if in_rcu S then 0 else path_refs link x)) S T) (pick_link_alloc E link seq S)"
  (is "safe ?Q _")
proof -
  obtain e T where T: "nd_alloc_stack E S = (e, T)" by (cases "nd_alloc_stack E S")
  note alloc = nd_alloc_stack_ok [OF assms T]
  show ?thesis
  proof (cases "e = - ECHILD")
    case False
    have "?Q (e, link, T)"
    proof (cases "e = 0")
      case True
      then show ?thesis using alloc roomy_room [of S T] assms by (simp add: room_def)
    next
      case e: False
      then have "ok S (\<lambda>x. 0) T" "e < 0" "\<not> in_rcu S" using alloc False by auto
      then show ?thesis using ok_gone [OF _ assms] e by simp
    qed
    then show ?thesis using False by (simp add: pick_link_alloc_def T)
  next
    case True
    then obtain w where w: "T = S\<lparr>world := w\<rparr>" "in_rcu S" using alloc by (auto simp: ECHILD_def)
    have okT: "ok S (\<lambda>x. 0) T" "in_rcu T" using w by simp_all
    have err: "?Q (- ECHILD, l, U)" if "bad S (path_refs l) U" for l U
      using bad_gone [OF that assms] w(2) by (simp add: ECHILD_def)
    have give_up: "safe ?Q (bind_res (drop_links E U) (\<lambda>V.
          Inr (- ECHILD, l, rcu_read_unlock (drop_root ((clear_rcu (V\<lparr>nd_depth := 0\<rparr>))\<lparr>nd_path := null_path\<rparr>)))))"
      if U: "ok S (path_refs l) U" "in_rcu U" for l U
    proof (rule safe_seq [OF drop_links_safe])
      show "fits U" using ok_fits [OF U(1)] stack_ok_fits [OF assms] .
      fix V
      assume "\<exists>w st. V = U\<lparr>world := w, nd_stack := st\<rparr> \<and> map s_link st = map s_link (nd_stack U) \<and> map s_name st = map s_name (nd_stack U)"
      then obtain v st where V: "V = U\<lparr>world := v, nd_stack := st\<rparr>" "map s_link st = map s_link (nd_stack U)" by auto
      have "length st = length (nd_stack U)" using arg_cong [OF V(2), of length] by simp
      then show "safe ?Q (Inr (- ECHILD, l, rcu_read_unlock (drop_root ((clear_rcu (V\<lparr>nd_depth := 0\<rparr>))\<lparr>nd_path := null_path\<rparr>))))"
        using err [OF abort_bad [OF U, of st v]] by (simp add: V(1))
    qed
    have again: "?Q (let (error, V) = nd_alloc_stack E U in (error, link, V))"
      if U: "ok S (path_refs link) U" "\<not> in_rcu U" "nd_total_link_count U = nd_total_link_count S" for U
    proof -
      have sU: "stack_ok U" using ok_gone [OF U(1) assms] by (simp add: gone_def)
      have d: "nd_depth U = nd_depth S" using U(1) by (simp add: ok_def keeps_def)
      obtain e' V where V: "nd_alloc_stack E U = (e', V)" by (cases "nd_alloc_stack E U")
      note alloc' = nd_alloc_stack_ok [OF sU V]
      show ?thesis
      proof (cases "e' = 0")
        case True
        then have r: "room (\<lambda>x. 0) U V" "in_rcu V = in_rcu U" using alloc' roomy_room [OF _ sU] by auto
        then have "gone (path_refs link) S V" using gone_trans [OF ok_gone [OF U(1) assms], of "\<lambda>x. 0" V] by (simp add: room_def)
        moreover have "names_kept (nd_depth S) S V"
          using r names_kept_trans [OF ok_names [OF U(1)]] by (simp add: room_def d)
        ultimately have "room (path_refs link) S V" using r U(3) d by (simp add: room_def)
        then show ?thesis using True r U(2) w(2) by (simp add: V)
      next
        case False
        then have "ok S (path_refs link) V" "e' < 0" using alloc' U(1) by auto
        then show ?thesis using ok_gone [OF _ assms] False w(2) by (simp add: V)
      qed
    qed
    have good: "safe ?Q (bind_res (unlazy_walk E U) (\<lambda>(e, V).
          if e = 0 then let (error, V) = nd_alloc_stack E V in Inr (error, link, V) else Inr (- ECHILD, link, V)))"
      if U: "ok S (path_refs link) U" "in_rcu U" "nd_total_link_count U = nd_total_link_count S" for U
    proof (rule safe_seq [OF unlazy_step [OF U(1,2) stack_ok_fits [OF assms], of E]], elim case_prodE)
      fix x e V
      assume x: "x = (e, V)" "(if e = 0 then ok S (path_refs link) V \<and> nd_path V = nd_path U \<and> map s_link (nd_stack V) = map s_link (nd_stack U) \<and>
         nd_link_inode V = nd_link_inode U \<and> nd_total_link_count V = nd_total_link_count U else bad S (path_refs link) V) \<and> \<not> in_rcu V"
      show "safe ?Q (case x of (e, V) \<Rightarrow> if e = 0 then let (error, V) = nd_alloc_stack E V in Inr (error, link, V) else Inr (- ECHILD, link, V))"
        using x again [of V] err [of link V] U(3) by (cases "e = 0") (auto simp: Let_def case_prod_beta)
    qed
    have count: "nd_total_link_count U = nd_total_link_count S" if "counted T U g" for U g
      using that by (rule countedE) (simp add: w(1))
    have "safe ?Q (bind_res (legitimize_path E link seq T) (\<lambda>(g, l, U).
         if \<not> g then bind_res (drop_links E U) (\<lambda>V.
            Inr (- ECHILD, l, rcu_read_unlock (drop_root ((clear_rcu (V\<lparr>nd_depth := 0\<rparr>))\<lparr>nd_path := null_path\<rparr>))))
         else bind_res (unlazy_walk E U) (\<lambda>(e, V).
            if e = 0 then let (error, V) = nd_alloc_stack E V in Inr (error, l, V) else Inr (- ECHILD, l, V))))"
    proof (rule safe_seq [OF legitimize_path_counts], elim case_prodE conjE)
      fix x g l' l U
      assume x: "x = (g, l')" "l' = (l, U)" "counted T U (path_refs l)" "g \<longrightarrow> l = link"
      have U: "ok S (path_refs l) U" "in_rcu U" using ok_counted [OF okT(1) x(3) okT(2)] by simp_all
      show "safe ?Q (case x of (g, l, U) \<Rightarrow> if \<not> g then bind_res (drop_links E U) (\<lambda>V.
            Inr (- ECHILD, l, rcu_read_unlock (drop_root ((clear_rcu (V\<lparr>nd_depth := 0\<rparr>))\<lparr>nd_path := null_path\<rparr>))))
         else bind_res (unlazy_walk E U) (\<lambda>(e, V).
            if e = 0 then let (error, V) = nd_alloc_stack E V in Inr (error, l, V) else Inr (- ECHILD, l, V)))"
        unfolding x(1,2) prod.case
      proof (rule safe_if [OF give_up [OF U]])
        assume "\<not> \<not> g"
        then have l: "l = link" using x(4) by simp
        show "safe ?Q (bind_res (unlazy_walk E U) (\<lambda>(e, V).
            if e = 0 then let (error, V) = nd_alloc_stack E V in Inr (error, l, V) else Inr (- ECHILD, l, V)))"
          unfolding l by (rule good) (use U l count [OF x(3)] in simp_all)
      qed
    qed
    then show ?thesis by (simp only: pick_link_alloc_def T True Let_def prod.case refl if_True)
  qed
qed


section \<open>Pushing a link\<close>

lemma gone_put: "gone f K (path_put p T) = gone (\<lambda>x. f x + path_refs p x) K T"
proof -
  have "common K (path_put p T) = common K T" "stack_ok (path_put p T) = stack_ok T"
    by (simp_all add: common_def stack_ok_def) (simp_all add: path_put_def mntput_def dput_def last_ok_def)
  then show ?thesis by (simp add: gone_def path_put_def acct_refs path_refs_def algebra_simps)
qed

definition pushed :: "'k walk \<Rightarrow> 'k walk \<Rightarrow> bool" where
  "pushed S T \<longleftrightarrow> nd_depth T = Suc (nd_depth S) \<and> names_kept (nd_depth S) S T \<and>
     nd_total_link_count S < nd_total_link_count T \<and> nd_total_link_count T \<le> int MAXSYMLINKS"

lemma push_gone:
  assumes "stack_ok T" "nd_depth T < length (nd_stack T)" "int (nd_depth T) < nd_total_link_count T"
    "U = (put_saved (nd_depth T) ((nd_stack T ! nd_depth T)\<lparr>s_link := link, s_done := None, s_seq := seq\<rparr>) (T\<lparr>nd_depth := nd_depth T + 1\<rparr>))\<lparr>nd_link_inode := i\<rparr>"
  shows "gone (\<lambda>x. - (if in_rcu T then 0 else path_refs link x)) T U \<and> nd_depth U = Suc (nd_depth T) \<and> names_kept (nd_depth T) T U \<and>
    nd_total_link_count U = nd_total_link_count T"
proof -
  let ?k = "nd_depth T"
  let ?v = "(nd_stack T ! ?k)\<lparr>s_link := link, s_done := None, s_seq := seq\<rparr>"
  have mode: "in_rcu U = in_rcu T" "has_root_flag U = has_root_flag T" by (simp_all add: assms(4) put_saved_def in_rcu_def has_root_flag_def)
  have stack: "nd_stack U = (nd_stack T)[?k := ?v]" "nd_depth U = Suc ?k" by (simp_all add: assms(4) put_saved_def)
  have refs: "refs U = refs T" by (rule refs_cong) (simp_all add: assms(4) put_saved_def)
  have "take (Suc ?k) (nd_stack U) = take ?k (nd_stack T) @ [?v]"
    using assms(2) by (simp add: stack take_Suc_conv_app_nth take_update_cancel)
  then have "link_refs U x = link_refs T x + path_refs link x" for x by (simp add: link_refs_def stack(2))
  then have "acct (\<lambda>x. - (if in_rcu T then 0 else path_refs link x)) T U"
    using mode refs by (simp add: acct_def bal_def rbal_def held_def root_refs_def) (auto simp: assms(4) put_saved_def)
  moreover have "common T U" using mode by (simp add: common_def) (simp add: assms(4) put_saved_def last_ok_def)
  moreover have "stack_ok U" using assms(1-3) by (simp add: stack_ok_def stack) (simp add: assms(4) put_saved_def)
  moreover have "names_kept ?k T U" by (simp add: names_kept_def stack map_update take_update_cancel)
  ultimately show ?thesis by (simp add: gone_def stack(2)) (simp add: assms(4) put_saved_def)
qed

lemma pick_link_safe:
  assumes "stack_ok S"
  shows "safe (\<lambda>(e, T). gone (\<lambda>x. - cref S link x) S T \<and> (e < 0 \<or> e = 1 \<and> pushed S T)) (pick_link E link inode seq S)"
proof -
  let ?c = "nd_total_link_count S"
  let ?S1 = "S\<lparr>nd_total_link_count := ?c + 1\<rparr>"
  define S2 where "S2 = (if \<not> in_rcu ?S1 \<and> p_mnt link = p_mnt (nd_path ?S1) then mntget (p_mnt link) ?S1 else ?S1)"
  let ?m = "\<lambda>x. if \<not> in_rcu S \<and> p_mnt link = p_mnt (nd_path S) then m_ref (p_mnt link) x else 0"
  have S1: "ok S (\<lambda>x. 0) ?S1" using ok_count [of S "\<lambda>x. 0" S] by simp
  have "cref ?S1 link x = cref S link x" for x by (simp add: cref_def)
  then have loop: "gone (\<lambda>x. - cref S link x) S (path_to_nameidata link ?S1)"
    using S1 by (intro ok_gone [OF path_to_nameidata_ok assms]) simp
  have S2: "ok S ?m S2" "stack_ok S2" "nd_total_link_count S2 = ?c + 1" "nd_depth S2 = nd_depth S" "in_rcu S2 = in_rcu S"
    using S1 assms by (auto simp: S2_def stack_ok_def) (simp_all add: mntget_def)
  have sum: "?m x - (if in_rcu S then 0 else path_refs link x) = - cref S link x" for x
    by (simp add: cref_def path_refs_def)
  have fail: "gone (\<lambda>x. - cref S link x) S (path_put l T)"
    if "gone (\<lambda>x. path_refs l x - (if in_rcu S2 then 0 else path_refs link x)) S2 T" for l T
    unfolding gone_put by (rule goneI [OF gone_trans [OF ok_gone [OF S2(1) assms] that]]) (use sum S2(5) in simp)
  have push: "gone (\<lambda>x. - cref S link x) S U \<and> pushed S U"
    if T: "room (\<lambda>x. (if in_rcu T then 0 else path_refs link x) - (if in_rcu S2 then 0 else path_refs link x)) S2 T" "?c < int MAXSYMLINKS"
      and U: "U = (put_saved (nd_depth T) ((nd_stack T ! nd_depth T)\<lparr>s_link := link, s_done := None, s_seq := seq\<rparr>)
        (T\<lparr>nd_depth := nd_depth T + 1\<rparr>))\<lparr>nd_link_inode := inode\<rparr>" for T U
  proof -
    have T': "nd_depth T = nd_depth S" "nd_total_link_count T = ?c + 1" "stack_ok T" "names_kept (nd_depth S) S2 T" "int (nd_depth S) \<le> ?c"
      using T(1) S2(3,4) assms by (auto simp: room_def gone_def stack_ok_def)
    then have "nd_depth T < length (nd_stack T)" using T(1,2) S2(4) by (auto simp: room_def)
    then have U': "gone (\<lambda>x. - (if in_rcu T then 0 else path_refs link x)) T U" "nd_depth U = Suc (nd_depth T)" "names_kept (nd_depth T) T U"
        "nd_total_link_count U = nd_total_link_count T"
      using push_gone [OF T'(3) _ _ U] T' by auto
    have g: "gone (\<lambda>x. (if in_rcu T then 0 else path_refs link x) - (if in_rcu S2 then 0 else path_refs link x)) S2 T"
      using T(1) by (simp only: room_def)
    have "gone (\<lambda>x. - cref S link x) S U"
      by (rule goneI [OF gone_trans [OF gone_trans [OF ok_gone [OF S2(1) assms] g] U'(1)]]) (subst sum [symmetric], simp add: S2(5))
    moreover have "names_kept (nd_depth S) S U"
      using names_kept_trans [OF names_kept_trans [OF ok_names [OF S2(1)] T'(4)]] U'(3) T'(1) by simp
    ultimately show ?thesis using U' T' T(2) by (simp add: pushed_def)
  qed
  show ?thesis
  proof (cases "?c \<ge> int MAXSYMLINKS")
    case True
    then show ?thesis using loop by (simp add: pick_link_def Let_def ELOOP_def)
  next
    case False
    have "safe (\<lambda>(e, T). gone (\<lambda>x. - cref S link x) S T \<and> (e < 0 \<or> e = 1 \<and> pushed S T))
        (bind_res (pick_link_alloc E link seq S2) (\<lambda>(error, link, S).
          if error \<noteq> 0 then Inr (error, path_put link S)
          else let i = nd_depth S; S = S\<lparr>nd_depth := i + 1\<rparr> in
               bind_res (get_saved S i) (\<lambda>last.
               Inr (1, (put_saved i (last\<lparr>s_link := link, s_done := None, s_seq := seq\<rparr>) S)\<lparr>nd_link_inode := inode\<rparr>))))"
    proof (rule safe_seq [OF pick_link_alloc_safe [OF S2(2)]], elim case_prodE)
      fix x l' l T and e :: int
      assume x: "x = (e, l')" "l' = (l, T)"
        "if e = 0 then l = link \<and> room (\<lambda>x. (if in_rcu T then 0 else path_refs link x) - (if in_rcu S2 then 0 else path_refs link x)) S2 T
         else e < 0 \<and> gone (\<lambda>x. path_refs l x - (if in_rcu S2 then 0 else path_refs link x)) S2 T"
      show "safe (\<lambda>(e, T). gone (\<lambda>x. - cref S link x) S T \<and> (e < 0 \<or> e = 1 \<and> pushed S T))
        (case x of (error, link, S) \<Rightarrow>
          if error \<noteq> 0 then Inr (error, path_put link S)
          else let i = nd_depth S; S = S\<lparr>nd_depth := i + 1\<rparr> in
               bind_res (get_saved S i) (\<lambda>last.
               Inr (1, (put_saved i (last\<lparr>s_link := link, s_done := None, s_seq := seq\<rparr>) S)\<lparr>nd_link_inode := inode\<rparr>)))"
      proof (cases "e = 0")
        case True
        then have T: "l = link" "room (\<lambda>x. (if in_rcu T then 0 else path_refs link x) - (if in_rcu S2 then 0 else path_refs link x)) S2 T"
          using x(3) by simp_all
        have "nd_depth T < length (nd_stack T)" using T(2) False S2(4) assms by (auto simp: room_def stack_ok_def)
        then show ?thesis using True T push [OF T(2) _ refl] False by (simp add: x(1,2) Let_def get_saved_def)
      next
        case e: False
        then show ?thesis using x(3) fail by (simp add: x(1,2))
      qed
    qed
    then show ?thesis using False by (simp only: pick_link_def Let_def S2_def if_False)
  qed
qed


section \<open>A component\<close>

text \<open>The depth that is left when the link being resolved is at its last component.\<close>

definition depth_left :: "bool \<Rightarrow> 'k walk \<Rightarrow> nat" where
  "depth_left walk_more S = (if walk_more \<or> nd_depth S = 0 then nd_depth S else nd_depth S - 1)"

definition stepped :: "nat \<Rightarrow> 'k walk \<Rightarrow> int \<Rightarrow> 'k walk \<Rightarrow> bool" where
  "stepped k S e T \<longleftrightarrow> e < 0 \<or>
     names_kept k S T \<and> (e = 0 \<and> nd_depth T = k \<or>
       e = 1 \<and> nd_depth T = Suc k \<and> nd_total_link_count S < nd_total_link_count T \<and> nd_total_link_count T \<le> int MAXSYMLINKS)"

lemma popped_gone:
  assumes "popped S T" "stack_ok S"
  shows "gone (\<lambda>x. 0) S T" "nd_depth T = nd_depth S - 1" "nd_stack T = nd_stack S" "nd_path T = nd_path S" "in_rcu T = in_rcu S"
    "nd_total_link_count T = nd_total_link_count S"
proof -
  obtain w d m where T: "T = S\<lparr>nd_depth := nd_depth S - 1, world := w, dref := d, mref := m\<rparr>" "acct (\<lambda>x. 0) S T"
    using assms(1) unfolding popped_def by blast
  show "gone (\<lambda>x. 0) S T" using T(2) assms(2) by (auto simp: gone_def common_def stack_ok_def T(1) last_ok_def)
qed (use assms(1) in \<open>auto simp: popped_def\<close>)

definition maybe_put :: "('k, 'a) walk_env \<Rightarrow> bool \<Rightarrow> 'k walk \<Rightarrow> 'k walk res" where
  "maybe_put E walk_more S = (if \<not> walk_more \<and> nd_depth S \<noteq> 0 then put_link E S else Inr S)"

lemma maybe_put_safe:
  assumes "stack_ok S"
  shows "safe (\<lambda>T. gone (\<lambda>x. 0) S T \<and> nd_depth T = depth_left walk_more S \<and> nd_stack T = nd_stack S \<and> nd_path T = nd_path S \<and>
     in_rcu T = in_rcu S \<and> nd_total_link_count T = nd_total_link_count S) (maybe_put E walk_more S)"
proof -
  have "gone (\<lambda>x. 0) S S" using ok_gone [OF ok_refl assms] .
  then show ?thesis
    using popped_gone [OF _ assms] by (auto simp: maybe_put_def depth_left_def intro!: safe_mono [OF put_link_safe] stack_ok_fits assms)
qed

lemma step_into_safe:
  assumes "stack_ok S"
  shows "safe (\<lambda>(e, T). gone (\<lambda>x. - cref S path x) S T \<and> stepped (depth_left walk_more S) S e T) (step_into E follow walk_more path inode seq S)"
proof -
  have main: "safe (\<lambda>(e, T). gone (\<lambda>x. - cref S path x) S T \<and> stepped (depth_left walk_more S) S e T)
     (bind_res (null_ok (p_dentry path)) (\<lambda>d.
     if kd_type (w_dentry E (world U) d) \<noteq> SymlinkType \<or> \<not> (follow \<or> nd_flags U AND LOOKUP_FOLLOW \<noteq> 0)
     then Inr (0, (path_to_nameidata path U)\<lparr>nd_inode := inode, nd_seq := seq\<rparr>)
     else if in_rcu U
     then let (again, U) = kop (k_d_seq_retry E d seq) U in
          if again then Inr (- ECHILD, U) else pick_link E path inode seq U
     else pick_link E path inode seq U))"
    if U: "gone (\<lambda>x. 0) S U" "nd_depth U = depth_left walk_more S" "nd_stack U = nd_stack S" "nd_path U = nd_path S"
      "in_rcu U = in_rcu S" "nd_total_link_count U = nd_total_link_count S" for U
  proof -
    have sU: "stack_ok (U\<lparr>world := w\<rparr>)" "gone (\<lambda>x. 0) S (U\<lparr>world := w\<rparr>)" "cref (U\<lparr>world := w\<rparr>) path x = cref S path x" for w x
    proof -
      show "stack_ok (U\<lparr>world := w\<rparr>)" using U(1) by (simp add: gone_def stack_ok_def)
      show "gone (\<lambda>x. 0) S (U\<lparr>world := w\<rparr>)" using gone_ok [OF U(1), of "\<lambda>x. 0" "U\<lparr>world := w\<rparr>"] by simp
      show "cref (U\<lparr>world := w\<rparr>) path x = cref S path x" using U(4,5) by (simp add: cref_def)
    qed
    have names: "names_kept k S U" for k using U(3) by (simp add: names_kept_def)
    have stay: "gone (\<lambda>x. - cref S path x) S V \<and> stepped (depth_left walk_more S) S 0 V" if "ok U (\<lambda>x. - cref U path x) V" for V
    proof -
      have "gone (\<lambda>x. 0 + (- cref U path x)) S V" using gone_ok [OF U(1) that] .
      moreover have "cref U path x = cref S path x" for x using U(4,5) by (simp add: cref_def)
      ultimately have "gone (\<lambda>x. - cref S path x) S V" by simp
      moreover have "nd_depth V = nd_depth U" using that by (simp add: ok_def keeps_def)
      ultimately show ?thesis using U(2) names_kept_trans [OF names ok_names [OF that]] by (simp add: stepped_def)
    qed
    have pick: "safe (\<lambda>(e, T). gone (\<lambda>x. - cref S path x) S T \<and> stepped (depth_left walk_more S) S e T) (pick_link E path inode seq (U\<lparr>world := w\<rparr>))" for w
    proof (rule safe_mono [OF pick_link_safe [OF sU(1)]], elim case_prodE conjE)
      fix x T and e :: int
      assume x: "x = (e, T)" "gone (\<lambda>x. - cref (U\<lparr>world := w\<rparr>) path x) (U\<lparr>world := w\<rparr>) T" "e < 0 \<or> e = 1 \<and> pushed (U\<lparr>world := w\<rparr>) T"
      have "gone (\<lambda>x. - cref S path x) S T" by (rule goneI [OF gone_trans [OF sU(2) x(2)]]) (simp add: sU(3))
      moreover have "names_kept k S T" if "pushed (U\<lparr>world := w\<rparr>) T" "k = nd_depth U" for k
        using that U(3) by (simp add: pushed_def names_kept_def)
      ultimately show "case x of (e, T) \<Rightarrow> gone (\<lambda>x. - cref S path x) S T \<and> stepped (depth_left walk_more S) S e T"
        using x U(2,6) by (auto simp: stepped_def pushed_def)
    qed
    have rcu: "gone (\<lambda>x. - cref S path x) S (U\<lparr>world := w\<rparr>)" if "in_rcu S" for w
      using sU(2) [of w] that by (simp add: cref_def)
    have "U = U\<lparr>world := world U\<rparr>" by simp
    then have "safe (\<lambda>(e, T). gone (\<lambda>x. - cref S path x) S T \<and> stepped (depth_left walk_more S) S e T) (pick_link E path inode seq U)"
      using pick [of "world U"] by simp
    moreover have "ok U (\<lambda>x. - cref U path x) ((path_to_nameidata path U)\<lparr>nd_inode := inode, nd_seq := seq\<rparr>)"
      using path_to_nameidata_ok [of U "\<lambda>x. - cref U path x" U path] by simp
    ultimately show ?thesis
      unfolding Let_def kop_eq prod.case
      by (intro safe_null_bind safe_if pick)
        (use stay rcu U(5) in \<open>auto simp: ECHILD_def stepped_def [of _ _ "- 10"]\<close>)
  qed
  show ?thesis
    unfolding step_into_def maybe_put_def [symmetric]
    by (rule safe_seq [OF maybe_put_safe [OF assms]], elim conjE, rule main)
qed


definition step_ok :: "bool \<Rightarrow> 'k walk \<Rightarrow> int \<Rightarrow> 'k walk \<Rightarrow> bool" where
  "step_ok walk_more S e T \<longleftrightarrow> gone (\<lambda>x. 0) S T \<and> stepped (depth_left walk_more S) S e T"

lemma step_bad: "bad S (\<lambda>x. 0) T \<Longrightarrow> stack_ok S \<Longrightarrow> e < 0 \<Longrightarrow> step_ok walk_more S e T"
  using bad_gone by (auto simp: step_ok_def stepped_def)

lemma step_into_ok:
  assumes "stack_ok S" "ok S (\<lambda>x. cref U path x) U"
  shows "safe (\<lambda>(e, T). step_ok walk_more S e T) (step_into E follow walk_more path inode seq U)"
proof -
  have sU: "stack_ok U" "gone (\<lambda>x. cref U path x) S U" "depth_left walk_more U = depth_left walk_more S"
      "nd_total_link_count S \<le> nd_total_link_count U"
    using ok_gone [OF assms(2,1)] assms(2) by (auto simp: gone_def ok_def keeps_def shrinks_def depth_left_def)
  have "step_ok walk_more S e T" if "gone (\<lambda>x. - cref U path x) U T" "stepped (depth_left walk_more U) U e T" for e T
    using goneI [OF gone_trans [OF sU(2) that(1)], of "\<lambda>x. 0"] that(2) sU(3,4) names_kept_trans [OF ok_names [OF assms(2)]]
    by (auto simp: step_ok_def stepped_def)
  then show ?thesis by (intro safe_mono [OF step_into_safe [OF sU(1)]]) auto
qed

lemma walk_component_safe:
  assumes "stack_ok S" "rooted S" "fs_ok E" "errs_ok E"
  shows "safe (\<lambda>(e, T). step_ok walk_more S e T) (walk_component E follow walk_more S)"
proof -
  have dots: "safe (\<lambda>(e, T). step_ok walk_more S e T) (bind_res (handle_dots E t S) (\<lambda>(err, T). bind_res (maybe_put E walk_more T) (\<lambda>T. Inr (err, T))))" for t
  proof (rule safe_seq [OF handle_dots_safe [OF ok_refl assms(2,3)]], elim case_prodE conjE)
    fix x T and e :: int
    assume x: "x = (e, T)" "ok S (\<lambda>x. 0) T" "e \<le> 0"
    have sT: "stack_ok T" "gone (\<lambda>x. 0) S T" "depth_left walk_more T = depth_left walk_more S"
      using ok_gone [OF x(2) assms(1)] x(2) by (auto simp: gone_def ok_def keeps_def depth_left_def)
    have "step_ok walk_more S e U" if "gone (\<lambda>x. 0) T U" "nd_depth U = depth_left walk_more T" "nd_stack U = nd_stack T" for U
    proof -
      have "gone (\<lambda>x. 0) S U" by (rule goneI [OF gone_trans [OF sT(2) that(1)]]) simp
      moreover have "names_kept k S U" for k using ok_names [OF x(2), of k] that(3) by (simp add: names_kept_def)
      ultimately show ?thesis using that(2) sT(3) x(3) by (auto simp: step_ok_def stepped_def)
    qed
    then show "safe (\<lambda>(e, T). step_ok walk_more S e T) (case x of (err, T) \<Rightarrow> bind_res (maybe_put E walk_more T) (\<lambda>T. Inr (err, T)))"
      using maybe_put_safe [OF sT(1), of walk_more E] by (auto simp: x(1) elim!: safe_mono)
  qed
  have slow: "safe (\<lambda>(e, T). step_ok walk_more S e T)
      (bind_res (follow_managed E \<lparr>p_mnt = p_mnt (nd_path U), p_dentry = Some d\<rparr> U) (\<lambda>(err, path, S).
         if err < 0 then Inr (err, S)
         else bind_res (null_ok (p_dentry path)) (\<lambda>d.
              if kd_type (w_dentry E (world S) d) = MissType then Inr (- ENOENT, path_to_nameidata path S)
              else step_into E follow walk_more path (kd_inode (w_dentry E (world S) d)) 0 S)))"
    if "ok S (\<lambda>x. d_ref (Some d) x) U" "\<not> in_rcu U" for U d
  proof (rule safe_seq [OF follow_managed_safe [of S "\<lambda>x. 0"]])
    fix x :: "int \<times> vpath \<times> 'a walk"
    assume "case x of (r, p, T) \<Rightarrow> here U T \<and> r \<noteq> 0 \<and> (if r < 0 then ok S (\<lambda>x. 0) T else ok S (\<lambda>x. 0 + cref T p x) T)"
    then obtain r p T where x: "x = (r, p, T)" "if r < 0 then ok S (\<lambda>x. 0) T else ok S (\<lambda>x. cref T p x) T" by (cases x) (auto split: if_splits)
    have "ok S (\<lambda>x. 0) (path_to_nameidata p T)" if "\<not> r < 0" using x(2) that by (intro path_to_nameidata_ok) simp
    then show "safe (\<lambda>(e, T). step_ok walk_more S e T) (case x of (err, path, S) \<Rightarrow>
         if err < 0 then Inr (err, S)
         else bind_res (null_ok (p_dentry path)) (\<lambda>d.
              if kd_type (w_dentry E (world S) d) = MissType then Inr (- ENOENT, path_to_nameidata path S)
              else step_into E follow walk_more path (kd_inode (w_dentry E (world S) d)) 0 S))"
      unfolding x(1) prod.case
      by (intro safe_if safe_null_bind step_into_ok assms(1)) (use x(2) in \<open>auto intro!: step_bad ok_bad assms(1) simp: ENOENT_def\<close>)
  qed (use that in simp_all)
  have miss: "safe (\<lambda>(e, T). step_ok walk_more S e T)
      (bind_res (null_ok (p_dentry (nd_path U))) (\<lambda>dir.
         bind_res (lookup_slow E dir (nd_flags U) U) (\<lambda>(r, S).
         case r of
           Inl e \<Rightarrow> Inr (e, S)
         | Inr dentry \<Rightarrow>
             bind_res (follow_managed E \<lparr>p_mnt = p_mnt (nd_path S), p_dentry = Some dentry\<rparr> S) (\<lambda>(err, path, S).
             if err < 0 then Inr (err, S)
             else bind_res (null_ok (p_dentry path)) (\<lambda>d.
                  if kd_type (w_dentry E (world S) d) = MissType then Inr (- ENOENT, path_to_nameidata path S)
                  else step_into E follow walk_more path (kd_inode (w_dentry E (world S) d)) 0 S)))))"
    if "ok S (\<lambda>x. 0) U" "\<not> in_rcu U" for U
    by (intro safe_null_bind safe_seq [OF lookup_slow_safe [OF that(1) assms(4)]] safe_prod safe_sum slow)
      (use that in \<open>auto simp: here_def intro!: step_bad ok_bad assms(1)\<close>)
  show ?thesis
    unfolding walk_component_def maybe_put_def [symmetric]
    by (intro safe_if dots safe_seq [OF lookup_fast_safe [OF ok_refl stack_ok_fits [OF assms(1)]]] safe_prod step_into_ok miss assms(1))
      (auto simp: found_def intro!: step_bad assms(1))
qed

end
