(* ===== verification/Walk_Names.thy ===== *)
theory Walk_Names
  imports Walk_Links
begin

text \<open>
  The names a walk reads. Link bodies, like path names, are C strings of at most a page; the hash of a
  component comes with its length. Under these conditions no read leaves a string, and every round of
  \<open>link_path_walk\<close> uses up part of what is left to resolve.
\<close>

section \<open>Strings\<close>

definition PATH_MAX :: nat where "PATH_MAX = 4096"

definition cstring :: "bytes \<Rightarrow> bool" where
  "cstring s \<longleftrightarrow> 0 \<in> set s \<and> length s \<le> PATH_MAX"

text \<open>A string that starts with a component.\<close>

definition component :: "bytes \<Rightarrow> bool" where
  "component s \<longleftrightarrow> cstring s \<and> hd s \<noteq> 0 \<and> hd s \<noteq> 47"

lemma cstring_nonempty: "cstring s \<Longrightarrow> s \<noteq> []"
  by (auto simp: cstring_def)

lemma char_at_hd: "s \<noteq> [] \<Longrightarrow> char_at s = Inr (hd s)"
  by (cases s) (simp_all add: char_at_def)

lemma safe_char_at: "s \<noteq> [] \<Longrightarrow> safe Q (char_at s) = Q (hd s)"
  by (cases s) (simp_all add: char_at_def)

lemma skip_slashes_safe: "0 \<in> set s \<Longrightarrow> safe (\<lambda>t. 0 \<in> set t \<and> hd t \<noteq> 47 \<and> length t \<le> length s) (skip_slashes s)"
proof (induction s)
  case (Cons c s)
  then show ?case by (auto intro: safe_mono [OF Cons.IH])
qed simp

section \<open>Laws of the rest of the kernel\<close>

definition component_length :: "bytes \<Rightarrow> nat" where
  "component_length s = length (takeWhile (\<lambda>c. c \<noteq> 0 \<and> c \<noteq> 47) s)"

definition links_ok :: "('k, 'a) walk_env \<Rightarrow> bool" where
  "links_ok E \<longleftrightarrow> (\<forall>w i s. k_i_link E w i = Some s \<longrightarrow> cstring s) \<and>
     (\<forall>d i w s. fst (fst (k_get_link E d i w)) = LinkBody s \<longrightarrow> cstring s) \<and>
     (\<forall>i w. fst (snd (fst (k_get_link E None i w))) = None)"

definition hash_ok :: "('k, 'a) walk_env \<Rightarrow> bool" where
  "hash_ok E \<longleftrightarrow> (\<forall>salt s. component s \<longrightarrow> (\<exists>h. k_hash_name E salt s = Inr h \<and> hashlen_len h = component_length s)) \<and>
     (\<forall>d h s w. fst (fst (k_d_hash E d h s w)) \<ge> 0 \<longrightarrow>
        hashlen_len (fst (snd (fst (k_d_hash E d h s w)))) = hashlen_len h \<and> snd (snd (fst (k_d_hash E d h s w))) = s)"

definition env_ok :: "('k, 'a) walk_env \<Rightarrow> bool" where
  "env_ok E \<longleftrightarrow> fs_ok E \<and> errs_ok E \<and> links_ok E \<and> hash_ok E"

section \<open>Following a link\<close>

lemma ok_depth: "ok K f S \<Longrightarrow> nd_depth S = nd_depth K"
  by (simp add: ok_def keeps_def)

lemma ok_saved:
  assumes "ok K f S" "i < length (nd_stack S)" "s_link v = s_link (nd_stack S ! i)" "s_name v = s_name (nd_stack S ! i)"
  shows "ok K f (put_saved i v S)"
proof -
  let ?T = "put_saved i v S"
  have sel: "map s_link (nd_stack ?T) = map s_link (nd_stack S)" "map s_name (nd_stack ?T) = map s_name (nd_stack S)"
      "nd_depth ?T = nd_depth S" "length (nd_stack ?T) = length (nd_stack S)" "in_rcu ?T = in_rcu S" "has_root_flag ?T = has_root_flag S" "last_ok ?T = last_ok S"
    using assms(2-4) by (simp_all add: put_saved_def map_update list_update_same_conv in_rcu_def has_root_flag_def last_ok_def)
  have "bal ?T x = bal S x" "rbal ?T = rbal S" for x
    using sel by (auto simp: bal_def rbal_def held_def link_refs_map root_refs_def put_saved_def)
  then show ?thesis using assms(1) sel by (simp add: ok_def acct_def keeps_def shrinks_def) (simp add: put_saved_def)
qed

lemma call_get_link_safe:
  assumes "ok K f S" "fits K" "nd_depth K \<noteq> 0" "links_ok E" "d = None \<or> \<not> in_rcu S"
  shows "safe (\<lambda>(r, T). ok K f T \<and> (d = None \<longrightarrow> in_rcu T = in_rcu S) \<and> (\<exists>w. r = fst (fst (k_get_link E d i w)))) (call_get_link E d i S)"
proof -
  let ?w = "world S"
  let ?k = "k_get_link E d i ?w"
  have jump: "safe (\<lambda>T. ok K f T \<and> (d = None \<longrightarrow> in_rcu T = in_rcu S) \<and> fits T \<and> nd_depth T \<noteq> 0)
      (case fst (snd (fst ?k)) of None \<Rightarrow> Inr (S\<lparr>world := snd ?k\<rparr>) | Some p \<Rightarrow> nd_jump_link E p (path_get p (S\<lparr>world := snd ?k\<rparr>)))"
  proof (rule safe_option)
    assume "fst (snd (fst ?k)) = None"
    then show "safe (\<lambda>T. ok K f T \<and> (d = None \<longrightarrow> in_rcu T = in_rcu S) \<and> fits T \<and> nd_depth T \<noteq> 0) (Inr (S\<lparr>world := snd ?k\<rparr>))"
      using assms ok_fits [OF assms(1,2)] ok_depth [OF assms(1)] by auto
  next
    fix p
    assume p: "fst (snd (fst ?k)) = Some p"
    then have "d \<noteq> None" using assms(4) by (cases d) (auto simp: links_ok_def)
    then have "safe (\<lambda>T. ok K f T \<and> nd_stack T = nd_stack (S\<lparr>world := snd ?k\<rparr>)) (nd_jump_link E p (path_get p (S\<lparr>world := snd ?k\<rparr>)))"
      using assms(1,5) by (intro nd_jump_link_safe) auto
    then show "safe (\<lambda>T. ok K f T \<and> (d = None \<longrightarrow> in_rcu T = in_rcu S) \<and> fits T \<and> nd_depth T \<noteq> 0)
        (nd_jump_link E p (path_get p (S\<lparr>world := snd ?k\<rparr>)))"
      by (rule safe_mono) (use \<open>d \<noteq> None\<close> assms(2,3) ok_fits ok_depth in \<open>fastforce\<close>)
  qed
  have mode: "in_rcu (put_saved j v T) = in_rcu T" for j v and T :: "'a walk" by (simp add: put_saved_def)
  show ?thesis
    unfolding call_get_link_def kop_eq Let_def prod.case case_prod_beta fst_conv snd_conv
    by (rule safe_seq [OF jump])
      (auto simp: safe_get_saved mode intro!: safe_option ok_saved exI [of _ ?w])
qed


definition linked :: "'k walk \<Rightarrow> link_res \<Rightarrow> 'k walk \<Rightarrow> bool" where
  "linked K r T \<longleftrightarrow> (case r of LinkErr e \<Rightarrow> e < 0 \<and> bad K (\<lambda>x. 0) T | LinkNull \<Rightarrow> ok K (\<lambda>x. 0) T | LinkBody s \<Rightarrow> ok K (\<lambda>x. 0) T \<and> cstring s)"

lemma linked_simps [simp]:
  "linked K (LinkErr e) T \<longleftrightarrow> e < 0 \<and> bad K (\<lambda>x. 0) T" "linked K LinkNull T \<longleftrightarrow> ok K (\<lambda>x. 0) T"
  "linked K (LinkBody s) T \<longleftrightarrow> ok K (\<lambda>x. 0) T \<and> cstring s"
  by (simp_all add: linked_def)

lemma link_body_safe:
  assumes "ok K (\<lambda>x. 0) S" "fits K" "nd_depth K \<noteq> 0" "links_ok E" "errs_ok E"
  shows "safe (\<lambda>(r, T). linked K r T) (link_body E d i S)"
proof -
  have res: "linked K (fst (fst (k_get_link E d i w))) T" if "ok K (\<lambda>x. 0) T" for d i w T
    using that assms(4,5) ok_bad by (cases "fst (fst (k_get_link E d i w))") (auto simp: links_ok_def errs_ok_def)
  have call: "safe (\<lambda>(r, T). linked K r T \<and> (d' = None \<longrightarrow> ok K (\<lambda>x. 0) T \<and> in_rcu T = in_rcu U)) (call_get_link E d' i U)"
    if "ok K (\<lambda>x. 0) U" "d' = None \<or> \<not> in_rcu U" for d' U
    by (rule safe_mono [OF call_get_link_safe [OF that(1) assms(2-4) that(2)]]) (auto intro: res)
  have again: "safe (\<lambda>(r, T). linked K r T)
      (bind_res (unlazy_walk E U) (\<lambda>(e, S). if e \<noteq> 0 then Inr (LinkErr (- ECHILD), S) else call_get_link E (Some d) i S))"
    if "ok K (\<lambda>x. 0) U" "in_rcu U" for U
    by (rule safe_seq [OF unlazy_step [OF that assms(2)]])
      (auto simp: ECHILD_def intro!: safe_mono [OF call] split: if_splits)
  show ?thesis
    unfolding link_body_def
    by (intro safe_option safe_if safe_seq [OF call [of S None]] safe_prod again safe_mono [OF call [of S "Some d"]])
      (use assms in \<open>auto simp: links_ok_def\<close>)
qed

lemma link_start_safe:
  assumes "ok K (\<lambda>x. 0) S" "rooted S" "fs_ok E" "cstring s"
  shows "safe (\<lambda>(r, T). linked K r T \<and> (\<forall>t. r = LinkBody t \<longrightarrow> component t)) (link_start E s S)"
proof -
  have root: "safe (\<lambda>T. ok K (\<lambda>x. 0) T) (if p_mnt (nd_root S) = None then set_root E S else Inr S)"
    using assms by (auto intro: safe_mono [OF set_root_safe])
  have jump: "safe (\<lambda>(r, T). case r of Inl e \<Rightarrow> e < 0 \<and> ok K (\<lambda>x. 0) T | Inr t \<Rightarrow> ok K (\<lambda>x. 0) T \<and> cstring t \<and> hd t \<noteq> 47)
      (bind_res (nd_jump_root E T) (\<lambda>(e, T). if e \<noteq> 0 then Inr (Inl (- ECHILD), T) else bind_res (skip_slashes s) (\<lambda>s. Inr (Inr s, T))))"
    if "ok K (\<lambda>x. 0) T" for T
    by (rule safe_seq [OF nd_jump_root_safe [OF that]])
      (use assms(4) in \<open>auto simp: ECHILD_def cstring_def intro!: safe_mono [OF skip_slashes_safe]\<close>)
  have tail: "safe (\<lambda>(r, T). linked K r T \<and> (\<forall>t. r = LinkBody t \<longrightarrow> component t))
      (case r of Inl e \<Rightarrow> Inr (LinkErr e, T) | Inr s \<Rightarrow> bind_res (char_at s) (\<lambda>c. Inr (if c = 0 then LinkNull else LinkBody s, T)))"
    if "case r of Inl e \<Rightarrow> e < 0 \<and> ok K (\<lambda>x. 0) T | Inr t \<Rightarrow> ok K (\<lambda>x. 0) T \<and> cstring t \<and> hd t \<noteq> 47" for r T
    using that by (cases r) (auto simp: safe_char_at cstring_nonempty component_def ok_bad)
  have first: "safe (\<lambda>(r, T). case r of Inl e \<Rightarrow> e < 0 \<and> ok K (\<lambda>x. 0) T | Inr t \<Rightarrow> ok K (\<lambda>x. 0) T \<and> cstring t \<and> hd t \<noteq> 47)
      (if hd s = 47
       then bind_res (if p_mnt (nd_root S) = None then set_root E S else Inr S) (\<lambda>S.
            bind_res (nd_jump_root E S) (\<lambda>(e, S).
            if e \<noteq> 0 then Inr (Inl (- ECHILD), S) else bind_res (skip_slashes s) (\<lambda>s. Inr (Inr s, S))))
       else Inr (Inr s, S))"
    by (intro safe_if safe_seq [OF root] jump) (use assms in auto)
  show ?thesis
    unfolding link_start_def char_at_hd [OF cstring_nonempty [OF assms(4)]] bind_res_Inr
    by (rule safe_seq [OF first], elim case_prodE, simp only: prod.case, rule tail)
qed


lemma link_atime_safe:
  assumes "ok K f S" "fits K"
  shows "safe (\<lambda>(e, T). kept K f e T \<and> e \<le> 0) (link_atime E link i S)"
proof -
  have "safe (\<lambda>(e, T). kept K f e T \<and> e \<le> 0) (bind_res (unlazy_walk E U) (\<lambda>(e, S). if e \<noteq> 0 then Inr (- ECHILD, S) else Inr (0, touch_atime E link S)))"
    if "ok K f U" "in_rcu U" for U
    by (rule safe_seq [OF unlazy_step [OF that assms(2)]]) (auto simp: kept_def touch_atime_def ECHILD_def split: if_splits)
  then show ?thesis
    unfolding link_atime_def Let_def kop_eq prod.case
    by (intro safe_if) (use assms in \<open>auto simp: kept_def touch_atime_def simp del: safe_bind\<close>)
qed

lemma get_link_safe:
  assumes "stack_ok S" "nd_depth S \<noteq> 0" "rooted S" "env_ok E"
  shows "safe (\<lambda>(r, T). linked S r T \<and> (\<forall>t. r = LinkBody t \<longrightarrow> component t)) (get_link E S)"
proof -
  note E = assms(4) [unfolded env_ok_def]
  have fit: "fits S" using stack_ok_fits [OF assms(1)] .
  have i: "nd_depth S - 1 < length (nd_stack S)" using fit assms(2) by simp
  have errs: "fst (k_follow_link E d i r w) \<le> 0" for d i r w using E by (simp add: errs_ok_def)
  have start: "safe (\<lambda>(r, T). linked S r T \<and> (\<forall>t. r = LinkBody t \<longrightarrow> component t)) (case res of LinkBody s \<Rightarrow> link_start E s T | _ \<Rightarrow> Inr (res, T))"
    if "linked S res T" for res T
    using that E assms(3) shrinks_rooted [of S T]
    by (cases res) (auto intro!: link_start_safe simp: ok_def keeps_def)
  have body: "safe (\<lambda>(r, T). linked S r T \<and> (\<forall>t. r = LinkBody t \<longrightarrow> component t))
      (bind_res (link_body E d j (T\<lparr>nd_last_type := LAST_BIND\<rparr>)) (\<lambda>(res, S). case res of LinkBody s \<Rightarrow> link_start E s S | _ \<Rightarrow> Inr (res, S)))"
    if "ok S (\<lambda>x. 0) T" for d j T
    by (rule safe_seq [OF link_body_safe [OF ok_bind [OF that] fit assms(2)]]) (use E start in auto)
  have neg: "fst (k_follow_link E d i r w) \<noteq> 0 \<Longrightarrow> fst (k_follow_link E d i r w) < 0" for d i r w using errs [of d i r w] by simp
  show ?thesis
    unfolding get_link_def get_saved_def Let_def kop_eq prod.case
    by (simp only: assms(2) i if_True if_False bind_res_Inr,
        intro safe_null_bind safe_seq [OF link_atime_safe [OF ok_refl fit]] safe_prod safe_if body)
      (auto simp: kept_def intro: neg ok_bad)
qed


section \<open>The next component\<close>

lemma component_split:
  assumes "component s"
  shows "0 < component_length s" "component_length s < length s" "0 \<in> set (drop (component_length s) s)"
    "hd (drop (component_length s) s) = 0 \<or> hd (drop (component_length s) s) = 47"
proof -
  let ?P = "\<lambda>c :: u8. c \<noteq> 0 \<and> c \<noteq> 47"
  have s: "0 \<in> set s" "s \<noteq> []" "?P (hd s)" using assms by (auto simp: component_def cstring_def)
  then show "0 < component_length s" by (cases s) (simp_all add: component_length_def)
  have d: "drop (component_length s) s = dropWhile ?P s" by (simp add: component_length_def dropWhile_eq_drop)
  have "0 \<notin> set (takeWhile ?P s)" by (auto dest: set_takeWhileD)
  moreover have "set s = set (takeWhile ?P s) \<union> set (dropWhile ?P s)" by (metis set_append takeWhile_dropWhile_id)
  ultimately show in0: "0 \<in> set (drop (component_length s) s)" using s(1) unfolding d by blast
  then have "drop (component_length s) s \<noteq> []" by auto
  then show "component_length s < length s" by simp
  show "hd (drop (component_length s) s) = 0 \<or> hd (drop (component_length s) s) = 47"
    using in0 hd_dropWhile [of ?P s] unfolding d by fastforce
qed

lemma component_type_safe: "component s \<Longrightarrow> n = component_length s \<Longrightarrow> safe (\<lambda>t. True) (component_type s n)"
  using component_split [of s] by (cases s; cases "tl s") (auto simp: component_type_def char_at_def)

lemma classify_safe:
  assumes "ok K f S" "hash_ok E"
  shows "safe (\<lambda>(e, h', s', T). ok K f T \<and> (e \<ge> 0 \<longrightarrow> s' = s \<and> hashlen_len h' = hashlen_len h)) (classify E t s h S)"
proof -
  have law: "fst (fst (k_d_hash E d h s w)) \<ge> 0 \<Longrightarrow>
      hashlen_len (fst (snd (fst (k_d_hash E d h s w)))) = hashlen_len h \<and> snd (snd (fst (k_d_hash E d h s w))) = s" for d w
    using assms(2) by (simp add: hash_ok_def)
  show ?thesis
    using assms(1) law by (auto simp: classify_def Let_def kop_eq case_prod_beta)
qed

lemma ok_last: "ok K f S \<Longrightarrow> (t = LAST_NORM \<Longrightarrow> hashlen_len h < length nm) \<Longrightarrow>
   ok K f (S\<lparr>nd_last_hash := h, nd_last_name := nm, nd_last_type := t\<rparr>)"
proof -
  let ?T = "S\<lparr>nd_last_hash := h, nd_last_name := nm, nd_last_type := t\<rparr>"
  assume S: "ok K f S" "t = LAST_NORM \<Longrightarrow> hashlen_len h < length nm"
  have mode: "in_rcu ?T = in_rcu S" "has_root_flag ?T = has_root_flag S" by (simp_all add: in_rcu_def has_root_flag_def)
  have "refs ?T = refs S" by (rule refs_cong) simp_all
  then have "bal ?T x = bal S x" "rbal ?T = rbal S" for x using mode by (simp_all add: balance_defs)
  moreover have "last_ok ?T" using S(2) by (simp add: last_ok_def)
  ultimately show ?thesis using S(1) mode by (simp add: ok_def acct_def keeps_def shrinks_def)
qed

definition next_ok :: "bytes \<Rightarrow> 'k walk \<Rightarrow> int \<Rightarrow> bytes \<Rightarrow> 'k walk \<Rightarrow> bool" where
  "next_ok s S e s' T \<longleftrightarrow>
     (if e = 0 then ok S (\<lambda>x. 0) T \<and> last_ok T \<and> cstring s' \<and> hd s' \<noteq> 47 \<and> length s' < length s else bad S (\<lambda>x. 0) T)"

lemma next_component_safe:
  assumes "stack_ok S" "component s" "hash_ok E"
  shows "safe (\<lambda>(e, s', T). next_ok s S e s' T) (next_component E s S)"
proof -
  let ?r = "drop (component_length s) s"
  note split = component_split [OF assms(2)]
  have r: "?r \<noteq> []" "length ?r < length s" "length s \<le> PATH_MAX"
    using split(1,2) assms(2) by (auto simp: component_def cstring_def)
  have tail: "safe (\<lambda>(e, s', T). next_ok s S e s' T)
      (let U = U\<lparr>nd_last_hash := h, nd_last_name := s, nd_last_type := type\<rparr> in
       bind_res (advance (hashlen_len h) s) (\<lambda>name.
       bind_res (char_at name) (\<lambda>c.
       bind_res (if c = 0 then Inr name else skip_slashes (tl name)) (\<lambda>name. Inr (0, name, U)))))"
    if U: "ok S (\<lambda>x. 0) U" "hashlen_len h = component_length s" for U h type
  proof -
    let ?U = "U\<lparr>nd_last_hash := h, nd_last_name := s, nd_last_type := type\<rparr>"
    have okU: "ok S (\<lambda>x. 0) ?U" "last_ok ?U" using ok_last [OF U(1)] U(2) split(2) by (auto simp: last_ok_def)
    have name: "safe (\<lambda>t. cstring t \<and> hd t \<noteq> 47 \<and> length t < length s) (if hd ?r = 0 then Inr ?r else skip_slashes (tl ?r))"
    proof (cases "hd ?r = 0")
      case True
      then show ?thesis using split r by (simp add: cstring_def)
    next
      case False
      then have "0 \<in> set (tl ?r)" using split(3,4) by (cases ?r) auto
      then show ?thesis using False r by (simp, intro safe_mono [OF skip_slashes_safe]) (auto simp: cstring_def)
    qed
    show ?thesis
      unfolding Let_def advance_def U(2) using split(2) r(1)
      by (simp add: char_at_hd split del: if_split) (rule safe_mono [OF name], simp add: next_ok_def okU)
  qed
  have rest: "safe (\<lambda>(e, s', T). next_ok s S e s' T)
      (bind_res (classify E type s hash_len T) (\<lambda>(err, hash_len, name, S).
       if err < 0 then Inr (err, name, S)
       else let S = S\<lparr>nd_last_hash := hash_len, nd_last_name := name, nd_last_type := type\<rparr> in
       bind_res (advance (hashlen_len hash_len) name) (\<lambda>name.
       bind_res (char_at name) (\<lambda>c.
       bind_res (if c = 0 then Inr name else skip_slashes (tl name)) (\<lambda>name. Inr (0, name, S))))))"
    (is "safe _ (bind_res _ ?rest)")
    if "ok S (\<lambda>x. 0) T" "hashlen_len hash_len = component_length s" for type hash_len T
  proof (rule safe_seq [OF classify_safe [OF that(1) assms(3)]])
    fix x :: "int \<times> u64 \<times> bytes \<times> 'a walk"
    assume x: "case x of (e, h', s', T) \<Rightarrow> ok S (\<lambda>x. 0) T \<and> (e \<ge> 0 \<longrightarrow> s' = s \<and> hashlen_len h' = hashlen_len hash_len)"
    obtain e h' s' U where y: "x = (e, h', s', U)" by (cases x)
    then have U: "ok S (\<lambda>x. 0) U" "e \<ge> 0 \<longrightarrow> s' = s \<and> hashlen_len h' = component_length s" using x that(2) by simp_all
    show "safe (\<lambda>(e, s', T). next_ok s S e s' T) (?rest x)"
    proof (cases "e < 0")
      case True
      then show ?thesis using ok_bad [OF U(1)] by (simp add: y next_ok_def)
    next
      case False
      then have "s' = s" using U(2) by simp
      then show ?thesis using False U tail [OF U(1), of h' type] by (simp only: y prod.case if_False)
    qed
  qed
  have hash: "safe (\<lambda>h. hashlen_len h = component_length s) (k_hash_name E salt s)" for salt
  proof -
    obtain h where "k_hash_name E salt s = Inr h" "hashlen_len h = component_length s" using assms(2,3) unfolding hash_ok_def by blast
    then show ?thesis by simp
  qed
  show ?thesis
    unfolding next_component_def
    by (intro safe_seq [OF may_lookup_safe [OF ok_refl stack_ok_fits [OF assms(1)]]] safe_prod safe_if safe_seq [OF hash]
        safe_seq [OF component_type_safe [OF assms(2)]] rest)
      (auto simp: kept_def next_ok_def)
qed


section \<open>A round\<close>

text \<open>The rests of the names that the links on the stack interrupted.\<close>

definition names :: "'k walk \<Rightarrow> bytes option list" where
  "names S = take (nd_depth S) (map s_name (nd_stack S))"

definition names_ok :: "bytes option list \<Rightarrow> bool" where
  "names_ok ns \<longleftrightarrow> (\<forall>i<length ns. case ns ! i of None \<Rightarrow> i = 0 | Some s \<Rightarrow> component s)"

definition pending :: "bytes option list \<Rightarrow> nat" where
  "pending ns = (\<Sum>n\<leftarrow>ns. case n of None \<Rightarrow> 0 | Some s \<Rightarrow> length s)"

text \<open>What is left to resolve, with a full body for every link that may still be followed.\<close>

definition left :: "bytes \<Rightarrow> bytes option list \<Rightarrow> int \<Rightarrow> nat" where
  "left s ns c = length s + pending ns + PATH_MAX * nat (int MAXSYMLINKS - c)"

lemma names_keep: "names_kept k S T \<Longrightarrow> nd_depth T = k \<Longrightarrow> k \<le> nd_depth S \<Longrightarrow> names T = take k (names S)"
  by (simp add: names_def names_kept_def min_def)

lemma names_ok_take: "names_ok ns \<Longrightarrow> names_ok (take k ns)"
  by (simp add: names_ok_def)

lemma names_ok_snoc: "names_ok ns \<Longrightarrow> component s \<Longrightarrow> names_ok (ns @ [Some s])"
  by (auto simp: names_ok_def nth_append less_Suc_eq)

lemma pending_snoc [simp]: "pending (ns @ [Some s]) = pending ns + length s"
  by (simp add: pending_def)

lemma pending_take: "pending (take k ns) \<le> pending ns"
proof -
  have "pending (take k ns) + pending (drop k ns) = pending ns"
    by (simp add: pending_def flip: sum_list_append map_append)
  then show ?thesis by simp
qed

text \<open>One round goes on with a component and with less than \<open>b\<close> left, or ends.\<close>

definition going :: "nat \<Rightarrow> 'k walk \<Rightarrow> int + bytes \<Rightarrow> 'k walk \<Rightarrow> bool" where
  "going b S r T \<longleftrightarrow> gone (\<lambda>x. 0) S T \<and>
     (case r of Inl e \<Rightarrow> (e = 0 \<longrightarrow> nd_depth T \<le> 1 \<and> last_ok T)
      | Inr s \<Rightarrow> component s \<and> names_ok (names T) \<and> left s (names T) (nd_total_link_count T) \<le> b)"

lemma check_dir_safe:
  assumes "gone (\<lambda>x. 0) S T" "component s" "names_ok (names T)" "left s (names T) (nd_total_link_count T) \<le> b"
  shows "safe (\<lambda>(r, U). going b S r U) (check_dir E s T)"
proof -
  have T: "stack_ok T" using assms(1) by (simp add: gone_def)
  have lazy: "safe (\<lambda>(r, U). going b S r U)
      (bind_res (unlazy_walk E T) (\<lambda>(e, S). Inr (Inl (if e \<noteq> 0 then - ECHILD else - ENOTDIR), S)))" if "in_rcu T"
  proof (rule safe_seq [OF unlazy_step [OF ok_refl that stack_ok_fits [OF T]]], elim case_prodE conjE)
    fix x U and e :: int
    assume "x = (e, U)" "if e = 0 then ok T (\<lambda>x. 0) U \<and> nd_path U = nd_path T \<and> map s_link (nd_stack U) = map s_link (nd_stack T) \<and>
      nd_link_inode U = nd_link_inode T \<and> nd_total_link_count U = nd_total_link_count T else bad T (\<lambda>x. 0) U"
    moreover from this have "gone (\<lambda>x. 0) T U" using bad_gone [OF _ T] ok_gone [OF _ T] by (cases "e = 0") auto
    then have "gone (\<lambda>x. 0) S U" using gone_trans [OF assms(1), of "\<lambda>x. 0" U] by simp
    ultimately show "safe (\<lambda>(r, U). going b S r U) (case x of (e, S) \<Rightarrow> Inr (Inl (if e \<noteq> 0 then - ECHILD else - ENOTDIR), S))"
      by (simp add: going_def ECHILD_def ENOTDIR_def)
  qed
  show ?thesis
    unfolding check_dir_def
    by (intro safe_null_bind safe_if lazy) (use assms in \<open>auto simp: going_def ENOTDIR_def\<close>)
qed

end
