(* ===== verification/Walk_Safe.thy ===== *)
theory Walk_Safe
  imports Walk_Names
begin

text \<open>
  The loops of a path walk. A round of \<open>link_path_walk\<close> keeps the balance of references and uses up part
  of what is left to resolve; \<open>path_lookupat\<close> follows at most \<open>MAXSYMLINKS\<close> trailing links. So with
  \<open>w_fuel\<close> beyond the length of all names that can be read, a walk ends by itself, and it ends with
  the references it began with and those of the path it returns.
\<close>

section \<open>The second half of a round\<close>

lemma common_rooted: "common K S \<Longrightarrow> rooted K \<Longrightarrow> rooted S"
  by (auto simp: common_def rooted_def)

lemma gone_rooted: "gone f K S \<Longrightarrow> rooted K \<Longrightarrow> rooted S"
  by (auto simp: gone_def intro: common_rooted)

lemma gone_count: "gone f K S \<Longrightarrow> nd_total_link_count K \<le> nd_total_link_count S"
  by (simp add: gone_def common_def)

lemma gone_stack: "gone f K S \<Longrightarrow> stack_ok S"
  by (simp add: gone_def)

lemma gone_last: "gone f K S \<Longrightarrow> last_ok K \<Longrightarrow> last_ok S"
  by (simp add: gone_def common_def)

lemma gone_step: "gone (\<lambda>x. 0) K S \<Longrightarrow> gone (\<lambda>x. 0) S T \<Longrightarrow> gone (\<lambda>x. 0) K T"
  using gone_trans [of "\<lambda>x. 0" K S "\<lambda>x. 0" T] by simp

lemma gone_refl: "stack_ok S \<Longrightarrow> gone (\<lambda>x. 0) S S"
  by (rule ok_gone [OF ok_refl])

lemma rename_ok:
  assumes "i < length (nd_stack S)"
  shows "acct (\<lambda>x. 0) S (put_saved i ((nd_stack S ! i)\<lparr>s_name := n\<rparr>) S)" "common S (put_saved i ((nd_stack S ! i)\<lparr>s_name := n\<rparr>) S)"
proof -
  let ?T = "put_saved i ((nd_stack S ! i)\<lparr>s_name := n\<rparr>) S"
  have sel: "map s_link (nd_stack ?T) = map s_link (nd_stack S)" "nd_depth ?T = nd_depth S" "in_rcu ?T = in_rcu S"
      "has_root_flag ?T = has_root_flag S" "last_ok ?T = last_ok S"
    using assms by (simp_all add: put_saved_def map_update list_update_same_conv in_rcu_def has_root_flag_def last_ok_def)
  have "bal ?T x = bal S x" "rbal ?T = rbal S" for x
    using sel by (auto simp: bal_def rbal_def held_def link_refs_map root_refs_def put_saved_def)
  then show "acct (\<lambda>x. 0) S ?T" by (simp add: acct_def put_saved_def)
  show "common S ?T" using sel by (simp add: common_def) (simp add: put_saved_def)
qed

lemma rename_gone:
  assumes "i < length (nd_stack S)" "stack_ok S"
  shows "gone (\<lambda>x. 0) S (put_saved i ((nd_stack S ! i)\<lparr>s_name := n\<rparr>) S)"
  using rename_ok [OF assms(1)] assms(2) by (simp add: gone_def stack_ok_def put_saved_def)

text \<open>The stack after a link has been entered: the rest of the interrupted name goes on top.\<close>

lemma names_push:
  assumes "names_kept k S T" "nd_depth T = Suc k" "k < length (nd_stack T)" "k \<le> nd_depth S"
  shows "names (put_saved k ((nd_stack T ! k)\<lparr>s_name := Some nm\<rparr>) T) = take k (names S) @ [Some nm]"
proof -
  let ?ns = "map s_name (nd_stack T)"
  have "names (put_saved k ((nd_stack T ! k)\<lparr>s_name := Some nm\<rparr>) T) = take (Suc k) (?ns[k := Some nm])"
    by (simp add: names_def put_saved_def assms(2) map_update)
  also have "\<dots> = take k ?ns @ [Some nm]" using assms(3) by (simp add: take_Suc_conv_app_nth)
  also have "take k ?ns = take k (names S)" using assms(1,4) by (simp add: names_kept_def names_def min_def)
  finally show ?thesis .
qed

lemma left_mono: "c \<le> c' \<Longrightarrow> pending ns \<le> p \<Longrightarrow> left s ns c' \<le> length s + p + PATH_MAX * nat (int MAXSYMLINKS - c)"
  unfolding left_def by (intro add_mono mult_le_mono order_refl nat_mono) simp_all

lemma left_link:
  assumes "c < c'" "c' \<le> int MAXSYMLINKS" "c' \<le> c''" "length s \<le> PATH_MAX"
  shows "left s (ns @ [Some nm]) c'' \<le> length nm + pending ns + PATH_MAX * nat (int MAXSYMLINKS - c)"
proof -
  have "nat (int MAXSYMLINKS - c'') + 1 \<le> nat (int MAXSYMLINKS - c)" using assms(1-3) by linarith
  then have "PATH_MAX * (nat (int MAXSYMLINKS - c'') + 1) \<le> PATH_MAX * nat (int MAXSYMLINKS - c)" by (rule mult_le_mono2)
  then show ?thesis using assms(4) by (simp add: left_def)
qed

text \<open>What a round may leave when it enters a component with the rest \<open>s\<close> of the name.\<close>

definition bound :: "bool \<Rightarrow> bytes \<Rightarrow> 'k walk \<Rightarrow> nat" where
  "bound walk_more s S = length s + pending (take (depth_left walk_more S) (names S)) + PATH_MAX * nat (int MAXSYMLINKS - nd_total_link_count S)"

lemma going_err: "gone (\<lambda>x. 0) S T \<Longrightarrow> e \<noteq> 0 \<Longrightarrow> going b S (Inl e) T"
  by (simp add: going_def)

lemma depth_left_le: "depth_left walk_more S \<le> nd_depth S"
  by (simp add: depth_left_def)

lemma check_popped:
  assumes "gone (\<lambda>x. 0) S T" "names_kept (depth_left walk_more S) S T" "nd_depth T = depth_left walk_more S" "names_ok (names S)" "component s"
  shows "safe (\<lambda>(r, U). going (bound walk_more s S) S r U) (check_dir E s T)"
proof (rule check_dir_safe [OF assms(1,5)])
  have n: "names T = take (depth_left walk_more S) (names S)" by (rule names_keep [OF assms(2,3) depth_left_le])
  then show "names_ok (names T)" using names_ok_take [OF assms(4)] by simp
  show "left s (names T) (nd_total_link_count T) \<le> bound walk_more s S"
    unfolding bound_def by (rule left_mono [OF gone_count [OF assms(1)]]) (simp add: n)
qed

lemma enter_link_safe:
  assumes S: "names_ok (names S)" "component s"
    and T: "gone (\<lambda>x. 0) S T" "rooted T" "env_ok E" "stepped (depth_left walk_more S) S 1 T"
  shows "safe (\<lambda>(r, U). going (bound walk_more s S) S r U)
    (bind_res (get_link E T) (\<lambda>(t, U).
       case t of
         LinkErr e \<Rightarrow> Inr (Inl e, U)
       | LinkNull \<Rightarrow> bind_res (put_link E U) (\<lambda>V. check_dir E s V)
       | LinkBody t \<Rightarrow>
           bind_res (get_saved U (nd_depth U - 1)) (\<lambda>last.
           Inr (Inr t, put_saved (nd_depth U - 1) (last\<lparr>s_name := Some s\<rparr>) U))))"
    (is "safe ?Q (bind_res _ ?f)")
proof -
  let ?k = "depth_left walk_more S"
  have t: "names_kept ?k S T" "nd_depth T = Suc ?k" "nd_total_link_count S < nd_total_link_count T" "nd_total_link_count T \<le> int MAXSYMLINKS"
    using T(4) by (simp_all add: stepped_def)
  have k: "?k \<le> nd_depth S" by (rule depth_left_le)
  have sT: "stack_ok T" by (rule gone_stack [OF T(1)])
  have null: "safe ?Q (bind_res (put_link E U) (\<lambda>V. check_dir E s V))" if U: "ok T (\<lambda>x. 0) U" for U
  proof -
    have gU: "gone (\<lambda>x. 0) S U" by (rule gone_step [OF T(1) ok_gone [OF U sT]])
    have d: "nd_depth U = Suc ?k" using ok_depth [OF U] t(2) by simp
    have nU: "names_kept ?k S U" by (rule names_kept_trans [OF t(1) ok_names [OF U]])
    show ?thesis
    proof (rule safe_seq [OF put_link_safe])
      show "nd_depth U \<noteq> 0" "fits U" using d stack_ok_fits [OF gone_stack [OF gU]] by simp_all
      fix V
      assume "popped U V"
      note V = popped_gone [OF this gone_stack [OF gU]]
      show "safe ?Q (check_dir E s V)"
        by (rule check_popped [OF gone_step [OF gU V(1)] _ _ S]) (use V(2,3) d nU in \<open>simp_all add: names_kept_def\<close>)
    qed
  qed
  have body: "?Q (Inr b, put_saved (nd_depth U - 1) ((nd_stack U ! (nd_depth U - 1))\<lparr>s_name := Some s\<rparr>) U)"
      "nd_depth U - 1 < length (nd_stack U)" if U: "ok T (\<lambda>x. 0) U" "component b" for U b
  proof -
    let ?V = "put_saved (nd_depth U - 1) ((nd_stack U ! (nd_depth U - 1))\<lparr>s_name := Some s\<rparr>) U"
    have gU: "gone (\<lambda>x. 0) S U" by (rule gone_step [OF T(1) ok_gone [OF U(1) sT]])
    have d: "nd_depth U = Suc ?k" using ok_depth [OF U(1)] t(2) by simp
    show i: "nd_depth U - 1 < length (nd_stack U)" using stack_ok_fits [OF gone_stack [OF gU]] d by simp
    have ns: "names ?V = take ?k (names S) @ [Some s]"
      using names_push [OF names_kept_trans [OF t(1) ok_names [OF U(1)]] d _ k, of s] i d by simp
    have c: "nd_total_link_count ?V = nd_total_link_count U" by (simp add: put_saved_def)
    have "left b (names ?V) (nd_total_link_count ?V) \<le> bound walk_more s S"
      unfolding ns c bound_def
      by (rule left_link [OF t(3,4)]) (use U in \<open>auto simp: ok_def keeps_def shrinks_def component_def cstring_def\<close>)
    moreover have "names_ok (names ?V)" unfolding ns by (rule names_ok_snoc [OF names_ok_take [OF S(1)] S(2)])
    ultimately show "?Q (Inr b, ?V)"
      using gone_step [OF gU rename_gone [OF i gone_stack [OF gU]]] U(2) by (simp add: going_def)
  qed
  show ?thesis
  proof (rule safe_seq [OF get_link_safe [OF sT _ T(2,3)]], goal_cases)
    case 1
    show ?case using t(2) by simp
  next
    case (2 x)
    obtain r U where x: "x = (r, U)" by (cases x)
    have "gone (\<lambda>x. 0) S U" if "bad T (\<lambda>x. 0) U" using gone_step [OF T(1) bad_gone [OF that sT]] .
    then show ?case
      using 2 null body by (cases r) (auto simp: x going_err get_saved_def simp del: safe_bind)
  qed
qed

lemma enter_component_safe:
  assumes "stack_ok S" "rooted S" "env_ok E" "names_ok (names S)" "component s"
  shows "safe (\<lambda>(r, T). going (bound walk_more s S) S r T) (enter_component E walk_more s S)"
  unfolding enter_component_def
proof (rule safe_seq [OF walk_component_safe], goal_cases)
  case (5 x)
  obtain e T where x: "x = (e, T)" by (cases x)
  then have g: "gone (\<lambda>x. 0) S T" "stepped (depth_left walk_more S) S e T" using 5 by (simp_all add: step_ok_def)
  consider "e < 0" | "e = 0" | "e = 1" using g(2) by (auto simp: stepped_def)
  then show ?case
  proof cases
    case 1
    then show ?thesis using g(1) by (simp add: x going_err)
  next
    case 2
    then show ?thesis using check_popped [OF g(1) _ _ assms(4,5), of walk_more E] g(2) by (simp add: x stepped_def)
  next
    case 3
    then have "stepped (depth_left walk_more S) S 1 T" using g(2) by simp
    from enter_link_safe [OF assms(4,5) g(1) gone_rooted [OF g(1) assms(2)] assms(3) this] show ?thesis
      using 3 by (simp only: x prod.case) (simp del: safe_bind)
  qed
qed (use assms in \<open>simp_all add: env_ok_def\<close>)

section \<open>Rounds\<close>

lemma going_step: "gone (\<lambda>x. 0) S T \<Longrightarrow> going b T r U \<Longrightarrow> b \<le> c \<Longrightarrow> going c S r U"
  using gone_step by (fastforce simp: going_def split: sum.splits)

lemma ok_names_eq: "ok S f T \<Longrightarrow> names T = names S"
  by (simp add: ok_def keeps_def names_def)

lemma ok_rooted: "ok S f T \<Longrightarrow> rooted S \<Longrightarrow> rooted T"
  by (auto simp: ok_def keeps_def intro: shrinks_rooted)

lemma names_length: "stack_ok S \<Longrightarrow> length (names S) = nd_depth S"
  by (simp add: names_def stack_ok_def)

lemma top_name:
  assumes "stack_ok S" "nd_depth S \<noteq> 0"
  shows "names S = take (nd_depth S - 1) (names S) @ [s_name (nd_stack S ! (nd_depth S - 1))]"
proof -
  have "nd_depth S - 1 < length (nd_stack S)" using stack_ok_fits [OF assms(1)] assms(2) by linarith
  then have "names S ! (nd_depth S - 1) = s_name (nd_stack S ! (nd_depth S - 1))" using assms(2) by (simp add: names_def)
  then show ?thesis using take_Suc_conv_app_nth [of "nd_depth S - 1" "names S"] names_length [OF assms(1)] assms(2) by simp
qed

text \<open>The end of a string: the walk goes on with the name a link has interrupted, if there is one.\<close>

lemma resume_safe:
  assumes "stack_ok S" "rooted S" "env_ok E" "names_ok (names S)" "last_ok S" "b + 1 = left t (names S) (nd_total_link_count S)" "t \<noteq> []"
  shows "safe (\<lambda>(r, T). going b S r T)
    (if nd_depth S = 0 then Inr (Inl 0, S)
     else bind_res (get_saved S (nd_depth S - 1)) (\<lambda>last.
          case s_name last of None \<Rightarrow> Inr (Inl 0, S) | Some nm \<Rightarrow> enter_component E False nm S))"
proof (cases "nd_depth S = 0")
  case True
  then show ?thesis using assms(1,5) by (simp add: going_def gone_refl)
next
  case False
  let ?i = "nd_depth S - 1"
  let ?n = "s_name (nd_stack S ! ?i)"
  have i: "?i < length (nd_stack S)" using stack_ok_fits [OF assms(1)] False by linarith
  have top: "names S = take ?i (names S) @ [?n]" by (rule top_name [OF assms(1) False])
  have len: "length (take ?i (names S)) = ?i" using names_length [OF assms(1)] by simp
  have n: "case ?n of None \<Rightarrow> ?i = 0 | Some s \<Rightarrow> component s"
  proof -
    have at: "names S ! ?i = ?n" using nth_append_length [of "take ?i (names S)" ?n "[]"] top len by metis
    have "?i < length (names S)" using names_length [OF assms(1)] False by simp
    then show ?thesis using assms(4) unfolding names_ok_def at [symmetric] by blast
  qed
  have "safe (\<lambda>(r, T). going b S r T) (case ?n of None \<Rightarrow> Inr (Inl 0, S) | Some nm \<Rightarrow> enter_component E False nm S)"
  proof (rule safe_option)
    assume "?n = None"
    then show "safe (\<lambda>(r, T). going b S r T) (Inr (Inl 0, S))" using n assms(1,5) False by (simp add: going_def gone_refl)
  next
    fix nm
    assume nm: "?n = Some nm"
    have "pending (names S) = pending (take ?i (names S)) + length nm" using top nm pending_snoc by metis
    moreover have "depth_left False S = ?i" using False by (simp add: depth_left_def)
    moreover have "length t \<ge> 1" using assms(7) by (cases t) simp_all
    ultimately have "bound False nm S \<le> b" using assms(6) by (simp add: bound_def left_def)
    then show "safe (\<lambda>(r, T). going b S r T) (enter_component E False nm S)"
      using n nm going_step [OF gone_refl [OF assms(1)]]
      by (intro safe_mono [OF enter_component_safe [OF assms(1-4)]]) auto
  qed
  then show ?thesis using False i by (simp add: get_saved_def)
qed

lemma walk_round_safe:
  assumes "stack_ok S" "rooted S" "env_ok E" "names_ok (names S)" "component s"
  shows "safe (\<lambda>(r, T). going (left s (names S) (nd_total_link_count S) - 1) S r T) (walk_round E s S)"
  unfolding walk_round_def
proof (rule safe_seq [OF next_component_safe], goal_cases)
  case (4 x)
  obtain e t T where x: "x = (e, t, T)" by (cases x)
  show ?case
  proof (cases "e = 0")
    case False
    then show ?thesis using 4 bad_gone [OF _ assms(1)] by (simp add: x next_ok_def going_err)
  next
    case True
    then have T: "ok S (\<lambda>x. 0) T" "last_ok T" "cstring t" "hd t \<noteq> 47" "length t < length s" using 4 by (simp_all add: x next_ok_def)
    let ?b = "left s (names S) (nd_total_link_count S) - 1"
    have g: "gone (\<lambda>x. 0) S T" by (rule ok_gone [OF T(1) assms(1)])
    have sT: "stack_ok T" "rooted T" "names_ok (names T)" "names T = names S"
      using gone_stack [OF g] ok_rooted [OF T(1) assms(2)] ok_names_eq [OF T(1)] assms(4) by simp_all
    have le: "left t (names T) (nd_total_link_count T) \<le> ?b"
      using left_mono [OF gone_count [OF g], of "names T" "pending (names T)" t] T(5) unfolding left_def [of s] sT(4) by linarith
    have tn: "t \<noteq> []" by (rule cstring_nonempty [OF T(3)])
    have more: "safe (\<lambda>(r, U). going ?b S r U) (enter_component E True t T)" if "hd t \<noteq> 0"
    proof (rule safe_mono [OF enter_component_safe [OF sT(1,2) assms(3) sT(3)]])
      show "component t" using that T by (simp add: component_def)
      have "bound True t T \<le> ?b" using le names_length [OF sT(1)] by (simp add: bound_def left_def depth_left_def)
      then show "case y of (r, U) \<Rightarrow> going ?b S r U" if "case y of (r, U) \<Rightarrow> going (bound True t T) T r U" for y
        using that going_step [OF g] by (cases y) simp
    qed
    have rest: "safe (\<lambda>(r, U). going ?b S r U)
       (if nd_depth T = 0 then Inr (Inl 0, T)
        else bind_res (get_saved T (nd_depth T - 1)) (\<lambda>last. case s_name last of None \<Rightarrow> Inr (Inl 0, T) | Some nm \<Rightarrow> enter_component E False nm T))"
      by (rule safe_mono [OF resume_safe [OF sT(1,2) assms(3) sT(3) T(2) _ tn, of "left t (names T) (nd_total_link_count T) - 1"]])
        (use le tn going_step [OF g] in \<open>auto simp: left_def\<close>)
    show ?thesis
      unfolding x prod.case char_at_hd [OF tn] bind_res_Inr using True more rest by (simp del: safe_bind)
  qed
qed (use assms in \<open>simp_all add: env_ok_def\<close>)

definition walked :: "'k walk \<Rightarrow> int \<Rightarrow> 'k walk \<Rightarrow> bool" where
  "walked S e T \<longleftrightarrow> gone (\<lambda>x. 0) S T \<and> (e = 0 \<longrightarrow> nd_depth T \<le> 1 \<and> last_ok T)"

lemma walk_loop_safe:
  "stack_ok S \<Longrightarrow> rooted S \<Longrightarrow> env_ok E \<Longrightarrow> names_ok (names S) \<Longrightarrow> component s \<Longrightarrow>
   left s (names S) (nd_total_link_count S) < n \<Longrightarrow> safe (\<lambda>(e, T). walked S e T) (walk_loop E n s S)"
proof (induction n arbitrary: s S)
  case (Suc n)
  note S = Suc.prems(1-5)
  have s: "s \<noteq> []" using S(5) cstring_nonempty by (auto simp: component_def)
  show ?case
    unfolding walk_loop.simps
  proof (rule safe_seq [OF walk_round_safe [OF S]], goal_cases)
    case (1 x)
    obtain r T where x: "x = (r, T)" by (cases x)
    then have T: "going (left s (names S) (nd_total_link_count S) - 1) S r T" "gone (\<lambda>x. 0) S T" using 1 by (simp_all add: going_def)
    show ?case
    proof (cases r)
      case (Inl e)
      then show ?thesis using T by (simp add: x walked_def going_def)
    next
      case (Inr t)
      have c: "component t" "names_ok (names T)" "left t (names T) (nd_total_link_count T) \<le> left s (names S) (nd_total_link_count S) - 1"
        using T(1) Inr by (simp_all add: going_def)
      have "left t (names T) (nd_total_link_count T) < n" using c(3) Suc.prems(6) s by (cases s) (simp_all add: left_def)
      from Suc.IH [OF gone_stack [OF T(2)] gone_rooted [OF T(2) S(2)] S(3) c(2,1) this] show ?thesis
        unfolding x Inr prod.case sum.case by (rule safe_mono) (use gone_step [OF T(2)] in \<open>auto simp: walked_def\<close>)
    qed
  qed
qed simp

text \<open>
  Enough fuel: a path name or link body takes a page, at most \<open>MAXSYMLINKS\<close> links are entered, and
  every round takes at least one byte.
\<close>

definition fuel_ok :: "('k, 'a) walk_env \<Rightarrow> bool" where
  "fuel_ok E \<longleftrightarrow> (MAXSYMLINKS + 1) * PATH_MAX < w_fuel E"

text \<open>A string to be walked from the bottom of the stack of links, or an error instead of it.\<close>

definition ready :: "int + bytes \<Rightarrow> 'k walk \<Rightarrow> bool" where
  "ready r S \<longleftrightarrow> stack_ok S \<and> rooted S \<and> last_ok S \<and>
     (case r of Inl e \<Rightarrow> e \<noteq> 0 | Inr s \<Rightarrow> cstring s \<and> names S \<in> {[], [None]})"

lemma bottom_ok: "names_ok []" "names_ok [None]"
  by (simp_all add: names_ok_def)

lemma link_path_walk_safe:
  assumes "ready r S" "env_ok E" "fuel_ok E"
  shows "safe (\<lambda>(e, T). walked S e T) (link_path_walk E r S)"
proof (cases r)
  case (Inl e)
  then show ?thesis using assms(1) by (simp add: link_path_walk_def walked_def ready_def gone_refl)
next
  case (Inr s)
  have S: "stack_ok S" "rooted S" "last_ok S" "cstring s" "names S \<in> {[], [None]}" using assms(1) Inr by (simp_all add: ready_def)
  have d: "nd_depth S \<le> 1" "names_ok (names S)" "pending (names S) = 0" "0 \<le> nd_total_link_count S"
    using S(1,5) names_length [OF S(1)] by (auto simp: bottom_ok pending_def stack_ok_def)
  have loop: "safe (\<lambda>(e, T). walked S e T) (walk_loop E (w_fuel E) t S)" if "component t" for t
  proof (rule walk_loop_safe [OF S(1,2) assms(2) d(2) that])
    have "PATH_MAX * nat (int MAXSYMLINKS - nd_total_link_count S) \<le> PATH_MAX * MAXSYMLINKS" using d(4) by (intro mult_le_mono2) linarith
    moreover have "length t \<le> PATH_MAX" using that by (simp add: component_def cstring_def)
    moreover have "PATH_MAX * MAXSYMLINKS + PATH_MAX < w_fuel E" using assms(3) by (simp add: fuel_ok_def algebra_simps)
    ultimately show "left t (names S) (nd_total_link_count S) < w_fuel E" unfolding left_def d(3) by linarith
  qed
  have start: "safe (\<lambda>(e, T). walked S e T) (bind_res (char_at t) (\<lambda>c. if c = 0 then Inr (0, S) else walk_loop E (w_fuel E) t S))"
    if "0 \<in> set t \<and> hd t \<noteq> 47 \<and> length t \<le> length s" for t
  proof -
    have t: "t \<noteq> []" using that by auto
    show ?thesis
      unfolding char_at_hd [OF t] bind_res_Inr
      using loop [of t] that S d(1) by (auto simp: walked_def gone_refl component_def cstring_def)
  qed
  have nul: "0 \<in> set s" using S(4) by (simp add: cstring_def)
  show ?thesis
    unfolding link_path_walk_def Inr sum.case by (rule safe_seq [OF skip_slashes_safe [OF nul] start])
qed

section \<open>The last component\<close>

lemma ok_walk_flags:
  "ok S (\<lambda>x. 0) (S\<lparr>nd_flags := nd_flags S AND NOT LOOKUP_PARENT\<rparr>)" "ok S (\<lambda>x. 0) (S\<lparr>nd_flags := nd_flags S OR LOOKUP_PARENT\<rparr>)"
  "ok S (\<lambda>x. 0) (S\<lparr>nd_flags := nd_flags S OR LOOKUP_FOLLOW OR LOOKUP_DIRECTORY, nd_flags := (nd_flags S OR LOOKUP_FOLLOW OR LOOKUP_DIRECTORY) AND NOT LOOKUP_PARENT\<rparr>)"
proof -
  let ?T = "S\<lparr>nd_flags := nd_flags S OR LOOKUP_FOLLOW OR LOOKUP_DIRECTORY\<rparr>"
  show "ok S (\<lambda>x. 0) (S\<lparr>nd_flags := nd_flags S AND NOT LOOKUP_PARENT\<rparr>)" "ok S (\<lambda>x. 0) (S\<lparr>nd_flags := nd_flags S OR LOOKUP_PARENT\<rparr>)"
    by simp_all
  have "ok S (\<lambda>x. 0) (?T\<lparr>nd_flags := nd_flags ?T AND NOT LOOKUP_PARENT\<rparr>) = ok S (\<lambda>x. 0) ?T" by (rule ok_frame(7)) simp
  then show "ok S (\<lambda>x. 0) (S\<lparr>nd_flags := nd_flags S OR LOOKUP_FOLLOW OR LOOKUP_DIRECTORY, nd_flags := (nd_flags S OR LOOKUP_FOLLOW OR LOOKUP_DIRECTORY) AND NOT LOOKUP_PARENT\<rparr>)"
    by simp
qed

text \<open>A trailing link is alone on the stack and has been counted.\<close>

definition trailing :: "'k walk \<Rightarrow> int \<Rightarrow> 'k walk \<Rightarrow> bool" where
  "trailing S e T \<longleftrightarrow> gone (\<lambda>x. 0) S T \<and>
     (e > 0 \<longrightarrow> nd_depth T = 1 \<and> nd_total_link_count S < nd_total_link_count T \<and> nd_total_link_count T \<le> int MAXSYMLINKS)"

lemma lookup_last_safe:
  assumes "stack_ok S" "rooted S" "last_ok S" "nd_depth S \<le> 1" "env_ok E"
  shows "safe (\<lambda>(e, T). trailing S e T) (lookup_last E S)"
proof -
  have comp: "safe (\<lambda>(e, T). trailing S e T) (walk_component E False False U)"
    if U: "ok S (\<lambda>x. 0) U" "nd_total_link_count U = nd_total_link_count S" for U
  proof (rule safe_mono [OF walk_component_safe])
    have g: "gone (\<lambda>x. 0) S U" by (rule ok_gone [OF U(1) assms(1)])
    show "stack_ok U" "rooted U" using gone_stack [OF g] gone_rooted [OF g assms(2)] .
    have "depth_left False U = 0" using ok_depth [OF U(1)] assms(4) by (simp add: depth_left_def)
    then show "case x of (e, T) \<Rightarrow> trailing S e T" if "case x of (e, T) \<Rightarrow> step_ok False U e T" for x
      using that gone_step [OF g] U(2) by (cases x) (auto simp: trailing_def step_ok_def stepped_def)
  qed (use assms(5) in \<open>simp_all add: env_ok_def\<close>)
  have "safe (\<lambda>c. True) (if nd_last_type S = LAST_NORM then bind_res (advance (hashlen_len (nd_last_hash S)) (nd_last_name S)) char_at else Inr 0)"
    using assms(3) by (auto simp: last_ok_def advance_def safe_char_at)
  then show ?thesis
    unfolding lookup_last_def Let_def
    by (rule safe_seq) (use comp ok_walk_flags in \<open>auto simp del: safe_bind\<close>)
qed

lemma follow_link_allowed_safe: "safe (\<lambda>e. True) (follow_link_allowed E S)"
  by (simp add: follow_link_allowed_def)

lemma trailing_symlink_safe:
  assumes "stack_ok S" "rooted S" "last_ok S" "nd_depth S = 1" "env_ok E"
  shows "safe (\<lambda>(r, T). gone (\<lambda>x. 0) S T \<and> ready r T) (trailing_symlink E S)"
proof -
  let ?U = "put_saved 0 ((nd_stack S ! 0)\<lparr>s_name := None\<rparr>) (S\<lparr>nd_flags := nd_flags S OR LOOKUP_PARENT\<rparr>)"
  have i: "0 < length (nd_stack S)" using stack_ok_fits [OF assms(1)] assms(4) by linarith
  have g1: "gone (\<lambda>x. 0) S (S\<lparr>nd_flags := nd_flags S OR LOOKUP_PARENT\<rparr>)" by (rule ok_gone [OF ok_walk_flags(2) assms(1)])
  have g: "gone (\<lambda>x. 0) S ?U" using gone_step [OF g1 rename_gone [OF _ gone_stack [OF g1], of 0 None]] i by simp
  have U: "nd_depth ?U = 1" "names ?U = [None]"
    using assms(4) i by (cases "nd_stack S"; simp add: put_saved_def names_def)+
  have link: "gone (\<lambda>x. 0) S T \<and> ready (case r of LinkErr e \<Rightarrow> Inl e | LinkNull \<Rightarrow> Inr [0] | LinkBody s \<Rightarrow> Inr s) T" if T: "linked ?U r T" for r T
  proof -
    have gT: "gone (\<lambda>x. 0) ?U T" using T ok_gone bad_gone gone_stack [OF g] by (cases r) auto
    moreover have "names T = [None]" if "ok ?U (\<lambda>x. 0) T" using ok_names_eq [OF that] U(2) by simp
    ultimately show ?thesis
      using T gone_stack [OF gT] gone_rooted [OF gT gone_rooted [OF g assms(2)]] gone_last [OF gT gone_last [OF g assms(3)]] gone_step [OF g gT]
      by (cases r) (auto simp: ready_def cstring_def PATH_MAX_def)
  qed
  have get: "safe (\<lambda>(r, T). gone (\<lambda>x. 0) S T \<and> ready r T)
      (bind_res (get_link E ?U) (\<lambda>(s, S). Inr (case s of LinkErr e \<Rightarrow> Inl e | LinkNull \<Rightarrow> Inr [0] | LinkBody s \<Rightarrow> Inr s, S)))"
    by (rule safe_seq [OF get_link_safe [OF gone_stack [OF g] _ gone_rooted [OF g assms(2)] assms(5)]])
      (use U(1) link in \<open>auto split: prod.splits\<close>)
  have err: "ready (Inl e) S" if "e \<noteq> 0" for e using that assms by (simp add: ready_def)
  show ?thesis
    unfolding trailing_symlink_def Let_def
    by (intro safe_seq [OF follow_link_allowed_safe] safe_if)
      (use get err i assms(1) in \<open>auto simp: get_saved_def gone_refl simp del: safe_bind\<close>)
qed

lemma lookup_loop_safe:
  assumes "ready r S" "env_ok E" "fuel_ok E"
    and last: "\<And>T. stack_ok T \<Longrightarrow> rooted T \<Longrightarrow> last_ok T \<Longrightarrow> nd_depth T \<le> 1 \<Longrightarrow> safe (\<lambda>(e, U). trailing T e U \<and> (e = 0 \<longrightarrow> P U)) (last_step T)"
  shows "nat (int MAXSYMLINKS - nd_total_link_count S) < n \<Longrightarrow> safe (\<lambda>(e, T). gone (\<lambda>x. 0) S T \<and> (e = 0 \<longrightarrow> P T)) (lookup_loop E last_step n r S)"
  using assms(1)
proof (induction n arbitrary: r S)
  case (Suc n)
  let ?Q = "\<lambda>(e, T). gone (\<lambda>x. 0) S T \<and> (e = (0 :: int) \<longrightarrow> P T)"
  have S: "stack_ok S" "rooted S" "last_ok S" using Suc.prems(2) by (simp_all add: ready_def)
  have again: "safe ?Q (if e > 0 then bind_res (trailing_symlink E U) (\<lambda>(s, S). lookup_loop E last_step n s S) else Inr (e, U))"
    if T: "gone (\<lambda>x. 0) S T" "trailing T e U" "e = 0 \<longrightarrow> P U" for T U and e :: int
  proof (rule safe_if)
    assume e: "e > 0"
    have g: "gone (\<lambda>x. 0) S U" "nd_depth U = 1" "nd_total_link_count S < nd_total_link_count U" "nd_total_link_count U \<le> int MAXSYMLINKS"
      using T e gone_step [OF T(1)] gone_count [OF T(1)] by (auto simp: trailing_def)
    show "safe ?Q (bind_res (trailing_symlink E U) (\<lambda>(s, S). lookup_loop E last_step n s S))"
    proof (rule safe_seq [OF trailing_symlink_safe [OF gone_stack [OF g(1)] gone_rooted [OF g(1) S(2)] gone_last [OF g(1) S(3)] g(2) assms(2)]], goal_cases)
      case (1 x)
      obtain s V where x: "x = (s, V)" by (cases x)
      then have V: "gone (\<lambda>x. 0) U V" "ready s V" using 1 by simp_all
      have "nat (int MAXSYMLINKS - nd_total_link_count V) < n" using gone_count [OF V(1)] g(3,4) Suc.prems(1) by linarith
      from Suc.IH [OF this V(2)] show ?case
        unfolding x prod.case by (rule safe_mono) (use gone_step [OF gone_step [OF g(1) V(1)]] in auto)
    qed
  qed (use T gone_step [OF T(1)] in \<open>auto simp: trailing_def\<close>)
  have then_again: "safe ?Q
      (bind_res (last_step T) (\<lambda>(err, S). if err > 0 then bind_res (trailing_symlink E S) (\<lambda>(s, S). lookup_loop E last_step n s S) else Inr (err, S)))"
    if T: "gone (\<lambda>x. 0) S T" "nd_depth T \<le> 1" for T
    by (rule safe_seq [OF last [OF gone_stack [OF T(1)] gone_rooted [OF T(1) S(2)] gone_last [OF T(1) S(3)] T(2)]],
        elim case_prodE conjE, simp only: prod.case, rule again [OF T(1)])
  show ?case
    unfolding lookup_loop.simps
    by (rule safe_seq [OF link_path_walk_safe [OF Suc.prems(2) assms(2,3)]]) (use then_again in \<open>auto simp: walked_def simp del: safe_bind\<close>)
qed simp

end
