(* ===== verification/Walk_End.thy ===== *)
theory Walk_End
  imports Walk_Safe
begin

text \<open>
  A walk as a whole: where it starts, how it ends, and the retries. Whatever the rest of the kernel
  answers, a walk that returns holds what it held before and, if it succeeds, the path it returns.
\<close>

section \<open>The start\<close>

definition with_root :: "u32 \<Rightarrow> bool" where
  "with_root flags \<longleftrightarrow> flags AND LOOKUP_ROOT \<noteq> 0"

text \<open>The state \<open>path_init\<close> sets up before it chooses a place to start from.\<close>

definition begun :: "u32 \<Rightarrow> 'k walk \<Rightarrow> 'k walk" where
  "begun flags S = (if flags AND LOOKUP_RCU \<noteq> 0 then rcu_read_lock S else S)
     \<lparr>nd_last_type := LAST_ROOT, nd_flags := flags OR LOOKUP_JUMPED OR LOOKUP_PARENT, nd_depth := 0\<rparr>"

lemma begun_sel [simp]:
  "nd_depth (begun flags S) = 0" "nd_root (begun flags S) = nd_root S" "nd_stack (begun flags S) = nd_stack S" "nd_heap (begun flags S) = nd_heap S"
  "nd_total_link_count (begun flags S) = nd_total_link_count S" "nd_name (begun flags S) = nd_name S" "nd_dfd (begun flags S) = nd_dfd S"
  "ishared (begun flags S) = ishared S" "nd_last_type (begun flags S) = LAST_ROOT" "world (begun flags S) = world S"
  by (simp_all add: begun_def rcu_read_lock_def)

lemma begun_mode [simp]:
  "in_rcu (begun flags S) \<longleftrightarrow> flags AND LOOKUP_RCU \<noteq> 0" "has_root_flag (begun flags S) = with_root flags"
  by (simp_all add: begun_def in_rcu_def has_root_flag_def with_root_def flag_bits flag_disjoint)

lemma begun_refs [simp]: "refs (begun flags S) = refs S"
  by (rule refs_cong) (simp_all add: begun_def rcu_read_lock_def)

lemma begun_nest: "rcu_nest (begun flags S) = rcu_nest S + (if flags AND LOOKUP_RCU \<noteq> 0 then 1 else 0)"
  by (simp add: begun_def rcu_read_lock_def)

text \<open>A state that owes exactly the references and read sections of \<open>S\<close>.\<close>

definition base :: "u32 \<Rightarrow> 'k walk \<Rightarrow> 'k walk \<Rightarrow> bool" where
  "base flags S K \<longleftrightarrow> (\<forall>x. bal K x = refs S x) \<and> rbal K = rcu_nest S \<and> ishared K = ishared S \<and> nd_depth K = 0 \<and> last_ok K \<and>
     length (nd_stack K) = length (nd_stack S) \<and> nd_heap K = nd_heap S \<and> nd_total_link_count K = nd_total_link_count S \<and>
     nd_name K = nd_name S \<and> nd_dfd K = nd_dfd S \<and> has_root_flag K = with_root flags \<and> (with_root flags \<longrightarrow> nd_root K = nd_root S)"

lemma base_begun:
  assumes "with_root flags \<and> r = nd_root S \<or> \<not> with_root flags \<and> p_mnt r = None"
  shows "base flags S ((begun flags S)\<lparr>nd_root := r, nd_path := null_path\<rparr>)"
proof -
  let ?K = "(begun flags S)\<lparr>nd_root := r, nd_path := null_path\<rparr>"
  have "held ?K x = 0" for x using assms by (auto simp: held_def link_refs_def root_refs_def)
  moreover have "refs ?K x = refs S x" for x by simp
  ultimately have "bal ?K x = refs S x" for x by (simp only: bal_def)
  moreover have "rbal ?K = rcu_nest S" by (simp add: rbal_def begun_nest)
  ultimately show ?thesis using assms by (auto simp: base_def last_ok_def)
qed

definition root_ok :: "('k, 'a) walk_env \<Rightarrow> vpath \<Rightarrow> bool" where
  "root_ok E r \<longleftrightarrow> p_mnt r \<noteq> None \<and> (\<forall>d w. p_dentry r = Some d \<longrightarrow> kd_type (w_dentry E w d) = DirectoryType)"

definition started :: "u32 \<Rightarrow> 'k walk \<Rightarrow> int + bytes \<Rightarrow> 'k walk \<Rightarrow> bool" where
  "started flags S r T \<longleftrightarrow> (\<exists>K. base flags S K \<and> ok K (\<lambda>x. 0) T) \<and> (case r of Inl e \<Rightarrow> e < 0 | Inr s \<Rightarrow> s = nd_name S)"

lemma path_init_root_safe:
  assumes "with_root flags" "root_ok E (nd_root S)" "nd_name S = s"
  shows "safe (\<lambda>(r, T). started flags S r T) (path_init_root E flags s c (begun flags S))"
proof -
  define B where "B = begun flags S"
  define K where "K = B\<lparr>nd_root := nd_root S, nd_path := null_path\<rparr>"
  have sel: "in_rcu B \<longleftrightarrow> flags AND LOOKUP_RCU \<noteq> 0" "nd_root B = nd_root S" "in_rcu K = in_rcu B" "nd_path K = null_path"
    by (simp_all add: B_def K_def)
  have move: "B\<lparr>nd_path := p\<rparr> = K\<lparr>nd_path := p\<rparr>" for p by (simp add: K_def B_def begun_def rcu_read_lock_def)
  have K: "base flags S K" unfolding K_def B_def by (rule base_begun) (simp add: assms(1))
  have dir: "kd_type (w_dentry E w d) = DirectoryType" if "p_dentry (nd_root S) = Some d" for w d using assms(2) that by (simp add: root_ok_def)
  have "ok K (\<lambda>x. if in_rcu B then 0 else - path_refs p x) (B\<lparr>nd_path := p\<rparr>)" for p unfolding move by (cases "flags AND LOOKUP_RCU = 0") (simp_all add: sel)
  note okB = this [of "nd_root S"]
  show ?thesis
    unfolding path_init_root_def B_def [symmetric]
    using okB K dir by (auto simp: Let_def kop_eq sel assms(3) started_def intro!: exI [of _ K] split: if_splits)
qed

lemma pwd_rcu_safe: "ok K f S \<Longrightarrow> in_rcu S \<Longrightarrow> safe (\<lambda>T. ok K f T) (pwd_rcu E n S)"
  by (induction n arbitrary: S) (auto simp: Let_def kop_eq)

lemma path_init_safe:
  assumes "cstring (nd_name S)" "fs_ok E" "with_root flags \<longrightarrow> root_ok E (nd_root S)"
  shows "safe (\<lambda>(r, T). started flags S r T) (path_init E flags S)"
proof -
  let ?s = "nd_name S"
  define g where "g = (if hd ?s = 0 then flags AND NOT LOOKUP_RCU else flags)"
  define r where "r = (nd_root S)\<lparr>p_mnt := None\<rparr>"
  define K where "K = (begun g S)\<lparr>nd_root := r, nd_path := null_path\<rparr>"
  have wg: "with_root g = with_root flags" by (simp add: g_def with_root_def flag_bits flag_disjoint)
  have sg: "started flags S = started g S" by (simp add: started_def base_def wg fun_eq_iff)
  have K: "base g S K" if "\<not> with_root g" unfolding K_def using that by (intro base_begun) (simp add: r_def)
  have fin: "started g S v T" if "\<not> with_root g" "ok K (\<lambda>x. 0) T" "case v of Inl e \<Rightarrow> e < 0 | Inr s \<Rightarrow> s = ?s" for v T
    using K [OF that(1)] that(2,3) unfolding started_def by blast
  have sel: "nd_path K = null_path" "in_rcu K \<longleftrightarrow> g AND LOOKUP_RCU \<noteq> 0" "p_mnt (nd_root K) = None" "nd_dfd K = nd_dfd S"
    by (simp_all add: K_def r_def)
  have rK: "rooted K" if "\<not> with_root g" using that by (simp add: rooted_def K_def)
  let ?U = "\<lambda>w q. K\<lparr>world := w, nd_m_seq := q\<rparr>"
  have slash: "safe (\<lambda>(v, T). started g S v T)
      (bind_res (set_root E (?U w q)) (\<lambda>S. bind_res (nd_jump_root E S) (\<lambda>(e, S). Inr (if e = 0 then Inr ?s else Inl (- ECHILD), S))))"
    if n: "\<not> with_root g" for w q
  proof -
    have U: "ok K (\<lambda>x. 0) (?U w q)" "p_mnt (nd_root (?U w q)) = None" "rooted (?U w q)"
      using rK [OF n] by (simp_all add: sel rooted_def has_root_flag_def)
    show ?thesis
      by (rule safe_seq [OF set_root_safe [OF U assms(2)]], rule safe_seq [OF nd_jump_root_safe], erule conjunct1)
        (auto simp: ECHILD_def intro!: fin [OF n])
  qed
  have cwd: "safe (\<lambda>(v, T). started g S v T) (path_init_cwd E g ?s (?U w q))" if n: "\<not> with_root g" for w q
    unfolding path_init_cwd_def
    by (intro safe_if safe_seq [OF pwd_rcu_safe]) (auto simp: sel Let_def intro!: fin [OF n])
  have fd: "safe (\<lambda>(v, T). started g S v T) (path_init_fd E g ?s c (?U w q))" if n: "\<not> with_root g" for c w q
    unfolding path_init_fd_def
    by (auto simp: sel Let_def kop_eq EBADF_def ENOTDIR_def split: option.split intro!: fin [OF n])
  have dfd: "nd_dfd (?U w q) = nd_dfd S" for w q by (simp add: sel)
  have rest: "safe (\<lambda>(v, T). started g S v T)
      (let S' = (begun g S)\<lparr>nd_root := (nd_root S)\<lparr>p_mnt := None\<rparr>, nd_path := null_path\<rparr>;
           (m_seq, S') = kop (k_mount_seq_begin E) S'; S' = S'\<lparr>nd_m_seq := m_seq\<rparr> in
       if c = 47
       then bind_res (set_root E S') (\<lambda>S. bind_res (nd_jump_root E S) (\<lambda>(e, S). Inr (if e = 0 then Inr ?s else Inl (- ECHILD), S)))
       else if nd_dfd S' = AT_FDCWD then path_init_cwd E g ?s S'
       else path_init_fd E g ?s c S')" if n: "\<not> with_root g" for c
    unfolding r_def [symmetric] K_def [symmetric] Let_def kop_eq prod.case dfd
    by (intro safe_if slash cwd fd n)
  show ?thesis
    unfolding path_init_def Let_def char_at_hd [OF cstring_nonempty [OF assms(1)]] bind_res_Inr g_def [symmetric] begun_def [symmetric] begun_sel sg
    using rest [of "hd ?s"] path_init_root_safe [OF _ _ refl, of g E S "hd ?s"] assms(3) wg
    by (auto simp: with_root_def Let_def simp del: safe_bind)
qed

section \<open>The end\<close>

lemma handle_lookup_down_safe:
  assumes "ok K f S"
  shows "safe (\<lambda>(e, T). ok K f T) (handle_lookup_down E S)"
proof -
  have move: "ok K f (path_to_nameidata p T)" if "if in_rcu T then ok K f T else ok K (\<lambda>x. f x + cref T p x) T" for p T
    using that by (intro path_to_nameidata_ok) (simp add: cref_def split: if_splits)
  have rcu: "safe (\<lambda>(b, p, i, q, T). ok K f T \<and> here S T) (follow_mount_rcu E n path inode seq S)" for n path inode seq
    by (rule follow_mount_rcu_safe [OF assms])
  have ref: "safe (\<lambda>(r, p, T). \<not> in_rcu T \<and> (if r < 0 then ok K f T else ok K (\<lambda>x. f x + cref T p x) T)) (follow_managed E (nd_path S) (dget (p_dentry (nd_path S)) S))"
    if "\<not> in_rcu S"
    by (rule safe_mono [OF follow_managed_safe [of K f]]) (use assms that in \<open>auto simp: here_def\<close>)
  show ?thesis
    unfolding handle_lookup_down_def Let_def
    by (intro safe_if safe_seq [OF rcu] safe_seq [OF ref] safe_prod safe_null_bind)
      (use assms in \<open>auto simp: here_def intro!: move dest: ok_not_rcu\<close>)
qed

lemma bal_path: "bal (S\<lparr>nd_path := p\<rparr>) x = bal S x - (if in_rcu S then 0 else path_refs p x - path_refs (nd_path S) x)"
  by (simp add: balance_defs)

text \<open>The buffer of links and the name, before a walk and after it.\<close>

definition begin_ok :: "'k walk \<Rightarrow> bool" where
  "begin_ok S \<longleftrightarrow> length (nd_stack S) = (if nd_heap S then MAXSYMLINKS else EMBEDDED_LEVELS) \<and> 0 \<le> nd_total_link_count S \<and> cstring (nd_name S)"

definition ended :: "u32 \<Rightarrow> (nat + nat \<Rightarrow> int) \<Rightarrow> 'k walk \<Rightarrow> 'k walk \<Rightarrow> bool" where
  "ended flags f S T \<longleftrightarrow> (\<forall>x. refs T x = refs S x + f x) \<and> rcu_nest T = rcu_nest S \<and> ishared T = ishared S \<and> begin_ok T \<and>
     (with_root flags \<longrightarrow> nd_root T = nd_root S)"

definition balanced :: "u32 \<Rightarrow> 'k walk \<Rightarrow> int \<Rightarrow> vpath option \<Rightarrow> 'k walk \<Rightarrow> bool" where
  "balanced flags S e p T \<longleftrightarrow> (\<forall>x. refs T x = refs S x + (case p of None \<Rightarrow> 0 | Some q \<Rightarrow> path_refs q x)) \<and>
     rcu_nest T = rcu_nest S \<and> ishared T = ishared S \<and> (p \<noteq> None \<longleftrightarrow> e = 0) \<and> begin_ok T \<and> (with_root flags \<longrightarrow> nd_root T = nd_root S)"

lemma balanced_ended: "balanced flags S e p T \<longleftrightarrow> ended flags (\<lambda>x. case p of None \<Rightarrow> 0 | Some q \<Rightarrow> path_refs q x) S T \<and> (p \<noteq> None \<longleftrightarrow> e = 0)"
  by (auto simp: balanced_def ended_def)

definition going_on :: "u32 \<Rightarrow> 'k walk \<Rightarrow> 'k walk \<Rightarrow> bool" where
  "going_on flags S T \<longleftrightarrow> (\<exists>K. base flags S K \<and> rooted K \<and> gone (\<lambda>x. 0) K T)"

lemma going_onI: "going_on flags S T \<Longrightarrow> gone (\<lambda>x. 0) T U \<Longrightarrow> going_on flags S U"
  using gone_step unfolding going_on_def by blast

lemma going_on_stack: "going_on flags S T \<Longrightarrow> stack_ok T"
  by (auto simp: going_on_def intro: gone_stack)

lemma base_ok:
  assumes "base flags S K" "begin_ok S" "with_root flags \<longrightarrow> root_ok E (nd_root S)"
  shows "stack_ok K" "rooted K"
  using assms by (auto simp: base_def begin_ok_def stack_ok_def rooted_def root_ok_def)

lemma started_ready:
  assumes "started flags S r T" "begin_ok S" "with_root flags \<longrightarrow> root_ok E (nd_root S)"
  shows "ready r T" "going_on flags S T" "ok T (\<lambda>x. 0) U \<Longrightarrow> r' = r \<or> (\<exists>e. e < 0 \<and> r' = Inl e) \<Longrightarrow> ready r' U"
proof -
  obtain K where K: "base flags S K" "ok K (\<lambda>x. 0) T" using assms(1) unfolding started_def by blast
  note sK = base_ok [OF K(1) assms(2,3)]
  have g: "gone (\<lambda>x. 0) K T" by (rule ok_gone [OF K(2) sK(1)])
  have T: "stack_ok T" "rooted T" "last_ok T" "nd_depth T = 0"
    using gone_stack [OF g] gone_rooted [OF g sK(2)] gone_last [OF g] ok_depth [OF K(2)] K(1) by (simp_all add: base_def)
  have r: "case r of Inl e \<Rightarrow> e < 0 | Inr s \<Rightarrow> cstring s" using assms(1,2) by (auto simp: started_def begin_ok_def split: sum.splits)
  show "ready r T" using T r by (auto simp: ready_def names_def split: sum.splits)
  show "going_on flags S T" using K(1) sK(2) g unfolding going_on_def by blast
  assume U: "ok T (\<lambda>x. 0) U" "r' = r \<or> (\<exists>e. e < 0 \<and> r' = Inl e)"
  have gU: "gone (\<lambda>x. 0) T U" by (rule ok_gone [OF U(1) T(1)])
  show "ready r' U"
    using gone_stack [OF gU] gone_rooted [OF gU T(2)] gone_last [OF gU T(3)] ok_depth [OF U(1)] T(4) U(2) r
    by (auto simp: ready_def names_def split: sum.splits)
qed

text \<open>Whatever a walk has gained apart from what it holds itself is what is left at its end.\<close>

lemma end_walk_safe:
  assumes "base flags S K" "gone f K T" "begin_ok S" "with_root flags \<longrightarrow> root_ok E (nd_root S)"
  shows "safe (ended flags f S) (terminate_walk E T)"
proof -
  have T: "stack_ok T" "common K T" "acct f K T" using assms(2) by (simp_all add: gone_def)
  have root: "nd_root T = nd_root S" if "with_root flags"
    using T(2) assms(1,4) that by (auto simp: common_def base_def root_ok_def)
  have hr: "has_root_flag T = with_root flags" using T(2) assms(1) by (simp add: common_def base_def)
  have "ended flags f S U" if U: "finished T U" for U
  proof -
    have "begin_ok U" using U T(1,2) assms(1,3) by (simp add: finished_def begin_ok_def stack_ok_def common_def base_def)
    then show ?thesis using U T(3) root hr assms(1) by (auto simp: ended_def finished_def acct_def base_def)
  qed
  then show ?thesis using terminate_walk_safe [OF stack_ok_fits [OF T(1)], of E] by (blast intro: safe_mono)
qed

lemma gone_give_path:
  assumes "gone f K T" "\<not> in_rcu T"
  shows "gone (\<lambda>x. f x + path_refs (nd_path T) x) K (T\<lparr>nd_path := null_path\<rparr>)"
  using assms by (auto simp: gone_def acct_def common_def stack_ok_def bal_path rbal_def last_ok_def)

lemma finish_walk_safe:
  assumes "going_on flags S T" "begin_ok S" "with_root flags \<longrightarrow> root_ok E (nd_root S)" "e = 0 \<Longrightarrow> \<not> in_rcu T"
  shows "safe (\<lambda>(e, p, U). balanced flags S e p U) (finish_walk E e T)"
proof -
  obtain K where K: "base flags S K" "gone (\<lambda>x. 0) K T" using assms(1) unfolding going_on_def by blast
  have "gone (\<lambda>x. case if e = 0 then Some (nd_path T) else None of None \<Rightarrow> 0 | Some q \<Rightarrow> path_refs q x) K (if e = 0 then T\<lparr>nd_path := null_path\<rparr> else T)"
    using K(2) gone_give_path [OF K(2)] assms(4) by simp
  then show ?thesis
    unfolding finish_walk_def Let_def by (intro safe_seq [OF end_walk_safe [OF K(1) _ assms(2,3)]]) (auto simp: balanced_ended)
qed

lemma complete_then_finish:
  assumes "going_on flags S T" "begin_ok S" "with_root flags \<longrightarrow> root_ok E (nd_root S)"
    and "\<And>e' U. safe (\<lambda>e''. e'' = 0 \<longrightarrow> e' = (0 :: int)) (f e' U)"
  shows "safe (\<lambda>(e, p, U). balanced flags S e p U)
    (bind_res (if e = 0 then complete_walk E T else Inr (e, T)) (\<lambda>(e, S). bind_res (f e S) (\<lambda>e. finish_walk E e S)))"
proof -
  have sT: "stack_ok T" by (rule going_on_stack [OF assms(1)])
  have c: "safe (\<lambda>(e, U). going_on flags S U \<and> (e = 0 \<longrightarrow> \<not> in_rcu U)) (if e = 0 then complete_walk E T else Inr (e, T))"
    using assms(1) going_onI [OF assms(1) bad_gone [OF _ sT]]
    by (intro safe_if safe_mono [OF complete_walk_safe [OF ok_refl stack_ok_fits [OF sT]]]) auto
  have fin: "safe (\<lambda>(e, p, V). balanced flags S e p V) (bind_res (f e' U) (\<lambda>e. finish_walk E e U))"
    if "going_on flags S U" "e' = 0 \<longrightarrow> \<not> in_rcu U" for e' U
    by (rule safe_seq [OF assms(4)]) (rule finish_walk_safe [OF that(1) assms(2,3)], use that(2) in auto)
  show ?thesis by (rule safe_seq [OF c]) (use fin in \<open>auto simp del: safe_bind\<close>)
qed

lemma path_lookupat_safe:
  assumes "begin_ok S" "env_ok E" "fuel_ok E" "with_root flags \<longrightarrow> root_ok E (nd_root S)"
  shows "safe (\<lambda>(e, p, T). balanced flags S e p T) (path_lookupat E flags S)"
proof -
  have last: "safe (\<lambda>(e, V). trailing U e V \<and> (e = 0 \<longrightarrow> True)) (lookup_last E U)" if "stack_ok U" "rooted U" "last_ok U" "nd_depth U \<le> 1" for U
    using lookup_last_safe [OF that assms(2)] by simp
  have loop: "safe (\<lambda>(e, V). going_on flags S V) (lookup_loop E (lookup_last E) (w_fuel E) r U)" if "going_on flags S U" "ready r U" for r U
  proof (rule safe_mono [OF lookup_loop_safe [where P = "\<lambda>_. True", OF that(2) assms(2,3) last]])
    have "0 \<le> nd_total_link_count U" using that(2) by (simp add: ready_def stack_ok_def)
    then show "nat (int MAXSYMLINKS - nd_total_link_count U) < w_fuel E"
      using assms(3) by (simp add: fuel_ok_def PATH_MAX_def)
  qed (use going_onI [OF that(1)] in auto)
  have down: "safe (\<lambda>(r, U). going_on flags S U \<and> ready r U)
      (case r of
         Inl e \<Rightarrow> Inr (r, T)
       | Inr _ \<Rightarrow> if flags AND LOOKUP_DOWN = 0 then Inr (r, T)
           else bind_res (handle_lookup_down E T) (\<lambda>(err, U). Inr (if err < 0 then Inl err else r, U)))" if T: "started flags S r T" for r T
  proof -
    note R = started_ready [OF T assms(1,4)]
    have "safe (\<lambda>(r, U). going_on flags S U \<and> ready r U) (bind_res (handle_lookup_down E T) (\<lambda>(err, U). Inr (if err < 0 then Inl err else r, U)))"
    proof (rule safe_seq [OF handle_lookup_down_safe [OF ok_refl]], elim case_prodE)
      fix x U and e :: int
      assume "x = (e, U)" "ok T (\<lambda>x. 0) U"
      moreover from this(2) have "going_on flags S U" by (intro going_onI [OF R(2)] ok_gone going_on_stack [OF R(2)])
      moreover have "ready (if e < 0 then Inl e else r) U" by (rule R(3) [OF \<open>ok T (\<lambda>x. 0) U\<close>]) auto
      ultimately show "safe (\<lambda>(r, U). going_on flags S U \<and> ready r U) (case x of (err, U) \<Rightarrow> Inr (if err < 0 then Inl err else r, U))" by simp
    qed
    then show ?thesis using R(1,2) by (auto split: sum.split simp del: safe_bind)
  qed
  have dir: "safe (\<lambda>e''. e'' = 0 \<longrightarrow> e' = 0)
      (if e' = 0 \<and> nd_flags U AND LOOKUP_DIRECTORY \<noteq> 0
       then bind_res (null_ok (p_dentry (nd_path U))) (\<lambda>d. Inr (if kd_type (w_dentry E (world U) d) \<noteq> DirectoryType then - ENOTDIR else 0))
       else Inr e')" for e' U
    by (simp add: ENOTDIR_def)
  show ?thesis
    unfolding path_lookupat_def
    by (rule safe_seq [OF path_init_safe], use assms in \<open>simp add: begin_ok_def\<close>, use assms(2) in \<open>simp add: env_ok_def\<close>, rule assms(4),
        elim case_prodE, simp only: prod.case, rule safe_seq [OF down], assumption,
        elim case_prodE conjE, simp only: prod.case, rule safe_seq [OF loop], assumption, assumption,
        elim case_prodE, simp only: prod.case, rule complete_then_finish [OF _ assms(1,4) dir])
qed

lemma path_parentat_safe:
  assumes "begin_ok S" "env_ok E" "fuel_ok E" "with_root flags \<longrightarrow> root_ok E (nd_root S)"
  shows "safe (\<lambda>(e, p, T). balanced flags S e p T) (path_parentat E flags S)"
proof -
  have walk: "safe (\<lambda>(e, U). going_on flags S U) (link_path_walk E r T)" if T: "started flags S r T" for r T
    using started_ready(1,2) [OF T assms(1,4)]
    by (intro safe_mono [OF link_path_walk_safe [OF _ assms(2,3)]]) (auto simp: walked_def intro: going_onI)
  have fin: "safe (\<lambda>(e, p, U). balanced flags S e p U)
      (bind_res (if e = 0 then complete_walk E T else Inr (e, T)) (\<lambda>(e, S). finish_walk E e S))" if "going_on flags S T" for e T
    using complete_then_finish [OF that assms(1,4), of "\<lambda>e U. Inr e" e] by simp
  show ?thesis
    unfolding path_parentat_def
    by (rule safe_seq [OF path_init_safe], use assms in \<open>simp add: begin_ok_def\<close>, use assms(2) in \<open>simp add: env_ok_def\<close>, rule assms(4),
        elim case_prodE, simp only: prod.case, rule safe_seq [OF walk], assumption, elim case_prodE, simp only: prod.case, rule fin)
qed

section \<open>Retries\<close>

lemma with_root_or [simp]: "with_root (flags OR LOOKUP_RCU) = with_root flags" "with_root (flags OR LOOKUP_REVAL) = with_root flags"
proof -
  have "LOOKUP_REVAL AND LOOKUP_ROOT = 0" by (simp add: vfs_simps)
  then show "with_root (flags OR LOOKUP_RCU) = with_root flags" "with_root (flags OR LOOKUP_REVAL) = with_root flags"
    by (simp_all add: with_root_def flag_bits flag_disjoint)
qed

lemma balanced_trans:
  assumes "balanced flags S e p T" "e \<noteq> 0" "balanced flags T e' p' U"
  shows "balanced flags S e' p' U"
  using assms by (auto simp: balanced_def)

lemma with_retries_safe:
  assumes walk: "\<And>flags S. begin_ok S \<Longrightarrow> (with_root flags \<longrightarrow> root_ok E (nd_root S)) \<Longrightarrow> safe (\<lambda>(e, p, T). balanced flags S e p T) (walk flags S)"
    and S: "begin_ok S" "with_root flags \<longrightarrow> root_ok E (nd_root S)"
  shows "safe (\<lambda>(e, p, T). balanced flags S e p T) (with_retries walk flags S)"
proof -
  have step: "safe (\<lambda>(e, p, T). balanced flags S e p T) (walk g T)"
    if "balanced flags S e p T" "e \<noteq> 0" "with_root g = with_root flags" for e p T g
    by (rule safe_mono [OF walk])
      (use that S(2) balanced_trans [OF that(1,2)] in \<open>auto simp: balanced_def [of flags S e p T] balanced_def [of g] balanced_def [of flags T]\<close>)
  have first: "safe (\<lambda>(e, p, T). balanced flags S e p T) (walk (flags OR LOOKUP_RCU) S)"
    by (rule safe_mono [OF walk [OF S(1)]]) (use S(2) in \<open>auto simp: balanced_def\<close>)
  have second: "safe (\<lambda>(e, p, T). balanced flags S e p T) (if e = - ECHILD then walk flags T else Inr (e, p, T))"
    if "balanced flags S e p T" for e p T
    using step [OF that] that by (auto simp: ECHILD_def)
  have third: "safe (\<lambda>(e, p, T). balanced flags S e p T) (if e = - ESTALE then walk (flags OR LOOKUP_REVAL) T else Inr (e, p, T))"
    if "balanced flags S e p T" for e p T
    using step [OF that] that by (auto simp: ESTALE_def)
  show ?thesis
    unfolding with_retries_def
    by (rule safe_seq [OF first], elim case_prodE, simp only: prod.case, rule safe_seq [OF second], assumption,
        elim case_prodE, simp only: prod.case, rule third)
qed

end
