(* ===== verification/Walk_Static.thy ===== *)
theory Walk_Static
  imports Walk_End
begin

text \<open>
  What a walk computes when nothing interferes: a tree of dentries that is in the cache, on one mount,
  without links, and no other task at work. There a walk never leaves RCU mode before its end, and
  \<open>filename_lookup\<close> returns the dentry that the components of the name lead to one by one.
\<close>

section \<open>Operations that return\<close>

definition runs :: "('a \<Rightarrow> bool) \<Rightarrow> 'a res \<Rightarrow> bool" where
  "runs Q r = (case r of Inl e \<Rightarrow> False | Inr x \<Rightarrow> Q x)"

lemma runs_Inr [simp]: "runs Q (Inr x) = Q x"
  by (simp add: runs_def)

lemma runs_bind [simp]: "runs Q (bind_res m f) = runs (\<lambda>x. runs Q (f x)) m"
  by (cases m) (simp_all add: runs_def)

lemma runs_mono: "runs R r \<Longrightarrow> (\<And>x. R x \<Longrightarrow> Q x) \<Longrightarrow> runs Q r"
  by (cases r) (simp_all add: runs_def)

lemma runs_seq: "runs R m \<Longrightarrow> (\<And>x. R x \<Longrightarrow> runs Q (f x)) \<Longrightarrow> runs Q (bind_res m f)"
  by (cases m) (simp_all add: runs_def)

lemma runsD: "runs Q r \<Longrightarrow> \<exists>x. r = Inr x \<and> Q x"
  by (cases r) (simp_all add: runs_def)

lemma runs_null [simp]: "runs Q (null_ok p) \<longleftrightarrow> (\<exists>a. p = Some a \<and> Q a)"
  by (cases p) (simp_all add: null_ok_def runs_def)

section \<open>Names and what they mean\<close>

definition valid_component :: "bytes \<Rightarrow> bool" where
  "valid_component c \<longleftrightarrow> c \<noteq> [] \<and> 0 \<notin> set c \<and> 47 \<notin> set c"

fun rel_path :: "bytes list \<Rightarrow> bytes" where
  "rel_path [] = [0]"
| "rel_path [c] = c @ [0]"
| "rel_path (c # cs) = c @ 47 # rel_path cs"

definition abs_path :: "bytes list \<Rightarrow> bytes" where
  "abs_path cs = 47 # rel_path cs"

definition name_type :: "bytes \<Rightarrow> last_type" where
  "name_type c = (if c = [46] then LAST_DOT else if c = [46, 46] then LAST_DOTDOT else LAST_NORM)"

text \<open>The directory a component leads to: itself, the parent, or an entry.\<close>

definition walk_to :: "(nat \<Rightarrow> bytes \<Rightarrow> nat option) \<Rightarrow> (nat \<Rightarrow> nat) \<Rightarrow> nat \<Rightarrow> bytes \<Rightarrow> nat \<Rightarrow> nat option" where
  "walk_to child up r c d =
     (if c = [46] then Some d else if c = [46, 46] then Some (if d = r then d else up d) else child d c)"

text \<open>Every component but the last must lead to a directory.\<close>

fun resolve :: "(nat \<Rightarrow> bytes \<Rightarrow> nat option) \<Rightarrow> (nat \<Rightarrow> nat) \<Rightarrow> (nat \<Rightarrow> bool) \<Rightarrow> nat \<Rightarrow> bytes list \<Rightarrow> nat \<Rightarrow> nat option" where
  "resolve child up isdir r [] d = Some d"
| "resolve child up isdir r (c # cs) d =
     (if \<not> isdir d then None
      else case walk_to child up r c d of None \<Rightarrow> None | Some e \<Rightarrow> resolve child up isdir r cs e)"

section \<open>A quiet kernel\<close>

definition place_on :: "nat \<Rightarrow> nat \<Rightarrow> vpath" where
  "place_on m d = \<lparr>p_mnt = Some m, p_dentry = Some d\<rparr>"

definition node_isdir :: "('k, 'a) walk_env \<Rightarrow> 'k \<Rightarrow> nat \<Rightarrow> bool" where
  "node_isdir E w d \<longleftrightarrow> kd_type (w_dentry E w d) = DirectoryType"

definition node_up :: "('k, 'a) walk_env \<Rightarrow> 'k \<Rightarrow> nat \<Rightarrow> nat" where
  "node_up E w d = kd_parent (w_dentry E w d)"

definition plain :: "kdentry \<Rightarrow> bool" where
  "plain k \<longleftrightarrow> kd_inode k \<noteq> None \<and> kd_type k \<noteq> MissType \<and> kd_type k \<noteq> SymlinkType \<and> \<not> kd_op_hash k \<and> \<not> kd_op_revalidate k \<and>
     \<not> kd_op_weak_revalidate k \<and> \<not> kd_manage_transit k \<and> \<not> kd_mounted k \<and> \<not> kd_need_automount k"

text \<open>The tree: its dentries, which stay as they are, and its mount.\<close>

definition tree_still :: "('k, 'a) walk_env \<Rightarrow> 'k \<Rightarrow> nat \<Rightarrow> nat \<Rightarrow> nat set \<Rightarrow> (nat \<Rightarrow> bytes \<Rightarrow> nat option) \<Rightarrow> bool" where
  "tree_still E w m r D child \<longleftrightarrow> r \<in> D \<and> kd_type (w_dentry E w r) = DirectoryType \<and> k_fs_root E w = \<lparr>p_mnt = Some m, p_dentry = Some r\<rparr> \<and>
     mnt_root (w_mount E w m) = r \<and> mnt_sb_root (w_mount E w m) = r \<and> \<not> mnt_sb_multiroot (w_mount E w m) \<and>
     (\<forall>d\<in>D. plain (w_dentry E w d) \<and> kd_parent (w_dentry E w d) \<in> D \<and> (\<forall>c e. child d c = Some e \<longrightarrow> e \<in> D))"

text \<open>The answers: the cache knows the children, no sequence number changes, directories may be searched.\<close>

definition answers_still :: "('k, 'a) walk_env \<Rightarrow> 'k \<Rightarrow> nat \<Rightarrow> nat set \<Rightarrow> (nat \<Rightarrow> bytes \<Rightarrow> nat option) \<Rightarrow> bool" where
  "answers_still E w m D child \<longleftrightarrow>
     (\<forall>d\<in>D. \<forall>h s. snd (k_d_lookup_rcu E d h s w) = w \<and> map_option fst (fst (k_d_lookup_rcu E d h s w)) = child d (take (hashlen_len h) s)) \<and>
     (\<forall>d q. k_d_seq_retry E d q w = (False, w)) \<and> (\<forall>d. snd (k_d_seq_begin E d w) = w) \<and>
     (\<forall>q. k_mount_seq_retry E q w = (False, w)) \<and> snd (k_mount_seq_begin E w) = w \<and> k_fs_seq_retry E w = (False, w) \<and>
     (\<forall>q. k_legitimize_mnt E m q w = (0, w)) \<and> (\<forall>d\<in>D. k_lockref_get E d w = (True, w)) \<and>
     (\<forall>d\<in>D. \<forall>i. kd_type (w_dentry E w d) = DirectoryType \<and> kd_inode (w_dentry E w d) = Some i \<longrightarrow>
        inode_permission (w_cred E) (w_inode E w i) (MAY_EXEC OR MAY_NOT_BLOCK) = (0, w_inode E w i) \<and> w_put_inode E i (w_inode E w i) w = w)"

definition quiet :: "('k, 'a) walk_env \<Rightarrow> 'k \<Rightarrow> nat \<Rightarrow> nat \<Rightarrow> nat set \<Rightarrow> (nat \<Rightarrow> bytes \<Rightarrow> nat option) \<Rightarrow> bool" where
  "quiet E w m r D child \<longleftrightarrow> tree_still E w m r D child \<and> answers_still E w m D child \<and> hash_ok E"

locale quiet_kernel =
  fixes E :: "('k, 'a) walk_env" and w :: 'k and m r :: nat and D :: "nat set" and child :: "nat \<Rightarrow> bytes \<Rightarrow> nat option"
  assumes quiet: "quiet E w m r D child"
begin

abbreviation place :: "nat \<Rightarrow> vpath" where
  "place \<equiv> place_on m"

abbreviation isdir :: "nat \<Rightarrow> bool" where
  "isdir \<equiv> node_isdir E w"

abbreviation up :: "nat \<Rightarrow> nat" where
  "up \<equiv> node_up E w"

text \<open>The walk is in RCU mode at \<open>d\<close> with no links on its stack.\<close>

definition cursor :: "u32 \<Rightarrow> 'k walk \<Rightarrow> nat \<Rightarrow> bool" where
  "cursor g S d \<longleftrightarrow> d \<in> D \<and> in_rcu S \<and> \<not> has_root_flag S \<and> world S = w \<and> nd_path S = place d \<and> nd_root S = place r \<and> nd_depth S = 0 \<and>
     nd_inode S = kd_inode (w_dentry E w d) \<and> nd_flags S AND LOOKUP_DIRECTORY = g"

lemma tree:
  "r \<in> D" "kd_type (w_dentry E w r) = DirectoryType" "k_fs_root E w = place r" "mnt_root (w_mount E w m) = r"
  "mnt_sb_root (w_mount E w m) = r" "\<not> mnt_sb_multiroot (w_mount E w m)"
  using quiet by (simp_all add: quiet_def tree_still_def place_on_def)

lemma node:
  assumes "d \<in> D"
  shows "plain (w_dentry E w d)" "up d \<in> D" "child d c = Some e \<Longrightarrow> e \<in> D"
  using quiet assms by (auto simp: quiet_def tree_still_def node_up_def)

lemma answers [simp]:
  "k_d_seq_retry E d q w = (False, w)" "snd (k_d_seq_begin E d w) = w" "k_mount_seq_retry E q w = (False, w)" "snd (k_mount_seq_begin E w) = w"
  "k_fs_seq_retry E w = (False, w)" "k_legitimize_mnt E m q w = (0, w)" "d \<in> D \<Longrightarrow> k_lockref_get E d w = (True, w)"
  using quiet by (simp_all add: quiet_def answers_still_def)

lemma cached:
  assumes "d \<in> D" "child d (take (hashlen_len h) s) = Some e"
  shows "\<exists>q. k_d_lookup_rcu E d h s w = (Some (e, q), w)"
proof -
  have "snd (k_d_lookup_rcu E d h s w) = w \<and> map_option fst (fst (k_d_lookup_rcu E d h s w)) = Some e"
    using quiet assms by (simp add: quiet_def answers_still_def)
  then show ?thesis by (cases "k_d_lookup_rcu E d h s w") auto
qed

lemma searchable:
  assumes "d \<in> D" "isdir d" "kd_inode (w_dentry E w d) = Some i"
  shows "inode_permission (w_cred E) (w_inode E w i) (MAY_EXEC OR MAY_NOT_BLOCK) = (0, w_inode E w i)" "w_put_inode E i (w_inode E w i) w = w"
  using quiet assms by (auto simp: quiet_def answers_still_def node_isdir_def)

lemma cursor_frame [simp]:
  "cursor g (S\<lparr>nd_seq := q\<rparr>) d = cursor g S d" "cursor g (S\<lparr>nd_last_hash := h, nd_last_name := nm, nd_last_type := t\<rparr>) d = cursor g S d"
  "cursor g (S\<lparr>nd_m_seq := q\<rparr>) d = cursor g S d"
  by (simp_all add: cursor_def in_rcu_def has_root_flag_def)

definition quiet_flags :: "u32 \<Rightarrow> u32 \<Rightarrow> bool" where
  "quiet_flags g f \<longleftrightarrow> same_mode g f \<and> g AND LOOKUP_DIRECTORY = f AND LOOKUP_DIRECTORY"

lemma quiet_flags [simp]:
  "quiet_flags (f OR LOOKUP_JUMPED) f" "quiet_flags (f AND NOT LOOKUP_JUMPED) f" "quiet_flags (f AND NOT LOOKUP_PARENT) f"
proof -
  have "LOOKUP_JUMPED AND LOOKUP_DIRECTORY = 0" "LOOKUP_PARENT AND LOOKUP_DIRECTORY = 0" by (simp_all add: vfs_simps)
  then show "quiet_flags (f OR LOOKUP_JUMPED) f" "quiet_flags (f AND NOT LOOKUP_JUMPED) f" "quiet_flags (f AND NOT LOOKUP_PARENT) f"
    by (simp_all add: quiet_flags_def flag_bits)
qed

lemma cursor_flags: "quiet_flags g' (nd_flags S) \<Longrightarrow> cursor g (S\<lparr>nd_flags := g'\<rparr>) d = cursor g S d"
  using flags_mode [of g' S] by (simp add: cursor_def quiet_flags_def)

text \<open>Moving to another dentry of the tree.\<close>

lemma cursor_move:
  assumes "cursor g S d" "e \<in> D"
  shows "cursor g (S\<lparr>nd_path := place e, nd_inode := kd_inode (w_dentry E w e)\<rparr>) e"
  using assms by (simp add: cursor_def) (simp add: has_root_flag_def)

section \<open>A component\<close>

definition last_is :: "'k walk \<Rightarrow> bytes \<Rightarrow> bool" where
  "last_is S c \<longleftrightarrow> nd_last_type S = name_type c \<and> take (hashlen_len (nd_last_hash S)) (nd_last_name S) = c"

text \<open>Nothing but the end of the string follows.\<close>

definition name_end :: "'k walk \<Rightarrow> bytes \<Rightarrow> bool" where
  "name_end S c \<longleftrightarrow> last_is S c \<and> drop (hashlen_len (nd_last_hash S)) (nd_last_name S) = [0]"

lemma last_is_frame [simp]: "last_is (S\<lparr>nd_flags := g\<rparr>) c = last_is S c"
  by (simp add: last_is_def)

lemma may_lookup_runs:
  assumes "cursor g S d" "isdir d"
  shows "may_lookup E S = Inr (0, S)"
proof -
  have S: "d \<in> D" "in_rcu S" "world S = w" "nd_inode S = kd_inode (w_dentry E w d)" using assms(1) by (simp_all add: cursor_def)
  obtain i where i: "kd_inode (w_dentry E w d) = Some i" using node(1) [OF S(1)] by (auto simp: plain_def)
  show ?thesis
    using S i searchable [OF S(1) assms(2) i] by (simp add: may_lookup_def walk_permission_def null_ok_def ECHILD_def)
qed

lemma step_fast:
  assumes "cursor g S d" "child d (take (hashlen_len (nd_last_hash S)) (nd_last_name S)) = Some e" "0 < w_fuel E"
  shows "\<exists>q. lookup_fast E S = Inr (1, place e, kd_inode (w_dentry E w e), q, S)"
proof -
  have S: "d \<in> D" "in_rcu S" "world S = w" "nd_path S = place d" using assms(1) by (simp_all add: cursor_def)
  obtain q where q: "k_d_lookup_rcu E d (nd_last_hash S) (nd_last_name S) w = (Some (e, q), w)" using cached [OF S(1) assms(2)] by blast
  have e: "plain (w_dentry E w e)" by (rule node(1) [OF node(3) [OF S(1) assms(2)]])
  obtain n where n: "w_fuel E = Suc n" using assms(3) by (cases "w_fuel E") auto
  show ?thesis
    using S q e
    by (simp add: lookup_fast_def kop_eq null_ok_def place_on_def revalidate_def plain_def n managed_dentry_rcu_def EISDIR_def Let_def)
qed

lemma step_into_runs:
  assumes "cursor g S d" "e \<in> D"
  shows "runs (\<lambda>(err, T). err = 0 \<and> cursor g T e) (step_into E follow walk_more (place e) (kd_inode (w_dentry E w e)) q S)"
proof -
  have S: "in_rcu S" "world S = w" "nd_depth S = 0" using assms(1) by (simp_all add: cursor_def)
  have e: "kd_type (w_dentry E w e) \<noteq> SymlinkType" using node(1) [OF assms(2)] by (simp add: plain_def)
  have "path_to_nameidata (place e) S = S\<lparr>nd_path := place e\<rparr>" using S(1) by (simp add: path_to_nameidata_def Let_def)
  then show ?thesis
    using S e cursor_move [OF assms] by (simp add: step_into_def null_ok_def) (simp add: place_on_def)
qed

lemma dotdot_runs:
  assumes "cursor g S d" "0 < w_fuel E"
  shows "runs (\<lambda>(err, T). err = 0 \<and> cursor g T (if d = r then d else up d)) (follow_dotdot_rcu E S)"
proof -
  have S: "d \<in> D" "in_rcu S" "world S = w" "nd_path S = place d" "nd_root S = place r" "nd_inode S = kd_inode (w_dentry E w d)"
    using assms(1) by (simp_all add: cursor_def)
  obtain n where n: "w_fuel E = Suc n" using assms(2) by (cases "w_fuel E") auto
  have dm: "\<not> kd_mounted (w_dentry E w d)" "\<not> kd_mounted (w_dentry E w (up d))"
    using node(1) [OF S(1)] node(1) [OF node(2) [OF S(1)]] by (simp_all add: plain_def)
  show ?thesis
  proof (cases "d = r")
    case True
    have "cursor g (S\<lparr>nd_inode := kd_inode (w_dentry E w d)\<rparr>) d"
      using assms(1) by (simp add: cursor_def) (simp add: has_root_flag_def)
    then show ?thesis using S dm True by (simp add: follow_dotdot_rcu_def n null_ok_def place_on_def)
  next
    case False
    have "cursor g (S\<lparr>world := w, nd_path := place (up d), nd_seq := q, nd_inode := kd_inode (w_dentry E w (up d))\<rparr>) (up d)" for q
      using assms(1) node(2) [OF S(1)] by (simp add: cursor_def) (simp add: in_rcu_def has_root_flag_def)
    then show ?thesis
      using S dm False tree by (simp add: follow_dotdot_rcu_def n null_ok_def kop_eq path_connected_def node_up_def place_on_def Let_def)
  qed
qed

lemma walk_component_runs:
  assumes "cursor g S d" "last_is S c" "walk_to child up r c d = Some e" "0 < w_fuel E"
  shows "runs (\<lambda>(err, T). err = 0 \<and> cursor g T e) (walk_component E follow walk_more S)"
proof -
  have depth: "nd_depth T = 0" if "cursor g T a" for T a using that by (simp add: cursor_def)
  have S: "d \<in> D" "in_rcu S" "nd_root S = place r" using assms(1) by (simp_all add: cursor_def)
  consider "c = [46]" | "c = [46, 46]" | "name_type c = LAST_NORM" unfolding name_type_def by presburger
  then show ?thesis
  proof cases
    case 1
    then show ?thesis using assms(1-3) depth by (auto simp: walk_component_def last_is_def name_type_def handle_dots_def walk_to_def)
  next
    case 2
    have "runs (\<lambda>(err, T). err = 0 \<and> cursor g T e \<and> nd_depth T = 0) (follow_dotdot_rcu E S)"
      using dotdot_runs [OF assms(1,4)] by (rule runs_mono) (use 2 assms(3) depth in \<open>auto simp: walk_to_def split: if_splits\<close>)
    then show ?thesis
      using 2 assms(2) S by (auto simp: walk_component_def last_is_def name_type_def handle_dots_def place_on_def elim!: runs_mono)
  next
    case 3
    then have c: "child d (take (hashlen_len (nd_last_hash S)) (nd_last_name S)) = Some e"
      using assms(2,3) by (auto simp: last_is_def walk_to_def name_type_def split: if_splits)
    obtain q where "lookup_fast E S = Inr (1, place e, kd_inode (w_dentry E w e), q, S)" using step_fast [OF assms(1) c assms(4)] by blast
    then show ?thesis
      using 3 assms(2) step_into_runs [OF assms(1) node(3) [OF S(1) c]] by (simp add: walk_component_def last_is_def)
  qed
qed

section \<open>A name\<close>

lemma component_at:
  assumes "valid_component c" "x = 0 \<or> x = 47" "length c + length t < PATH_MAX" "x = 0 \<or> 0 \<in> set t"
  shows "component (c @ x # t)" "component_length (c @ x # t) = length c"
proof -
  have c: "c \<noteq> []" "\<forall>y\<in>set c. y \<noteq> 0 \<and> y \<noteq> 47" using assms(1) by (auto simp: valid_component_def)
  then have "hd (c @ x # t) \<noteq> 0 \<and> hd (c @ x # t) \<noteq> 47" by (cases c) auto
  then show "component (c @ x # t)" using assms(3,4) by (auto simp: component_def cstring_def)
  show "component_length (c @ x # t) = length c"
    using c(2) assms(2) by (auto simp: component_length_def takeWhile_append2)
qed

lemma component_type_name:
  assumes "valid_component c"
  shows "component_type (c @ x # t) (length c) = Inr (name_type c)"
proof -
  consider a where "c = [a]" | a b where "c = [a, b]" | a b d u where "c = a # b # d # u"
    using assms by (cases c; cases "tl c"; cases "tl (tl c)") (auto simp: valid_component_def)
  then show ?thesis by cases (auto simp: component_type_def char_at_def name_type_def)
qed

lemma next_component_runs:
  assumes "cursor g S d" "isdir d" "valid_component c" "x = 0 \<and> t = [] \<or> x = 47 \<and> 0 \<in> set t \<and> hd t \<noteq> 47" "length c + length t < PATH_MAX"
  shows "runs (\<lambda>(err, s, T). err = 0 \<and> s = (if x = 0 then [0] else t) \<and> cursor g T d \<and> last_is T c \<and>
    drop (hashlen_len (nd_last_hash T)) (nd_last_name T) = x # t) (next_component E (c @ x # t) S)"
proof -
  let ?salt = "case p_dentry (nd_path S) of None \<Rightarrow> (0 :: u64) | Some d \<Rightarrow> of_nat d"
  have x: "x = 0 \<or> x = 47" "x = 0 \<or> 0 \<in> set t" using assms(4) by auto
  note c = component_at [OF assms(3) x(1) assms(5) x(2)]
  obtain h where h: "k_hash_name E ?salt (c @ x # t) = Inr h" "hashlen_len h = length c"
    using quiet c unfolding quiet_def hash_ok_def by metis
  have S: "d \<in> D" "world S = w" "p_dentry (nd_path S) = Some d" using assms(1) by (simp_all add: cursor_def place_on_def)
  have skip: "skip_slashes t = Inr t" if "x = 47" using assms(4) that by (cases t) auto
  have cls: "\<exists>T. classify E (name_type c) (c @ x # t) h S = Inr (0, h, c @ x # t, T) \<and> cursor g T d"
  proof -
    have "\<not> kd_op_hash (w_dentry E w d)" using node(1) [OF S(1)] by (simp add: plain_def)
    then show ?thesis
      using S assms(1) by (simp add: classify_def null_ok_def cursor_flags Let_def)
  qed
  then obtain T where T: "classify E (name_type c) (c @ x # t) h S = Inr (0, h, c @ x # t, T)" "cursor g T d" by blast
  have adv: "advance (hashlen_len h) (c @ x # t) = Inr (x # t)" by (simp add: advance_def h(2))
  have tail: "bind_res (if x = 0 then Inr (x # t) else skip_slashes (tl (x # t))) f = f (if x = 0 then [0] else t)" for f :: "bytes \<Rightarrow> 'b res"
    using assms(4) skip by auto
  show ?thesis
    unfolding next_component_def may_lookup_runs [OF assms(1,2)] bind_res_Inr prod.case
    by (simp add: h component_type_name [OF assms(3)] T adv [unfolded h(2)] char_at_def tail [simplified] last_is_def split del: if_split)
qed

lemma rel_path_form: "cs \<noteq> [] \<Longrightarrow> \<forall>c\<in>set cs. valid_component c \<Longrightarrow> 0 \<in> set (rel_path cs) \<and> hd (rel_path cs) \<noteq> 47 \<and> hd (rel_path cs) \<noteq> 0"
  by (induction cs rule: rel_path.induct) (auto simp: valid_component_def hd_append dest: hd_in_set)

lemma resolve_isdir: "resolve child up isdir r cs d = Some e \<Longrightarrow> isdir e \<Longrightarrow> isdir d"
  by (cases cs) (auto split: if_splits)

lemma resolve_snoc:
  "resolve child up isdir r (cs @ [c]) d = Some t \<longleftrightarrow>
   (\<exists>e. resolve child up isdir r cs d = Some e \<and> isdir e \<and> walk_to child up r c e = Some t)"
  by (induction cs arbitrary: d) (auto split: option.splits)

text \<open>The walk stops in front of the last component, in the directory the others lead to.\<close>

lemma walk_loop_runs:
  "cursor g S d \<Longrightarrow> \<forall>c\<in>set cs. valid_component c \<Longrightarrow> cs \<noteq> [] \<Longrightarrow> length (rel_path cs) \<le> PATH_MAX \<Longrightarrow> length cs \<le> n \<Longrightarrow> 0 < w_fuel E \<Longrightarrow>
   resolve child up isdir r (butlast cs) d = Some e \<Longrightarrow> isdir e \<Longrightarrow>
   runs (\<lambda>(err, T). err = 0 \<and> cursor g T e \<and> last_is T (last cs) \<and> drop (hashlen_len (nd_last_hash T)) (nd_last_name T) = [0])
     (walk_loop E n (rel_path cs) S)"
proof (induction cs arbitrary: S d n rule: rel_path.induct)
  case 1
  then show ?case by simp
next
  case (2 c)
  then obtain n' where n: "n = Suc n'" by (cases n) auto
  have d: "isdir d" "e = d" using 2(7,8) by simp_all
  have c: "valid_component c" "length c + length [] < PATH_MAX" using 2 by simp_all
  have depth: "nd_depth T = 0" if "cursor g T d" for T using that by (simp add: cursor_def)
  show ?case
    unfolding n walk_loop.simps walk_round_def rel_path.simps bind_res_assoc
    by (rule runs_seq [OF next_component_runs [OF 2(1) d(1) c(1) _ c(2), of 0]])
      (use d(2) depth in \<open>auto simp: char_at_def\<close>)
next
  case (3 c c' cs)
  let ?t = "rel_path (c' # cs)"
  obtain n' where n: "n = Suc n'" using 3(6) by (cases n) auto
  obtain a where d: "isdir d" "walk_to child up r c d = Some a" "resolve child up isdir r (butlast (c' # cs)) a = Some e"
    using 3(8) by (auto split: if_splits option.splits)
  have a: "isdir a" by (rule resolve_isdir [OF d(3) 3(9)])
  have t: "0 \<in> set ?t \<and> hd ?t \<noteq> 47 \<and> hd ?t \<noteq> 0" by (rule rel_path_form) (use 3 in auto)
  have tn: "?t \<noteq> []" using t by auto
  have c: "valid_component c" "length c + length ?t < PATH_MAX" using 3(3,5) by simp_all
  have IH: "runs (\<lambda>(err, T). err = 0 \<and> cursor g T e \<and> last_is T (last (c' # cs)) \<and> drop (hashlen_len (nd_last_hash T)) (nd_last_name T) = [0])
      (walk_loop E n' ?t T)" if "cursor g T a" for T
    by (rule 3(1) [OF that]) (use 3 d(3) n in auto)
  have check: "check_dir E ?t T = Inr (Inr ?t, T)" if "cursor g T a" for T
    using that a by (simp add: check_dir_def cursor_def null_ok_def place_on_def node_isdir_def)
  have enter: "runs (\<lambda>(r, T). r = Inr ?t \<and> cursor g T a) (enter_component E True ?t U)" if "cursor g U d" "last_is U c" for U
    unfolding enter_component_def
    by (rule runs_seq [OF walk_component_runs [OF that d(2) 3(7)]]) (auto simp: check)
  have round: "runs (\<lambda>(r, T). r = Inr ?t \<and> cursor g T a) (walk_round E (c @ 47 # ?t) S)"
    unfolding walk_round_def
    by (rule runs_seq [OF next_component_runs [OF 3(2) d(1) c(1) _ c(2), of 47]])
      (use t tn enter in \<open>auto simp: char_at_hd simp del: rel_path.simps split del: if_split\<close>)
  show ?case
    unfolding n walk_loop.simps rel_path.simps
    by (rule runs_seq [OF round]) (use IH in auto)
qed

lemma link_path_walk_runs:
  assumes "cursor g S r" "\<forall>c\<in>set cs. valid_component c" "cs \<noteq> []" "length (rel_path cs) \<le> PATH_MAX" "length cs < w_fuel E"
    "resolve child up isdir r (butlast cs) r = Some e" "isdir e"
  shows "runs (\<lambda>(err, T). err = 0 \<and> cursor g T e \<and> last_is T (last cs) \<and> drop (hashlen_len (nd_last_hash T)) (nd_last_name T) = [0])
    (link_path_walk E (Inr (47 # rel_path cs)) S)"
proof -
  note form = rel_path_form [OF assms(3,2)]
  have ne: "rel_path cs \<noteq> []" using form by auto
  have skip: "skip_slashes (47 # rel_path cs) = Inr (rel_path cs)" using form ne by (cases "rel_path cs") auto
  show ?thesis
    using walk_loop_runs [OF assms(1-4) _ _ assms(6,7)] assms(5) form
    by (simp add: link_path_walk_def skip char_at_hd [OF ne] del: skip_slashes.simps)
qed

section \<open>The whole walk\<close>

lemma path_init_runs:
  assumes "world S = w" "nd_name S = 47 # s" "flags AND LOOKUP_RCU \<noteq> 0" "flags AND LOOKUP_ROOT = 0" "0 < w_fuel E"
  shows "runs (\<lambda>(v, T). v = Inr (47 # s) \<and> cursor (flags AND LOOKUP_DIRECTORY) T r \<and> nd_last_type T = LAST_ROOT) (path_init E flags S)"
proof -
  define K where "K = (begun flags S)\<lparr>nd_root := (nd_root S)\<lparr>p_mnt := None\<rparr>, nd_path := null_path\<rparr>"
  obtain n where n: "w_fuel E = Suc n" using assms(5) by (cases "w_fuel E") auto
  have dir: "LOOKUP_JUMPED AND LOOKUP_DIRECTORY = 0" "LOOKUP_PARENT AND LOOKUP_DIRECTORY = 0" by (simp_all add: vfs_simps)
  have K: "in_rcu K" "\<not> has_root_flag K" "world K = w" "nd_depth K = 0" "nd_flags K AND LOOKUP_DIRECTORY = flags AND LOOKUP_DIRECTORY" "nd_last_type K = LAST_ROOT"
    using assms(1,3,4) dir by (simp_all add: K_def with_root_def) (simp add: begun_def flag_bits)
  have U: "set_root E (K\<lparr>world := w, nd_m_seq := q\<rparr>) = Inr (K\<lparr>world := w, nd_m_seq := q, nd_root := place r, nd_root_seq := fst (k_d_seq_begin E r w)\<rparr>)" for q
    using K tree(3) by (simp add: set_root_def n null_ok_def kop_eq place_on_def Let_def)
  define V where "V = K\<lparr>world := w, nd_m_seq := fst (k_mount_seq_begin E w), nd_root := place r, nd_root_seq := fst (k_d_seq_begin E r w)\<rparr>"
  have V: "in_rcu V" "\<not> has_root_flag V" "world V = w" "nd_depth V = 0" "nd_flags V AND LOOKUP_DIRECTORY = flags AND LOOKUP_DIRECTORY" "nd_last_type V = LAST_ROOT"
      "nd_root V = place r"
    using K by (simp_all add: V_def) (simp add: has_root_flag_def)
  let ?W = "V\<lparr>nd_path := place r, nd_inode := kd_inode (w_dentry E w r), nd_seq := nd_root_seq V\<rparr>"
  have W: "cursor (flags AND LOOKUP_DIRECTORY) ?W r" using V tree(1) by (simp add: cursor_def) (simp add: has_root_flag_def)
  have "nd_jump_root E V = Inr (0, ?W\<lparr>nd_flags := nd_flags V OR LOOKUP_JUMPED\<rparr>)"
    using V by (simp add: nd_jump_root_def null_ok_def kop_eq place_on_def Let_def)
  moreover have "cursor (flags AND LOOKUP_DIRECTORY) (?W\<lparr>nd_flags := nd_flags V OR LOOKUP_JUMPED\<rparr>) r"
    using cursor_flags [of "nd_flags V OR LOOKUP_JUMPED" ?W] W by simp
  ultimately have jump: "runs (\<lambda>(v, T). v = Inr (47 # s) \<and> cursor (flags AND LOOKUP_DIRECTORY) T r \<and> nd_last_type T = LAST_ROOT)
      (bind_res (nd_jump_root E V) (\<lambda>(e, S). Inr (if e = 0 then Inr (47 # s) else Inl (- ECHILD), S)))"
    using V(6) by simp
  have z: "((47 :: u8) = 0) = False" by simp
  show ?thesis
    unfolding path_init_def Let_def assms(2) char_at_def list.case bind_res_Inr z if_False begun_def [symmetric] begun_sel K_def [symmetric] kop_eq prod.case K(3)
      answers U V_def [symmetric]
    using jump assms(4) by simp
qed

lemma lookup_last_runs:
  assumes "cursor g S d" "last_is S c" "walk_to child up r c d = Some e" "drop (hashlen_len (nd_last_hash S)) (nd_last_name S) = [0]" "0 < w_fuel E"
  shows "runs (\<lambda>(err, T). err = 0 \<and> cursor g T e) (lookup_last E S)"
proof -
  have "length (nd_last_name S) - hashlen_len (nd_last_hash S) = 1" using assms(4) by (metis length_Cons length_drop list.size(3) One_nat_def)
  then have "advance (hashlen_len (nd_last_hash S)) (nd_last_name S) = Inr [0]" using assms(4) by (simp add: advance_def)
  then show ?thesis
    using walk_component_runs [of g "S\<lparr>nd_flags := nd_flags S AND NOT LOOKUP_PARENT\<rparr>" d c e] assms
    by (simp add: lookup_last_def char_at_def cursor_flags)
qed

lemma last_root_runs:
  assumes "cursor g S d" "nd_last_type S = LAST_ROOT"
  shows "runs (\<lambda>(err, T). err = 0 \<and> cursor g T d) (lookup_last E S)"
proof -
  have "cursor g (S\<lparr>nd_flags := nd_flags S AND NOT LOOKUP_PARENT\<rparr>) d" using assms(1) by (simp add: cursor_flags)
  then show ?thesis using assms by (simp add: lookup_last_def walk_component_def handle_dots_def cursor_def)
qed

lemma walk_abs_runs:
  assumes "cursor g S r" "nd_last_type S = LAST_ROOT" "\<forall>c\<in>set cs. valid_component c" "length (rel_path cs) \<le> PATH_MAX" "length cs < w_fuel E"
    "resolve child up isdir r cs r = Some t"
  shows "runs (\<lambda>(err, T). err = 0 \<and> cursor g T t) (lookup_loop E (lookup_last E) (w_fuel E) (Inr (47 # rel_path cs)) S)"
proof -
  obtain n where n: "w_fuel E = Suc n" using assms(5) by (cases "w_fuel E") auto
  have t: "0 < w_fuel E" by (simp add: n)
  show ?thesis
  proof (cases "cs = []")
    case True
    then show ?thesis
      using last_root_runs [OF assms(1,2)] assms(6)
      by (auto simp: n link_path_walk_def char_at_def elim!: runs_mono)
  next
    case False
    obtain e where e: "resolve child up isdir r (butlast cs) r = Some e" "isdir e" "walk_to child up r (last cs) e = Some t"
      using assms(6) resolve_snoc [of "butlast cs" "last cs" r t] False by auto
    have last: "runs (\<lambda>(err, T). err = 0 \<and> cursor g T t) (lookup_last E T)"
      if "cursor g T e" "last_is T (last cs)" "drop (hashlen_len (nd_last_hash T)) (nd_last_name T) = [0]" for T
      by (rule lookup_last_runs [OF that(1,2) e(3) that(3) t])
    show ?thesis
      unfolding n lookup_loop.simps
      by (rule runs_seq [OF link_path_walk_runs [OF assms(1,3) False assms(4,5) e(1,2)]]) (auto elim!: runs_mono dest!: last)
  qed
qed

text \<open>Leaving RCU mode succeeds, and the walk hands its path over.\<close>

lemma complete_walk_runs:
  assumes "cursor g S d"
  shows "runs (\<lambda>(err, T). err = 0 \<and> world T = w \<and> nd_path T = place d \<and> nd_depth T = 0 \<and> nd_flags T AND LOOKUP_DIRECTORY = g) (complete_walk E S)"
proof -
  define U where "U = drop_root S"
  have U: "d \<in> D" "in_rcu U" "world U = w" "nd_path U = place d" "p_mnt (nd_root U) = None" "nd_depth U = 0" "nd_inode U = kd_inode (w_dentry E w d)"
      "nd_flags U AND LOOKUP_DIRECTORY = g"
    using assms by (simp_all add: U_def cursor_def drop_root_def)
  have fl: "nd_flags (clear_rcu U) AND LOOKUP_DIRECTORY = g"
    using U(8) flag_bits [of LOOKUP_RCU LOOKUP_DIRECTORY "nd_flags U"] by (simp add: clear_rcu_def vfs_simps)
  have un: "\<exists>T. unlazy_walk E U = Inr (0, T) \<and> world T = w \<and> nd_path T = place d \<and> nd_depth T = 0 \<and> nd_flags T AND LOOKUP_DIRECTORY = g"
    using U fl
    by (simp add: unlazy_walk_def legitimize_links_def legitimize_path_def legitimize_root_def kop_eq null_ok_def place_on_def Let_def
        clear_rcu_def rcu_read_unlock_def mntget_def dget_def)
  have "\<not> kd_op_weak_revalidate (w_dentry E w d)" using node(1) [OF U(1)] by (simp add: plain_def)
  moreover have "in_rcu S" "nd_path S = place d" using assms by (simp_all add: cursor_def)
  ultimately show ?thesis using un by (auto simp: complete_walk_def U_def [symmetric] null_ok_def place_on_def)
qed

lemma path_lookupat_runs:
  assumes "world S = w" "nd_name S = abs_path cs" "flags AND LOOKUP_RCU \<noteq> 0" "flags AND LOOKUP_ROOT = 0" "flags AND LOOKUP_DOWN = 0"
    "\<forall>c\<in>set cs. valid_component c" "length (rel_path cs) \<le> PATH_MAX" "length cs < w_fuel E"
    "resolve child up isdir r cs r = Some t" "flags AND LOOKUP_DIRECTORY \<noteq> 0 \<longrightarrow> isdir t"
  shows "runs (\<lambda>(err, p, T). err = 0 \<and> p = Some (place t)) (path_lookupat E flags S)"
proof -
  let ?g = "flags AND LOOKUP_DIRECTORY"
  have fin: "runs (\<lambda>(err, p, T). err = 0 \<and> p = Some (place t)) (finish_walk E 0 T)" if "nd_depth T = 0" "nd_path T = place t" for T
    using that by (auto simp: finish_walk_def terminate_walk_def drop_links_def Let_def place_on_def)
  have loop: "runs (\<lambda>(err, p, T). err = 0 \<and> p = Some (place t))
      (bind_res (lookup_loop E (lookup_last E) (w_fuel E) (Inr (47 # rel_path cs)) T) (\<lambda>(err, S).
       bind_res (if err = 0 then complete_walk E S else Inr (err, S)) (\<lambda>(err, S).
       bind_res (if err = 0 \<and> nd_flags S AND LOOKUP_DIRECTORY \<noteq> 0
                 then bind_res (null_ok (p_dentry (nd_path S))) (\<lambda>d. Inr (if kd_type (w_dentry E (world S) d) \<noteq> DirectoryType then - ENOTDIR else 0))
                 else Inr err) (\<lambda>err. finish_walk E err S))))" if T: "cursor ?g T r" "nd_last_type T = LAST_ROOT" for T
  proof -
    have "runs (\<lambda>(err, p, T). err = 0 \<and> p = Some (place t)) (bind_res (complete_walk E U) (\<lambda>(err, S).
       bind_res (if err = 0 \<and> nd_flags S AND LOOKUP_DIRECTORY \<noteq> 0
                 then bind_res (null_ok (p_dentry (nd_path S))) (\<lambda>d. Inr (if kd_type (w_dentry E (world S) d) \<noteq> DirectoryType then - ENOTDIR else 0))
                 else Inr err) (\<lambda>err. finish_walk E err S)))" if U: "cursor ?g U t" for U
      by (rule runs_seq [OF complete_walk_runs [OF U]])
        (use fin assms(10) in \<open>auto simp: null_ok_def place_on_def node_isdir_def\<close>)
    then show ?thesis
      by (intro runs_seq [OF walk_abs_runs [OF T assms(6-9)]]) (auto simp del: runs_bind)
  qed
  have "0 < w_fuel E" using assms(8) by simp
  then have init: "runs (\<lambda>(v, T). v = Inr (47 # rel_path cs) \<and> cursor ?g T r \<and> nd_last_type T = LAST_ROOT) (path_init E flags S)"
    using path_init_runs assms(1-4) by (simp add: abs_path_def)
  show ?thesis
    unfolding path_lookupat_def
    by (rule runs_seq [OF init]) (use loop assms(5) in \<open>auto simp del: runs_bind\<close>)
qed

lemma rcu_flags:
  "(flags OR LOOKUP_RCU) AND LOOKUP_RCU \<noteq> 0" "(flags OR LOOKUP_RCU) AND LOOKUP_ROOT = flags AND LOOKUP_ROOT"
  "(flags OR LOOKUP_RCU) AND LOOKUP_DOWN = flags AND LOOKUP_DOWN" "(flags OR LOOKUP_RCU) AND LOOKUP_DIRECTORY = flags AND LOOKUP_DIRECTORY"
proof -
  have "LOOKUP_RCU AND LOOKUP_ROOT = 0" "LOOKUP_RCU AND LOOKUP_DOWN = 0" "LOOKUP_RCU AND LOOKUP_DIRECTORY = 0" by (simp_all add: vfs_simps)
  then show "(flags OR LOOKUP_RCU) AND LOOKUP_ROOT = flags AND LOOKUP_ROOT"
    "(flags OR LOOKUP_RCU) AND LOOKUP_DOWN = flags AND LOOKUP_DOWN" "(flags OR LOOKUP_RCU) AND LOOKUP_DIRECTORY = flags AND LOOKUP_DIRECTORY"
    by (simp_all add: flag_bits)
  have "(flags OR LOOKUP_RCU) AND LOOKUP_RCU = LOOKUP_RCU" by (simp add: word_bw_comms word_ao_absorbs)
  then show "(flags OR LOOKUP_RCU) AND LOOKUP_RCU \<noteq> 0" by (simp add: vfs_simps)
qed

lemma filename_lookup_runs:
  assumes "world S = w" "flags AND LOOKUP_ROOT = 0" "flags AND LOOKUP_DOWN = 0"
    "\<forall>c\<in>set cs. valid_component c" "length (rel_path cs) \<le> PATH_MAX" "length cs < w_fuel E"
    "resolve child up isdir r cs r = Some t" "flags AND LOOKUP_DIRECTORY \<noteq> 0 \<longrightarrow> isdir t"
  shows "\<exists>old' T. filename_lookup E dfd (Inr (abs_path cs)) flags None old S = Inr (0, Some (place t), old', T)"
proof -
  let ?S = "set_nameidata E dfd (abs_path cs) old S"
  have "runs (\<lambda>(err, p, T). err = 0 \<and> p = Some (place t)) (path_lookupat E (flags OR LOOKUP_RCU) ?S)"
    by (rule path_lookupat_runs [OF _ _ rcu_flags(1) _ _ assms(4-7)])
      (use assms in \<open>simp_all add: set_nameidata_def rcu_flags\<close>)
  then have "\<exists>T. path_lookupat E (flags OR LOOKUP_RCU) ?S = Inr (0, Some (place t), T)" by (auto dest: runsD)
  then show ?thesis by (auto simp: filename_lookup_def with_retries_def ECHILD_def ESTALE_def restore_nameidata_def)
qed

text \<open>The parent of a name, with the last component for the caller.\<close>

lemma complete_walk_last:
  assumes "cursor g S e" "name_end S c"
  shows "runs (\<lambda>(err, T). err = 0 \<and> world T = w \<and> nd_path T = place e \<and> nd_depth T = 0 \<and> name_end T c) (complete_walk E S)"
proof -
  define U where "U = drop_root S"
  have U: "e \<in> D" "in_rcu U" "world U = w" "nd_path U = place e" "p_mnt (nd_root U) = None" "nd_depth U = 0" "nd_inode U = kd_inode (w_dentry E w e)"
      "name_end U c"
    using assms by (simp_all add: U_def cursor_def drop_root_def name_end_def last_is_def)
  have un: "\<exists>T. unlazy_walk E U = Inr (0, T) \<and> world T = w \<and> nd_path T = place e \<and> nd_depth T = 0 \<and> name_end T c"
    using U
    by (simp add: unlazy_walk_def legitimize_links_def legitimize_path_def legitimize_root_def kop_eq null_ok_def place_on_def Let_def
        clear_rcu_def rcu_read_unlock_def mntget_def dget_def name_end_def last_is_def)
  have "\<not> kd_op_weak_revalidate (w_dentry E w e)" using node(1) [OF U(1)] by (simp add: plain_def)
  moreover have "in_rcu S" "nd_path S = place e" using assms by (simp_all add: cursor_def)
  ultimately show ?thesis using un by (auto simp: complete_walk_def U_def [symmetric] null_ok_def place_on_def)
qed

lemma terminate_last:
  assumes "nd_depth T = 0" "name_end T c"
  shows "runs (\<lambda>U. name_end U c \<and> world U = world T) (terminate_walk E T)"
  using assms
  by (auto simp: terminate_walk_def drop_links_def Let_def name_end_def last_is_def path_put_def mntput_def dput_def drop_root_def clear_rcu_def rcu_read_unlock_def)

lemma path_parentat_runs:
  assumes "world S = w" "nd_name S = abs_path cs" "flags AND LOOKUP_RCU \<noteq> 0" "flags AND LOOKUP_ROOT = 0"
    "\<forall>c\<in>set cs. valid_component c" "cs \<noteq> []" "length (rel_path cs) \<le> PATH_MAX" "length cs < w_fuel E"
    "resolve child up isdir r (butlast cs) r = Some e" "isdir e"
  shows "runs (\<lambda>(err, p, T). err = 0 \<and> p = Some (place e) \<and> name_end T (last cs) \<and> world T = w) (path_parentat E flags S)"
proof -
  let ?Q = "\<lambda>(err, p, T). err = (0 :: int) \<and> p = Some (place e) \<and> name_end T (last cs) \<and> world T = w"
  have fin: "runs ?Q (finish_walk E 0 T)" if "nd_depth T = 0" "nd_path T = place e" "name_end T (last cs)" "world T = w" for T
    using terminate_last [of "T\<lparr>nd_path := null_path\<rparr>" "last cs"] that by (auto simp: finish_walk_def name_end_def last_is_def elim!: runs_mono)
  have comp: "runs ?Q (bind_res (complete_walk E T) (\<lambda>(err, S). finish_walk E err S))" if "cursor g T e" "name_end T (last cs)" for g T
    by (rule runs_seq [OF complete_walk_last [OF that]]) (use fin in auto)
  have walk: "runs ?Q (bind_res (link_path_walk E (Inr (47 # rel_path cs)) T) (\<lambda>(err, S).
      bind_res (if err = 0 then complete_walk E S else Inr (err, S)) (\<lambda>(err, S). finish_walk E err S)))" if "cursor g T r" for g T
    by (rule runs_seq [OF link_path_walk_runs [OF that assms(5-10)]]) (use comp in \<open>auto simp: name_end_def simp del: runs_bind\<close>)
  have "0 < w_fuel E" using assms(8) by simp
  then have init: "runs (\<lambda>(v, T). v = Inr (47 # rel_path cs) \<and> cursor (flags AND LOOKUP_DIRECTORY) T r \<and> nd_last_type T = LAST_ROOT) (path_init E flags S)"
    using path_init_runs assms(1-4) by (simp add: abs_path_def)
  show ?thesis
    unfolding path_parentat_def
    by (rule runs_seq [OF init]) (use walk in \<open>auto simp del: runs_bind\<close>)
qed

lemma filename_parentat_runs:
  assumes "world S = w" "flags AND LOOKUP_ROOT = 0"
    "\<forall>c\<in>set cs. valid_component c" "cs \<noteq> []" "length (rel_path cs) \<le> PATH_MAX" "length cs < w_fuel E"
    "resolve child up isdir r (butlast cs) r = Some e" "isdir e"
  shows "\<exists>h s old' T. filename_parentat E dfd (Inr (abs_path cs)) flags old S = Inr (0, Some (place e, h, s, name_type (last cs)), old', T) \<and>
    take (hashlen_len h) s = last cs \<and> drop (hashlen_len h) s = [0] \<and> world T = w"
proof -
  let ?S = "set_nameidata E dfd (abs_path cs) old S"
  have "runs (\<lambda>(err, p, T). err = 0 \<and> p = Some (place e) \<and> name_end T (last cs) \<and> world T = w) (path_parentat E (flags OR LOOKUP_RCU) ?S)"
    by (rule path_parentat_runs [OF _ _ rcu_flags(1) _ assms(3-8)]) (use assms in \<open>simp_all add: set_nameidata_def rcu_flags\<close>)
  then have "\<exists>T. path_parentat E (flags OR LOOKUP_RCU) ?S = Inr (0, Some (place e), T) \<and> name_end T (last cs) \<and> world T = w" by (auto dest: runsD)
  then show ?thesis
    by (auto simp: filename_parentat_def with_retries_def ECHILD_def ESTALE_def restore_nameidata_def name_end_def last_is_def)
qed

end

end
