(* ===== verification/Walk_Props.thy ===== *)
theory Walk_Props
  imports Walk_Static Vfs_Name_Props Vfs_Props
begin

text \<open>
  The properties of the path walk. The hash of a component, on which \<open>link_path_walk\<close> relies, is an
  interface that both configurations of \<open>hash_name\<close> provide. A small tree in a kernel where
  nothing else happens shows that the conditions on the rest of the kernel can be met.
\<close>

section \<open>The hash of a component\<close>

locale component_hash =
  fixes hash :: "u64 \<Rightarrow> bytes \<Rightarrow> u64 res"
  assumes hash_length: "component s \<Longrightarrow> \<exists>h. hash salt s = Inr h \<and> hashlen_len h = component_length s"
begin

lemma hash_ok_walk:
  assumes "k_hash_name E = hash" "\<And>d h s w. fst (fst (k_d_hash E d h s w)) < 0"
  shows "hash_ok E"
  using hash_length assms by (auto simp: hash_ok_def not_le [symmetric])

lemma first_component_nonempty:
  assumes "component s" "hash salt s = Inr h"
  shows "0 < hashlen_len h" "hashlen_len h < length s"
  using hash_length [OF assms(1), of salt] component_split(1,2) [OF assms(1)] assms(2) by auto

end

definition hashlen_law :: "(u32 \<Rightarrow> u64 \<Rightarrow> u64) \<Rightarrow> bool" where
  "hashlen_law f \<longleftrightarrow> (\<forall>h n. n < 2 ^ 32 \<longrightarrow> hashlen_len (f h n) = unat n)"

lemma hashlen_law_pack: "hashlen_law (\<lambda>h len. push_bit 32 len OR ucast h)"
proof -
  have "drop_bit 32 (push_bit 32 n OR ucast h) = n" if "n < 2 ^ 32" for n :: u64 and h :: u32
  proof (rule bit_word_eqI)
    fix i
    assume i: "i < LENGTH(64)"
    have "unat (take_bit 32 n) = unat n" using that by (simp add: unsigned_take_bit_eq take_bit_nat_eq_self word_less_nat_alt)
    then have "n = take_bit 32 n" by (simp add: word_unat_eq_iff)
    then have "bit n i \<Longrightarrow> i < 32" by (metis bit_take_bit_iff)
    then show "bit (drop_bit 32 (push_bit 32 n OR ucast h)) i = bit n i" using i by (auto simp: bit_simps dest: bit_imp_le_length)
  qed
  then show ?thesis by (simp add: hashlen_law_def hashlen_len_def)
qed

lemma component_form:
  assumes "component s"
  obtains c d t where "s = c @ d # t" "c \<noteq> []" "0 \<notin> set c" "47 \<notin> set c" "d = 0 \<or> d = 47" "length c = component_length s" "length c < 2 ^ 32"
proof -
  let ?P = "\<lambda>c :: u8. c \<noteq> 0 \<and> c \<noteq> 47"
  note split = component_split [OF assms]
  have d: "drop (component_length s) s = dropWhile ?P s" by (simp add: component_length_def dropWhile_eq_drop)
  obtain x t where x: "dropWhile ?P s = x # t" using split(3) unfolding d by (cases "dropWhile ?P s") auto
  show ?thesis
  proof (rule that [of "takeWhile ?P s" x t])
    show "s = takeWhile ?P s @ x # t" by (metis x takeWhile_dropWhile_id)
    show "takeWhile ?P s \<noteq> []" using split(1) by (auto simp: component_length_def)
    show "0 \<notin> set (takeWhile ?P s)" "47 \<notin> set (takeWhile ?P s)" by (auto dest: set_takeWhileD)
    show "x = 0 \<or> x = 47" using split(4) unfolding d x by simp
    show "length (takeWhile ?P s) = component_length s" by (simp add: component_length_def)
    show "length (takeWhile ?P s) < 2 ^ 32"
      using split(2) assms by (simp add: component_length_def component_def cstring_def PATH_MAX_def)
  qed
qed

lemma len_word: "n < 2 ^ 32 \<Longrightarrow> (of_nat n :: u64) < 2 ^ 32 \<and> unat (of_nat n :: u64) = n"
  by (simp add: word_less_nat_alt unat_of_nat)

lemma slow_hash_length:
  assumes "hashlen_law (hashlen_create_b B)" "component s"
  shows "\<exists>h. hash_name_slow B salt s = Inr h \<and> hashlen_len h = component_length s"
  using assms(2)
proof (rule component_form)
  fix c d t
  assume s: "s = c @ d # t" "c \<noteq> []" "0 \<notin> set c" "47 \<notin> set c" "d = 0 \<or> d = 47" "length c = component_length s" "length c < 2 ^ 32"
  have un: "unat (of_nat (length c) :: u32) = length c" using s(7) by (simp add: unat_of_nat)
  have "\<exists>h. hash_name_slow B salt s = Inr (hashlen_create_b B h (of_nat (length c)))"
    using hash_name_slow_matches [OF s(2,3,4,7,5), of B salt t "[]"] full_name_bytes_fold [of B c "[]"] s(1)
    by (auto simp: full_name_hash_slow_def un)
  then show ?thesis using assms(1) len_word [OF s(7)] s(6) by (auto simp: hashlen_law_def)
qed

lemma word_hash_length:
  assumes "word_ops_ok W" "hashlen_law (hashlen_create W)" "component s"
  shows "\<exists>h. hash_name W salt s = Some h \<and> hashlen_len h = component_length s"
  using assms(3)
proof (rule component_form)
  fix c d t
  assume s: "s = c @ d # t" "c \<noteq> []" "0 \<notin> set c" "47 \<notin> set c" "d = 0 \<or> d = 47" "length c = component_length s" "length c < 2 ^ 32"
  have "hash_name W salt s = Some (case ref_hash c 0 salt of (x, y) \<Rightarrow> hashlen_create W (fold_hash W x y) (of_nat (length c)))"
    using hash_name_loop_ref [OF assms(1), of 0 s c "d # t" 0 salt] s by (simp add: hash_name_def)
  then show ?thesis using assms(2) len_word [OF s(7)] s(6) by (auto simp: hashlen_law_def split: prod.splits)
qed

text \<open>The byte-wise operations as the kernel documents them, and both hashes as providers.\<close>

definition ref_byte_ops :: byte_ops where
  "ref_byte_ops = \<lparr>init_name_hash = (\<lambda>salt. salt), partial_name_hash = (\<lambda>c h. (h + push_bit 4 c + drop_bit 4 c) * 11),
     end_name_hash = (\<lambda>h. ucast (drop_bit 32 (h * 0x61C8864680B583EB))), hashlen_create_b = (\<lambda>h len. push_bit 32 len OR ucast h)\<rparr>"

definition word_hash :: "word_ops \<Rightarrow> u64 \<Rightarrow> bytes \<Rightarrow> u64 res" where
  "word_hash W salt s = (case hash_name W salt s of None \<Rightarrow> Inl Livelock | Some h \<Rightarrow> Inr h)"

interpretation byte_hash: component_hash "hash_name_slow ref_byte_ops"
  by unfold_locales (rule slow_hash_length, simp_all add: ref_byte_ops_def hashlen_law_pack)

interpretation word_hash: component_hash "word_hash ref_word_ops"
proof unfold_locales
  fix s salt
  assume "component s"
  then obtain h where "hash_name ref_word_ops salt s = Some h \<and> hashlen_len h = component_length s"
    using word_hash_length [OF ref_word_ops_ok, of s salt] hashlen_law_pack by (auto simp: ref_word_ops_def)
  then show "\<exists>h. word_hash ref_word_ops salt s = Inr h \<and> hashlen_len h = component_length s" by (simp add: word_hash_def)
qed

section \<open>A small tree\<close>

text \<open>The root with a directory \<open>a\<close> that holds a file \<open>b\<close>, on one mount, and an unused negative dentry; nothing ever changes.\<close>

definition demo_child :: "nat \<Rightarrow> bytes \<Rightarrow> nat option" where
  "demo_child d c = (if d = 0 \<and> c = [97] then Some 1 else if d = 1 \<and> c = [98] then Some 2 else None)"

definition demo_node :: "nat \<Rightarrow> kdentry" where
  "demo_node d = \<lparr>kd_inode = (if d = 3 then None else Some d), kd_parent = (if d = 2 then 1 else 0),
     kd_type = (if d = 2 then RegularType else if d = 3 then MissType else DirectoryType),
     kd_op_hash = False, kd_op_revalidate = False, kd_op_weak_revalidate = False, kd_manage_transit = False, kd_has_manage = False,
     kd_mounted = False, kd_need_automount = False, kd_has_automount = False\<rparr>"

definition demo_vinode :: vinode where
  "demo_vinode = \<lparr>v_mode = 0x41ED, v_uid = 0, v_gid = 0, v_flags = 0, v_opflags = 1\<rparr>"

definition demo_walk_env :: "(unit, unit) walk_env" where
  "demo_walk_env = \<lparr>w_fuel = 200000, w_cred = demo_venv, w_junk = \<lparr>s_link = null_path, s_done = None, s_name = None, s_seq = 0\<rparr>,
     w_inode = (\<lambda>_ _. demo_vinode), w_put_inode = (\<lambda>_ _ w. w), w_dentry = (\<lambda>_. demo_node),
     w_mount = (\<lambda>_ _. \<lparr>mnt_root = 0, mnt_parent = 0, mnt_mountpoint = 0, mnt_sb_multiroot = False, mnt_sb_root = 0\<rparr>),
     k_d_seq_begin = (\<lambda>_ w. (0, w)), k_d_seq_retry = (\<lambda>_ _ w. (False, w)), k_mount_seq_begin = (\<lambda>w. (0, w)),
     k_mount_seq_retry = (\<lambda>_ w. (False, w)), k_fs_seq_retry = (\<lambda>w. (False, w)), k_fs_root = (\<lambda>_. place_on 0 0), k_fs_pwd = (\<lambda>_. place_on 0 0),
     k_fd = (\<lambda>_ _. None), k_kmalloc = (\<lambda>w. (True, w)), k_legitimize_mnt = (\<lambda>_ _ w. (0, w)), k_legitimize_mnt_ok = (\<lambda>_ _ w. (True, w)),
     k_lockref_get = (\<lambda>_ w. (True, w)), k_d_lookup_rcu = (\<lambda>d h s w. (map_option (\<lambda>e. (e, 0)) (demo_child d (take (hashlen_len h) s)), w)),
     k_d_lookup = (\<lambda>d h s w. (demo_child d (take (hashlen_len h) s), w)), k_d_alloc_parallel = (\<lambda>_ _ _ w. (Inl (- ENOMEM), w)),
     k_d_in_lookup = (\<lambda>_ _. False), k_d_lookup_done = (\<lambda>_ w. w), k_iop_lookup = (\<lambda>_ _ _ w. (LookedNull, w)),
     k_d_revalidate = (\<lambda>_ _ w. (1, w)), k_d_weak_revalidate = (\<lambda>_ _ w. (1, w)), k_d_invalidate = (\<lambda>_ w. w),
     k_d_hash = (\<lambda>_ h s w. ((- 1, h, s), w)), k_d_manage = (\<lambda>_ _ w. (0, w)), k_d_automount = (\<lambda>_ w. (AutoNull, w)),
     k_finish_automount = (\<lambda>_ p w. ((0, p), w)), k_lookup_mnt = (\<lambda>_ w. (None, w)), k_lookup_mnt_rcu = (\<lambda>_ w. (None, w)),
     k_is_subdir = (\<lambda>_ _ w. (True, w)), k_dget_parent = (\<lambda>d w. (kd_parent (demo_node d), w)),
     k_atime_needs_update = (\<lambda>_ _ w. (False, w)), k_touch_atime = (\<lambda>_ w. w), k_follow_link = (\<lambda>_ _ _ w. (0, w)), k_i_link = (\<lambda>_ _. None),
     k_get_link = (\<lambda>_ _ w. ((LinkNull, None, None), w)), k_delayed_call = (\<lambda>_ w. w), k_hash_name = hash_name_slow ref_byte_ops\<rparr>"

lemma demo_hash: "hash_ok demo_walk_env"
  by (rule byte_hash.hash_ok_walk) (simp_all add: demo_walk_env_def)

lemma demo_env_ok: "env_ok demo_walk_env" "fuel_ok demo_walk_env"
  by (simp_all add: env_ok_def demo_hash)
    (simp_all add: fs_ok_def errs_ok_def links_ok_def fuel_ok_def demo_walk_env_def place_on_def ENOMEM_def MAXSYMLINKS_def PATH_MAX_def)

lemma demo_search: "inode_permission demo_venv demo_vinode (MAY_EXEC OR MAY_NOT_BLOCK) = (0, demo_vinode)"
  by (simp add: inode_permission_def sb_permission_def do_inode_permission_def generic_permission_def acl_permission_check_def Let_def
      demo_venv_def demo_vinode_def vfs_simps)

lemma demo_quiet: "quiet demo_walk_env () 0 0 {0, 1, 2} demo_child"
proof -
  have "tree_still demo_walk_env () 0 0 {0, 1, 2} demo_child"
    by (auto simp: tree_still_def demo_walk_env_def place_on_def demo_node_def plain_def demo_child_def)
  moreover have "answers_still demo_walk_env () 0 {0, 1, 2} demo_child"
    by (simp add: answers_still_def demo_walk_env_def demo_search option.map_comp comp_def option.map_ident)
  ultimately show ?thesis by (simp add: quiet_def demo_hash)
qed

interpretation demo: quiet_kernel demo_walk_env "()" 0 0 "{0, 1, 2}" demo_child
  by unfold_locales (rule demo_quiet)

definition demo_walk :: "unit walk" where
  "demo_walk = \<lparr>world = (), dref = (\<lambda>_. 0), mref = (\<lambda>_. 0), ishared = (\<lambda>_. 0), rcu_nest = 0, nd_path = null_path, nd_last_hash = 0, nd_last_name = [],
     nd_root = null_path, nd_inode = None, nd_flags = 0, nd_seq = 0, nd_m_seq = 0, nd_last_type = LAST_ROOT, nd_depth = 0, nd_total_link_count = 0,
     nd_stack = [], nd_heap = False, nd_link_inode = None, nd_root_seq = 0, nd_name = [], nd_dfd = 0\<rparr>"

lemma demo_lookup:
  "\<exists>old' T. filename_lookup demo_walk_env AT_FDCWD (Inr (abs_path [[97], [98]])) 0 None None demo_walk = Inr (0, Some (place_on 0 2), old', T)"
  by (rule demo.filename_lookup_runs)
    (simp_all add: valid_component_def PATH_MAX_def walk_to_def demo_child_def node_up_def node_isdir_def demo_node_def demo_walk_env_def demo_walk_def)

lemma demo_parent:
  "\<exists>h s old' T. filename_parentat demo_walk_env AT_FDCWD (Inr (abs_path [[97], [99]])) 0 None demo_walk = Inr (0, Some (place_on 0 1, h, s, LAST_NORM), old', T)"
  using demo.filename_parentat_runs [where S = demo_walk and flags = 0 and cs = "[[97], [99]]" and e = 1 and dfd = AT_FDCWD and old = None]
  by (auto simp: valid_component_def PATH_MAX_def walk_to_def demo_child_def node_up_def node_isdir_def demo_node_def demo_walk_env_def demo_walk_def name_type_def)

section \<open>Properties\<close>

text \<open>The references of the task in terms of its dentries and mounts.\<close>

lemma refs_split:
  assumes "\<And>x. refs T x = refs S x + (case p of None \<Rightarrow> 0 | Some q \<Rightarrow> path_refs q x)"
  shows "dref T d = dref S d + (if \<exists>q. p = Some q \<and> p_dentry q = Some d then 1 else 0)"
    "mref T k = mref S k + (if \<exists>q. p = Some q \<and> p_mnt q = Some k then 1 else 0)"
  using assms [of "Inl d"] assms [of "Inr k"]
  by (auto simp: refs_def path_refs_def d_ref_def m_ref_def split: option.splits if_splits)

lemma begin_nameidata:
  assumes "cstring s" "\<forall>n. old = Some n \<longrightarrow> 0 \<le> n"
  shows "begin_ok (set_nameidata E dfd s old S)"
  using assms by (simp add: begin_ok_def set_nameidata_def split: option.split)

lemma nameidata_refs:
  "refs U = refs S \<Longrightarrow> refs (set_nameidata E dfd s old U) = refs S"
  "rcu_nest U = rcu_nest S \<Longrightarrow> rcu_nest (set_nameidata E dfd s old U) = rcu_nest S"
  "ishared U = ishared S \<Longrightarrow> ishared (set_nameidata E dfd s old U) = ishared S"
  using refs_cong [of "set_nameidata E dfd s old U" U] by (simp_all add: set_nameidata_def)

lemma balanced_path: "balanced g U e (Some q) T \<Longrightarrow> e = 0" "balanced g U 0 p T \<Longrightarrow> \<exists>q. p = Some q"
  by (simp_all add: balanced_def)

lemma balanced_end:
  assumes "balanced flags U e p T" "refs U = refs S" "rcu_nest U = rcu_nest S" "ishared U = ishared S" "restore_nameidata old T = (old', V)"
  shows "(p \<noteq> None \<longleftrightarrow> e = 0) \<and> rcu_nest V = rcu_nest S \<and> ishared V = ishared S \<and>
    (\<forall>d. dref V d = dref S d + (if \<exists>q. p = Some q \<and> p_dentry q = Some d then 1 else 0)) \<and>
    (\<forall>m. mref V m = mref S m + (if \<exists>q. p = Some q \<and> p_mnt q = Some m then 1 else 0))"
proof -
  have V: "dref V = dref T" "mref V = mref T" "rcu_nest V = rcu_nest T" "ishared V = ishared T"
    using assms(5) by (auto simp: restore_nameidata_def split: if_splits)
  have "refs T x = refs S x + (case p of None \<Rightarrow> 0 | Some q \<Rightarrow> path_refs q x)" for x using assms(1,2) by (simp add: balanced_def)
  from refs_split [OF this] show ?thesis using assms(1,3,4) by (simp add: V balanced_def)
qed

text \<open>
  C4: A lookup by name, with all its retries, never reads or writes outside the stack of links or a
  string and is never kept going by its own loops, whatever the dcache, the mount table and the file
  systems answer: it can only fail to return because of a null pointer or a \<open>BUG_ON\<close> that such
  an answer leads to, or because another task makes it retry for ever. When it returns, it has a path
  exactly if the error code is 0, it holds one reference more to the dentry and to the mount of that
  path, and otherwise the references, shared inode locks and RCU read sections it held before.
\<close>
theorem filename_lookup_balanced:
  assumes "env_ok E" "fuel_ok E" "cstring s" "case root_arg of None \<Rightarrow> flags AND LOOKUP_ROOT = 0 | Some r \<Rightarrow> root_ok E r" "\<forall>n. old = Some n \<longrightarrow> 0 \<le> n"
  shows "case filename_lookup E dfd (Inr s) flags root_arg old S of
      Inl e \<Rightarrow> e \<in> {NullDeref, KernelBug, Livelock}
    | Inr (err, path, old', T) \<Rightarrow> (path \<noteq> None \<longleftrightarrow> err = 0) \<and> rcu_nest T = rcu_nest S \<and> ishared T = ishared S \<and>
        (\<forall>d. dref T d = dref S d + (if \<exists>p. path = Some p \<and> p_dentry p = Some d then 1 else 0)) \<and>
        (\<forall>m. mref T m = mref S m + (if \<exists>p. path = Some p \<and> p_mnt p = Some m then 1 else 0))"
proof -
  define f where "f = (case root_arg of None \<Rightarrow> flags | Some r \<Rightarrow> flags OR LOOKUP_ROOT)"
  define U where "U = (case root_arg of None \<Rightarrow> S | Some r \<Rightarrow> S\<lparr>nd_root := r\<rparr>)"
  have U: "refs (set_nameidata E dfd s old U) = refs S" "rcu_nest (set_nameidata E dfd s old U) = rcu_nest S" "ishared (set_nameidata E dfd s old U) = ishared S"
    by (rule nameidata_refs; simp add: U_def split: option.split)+
  have root: "with_root f \<longrightarrow> root_ok E (nd_root (set_nameidata E dfd s old U))"
    using assms(4) by (auto simp: f_def U_def with_root_def set_nameidata_def split: option.splits)
  have walk: "safe (\<lambda>(e, p, T). balanced f (set_nameidata E dfd s old U) e p T) (with_retries (path_lookupat E) f (set_nameidata E dfd s old U))"
    by (rule with_retries_safe [OF _ begin_nameidata [OF assms(3,5)] root]) (rule path_lookupat_safe [OF _ assms(1,2)])
  have eq: "filename_lookup E dfd (Inr s) flags root_arg old S =
      bind_res (with_retries (path_lookupat E) f (set_nameidata E dfd s old U)) (\<lambda>(retval, path, S).
      let (old, S) = restore_nameidata old S in Inr (retval, path, old, S))"
    by (simp add: filename_lookup_def f_def U_def split: option.split)
  show ?thesis
    unfolding eq using walk balanced_end [OF _ U, of f _ _ _ old]
    by (cases "with_retries (path_lookupat E) f (set_nameidata E dfd s old U)") (auto simp: Let_def dest: balanced_path split: prod.splits)
qed

text \<open>The walk of \<open>/a/b\<close> in the small tree.\<close>

theorem filename_lookup_balanced_witness:
  "\<exists>old' T. filename_lookup demo_walk_env AT_FDCWD (Inr (abs_path [[97], [98]])) 0 None None demo_walk = Inr (0, Some (place_on 0 2), old', T) \<and>
     dref T 2 = 1 \<and> dref T 1 = 0 \<and> mref T 0 = 1 \<and> rcu_nest T = 0"
proof -
  obtain old' T where T: "filename_lookup demo_walk_env AT_FDCWD (Inr (abs_path [[97], [98]])) 0 None None demo_walk = Inr (0, Some (place_on 0 2), old', T)"
    using demo_lookup by blast
  have "cstring (abs_path [[97], [98]])" by (simp add: abs_path_def cstring_def PATH_MAX_def)
  from filename_lookup_balanced [OF demo_env_ok this, where root_arg = None and flags = 0 and old = None and dfd = AT_FDCWD and S = demo_walk] T show ?thesis
    by (simp add: place_on_def demo_walk_def)
qed

text \<open>
  The lookup of the parent of a name, with all its retries, keeps the references, locks and read
  sections of the task in the same way: it returns the parent with one reference to its dentry and one to
  its mount if the error code is 0, and nothing otherwise.
\<close>
theorem filename_parentat_balanced:
  assumes "env_ok E" "fuel_ok E" "cstring s" "flags AND LOOKUP_ROOT = 0" "\<forall>n. old = Some n \<longrightarrow> 0 \<le> n"
  shows "case filename_parentat E dfd (Inr s) flags old S of
      Inl e \<Rightarrow> e \<in> {NullDeref, KernelBug, Livelock}
    | Inr (err, parent, old', T) \<Rightarrow> (parent \<noteq> None \<longleftrightarrow> err = 0) \<and> rcu_nest T = rcu_nest S \<and> ishared T = ishared S \<and>
        (\<forall>d. dref T d = dref S d + (if \<exists>p l. parent = Some (p, l) \<and> p_dentry p = Some d then 1 else 0)) \<and>
        (\<forall>m. mref T m = mref S m + (if \<exists>p l. parent = Some (p, l) \<and> p_mnt p = Some m then 1 else 0))"
proof -
  let ?S = "set_nameidata E dfd s old S"
  have U: "refs ?S = refs S" "rcu_nest ?S = rcu_nest S" "ishared ?S = ishared S" by (rule nameidata_refs; simp)+
  have walk: "safe (\<lambda>(e, p, T). balanced flags ?S e p T) (with_retries (path_parentat E) flags ?S)"
    by (rule with_retries_safe [OF path_parentat_safe [OF _ assms(1,2)] begin_nameidata [OF assms(3,5)]]) (use assms(4) in \<open>auto simp: with_root_def\<close>)
  have some: "(\<exists>p l. map_option (\<lambda>p. (p, f p)) path = Some (p, l) \<and> Q p) \<longleftrightarrow> (\<exists>p. path = Some p \<and> Q p)" for f :: "vpath \<Rightarrow> 'z" and path Q
    by (cases path) auto
  show ?thesis
    using walk balanced_end [OF _ U, of flags _ _ _ old]
    by (cases "with_retries (path_parentat E) flags ?S") (auto simp: filename_parentat_def Let_def some dest: balanced_path split: prod.splits)
qed

theorem filename_parentat_balanced_witness:
  "\<exists>h s old' T. filename_parentat demo_walk_env AT_FDCWD (Inr (abs_path [[97], [99]])) 0 None demo_walk = Inr (0, Some (place_on 0 1, h, s, LAST_NORM), old', T) \<and>
     dref T 1 = 1 \<and> dref T 0 = 0 \<and> mref T 0 = 1 \<and> rcu_nest T = 0"
proof -
  obtain h s old' T where T: "filename_parentat demo_walk_env AT_FDCWD (Inr (abs_path [[97], [99]])) 0 None demo_walk =
      Inr (0, Some (place_on 0 1, h, s, LAST_NORM), old', T)"
    using demo_parent by blast
  have "cstring (abs_path [[97], [99]])" by (simp add: abs_path_def cstring_def PATH_MAX_def)
  from filename_parentat_balanced [OF demo_env_ok this, where flags = 0 and old = None and dfd = AT_FDCWD and S = demo_walk] T show ?thesis
    by (simp add: place_on_def demo_walk_def)
qed

text \<open>
  C19: The loop over the components of a name ends by itself: a walk from the bottom of the stack of
  links neither runs for ever nor leaves the stack or a string, however the links refer to each other.
  When it returns, the stack is within its array of at most \<open>MAXSYMLINKS\<close> entries, and after a success
  at most the trailing link is left on it.
\<close>
theorem link_path_walk_terminates:
  assumes "env_ok E" "fuel_ok E" "cstring s" "stack_ok S" "nd_depth S = 0" "rooted S" "last_ok S"
  shows "link_path_walk E (Inr s) S \<noteq> Inl OutOfFuel \<and> link_path_walk E (Inr s) S \<noteq> Inl OutOfBounds \<and>
    (\<forall>e T. link_path_walk E (Inr s) S = Inr (e, T) \<longrightarrow> nd_depth T \<le> length (nd_stack T) \<and> length (nd_stack T) \<le> MAXSYMLINKS \<and> (e = 0 \<longrightarrow> nd_depth T \<le> 1))"
proof -
  have "ready (Inr s) S" using assms by (simp add: ready_def names_def)
  from link_path_walk_safe [OF this assms(1,2)] show ?thesis
    by (auto simp: safe_def walked_def gone_def stack_ok_def MAXSYMLINKS_def EMBEDDED_LEVELS_def)
qed

theorem link_path_walk_terminates_witness:
  "link_path_walk demo_walk_env (Inr [97, 47, 98, 0]) (demo_walk\<lparr>nd_path := place_on 0 0, nd_inode := Some 0, nd_stack := replicate 2 (w_junk demo_walk_env)\<rparr>) \<noteq> Inl OutOfFuel"
  using link_path_walk_terminates [OF demo_env_ok, of "[97, 47, 98, 0]"
      "demo_walk\<lparr>nd_path := place_on 0 0, nd_inode := Some 0, nd_stack := replicate 2 (w_junk demo_walk_env)\<rparr>"]
  by (simp add: cstring_def PATH_MAX_def stack_ok_def demo_walk_def EMBEDDED_LEVELS_def rooted_def has_root_flag_def last_ok_def)

text \<open>
  C8: In a tree that is in the cache, on one mount, without symbolic links and with no other task at work,
  \<open>filename_lookup\<close> of an absolute name succeeds with the dentry that its components lead to from the root one
  by one, where \<open>.\<close> stays, \<open>..\<close> goes to the parent but not above the root, and every component but the
  last must lead to a directory that may be searched.
\<close>
theorem filename_lookup_resolves:
  assumes "quiet E w m r D entries" "world S = w" "flags AND LOOKUP_ROOT = 0" "flags AND LOOKUP_DOWN = 0"
    "\<forall>c\<in>set cs. valid_component c" "length (rel_path cs) \<le> PATH_MAX" "length cs < w_fuel E"
    "resolve entries (node_up E w) (node_isdir E w) r cs r = Some t" "flags AND LOOKUP_DIRECTORY \<noteq> 0 \<longrightarrow> node_isdir E w t"
  shows "\<exists>old' T. filename_lookup E dfd (Inr (abs_path cs)) flags None old S = Inr (0, Some (place_on m t), old', T)"
  using quiet_kernel.filename_lookup_runs [OF quiet_kernel.intro [OF assms(1)] assms(2-9)] .

theorem filename_lookup_resolves_witness:
  "\<exists>old' T. filename_lookup demo_walk_env AT_FDCWD (Inr (abs_path [[97], [46, 46], [46, 46], [97], [46], [98]])) 0 None None demo_walk =
     Inr (0, Some (place_on 0 2), old', T)"
  by (rule filename_lookup_resolves [OF demo_quiet])
    (simp_all add: valid_component_def PATH_MAX_def walk_to_def demo_child_def node_up_def node_isdir_def demo_node_def demo_walk_env_def demo_walk_def)

text \<open>
  C22: In such a tree \<open>filename_parentat\<close> of an absolute name with at least one component returns the directory that all components
  but the last lead to, and the last component with its kind, whether or not there is an entry of that name.
\<close>
theorem filename_parentat_resolves:
  assumes "quiet E w m r D entries" "world S = w" "flags AND LOOKUP_ROOT = 0"
    "\<forall>c\<in>set cs. valid_component c" "cs \<noteq> []" "length (rel_path cs) \<le> PATH_MAX" "length cs < w_fuel E"
    "resolve entries (node_up E w) (node_isdir E w) r (butlast cs) r = Some e" "node_isdir E w e"
  shows "\<exists>h s old' T. filename_parentat E dfd (Inr (abs_path cs)) flags old S = Inr (0, Some (place_on m e, h, s, name_type (last cs)), old', T) \<and>
    take (hashlen_len h) s = last cs"
  using quiet_kernel.filename_parentat_runs [OF quiet_kernel.intro [OF assms(1)] assms(2-9)] by blast

theorem filename_parentat_resolves_witness:
  "\<exists>h s old' T. filename_parentat demo_walk_env AT_FDCWD (Inr (abs_path [[97], [46, 46], [97], [99]])) 0 None demo_walk =
     Inr (0, Some (place_on 0 1, h, s, name_type [99]), old', T) \<and> take (hashlen_len h) s = [99]"
  using filename_parentat_resolves [OF demo_quiet, where S = demo_walk and flags = 0 and cs = "[[97], [46, 46], [97], [99]]" and e = 1 and dfd = AT_FDCWD and old = None]
  by (simp add: valid_component_def PATH_MAX_def walk_to_def demo_child_def node_up_def node_isdir_def demo_node_def demo_walk_env_def demo_walk_def)

end
