(* ===== verification/Vfs_Rename_Props.thy ===== *)
theory Vfs_Rename_Props
  imports Vfs_Rename Vfs_Props Dir_Props
begin

text \<open>
  Renaming: the locks it takes and gives back, and the dentries it moves. Every
  step that is not a lock leaves the locks alone; the locks of the victims are a list that is taken
  and released as a whole.
\<close>

section \<open>Locks\<close>

definition held_locks :: "nat list \<Rightarrow> vfs_state \<Rightarrow> vfs_state" where
  "held_locks as V = V\<lparr>i_rwsem := (\<lambda>a. a \<in> set as \<or> i_rwsem V a)\<rparr>"

lemma lock_list_run:
  "distinct as \<Longrightarrow> (\<forall>a\<in>set as. \<not> i_rwsem V a) \<Longrightarrow> lock_list as V = Inr (held_locks as V)"
proof (induction as arbitrary: V)
  case (Cons a as)
  then have "lock_list as (V\<lparr>i_rwsem := (i_rwsem V)(a := True)\<rparr>) = Inr (held_locks as (V\<lparr>i_rwsem := (i_rwsem V)(a := True)\<rparr>))"
    by (intro Cons.IH) auto
  moreover have "held_locks as (V\<lparr>i_rwsem := (i_rwsem V)(a := True)\<rparr>) = held_locks (a # as) V" by (auto simp: held_locks_def fun_eq_iff)
  ultimately show ?case using Cons.prems by (simp add: inode_lock_def)
qed (simp add: held_locks_def)

lemma lock_list_inv: "lock_list as V = Inr V' \<Longrightarrow> distinct as \<and> (\<forall>a\<in>set as. \<not> i_rwsem V a)"
proof (induction as arbitrary: V)
  case (Cons a as)
  then have a: "\<not> i_rwsem V a" "lock_list as (V\<lparr>i_rwsem := (i_rwsem V)(a := True)\<rparr>) = Inr V'"
    by (auto simp: inode_lock_def split: if_splits)
  then show ?case using Cons.IH [OF a(2)] by (auto split: if_splits)
qed simp

lemma unlock_fold: "i_rwsem (fold inode_unlock as V) = (\<lambda>a. a \<notin> set as \<and> i_rwsem V a)"
  by (induction as arbitrary: V) (auto simp: inode_unlock_def fun_eq_iff)

lemma unlock_fold_frame: "fs_st (fold inode_unlock as V) = fs_st V" "flatfs_spinlock (fold inode_unlock as V) = flatfs_spinlock V"
  by (induction as arbitrary: V) (simp_all add: inode_unlock_def)

lemma victims_distinct: "distinct (rename_victims old_dentry new_dentry flags V)"
  by (simp add: rename_victims_def nondirectories_def Let_def split: option.split)

lemma victims_members: "a \<in> set (rename_victims old_dentry new_dentry flags V) \<Longrightarrow> d_inode old_dentry = Some a \<or> d_inode new_dentry = Some a"
  by (auto simp: rename_victims_def nondirectories_def Let_def List.map_filter_def split: option.splits if_splits)

text \<open>The steps that only check keep everything but the cached permission flags.\<close>

definition same_but_opflags :: "vfs_state \<Rightarrow> vfs_state \<Rightarrow> bool" where
  "same_but_opflags V V' \<longleftrightarrow> (\<exists>g. V' = V\<lparr>i_opflags := g\<rparr>)"

lemma opflags_put: "same_but_opflags V W \<Longrightarrow> same_but_opflags V (put_opflags a v W)" "same_but_opflags V V"
  by (auto simp: same_but_opflags_def put_opflags_def intro: exI [of _ "i_opflags V"])

lemma opflags_sel: "same_but_opflags V W \<Longrightarrow> fs_st W = fs_st V \<and> i_rwsem W = i_rwsem V \<and> i_flags W = i_flags V \<and> flatfs_spinlock W = flatfs_spinlock V"
  by (auto simp: same_but_opflags_def)

text \<open>Results other than a deadlock, with a postcondition.\<close>

definition free :: "('r \<Rightarrow> bool) \<Rightarrow> 'r res \<Rightarrow> bool" where
  "free Q r = (case r of Inl e \<Rightarrow> e \<noteq> Deadlock | Inr x \<Rightarrow> Q x)"

lemma free_simps [simp]: "free Q (Inr x) = Q x" "free Q (Inl e) = (e \<noteq> Deadlock)"
  by (simp_all add: free_def)

lemma free_if: "(b \<Longrightarrow> free Q r) \<Longrightarrow> (\<not> b \<Longrightarrow> free Q s) \<Longrightarrow> free Q (if b then r else s)"
  by simp

lemma free_prod: "(\<And>x y. p = (x, y) \<Longrightarrow> free Q (f x y)) \<Longrightarrow> free Q (case p of (x, y) \<Rightarrow> f x y)"
  by (cases p) simp

lemma free_option: "(p = None \<Longrightarrow> free Q r) \<Longrightarrow> (\<And>x. p = Some x \<Longrightarrow> free Q (s x)) \<Longrightarrow> free Q (case p of None \<Rightarrow> r | Some x \<Rightarrow> s x)"
  by (cases p) simp_all

lemma free_mono: "free R r \<Longrightarrow> (\<And>x. R x \<Longrightarrow> Q x) \<Longrightarrow> free Q r"
  by (cases r) simp_all

lemma free_seq: "free R m \<Longrightarrow> (\<And>x. R x \<Longrightarrow> free Q (f x)) \<Longrightarrow> free Q (bind_res m f)"
  by (cases m) simp_all

lemma free_FFS_I: "free (\<lambda>x. True) (FFS_I st p)"
  by (simp add: FFS_I_def split: option.split)

lemma free_vinode: "free (\<lambda>x. True) (get_vinode V p)"
  unfolding get_vinode_def by (intro free_seq [OF free_FFS_I] free_prod) simp

lemma free_victim: "free (\<lambda>x. True) (victim_inode V d)"
  unfolding victim_inode_def by (intro free_option free_seq [OF free_vinode] free_prod) simp_all

lemma free_may_delete: "free (\<lambda>x. True) (may_delete E d dir victim inode isdir)"
  by (simp add: may_delete_def Let_def split: option.split prod.split)

lemma replace_free:
  assumes "same_but_opflags V W"
  shows "free (\<lambda>(e, U). same_but_opflags V U) (rename_may_replace E new_dir new_dentry is_dir flags W)"
proof -
  have "free (\<lambda>x. True) (if d_inode new_dentry = None then Inr (may_create E nv new_dentry)
      else bind_res (victim_inode W new_dentry) (\<lambda>tv. may_delete E new_dir nv new_dentry tv isdir))" for nv isdir
    by (intro free_if free_seq [OF free_victim] free_may_delete) simp
  then show ?thesis
    unfolding rename_may_replace_def
    by (intro free_seq [OF free_vinode] free_prod) (rule free_seq, assumption, use assms in \<open>auto intro!: opflags_put split: prod.split\<close>)
qed

lemma write_free:
  assumes "same_but_opflags V W"
  shows "free (\<lambda>(e, U). same_but_opflags V U) (write_permission E p W)"
  unfolding write_permission_def
  by (intro free_seq [OF free_FFS_I] free_prod) (use assms in \<open>auto intro!: opflags_put simp: Let_def split: prod.split\<close>)

lemma flip_free:
  assumes "same_but_opflags V W"
  shows "free (\<lambda>(e, U). same_but_opflags V U) (rename_may_flip E old_dir new_dir old_dentry new_dentry flags W)"
proof -
  have first: "free (\<lambda>(e, U). same_but_opflags V U) (if b then write_permission E p W else Inr (0, W))" for b p
    by (intro free_if write_free) (use assms in simp_all)
  show ?thesis
    unfolding rename_may_flip_def Let_def
    by (intro free_if free_seq [OF first]) (use assms in \<open>auto intro: write_free\<close>)
qed

lemma deleg_free: "free (\<lambda>x. True) (if b then break_deleg E p V else Inr 0)"
  unfolding break_deleg_def by (intro free_if free_seq [OF free_vinode] free_prod) simp_all

lemma many_free: "free (\<lambda>x. True) (too_many_links E old_dir new_dir is_dir new_is_dir flags V)"
  unfolding too_many_links_def by (intro free_if free_seq [OF free_FFS_I] free_prod) simp_all

section \<open>The part under the locks\<close>

text \<open>A rename that succeeds moves the dentry; one that fails leaves both as they are.\<close>

definition moved :: "dentry \<Rightarrow> dentry \<Rightarrow> int \<Rightarrow> dentry \<Rightarrow> dentry \<Rightarrow> bool" where
  "moved old new e old' new' \<longleftrightarrow>
     (if e = 0 then d_name old' = d_name new \<and> d_parent_inode old' = d_parent_inode new \<and> d_inode old' = d_inode old else old' = old \<and> new' = new)"

lemma rename_locked_free:
  assumes "\<And>st. free (\<lambda>(e, st'). R st st') (rename old_dir old_dentry new_dir new_dentry flags st)" "\<And>st. R st st"
  shows "free (\<lambda>(e, old', new', U). i_rwsem U = i_rwsem V \<and> flatfs_spinlock U = flatfs_spinlock V \<and> R (fs_st V) (fs_st U) \<and> moved old_dentry new_dentry e old' new')
    (rename_locked E rename old_dir new_dir old_dentry new_dentry flags V)"
proof -
  let ?Q = "\<lambda>(e :: int, old', new', U). i_rwsem U = i_rwsem V \<and> flatfs_spinlock U = flatfs_spinlock V \<and> R (fs_st V) (fs_st U) \<and> moved old_dentry new_dentry e old' new'"
  have fail: "?Q (e, old_dentry, new_dentry, V)" if "e \<noteq> 0" for e using that assms(2) by (simp add: moved_def)
  have call: "free ?Q (bind_res (rename old_dir old_dentry new_dir new_dentry flags (fs_st V)) (\<lambda>(error, st).
      let V = V\<lparr>fs_st := st\<rparr> in
      if error \<noteq> 0 then Inr (error, old_dentry, new_dentry, V)
      else let V = (case d_inode new_dentry of
                      Some t \<Rightarrow> if flags AND RENAME_EXCHANGE = 0 \<and> d_is_dir old_dentry then V\<lparr>i_flags := (i_flags V)(t := i_flags V t OR S_DEAD)\<rparr> else V
                    | None \<Rightarrow> V);
               (old_dentry, new_dentry) =
                 (if flatfs_fs_flags AND FS_RENAME_DOES_D_MOVE = 0
                  then if flags AND RENAME_EXCHANGE = 0 then d_move old_dentry new_dentry else d_exchange old_dentry new_dentry
                  else (old_dentry, new_dentry)) in
           Inr (0, old_dentry, new_dentry, V)))"
    by (rule free_seq [OF assms(1)])
      (auto simp: Let_def moved_def d_move_def d_exchange_def flatfs_fs_flags_def split: option.split)
  show ?thesis
    unfolding rename_locked_def Let_def [of "d_is_dir old_dentry"] Let_def [of "d_inode new_dentry"]
      Let_def [of "d_inode new_dentry \<noteq> None \<and> d_is_dir new_dentry"] Let_def [of "\<lambda>e. Inr (e, old_dentry, new_dentry, V)"]
    by (intro free_if free_seq [OF many_free] free_seq [OF deleg_free] call) (use fail assms(2) in \<open>simp_all add: EBUSY_def EMLINK_def\<close>)
qed

section \<open>The whole rename\<close>

definition victims_unlocked :: "dentry \<Rightarrow> dentry \<Rightarrow> vfs_state \<Rightarrow> bool" where
  "victims_unlocked old_dentry new_dentry V \<longleftrightarrow> (\<forall>a. d_inode old_dentry = Some a \<or> d_inode new_dentry = Some a \<longrightarrow> \<not> i_rwsem V a)"

lemma vfs_rename_free:
  assumes op: "\<And>st. free (\<lambda>(e, st'). R st st') (k_simple_rename X old_dir old_dentry new_dir new_dentry flags st)" "\<And>st. R st st"
    and locks: "victims_unlocked old_dentry new_dentry V"
  shows "free (\<lambda>(e, old', new', U). i_rwsem U = i_rwsem V \<and> flatfs_spinlock U = flatfs_spinlock V \<and> R (fs_st V) (fs_st U) \<and>
      (d_inode old_dentry \<noteq> d_inode new_dentry \<longrightarrow> moved old_dentry new_dentry e old' new'))
    (vfs_rename X E old_dir old_dentry new_dir new_dentry flags V)" (is "free ?Q _")
proof -
  have stay: "free ?Q (Inr (e, old_dentry, new_dentry, U))" if "same_but_opflags V U" "e \<noteq> 0 \<or> d_inode old_dentry = d_inode new_dentry" for e U
    using opflags_sel [OF that(1)] that(2) op(2) by (auto simp: moved_def)
  have lock: "free ?Q (let victims = rename_victims old_dentry new_dentry flags U in
      bind_res (lock_list victims U) (\<lambda>V.
      bind_res (rename_locked E rename old_dir new_dir old_dentry new_dentry flags V) (\<lambda>(error, old_dentry, new_dentry, V).
      Inr (error, old_dentry, new_dentry, fold inode_unlock victims V))))"
    if U: "same_but_opflags V U" and r: "rename = k_simple_rename X" for U rename
  proof -
    let ?v = "rename_victims old_dentry new_dentry flags U"
    note sel = opflags_sel [OF U]
    have un: "\<forall>a\<in>set ?v. \<not> i_rwsem U a" using locks victims_members sel by (fastforce simp: victims_unlocked_def)
    have run: "lock_list ?v U = Inr (held_locks ?v U)" by (rule lock_list_run [OF victims_distinct un])
    have undo: "i_rwsem (fold inode_unlock ?v T) = i_rwsem V" if "i_rwsem T = i_rwsem (held_locks ?v U)" for T
      using un that sel by (auto simp: unlock_fold held_locks_def fun_eq_iff)
    show ?thesis
      unfolding Let_def run bind_res_Inr r
      by (rule free_seq [OF rename_locked_free [where R = R and rename = "k_simple_rename X" and old_dir = old_dir and old_dentry = old_dentry
            and new_dir = new_dir and new_dentry = new_dentry and flags = flags, OF op]])
        (use undo sel in \<open>auto simp: unlock_fold_frame held_locks_def\<close>)
  qed
  have rest: "free ?Q (case op_rename (move_table X ofi) of
        None \<Rightarrow> Inr (- EPERM, old_dentry, new_dentry, W)
      | Some rename \<Rightarrow>
          bind_res (rename_may_flip E old_dir new_dir old_dentry new_dentry flags W) (\<lambda>(error, V).
          if error \<noteq> 0 then Inr (error, old_dentry, new_dentry, V)
          else bind_res (get_vinode V (Some old_dir)) (\<lambda>(_, ov).
          bind_res (get_vinode V (Some new_dir)) (\<lambda>(_, nv).
          let error = security_inode_rename X ov old_dentry nv new_dentry flags in
          if error \<noteq> 0 then Inr (error, old_dentry, new_dentry, V)
          else let victims = rename_victims old_dentry new_dentry flags V in
          bind_res (lock_list victims V) (\<lambda>V.
          bind_res (rename_locked E rename old_dir new_dir old_dentry new_dentry flags V) (\<lambda>(error, old_dentry, new_dentry, V).
          Inr (error, old_dentry, new_dentry, fold inode_unlock victims V)))))))" if W: "same_but_opflags V W" for ofi W
    unfolding Let_def [of "security_inode_rename X _ _ _ _ _"]
    by (intro free_option free_seq [OF flip_free [OF W]] free_seq [OF free_vinode] free_prod free_if lock stay [OF W])
      (use stay W in \<open>auto simp: EPERM_def move_table_def split: if_splits\<close>)
  show ?thesis
    unfolding vfs_rename_def Let_def [of "d_is_dir old_dentry"] Let_def [of "\<lambda>e V. Inr (e, old_dentry, new_dentry, V)"] Let_def [of "put_opflags _ _ _"]
    by (intro free_if free_seq [OF free_vinode] free_seq [OF free_victim] free_seq [OF free_may_delete] free_seq [OF replace_free] free_prod rest)
      (use stay in \<open>auto intro!: opflags_put\<close>)
qed

text \<open>
  C23: A rename never blocks on a lock it holds itself. If the inodes of both dentries are not locked and the
  library's \<open>simple_rename\<close>, which the module installs, takes no lock that is held, \<open>vfs_rename\<close> does not
  deadlock, on no path, and leaves every inode lock and the spin lock as they were. When both dentries are of
  one inode it returns 0 at once and changes nothing. Otherwise, if it returns 0 the dentry has the name and the
  parent of the target and is still of its inode, and on an error both dentries are as they were.
\<close>
theorem vfs_rename_keeps_locks:
  assumes "\<And>st. k_simple_rename X old_dir old_dentry new_dir new_dentry flags st \<noteq> Inl Deadlock"
    "victims_unlocked old_dentry new_dentry V"
  shows "vfs_rename X E old_dir old_dentry new_dir new_dentry flags V \<noteq> Inl Deadlock \<and>
    (\<forall>e old' new' U. vfs_rename X E old_dir old_dentry new_dir new_dentry flags V = Inr (e, old', new', U) \<longrightarrow>
      i_rwsem U = i_rwsem V \<and> flatfs_spinlock U = flatfs_spinlock V \<and>
      (if d_inode old_dentry = d_inode new_dentry then e = 0 \<and> old' = old_dentry \<and> new' = new_dentry \<and> U = V
       else if e = 0 then d_name old' = d_name new_dentry \<and> d_parent_inode old' = d_parent_inode new_dentry \<and> d_inode old' = d_inode old_dentry
       else old' = old_dentry \<and> new' = new_dentry))"
proof -
  have "free (\<lambda>(e, st'). True) (k_simple_rename X old_dir old_dentry new_dir new_dentry flags st)" for st
    using assms(1) [of st] by (cases "k_simple_rename X old_dir old_dentry new_dir new_dentry flags st") auto
  note f = vfs_rename_free [where R = "\<lambda>_ _. True", OF this _ assms(2), of E]
  show ?thesis
  proof (cases "d_inode old_dentry = d_inode new_dentry")
    case True
    then show ?thesis by (simp add: vfs_rename_def)
  next
    case False
    with f show ?thesis by (auto simp: free_def moved_def split: sum.splits)
  qed
qed

text \<open>Two directories of the root; the first is to be renamed to \<open>b\<close>.\<close>

definition demo_move :: move_env where
  "demo_move = \<lparr>k_simple_link = (\<lambda>_ _ st. (Inr (0, st))), k_simple_rename = (\<lambda>_ _ _ _ _ st. Inr (0, st)), security_inode_symlink = (\<lambda>_ _ _. 0),
     security_inode_link = (\<lambda>_ _ _. 0), security_inode_rename = (\<lambda>_ _ _ _ _. 0)\<rparr>"

definition demo_two :: vfs_state where
  "demo_two = (demo_vst blank_sb)\<lparr>fs_st := (demo_st blank_sb)\<lparr>inodes := [0 \<mapsto> demo_root, 1 \<mapsto> demo_root]\<rparr>\<rparr>"

definition demo_old :: dentry where
  "demo_old = demo_dentry\<lparr>d_inode := Some 1, d_type := DirectoryType\<rparr>"

definition demo_new :: dentry where
  "demo_new = demo_dentry\<lparr>d_name := name_arg [98]\<rparr>"

lemma demo_rename: "\<exists>old' new' U. vfs_rename demo_move demo_venv 0 demo_old 0 demo_new 0 demo_two = Inr (0, old', new', U)"
proof -
  have perm: "inode_permission demo_venv \<lparr>v_mode = 0x41FF, v_uid = 0, v_gid = 0, v_flags = 0, v_opflags = g\<rparr> 3 =
      (0, \<lparr>v_mode = 0x41FF, v_uid = 0, v_gid = 0, v_flags = 0, v_opflags = 1\<rparr>)" if "g = 0 \<or> g = 1" for g
    using that
    by (auto simp: inode_permission_def sb_permission_def do_inode_permission_def generic_permission_def acl_permission_check_def Let_def
        demo_venv_def IS_IMMUTABLE_def HAS_UNMAPPED_ID_def vfs_simps)
  have env: "uid_valid demo_venv 0" "gid_valid demo_venv 0" "kuid_has_mapping demo_venv u" "kgid_has_mapping demo_venv g" "s_max_links demo_venv = 0"
      "try_break_deleg demo_venv v = 0" for u g v
    by (simp_all add: demo_venv_def)
  have dv: "vinode_of V a demo_root = \<lparr>v_mode = 0x41FF, v_uid = 0, v_gid = 0, v_flags = i_flags V a, v_opflags = i_opflags V a\<rparr>" for V a
    by (simp add: vinode_of_def demo_root_def demo_dir_def blank_inode_def)
  have dr: "i_op demo_root = DirOps" by (simp add: demo_root_def demo_dir_def)
  show ?thesis
    by (simp add: vfs_rename_def demo_old_def demo_new_def demo_two_def demo_vst_def demo_dentry_def get_vinode_def victim_inode_def FFS_I_def dv dr perm env
        may_delete_def may_create_def d_is_negative_def d_is_dir_def dtype_is_dir_def Let_def put_opflags_def rename_may_replace_def move_table_def demo_move_def
        rename_may_flip_def rename_victims_def rename_locked_def too_many_links_def IS_APPEND_def IS_IMMUTABLE_def IS_SWAPFILE_def IS_DEADDIR_def
        HAS_UNMAPPED_ID_def check_sticky_def vfs_simps d_move_def)
qed

lemma demo_rename_locks: "victims_unlocked demo_old demo_new demo_two" "d_inode demo_old \<noteq> d_inode demo_new"
  "k_simple_rename demo_move d o' n' f g st = Inr (0, st)"
  by (simp_all add: victims_unlocked_def demo_old_def demo_new_def demo_dentry_def demo_two_def demo_vst_def demo_move_def)

theorem vfs_rename_keeps_locks_witness:
  "\<exists>old' new' U. vfs_rename demo_move demo_venv 0 demo_old 0 demo_new 0 demo_two = Inr (0, old', new', U) \<and>
     i_rwsem U = i_rwsem demo_two \<and> d_name old' = name_arg [98] \<and> d_inode old' = Some 1"
proof -
  have "k_simple_rename demo_move 0 demo_old 0 demo_new 0 st \<noteq> Inl Deadlock" for st by (simp add: demo_rename_locks)
  from vfs_rename_keeps_locks [OF this demo_rename_locks(1)] demo_rename demo_rename_locks(2) show ?thesis
    by (fastforce simp: demo_new_def demo_old_def demo_dentry_def)
qed

section \<open>The parents\<close>

text \<open>
  The locks of the two parents. If neither is locked and no other rename runs, they are taken, and
  \<open>unlock_rename\<close> gives back the state from before, whichever parent is above the other.
\<close>

lemma lock_rename_roundtrip:
  assumes "\<not> i_rwsem (vfs M) (ino p1)" "\<not> i_rwsem (vfs M) (ino p2)" "\<not> s_vfs_rename_mutex M" "p1 \<noteq> p2 \<longrightarrow> ino p1 \<noteq> ino p2"
  shows "\<exists>p M'. lock_rename d_ancestor ino p1 p2 M = Inr (p, M') \<and> i_rwsem (vfs M') (ino p1) \<and> i_rwsem (vfs M') (ino p2) \<and>
    (p1 \<noteq> p2 \<longrightarrow> s_vfs_rename_mutex M') \<and> unlock_rename ino p1 p2 M' = M"
proof -
  have tw: "(i_rwsem (vfs M))(ino p1 := False) = i_rwsem (vfs M)" "(i_rwsem (vfs M))(ino p2 := False) = i_rwsem (vfs M)"
    "(i_rwsem (vfs M))(ino p1 := False, ino p2 := False) = i_rwsem (vfs M)" "(i_rwsem (vfs M))(ino p2 := False, ino p1 := False) = i_rwsem (vfs M)"
    using assms(1,2) by (auto simp: fun_eq_iff)
  have m: "M\<lparr>vfs := vfs M\<rparr> = M" "M\<lparr>s_vfs_rename_mutex := False\<rparr> = M" "(vfs M)\<lparr>i_rwsem := i_rwsem (vfs M)\<rparr> = vfs M"
    using assms(3) by simp_all
  show ?thesis
    using assms
    by (cases "p1 = p2"; cases "d_ancestor p2 p1"; cases "d_ancestor p1 p2")
      (simp_all add: lock_rename_def unlock_rename_def lock_inode_def unlock_inode_def mutex_lock_def inode_lock_def inode_unlock_def Let_def
        fun_upd_twist tw m)
qed

end
