(* ===== verification/Sys_Holding.thy ===== *)
theory Sys_Holding
  imports Sys_Move Walk_Props Vfs_Rename_Props
begin

text \<open>
  What a task holds: references, RCU read sections, inode locks, the rename mutex, write accesses and inode
  references. The operations of the system calls change it by \<open>gain\<close>, \<open>lck\<close>, \<open>wr\<close> and \<open>ihold\<close>, which commute, so
  that what was taken and given back cancels by rewriting.
\<close>

section \<open>Holdings\<close>

record holding =
  a_refs :: "nat + nat \<Rightarrow> int"
  a_rcu :: int
  a_shared :: "nat \<Rightarrow> int"
  a_inode :: "nat \<Rightarrow> bool"
  a_rename :: bool
  a_writers :: "nat \<Rightarrow> int"
  a_irefs :: "nat \<Rightarrow> int"

definition holding :: "'k task \<Rightarrow> holding" where
  "holding S = \<lparr>a_refs = refs (wk S), a_rcu = rcu_nest (wk S), a_shared = ishared (wk S), a_inode = held_inode S, a_rename = held_rename S,
     a_writers = writers S, a_irefs = irefs S\<rparr>"

definition gain :: "(nat + nat \<Rightarrow> int) \<Rightarrow> holding \<Rightarrow> holding" where
  "gain f H = H\<lparr>a_refs := (\<lambda>x. a_refs H x + f x)\<rparr>"

definition lck :: "nat \<Rightarrow> bool \<Rightarrow> holding \<Rightarrow> holding" where
  "lck i b H = H\<lparr>a_inode := (a_inode H)(i := b)\<rparr>"

definition wr :: "nat \<Rightarrow> int \<Rightarrow> holding \<Rightarrow> holding" where
  "wr m n H = H\<lparr>a_writers := (a_writers H)(m := a_writers H m + n)\<rparr>"

definition hld :: "nat \<Rightarrow> int \<Rightarrow> holding \<Rightarrow> holding" where
  "hld i n H = H\<lparr>a_irefs := (a_irefs H)(i := a_irefs H i + n)\<rparr>"

lemma holding_cancel [simp]:
  "gain f (gain g H) = gain (\<lambda>x. g x + f x) H" "gain (\<lambda>x. 0) H = H"
  "lck i b (lck i c H) = lck i b H" "\<not> a_inode H i \<Longrightarrow> lck i False H = H"
  "wr m n (wr m k H) = wr m (k + n) H" "wr m 0 H = H"
  "hld i n (hld i k H) = hld i (k + n) H" "hld i 0 H = H"
  by (simp_all add: gain_def lck_def wr_def hld_def fun_upd_idem add.assoc)

lemma holding_commute [simp]:
  "gain f (lck i b H) = lck i b (gain f H)" "gain f (wr m n H) = wr m n (gain f H)" "gain f (hld i n H) = hld i n (gain f H)"
  "wr m n (lck i b H) = lck i b (wr m n H)" "hld j n (lck i b H) = lck i b (hld j n H)" "wr m n (hld j k H) = hld j k (wr m n H)"
  by (simp_all add: gain_def lck_def wr_def hld_def)

lemma a_inode_frame [simp]: "a_inode (gain f H) = a_inode H" "a_inode (wr m n H) = a_inode H" "a_inode (hld i n H) = a_inode H"
  by (simp_all add: gain_def wr_def hld_def)

lemma now_upd [simp]: "now (S\<lparr>wk := W\<rparr>) = world W"
  by (simp add: now_def)

lemma holding_world [simp]: "holding (S\<lparr>wk := (wk S)\<lparr>world := w\<rparr>\<rparr>) = holding S"
  by (simp add: holding_def)

lemma ask_eq: "ask f S = (fst (f (now S)), S\<lparr>wk := (wk S)\<lparr>world := snd (f (now S))\<rparr>\<rparr>)"
  by (simp add: ask_def on_walk_def kop_def now_def split: prod.split)

lemma gain_wk: "(\<And>x. refs W x = refs (wk S) x + f x) \<Longrightarrow> rcu_nest W = rcu_nest (wk S) \<Longrightarrow> ishared W = ishared (wk S) \<Longrightarrow>
    holding (S\<lparr>wk := W\<rparr>) = gain f (holding S)"
  by (simp add: holding_def gain_def fun_eq_iff)

lemma refs_sel [simp]:
  "rcu_nest (dput d S) = rcu_nest S" "ishared (dput d S) = ishared S" "rcu_nest (dget d S) = rcu_nest S"
  "ishared (path_put p S) = ishared S" "rcu_nest (path_put p S) = rcu_nest S"
  by (simp_all add: dput_def dget_def path_put_def mntput_def)

lemma holding_put [simp]:
  "holding (t_dput d S) = gain (\<lambda>x. - d_ref (Some d) x) (holding S)"
  "holding (t_path_put p S) = gain (\<lambda>x. - path_refs p x) (holding S)"
  "holding (dir_unlock i S) = lck i False (holding S)"
  "holding (drop_write Y m S) = wr m (- 1) (holding S)"
  "holding (t_ihold i S) = hld i 1 (holding S)" "holding (t_iput Y i S) = hld i (- 1) (holding S)"
  "holding (set_dentry Y d dn S) = holding S"
  by (simp_all add: t_dput_def t_path_put_def gain_wk)
    (simp_all add: holding_def dir_unlock_def lck_def drop_write_def wr_def t_ihold_def t_iput_def hld_def set_dentry_def now_def)

lemma holding_want_write: "\<exists>e T. want_write Y m S = (e, T) \<and> holding T = (if e = 0 then wr m 1 (holding S) else holding S)"
  by (simp add: want_write_def ask_eq holding_def wr_def)

lemma post_want_write:
  "(\<And>e T. holding T = (if e = 0 then wr m 1 (holding S) else holding S) \<Longrightarrow> post Q (f e T)) \<Longrightarrow> post Q (case want_write Y m S of (e, T) \<Rightarrow> f e T)"
  using holding_want_write [of Y m S] by auto

lemma post_ask: "(\<And>r T. holding T = holding S \<Longrightarrow> post Q (f r T)) \<Longrightarrow> post Q (case ask g S of (r, T) \<Rightarrow> f r T)"
  by (simp add: ask_eq)

lemma dir_lock_post: "post (\<lambda>(i, T). \<not> a_inode (holding S) i \<and> holding T = lck i True (holding S)) (dir_lock E dir S)"
  by (auto simp: dir_lock_def null_ok_def holding_def lck_def split: option.split)

section \<open>Lookups\<close>

text \<open>What a result that may be an error comes with.\<close>

definition with_dentry :: "int + nat \<Rightarrow> holding \<Rightarrow> holding" where
  "with_dentry r H = (case r of Inl e \<Rightarrow> H | Inr d \<Rightarrow> gain (d_ref (Some d)) H)"

lemma with_dentry_simps [simp]: "with_dentry (Inl e) H = H" "with_dentry (Inr d) H = gain (d_ref (Some d)) H"
  by (simp_all add: with_dentry_def)

lemma revalidate_sel:
  assumes "revalidate E d flags T = (r, V)"
  shows "rcu_nest V = rcu_nest T" "ishared V = ishared T" "refs V = refs T"
  using assms revalidate_eq [of E d flags T] by auto

lemma lookup_dcache_refs:
  "\<exists>r V. lookup_dcache E Y h nm dir flags W = (r, V) \<and> rcu_nest V = rcu_nest W \<and> ishared V = ishared W \<and>
    (\<forall>x. refs V x = refs W x + (case r of Inr (Some d) \<Rightarrow> d_ref (Some d) x | _ \<Rightarrow> 0))"
  by (auto simp: lookup_dcache_def kop_eq Let_def invalidate_def revalidate_sel split: option.split prod.split)

lemma t_lookup_hash_post: "post (\<lambda>(r, T). holding T = with_dentry r (holding S)) (t_lookup_hash E Y h nm dir flags S)"
proof -
  obtain r V where V: "lookup_dcache E Y h nm dir flags (wk S) = (r, V)" "rcu_nest V = rcu_nest (wk S)" "ishared V = ishared (wk S)"
      "\<And>x. refs V x = refs (wk S) x + (case r of Inr (Some d) \<Rightarrow> d_ref (Some d) x | _ \<Rightarrow> 0)"
    using lookup_dcache_refs by metis
  have same: "holding (S\<lparr>wk := W\<rparr>) = holding S" if "\<And>x. refs W x = refs (wk S) x" "rcu_nest W = rcu_nest (wk S)" "ishared W = ishared (wk S)" for W
    using gain_wk [of W S "\<lambda>x. 0"] that by simp
  show ?thesis
    unfolding t_lookup_hash_def lookup_hash_def V(1) Let_def kop_eq prod.case
    using V(2-4)
    by (auto simp: null_ok_def intro!: same gain_wk split: sum.splits option.splits looked.splits)
qed

text \<open>The name of a system call: a string of at most a page, or an error code.\<close>

definition name_ok :: "int + bytes \<Rightarrow> bool" where
  "name_ok name = (case name of Inl e \<Rightarrow> True | Inr s \<Rightarrow> cstring s)"

definition getname_ok :: "'k getname \<Rightarrow> bool" where
  "getname_ok f \<longleftrightarrow> (\<forall>w. name_ok (fst (f w)))"

lemma post_getname:
  "getname_ok g \<Longrightarrow> (\<And>r T. holding T = holding S \<Longrightarrow> name_ok r \<Longrightarrow> post Q (f r T)) \<Longrightarrow> post Q (case ask g S of (r, T) \<Rightarrow> f r T)"
  by (simp add: ask_eq getname_ok_def)

lemma restore_sel:
  assumes "restore_nameidata old T = (old', V)"
  shows "rcu_nest V = rcu_nest T" "ishared V = ishared T" "refs V = refs T"
  using assms refs_cong [of V T] by (auto simp: restore_nameidata_def split: if_splits)

definition with_path :: "vpath option \<Rightarrow> holding \<Rightarrow> holding" where
  "with_path p H = (case p of None \<Rightarrow> H | Some q \<Rightarrow> gain (path_refs q) H)"

lemma with_path_simps [simp]: "with_path None H = H" "with_path (Some q) H = gain (path_refs q) H"
  by (simp_all add: with_path_def)

lemma balanced_holding:
  assumes "balanced flags (set_nameidata E dfd s old (wk S)) e p T" "restore_nameidata old T = (old', V)"
  shows "holding (S\<lparr>wk := V\<rparr>) = with_path p (holding S)"
proof -
  have "refs T x = refs (wk S) x + (case p of None \<Rightarrow> 0 | Some q \<Rightarrow> path_refs q x)" for x
    using assms(1) by (simp add: balanced_def nameidata_refs)
  moreover have "rcu_nest T = rcu_nest (wk S)" "ishared T = ishared (wk S)" using assms(1) by (simp_all add: balanced_def nameidata_refs)
  ultimately show ?thesis
    using gain_wk [of V S "\<lambda>x. case p of None \<Rightarrow> 0 | Some q \<Rightarrow> path_refs q x"] restore_sel [OF assms(2)] by (cases p) simp_all
qed

lemma t_parentat_post:
  assumes "env_ok E" "fuel_ok E" "name_ok name" "flags AND LOOKUP_ROOT = 0"
  shows "post (\<lambda>(e, p, T). holding T = with_path (map_option fst p) (holding S)) (t_parentat E dfd name flags S)"
proof (cases name)
  case (Inr s)
  let ?S = "set_nameidata E dfd s None (wk S)"
  have "safe (\<lambda>(e, p, T). balanced flags ?S e p T) (with_retries (path_parentat E) flags ?S)"
    by (rule with_retries_safe [OF path_parentat_safe [OF _ assms(1,2)] begin_nameidata]) (use assms(3,4) Inr in \<open>auto simp: with_root_def name_ok_def\<close>)
  then show ?thesis
    using balanced_holding [of flags E dfd s None S]
    by (cases "with_retries (path_parentat E) flags ?S")
      (auto simp: t_parentat_def filename_parentat_def Inr Let_def option.map_comp comp_def option.map_ident split: prod.splits)
qed (simp add: t_parentat_def filename_parentat_def)

lemma t_lookup_post:
  assumes "env_ok E" "fuel_ok E" "name_ok name" "flags AND LOOKUP_ROOT = 0"
  shows "post (\<lambda>(e, p, T). holding T = with_path p (holding S)) (t_lookup E dfd name flags S)"
proof (cases name)
  case (Inr s)
  let ?S = "set_nameidata E dfd s None (wk S)"
  have "safe (\<lambda>(e, p, T). balanced flags ?S e p T) (with_retries (path_lookupat E) flags ?S)"
    by (rule with_retries_safe [OF path_lookupat_safe [OF _ assms(1,2)] begin_nameidata]) (use assms(3,4) Inr in \<open>auto simp: with_root_def name_ok_def\<close>)
  then show ?thesis
    using balanced_holding [of flags E dfd s None S]
    by (cases "with_retries (path_lookupat E) flags ?S") (auto simp: t_lookup_def filename_lookup_def Inr Let_def split: prod.splits)
qed (simp add: t_lookup_def filename_lookup_def)

end
