(* ===== verification/Sys_Props.thy ===== *)
theory Sys_Props
  imports Sys_Holding
begin

text \<open>
  No system call leaves anything behind: whatever it returns, the task holds what it held before. The
  operations of the VFS give back the locks they take; the rest follows the structure of the calls.
\<close>

section \<open>Operations of the VFS\<close>

definition keeps_locks :: "(vfs_state \<Rightarrow> (int \<times> dentry \<times> vfs_state) res) \<Rightarrow> bool" where
  "keeps_locks f \<longleftrightarrow> (\<forall>V. post (\<lambda>(e, dn, U). i_rwsem U = i_rwsem V) (f V))"

lemma rwsem_put [simp]: "i_rwsem (put_opflags a v V) = i_rwsem V"
  by (simp add: put_opflags_def)

lemma post_then: "(\<And>x. post Q (f x)) \<Longrightarrow> post Q (bind_res m f)"
  by (rule post_bindI) (rule post_any)

lemma post_null: "(\<And>a. post Q (f a)) \<Longrightarrow> post Q (bind_res (null_ok p) f)"
  by (rule post_then)

lemma post_seq2:
  "post (\<lambda>(x, y). R x y) m \<Longrightarrow> (\<And>x y. R x y \<Longrightarrow> post Q (f x y)) \<Longrightarrow> post Q (bind_res m (\<lambda>(x, y). f x y))"
  "post (\<lambda>(x, y, z). Rb x y z) mb \<Longrightarrow> (\<And>x y z. Rb x y z \<Longrightarrow> post Q (fb x y z)) \<Longrightarrow> post Q (bind_res mb (\<lambda>(x, y, z). fb x y z))"
  "post (\<lambda>(x, y, z, u). Rc x y z u) mc \<Longrightarrow> (\<And>x y z u. Rc x y z u \<Longrightarrow> post Q (fc x y z u)) \<Longrightarrow> post Q (bind_res mc (\<lambda>(x, y, z, u). fc x y z u))"
  by (erule post_seq, auto simp del: post_bind)+

lemma create_keeps_locks:
  "keeps_locks (vfs_create P K junk E dir dn mode)" "keeps_locks (vfs_mkdir P K junk E dir dn mode)" "keeps_locks (vfs_mknod P K junk E dir dn mode dev)"
  unfolding keeps_locks_def vfs_create_def vfs_mkdir_def vfs_mknod_def
  by (intro allI post_then post_rules; simp)+

lemma symlink_keeps_locks: "keeps_locks (\<lambda>V. bind_res (vfs_symlink X E dir dn s V) (\<lambda>(e, V). Inr (e, dn, V)))"
proof -
  have "post (\<lambda>(e, U). i_rwsem U = i_rwsem V) (vfs_symlink X E dir dn s V)" for V
    unfolding vfs_symlink_def by (intro post_then post_rules; simp)
  then show ?thesis unfolding keeps_locks_def by (intro allI post_seq [where R = "\<lambda>(e, U). i_rwsem U = i_rwsem _"]) auto
qed

lemma locked_post:
  assumes "\<And>V. post (\<lambda>(e, U). i_rwsem U = i_rwsem V) (f V)"
  shows "post (\<lambda>(e, dn, U). i_rwsem U = i_rwsem V) (bind_res (inode_lock a V) (\<lambda>V. bind_res (f V) (\<lambda>(e, V). Inr (e, g e, inode_unlock a V))))"
proof (cases "i_rwsem V a")
  case False
  then have "i_rwsem (inode_unlock a U) = i_rwsem V" if "i_rwsem U = (i_rwsem V)(a := True)" for U
    using that by (simp add: inode_unlock_def fun_upd_idem)
  with False show ?thesis
    using assms [of "V\<lparr>i_rwsem := (i_rwsem V)(a := True)\<rparr>"] by (auto simp: inode_lock_def elim!: post_mono)
qed (simp add: inode_lock_def)

lemma delete_locked_keep:
  "post (\<lambda>(e, U). i_rwsem U = i_rwsem V) (vfs_rmdir_locked E rmdir dir dv dn a V)"
  "post (\<lambda>(e, U). i_rwsem U = i_rwsem V) (vfs_unlink_locked E unlink dir dv target dn V)"
  unfolding vfs_rmdir_locked_def vfs_unlink_locked_def by (intro post_then post_rules; simp)+

lemma delete_keeps_locks:
  "keeps_locks (vfs_rmdir P K junk E sole dir dn)" "keeps_locks (vfs_unlink P K junk E sole dir dn)"
proof -
  have rmdir: "post (\<lambda>(e, dn, U). i_rwsem U = i_rwsem V) (bind_res (inode_lock a (put_opflags dir v V)) (\<lambda>V.
      bind_res (vfs_rmdir_locked E rmdir dir dv dn a V) (\<lambda>(error, V). Inr (error, if error = 0 then d_delete sole dn else dn, inode_unlock a V))))" for V v a rmdir dv
    using locked_post [OF delete_locked_keep(1), of "put_opflags dir v V"] by simp
  have unlink: "post (\<lambda>(e, dn, U). i_rwsem U = i_rwsem V) (bind_res (inode_lock a (put_opflags dir v V)) (\<lambda>V.
      bind_res (vfs_unlink_locked E unlink dir dv target dn V) (\<lambda>(error, V).
      Inr (error, if error = 0 \<and> \<not> d_nfsfs_renamed dn then d_delete sole dn else dn, inode_unlock a V))))" for V v a unlink dv target
    using locked_post [OF delete_locked_keep(2), of "put_opflags dir v V"] by simp
  show "keeps_locks (vfs_rmdir P K junk E sole dir dn)"
    unfolding keeps_locks_def vfs_rmdir_def Let_def by (intro allI rmdir post_then post_rules; simp)
  show "keeps_locks (vfs_unlink P K junk E sole dir dn)"
    unfolding keeps_locks_def vfs_unlink_def Let_def by (intro allI unlink post_then post_rules; simp)
qed

lemma link_keeps_locks: "post (\<lambda>(e, M'). i_rwsem (vfs M') = i_rwsem (vfs M) \<and> s_vfs_rename_mutex M' = s_vfs_rename_mutex M) (vfs_link X E old dir new M)"
proof -
  have inner: "post (\<lambda>(e, M'). i_rwsem (vfs M') = i_rwsem (vfs M) \<and> s_vfs_rename_mutex M' = s_vfs_rename_mutex M) (vfs_link_locked E link a dir M)" for M link a
    unfolding vfs_link_locked_def
    by (intro post_then post_prod post_seq [where R = "\<lambda>(e, M'). i_rwsem (vfs M') = i_rwsem (vfs M) \<and> s_vfs_rename_mutex M' = s_vfs_rename_mutex M"]
        post_rules; simp)
  have lock: "post (\<lambda>(e, M'). i_rwsem (vfs M') = i_rwsem (vfs M) \<and> s_vfs_rename_mutex M' = s_vfs_rename_mutex M)
      (bind_res (inode_lock a (vfs T)) (\<lambda>V. bind_res (vfs_link_locked E link a dir (T\<lparr>vfs := V\<rparr>)) (\<lambda>(error, M). Inr (error, M\<lparr>vfs := inode_unlock a (vfs M)\<rparr>))))"
    if "i_rwsem (vfs T) = i_rwsem (vfs M)" "s_vfs_rename_mutex T = s_vfs_rename_mutex M" for T a link
  proof (cases "i_rwsem (vfs T) a")
    case False
    then have "i_rwsem (inode_unlock a U) = i_rwsem (vfs M)" if "i_rwsem U = (i_rwsem (vfs T))(a := True)" for U
      using that \<open>i_rwsem (vfs T) = i_rwsem (vfs M)\<close> by (simp add: inode_unlock_def fun_upd_idem)
    with False that(2) show ?thesis
      by (simp add: inode_lock_def del: post_bind) (rule post_seq [OF inner], auto)
  qed (simp add: inode_lock_def)
  show ?thesis
    unfolding vfs_link_def by (intro lock post_then post_rules; simp)
qed

lemma free_post: "free Q r \<Longrightarrow> post Q r"
  by (cases r) simp_all

lemma rename_keeps_locks: "post (\<lambda>(e, o', n', U). i_rwsem U = i_rwsem V) (vfs_rename X E od old nd new flags V)"
proof -
  let ?Q = "\<lambda>(e :: int, o' :: dentry, n' :: dentry, U). i_rwsem U = i_rwsem V"
  have inner: "post (\<lambda>(e, o', n', U). i_rwsem U = i_rwsem T) (rename_locked E rename od nd old new flags T)" for T rename
    unfolding rename_locked_def Let_def by (intro post_then post_rules; simp split: option.split)
  have lock: "post ?Q (bind_res (lock_list as T) (\<lambda>V. bind_res (rename_locked E rename od nd old new flags V) (\<lambda>(error, o', n', V).
      Inr (error, o', n', fold inode_unlock as V))))" if T: "same_but_opflags V T" for T rename as
  proof (cases "lock_list as T")
    case (Inr U)
    note inv = lock_list_inv [OF Inr]
    then have "U = held_locks as T" using lock_list_run [of as T] Inr by simp
    then have "i_rwsem (fold inode_unlock as W) = i_rwsem V" if "i_rwsem W = i_rwsem U" for W
      using that inv opflags_sel [OF T] by (auto simp: unlock_fold held_locks_def fun_eq_iff)
    then show ?thesis unfolding Inr bind_res_Inr by (intro post_seq [OF inner]) auto
  qed simp
  have same: "post ?Q (Inr (e, o', n', T))" if "same_but_opflags V T" for e o' n' T using opflags_sel [OF that] by simp
  have replace: "post (\<lambda>(e, U). same_but_opflags V U) (rename_may_replace E nd new is_dir flags T)" if "same_but_opflags V T" for is_dir T
    by (rule free_post [OF replace_free [OF that]])
  have flip: "post (\<lambda>(e, U). same_but_opflags V U) (rename_may_flip E od nd old new flags T)" if "same_but_opflags V T" for T
    by (rule free_post [OF flip_free [OF that]])
  show ?thesis
    unfolding vfs_rename_def Let_def
    by (intro lock same post_seq [OF replace] post_seq [OF flip] post_then post_rules) (auto intro: opflags_put)
qed

section \<open>Parts of the calls\<close>

lemma enter_fs_sel [simp]: "i_rwsem (vfs (enter_fs Y S)) = held_inode S" "s_vfs_rename_mutex (enter_fs Y S) = held_rename S"
  by (simp_all add: enter_fs_def Let_def)

lemma holding_leave:
  "i_rwsem (vfs M) = held_inode S \<Longrightarrow> s_vfs_rename_mutex M = held_rename S \<Longrightarrow> holding (leave_fs Y M S) = holding S"
  by (simp add: leave_fs_def holding_def)

lemma call_vfs_post:
  assumes "\<And>dn. keeps_locks (f dn)"
  shows "post (\<lambda>(e, T). holding T = holding S) (call_vfs Y d f S)"
proof -
  have "post (\<lambda>(e, dn, U). i_rwsem U = held_inode S) (f dn (vfs (enter_fs Y S)))" for dn
    using assms [of dn] unfolding keeps_locks_def by (elim allE [of _ "vfs (enter_fs Y S)"]) simp
  then show ?thesis
    unfolding call_vfs_def Let_def by (rule post_seq) (auto simp: holding_leave)
qed

definition created :: "nat \<times> vpath \<times> nat \<times> nat \<Rightarrow> holding \<Rightarrow> holding \<Rightarrow> bool" where
  "created made H H' \<longleftrightarrow> (case made of (d, path, m, i) \<Rightarrow>
     \<not> a_inode H i \<and> H' = gain (d_ref (Some d)) (lck i True (wr m 1 (gain (path_refs path) H))))"

lemma done_path_create_holding: "created made H (holding S) \<Longrightarrow> holding (done_path_create Y made S) = H"
  by (auto simp: created_def done_path_create_def)

lemma filename_create_post:
  assumes "env_ok E" "fuel_ok E" "name_ok name"
  shows "post (\<lambda>(r, T). case r of Inl e \<Rightarrow> holding T = holding S | Inr made \<Rightarrow> created made (holding S) (holding T)) (filename_create E Y dfd name flags S)"
proof -
  let ?Q = "\<lambda>(r :: int + nat \<times> vpath \<times> nat \<times> nat, T). case r of Inl e \<Rightarrow> holding T = holding S | Inr made \<Rightarrow> created made (holding S) (holding T)"
  have root: "(flags AND LOOKUP_REVAL) AND LOOKUP_ROOT = 0" by (simp add: vfs_simps and.assoc)
  have last: "post (\<lambda>(r, V). holding V = with_dentry r (holding U) \<and> (\<forall>d. r = Inr d \<longrightarrow> err2 = 0))
      (case r of
         Inl e \<Rightarrow> Inr (Inl e, T)
       | Inr d \<Rightarrow> bind_res (create_error E d is_dir h nm err2 T) (\<lambda>error. Inr (if error \<noteq> 0 then (Inl error, t_dput d T) else (Inr d, T))))"
    if "holding T = with_dentry r (holding U)" for r T U is_dir h nm err2
  proof (cases r)
    case (Inr d)
    have "post (\<lambda>e. e = 0 \<longrightarrow> err2 = 0) (create_error E d is_dir h nm err2 T)"
      unfolding create_error_def by (intro post_then post_rules) (auto simp: EEXIST_def ENOENT_def)
    then show ?thesis unfolding Inr sum.case by (rule post_seq) (use that Inr in auto)
  qed (use that in simp)
  have tail: "post ?Q (bind_res (dir_lock E dir T) (\<lambda>(i, S). bind_res (t_lookup_hash E Y h nm dir g S) (\<lambda>(r, S).
      bind_res (case r of
                  Inl e \<Rightarrow> Inr (Inl e, S)
                | Inr d \<Rightarrow> bind_res (create_error E d is_dir h nm err2 S) (\<lambda>error. Inr (if error \<noteq> 0 then (Inl error, t_dput d S) else (Inr d, S)))) (\<lambda>(r, S).
      case r of
        Inr d \<Rightarrow> Inr (Inr (d, path, m, i), S)
      | Inl e \<Rightarrow> Inr (Inl e, t_path_put path (if err2 = 0 then drop_write Y m (dir_unlock i S) else dir_unlock i S))))))"
    if T: "holding T = (if err2 = 0 then wr m 1 (gain (path_refs path) (holding S)) else gain (path_refs path) (holding S))" for T h nm dir g is_dir err2 path m
    by (rule post_seq2(1) [OF dir_lock_post], rule post_seq2(1) [OF t_lookup_hash_post], rule post_seq2(1) [OF last], assumption)
      (use T in \<open>auto simp: created_def split: sum.splits if_splits\<close>)
  show ?thesis
    unfolding filename_create_def Let_def
    by (rule post_seq2(2) [OF t_parentat_post [OF assms root]], intro tail post_want_write post_rules post_then)
      (auto split: if_splits)
qed

section \<open>The calls with one name\<close>

text \<open>A call that returns an error code and leaves the holdings as they were.\<close>

definition unchanged :: "'k task \<Rightarrow> int \<times> 'k task \<Rightarrow> bool" where
  "unchanged S r \<longleftrightarrow> holding (snd r) = holding S"

lemma unchanged_simp: "unchanged S (e, T) = (holding T = holding S)"
  by (simp add: unchanged_def)

lemma unchanged_pair: "unchanged S = (\<lambda>(e, T). holding T = holding S)"
  by (auto simp: unchanged_def fun_eq_iff)

lemma root_clear: "flags AND LOOKUP_ROOT = 0 \<Longrightarrow> (flags OR LOOKUP_REVAL) AND LOOKUP_ROOT = 0"
  by (simp add: bit.conj_disj_distrib2 vfs_simps)

lemma estale_loop_post:
  assumes body: "\<And>flags U. flags AND LOOKUP_ROOT = 0 \<Longrightarrow> holding U = holding S \<Longrightarrow> post (\<lambda>(b, e, T). holding T = holding S) (body flags U)"
    and flags: "flags AND LOOKUP_ROOT = 0"
  shows "post (unchanged S) (estale_loop body flags S)"
  unfolding estale_loop_def unchanged_pair
  by (intro post_seq2(2) [OF body [OF flags]] post_if post_seq2(2) [OF body [OF root_clear [OF flags]]]) simp_all

lemma create_at_post:
  assumes "env_ok E" "fuel_ok E" "getname_ok g" "\<And>d path i T. post (unchanged T) (work d path i T)" "holding U = holding S"
  shows "post (\<lambda>(b, e, T). holding T = holding S) (create_at E Y dfd g work flags U)"
proof -
  have finish: "post (\<lambda>(b :: bool, e :: int, T). holding T = holding S)
      (bind_res (work d path i T) (\<lambda>(error, S). Inr (True, error, done_path_create Y (d, path, m, i) S)))"
    if "created (d, path, m, i) (holding S) (holding T)" for d path i m T
    by (rule post_seq2(1) [OF assms(4) [unfolded unchanged_pair]]) (use that in \<open>auto intro: done_path_create_holding\<close>)
  show ?thesis
    unfolding create_at_def Let_def
    by (rule post_getname [OF assms(3)], rule post_seq2(1) [OF filename_create_post [OF assms(1,2)]], assumption)
      (use assms(5) finish in \<open>auto split: sum.splits simp del: post_bind\<close>)
qed

lemma works_unchanged:
  "post (unchanged T) (mknod_work E Y mode dev d path i T)" "post (unchanged T) (mkdir_work E Y mode d path i T)" "post (unchanged T) (symlink_work E Y s d path i T)"
  unfolding unchanged_pair mknod_work_def mkdir_work_def symlink_work_def Let_def
  by (intro post_if call_vfs_post create_keeps_locks symlink_keeps_locks; simp)+

text \<open>A negative dentry has no inode.\<close>

definition negative_ok :: "('k, 'a) walk_env \<Rightarrow> bool" where
  "negative_ok E \<longleftrightarrow> (\<forall>w d. kd_type (w_dentry E w d) = MissType \<longrightarrow> kd_inode (w_dentry E w d) = None)"

definition sys_ok :: "('k, 'a) walk_env \<Rightarrow> bool" where
  "sys_ok E \<longleftrightarrow> env_ok E \<and> fuel_ok E \<and> negative_ok E"

lemma sys_okD: "sys_ok E \<Longrightarrow> env_ok E" "sys_ok E \<Longrightarrow> fuel_ok E" "sys_ok E \<Longrightarrow> negative_ok E"
  by (simp_all add: sys_ok_def)

lemma LOOKUP_root0: "LOOKUP_DIRECTORY AND LOOKUP_ROOT = 0" "(0 :: u32) AND LOOKUP_ROOT = 0"
  by (simp_all add: vfs_simps)

lemma do_mknodat_post: "sys_ok E \<Longrightarrow> getname_ok g \<Longrightarrow> post (unchanged S) (do_mknodat E Y dfd g mode dev S)"
  unfolding do_mknodat_def Let_def
  by (intro post_if estale_loop_post create_at_post works_unchanged LOOKUP_root0 sys_okD) (auto simp: unchanged_def)

lemma do_mkdirat_post: "sys_ok E \<Longrightarrow> getname_ok g \<Longrightarrow> post (unchanged S) (do_mkdirat E Y dfd g mode S)"
  unfolding do_mkdirat_def by (intro estale_loop_post create_at_post works_unchanged LOOKUP_root0 sys_okD)

lemma unchanged_cong: "holding T = holding S \<Longrightarrow> unchanged T = unchanged S"
  by (simp add: unchanged_def fun_eq_iff)

lemma do_symlinkat_post:
  assumes "sys_ok E" "getname_ok g"
  shows "post (unchanged S) (do_symlinkat E Y old dfd g S)"
proof -
  have loop: "post (unchanged S) (estale_loop (create_at E Y dfd g (symlink_work E Y s)) 0 T)" if "holding T = holding S" for s T
    unfolding unchanged_cong [OF that, symmetric]
    by (intro estale_loop_post create_at_post works_unchanged LOOKUP_root0 sys_okD) (use assms in auto)
  show ?thesis
    unfolding do_symlinkat_def Let_def by (rule post_ask) (auto simp: unchanged_def loop split: sum.split)
qed

lemma rmdir_found_post: "post (unchanged S) (rmdir_found E Y path i d S)"
  unfolding rmdir_found_def unchanged_pair Let_def by (intro post_if call_vfs_post delete_keeps_locks; simp)

lemma rmdir_parent_post: "post (unchanged S) (rmdir_parent E Y path h nm type flags S)"
proof -
  have victim: "post (\<lambda>(e, V). holding V = holding U)
      (case r of Inl e \<Rightarrow> Inr (e, T) | Inr d \<Rightarrow> bind_res (rmdir_found E Y path i d T) (\<lambda>(error, S). Inr (error, t_dput d S)))"
    if "holding T = with_dentry r (holding U)" for r T U i
    using that by (cases r) (auto intro!: post_seq2(1) [OF rmdir_found_post [unfolded unchanged_pair]] simp del: post_bind)
  have locked: "post (\<lambda>(e, V). holding V = holding S) (bind_res (dir_lock E dir T) (\<lambda>(i, S). bind_res (t_lookup_hash E Y h nm dir flags S) (\<lambda>(r, S).
      bind_res (case r of Inl e \<Rightarrow> Inr (e, S) | Inr d \<Rightarrow> bind_res (rmdir_found E Y path i d S) (\<lambda>(error, S). Inr (error, t_dput d S))) (\<lambda>(error, S).
      Inr (error, drop_write Y m (dir_unlock i S))))))" if "holding T = wr m 1 (holding S)" for dir T m
    by (rule post_seq2(1) [OF dir_lock_post], rule post_seq2(1) [OF t_lookup_hash_post], rule post_seq2(1) [OF victim], assumption)
      (use that in simp)
  show ?thesis
    unfolding rmdir_parent_def unchanged_pair Let_def
    by (intro locked post_if post_null post_want_write) (simp_all split: if_splits)
qed

lemma do_rmdir_post:
  assumes "sys_ok E" "getname_ok g"
  shows "post (unchanged S) (do_rmdir E Y dfd g S)"
proof -
  note par = t_parentat_post [OF sys_okD(1,2) [OF assms(1)]]
  have rest: "post (\<lambda>(b :: bool, e, T). holding T = holding S)
      (bind_res (rmdir_parent E Y path h nm type flags T) (\<lambda>(error, S). Inr (True, error, t_path_put path S)))"
    if "holding T = gain (path_refs path) (holding S)" for path h nm type flags T
    by (rule post_seq2(1) [OF rmdir_parent_post [unfolded unchanged_pair]]) (use that in auto)
  show ?thesis
    unfolding do_rmdir_def Let_def
    by (rule estale_loop_post [OF _ LOOKUP_root0(2)], rule post_getname [OF assms(2)], rule post_seq2(2) [OF par], assumption, assumption)
      (auto intro!: rest split: option.splits simp del: post_bind)
qed

text \<open>The inode that an unlink returns is held until it is put.\<close>

definition with_inode :: "nat option \<Rightarrow> holding \<Rightarrow> holding" where
  "with_inode a H = (case a of None \<Rightarrow> H | Some a \<Rightarrow> hld a 1 H)"

lemma with_inode_simps [simp]: "with_inode None H = H" "with_inode (Some a) H = hld a 1 H"
  by (simp_all add: with_inode_def)

lemma with_inode_gain [simp]: "gain f (with_inode a H) = with_inode a (gain f H)"
  by (cases a) simp_all

lemma unlink_found_post:
  assumes "negative_ok E"
  shows "post (\<lambda>(e, a, deleg, T). holding T = with_inode a (holding S)) (unlink_found E Y path i h nm d S)"
proof -
  have call: "post (\<lambda>(e, a, deleg, T). holding T = with_inode a (holding S))
      (bind_res (call_vfs Y d (\<lambda>dn. vfs_unlink P K junk C sole i dn) (t_ihold a S)) (\<lambda>(error, S). Inr (error, Some a, y_delegated Y error (now S), S)))" for P K junk C sole a
    by (rule post_seq2(1) [OF call_vfs_post [OF delete_keeps_locks(2)]]) simp
  have "kd_type (w_dentry E (now S) d) = MissType \<Longrightarrow> kd_inode (w_dentry E (now S) d) = None" using assms by (simp add: negative_ok_def)
  then show ?thesis
    unfolding unlink_found_def Let_def by (intro call post_if post_null post_then) simp_all
qed

lemma unlink_deleg_post:
  assumes "negative_ok E"
  shows "post (unchanged S) (unlink_deleg E Y n path h nm flags S)"
proof (induction n arbitrary: S)
  case (Suc n)
  have victim: "post (\<lambda>(e, a, deleg, V). holding V = with_inode a H)
      (case r of Inl e \<Rightarrow> Inr (e, None, None, T) | Inr d \<Rightarrow> bind_res (unlink_found E Y path i h nm d T) (\<lambda>(error, a, deleg, S). Inr (error, a, deleg, t_dput d S)))"
    if "holding T = with_dentry r H" for r T H i
    using that by (cases r) (auto intro!: post_seq2(3) [OF unlink_found_post [OF assms]] simp del: post_bind)
  have rec: "post (unchanged S) (unlink_deleg E Y n path h nm flags T)" if "holding T = holding S" for T
    using Suc.IH [of T] by (simp add: unchanged_cong [OF that])
  have again: "post (unchanged S) (case ask (y_break_deleg_wait Y j) T of (error, S) \<Rightarrow> if error = 0 then unlink_deleg E Y n path h nm flags S else Inr (error, S))"
    if "holding T = holding S" for j T
    by (intro post_ask post_if rec) (use that in \<open>simp_all add: unchanged_def\<close>)
  have put: "holding (case a of None \<Rightarrow> dir_unlock i T | Some a \<Rightarrow> t_iput Y a (dir_unlock i T)) = H"
    if "holding T = with_inode a (lck i True H)" "\<not> a_inode H i" for a i T H
    using that by (cases a) simp_all
  show ?case
    unfolding unlink_deleg.simps Let_def
    by (rule post_null, rule post_seq2(1) [OF dir_lock_post], rule post_seq2(1) [OF t_lookup_hash_post], rule post_seq2(3) [OF victim], assumption, intro post_option again)
      (simp_all add: unchanged_simp put)
qed simp

lemma do_unlinkat_post:
  assumes "sys_ok E" "name_ok name"
  shows "post (unchanged S) (do_unlinkat E Y dfd name S)"
proof -
  note par = t_parentat_post [OF sys_okD(1,2) [OF assms(1)] assms(2)]
  have del: "post (\<lambda>(e, V). holding V = holding T)
      (case want_write Y m T of (error, S) \<Rightarrow> if error \<noteq> 0 then Inr (error, S)
       else bind_res (unlink_deleg E Y n path h nm flags S) (\<lambda>(error, S). Inr (error, drop_write Y m S)))" for m n path h nm flags T
    by (intro post_want_write post_if post_seq2(1) [OF unlink_deleg_post [OF sys_okD(3) [OF assms(1)], unfolded unchanged_pair]]) simp_all
  have rest: "post (\<lambda>(b :: bool, e, V). holding V = holding S)
      (bind_res (if type \<noteq> LAST_NORM then Inr (- EISDIR, T)
                 else bind_res (null_ok (p_mnt path)) (\<lambda>m. case want_write Y m T of (error, S) \<Rightarrow> if error \<noteq> 0 then Inr (error, S)
                   else bind_res (unlink_deleg E Y (w_fuel E) path h nm flags S) (\<lambda>(error, S). Inr (error, drop_write Y m S))))
         (\<lambda>(error, S). Inr (True, error, t_path_put path S)))"
    if "holding T = gain (path_refs path) (holding S)" for path h nm type flags T
    by (rule post_seq2(1) [where R = "\<lambda>e V. holding V = holding T"], intro post_if post_null del) (use that in simp_all)
  show ?thesis
    unfolding do_unlinkat_def Let_def
    by (rule estale_loop_post [OF _ LOOKUP_root0(2)], rule post_seq2(2) [OF par], assumption, intro post_option post_prod rest) simp_all
qed

section \<open>The calls with two names\<close>

lemma link_work_post: "post (\<lambda>(e, deleg, T). holding T = holding S) (link_work E Y old_path d new_path i S)"
proof -
  have may: "post (\<lambda>(e, T). holding T = holding S) (t_may_linkat E old S)" for old
    unfolding t_may_linkat_def Let_def by (intro post_null post_prod) simp
  have call: "post (\<lambda>(e, deleg, U). holding U = holding S)
      (bind_res (vfs_link X C od j nd (enter_fs Y T)) (\<lambda>(error, M). let S = leave_fs Y M T in Inr (error, y_delegated Y error (now S), S)))"
    if "holding T = holding S" for X C od j nd T
    by (rule post_seq2(1) [OF link_keeps_locks]) (use that in \<open>simp add: Let_def holding_leave\<close>)
  show ?thesis
    unfolding link_work_def Let_def [of "y_security _ _ _"]
    by (intro post_if post_null post_seq2(1) [OF may] call) simp_all
qed

lemma linkat_loop_post:
  assumes "sys_ok E" "getname_ok old" "getname_ok new"
  shows "how AND LOOKUP_ROOT = 0 \<Longrightarrow> post (unchanged S) (linkat_loop E Y n odfd old ndfd new how S)"
proof (induction n arbitrary: how S)
  case (Suc n)
  note look = t_lookup_post [OF sys_okD(1,2) [OF assms(1)]] and crea = filename_create_post [OF sys_okD(1,2) [OF assms(1)]]
  have again: "post (unchanged S) (linkat_loop E Y n odfd old ndfd new how T)" "post (unchanged S) (linkat_loop E Y n odfd old ndfd new (how OR LOOKUP_REVAL) T)"
    if "holding T = holding S" for T
    using Suc.IH [OF Suc.prems, of T] Suc.IH [OF root_clear [OF Suc.prems], of T] by (simp_all add: unchanged_cong [OF that])
  have "holding (snd (case deleg of None \<Rightarrow> (e, T) | Some j \<Rightarrow> ask (g j) T)) = holding T" for deleg T and e :: int and g :: "nat \<Rightarrow> 'a \<Rightarrow> int \<times> 'a"
    by (simp add: ask_eq split: option.split)
  then have wait: "holding V = holding T" if "(case deleg of None \<Rightarrow> (e, T) | Some j \<Rightarrow> ask (g j) T) = (e', V)" for deleg T V e' and e :: int and g :: "nat \<Rightarrow> 'a \<Rightarrow> int \<times> 'a"
    using that by (metis snd_conv)
  have linked: "post (unchanged S) (bind_res (link_work E Y old_path d new_path i T) (\<lambda>(error, deleg, S).
              let S = done_path_create Y (d, new_path, m, i) S;
                  (error, S) = (case deleg of None \<Rightarrow> (error, S) | Some j \<Rightarrow> ask (y_break_deleg_wait Y j) S);
                  S = t_path_put old_path S in
              if deleg \<noteq> None \<and> error = 0 then linkat_loop E Y n odfd old ndfd new how S
              else if retry_estale error how then linkat_loop E Y n odfd old ndfd new (how OR LOOKUP_REVAL) S
              else Inr (error, S)))"
    if "created (d, new_path, m, i) (gain (path_refs old_path) (holding S)) (holding T)" for d new_path m i old_path T
  proof (rule post_seq2(2) [OF link_work_post])
    fix e deleg and U :: "'a task"
    assume "holding U = holding T"
    then have "holding (done_path_create Y (d, new_path, m, i) U) = gain (path_refs old_path) (holding S)" using that by (intro done_path_create_holding) simp
    then have "holding (t_path_put old_path V) = holding S"
      if "(case deleg of None \<Rightarrow> (e, done_path_create Y (d, new_path, m, i) U) | Some j \<Rightarrow> ask (g j) (done_path_create Y (d, new_path, m, i) U)) = (e', V)"
      for V e' and g :: "nat \<Rightarrow> 'a \<Rightarrow> int \<times> 'a"
      using wait [OF that] by simp
    then show "post (unchanged S) (let S = done_path_create Y (d, new_path, m, i) U;
                  (error, S) = (case deleg of None \<Rightarrow> (e, S) | Some j \<Rightarrow> ask (y_break_deleg_wait Y j) S);
                  S = t_path_put old_path S in
              if deleg \<noteq> None \<and> error = 0 then linkat_loop E Y n odfd old ndfd new how S
              else if retry_estale error how then linkat_loop E Y n odfd old ndfd new (how OR LOOKUP_REVAL) S
              else Inr (error, S))"
      unfolding Let_def by (intro post_prod post_if again) (auto simp: unchanged_def)
  qed
  have second: "post (unchanged S) (case ask new T of (name, S) \<Rightarrow>
          bind_res (filename_create E Y ndfd name (how AND LOOKUP_REVAL) S) (\<lambda>(r, S).
          case r of
            Inl e \<Rightarrow> Inr (e, t_path_put old_path S)
          | Inr (d, new_path, m, i) \<Rightarrow>
              bind_res (link_work E Y old_path d new_path i S) (\<lambda>(error, deleg, S).
              let S = done_path_create Y (d, new_path, m, i) S;
                  (error, S) = (case deleg of None \<Rightarrow> (error, S) | Some j \<Rightarrow> ask (y_break_deleg_wait Y j) S);
                  S = t_path_put old_path S in
              if deleg \<noteq> None \<and> error = 0 then linkat_loop E Y n odfd old ndfd new how S
              else if retry_estale error how then linkat_loop E Y n odfd old ndfd new (how OR LOOKUP_REVAL) S
              else Inr (error, S))))"
    if "holding T = gain (path_refs old_path) (holding S)" for T old_path
    by (rule post_getname [OF assms(3)], rule post_seq2(1) [OF crea], assumption)
      (use that linked in \<open>auto simp: unchanged_simp split: sum.split simp del: post_bind\<close>)
  show ?case
    unfolding linkat_loop.simps Let_def
    by (rule post_getname [OF assms(2)], rule post_seq2(2) [OF look [OF _ Suc.prems]], assumption, intro post_option second [unfolded Let_def])
      (simp_all add: unchanged_simp)
qed simp

text \<open>Unlocking the parents gives back what locking them has taken, if nothing else is held meanwhile.\<close>

lemma lock_inode_post: "post (\<lambda>M'. \<not> i_rwsem (vfs M) a \<and> i_rwsem (vfs M') = (i_rwsem (vfs M))(a := True) \<and> s_vfs_rename_mutex M' = s_vfs_rename_mutex M) (lock_inode a M)"
  by (simp add: lock_inode_def inode_lock_def)

definition parents_locked :: "bool \<Rightarrow> nat \<Rightarrow> nat \<Rightarrow> move_state \<Rightarrow> move_state \<Rightarrow> bool" where
  "parents_locked same i1 i2 M M' \<longleftrightarrow> \<not> i_rwsem (vfs M) i1 \<and> i_rwsem (vfs M') = (i_rwsem (vfs M))(i1 := True, i2 := True) \<and>
     (if same then i1 = i2 \<and> s_vfs_rename_mutex M' = s_vfs_rename_mutex M
      else i1 \<noteq> i2 \<and> \<not> i_rwsem (vfs M) i2 \<and> \<not> s_vfs_rename_mutex M \<and> s_vfs_rename_mutex M')"

lemma lock_rename_post:
  assumes "p1 = p2 \<longrightarrow> i1 = i2"
  shows "post (\<lambda>(trap, M'). parents_locked (p1 = p2) i1 i2 M M') (lock_rename d_ancestor (\<lambda>p. if p = p1 then i1 else i2) p1 p2 M)"
  using assms
  by (auto simp: lock_rename_def mutex_lock_def lock_inode_def inode_lock_def parents_locked_def post_def bind_res_def fun_upd_twist
      split: option.splits if_splits sum.splits)

lemma t_lock_rename_post:
  "post (\<lambda>(trap, i1, i2, T). \<forall>U. holding U = holding T \<longrightarrow> holding (t_unlock_rename Y p1 i1 p2 i2 U) = holding S) (t_lock_rename E Y p1 p2 S)"
proof -
  have undo: "holding (t_unlock_rename Y p1 i1 p2 i2 U) = holding S"
    if M: "parents_locked (p1 = p2) i1 i2 (enter_fs Y S) M" and U: "holding U = holding (leave_fs Y M S)" for i1 i2 M U
  proof -
    have sel: "held_inode U = i_rwsem (vfs M)" "held_rename U = s_vfs_rename_mutex M" "(holding U)\<lparr>a_inode := held_inode S, a_rename := held_rename S\<rparr> = holding S"
      using U by (simp_all add: holding_def leave_fs_def)
    have "i_rwsem (vfs (unlock_rename (\<lambda>p. if p = p1 then i1 else i2) p1 p2 (enter_fs Y U))) = held_inode S"
      "s_vfs_rename_mutex (unlock_rename (\<lambda>p. if p = p1 then i1 else i2) p1 p2 (enter_fs Y U)) = held_rename S"
      using M sel(1,2) by (auto simp: unlock_rename_def unlock_inode_def inode_unlock_def Let_def parents_locked_def fun_eq_iff)
    then show ?thesis using sel(3) by (simp add: t_unlock_rename_def leave_fs_def holding_def)
  qed
  have lock: "post (\<lambda>(trap, i1, i2, T). \<forall>U. holding U = holding T \<longrightarrow> holding (t_unlock_rename Y p1 i1 p2 i2 U) = holding S)
      (bind_res (lock_rename (y_d_ancestor Y (now S)) (\<lambda>p. if p = p1 then i1 else i2) p1 p2 (enter_fs Y S)) (\<lambda>(trap, M). Inr (trap, i1, i2, leave_fs Y M S)))"
    if "p1 = p2 \<longrightarrow> i1 = i2" for i1 i2
    by (rule post_seq2(1) [OF lock_rename_post [OF that]]) (use undo in auto)
  show ?thesis
    unfolding t_lock_rename_def null_ok_def by (auto intro!: lock split: option.split simp del: post_bind)
qed

lemma call_rename_post: "post (\<lambda>(e, deleg, T). holding T = holding S) (call_rename E Y old_path oi old new_path ni new flags S)"
proof -
  have call: "post (\<lambda>(e, deleg, T). holding T = holding S)
      (bind_res (vfs_rename X C oi odn ni ndn flags (vfs (enter_fs Y S))) (\<lambda>(error, odn, ndn, V).
       let S = set_dentry Y new ndn (set_dentry Y old odn (leave_fs Y ((enter_fs Y S)\<lparr>vfs := V\<rparr>) S)) in Inr (error, y_delegated Y error (now S), S)))" for X C odn ndn
    by (rule post_seq2(3) [OF rename_keeps_locks]) (simp add: Let_def holding_leave)
  show ?thesis
    unfolding call_rename_def Let_def [of "y_security _ _ _"] Let_def [of "enter_fs _ _"] by (intro post_if call) simp
qed

lemma rename_target_post:
  "post (\<lambda>(e, deleg, T). holding T = holding S) (rename_target E Y old_path oi old oh onm new_path np ni nh nnm trap flags g S)"
proof -
  have call: "post (\<lambda>(e, deleg, U). holding U = holding T) (if error \<noteq> 0 then Inr (error, None, T) else call_rename E Y old_path oi old new_path ni new flags T)" for error new T
    by (intro post_if call_rename_post) simp
  have work: "post (\<lambda>(e, deleg, U). holding U = holding S)
      (bind_res (rename_error E old oh onm new nh nnm trap flags T) (\<lambda>error.
       bind_res (if error \<noteq> 0 then Inr (error, None, T) else call_rename E Y old_path oi old new_path ni new flags T) (\<lambda>(error, deleg, S).
       Inr (error, deleg, t_dput new S))))" if "holding T = gain (d_ref (Some new)) (holding S)" for new T
    by (rule post_then, rule post_seq2(2) [OF call]) (use that in simp)
  show ?thesis
    unfolding rename_target_def
    by (rule post_seq2(1) [OF t_lookup_hash_post]) (auto intro!: work split: sum.split simp del: post_bind)
qed

lemma rename_deleg_post: "post (unchanged S) (rename_deleg E Y n old_path oh onm new_path nh nnm flags f g S)"
proof (induction n arbitrary: S)
  case (Suc n)
  have source: "post (\<lambda>(e, deleg, V). holding V = H)
      (case r of
         Inl e \<Rightarrow> Inr (e, None, T)
       | Inr old \<Rightarrow> bind_res (if kd_type (w_dentry E (now T) old) = MissType then Inr (- ENOENT, None, T)
                            else rename_target E Y old_path oi old oh onm new_path np ni nh nnm trap flags k T) (\<lambda>(error, deleg, S). Inr (error, deleg, t_dput old S)))"
    if "holding T = with_dentry r H" for r T H oi np ni trap k
  proof (cases r)
    case (Inr old)
    show ?thesis
      unfolding Inr sum.case
      by (rule post_seq2(2) [where Rb = "\<lambda>e deleg V. holding V = holding T"], intro post_if rename_target_post) (use that Inr in simp_all)
  qed (use that in simp)
  have rec: "post (unchanged S) (rename_deleg E Y n old_path oh onm new_path nh nnm flags f g T)" if "holding T = holding S" for T
    using Suc.IH [of T] by (simp add: unchanged_cong [OF that])
  have again: "post (unchanged S) (case ask (y_break_deleg_wait Y j) T of (error, S) \<Rightarrow>
      if error = 0 then rename_deleg E Y n old_path oh onm new_path nh nnm flags f g S else Inr (error, S))" if "holding T = holding S" for j T
    by (intro post_ask post_if rec) (use that in \<open>simp_all add: unchanged_simp\<close>)
  show ?case
    unfolding rename_deleg.simps Let_def
    by (rule post_null, rule post_null, rule post_seq2(3) [OF t_lock_rename_post], rule post_seq2(1) [OF t_lookup_hash_post],
        rule post_seq2(2) [OF source], assumption, intro post_option again) (simp_all add: unchanged_simp)
qed simp

lemma rename_parents_post: "post (unchanged S) (rename_parents E Y old new flags f S)"
proof -
  have run: "post (\<lambda>(e, V). holding V = holding S)
      (case want_write Y m S of (error, S) \<Rightarrow> if error \<noteq> 0 then Inr (error, S)
       else bind_res (rename_deleg E Y n old_path oh onm new_path nh nnm flags f g S) (\<lambda>(error, S). Inr (error, drop_write Y m S)))"
    for m n old_path oh onm new_path nh nnm g
    by (intro post_want_write post_if post_seq2(1) [OF rename_deleg_post [unfolded unchanged_pair]]) simp_all
  show ?thesis
    unfolding rename_parents_def unchanged_pair Let_def
    by (cases old; cases new; simp only: prod.case; intro post_if post_null run; simp)
qed

lemma do_renameat2_post:
  assumes "sys_ok E" "getname_ok old" "getname_ok new"
  shows "post (unchanged S) (do_renameat2 E Y odfd old ndfd new flags S)"
proof -
  note par = t_parentat_post [OF sys_okD(1,2) [OF assms(1)]]
  have both: "post (\<lambda>(b :: bool, e, V). holding V = holding S)
      (bind_res (rename_parents E Y (old_path, oh, onm, old_type) (new_path, nh, nnm, new_type) flags f T) (\<lambda>(error, S).
       Inr (True, error, t_path_put old_path (t_path_put new_path S))))"
    if "holding T = gain (path_refs new_path) (gain (path_refs old_path) (holding S))" for old_path oh onm old_type new_path nh nnm new_type f T
    by (rule post_seq2(1) [OF rename_parents_post [unfolded unchanged_pair]]) (use that in simp)
  have second: "post (\<lambda>(b :: bool, e, V). holding V = holding S) (case ask new T of (to, S) \<Rightarrow>
      bind_res (t_parentat E ndfd to f S) (\<lambda>(error, new, S).
      case new of
        None \<Rightarrow> Inr (False, error, t_path_put old_path S)
      | Some (new_path, nh, nnm, new_type) \<Rightarrow>
          bind_res (rename_parents E Y (old_path, oh, onm, old_type) (new_path, nh, nnm, new_type) flags f S) (\<lambda>(error, S).
          Inr (True, error, t_path_put old_path (t_path_put new_path S)))))"
    if "holding T = gain (path_refs old_path) (holding S)" "f AND LOOKUP_ROOT = 0" for old_path oh onm old_type f T
    by (rule post_getname [OF assms(3)], rule post_seq2(2) [OF par], assumption, rule that(2), intro post_option post_prod both)
      (use that(1) in simp_all)
  have once: "post (\<lambda>(b, e, V). holding V = holding S) (rename_once E Y odfd old ndfd new flags f U)" if "f AND LOOKUP_ROOT = 0" "holding U = holding S" for f U
    unfolding rename_once_def Let_def
    by (rule post_getname [OF assms(2)], rule post_seq2(2) [OF par], assumption, rule that(1), intro post_option post_prod second)
      (use that in simp_all)
  show ?thesis
    unfolding do_renameat2_def by (intro post_if estale_loop_post once LOOKUP_root0) (simp_all add: unchanged_simp)
qed

lemma do_linkat_post:
  assumes "sys_ok E" "getname_ok old" "getname_ok new"
  shows "post (unchanged S) (do_linkat E Y odfd old ndfd new flags S)"
  unfolding do_linkat_def Let_def
  by (intro post_if linkat_loop_post [OF assms]) (simp_all add: unchanged_simp vfs_simps)

lemma sys_unlinkat_post:
  assumes "sys_ok E" "getname_ok g"
  shows "post (unchanged S) (sys_unlinkat E Y dfd g flag S)"
proof -
  have "post (unchanged S) (do_unlinkat E Y dfd name T)" if "holding T = holding S" "name_ok name" for name T
    using do_unlinkat_post [OF assms(1) that(2), of T] by (simp add: unchanged_cong [OF that(1)])
  then show ?thesis
    unfolding sys_unlinkat_def Let_def
    by (intro post_if do_rmdir_post [OF assms] post_getname [OF assms(2)]) (simp_all add: unchanged_simp)
qed

section \<open>Any sequence of system calls\<close>

definition call_ok :: "'k syscall \<Rightarrow> bool" where
  "call_ok c = (case c of
     Mknodat dfd g mode dev \<Rightarrow> getname_ok g | Mkdirat dfd g mode \<Rightarrow> getname_ok g | Rmdir g \<Rightarrow> getname_ok g | Unlinkat dfd g flag \<Rightarrow> getname_ok g
   | Symlinkat old dfd g \<Rightarrow> getname_ok g | Linkat odfd old ndfd new flags \<Rightarrow> getname_ok old \<and> getname_ok new
   | Renameat2 odfd old ndfd new flags \<Rightarrow> getname_ok old \<and> getname_ok new)"

lemma run_syscall_post: "sys_ok E \<Longrightarrow> call_ok c \<Longrightarrow> post (unchanged S) (run_syscall E Y c S)"
  by (cases c) (simp_all add: run_syscall_def call_ok_def do_mknodat_post do_mkdirat_post do_rmdir_post sys_unlinkat_post do_symlinkat_post
      do_linkat_post do_renameat2_post)

lemma run_syscalls_post:
  assumes "sys_ok E"
  shows "list_all call_ok cs \<Longrightarrow> post (\<lambda>(rs, T). length rs = length cs \<and> holding T = holding S) (run_syscalls E Y cs S)"
proof (induction cs arbitrary: S)
  case (Cons c cs)
  then have c: "call_ok c" "list_all call_ok cs" by simp_all
  show ?case
    unfolding run_syscalls.simps
    by (rule post_seq2(1) [OF run_syscall_post [OF assms c(1), unfolded unchanged_pair]], rule post_seq2(1) [OF Cons.IH [OF c(2)]]) simp
qed simp

end
