(* ===== verification/Sys_Claims.thy ===== *)
theory Sys_Claims
  imports Sys_Props Vfs_Mknod_Props
begin

text \<open>
  The properties of the system calls: they leave nothing behind, and a file of a new name is made in the directory that the
  name leads to. The small tree of the path walk, with an empty root, meets all conditions.
\<close>

section \<open>A name that is not there yet\<close>

text \<open>
  The last component \<open>c\<close> of a name in the directory \<open>e\<close> with inode \<open>i\<close>: it is not in the cache, the dentry \<open>d\<close> is allocated for
  it, and the file system does not know it either. The worlds after the two steps are \<open>w1\<close> and \<open>w2\<close>.
\<close>

definition new_name :: "('k, 'a) walk_env \<Rightarrow> 'k sys_env \<Rightarrow> 'k \<Rightarrow> nat \<Rightarrow> nat \<Rightarrow> nat \<Rightarrow> nat \<Rightarrow> bytes \<Rightarrow> 'k \<Rightarrow> 'k \<Rightarrow> bool" where
  "new_name E Y w m e i d c w1 w2 \<longleftrightarrow>
     kd_inode (w_dentry E w e) = Some i \<and> \<not> IS_DEADDIR (w_inode E w i) \<and> y_want_write Y m w = (0, w) \<and>
     (\<forall>h s. take (hashlen_len h) s = c \<longrightarrow> y_d_lookup Y e h s w = (None, w) \<and> y_d_alloc Y e h s w = (Some d, w1)) \<and>
     (\<forall>g. k_iop_lookup E i d g w1 = (LookedNull, w2)) \<and> kd_type (w_dentry E w2 d) = MissType"

lemma t_parentat_runs:
  assumes "quiet E w m r D entries" "now S = w" "flags AND LOOKUP_ROOT = 0"
    "\<forall>c\<in>set cs. valid_component c" "cs \<noteq> []" "length (rel_path cs) \<le> PATH_MAX" "length cs < w_fuel E"
    "resolve entries (node_up E w) (node_isdir E w) r (butlast cs) r = Some e" "node_isdir E w e"
  shows "\<exists>h s W. t_parentat E dfd (Inr (abs_path cs)) flags S = Inr (0, Some (place_on m e, h, s, name_type (last cs)), S\<lparr>wk := W\<rparr>) \<and>
    take (hashlen_len h) s = last cs \<and> drop (hashlen_len h) s = [0] \<and> world W = w"
proof -
  have "world (wk S) = w" using assms(2) by (simp add: now_def)
  from quiet_kernel.filename_parentat_runs [OF quiet_kernel.intro [OF assms(1)] this assms(3-9), of dfd None] show ?thesis
    by (auto simp: t_parentat_def)
qed

lemma filename_create_runs:
  assumes "quiet E w m r D entries" "now S = w" "\<forall>c\<in>set cs. valid_component c" "cs \<noteq> []" "length (rel_path cs) \<le> PATH_MAX" "length cs < w_fuel E"
    "resolve entries (node_up E w) (node_isdir E w) r (butlast cs) r = Some e" "node_isdir E w e" "name_type (last cs) = LAST_NORM"
    "new_name E Y w m e i d (last cs) w1 w2" "\<not> held_inode S i"
  shows "\<exists>T. filename_create E Y dfd (Inr (abs_path cs)) flags S = Inr (Inr (d, place_on m e, m, i), T) \<and> now T = w2 \<and>
    held_inode T = (held_inode S)(i := True) \<and> held_rename T = held_rename S"
proof -
  have root: "(flags AND LOOKUP_REVAL) AND LOOKUP_ROOT = 0" by (simp add: vfs_simps and.assoc)
  from t_parentat_runs [OF assms(1,2) root assms(3-8), of dfd] obtain h s W where
    p: "t_parentat E dfd (Inr (abs_path cs)) (flags AND LOOKUP_REVAL) S = Inr (0, Some (place_on m e, h, s, LAST_NORM), S\<lparr>wk := W\<rparr>)"
      "take (hashlen_len h) s = last cs" "drop (hashlen_len h) s = [0]" "world W = w"
    using assms(9) by auto
  have len: "hashlen_len h \<le> length s" using p(3) by (metis drop_eq_Nil list.distinct(1) nle_le)
  have after: "after_last h s = Inr 0" using p(3) len by (simp add: after_last_def advance_def char_at_def)
  show ?thesis
    using assms(10,11) p(2,4) after
    by (simp add: filename_create_def p(1) Let_def new_name_def place_on_def want_write_def ask_eq null_ok_def dir_lock_def now_def
        t_lookup_hash_def lookup_hash_def lookup_dcache_def kop_eq create_error_def)
qed

lemma create_at_runs:
  assumes "quiet E w m r D entries" "now S = w" "\<forall>c\<in>set cs. valid_component c" "cs \<noteq> []" "length (rel_path cs) \<le> PATH_MAX" "length cs < w_fuel E"
    "resolve entries (node_up E w) (node_isdir E w) r (butlast cs) r = Some e" "node_isdir E w e" "name_type (last cs) = LAST_NORM"
    "new_name E Y w m e i d (last cs) w1 w2" "\<not> held_inode S i" "getname w = (Inr (abs_path cs), w)"
    "\<And>T. now T = w2 \<Longrightarrow> held_inode T = (held_inode S)(i := True) \<Longrightarrow> held_rename T = held_rename S \<Longrightarrow> \<exists>U. work d (place_on m e) i T = Inr (err, U) \<and> now U = w3"
    "err \<noteq> - ESTALE"
  shows "\<exists>T. estale_loop (create_at E Y dfd getname work) flags S = Inr (err, T) \<and> now T = y_drop_write Y m w3"
proof -
  let ?S = "S\<lparr>wk := (wk S)\<lparr>world := w\<rparr>\<rparr>"
  have S: "ask getname S = (Inr (abs_path cs), ?S)" using assms(2,12) by (simp add: ask_eq)
  have "now ?S = w" "\<not> held_inode ?S i" using assms(11) by simp_all
  from filename_create_runs [OF assms(1) this(1) assms(3-10) this(2), of dfd flags] obtain T where
    T: "filename_create E Y dfd (Inr (abs_path cs)) flags ?S = Inr (Inr (d, place_on m e, m, i), T)" "now T = w2"
      "held_inode T = (held_inode S)(i := True)" "held_rename T = held_rename S" by auto
  from assms(13) [OF T(2-4)] obtain U where U: "work d (place_on m e) i T = Inr (err, U)" "now U = w3" by blast
  show ?thesis
    using assms(14) U(2)
    by (simp add: estale_loop_def create_at_def S T(1) U(1) retry_estale_def done_path_create_def t_path_put_def drop_write_def dir_unlock_def t_dput_def now_def)
qed

lemma mknod_work_runs:
  assumes "masked E mode AND S_IFMT = 0 \<or> masked E mode AND S_IFMT = S_IFREG" "y_security Y (HookMknod path d (masked E mode) dev) w2 = 0"
    "vfs_create (y_plat Y) (y_kenv Y) (y_junk Y) (w_cred E) i (y_dentry Y w2 d) (masked E mode) ((vfs (y_move Y w2))\<lparr>i_rwsem := L\<rparr>) = Inr (err, dn, V)"
    "now T = w2" "held_inode T = L" "held_rename T = b"
  shows "\<exists>U. mknod_work E Y mode dev d path i T = Inr (err, U) \<and>
    now U = y_put_dentry Y d dn (y_put_move Y ((y_move Y w2)\<lparr>s_vfs_rename_mutex := b, vfs := V\<rparr>) w2)"
  using assms by (auto simp: mknod_work_def Let_def call_vfs_def enter_fs_def leave_fs_def set_dentry_def now_def)

lemma mknod_loop: "may_mknod mode = 0 \<Longrightarrow> do_mknodat E Y dfd filename mode dev S = estale_loop (create_at E Y dfd filename (mknod_work E Y mode dev)) 0 S"
  by (simp add: do_mknodat_def)

section \<open>A small example\<close>

text \<open>An empty root on one mount; \<open>demo_sys\<close> makes files in the file system of \<open>demo_vst\<close>, whose root directory is inode 0.\<close>

definition empty_walk_env :: "(unit, unit) walk_env" where
  "empty_walk_env = demo_walk_env\<lparr>k_d_lookup_rcu := (\<lambda>_ _ _ w. (None, w)), k_d_lookup := (\<lambda>_ _ _ w. (None, w))\<rparr>"

definition demo_sys :: "unit sys_env" where
  "demo_sys = \<lparr>y_plat = x86_64_smp, y_kenv = demo_env, y_junk = 0, y_ops = demo_move,
     y_move = (\<lambda>_. \<lparr>vfs = demo_vst blank_sb, i_linkable = (\<lambda>_. False), s_vfs_rename_mutex = False\<rparr>), y_put_move = (\<lambda>_ w. w),
     y_dentry = (\<lambda>_ _. demo_dentry), y_put_dentry = (\<lambda>_ _ w. w), y_sole = (\<lambda>_ _. True), y_d_lookup = (\<lambda>_ _ _ w. (None, w)),
     y_d_alloc = (\<lambda>_ _ _ w. (Some 3, w)), y_d_ancestor = (\<lambda>_ _ _. None), y_want_write = (\<lambda>_ w. (0, w)), y_drop_write = (\<lambda>_ w. w),
     y_security = (\<lambda>_ _. 0), y_delegated = (\<lambda>_ _. None), y_break_deleg_wait = (\<lambda>_ w. (0, w)), y_iput = (\<lambda>_ w. w), y_decode_dev = id\<rparr>"

definition demo_task :: "unit task" where
  "demo_task = \<lparr>wk = demo_walk, held_inode = (\<lambda>_. False), held_rename = False, writers = (\<lambda>_. 0), irefs = (\<lambda>_. 0)\<rparr>"

definition demo_name :: "unit getname" where
  "demo_name w = (Inr (abs_path [[97]]), w)"

lemma empty_env_ok: "env_ok empty_walk_env" "fuel_ok empty_walk_env" "negative_ok empty_walk_env"
proof -
  have "hash_ok empty_walk_env" by (rule byte_hash.hash_ok_walk) (simp_all add: empty_walk_env_def demo_walk_env_def)
  then show "env_ok empty_walk_env" "fuel_ok empty_walk_env"
    by (simp_all add: env_ok_def)
      (simp_all add: fs_ok_def errs_ok_def links_ok_def fuel_ok_def empty_walk_env_def demo_walk_env_def place_on_def ENOMEM_def MAXSYMLINKS_def PATH_MAX_def)
  show "negative_ok empty_walk_env" by (simp add: negative_ok_def empty_walk_env_def demo_walk_env_def demo_node_def)
qed

lemma empty_quiet: "quiet empty_walk_env () 0 0 {0} (\<lambda>_ _. None)"
proof -
  have "tree_still empty_walk_env () 0 0 {0} (\<lambda>_ _. None)"
    by (auto simp: tree_still_def empty_walk_env_def demo_walk_env_def place_on_def demo_node_def plain_def)
  moreover have "answers_still empty_walk_env () 0 {0} (\<lambda>_ _. None)"
    by (simp add: answers_still_def empty_walk_env_def demo_walk_env_def demo_search)
  moreover have "hash_ok empty_walk_env" using empty_env_ok(1) by (simp add: env_ok_def)
  ultimately show ?thesis by (simp add: quiet_def)
qed

lemma demo_name_facts:
  "now demo_task = ()" "\<forall>c\<in>set [[97]]. valid_component c" "[[97 :: u8]] \<noteq> []" "length (rel_path [[97]]) \<le> PATH_MAX" "length [[97 :: u8]] < w_fuel empty_walk_env"
  "resolve (\<lambda>_ _. None) (node_up empty_walk_env ()) (node_isdir empty_walk_env ()) 0 (butlast [[97]]) 0 = Some 0" "node_isdir empty_walk_env () 0"
  "name_type (last [[97]]) = LAST_NORM" "new_name empty_walk_env demo_sys () 0 0 0 3 (last [[97]]) () ()" "\<not> held_inode demo_task 0"
  "demo_name () = (Inr (abs_path [[97]]), ())"
  by (simp_all add: now_def valid_component_def PATH_MAX_def node_isdir_def empty_walk_env_def demo_walk_env_def demo_node_def name_type_def new_name_def
      demo_sys_def demo_task_def demo_name_def IS_DEADDIR_def demo_vinode_def)

lemma create_other_locks:
  "vfs_create P K junk E dir dn mode V = Inr (e, dn', U) \<Longrightarrow> vfs_create P K junk E dir dn mode (V\<lparr>i_rwsem := L\<rparr>) = Inr (e, dn', U\<lparr>i_rwsem := L\<rparr>)"
  by (auto simp: vfs_create_def get_vinode_def vinode_of_def put_opflags_def bind_res_def Let_def split: sum.splits option.splits prod.splits if_splits)

lemma demo_sys_created:
  "masked empty_walk_env 0x1A4 = 0x1A4" "may_mknod 0x1A4 = 0"
  "\<exists>dn V. vfs_create (y_plat demo_sys) (y_kenv demo_sys) (y_junk demo_sys) (w_cred empty_walk_env) 0 (y_dentry demo_sys () 3) 0x1A4
     ((vfs (y_move demo_sys ()))\<lparr>i_rwsem := L\<rparr>) = Inr (0, dn, V)"
proof -
  show "masked empty_walk_env 0x1A4 = 0x1A4" by (simp add: masked_def empty_walk_env_def demo_walk_env_def demo_venv_def)
  show "may_mknod 0x1A4 = 0" by (simp add: may_mknod_def vfs_simps S_IFMT_def S_IFREG_def)
  obtain dn V where "vfs_create x86_64_smp demo_env 0 demo_venv 0 demo_dentry 0x1A4 (demo_vst blank_sb) = Inr (0, dn, V)" using demo_vfs_create by blast
  from create_other_locks [OF this, of L] show "\<exists>dn V. vfs_create (y_plat demo_sys) (y_kenv demo_sys) (y_junk demo_sys) (w_cred empty_walk_env) 0
      (y_dentry demo_sys () 3) 0x1A4 ((vfs (y_move demo_sys ()))\<lparr>i_rwsem := L\<rparr>) = Inr (0, dn, V)"
    by (simp add: demo_sys_def empty_walk_env_def demo_walk_env_def)
qed

lemma demo_mknod: "\<exists>T. do_mknodat empty_walk_env demo_sys AT_FDCWD demo_name 0x1A4 0 demo_task = Inr (0, T)"
proof -
  obtain dn V where r: "vfs_create (y_plat demo_sys) (y_kenv demo_sys) (y_junk demo_sys) (w_cred empty_walk_env) 0 (y_dentry demo_sys () 3) 0x1A4
      ((vfs (y_move demo_sys ()))\<lparr>i_rwsem := (held_inode demo_task)(0 := True)\<rparr>) = Inr (0, dn, V)"
    using demo_sys_created(3) by blast
  have v: "vfs_create (y_plat demo_sys) (y_kenv demo_sys) (y_junk demo_sys) (w_cred empty_walk_env) 0 (y_dentry demo_sys () 3) (masked empty_walk_env 0x1A4)
      ((vfs (y_move demo_sys ()))\<lparr>i_rwsem := (held_inode demo_task)(0 := True)\<rparr>) = Inr (0, dn, V)"
    unfolding demo_sys_created(1) by (rule r)
  have m: "masked empty_walk_env 0x1A4 AND S_IFMT = 0 \<or> masked empty_walk_env 0x1A4 AND S_IFMT = S_IFREG" by (simp add: demo_sys_created(1) S_IFMT_def)
  have y: "y_security demo_sys (HookMknod (place_on 0 0) 3 (masked empty_walk_env 0x1A4) 0) () = 0" by (simp add: demo_sys_def)
  have e: "(0 :: int) \<noteq> - ESTALE" by (simp add: ESTALE_def)
  show ?thesis
    unfolding mknod_loop [OF demo_sys_created(2)]
    using create_at_runs [where work = "mknod_work empty_walk_env demo_sys 0x1A4 0" and getname = demo_name and flags = 0 and dfd = AT_FDCWD, OF empty_quiet
        demo_name_facts mknod_work_runs [where b = "held_rename demo_task", OF m y v] e] by blast
qed

section \<open>Properties\<close>

text \<open>
  C5: No sequence of system calls that create, delete, link or rename leaves anything behind, whatever the rest of the
  kernel answers and whatever errors the calls return: when it returns, the task holds exactly the references to dentries,
  mounts and inodes, the inode locks, the rename mutex, the write accesses to mounts and the RCU read sections that it held
  before.
\<close>
theorem syscalls_leave_nothing:
  assumes "env_ok E" "fuel_ok E" "negative_ok E" "list_all call_ok cs" "run_syscalls E Y cs S = Inr (rs, T)"
  shows "dref (wk T) = dref (wk S) \<and> mref (wk T) = mref (wk S) \<and> irefs T = irefs S \<and> held_inode T = held_inode S \<and> held_rename T = held_rename S \<and>
    writers T = writers S \<and> ishared (wk T) = ishared (wk S) \<and> rcu_nest (wk T) = rcu_nest (wk S) \<and> length rs = length cs"
proof -
  have "sys_ok E" using assms(1-3) by (simp add: sys_ok_def)
  from postD [OF run_syscalls_post [OF this assms(4), of S Y] assms(5)] have T: "holding T = holding S" "length rs = length cs" by simp_all
  then have "refs (wk T) (Inl a) = refs (wk S) (Inl a)" "refs (wk T) (Inr a) = refs (wk S) (Inr a)" for a by (simp_all add: holding_def)
  with T show ?thesis by (simp add: holding_def refs_def fun_eq_iff)
qed

theorem syscalls_leave_nothing_witness:
  "\<exists>T. run_syscalls empty_walk_env demo_sys [Mknodat AT_FDCWD demo_name 0x1A4 0] demo_task = Inr ([0], T) \<and> dref (wk T) = (\<lambda>_. 0) \<and> mref (wk T) = (\<lambda>_. 0) \<and>
     held_inode T = (\<lambda>_. False) \<and> writers T = (\<lambda>_. 0)"
proof -
  obtain T where m: "do_mknodat empty_walk_env demo_sys AT_FDCWD demo_name 0x1A4 0 demo_task = Inr (0, T)" using demo_mknod by blast
  then have T: "run_syscalls empty_walk_env demo_sys [Mknodat AT_FDCWD demo_name 0x1A4 0] demo_task = Inr ([0], T)"
    by (simp add: run_syscall_def)
  have "list_all call_ok [Mknodat AT_FDCWD demo_name 0x1A4 0]"
    by (simp add: call_ok_def getname_ok_def demo_name_def name_ok_def abs_path_def cstring_def PATH_MAX_def)
  from syscalls_leave_nothing [OF empty_env_ok this T] have
    "dref (wk T) = (\<lambda>_. 0)" "mref (wk T) = (\<lambda>_. 0)" "held_inode T = (\<lambda>_. False)" "writers T = (\<lambda>_. 0)" by (simp_all add: demo_task_def demo_walk_def)
  with T show ?thesis by blast
qed

text \<open>
  C9: In a tree that is in the cache, on one mount, without symbolic links and with no other task at work, \<open>mknod\<close> of a
  regular file under an absolute name that has no entry yet does what \<open>vfs_create\<close> does in the directory that
  the components before the last lead to: with the umask applied to the mode, the lock of that directory held and the
  dentry of the last component. It returns the same error code, and the world changes by that and by giving up the write access.
\<close>
theorem mknod_creates_in_parent:
  assumes "quiet E w m r D entries" "now S = w" "\<forall>c\<in>set cs. valid_component c" "cs \<noteq> []" "length (rel_path cs) \<le> PATH_MAX" "length cs < w_fuel E"
    "resolve entries (node_up E w) (node_isdir E w) r (butlast cs) r = Some e" "node_isdir E w e" "name_type (last cs) = LAST_NORM"
    "new_name E Y w m e i d (last cs) w1 w2" "\<not> held_inode S i" "filename w = (Inr (abs_path cs), w)"
    "may_mknod mode = 0" "masked E mode AND S_IFMT = 0 \<or> masked E mode AND S_IFMT = S_IFREG"
    "y_security Y (HookMknod (place_on m e) d (masked E mode) dev) w2 = 0"
    "vfs_create (y_plat Y) (y_kenv Y) (y_junk Y) (w_cred E) i (y_dentry Y w2 d) (masked E mode) ((vfs (y_move Y w2))\<lparr>i_rwsem := (held_inode S)(i := True)\<rparr>) =
       Inr (err, dn, V)" "err \<noteq> - ESTALE"
  shows "\<exists>T. do_mknodat E Y dfd filename mode dev S = Inr (err, T) \<and>
    now T = y_drop_write Y m (y_put_dentry Y d dn (y_put_move Y ((y_move Y w2)\<lparr>s_vfs_rename_mutex := held_rename S, vfs := V\<rparr>) w2))"
  unfolding mknod_loop [OF assms(13)]
  by (rule create_at_runs [where work = "mknod_work E Y mode dev" and getname = filename, OF assms(1-12) mknod_work_runs [where b = "held_rename S", OF assms(14-16)] assms(17)])

theorem mknod_creates_in_parent_witness:
  "\<exists>dn V T. vfs_create x86_64_smp demo_env 0 demo_venv 0 demo_dentry 0x1A4 ((demo_vst blank_sb)\<lparr>i_rwsem := (\<lambda>_. False)(0 := True)\<rparr>) = Inr (0, dn, V) \<and>
     do_mknodat empty_walk_env demo_sys AT_FDCWD demo_name 0x1A4 0 demo_task = Inr (0, T)"
proof -
  obtain dn V where r: "vfs_create (y_plat demo_sys) (y_kenv demo_sys) (y_junk demo_sys) (w_cred empty_walk_env) 0 (y_dentry demo_sys () 3) 0x1A4
      ((vfs (y_move demo_sys ()))\<lparr>i_rwsem := (held_inode demo_task)(0 := True)\<rparr>) = Inr (0, dn, V)"
    using demo_sys_created(3) by blast
  have v: "vfs_create (y_plat demo_sys) (y_kenv demo_sys) (y_junk demo_sys) (w_cred empty_walk_env) 0 (y_dentry demo_sys () 3) (masked empty_walk_env 0x1A4)
      ((vfs (y_move demo_sys ()))\<lparr>i_rwsem := (held_inode demo_task)(0 := True)\<rparr>) = Inr (0, dn, V)"
    unfolding demo_sys_created(1) by (rule r)
  have m: "masked empty_walk_env 0x1A4 AND S_IFMT = 0 \<or> masked empty_walk_env 0x1A4 AND S_IFMT = S_IFREG" by (simp add: demo_sys_created(1) S_IFMT_def)
  have y: "y_security demo_sys (HookMknod (place_on 0 0) 3 (masked empty_walk_env 0x1A4) 0) () = 0" by (simp add: demo_sys_def)
  have "(0 :: int) \<noteq> - ESTALE" by (simp add: ESTALE_def)
  from mknod_creates_in_parent [where filename = demo_name and dfd = AT_FDCWD, OF empty_quiet demo_name_facts demo_sys_created(2) m y v this]
  have "\<exists>T. do_mknodat empty_walk_env demo_sys AT_FDCWD demo_name 0x1A4 0 demo_task = Inr (0, T)" by blast
  moreover have "\<exists>dn V. vfs_create x86_64_smp demo_env 0 demo_venv 0 demo_dentry 0x1A4 ((demo_vst blank_sb)\<lparr>i_rwsem := (\<lambda>_. False)(0 := True)\<rparr>) = Inr (0, dn, V)"
    using r by (auto simp: demo_sys_def empty_walk_env_def demo_walk_env_def demo_task_def)
  ultimately show ?thesis by blast
qed


end
