(* ===== verification/Walk_Other.thy ===== *)
theory Walk_Other
  imports Sys_Paths
begin

text \<open>
  Lookups beside \<open>filename_lookup\<close> (\<open>extra/namei.c\<close>): of a single component for file systems (\<open>lookup_one_len\<close> and
  its kin), and of a path to be unmounted, whose last component is not revalidated. The name that
  \<open>lookup_slow\<close> gets is passed in the fields of \<open>nd->last\<close>. The hash of a name (\<open>full_name_hash\<close>) is an argument, as in the walk: it has two configurations.
\<close>

section \<open>A single component\<close>

text \<open>The loop over the bytes: whether one of the first \<open>n\<close> is a slash or NUL.\<close>

fun bad_bytes :: "nat \<Rightarrow> bytes \<Rightarrow> bool res" where
  "bad_bytes 0 s = Inr False"
| "bad_bytes (Suc n) s = bind_res (char_at s) (\<lambda>c. if c = 47 \<or> c = 0 then Inr True else bad_bytes n (tl s))"

definition only_dots :: "bytes \<Rightarrow> nat \<Rightarrow> bool res" where
  "only_dots name len =
     bind_res (char_at name) (\<lambda>c.
     if c \<noteq> 46 then Inr False
     else if len < 2 then Inr True
     else if len = 2 then bind_res (char_at (tl name)) (\<lambda>c. Inr (c = 46))
     else Inr False)"

definition lookup_one_len_common ::
  "('k, 'a) walk_env \<Rightarrow> (nat \<Rightarrow> bytes \<Rightarrow> nat \<Rightarrow> u64 res) \<Rightarrow> bytes \<Rightarrow> nat \<Rightarrow> nat \<Rightarrow> 'k walk \<Rightarrow> (int \<times> u64 \<times> bytes \<times> 'k walk) res" where
  "lookup_one_len_common E hash_of name dir len S =
     bind_res (hash_of dir name len) (\<lambda>hash_len.
     if len = 0 then Inr (- EACCES, hash_len, name, S)
     else bind_res (only_dots name len) (\<lambda>dots.
     if dots then Inr (- EACCES, hash_len, name, S)
     else bind_res (bad_bytes len name) (\<lambda>bad.
     if bad then Inr (- EACCES, hash_len, name, S)
     else let dn = w_dentry E (world S) dir;
              ((err, hash_len, name), S) = (if kd_op_hash dn then kop (k_d_hash E dir hash_len name) S else ((0, hash_len, name), S)) in
     if kd_op_hash dn \<and> err < 0 then Inr (err, hash_len, name, S)
     else bind_res (walk_permission E (kd_inode (w_dentry E (world S) dir)) MAY_EXEC S) (\<lambda>(err, S). Inr (err, hash_len, name, S)))))"

definition try_lookup_one_len ::
  "('k, 'a) walk_env \<Rightarrow> 'k sys_env \<Rightarrow> (nat \<Rightarrow> bytes \<Rightarrow> nat \<Rightarrow> u64 res) \<Rightarrow> bytes \<Rightarrow> nat \<Rightarrow> nat \<Rightarrow> 'k walk \<Rightarrow> ((int + nat option) \<times> 'k walk) res" where
  "try_lookup_one_len E Y hash_of name dir len S =
     bind_res (lookup_one_len_common E hash_of name dir len S) (\<lambda>(err, h, nm, S).
     Inr (if err \<noteq> 0 then (Inl err, S) else lookup_dcache E Y h nm dir 0 S))"

text \<open>\<open>__lookup_slow\<close>: \<open>lookup_slow\<close> without the lock of the directory.\<close>

definition lookup_slow_unlocked :: "('k, 'a) walk_env \<Rightarrow> nat \<Rightarrow> u32 \<Rightarrow> 'k walk \<Rightarrow> ((int + nat) \<times> 'k walk) res" where
  "lookup_slow_unlocked E dir flags S =
     bind_res (null_ok (kd_inode (w_dentry E (world S) dir))) (\<lambda>inode.
     if IS_DEADDIR (w_inode E (world S) inode) then Inr (Inl (- ENOENT), S)
     else lookup_slow_loop E (w_fuel E) dir inode flags S)"

definition one_len_with ::
  "('k, 'a) walk_env \<Rightarrow> 'k sys_env \<Rightarrow> (nat \<Rightarrow> u32 \<Rightarrow> 'k walk \<Rightarrow> ((int + nat) \<times> 'k walk) res) \<Rightarrow> (nat \<Rightarrow> bytes \<Rightarrow> nat \<Rightarrow> u64 res) \<Rightarrow> bytes \<Rightarrow>
   nat \<Rightarrow> nat \<Rightarrow> 'k walk \<Rightarrow> ((int + nat) \<times> 'k walk) res" where
  "one_len_with E Y slow hash_of name dir len S =
     bind_res (lookup_one_len_common E hash_of name dir len S) (\<lambda>(err, h, nm, S).
     if err \<noteq> 0 then Inr (Inl err, S)
     else let (r, S) = lookup_dcache E Y h nm dir 0 S in
          (case r of
             Inl e \<Rightarrow> Inr (Inl e, S)
           | Inr (Some d) \<Rightarrow> Inr (Inr d, S)
           | Inr None \<Rightarrow> slow dir 0 (S\<lparr>nd_last_hash := h, nd_last_name := nm\<rparr>)))"

definition lookup_one_len ::
  "('k, 'a) walk_env \<Rightarrow> 'k sys_env \<Rightarrow> (nat \<Rightarrow> bytes \<Rightarrow> nat \<Rightarrow> u64 res) \<Rightarrow> bytes \<Rightarrow> nat \<Rightarrow> nat \<Rightarrow> 'k walk \<Rightarrow> ((int + nat) \<times> 'k walk) res" where
  "lookup_one_len E Y = one_len_with E Y (lookup_slow_unlocked E)"

definition lookup_one_len_unlocked ::
  "('k, 'a) walk_env \<Rightarrow> 'k sys_env \<Rightarrow> (nat \<Rightarrow> bytes \<Rightarrow> nat \<Rightarrow> u64 res) \<Rightarrow> bytes \<Rightarrow> nat \<Rightarrow> nat \<Rightarrow> 'k walk \<Rightarrow> ((int + nat) \<times> 'k walk) res" where
  "lookup_one_len_unlocked E Y = one_len_with E Y (lookup_slow E)"

section \<open>A path to be unmounted\<close>

text \<open>The last component as a dentry with a reference, from the cache if it is there.\<close>

definition mountpoint_dentry :: "('k, 'a) walk_env \<Rightarrow> 'k sys_env \<Rightarrow> nat option \<Rightarrow> 'k walk \<Rightarrow> ((int + nat) \<times> 'k walk) res" where
  "mountpoint_dentry E Y dir S =
     (if nd_last_type S \<noteq> LAST_NORM
      then bind_res (handle_dots E (nd_last_type S) S) (\<lambda>(error, S).
           if error \<noteq> 0 then Inr (Inl error, S)
           else bind_res (null_ok (p_dentry (nd_path S))) (\<lambda>d. Inr (Inr d, dget (Some d) S)))
      else bind_res (null_ok dir) (\<lambda>dir.
           let (found, S) = kop (y_d_lookup Y dir (nd_last_hash S) (nd_last_name S)) S in
           case found of
             Some d \<Rightarrow> Inr (Inr d, dget (Some d) S)
           | None \<Rightarrow> lookup_slow E dir (nd_flags S OR LOOKUP_NO_REVAL) S))"

definition mountpoint_last :: "('k, 'a) walk_env \<Rightarrow> 'k sys_env \<Rightarrow> 'k walk \<Rightarrow> (int \<times> 'k walk) res" where
  "mountpoint_last E Y S =
     (let dir = p_dentry (nd_path S) in
      bind_res (if in_rcu S then unlazy_walk E S else Inr (0, S)) (\<lambda>(e, S).
      if e \<noteq> 0 then Inr (- ECHILD, S)
      else bind_res (mountpoint_dentry E Y dir (S\<lparr>nd_flags := nd_flags S AND NOT LOOKUP_PARENT\<rparr>)) (\<lambda>(r, S).
      case r of
        Inl error \<Rightarrow> Inr (error, S)
      | Inr d \<Rightarrow>
          let dn = w_dentry E (world S) d in
          if kd_type dn = MissType then Inr (- ENOENT, dput (Some d) S)
          else step_into E False False \<lparr>p_mnt = p_mnt (nd_path S), p_dentry = Some d\<rparr> (kd_inode dn) 0 S)))"

definition path_mountpoint :: "('k, 'a) walk_env \<Rightarrow> 'k sys_env \<Rightarrow> u32 \<Rightarrow> 'k walk \<Rightarrow> (int \<times> vpath option \<times> 'k walk) res" where
  "path_mountpoint E Y flags S =
     bind_res (path_init E flags S) (\<lambda>(s, S).
     bind_res (lookup_loop E (mountpoint_last E Y) (w_fuel E) s S) (\<lambda>(err, S).
     bind_res (if err = 0
               then bind_res (follow_mount E (w_fuel E) (nd_path S) (S\<lparr>nd_path := null_path\<rparr>)) (\<lambda>(path, S). Inr (Some path, S))
               else Inr (None, S)) (\<lambda>(path, S).
     bind_res (terminate_walk E S) (\<lambda>S. Inr (err, path, S)))))"

definition filename_mountpoint ::
  "('k, 'a) walk_env \<Rightarrow> 'k sys_env \<Rightarrow> int \<Rightarrow> int + bytes \<Rightarrow> u32 \<Rightarrow> int option \<Rightarrow> 'k walk \<Rightarrow> (int \<times> vpath option \<times> int option \<times> 'k walk) res" where
  "filename_mountpoint E Y dfd name flags old S =
     (case name of
        Inl e \<Rightarrow> Inr (e, None, old, S)
      | Inr s \<Rightarrow>
          bind_res (with_retries (path_mountpoint E Y) flags (set_nameidata E dfd s old S)) (\<lambda>(retval, path, S).
          let (old, S) = restore_nameidata old S in Inr (retval, path, old, S)))"

end
