(* ===== verification/Walk_Other_Props.thy ===== *)
theory Walk_Other_Props
  imports Walk_Other Sys_Holding
begin

text \<open>
  The properties of the lookups beside \<open>filename_lookup\<close>. A lookup of one component refuses exactly the
  names a path component cannot have, and returns a dentry with one reference or nothing. The lookup of a
  path to be unmounted keeps the balance of a walk on every way through it, like the other walks.
\<close>

section \<open>The name of a single component\<close>

lemma bad_bytes_eq: "n \<le> length s \<Longrightarrow> bad_bytes n s = Inr (0 \<in> set (take n s) \<or> 47 \<in> set (take n s))"
proof (induction n s rule: bad_bytes.induct)
  case (2 n s)
  then show ?case by (cases s) (auto simp: char_at_def)
qed simp

lemma only_dots_eq:
  assumes "0 < len" "len \<le> length name"
  shows "only_dots name len = Inr (take len name = [46] \<or> take len name = [46, 46])"
proof (cases name)
  case (Cons c s)
  consider "len = 1" | "len = 2" | n where "len = Suc (Suc (Suc n))" using assms(1) by (metis One_nat_def Suc_1 gr0_implies_Suc not0_implies_Suc)
  then show ?thesis
  proof cases
    case 2
    then obtain d t where "s = d # t" using Cons assms(2) by (cases s) auto
    then show ?thesis using 2 Cons by (simp add: only_dots_def char_at_def)
  next
    case (3 n)
    then obtain d e t where "s = d # e # t" using Cons assms(2) by (cases s; cases "tl s") auto
    then show ?thesis using 3 Cons by (simp add: only_dots_def char_at_def)
  qed (simp add: only_dots_def char_at_def Cons)
qed (use assms in simp)

text \<open>The names of entries, which are components but neither \<open>.\<close> nor \<open>..\<close>.\<close>

definition entry_name :: "bytes \<Rightarrow> bool" where
  "entry_name c \<longleftrightarrow> valid_component c \<and> c \<noteq> [46] \<and> c \<noteq> [46, 46]"

theorem lookup_one_len_common_refuses:
  assumes "len \<le> length name" "hash_of dir name len = Inr h" "\<not> entry_name (take len name)"
  shows "lookup_one_len_common E hash_of name dir len S = Inr (- EACCES, h, name, S)"
proof (cases "len = 0")
  case False
  then show ?thesis
    using assms only_dots_eq [of len name] bad_bytes_eq [OF assms(1)]
    by (auto simp: lookup_one_len_common_def entry_name_def valid_component_def)
qed (use assms in \<open>simp add: lookup_one_len_common_def\<close>)

theorem lookup_one_len_common_accepts:
  assumes "len \<le> length name" "hash_of dir name len = Inr h" "entry_name (take len name)" "\<not> kd_op_hash (w_dentry E (world S) dir)"
  shows "lookup_one_len_common E hash_of name dir len S =
    bind_res (walk_permission E (kd_inode (w_dentry E (world S) dir)) MAY_EXEC S) (\<lambda>(err, T). Inr (err, h, name, T))"
proof -
  have "0 < len" using assms(3) by (auto simp: entry_name_def valid_component_def)
  then show ?thesis
    using assms only_dots_eq [of len name] bad_bytes_eq [OF assms(1)]
    by (auto simp: lookup_one_len_common_def entry_name_def valid_component_def Let_def)
qed

section \<open>The references of a lookup of one component\<close>

definition got :: "'k walk \<Rightarrow> int + nat \<Rightarrow> 'k walk \<Rightarrow> bool" where
  "got S r T \<longleftrightarrow> (\<forall>x. refs T x = refs S x + (case r of Inl e \<Rightarrow> 0 | Inr d \<Rightarrow> d_ref (Some d) x)) \<and> rcu_nest T = rcu_nest S \<and> ishared T = ishared S"

definition same_refs :: "'k walk \<Rightarrow> 'k walk \<Rightarrow> bool" where
  "same_refs S T \<longleftrightarrow> refs T = refs S \<and> rcu_nest T = rcu_nest S \<and> ishared T = ishared S"

lemma got_simps [simp]:
  "got S (Inl e) T = same_refs S T"
  "got S (Inr d) T \<longleftrightarrow> (\<forall>x. refs T x = refs S x + d_ref (Some d) x) \<and> rcu_nest T = rcu_nest S \<and> ishared T = ishared S"
  by (simp_all add: got_def same_refs_def fun_eq_iff)

lemma got_same: "same_refs S T \<Longrightarrow> got T r U = got S r U"
  by (simp add: got_def same_refs_def)

lemma same_refs_frame [simp]:
  "same_refs S S" "same_refs S (T\<lparr>world := w\<rparr>) = same_refs S T" "same_refs S (T\<lparr>nd_last_hash := h, nd_last_name := s\<rparr>) = same_refs S T"
  using refs_cong [of "T\<lparr>nd_last_hash := h, nd_last_name := s\<rparr>" T] by (simp_all add: same_refs_def)

lemma ref_sel [simp]: "rcu_nest (dget d S) = rcu_nest S" "ishared (dget d S) = ishared S" "rcu_nest (dput d S) = rcu_nest S" "ishared (dput d S) = ishared S"
  by (simp_all add: dget_def dput_def split: option.split)

lemma lookup_slow_loop_got: "safe (\<lambda>(r, T). got S r T) (lookup_slow_loop E n dir inode flags S)"
proof (induction n arbitrary: S)
  case (Suc n)
  have rec: "safe (\<lambda>(r, T). got S r T) (lookup_slow_loop E n dir inode flags U)" if "same_refs S U" for U
    using Suc.IH [of U] got_same [OF that] by simp
  show ?case
    by (auto simp: Let_def kop_eq invalidate_def same_refs_def fun_eq_iff intro!: safe_revalidate rec split: sum.split looked.split)
qed simp

lemma lookup_slow_got: "safe (\<lambda>(r, T). got S r T) (lookup_slow E dir flags S)" "safe (\<lambda>(r, T). got S r T) (lookup_slow_unlocked E dir flags S)"
proof -
  have lock: "safe (\<lambda>(r, T). got S r (inode_unlock_shared i T)) (lookup_slow_loop E n dir i flags (inode_lock_shared i S))" for i n
    by (rule safe_mono [OF lookup_slow_loop_got]) (auto simp: got_def inode_lock_shared_def inode_unlock_shared_def refs_def split: sum.splits)
  have "got S (Inl e) (inode_unlock_shared i (inode_lock_shared i S))" for i e
    by (simp add: got_def inode_lock_shared_def inode_unlock_shared_def refs_def split: sum.split)
  then show "safe (\<lambda>(r, T). got S r T) (lookup_slow E dir flags S)"
    using lock by (auto simp: lookup_slow_def Let_def case_prod_unfold)
  show "safe (\<lambda>(r, T). got S r T) (lookup_slow_unlocked E dir flags S)"
    using lookup_slow_loop_got by (auto simp: lookup_slow_unlocked_def got_def)
qed

lemma lookup_one_len_common_same:
  assumes "\<And>n s d. n \<le> length s \<Longrightarrow> \<exists>h. hash_of d s n = Inr h" "len \<le> length name"
  shows "safe (\<lambda>(e, h, nm, T). same_refs S T) (lookup_one_len_common E hash_of name dir len S)"
proof -
  obtain h where h: "hash_of dir name len = Inr h" using assms by blast
  have perm: "safe (\<lambda>(e, T). same_refs U T) (walk_permission E i m U)" for U i m by (auto simp: walk_permission_def Let_def split: prod.split)
  show ?thesis
  proof (cases "entry_name (take len name)")
    case True
    then have "0 < len" by (auto simp: entry_name_def valid_component_def)
    then show ?thesis
      using True h only_dots_eq [of len name] bad_bytes_eq [OF assms(2)] assms(2) perm [of S] perm [of "S\<lparr>world := w\<rparr>" for w]
      by (auto simp: lookup_one_len_common_def entry_name_def valid_component_def Let_def kop_eq case_prod_unfold same_refs_def)
  qed (simp add: lookup_one_len_common_refuses [where hash_of = hash_of and dir = dir, OF assms(2) h])
qed

theorem lookup_one_len_balanced:
  assumes "\<And>n s d. n \<le> length s \<Longrightarrow> \<exists>h. hash_of d s n = Inr h" "len \<le> length name"
  shows "safe (\<lambda>(r, T). got S r T) (lookup_one_len E Y hash_of name dir len S)"
    "safe (\<lambda>(r, T). got S r T) (lookup_one_len_unlocked E Y hash_of name dir len S)"
proof -
  have main: "safe (\<lambda>(r, T). got S r T) (one_len_with E Y slow hash_of name dir len S)" if slow: "\<And>d f U. safe (\<lambda>(r, T). got U r T) (slow d f U)" for slow
  proof -
    have step: "safe (\<lambda>(r, T). got S r T) (case lookup_dcache E Y h nm dir 0 T of (r, T) \<Rightarrow>
        (case r of Inl e \<Rightarrow> Inr (Inl e, T) | Inr (Some d) \<Rightarrow> Inr (Inr d, T) | Inr None \<Rightarrow> slow dir 0 (T\<lparr>nd_last_hash := h, nd_last_name := nm\<rparr>)))"
      if T: "same_refs S T" for h nm T
    proof -
      obtain r V where V: "lookup_dcache E Y h nm dir 0 T = (r, V)" "rcu_nest V = rcu_nest T" "ishared V = ishared T"
          "\<And>x. refs V x = refs T x + (case r of Inr (Some d) \<Rightarrow> d_ref (Some d) x | _ \<Rightarrow> 0)"
        using lookup_dcache_refs by metis
      let ?V = "V\<lparr>nd_last_hash := h, nd_last_name := nm\<rparr>"
      have "same_refs S ?V" if "r = Inr None" using T V(2-4) that unfolding same_refs_frame by (simp add: same_refs_def fun_eq_iff)
      from got_same [OF this] have "safe (\<lambda>(r, U). got S r U) (slow dir 0 ?V)" if "r = Inr None"
        using slow [where d = dir and f = 0 and U = ?V] that by simp
      then show ?thesis using T V by (auto simp: same_refs_def fun_eq_iff split: sum.split option.split)
    qed
    show ?thesis
      unfolding one_len_with_def
      by (rule safe_seq [OF lookup_one_len_common_same [OF assms]]) (use step in \<open>auto simp: got_def same_refs_def Let_def\<close>)
  qed
  show "safe (\<lambda>(r, T). got S r T) (lookup_one_len E Y hash_of name dir len S)"
    "safe (\<lambda>(r, T). got S r T) (lookup_one_len_unlocked E Y hash_of name dir len S)"
    unfolding lookup_one_len_def lookup_one_len_unlocked_def by (rule main [OF lookup_slow_got(2)], rule main [OF lookup_slow_got(1)])
qed

section \<open>A path to be unmounted\<close>

lemma mountpoint_dentry_safe:
  assumes "rooted S" "\<not> in_rcu S" "env_ok E"
  shows "safe (\<lambda>(r, T). looked_up S (\<lambda>x. 0) r T) (mountpoint_dentry E Y dir S)"
proof -
  have e: "fs_ok E" "errs_ok E" using assms(3) by (simp_all add: env_ok_def)
  have dots: "safe (\<lambda>(r, T). looked_up S (\<lambda>x. 0) r T)
      (if e \<noteq> 0 then Inr (Inl e, T) else bind_res (null_ok (p_dentry (nd_path T))) (\<lambda>d. Inr (Inr d, dget (Some d) T)))"
    if "ok S (\<lambda>x. 0) T" "e \<le> 0" for e T
    using that ok_not_rcu [OF that(1) assms(2)] by auto
  have slow: "safe (\<lambda>(r, T). looked_up S (\<lambda>x. 0) r T) (lookup_slow E d g (S\<lparr>world := w\<rparr>))" for d g w
    by (rule safe_mono [OF lookup_slow_safe [OF _ e(2)]]) auto
  show ?thesis
    unfolding mountpoint_dentry_def Let_def kop_eq prod.case
    by (intro safe_if safe_null_bind safe_option slow safe_seq [OF handle_dots_safe [OF ok_refl assms(1) e(1)]])
      (use assms(2) dots in \<open>auto simp del: safe_bind\<close>)
qed

lemma mountpoint_last_safe:
  assumes "stack_ok S" "rooted S" "nd_depth S \<le> 1" "env_ok E"
  shows "safe (\<lambda>(e, T). trailing S e T \<and> (e = 0 \<longrightarrow> \<not> in_rcu T)) (mountpoint_last E Y S)"
proof -
  let ?Q = "\<lambda>(e, T). trailing S e T \<and> (e = (0 :: int) \<longrightarrow> \<not> in_rcu T)"
  have neg: "?Q (e, T)" if "bad S (\<lambda>x. 0) T" "e < 0" for e T using bad_gone [OF that(1) assms(1)] that(2) by (simp add: trailing_def)
  have leave: "safe (\<lambda>(e, T). (if e = 0 then ok S (\<lambda>x. 0) T else bad S (\<lambda>x. 0) T) \<and> \<not> in_rcu T) (if in_rcu S then unlazy_walk E S else Inr (0, S))"
    by (intro safe_if safe_mono [OF unlazy_step [OF ok_refl _ stack_ok_fits [OF assms(1)]]]) auto
  have rest: "safe ?Q
      (bind_res (mountpoint_dentry E Y dir U) (\<lambda>(r, S).
        case r of
          Inl error \<Rightarrow> Inr (error, S)
        | Inr d \<Rightarrow>
            let dn = w_dentry E (world S) d in
            if kd_type dn = MissType then Inr (- ENOENT, dput (Some d) S)
            else step_into E False False \<lparr>p_mnt = p_mnt (nd_path S), p_dentry = Some d\<rparr> (kd_inode dn) 0 S))"
    if U: "ok S (\<lambda>x. 0) U" "\<not> in_rcu U" for dir U
  proof -
    have g: "gone (\<lambda>x. 0) S U" by (rule ok_gone [OF U(1) assms(1)])
    have d0: "depth_left False U = 0" using ok_depth [OF U(1)] assms(3) by (simp add: depth_left_def)
    have up: "?Q (e, T)" if "step_ok False U e T" for e T
      using that gone_step [OF g] gone_count [OF g] d0 U(2) by (auto simp: trailing_def step_ok_def stepped_def gone_def common_def)
    have into: "safe ?Q (step_into E False False \<lparr>p_mnt = p_mnt (nd_path T), p_dentry = Some d\<rparr> i 0 T)" if "ok U (\<lambda>x. d_ref (Some d) x) T" for T d i
      by (rule safe_mono [OF step_into_ok [OF gone_stack [OF g], where walk_more = False]])
        (use that ok_not_rcu [OF that U(2)] up in \<open>auto simp: cref_def\<close>)
    have drop: "ok U (\<lambda>x. 0) (dput (Some d) T)" if "ok U (\<lambda>x. d_ref (Some d) x) T" for T d using that by simp
    have fail: "?Q (e, T)" if "ok U (\<lambda>x. 0) T" "e < 0" for e T by (rule up) (use that gone_stack [OF g] in \<open>auto intro: step_bad ok_bad\<close>)
    show ?thesis
      by (rule safe_seq [OF mountpoint_dentry_safe [OF gone_rooted [OF g assms(2)] U(2) assms(4)]])
        (use into fail drop in \<open>auto simp: Let_def ENOENT_def split: sum.split\<close>)
  qed
  have flags: "ok S (\<lambda>x. 0) (U\<lparr>nd_flags := nd_flags U AND NOT LOOKUP_PARENT\<rparr>)" "\<not> in_rcu (U\<lparr>nd_flags := nd_flags U AND NOT LOOKUP_PARENT\<rparr>)"
    if "ok S (\<lambda>x. 0) U" "\<not> in_rcu U" for U
    using that by (simp_all add: ok_frame in_rcu_def flag_bits flag_disjoint)
  show ?thesis
    unfolding mountpoint_last_def Let_def [of "p_dentry (nd_path S)"]
    by (rule safe_seq [OF leave], elim case_prodE conjE, simp only: prod.case, rule safe_if, rule safe_Inr [THEN iffD2])
      (use neg in \<open>simp add: ECHILD_def\<close>, use rest [OF flags] in \<open>simp del: safe_bind\<close>)
qed

lemma path_mountpoint_safe:
  assumes "begin_ok S" "env_ok E" "fuel_ok E" "with_root flags \<longrightarrow> root_ok E (nd_root S)"
  shows "safe (\<lambda>(e, p, T). balanced flags S e p T) (path_mountpoint E Y flags S)"
proof -
  have loop: "safe (\<lambda>(e, V). going_on flags S V \<and> (e = 0 \<longrightarrow> \<not> in_rcu V)) (lookup_loop E (mountpoint_last E Y) (w_fuel E) r U)"
    if U: "going_on flags S U" "ready r U" for r U
  proof (rule safe_mono [OF lookup_loop_safe [where P = "\<lambda>T. \<not> in_rcu T", OF U(2) assms(2,3) mountpoint_last_safe]])
    have "0 \<le> nd_total_link_count U" using U(2) by (simp add: ready_def stack_ok_def)
    then show "nat (int MAXSYMLINKS - nd_total_link_count U) < w_fuel E" using assms(3) by (simp add: fuel_ok_def PATH_MAX_def)
  qed (use assms(2) going_onI [OF U(1)] in auto)
  have ends: "safe (\<lambda>(e, p, T). balanced flags S e p T)
      (bind_res (if e = 0
                 then bind_res (follow_mount E n (nd_path V) (V\<lparr>nd_path := null_path\<rparr>)) (\<lambda>(path, S). Inr (Some path, S))
                 else Inr (None, V)) (\<lambda>(path, S).
       bind_res (terminate_walk E S) (\<lambda>S. Inr (e, path, S))))" if V: "going_on flags S V" "e = 0 \<longrightarrow> \<not> in_rcu V" for e n V
  proof -
    let ?V = "V\<lparr>nd_path := null_path\<rparr>"
    obtain K where K: "base flags S K" "gone (\<lambda>x. 0) K V" using V(1) unfolding going_on_def by blast
    have fin: "safe (\<lambda>(e, p, T). balanced flags S e p T) (bind_res (terminate_walk E U) (\<lambda>S. Inr (e, p, S)))"
      if "p \<noteq> None \<longleftrightarrow> e = 0" "gone (\<lambda>x. case p of None \<Rightarrow> 0 | Some q \<Rightarrow> path_refs q x) K U" for p U
      by (rule safe_seq [OF end_walk_safe [OF K(1) that(2) assms(1,4)]]) (use that(1) in \<open>simp add: balanced_ended\<close>)
    have mounted: "safe (\<lambda>(p, U). gone (path_refs p) K U) (follow_mount E n (nd_path V) ?V)" if "\<not> in_rcu V"
    proof -
      have "ok ?V (\<lambda>x. - path_refs (nd_path V) x + path_refs (nd_path V) x) ?V" by simp
      from follow_mount_safe [OF this, of E n] show ?thesis
        by (rule safe_mono) (use goneI [OF gone_ok [OF gone_give_path [OF K(2) that]]] in force)
    qed
    have "safe (\<lambda>(p, U). (p \<noteq> None \<longleftrightarrow> e = 0) \<and> gone (\<lambda>x. case p of None \<Rightarrow> 0 | Some q \<Rightarrow> path_refs q x) K U)
        (if e = 0 then bind_res (follow_mount E n (nd_path V) ?V) (\<lambda>(path, S). Inr (Some path, S)) else Inr (None, V))"
      using mounted V(2) K(2) by (auto elim!: safe_mono)
    then show ?thesis by (rule safe_seq) (use fin in \<open>auto simp del: safe_bind\<close>)
  qed
  show ?thesis
    unfolding path_mountpoint_def
    by (rule safe_seq [OF path_init_safe], use assms in \<open>simp add: begin_ok_def\<close>, use assms(2) in \<open>simp add: env_ok_def\<close>, rule assms(4),
        elim case_prodE, simp only: prod.case, rule safe_seq [OF loop], erule started_ready(2) [OF _ assms(1,4)], erule started_ready(1) [OF _ assms(1,4)],
        elim case_prodE conjE, simp only: prod.case, rule ends)
qed

theorem filename_mountpoint_balanced:
  assumes "env_ok E" "fuel_ok E" "cstring s" "flags AND LOOKUP_ROOT = 0" "\<forall>n. old = Some n \<longrightarrow> 0 \<le> n"
  shows "case filename_mountpoint E Y dfd (Inr s) flags old S of
      Inl e \<Rightarrow> e \<in> {NullDeref, KernelBug, Livelock}
    | Inr (err, path, old', T) \<Rightarrow> (path \<noteq> None \<longleftrightarrow> err = 0) \<and> rcu_nest T = rcu_nest S \<and> ishared T = ishared S \<and>
        (\<forall>d. dref T d = dref S d + (if \<exists>p. path = Some p \<and> p_dentry p = Some d then 1 else 0)) \<and>
        (\<forall>m. mref T m = mref S m + (if \<exists>p. path = Some p \<and> p_mnt p = Some m then 1 else 0))"
proof -
  let ?S = "set_nameidata E dfd s old S"
  have U: "refs ?S = refs S" "rcu_nest ?S = rcu_nest S" "ishared ?S = ishared S" by (rule nameidata_refs; simp)+
  have walk: "safe (\<lambda>(e, p, T). balanced flags ?S e p T) (with_retries (path_mountpoint E Y) flags ?S)"
    by (rule with_retries_safe [OF path_mountpoint_safe [OF _ assms(1,2)] begin_nameidata [OF assms(3,5)]]) (use assms(4) in \<open>auto simp: with_root_def\<close>)
  show ?thesis
    using walk balanced_end [OF _ U, of flags _ _ _ old]
    by (cases "with_retries (path_mountpoint E Y) flags ?S") (auto simp: filename_mountpoint_def Let_def dest: balanced_path split: prod.splits)
qed

end
