(* ===== verification/Sys_Open.thy ===== *)
theory Sys_Open
  imports Sys_Paths
begin

text \<open>
  Opening a file (\<open>extra/namei.c\<close>): the last component of the path, which \<open>lookup_open\<close> may create, links at the end
  of the path, files without a name, and the retries of \<open>do_filp_open\<close>.

  An open file is its mode and its path; it has a reference to the path from the moment it has
  \<open>FMODE_OPENED\<close>, which \<open>fput\<close> gives back. \<open>vfs_open\<close>, \<open>finish_open\<close>, the integrity check, the locks of files and the truncation
  are answers of the rest of the kernel; the audit records and the measurement of a new file without a name are left out. The reference and the lock of a directory are the task's, so what
  \<open>lookup_open\<close> does under the lock is the definition of \<open>Vfs_Ops\<close> on the state of the file system.
\<close>

section \<open>Files and environment\<close>

record ofile =
  f_mode :: u32
  f_path :: vpath

record open_flags =
  op_open_flag :: u32
  op_mode :: u16
  op_acc_mode :: u32
  op_intent :: u32
  op_lookup_flags :: u32

record 'k open_env =
  o_alloc_empty_file :: "u32 \<Rightarrow> 'k \<Rightarrow> (int + u32) \<times> 'k"
  o_vfs_open :: "vpath \<Rightarrow> u32 \<Rightarrow> 'k \<Rightarrow> (int \<times> u32) \<times> 'k"
  o_finish_open :: "vpath \<Rightarrow> u32 \<Rightarrow> 'k \<Rightarrow> (int \<times> u32) \<times> 'k"
  o_fput :: "vpath \<Rightarrow> u32 \<Rightarrow> 'k \<Rightarrow> 'k"
  o_ima_file_check :: "vpath \<Rightarrow> u32 \<Rightarrow> 'k \<Rightarrow> int \<times> 'k"
  o_get_write_access :: "nat \<Rightarrow> 'k \<Rightarrow> int \<times> 'k"
  o_put_write_access :: "nat \<Rightarrow> 'k \<Rightarrow> 'k"
  o_locks_verify_locked :: "vpath \<Rightarrow> 'k \<Rightarrow> int"
  o_security_path_truncate :: "vpath \<Rightarrow> 'k \<Rightarrow> int"
  o_do_truncate :: "vpath \<Rightarrow> 'k \<Rightarrow> int \<times> 'k"
  o_mnt_nodev :: "'k \<Rightarrow> vpath \<Rightarrow> bool"
  o_sb_i_nodev :: "'k \<Rightarrow> vpath \<Rightarrow> bool"
  o_type_name :: "'k \<Rightarrow> nat \<Rightarrow> bytes"
  o_alias :: "'k \<Rightarrow> nat \<Rightarrow> nat option"
  o_tmpfile :: "'k \<Rightarrow> nat \<Rightarrow> (nat \<Rightarrow> u16 \<Rightarrow> 'k \<Rightarrow> int \<times> 'k) option"
  o_make_linkable :: "nat \<Rightarrow> 'k \<Rightarrow> 'k"

definition O_PATH :: u32 where [vfs_simps]: "O_PATH = 0x200000"
definition O_TMPFILE_BIT :: u32 where [vfs_simps]: "O_TMPFILE_BIT = 0x400000"
definition EOPENSTALE :: int where [vfs_simps]: "EOPENSTALE = 518"
definition EOPNOTSUPP :: int where [vfs_simps]: "EOPNOTSUPP = 95"

section \<open>Helpers\<close>

definition t_walk :: "('k walk \<Rightarrow> ('r \<times> 'k walk) res) \<Rightarrow> 'k task \<Rightarrow> ('r \<times> 'k task) res" where
  "t_walk f S = bind_res (f (wk S)) (\<lambda>(r, W). Inr (r, S\<lparr>wk := W\<rparr>))"

definition on_nd :: "('k walk \<Rightarrow> 'k walk) \<Rightarrow> 'k task \<Rightarrow> 'k task" where
  "on_nd f S = S\<lparr>wk := f (wk S)\<rparr>"

definition cur_path :: "'k task \<Rightarrow> vpath" where
  "cur_path S = nd_path (wk S)"

text \<open>\<open>vfs_open\<close> and \<open>finish_open\<close> take a reference to the path if they succeed.\<close>

definition open_file :: "(vpath \<Rightarrow> u32 \<Rightarrow> 'k \<Rightarrow> (int \<times> u32) \<times> 'k) \<Rightarrow> vpath \<Rightarrow> ofile \<Rightarrow> 'k task \<Rightarrow> int \<times> ofile \<times> 'k task" where
  "open_file f path file S =
     (let ((error, mode), S) = ask (f path (f_mode file)) S in
      if error \<noteq> 0 then (error, file, S)
      else (0, \<lparr>f_mode = mode OR FMODE_OPENED, f_path = path\<rparr>, on_nd (path_get path) S))"

definition is_opened :: "ofile \<Rightarrow> bool" where
  "is_opened file \<longleftrightarrow> f_mode file AND FMODE_OPENED \<noteq> 0"

definition fput :: "'k open_env \<Rightarrow> ofile \<Rightarrow> 'k task \<Rightarrow> 'k task" where
  "fput X file S =
     (let S = on_nd (\<lambda>W. W\<lparr>world := o_fput X (f_path file) (f_mode file) (world W)\<rparr>) S in
      if is_opened file then t_path_put (f_path file) S else S)"

definition path_inode :: "('k, 'a) walk_env \<Rightarrow> vpath \<Rightarrow> 'k task \<Rightarrow> nat option res" where
  "path_inode E path S = bind_res (null_ok (p_dentry path)) (\<lambda>d. Inr (kd_inode (w_dentry E (now S) d)))"

definition t_may_open :: "('k, 'a) walk_env \<Rightarrow> 'k open_env \<Rightarrow> vpath \<Rightarrow> u32 \<Rightarrow> u32 \<Rightarrow> 'k task \<Rightarrow> (int \<times> 'k task) res" where
  "t_may_open E X path acc_mode flag S =
     bind_res (path_inode E path S) (\<lambda>i.
     let w = now S;
         (error, v) = may_open (w_cred E) (o_mnt_nodev X w path) (o_sb_i_nodev X w path) (map_option (w_inode E w) i) acc_mode flag in
     Inr (error, case (i, v) of (Some i, Some v) \<Rightarrow> on_nd (\<lambda>W. W\<lparr>world := w_put_inode E i v w\<rparr>) S | _ \<Rightarrow> S))"

definition handle_truncate :: "('k, 'a) walk_env \<Rightarrow> 'k open_env \<Rightarrow> ofile \<Rightarrow> 'k task \<Rightarrow> (int \<times> 'k task) res" where
  "handle_truncate E X file S =
     bind_res (path_inode E (f_path file) S) (\<lambda>i.
     bind_res (null_ok i) (\<lambda>inode.
     let (error, S) = ask (o_get_write_access X inode) S in
     if error \<noteq> 0 then Inr (error, S)
     else let error = o_locks_verify_locked X (f_path file) (now S);
              error = (if error = 0 then o_security_path_truncate X (f_path file) (now S) else error);
              (error, S) = (if error = 0 then ask (o_do_truncate X (f_path file)) S else (error, S)) in
          Inr (error, on_nd (\<lambda>W. W\<lparr>world := o_put_write_access X inode (world W)\<rparr>) S)))"

section \<open>The last component\<close>

text \<open>The loop of \<open>lookup_open\<close> that finds or allocates the dentry; it comes with a reference.\<close>

fun open_dentry_loop :: "('k, 'a) walk_env \<Rightarrow> nat \<Rightarrow> nat \<Rightarrow> nat option \<Rightarrow> 'k walk \<Rightarrow> ((int + nat) \<times> 'k walk) res" where
  "open_dentry_loop E 0 dir found W = Inl Livelock"
| "open_dentry_loop E (Suc n) dir found W =
     (let (r, W) = (case found of
                      Some d \<Rightarrow> (Inr d, W)
                    | None \<Rightarrow>
                        let (r, W) = kop (k_d_alloc_parallel E dir (nd_last_hash W) (nd_last_name W)) W in
                        (r, case r of Inl e \<Rightarrow> W | Inr d \<Rightarrow> dget (Some d) W)) in
      case r of
        Inl e \<Rightarrow> Inr (Inl e, W)
      | Inr d \<Rightarrow>
          if k_d_in_lookup E (world W) d then Inr (Inr d, W)
          else let (error, W) = revalidate E d (nd_flags W) W in
          if error > 0 then Inr (Inr d, W)
          else if error \<noteq> 0 then Inr (Inl error, dput (Some d) W)
          else open_dentry_loop E n dir None (dput (Some d) (invalidate E d W)))"

definition open_dentry :: "('k, 'a) walk_env \<Rightarrow> 'k sys_env \<Rightarrow> nat \<Rightarrow> 'k walk \<Rightarrow> ((int + nat) \<times> 'k walk) res" where
  "open_dentry E Y dir W =
     (let (found, W) = kop (y_d_lookup Y dir (nd_last_hash W) (nd_last_name W)) W in
      open_dentry_loop E (w_fuel E) dir found (dget found W))"

text \<open>
  What \<open>lookup_open\<close> does with the dentry \<open>d\<close>, which needs no revalidation any more. If the file system has looked the name
  up and found the inode of a directory that has another dentry, that dentry takes the place of \<open>d\<close>.
\<close>

definition open_args_for :: "'k sys_env \<Rightarrow> 'k open_env \<Rightarrow> open_flags \<Rightarrow> bool \<Rightarrow> nat \<Rightarrow> dentry \<Rightarrow> 'k task \<Rightarrow> open_args" where
  "open_args_for Y X op got_write i dn S =
     (let w = now S in
      \<lparr>oa_type_name = o_type_name X w i, oa_alias = (\<lambda>a. map_option (y_dentry Y w) (o_alias X w a)), oa_revalidate = (\<lambda>_. 1),
       oa_cached = Some dn, oa_allocs = [], oa_nd_flags = nd_flags (wk S), oa_open_flag = op_open_flag op, oa_acc_mode = op_acc_mode op,
       oa_mode = op_mode op, oa_got_write = got_write, oa_mnt_nodev = o_mnt_nodev X w (cur_path S), oa_sb_i_nodev = o_sb_i_nodev X w (cur_path S)\<rparr>)"

definition alias_of :: "'k open_env \<Rightarrow> 'k \<Rightarrow> dentry \<Rightarrow> dentry \<Rightarrow> u32 \<Rightarrow> nat option" where
  "alias_of X w dn dn' mode = (if d_in_lookup dn \<and> mode AND FMODE_CREATED = 0 then Option.bind (d_inode dn') (o_alias X w) else None)"

definition open_dentry_result ::
  "'k sys_env \<Rightarrow> nat \<Rightarrow> nat option \<Rightarrow> int \<Rightarrow> dentry option \<Rightarrow> ofile \<Rightarrow> 'k task \<Rightarrow> int \<times> nat option \<times> ofile \<times> 'k task" where
  "open_dentry_result Y d al error res file S =
     (case res of
        None \<Rightarrow> (error, None, file, t_dput d S)
      | Some dn \<Rightarrow>
          (case al of
             Some d' \<Rightarrow> (error, Some d', file, t_dput d (on_nd (dget (Some d')) S))
           | None \<Rightarrow> (error, Some d, file, set_dentry Y d dn S)))"

definition open_with_dentry ::
  "('k, 'a) walk_env \<Rightarrow> 'k sys_env \<Rightarrow> 'k open_env \<Rightarrow> open_flags \<Rightarrow> bool \<Rightarrow> nat \<Rightarrow> nat \<Rightarrow> ofile \<Rightarrow> 'k task \<Rightarrow> (int \<times> nat option \<times> ofile \<times> 'k task) res" where
  "open_with_dentry E Y X op got_write i d file S =
     (let w = now S; in_lookup = k_d_in_lookup E w d; dn = (y_dentry Y w d)\<lparr>d_in_lookup := in_lookup\<rparr>; M = enter_fs Y S in
      case lookup_open (y_plat Y) (y_kenv Y) (y_junk Y) (w_cred E) (open_args_for Y X op got_write i dn S) i (f_mode file) (vfs M) of
        None \<Rightarrow> Inl Livelock
      | Some r \<Rightarrow>
          bind_res r (\<lambda>(error, res, mode, V).
          let S = leave_fs Y (M\<lparr>vfs := V\<rparr>) S;
              S = (if in_lookup then on_nd (\<lambda>W. W\<lparr>world := k_d_lookup_done E d (world W)\<rparr>) S else S);
              al = Option.bind res (\<lambda>dn'. alias_of X w dn dn' mode) in
          Inr (open_dentry_result Y d al error res (file\<lparr>f_mode := mode\<rparr>) S)))"

definition t_lookup_open ::
  "('k, 'a) walk_env \<Rightarrow> 'k sys_env \<Rightarrow> 'k open_env \<Rightarrow> open_flags \<Rightarrow> bool \<Rightarrow> nat \<Rightarrow> nat \<Rightarrow> ofile \<Rightarrow> 'k task \<Rightarrow> (int \<times> nat option \<times> ofile \<times> 'k task) res" where
  "t_lookup_open E Y X op got_write dir i file S =
     (if IS_DEADDIR (w_inode E (now S) i) then Inr (- ENOENT, None, file, S)
      else let file = file\<lparr>f_mode := f_mode file AND NOT FMODE_CREATED\<rparr> in
      bind_res (t_walk (open_dentry E Y dir) S) (\<lambda>(r, S).
      case r of Inl e \<Rightarrow> Inr (e, None, file, S) | Inr d \<Rightarrow> open_with_dentry E Y X op got_write i d file S))"

text \<open>The labels of \<open>do_last\<close>, from the end: \<open>out\<close>, \<open>opened\<close>, \<open>finish_open_created\<close>, \<open>finish_open\<close> and \<open>finish_lookup\<close>.\<close>

definition open_out :: "'k sys_env \<Rightarrow> bool \<Rightarrow> int \<Rightarrow> ofile \<Rightarrow> 'k task \<Rightarrow> (int \<times> ofile \<times> 'k task) res" where
  "open_out Y got_write error file S =
     bind_res (if got_write then bind_res (null_ok (p_mnt (cur_path S))) (\<lambda>m. Inr (drop_write Y m S)) else Inr S) (\<lambda>S.
     Inr (if error > 0 then - EINVAL else error, file, S))"

definition open_opened ::
  "('k, 'a) walk_env \<Rightarrow> 'k sys_env \<Rightarrow> 'k open_env \<Rightarrow> open_flags \<Rightarrow> bool \<Rightarrow> bool \<Rightarrow> ofile \<Rightarrow> 'k task \<Rightarrow> (int \<times> ofile \<times> 'k task) res" where
  "open_opened E Y X op will_truncate got_write file S =
     (let (error, S) = ask (o_ima_file_check X (f_path file) (op_acc_mode op)) S in
      bind_res (if error = 0 \<and> will_truncate then handle_truncate E X file S else Inr (error, S)) (\<lambda>(error, S).
      open_out Y got_write error file S))"

definition open_created ::
  "('k, 'a) walk_env \<Rightarrow> 'k sys_env \<Rightarrow> 'k open_env \<Rightarrow> open_flags \<Rightarrow> u32 \<Rightarrow> u32 \<Rightarrow> bool \<Rightarrow> bool \<Rightarrow> ofile \<Rightarrow> 'k task \<Rightarrow> (int \<times> ofile \<times> 'k task) res" where
  "open_created E Y X op acc_mode open_flag will_truncate got_write file S =
     bind_res (t_may_open E X (cur_path S) acc_mode open_flag S) (\<lambda>(error, S).
     if error \<noteq> 0 then open_out Y got_write error file S
     else if is_opened file then Inl KernelBug
     else let (error, file, S) = open_file (o_vfs_open X) (cur_path S) file S in
     if error \<noteq> 0 then open_out Y got_write error file S
     else open_opened E Y X op will_truncate got_write file S)"

text \<open>Whether an existing file may be opened with \<open>O_CREAT\<close>; the parent \<open>dir\<close> is read through the pointer from before the step.\<close>

definition open_existing :: "('k, 'a) walk_env \<Rightarrow> nat option \<Rightarrow> nat \<Rightarrow> 'k task \<Rightarrow> int res" where
  "open_existing E dir d S =
     (if dtype_is_dir (kd_type (w_dentry E (now S) d)) then Inr (- EISDIR)
      else bind_res (null_ok (kd_inode (w_dentry E (now S) d))) (\<lambda>i.
      bind_res (null_ok dir) (\<lambda>dir.
      bind_res (null_ok (kd_inode (w_dentry E (now S) dir))) (\<lambda>p.
      Inr (may_create_in_sticky (w_cred E) (w_inode E (now S) p) (w_inode E (now S) i))))))"

definition finish_open ::
  "('k, 'a) walk_env \<Rightarrow> 'k sys_env \<Rightarrow> 'k open_env \<Rightarrow> open_flags \<Rightarrow> nat option \<Rightarrow> ofile \<Rightarrow> 'k task \<Rightarrow> (int \<times> ofile \<times> 'k task) res" where
  "finish_open E Y X op dir file S =
     (let open_flag = op_open_flag op; will_truncate = (open_flag AND O_TRUNC \<noteq> 0) in
      bind_res (t_walk (complete_walk E) S) (\<lambda>(error, S).
      if error \<noteq> 0 then Inr (error, file, S)
      else bind_res (null_ok (p_dentry (cur_path S))) (\<lambda>d.
      bind_res (if open_flag AND O_CREAT \<noteq> 0 then open_existing E dir d S else Inr 0) (\<lambda>error.
      let type = kd_type (w_dentry E (now S) d) in
      if error \<noteq> 0 then open_out Y False error file S
      else if nd_flags (wk S) AND LOOKUP_DIRECTORY \<noteq> 0 \<and> type \<noteq> DirectoryType then open_out Y False (- ENOTDIR) file S
      else if will_truncate \<and> type = RegularType
      then bind_res (null_ok (p_mnt (cur_path S))) (\<lambda>m.
           let (error, S) = want_write Y m S in
           if error \<noteq> 0 then open_out Y False error file S
           else open_created E Y X op (op_acc_mode op) open_flag True True file S)
      else open_created E Y X op (op_acc_mode op) open_flag False False file S))))"

definition finish_lookup ::
  "('k, 'a) walk_env \<Rightarrow> 'k sys_env \<Rightarrow> 'k open_env \<Rightarrow> open_flags \<Rightarrow> nat option \<Rightarrow> ofile \<Rightarrow> vpath \<Rightarrow> nat option \<Rightarrow> u32 \<Rightarrow> 'k task \<Rightarrow>
   (int \<times> ofile \<times> 'k task) res" where
  "finish_lookup E Y X op dir file path inode seq S =
     bind_res (t_walk (step_into E False False path inode seq) S) (\<lambda>(error, S).
     if error \<noteq> 0 then Inr (error, file, S) else finish_open E Y X op dir file S)"

text \<open>\<open>inode_lock\<close> if the file may be created, \<open>inode_lock_shared\<close> otherwise.\<close>

definition open_lock :: "('k, 'a) walk_env \<Rightarrow> bool \<Rightarrow> nat \<Rightarrow> 'k task \<Rightarrow> (nat \<times> 'k task) res" where
  "open_lock E create dir S =
     (if create then dir_lock E dir S
      else bind_res (null_ok (kd_inode (w_dentry E (now S) dir))) (\<lambda>i. Inr (i, on_nd (inode_lock_shared i) S)))"

definition open_unlock :: "bool \<Rightarrow> nat \<Rightarrow> 'k task \<Rightarrow> 'k task" where
  "open_unlock create i S = (if create then dir_unlock i S else on_nd (inode_unlock_shared i) S)"

text \<open>What follows a lookup that is neither an error nor an open file.\<close>

definition open_found ::
  "('k, 'a) walk_env \<Rightarrow> 'k sys_env \<Rightarrow> 'k open_env \<Rightarrow> open_flags \<Rightarrow> nat option \<Rightarrow> bool \<Rightarrow> nat \<Rightarrow> ofile \<Rightarrow> 'k task \<Rightarrow> (int \<times> ofile \<times> 'k task) res" where
  "open_found E Y X op dir got_write d file S =
     (let path = \<lparr>p_mnt = p_mnt (cur_path S), p_dentry = Some d\<rparr> in
      if f_mode file AND FMODE_CREATED \<noteq> 0
      then open_created E Y X op 0 (op_open_flag op AND NOT O_TRUNC) False got_write file (on_nd (path_to_nameidata path) S)
      else bind_res (if got_write then bind_res (null_ok (p_mnt (cur_path S))) (\<lambda>m. Inr (drop_write Y m S)) else Inr S) (\<lambda>S.
      bind_res (follow_managed E path (wk S)) (\<lambda>(error, path, W).
      let S = S\<lparr>wk := W\<rparr> in
      if error < 0 then Inr (error, file, S)
      else bind_res (null_ok (p_dentry path)) (\<lambda>d.
      let dn = w_dentry E (now S) d in
      if kd_type dn = MissType then Inr (- ENOENT, file, on_nd (path_to_nameidata path) S)
      else if op_open_flag op AND (O_EXCL OR O_CREAT) = O_EXCL OR O_CREAT then Inr (- EEXIST, file, on_nd (path_to_nameidata path) S)
      else finish_lookup E Y X op dir file path (kd_inode dn) 0 S))))"

definition open_locked ::
  "('k, 'a) walk_env \<Rightarrow> 'k sys_env \<Rightarrow> 'k open_env \<Rightarrow> open_flags \<Rightarrow> bool \<Rightarrow> nat \<Rightarrow> ofile \<Rightarrow> 'k task \<Rightarrow> (int \<times> nat option \<times> ofile \<times> 'k task) res" where
  "open_locked E Y X op got_write dir file S =
     (let create = (op_open_flag op AND O_CREAT \<noteq> 0) in
      bind_res (open_lock E create dir S) (\<lambda>(i, S).
      bind_res (t_lookup_open E Y X op got_write dir i file S) (\<lambda>(error, d, file, S). Inr (error, d, file, open_unlock create i S))))"

definition open_slow ::
  "('k, 'a) walk_env \<Rightarrow> 'k sys_env \<Rightarrow> 'k open_env \<Rightarrow> open_flags \<Rightarrow> nat option \<Rightarrow> ofile \<Rightarrow> 'k task \<Rightarrow> (int \<times> ofile \<times> 'k task) res" where
  "open_slow E Y X op dir file S =
     bind_res (if op_open_flag op AND (O_CREAT OR O_TRUNC OR O_WRONLY OR O_RDWR) \<noteq> 0
               then bind_res (null_ok (p_mnt (cur_path S))) (\<lambda>m. let (error, S) = want_write Y m S in Inr (error = 0, S))
               else Inr (False, S)) (\<lambda>(got_write, S).
     bind_res (null_ok dir) (\<lambda>dir'.
     bind_res (open_locked E Y X op got_write dir' file S) (\<lambda>(error, d, file, S).
     if error \<noteq> 0 then open_out Y got_write error file S
     else if is_opened file
     then bind_res (path_inode E (f_path file) S) (\<lambda>i.
          bind_res (null_ok i) (\<lambda>i.
          let keep = (f_mode file AND FMODE_CREATED \<noteq> 0 \<or> \<not> is_type S_IFREG (v_mode (w_inode E (now S) i))) in
          open_opened E Y X op (op_open_flag op AND O_TRUNC \<noteq> 0 \<and> \<not> keep) got_write file S))
     else bind_res (null_ok d) (\<lambda>d. open_found E Y X op dir got_write d file S))))"

definition do_last ::
  "('k, 'a) walk_env \<Rightarrow> 'k sys_env \<Rightarrow> 'k open_env \<Rightarrow> open_flags \<Rightarrow> ofile \<Rightarrow> 'k task \<Rightarrow> (int \<times> ofile \<times> 'k task) res" where
  "do_last E Y X op file S =
     (let dir = p_dentry (cur_path S);
          S = on_nd (\<lambda>W. W\<lparr>nd_flags := nd_flags W AND NOT LOOKUP_PARENT\<rparr>) S;
          S = on_nd (\<lambda>W. W\<lparr>nd_flags := nd_flags W OR op_intent op\<rparr>) S in
      if nd_last_type (wk S) \<noteq> LAST_NORM
      then bind_res (t_walk (handle_dots E (nd_last_type (wk S))) S) (\<lambda>(error, S).
           if error \<noteq> 0 then Inr (error, file, S) else finish_open E Y X op dir file S)
      else if op_open_flag op AND O_CREAT = 0
      then bind_res (after_last (nd_last_hash (wk S)) (nd_last_name (wk S))) (\<lambda>c.
           let S = (if c \<noteq> 0 then on_nd (\<lambda>W. W\<lparr>nd_flags := nd_flags W OR LOOKUP_FOLLOW OR LOOKUP_DIRECTORY\<rparr>) S else S) in
           bind_res (lookup_fast E (wk S)) (\<lambda>(error, path, inode, seq, W).
           let S = S\<lparr>wk := W\<rparr> in
           if error > 0 then finish_lookup E Y X op dir file path inode seq S
           else if error < 0 then Inr (error, file, S)
           else bind_res (null_ok dir) (\<lambda>d.
           if nd_inode W \<noteq> kd_inode (w_dentry E (world W) d) \<or> in_rcu W then Inl KernelBug
           else open_slow E Y X op dir file S)))
      else bind_res (t_walk (complete_walk E) S) (\<lambda>(error, S).
           if error \<noteq> 0 then Inr (error, file, S)
           else bind_res (after_last (nd_last_hash (wk S)) (nd_last_name (wk S))) (\<lambda>c.
           if c \<noteq> 0 then Inr (- EISDIR, file, S) else open_slow E Y X op dir file S)))"

fun open_loop ::
  "('k, 'a) walk_env \<Rightarrow> 'k sys_env \<Rightarrow> 'k open_env \<Rightarrow> open_flags \<Rightarrow> nat \<Rightarrow> int + bytes \<Rightarrow> ofile \<Rightarrow> 'k task \<Rightarrow> (int \<times> ofile \<times> 'k task) res" where
  "open_loop E Y X op 0 s file S = Inl OutOfFuel"
| "open_loop E Y X op (Suc n) s file S =
     bind_res (t_walk (link_path_walk E s) S) (\<lambda>(error, S).
     if error \<noteq> 0 then Inr (error, file, S)
     else bind_res (do_last E Y X op file S) (\<lambda>(error, file, S).
     if error > 0
     then let S = on_nd (\<lambda>W. W\<lparr>nd_flags := nd_flags W AND NOT (LOOKUP_OPEN OR LOOKUP_CREATE OR LOOKUP_EXCL)\<rparr>) S in
          bind_res (t_walk (trailing_symlink E) S) (\<lambda>(s, S). open_loop E Y X op n s file S)
     else Inr (error, file, S)))"

section \<open>Files without a name\<close>

text \<open>The name of the dentry is \<open>slash_name\<close>.\<close>

definition vfs_tmpfile ::
  "('k, 'a) walk_env \<Rightarrow> 'k sys_env \<Rightarrow> 'k open_env \<Rightarrow> nat \<Rightarrow> u16 \<Rightarrow> u32 \<Rightarrow> 'k task \<Rightarrow> ((int + nat) \<times> 'k task) res" where
  "vfs_tmpfile E Y X dentry mode open_flag S =
     bind_res (null_ok (kd_inode (w_dentry E (now S) dentry))) (\<lambda>dir.
     bind_res (t_walk (walk_permission E (Some dir) (MAY_WRITE OR MAY_EXEC)) S) (\<lambda>(error, S).
     if error \<noteq> 0 then Inr (Inl error, S)
     else case o_tmpfile X (now S) dir of
       None \<Rightarrow> Inr (Inl (- EOPNOTSUPP), S)
     | Some tmpfile \<Rightarrow>
         let (new, S) = ask (y_d_alloc Y dentry (push_bit 32 1) [47, 0]) S in
         (case new of
            None \<Rightarrow> Inr (Inl (- ENOMEM), S)
          | Some d \<Rightarrow>
              let S = on_nd (dget (Some d)) S; (error, S) = ask (tmpfile d mode) S in
              if error \<noteq> 0 then Inr (Inl error, t_dput d S)
              else case kd_inode (w_dentry E (now S) d) of
                None \<Rightarrow> Inr (Inl (- ENOENT), t_dput d S)
              | Some i \<Rightarrow>
                  Inr (Inr d, if open_flag AND O_EXCL = 0 then on_nd (\<lambda>W. W\<lparr>world := o_make_linkable X i (world W)\<rparr>) S else S))))"

definition do_tmpfile ::
  "('k, 'a) walk_env \<Rightarrow> 'k sys_env \<Rightarrow> 'k open_env \<Rightarrow> u32 \<Rightarrow> open_flags \<Rightarrow> ofile \<Rightarrow> 'k task \<Rightarrow> (int \<times> ofile \<times> 'k task) res" where
  "do_tmpfile E Y X flags op file S =
     bind_res (path_lookupat E (flags OR LOOKUP_DIRECTORY) (wk S)) (\<lambda>(error, path, W).
     let S = S\<lparr>wk := W\<rparr> in
     case path of
       None \<Rightarrow> Inr (error, file, S)
     | Some path \<Rightarrow>
         bind_res (null_ok (p_mnt path)) (\<lambda>m.
         let (error, S) = want_write Y m S in
         if error \<noteq> 0 then Inr (error, file, t_path_put path S)
         else bind_res (null_ok (p_dentry path)) (\<lambda>dir.
         bind_res (vfs_tmpfile E Y X dir (op_mode op) (op_open_flag op) S) (\<lambda>(r, S).
         case r of
           Inl error \<Rightarrow> Inr (error, file, t_path_put path (drop_write Y m S))
         | Inr child \<Rightarrow>
             let S = t_dput dir S; path = path\<lparr>p_dentry := Some child\<rparr> in
             bind_res (t_may_open E X path 0 (op_open_flag op) S) (\<lambda>(error, S).
             let (error, file, S) = (if error \<noteq> 0 then (error, file, S) else open_file (o_finish_open X) path file S) in
             Inr (error, file, t_path_put path (drop_write Y m S)))))))"

definition do_o_path ::
  "('k, 'a) walk_env \<Rightarrow> 'k open_env \<Rightarrow> u32 \<Rightarrow> ofile \<Rightarrow> 'k task \<Rightarrow> (int \<times> ofile \<times> 'k task) res" where
  "do_o_path E X flags file S =
     bind_res (path_lookupat E flags (wk S)) (\<lambda>(error, path, W).
     let S = S\<lparr>wk := W\<rparr> in
     case path of
       None \<Rightarrow> Inr (error, file, S)
     | Some path \<Rightarrow> let (error, file, S) = open_file (o_vfs_open X) path file S in Inr (error, file, t_path_put path S))"

section \<open>The whole open\<close>

definition open_path ::
  "('k, 'a) walk_env \<Rightarrow> 'k sys_env \<Rightarrow> 'k open_env \<Rightarrow> open_flags \<Rightarrow> u32 \<Rightarrow> ofile \<Rightarrow> 'k task \<Rightarrow> (int \<times> ofile \<times> 'k task) res" where
  "open_path E Y X op flags file S =
     bind_res (t_walk (path_init E flags) S) (\<lambda>(s, S).
     bind_res (open_loop E Y X op (w_fuel E) s file S) (\<lambda>(error, file, S).
     bind_res (terminate_walk E (wk S)) (\<lambda>W. Inr (error, file, S\<lparr>wk := W\<rparr>))))"

definition path_openat ::
  "('k, 'a) walk_env \<Rightarrow> 'k sys_env \<Rightarrow> 'k open_env \<Rightarrow> open_flags \<Rightarrow> u32 \<Rightarrow> 'k task \<Rightarrow> ((int + ofile) \<times> 'k task) res" where
  "path_openat E Y X op flags S =
     (let (r, S) = ask (o_alloc_empty_file X (op_open_flag op)) S in
      case r of
        Inl e \<Rightarrow> Inr (Inl e, S)
      | Inr mode \<Rightarrow>
          let file = \<lparr>f_mode = mode, f_path = null_path\<rparr> in
          bind_res (if op_open_flag op AND O_TMPFILE_BIT \<noteq> 0 then do_tmpfile E Y X flags op file S
                    else if op_open_flag op AND O_PATH \<noteq> 0 then do_o_path E X flags file S
                    else open_path E Y X op flags file S) (\<lambda>(error, file, S).
          if error = 0 \<and> is_opened file then Inr (Inr file, S)
          else let error = (if error = 0 then - EINVAL else error); S = fput X file S in
               Inr (Inl (if error = - EOPENSTALE then if flags AND LOOKUP_RCU \<noteq> 0 then - ECHILD else - ESTALE else error), S)))"

definition open_retries :: "(u32 \<Rightarrow> 'k task \<Rightarrow> ((int + ofile) \<times> 'k task) res) \<Rightarrow> u32 \<Rightarrow> 'k task \<Rightarrow> ((int + ofile) \<times> 'k task) res" where
  "open_retries open_at flags S =
     bind_res (open_at (flags OR LOOKUP_RCU) S) (\<lambda>(r, S).
     bind_res (if r = Inl (- ECHILD) then open_at flags S else Inr (r, S)) (\<lambda>(r, S).
     if r = Inl (- ESTALE) then open_at (flags OR LOOKUP_REVAL) S else Inr (r, S)))"

definition do_filp_open ::
  "('k, 'a) walk_env \<Rightarrow> 'k sys_env \<Rightarrow> 'k open_env \<Rightarrow> int \<Rightarrow> bytes \<Rightarrow> open_flags \<Rightarrow> 'k task \<Rightarrow> ((int + ofile) \<times> 'k task) res" where
  "do_filp_open E Y X dfd pathname op S =
     bind_res (open_retries (path_openat E Y X op) (op_lookup_flags op) (on_nd (set_nameidata E dfd pathname None) S)) (\<lambda>(r, S).
     Inr (r, on_nd (\<lambda>W. snd (restore_nameidata None W)) S))"

definition do_file_open_root ::
  "('k, 'a) walk_env \<Rightarrow> 'k sys_env \<Rightarrow> 'k open_env \<Rightarrow> vpath \<Rightarrow> int + bytes \<Rightarrow> open_flags \<Rightarrow> 'k task \<Rightarrow> ((int + ofile) \<times> 'k task) res" where
  "do_file_open_root E Y X path name op S =
     (let S = on_nd (\<lambda>W. W\<lparr>nd_root := path\<rparr>) S in
      bind_res (null_ok (p_dentry path)) (\<lambda>d.
      if kd_type (w_dentry E (now S) d) = SymlinkType \<and> op_intent op AND LOOKUP_OPEN \<noteq> 0 then Inr (Inl (- ELOOP), S)
      else case name of
        Inl e \<Rightarrow> Inr (Inl e, S)
      | Inr filename \<Rightarrow>
          bind_res (open_retries (path_openat E Y X op) (op_lookup_flags op OR LOOKUP_ROOT) (on_nd (set_nameidata E (- 1) filename None) S)) (\<lambda>(r, S).
          Inr (r, on_nd (\<lambda>W. snd (restore_nameidata None W)) S))))"

end
