(* ===== verification/Sys_Open_Lookup.thy ===== *)
theory Sys_Open_Lookup
  imports Sys_Open Sys_Props
begin

text \<open>
  The lookup of the last component in an open: it comes back with one reference to a dentry or none, and keeps the locks
  and everything else the task holds outside its walk.
\<close>

section \<open>Steps that only change the world\<close>

definition only_world :: "'k task \<Rightarrow> 'k task \<Rightarrow> bool" where
  "only_world S T \<longleftrightarrow> (\<exists>w. T = S\<lparr>wk := (wk S)\<lparr>world := w\<rparr>\<rparr>)"

lemma only_world_refl [simp]: "only_world S S"
  unfolding only_world_def by (rule exI [of _ "world (wk S)"]) simp

lemma only_world_step [simp]:
  "only_world S (S\<lparr>wk := (wk S)\<lparr>world := w\<rparr>\<rparr>)" "only_world S (on_nd (\<lambda>W. W\<lparr>world := w\<rparr>) S)" "only_world S (on_nd (\<lambda>W. W\<lparr>world := g (world W)\<rparr>) S)"
  by (auto simp: only_world_def on_nd_def)

lemma only_world_trans: "only_world S T \<Longrightarrow> only_world T U \<Longrightarrow> only_world S U"
  by (auto simp: only_world_def)

lemma only_world_ask: "ask f S = (r, T) \<Longrightarrow> only_world S T"
  by (auto simp: ask_eq)

lemma may_open_post: "post (\<lambda>(e, T). only_world S T) (t_may_open E X path acc flag S)"
  by (auto simp: t_may_open_def path_inode_def Let_def null_ok_def split: option.split prod.split)

lemma handle_truncate_post: "post (\<lambda>(e, T). only_world S T) (handle_truncate E X file S)"
  by (simp add: handle_truncate_def path_inode_def null_ok_def Let_def ask_eq on_nd_def split: option.split)

section \<open>The lookup of the last component\<close>

text \<open>The state of the file system: no lock is left, no file is opened, and only a success comes with a dentry.\<close>

definition open_inert :: "u32 \<Rightarrow> vfs_state \<Rightarrow> int \<times> dentry option \<times> u32 \<times> vfs_state \<Rightarrow> bool" where
  "open_inert m V = (\<lambda>(e, d, m', U). i_rwsem U = i_rwsem V \<and> m' AND FMODE_OPENED = m AND FMODE_OPENED \<and> (d \<noteq> None \<longrightarrow> e = 0))"

lemma created_bit [simp]:
  "(m AND NOT FMODE_CREATED) AND FMODE_OPENED = m AND FMODE_OPENED" "(m OR FMODE_CREATED) AND FMODE_OPENED = m AND FMODE_OPENED"
proof -
  have "FMODE_CREATED AND FMODE_OPENED = 0" by (simp add: vfs_simps)
  then show "(m AND NOT FMODE_CREATED) AND FMODE_OPENED = m AND FMODE_OPENED" "(m OR FMODE_CREATED) AND FMODE_OPENED = m AND FMODE_OPENED"
    by (simp_all add: flag_bits)
qed

lemma flatfs_call_rwsem: "post (\<lambda>(r, U). i_rwsem U = i_rwsem V) (flatfs_call P flat f V)"
  unfolding flatfs_call_def Let_def by (intro post_then post_rules; simp)

lemma open_lookup_rwsem: "post (\<lambda>(r, U). i_rwsem U = i_rwsem V) (open_lookup P nm alias ops dir fl dn V)"
  unfolding open_lookup_def Let_def
  by (intro post_if post_then post_option post_seq [OF flatfs_call_rwsem]) (auto split: lookup_result.split option.split)

lemma open_create_rwsem: "post (\<lambda>(r, U). i_rwsem U = i_rwsem V) (open_create P nm ops dir mode dn V)"
  unfolding open_create_def by (intro post_then post_option post_seq [OF flatfs_call_rwsem]) auto

lemma no_open_inert: "post (open_inert m V) (no_open P nm alias ops dir ce fl mode m dn V)"
proof -
  have fin: "open_inert m V (open_finish ce m' dn U)" if "i_rwsem U = i_rwsem V" "m' AND FMODE_OPENED = m AND FMODE_OPENED" for m' dn U
    using that by (simp add: open_inert_def open_finish_def)
  have make: "post (open_inert m V) (bind_res (open_create P nm ops dir mode dn U) (\<lambda>(r, V).
      case r of Inl error \<Rightarrow> Inr (error, None, m OR FMODE_CREATED, V) | Inr dn \<Rightarrow> Inr (open_finish ce (m OR FMODE_CREATED) dn V)))"
    if "i_rwsem U = i_rwsem V" for dn U
    by (rule post_seq [OF open_create_rwsem]) (use that fin in \<open>auto simp: open_inert_def split: sum.split\<close>)
  show ?thesis
    unfolding no_open_def Let_def
    by (rule post_seq [OF open_lookup_rwsem]) (use fin make in \<open>auto simp: open_inert_def split: sum.split simp del: post_bind\<close>)
qed

lemma lookup_open_inert:
  assumes "lookup_open P K junk E A dir m V = Some r"
  shows "post (open_inert m V) r"
proof -
  have no_atomic: "op_atomic_open (iop_table P K junk fi) = None" for fi by (simp add: iop_table_def ffs_dir_inode_ops_def ffs_file_inode_ops_def)
  have lk: "post (open_inert m V) (no_open P nm al ops dir ce fl mode (m AND NOT FMODE_CREATED) dn (put_opflags dir dv V))" for nm al ops ce fl mode dn dv
    by (rule post_mono [OF no_open_inert]) (auto simp: open_inert_def)
  show ?thesis
    using assms lk unfolding lookup_open_def Let_def
    by (auto simp: open_inert_def no_atomic split: sum.splits prod.splits if_splits option.splits bool.splits)
qed

lemma open_dentry_loop_safe:
  assumes "errs_ok E"
  shows "ok K (\<lambda>x. f x + d_ref p x) W \<Longrightarrow> safe (\<lambda>(r, T). looked_up K f r T \<and> here W T) (open_dentry_loop E n dir p W)"
proof (induction n arbitrary: p W)
  case (Suc n)
  have alloc: "fst (k_d_alloc_parallel E dir h nm w) = Inl e \<Longrightarrow> e < 0" for h nm w e using assms by (auto simp: errs_ok_def)
  have rec: "safe (\<lambda>(r, T). looked_up K f r T \<and> here W T) (open_dentry_loop E n dir None U)" if "ok K f U" "here W U" for U
    using Suc.IH [of None U] that(1) by (auto elim!: safe_mono intro: here_trans [OF that(2)])
  have dentry: "safe (\<lambda>(r, T). looked_up K f r T \<and> here W T)
      (if k_d_in_lookup E (world U) d then Inr (Inr d, U)
       else let (error, U) = revalidate E d (nd_flags U) U in
            if error > 0 then Inr (Inr d, U)
            else if error \<noteq> 0 then Inr (Inl error, dput (Some d) U)
            else open_dentry_loop E n dir None (dput (Some d) (invalidate E d U)))"
    if "ok K (\<lambda>x. f x + d_ref (Some d) x) U" "here W U" for d U
    using that by (auto simp: Let_def invalidate_def intro!: safe_revalidate rec)
  show ?case
  proof (cases p)
    case None
    then show ?thesis
      unfolding open_dentry_loop.simps None option.case Let_def kop_eq prod.case
      by (intro safe_sum dentry [unfolded Let_def]) (use Suc.prems None alloc in auto)
  next
    case (Some d)
    then show ?thesis using dentry [of d W] Suc.prems by simp
  qed
qed simp

lemma open_dentry_safe:
  "errs_ok E \<Longrightarrow> ok K (\<lambda>x. 0) W \<Longrightarrow> safe (\<lambda>(r, T). looked_up K (\<lambda>x. 0) r T \<and> here W T) (open_dentry E Y dir W)"
  unfolding open_dentry_def Let_def kop_eq prod.case
  by (rule safe_mono [OF open_dentry_loop_safe]) (auto simp: here_def)

text \<open>What a task holds outside its walk.\<close>

definition outside :: "'k task \<Rightarrow> (nat \<Rightarrow> bool) \<times> bool \<times> (nat \<Rightarrow> int) \<times> (nat \<Rightarrow> int)" where
  "outside S = (held_inode S, held_rename S, irefs S, writers S)"

lemma outside_frame [simp]: "outside (S\<lparr>wk := W\<rparr>) = outside S" "outside (on_nd g S) = outside S" "outside (t_dput d S) = outside S"
  "outside (set_dentry Y d dn S) = outside S" "outside (t_path_put p S) = outside S"
  by (simp_all add: outside_def on_nd_def t_dput_def set_dentry_def t_path_put_def)

lemma outside_world: "only_world S T \<Longrightarrow> outside T = outside S"
  by (auto simp: only_world_def)

lemma leave_only_world: "i_rwsem V = held_inode S \<Longrightarrow> only_world S (leave_fs Y ((enter_fs Y S)\<lparr>vfs := V\<rparr>) S)"
  by (auto simp: only_world_def leave_fs_def enter_fs_def Let_def)

lemma only_world_ok: "only_world S T \<Longrightarrow> ok K f (wk T) = ok K f (wk S)" "only_world S T \<Longrightarrow> here W (wk T) = here W (wk S)"
  by (auto simp: only_world_def)

lemma ok_none [simp]: "ok K (d_ref None) W = ok K (\<lambda>x. 0) W"
  by (auto elim!: okI)

definition looked_open :: "'k walk \<Rightarrow> 'k task \<Rightarrow> int \<times> nat option \<times> ofile \<times> 'k task \<Rightarrow> bool" where
  "looked_open K S = (\<lambda>(e, d, file, T). \<not> is_opened file \<and> (d \<noteq> None \<longrightarrow> e = 0) \<and> ok K (d_ref d) (wk T) \<and> here (wk S) (wk T) \<and> outside T = outside S)"

lemma safe_post: "safe Q r \<Longrightarrow> post Q r"
  by (cases r) simp_all

lemma t_walk_post: "safe (\<lambda>(r, W). Q r (S\<lparr>wk := W\<rparr>)) (f (wk S)) \<Longrightarrow> post (\<lambda>(r, T). Q r T) (t_walk f S)"
  by (cases "f (wk S)") (auto simp: t_walk_def split: prod.splits)

lemma open_dentry_result_ok:
  assumes "ok K (d_ref (Some d)) (wk U)" "here (wk S) (wk U)" "outside U = outside S" "\<not> is_opened file" "res \<noteq> None \<longrightarrow> e = 0"
  shows "looked_open K S (open_dentry_result Y d al e res file U)"
proof -
  have "ok K (\<lambda>x. 0) (dput (Some d) (wk U))" "ok K (d_ref (Some d')) (dput (Some d) (dget (Some d') (wk U)))" for d' using assms(1) by simp_all
  then show ?thesis
    using assms by (auto simp: open_dentry_result_def looked_open_def t_dput_def on_nd_def set_dentry_def split: option.split)
qed

lemma open_with_dentry_post:
  assumes "ok K (d_ref (Some d)) (wk T)" "here (wk S) (wk T)" "outside T = outside S" "\<not> is_opened file"
  shows "post (looked_open K S) (open_with_dentry E Y X op got i d file T)"
proof -
  have leave: "looked_open K S (open_dentry_result Y d al error res (file\<lparr>f_mode := mode\<rparr>)
      (if b then on_nd (\<lambda>W. W\<lparr>world := k_d_lookup_done E d (world W)\<rparr>) (leave_fs Y ((enter_fs Y T)\<lparr>vfs := V\<rparr>) T)
       else leave_fs Y ((enter_fs Y T)\<lparr>vfs := V\<rparr>) T))" (is "looked_open K S (open_dentry_result Y d al error res ?f ?U)")
    if "open_inert (f_mode file) (vfs (enter_fs Y T)) (error, res, mode, V)" for al error res mode V b
  proof -
    have i: "i_rwsem V = held_inode T" "\<not> is_opened ?f" "res \<noteq> None \<longrightarrow> error = 0"
      using that assms(4) by (auto simp: open_inert_def is_opened_def)
    have w: "only_world T ?U" using only_world_trans [OF leave_only_world [OF i(1), of Y]] leave_only_world [OF i(1), of Y] by simp
    show ?thesis
      by (rule open_dentry_result_ok [OF _ _ _ i(2,3)]) (use assms(1-3) only_world_ok [OF w] outside_world [OF w] in simp_all)
  qed
  show ?thesis
    unfolding open_with_dentry_def Let_def
    by (rule post_option, simp, rule post_seq [OF lookup_open_inert], assumption) (use leave in auto)
qed

lemma t_lookup_open_post:
  assumes "ok K (\<lambda>x. 0) (wk S)" "errs_ok E" "\<not> is_opened file"
  shows "post (looked_open K S) (t_lookup_open E Y X op got dir i file S)"
proof -
  let ?f = "file\<lparr>f_mode := f_mode file AND NOT FMODE_CREATED\<rparr>"
  have f: "\<not> is_opened ?f" using assms(3) by (simp add: is_opened_def)
  have dentry: "post (\<lambda>(r, T). looked_up K (\<lambda>x. 0) r (wk T) \<and> here (wk S) (wk T) \<and> outside T = outside S) (t_walk (open_dentry E Y dir) S)"
    by (rule t_walk_post, rule safe_mono [OF open_dentry_safe [OF assms(2,1)]]) auto
  have "post (looked_open K S) (case r of Inl e \<Rightarrow> Inr (e, None, ?f, T) | Inr d \<Rightarrow> open_with_dentry E Y X op got i d ?f T)"
    if "looked_up K (\<lambda>x. 0) r (wk T)" "here (wk S) (wk T)" "outside T = outside S" for r T
    using that f open_with_dentry_post [OF _ that(2,3) f] by (cases r) (auto simp: looked_open_def)
  then have "post (looked_open K S) (bind_res (t_walk (open_dentry E Y dir) S) (\<lambda>(r, S).
      case r of Inl e \<Rightarrow> Inr (e, None, ?f, S) | Inr d \<Rightarrow> open_with_dentry E Y X op got i d ?f S))"
    by (intro post_seq [OF dentry]) auto
  then show ?thesis
    unfolding t_lookup_open_def Let_def using assms(1,3) by (intro post_if) (simp_all add: looked_open_def)
qed

end
