(* ===== verification/Sys_Open_Props.thy ===== *)
theory Sys_Open_Props
  imports Sys_Open_Lookup
begin

text \<open>
  An open leaves nothing behind. Every part of \<open>do_last\<close> ends with the task as it was at its start, but for the
  reference of the file if that is open by then; the write access to the mount that a part has taken over is given up on
  every way out of it.
\<close>

section \<open>The labels of \<open>do_last\<close>\<close>

definition fref :: "ofile \<Rightarrow> nat + nat \<Rightarrow> int" where
  "fref file x = (if is_opened file then path_refs (f_path file) x else 0)"

text \<open>Between the labels: the walk has gone on from \<open>S\<close>, and the task may have write access to the mount it is on.\<close>

definition owes :: "bool \<Rightarrow> 'k task \<Rightarrow> 'k task \<Rightarrow> bool" where
  "owes got S T \<longleftrightarrow>
     (if got then \<exists>m. p_mnt (cur_path T) = Some m \<and> outside T = (held_inode S, held_rename S, irefs S, (writers S)(m := writers S m + 1))
      else outside T = outside S)"

definition underway :: "bool \<Rightarrow> ofile \<Rightarrow> 'k task \<Rightarrow> 'k task \<Rightarrow> bool" where
  "underway got file S T \<longleftrightarrow> gone (fref file) (wk S) (wk T) \<and> owes got S T"

lemma owes_False [simp]: "owes False S T = (outside T = outside S)"
  by (simp add: owes_def)

lemma owes_cong: "cur_path U = cur_path T \<Longrightarrow> outside U = outside T \<Longrightarrow> owes got S U = owes got S T"
  by (simp add: owes_def)

lemma gone_world [simp]: "gone f K (W\<lparr>world := w\<rparr>) = gone f K W"
  by (simp add: gone_def acct_def balance_defs common_def stack_ok_def last_ok_def)

lemma owes_want:
  assumes "outside T = outside S" "p_mnt (cur_path T) = Some m" "want_write Y m T = (e, U)"
  shows "owes (e = 0) S U" "gone f K (wk U) = gone f K (wk T)" "ok K f (wk U) = ok K f (wk T)" "in_rcu (wk U) = in_rcu (wk T)"
  using assms by (cases "e = 0"; auto simp: want_write_def ask_eq Let_def owes_def outside_def cur_path_def split: if_splits)+

lemma owes_drop:
  assumes "owes True S T" "p_mnt (cur_path T) = Some m"
  shows "outside (drop_write Y m T) = outside S" "wk (drop_write Y m T) = (wk T)\<lparr>world := y_drop_write Y m (now T)\<rparr>"
  using assms by (auto simp: drop_write_def owes_def outside_def)

definition last_done :: "'k task \<Rightarrow> int \<times> ofile \<times> 'k task \<Rightarrow> bool" where
  "last_done S = (\<lambda>(e, file, T). gone (fref file) (wk S) (wk T) \<and> outside T = outside S \<and>
     (e > 0 \<longrightarrow> \<not> is_opened file \<and> nd_depth (wk T) = 1 \<and> nd_total_link_count (wk S) < nd_total_link_count (wk T) \<and> nd_total_link_count (wk T) \<le> int MAXSYMLINKS))"

lemma cur_path_world: "only_world T U \<Longrightarrow> cur_path U = cur_path T"
  by (auto simp: only_world_def cur_path_def)

lemma underway_world: "only_world T U \<Longrightarrow> underway got file S U = underway got file S T"
  using owes_cong [OF cur_path_world outside_world, of T U got S] by (auto simp: underway_def only_world_def)

lemma underway_stack: "underway got file S T \<Longrightarrow> stack_ok (wk T)"
  by (simp add: underway_def gone_def)

lemma open_out_post:
  assumes "underway got file S T"
  shows "post (last_done S) (open_out Y got e file T)"
  using assms owes_drop [of S T]
  by (cases got) (auto simp: open_out_def last_done_def underway_def null_ok_def EINVAL_def split: option.split)

lemma open_opened_post:
  assumes "underway got file S T"
  shows "post (last_done S) (open_opened E Y X op tr got file T)"
proof -
  have out: "post (last_done S) (open_out Y got e file U)" if "only_world T U" for e U
    using open_out_post underway_world [OF that] assms by blast
  have trunc: "post (\<lambda>(e, V). only_world T V) (if b then handle_truncate E X file U else Inr (e, U))" if "only_world T U" for b e U
    by (intro post_if post_mono [OF handle_truncate_post]) (use that only_world_trans [OF that] in auto)
  show ?thesis
    unfolding open_opened_def Let_def
    by (intro post_prod post_seq [OF trunc] only_world_ask) (assumption, use out in auto)
qed

lemma opened_bit: "is_opened \<lparr>f_mode = m OR FMODE_OPENED, f_path = p\<rparr>"
proof -
  have "(m OR FMODE_OPENED) AND FMODE_OPENED = FMODE_OPENED" by (intro bit_word_eqI) (auto simp: bit_simps)
  moreover have "FMODE_OPENED \<noteq> 0" by (simp add: vfs_simps)
  ultimately show ?thesis by (simp add: is_opened_def)
qed

lemma open_file_underway:
  assumes "underway got file S T" "\<not> is_opened file" "open_file f (cur_path T) file T = (e, g, U)"
  shows "underway got g S U"
proof -
  let ?p = "cur_path T"
  obtain w error mode where T': "ask (f ?p (f_mode file)) T = ((error, mode), T\<lparr>wk := (wk T)\<lparr>world := w\<rparr>\<rparr>)" (is "_ = (_, ?T)")
    by (cases "fst (f ?p (f_mode file) (now T))") (simp add: ask_eq)
  have t: "underway got file S ?T" using underway_world [of T ?T] assms(1) by simp
  show ?thesis
  proof (cases "error = 0")
    case True
    then have g: "g = \<lparr>f_mode = mode OR FMODE_OPENED, f_path = ?p\<rparr>" "U = on_nd (path_get ?p) ?T"
      using assms(3) by (simp_all add: open_file_def T')
    have "is_opened g" by (simp add: g opened_bit)
    then have "fref g x = fref file x + path_refs ?p x" for x using assms(2) by (simp add: fref_def g)
    moreover have "gone (\<lambda>x. fref file x + path_refs ?p x) (wk S) (wk U)"
      by (rule gone_ok [of _ _ "wk ?T"]) (use t in \<open>simp_all add: underway_def g on_nd_def\<close>)
    ultimately have "gone (fref g) (wk S) (wk U)" by (simp add: goneI)
    moreover have "cur_path U = cur_path ?T" "outside U = outside ?T" by (simp_all add: g cur_path_def on_nd_def outside_def)
    ultimately show ?thesis using t owes_cong [of U ?T] by (simp add: underway_def)
  next
    case False
    then show ?thesis using assms(3) t by (simp add: open_file_def T')
  qed
qed

lemma open_created_post:
  assumes "underway got file S T" "\<not> is_opened file"
  shows "post (last_done S) (open_created E Y X op acc fl tr got file T)"
proof -
  have "post (last_done S)
      (if e \<noteq> 0 then open_out Y got e file U
       else if is_opened file then Inl KernelBug
       else case open_file (o_vfs_open X) (cur_path U) file U of (e, g, V) \<Rightarrow>
         if e \<noteq> 0 then open_out Y got e g V else open_opened E Y X op tr got g V)" if "only_world T U" for e U
  proof -
    have U: "underway got file S U" using underway_world [OF that] assms(1) by simp
    show ?thesis
      by (intro post_if post_prod open_out_post open_opened_post post_Inl U) (rule open_file_underway [OF U assms(2)], simp)+
  qed
  then show ?thesis
    unfolding open_created_def Let_def by (intro post_seq [OF may_open_post]) auto
qed

lemma complete_walk_error: "post (\<lambda>(e, W). e \<le> 0) (complete_walk E S)"
  unfolding complete_walk_def Let_def
  by (rule post_then) (auto simp: null_ok_def kop_eq ECHILD_def ESTALE_def split: option.split prod.split)

lemma underway_move:
  assumes "underway False file S T" "gone (\<lambda>x. 0) (wk T) W"
  shows "underway False file S (T\<lparr>wk := W\<rparr>)"
  using assms goneI [OF gone_trans [OF _ assms(2)], of "fref file" "wk S" "fref file"] by (simp add: underway_def)

lemma underway_done: "underway False file S T \<Longrightarrow> e \<le> 0 \<Longrightarrow> last_done S (e, file, T)"
  by (simp add: underway_def last_done_def)

lemma bad_depth: "bad K f W \<Longrightarrow> nd_depth W \<le> nd_depth K"
  by (simp add: bad_def shrinks_def)

lemma complete_post:
  assumes "underway False file S T"
  shows "post (\<lambda>(e, U). underway False file S U \<and> e \<le> 0 \<and> (e = 0 \<longrightarrow> \<not> in_rcu (wk U)) \<and> nd_depth (wk U) \<le> nd_depth (wk T)) (t_walk (complete_walk E) T)"
proof -
  have s: "stack_ok (wk T)" by (rule underway_stack [OF assms])
  have "post (\<lambda>(e, W). bad (wk T) (\<lambda>x. 0) W \<and> (e = 0 \<longrightarrow> \<not> in_rcu W)) (complete_walk E (wk T))"
    by (rule safe_post [OF complete_walk_safe [OF ok_refl stack_ok_fits [OF s]]])
  from post_conj [OF this complete_walk_error [of E "wk T"]] show ?thesis
    unfolding t_walk_def by (rule post_seq) (use underway_move [OF assms bad_gone [OF _ s]] bad_depth in auto)
qed

lemma finish_open_post:
  assumes "underway False file S T" "\<not> is_opened file"
  shows "post (last_done S) (finish_open E Y X op dir file T)"
proof -
  have trunc: "post (last_done S) (bind_res (null_ok (p_mnt (cur_path U))) (\<lambda>m.
      case want_write Y m U of (e, V) \<Rightarrow>
      if e \<noteq> 0 then open_out Y False e file V else open_created E Y X op acc fl True True file V))"
    if U: "underway False file S U" for U acc fl
  proof (cases "p_mnt (cur_path U)")
    case (Some m)
    have "if e = 0 then underway True file S V else underway False file S V" if "want_write Y m U = (e, V)" for e V
      using owes_want(1) [OF _ Some that, of S] owes_want(2) [OF refl Some that] U by (auto simp: underway_def)
    then show ?thesis
      unfolding Some null_ok_def option.case bind_res_Inr
      by (intro post_prod post_if) (auto intro!: open_out_post open_created_post assms(2) split: if_splits)
  qed (simp add: null_ok_def)
  have rest: "post (last_done S)
      (bind_res (null_ok (p_dentry (cur_path U))) (\<lambda>d.
       bind_res (if op_open_flag op AND O_CREAT \<noteq> 0 then open_existing E dir d U else Inr 0) (\<lambda>error.
       if error \<noteq> 0 then open_out Y False error file U
       else if nd_flags (wk U) AND LOOKUP_DIRECTORY \<noteq> 0 \<and> kd_type (w_dentry E (now U) d) \<noteq> DirectoryType then open_out Y False (- ENOTDIR) file U
       else if op_open_flag op AND O_TRUNC \<noteq> 0 \<and> kd_type (w_dentry E (now U) d) = RegularType
       then bind_res (null_ok (p_mnt (cur_path U))) (\<lambda>m.
            case want_write Y m U of (e, V) \<Rightarrow>
            if e \<noteq> 0 then open_out Y False e file V
            else open_created E Y X op (op_acc_mode op) (op_open_flag op) True True file V)
       else open_created E Y X op (op_acc_mode op) (op_open_flag op) False False file U)))"
    if U: "underway False file S U" for U
    by (rule post_null, rule post_then) (intro post_if trunc open_out_post open_created_post U assms(2))
  show ?thesis
    unfolding finish_open_def Let_def
    by (rule post_seq [OF complete_post [OF assms(1)]]) (use rest underway_done in \<open>auto simp del: post_bind\<close>)
qed

text \<open>
  A walk from \<open>S\<close> that has reached \<open>K\<close>, from where the last component is looked up.
\<close>

definition at_last :: "'k task \<Rightarrow> 'k walk \<Rightarrow> bool" where
  "at_last S K \<longleftrightarrow> gone (\<lambda>x. 0) (wk S) K \<and> nd_depth K \<le> 1"

lemma fref_closed: "\<not> is_opened file \<Longrightarrow> fref file = (\<lambda>x. 0)"
  by (simp add: fref_def fun_eq_iff)

lemma at_last_gone: "at_last S K \<Longrightarrow> gone (\<lambda>x. 0) K W \<Longrightarrow> gone (\<lambda>x. 0) (wk S) W"
  using goneI [OF gone_trans, of "\<lambda>x. 0" "wk S" K "\<lambda>x. 0" W "\<lambda>x. 0"] by (simp add: at_last_def)

lemma at_last_ok: "at_last S K \<Longrightarrow> ok K (\<lambda>x. 0) W \<Longrightarrow> gone (\<lambda>x. 0) (wk S) W"
  by (rule at_last_gone, assumption, rule ok_gone, assumption) (simp add: at_last_def gone_def)

lemma finish_lookup_post:
  assumes "at_last S K" "ok K (\<lambda>x. cref (wk T) path x) (wk T)" "outside T = outside S" "\<not> is_opened file"
  shows "post (last_done S) (finish_lookup E Y X op dir file path inode seq T)"
proof -
  have K: "stack_ok K" "depth_left False K = 0" "nd_total_link_count (wk S) \<le> nd_total_link_count K"
    using assms(1) by (auto simp: at_last_def gone_def common_def depth_left_def)
  have step: "post (\<lambda>(e, U). step_ok False K e (wk U) \<and> outside U = outside S) (t_walk (step_into E False False path inode seq) T)"
    by (rule t_walk_post, rule safe_mono [OF step_into_ok [OF K(1) assms(2)]]) (use assms(3) in auto)
  have rest: "post (last_done S) (if e \<noteq> 0 then Inr (e, file, U) else finish_open E Y X op dir file U)"
    if "step_ok False K e (wk U)" "outside U = outside S" for e U
  proof -
    have g: "gone (\<lambda>x. 0) (wk S) (wk U)" using at_last_gone [OF assms(1)] that(1) by (simp add: step_ok_def)
    then have "underway False file S U" using that(2) fref_closed [OF assms(4)] by (simp add: underway_def)
    moreover have "last_done S (e, file, U)" using g that K assms(4) fref_closed [OF assms(4)] by (auto simp: last_done_def step_ok_def stepped_def)
    ultimately show ?thesis by (intro post_if finish_open_post assms(4)) simp_all
  qed
  show ?thesis unfolding finish_lookup_def by (rule post_seq [OF step]) (use rest in auto)
qed

lemma moved_done:
  assumes "at_last S K" "ok K (\<lambda>x. cref (wk T) p x) (wk T)" "outside T = outside S" "\<not> is_opened file" "e \<le> 0"
  shows "last_done S (e, file, on_nd (path_to_nameidata p) T)"
proof -
  have "ok K (\<lambda>x. 0) (path_to_nameidata p (wk T))" by (rule path_to_nameidata_ok) (use assms(2) in simp)
  from at_last_ok [OF assms(1) this] show ?thesis using assms(3,4,5) fref_closed [OF assms(4)] by (simp add: last_done_def on_nd_def outside_def)
qed

lemma open_found_post:
  assumes "at_last S K" "ok K (d_ref (Some d)) (wk T)" "\<not> in_rcu (wk T)" "\<not> is_opened file"
    and w: "owes got S T"
  shows "post (last_done S) (open_found E Y X op dir got d file T)"
proof -
  let ?p = "\<lparr>p_mnt = p_mnt (cur_path T), p_dentry = Some d\<rparr>"
  have c: "ok K (\<lambda>x. cref (wk T) ?p x) (wk T)" using assms(2,3) by (simp add: cref_def cur_path_def)
  have made: "underway got file S (on_nd (path_to_nameidata ?p) T)"
  proof -
    have "ok K (\<lambda>x. 0) (path_to_nameidata ?p (wk T))" by (rule path_to_nameidata_ok) (use c in simp)
    from at_last_ok [OF assms(1) this] show ?thesis
      using w fref_closed [OF assms(4)] by (auto simp: underway_def on_nd_def cur_path_def path_to_nameidata_def Let_def outside_def owes_def)
  qed
  have drop: "post (\<lambda>U. ok K (d_ref (Some d)) (wk U) \<and> \<not> in_rcu (wk U) \<and> cur_path U = cur_path T \<and> outside U = outside S)
      (if got then bind_res (null_ok (p_mnt (cur_path T))) (\<lambda>m. Inr (drop_write Y m T)) else Inr T)"
    using assms(2,3) w owes_drop [of S T] by (cases got) (auto simp: null_ok_def cur_path_def split: option.split)
  have walk: "post (\<lambda>(r, p, W). (if r < 0 then ok K (\<lambda>x. 0) W else ok K (\<lambda>x. cref W p x) W)) (follow_managed E ?p (wk U))"
    if "ok K (d_ref (Some d)) (wk U)" "\<not> in_rcu (wk U)" "cur_path U = cur_path T" for U
    by (rule safe_post, rule safe_mono [OF follow_managed_safe [of K "\<lambda>x. 0"]]) (use that in \<open>auto simp: cur_path_def split: if_splits\<close>)
  have step: "post (last_done S)
      (if r < 0 then Inr (r, file, U\<lparr>wk := W\<rparr>)
       else bind_res (null_ok (p_dentry p)) (\<lambda>d.
       if kd_type (w_dentry E (now (U\<lparr>wk := W\<rparr>)) d) = MissType then Inr (- ENOENT, file, on_nd (path_to_nameidata p) (U\<lparr>wk := W\<rparr>))
       else if op_open_flag op AND (O_EXCL OR O_CREAT) = O_EXCL OR O_CREAT then Inr (- EEXIST, file, on_nd (path_to_nameidata p) (U\<lparr>wk := W\<rparr>))
       else finish_lookup E Y X op dir file p (kd_inode (w_dentry E (now (U\<lparr>wk := W\<rparr>)) d)) 0 (U\<lparr>wk := W\<rparr>)))"
    if "if r < 0 then ok K (\<lambda>x. 0) W else ok K (\<lambda>x. cref W p x) W" "outside U = outside S" for r p W U
  proof (cases "r < 0")
    case True
    then show ?thesis using that at_last_ok [OF assms(1)] assms(4) fref_closed [OF assms(4)] by (simp add: last_done_def)
  next
    case False
    then have "ok K (\<lambda>x. cref (wk (U\<lparr>wk := W\<rparr>)) p x) (wk (U\<lparr>wk := W\<rparr>))" "outside (U\<lparr>wk := W\<rparr>) = outside S" using that by simp_all
    note gone_on = moved_done [OF assms(1) this assms(4)] finish_lookup_post [OF assms(1) this assms(4)]
    show ?thesis by (intro post_if post_null gone_on(2)) (use False gone_on(1) in \<open>simp_all add: ENOENT_def EEXIST_def\<close>)
  qed
  show ?thesis
    unfolding open_found_def Let_def
  proof (rule post_if)
    show "post (last_done S) (open_created E Y X op 0 (op_open_flag op AND NOT O_TRUNC) False got file (on_nd (path_to_nameidata ?p) T))"
      by (rule open_created_post [OF made assms(4)])
  next
    show "post (last_done S)
      (bind_res (if got then bind_res (null_ok (p_mnt (cur_path T))) (\<lambda>m. Inr (drop_write Y m T)) else Inr T) (\<lambda>S.
       bind_res (follow_managed E ?p (wk S)) (\<lambda>(error, path, W).
       if error < 0 then Inr (error, file, S\<lparr>wk := W\<rparr>)
       else bind_res (null_ok (p_dentry path)) (\<lambda>d.
       if kd_type (w_dentry E (now (S\<lparr>wk := W\<rparr>)) d) = MissType then Inr (- ENOENT, file, on_nd (path_to_nameidata path) (S\<lparr>wk := W\<rparr>))
       else if op_open_flag op AND (O_EXCL OR O_CREAT) = O_EXCL OR O_CREAT then Inr (- EEXIST, file, on_nd (path_to_nameidata path) (S\<lparr>wk := W\<rparr>))
       else finish_lookup E Y X op dir file path (kd_inode (w_dentry E (now (S\<lparr>wk := W\<rparr>)) d)) 0 (S\<lparr>wk := W\<rparr>)))))"
      by (rule post_seq [OF drop], elim conjE, rule post_seq [OF walk], assumption, assumption, assumption) (use step in \<open>auto simp del: post_bind\<close>)
  qed
qed

section \<open>The last step as a whole\<close>

text \<open>The directory is locked for the lookup alone.\<close>

lemma open_locked_post:
  assumes "ok K (\<lambda>x. 0) (wk T)" "errs_ok E" "\<not> is_opened file"
  shows "post (looked_open K T) (open_locked E Y X op got dir file T)"
proof (cases "op_open_flag op AND O_CREAT \<noteq> 0")
  case True
  have lock: "post (\<lambda>(i, U). \<not> held_inode T i \<and> U = T\<lparr>held_inode := (held_inode T)(i := True)\<rparr>) (open_lock E True dir T)"
    by (auto simp: open_lock_def dir_lock_def null_ok_def split: option.split)
  have "looked_open K T (e, d, g, open_unlock True i V)"
    if "looked_open K (T\<lparr>held_inode := (held_inode T)(i := True)\<rparr>) (e, d, g, V)" "\<not> held_inode T i" for e d g V i
    using that by (auto simp: looked_open_def open_unlock_def dir_unlock_def outside_def fun_upd_idem)
  then have "post (looked_open K T) (bind_res (t_lookup_open E Y X op got dir i file (T\<lparr>held_inode := (held_inode T)(i := True)\<rparr>))
      (\<lambda>(e, d, file, V). Inr (e, d, file, open_unlock True i V)))" if "\<not> held_inode T i" for i
    by (intro post_seq [OF t_lookup_open_post [OF _ assms(2,3), of K]]) (use assms(1) that in auto)
  then show ?thesis
    using True unfolding open_locked_def Let_def by (simp del: post_bind) (rule post_seq [OF lock], auto simp del: post_bind)
next
  case False
  have lock: "post (\<lambda>(i, U). U = on_nd (inode_lock_shared i) T) (open_lock E False dir T)"
    by (auto simp: open_lock_def null_ok_def split: option.split)
  have "looked_open K T (e, d, g, open_unlock False i V)"
    if "looked_open (inode_lock_shared i K) (on_nd (inode_lock_shared i) T) (e, d, g, V)" for e d g V i
    using that ok_unlock [of i K "d_ref d" "wk V"] by (simp add: looked_open_def open_unlock_def on_nd_def outside_def)
  then have "post (looked_open K T) (bind_res (t_lookup_open E Y X op got dir i file (on_nd (inode_lock_shared i) T))
      (\<lambda>(e, d, file, V). Inr (e, d, file, open_unlock False i V)))" for i
    by (intro post_seq [OF t_lookup_open_post [OF _ assms(2,3), of "inode_lock_shared i K"]]) (use ok_lock [OF assms(1)] in \<open>auto simp: on_nd_def\<close>)
  then show ?thesis
    using False unfolding open_locked_def Let_def by (simp del: post_bind) (rule post_seq [OF lock], auto simp del: post_bind)
qed

lemma open_slow_post:
  assumes "at_last S K" "ok K (\<lambda>x. 0) (wk T)" "\<not> in_rcu (wk T)" "outside T = outside S" "errs_ok E" "\<not> is_opened file"
  shows "post (last_done S) (open_slow E Y X op dir file T)"
proof -
  have want: "post (\<lambda>(got, U). owes got S U \<and> ok K (\<lambda>x. 0) (wk U) \<and> \<not> in_rcu (wk U))
      (if b then bind_res (null_ok (p_mnt (cur_path T))) (\<lambda>m. case want_write Y m T of (e, U) \<Rightarrow> Inr (e = 0, U)) else Inr (False, T))" for b
  proof -
    have "owes (e = 0) S U \<and> ok K (\<lambda>x. 0) (wk U) \<and> \<not> in_rcu (wk U)" if "want_write Y m T = (e, U)" "p_mnt (cur_path T) = Some m" for m e U
      using owes_want [OF assms(4) that(2,1)] assms(2,3) by simp
    then show ?thesis using assms(2-4) by (auto simp: null_ok_def split: option.split prod.split)
  qed
  have locked: "post (\<lambda>(e, d, g, V). looked_open K U (e, d, g, V)) (open_locked E Y X op got dir' file U)" if "ok K (\<lambda>x. 0) (wk U)" for got dir' U
    using open_locked_post [OF that assms(5,6)] by simp
  have rest: "post (last_done S)
      (if e \<noteq> 0 then open_out Y got e g V
       else if is_opened g then r
       else bind_res (null_ok d) (\<lambda>d. open_found E Y X op dir got d g V))"
    if U: "owes got S U" "\<not> in_rcu (wk U)" and V: "looked_open K U (e, d, g, V)" for got U e d g V r
  proof -
    have w: "owes got S V" using U(1) V owes_cong [of V U] by (simp add: looked_open_def here_def cur_path_def)
    have g: "\<not> is_opened g" "ok K (d_ref d) (wk V)" "\<not> in_rcu (wk V)" using U(2) V by (auto simp: looked_open_def here_def)
    have out: "underway got g S V" if "e \<noteq> 0"
    proof -
      have "ok K (\<lambda>x. 0) (wk V)" using V that by (auto simp: looked_open_def)
      then show ?thesis using at_last_ok [OF assms(1)] w fref_closed [OF g(1)] by (simp add: underway_def)
    qed
    have look: "post (last_done S) (bind_res (null_ok d) (\<lambda>d. open_found E Y X op dir got d g V))"
    proof (cases d)
      case (Some a)
      then show ?thesis using g(2) by (simp add: null_ok_def) (rule open_found_post [OF assms(1) _ g(3,1) w], simp)
    qed (simp add: null_ok_def)
    show ?thesis by (intro post_if open_out_post out look) (use g(1) in simp_all)
  qed
  show ?thesis
    unfolding open_slow_def Let_def
    by (rule post_seq2(1) [OF want], elim conjE, rule post_null, rule post_seq2(3) [OF locked], assumption, rule rest)
qed

text \<open>The flags that an open may ask for, as \<open>build_open_flags\<close> makes them.\<close>

definition open_flags_ok :: "open_flags \<Rightarrow> bool" where
  "open_flags_ok op \<longleftrightarrow> op_intent op AND LOOKUP_RCU = 0 \<and> op_intent op AND LOOKUP_ROOT = 0 \<and> op_lookup_flags op AND LOOKUP_ROOT = 0"

lemma last_flags_ok:
  assumes "open_flags_ok op"
  shows "ok K f (W\<lparr>nd_flags := (nd_flags W AND NOT LOOKUP_PARENT) OR op_intent op\<rparr>) = ok K f W"
  using assms by (intro ok_frame(7)) (simp add: same_mode_def open_flags_ok_def flag_bits flag_disjoint)

lemma post_seq5:
  "post (\<lambda>(x, y, z, u, v). R x y z u v) m \<Longrightarrow> (\<And>x y z u v. R x y z u v \<Longrightarrow> post Q (f x y z u v)) \<Longrightarrow> post Q (bind_res m (\<lambda>(x, y, z, u, v). f x y z u v))"
  by (erule post_seq) (auto simp del: post_bind)

lemma do_last_post:
  assumes S: "stack_ok (wk S)" "rooted (wk S)" "nd_depth (wk S) \<le> 1" "env_ok E" "open_flags_ok op" "\<not> is_opened file"
  shows "post (last_done S) (do_last E Y X op file S)"
proof -
  have e: "fs_ok E" "errs_ok E" using S(4) by (simp_all add: env_ok_def)
  have K: "at_last S (wk S)" using S(1,3) by (simp add: at_last_def gone_refl)
  have under: "underway False file S T" if "gone (\<lambda>x. 0) (wk S) (wk T)" "outside T = outside S" for T
    using that fref_closed [OF S(6)] by (simp add: underway_def)
  define T where "T = S\<lparr>wk := (wk S)\<lparr>nd_flags := (nd_flags (wk S) AND NOT LOOKUP_PARENT) OR op_intent op\<rparr>\<rparr>"
  have T: "ok (wk S) (\<lambda>x. 0) (wk T)" "outside T = outside S" using last_flags_ok [OF S(5), of "wk S" "\<lambda>x. 0" "wk S"] by (simp_all add: T_def)
  have gT: "gone (\<lambda>x. 0) (wk S) (wk T)" by (rule at_last_ok [OF K T(1)])
  have dots: "post (\<lambda>(e, U). underway False file S U \<and> e \<le> 0) (t_walk (handle_dots E type) T)" for type
    by (rule t_walk_post, rule safe_mono [OF handle_dots_safe [OF T(1) gone_rooted [OF gT S(2)] e(1)]])
      (use T(2) in \<open>auto intro!: under at_last_ok [OF K]\<close>)
  have fast: "post (last_done S)
      (bind_res (lookup_fast E (wk U)) (\<lambda>(error, path, inode, seq, W).
       if error > 0 then finish_lookup E Y X op dir file path inode seq (U\<lparr>wk := W\<rparr>)
       else if error < 0 then Inr (error, file, U\<lparr>wk := W\<rparr>)
       else bind_res (null_ok dir) (\<lambda>d.
       if nd_inode W \<noteq> kd_inode (w_dentry E (world W) d) \<or> in_rcu W then Inl KernelBug else open_slow E Y X op dir file (U\<lparr>wk := W\<rparr>))))"
    if U: "ok (wk S) (\<lambda>x. 0) (wk U)" "outside U = outside S" for U dir
  proof -
    have "post (\<lambda>(r, p, i, q, W). found (wk S) (\<lambda>x. 0) r p W) (lookup_fast E (wk U))"
      by (rule safe_post [OF lookup_fast_safe [OF U(1) stack_ok_fits [OF S(1)]]])
    then show ?thesis
    proof (rule post_seq5)
      fix r p i q W
      assume x: "found (wk S) (\<lambda>x. 0) r p W"
      have pos: "post (last_done S) (finish_lookup E Y X op dir file p i q (U\<lparr>wk := W\<rparr>))" if "r > 0"
        by (rule finish_lookup_post [OF K _ _ S(6)]) (use x that U(2) in \<open>simp_all add: found_def\<close>)
      have neg: "last_done S (r, file, U\<lparr>wk := W\<rparr>)" if "r < 0"
        by (rule underway_done [OF under]) (use x that U(2) bad_gone [OF _ S(1)] in \<open>simp_all add: found_def\<close>)
      have slow: "post (last_done S) (open_slow E Y X op dir file (U\<lparr>wk := W\<rparr>))" if "r = 0"
        by (rule open_slow_post [OF K _ _ _ e(2) S(6)]) (use x that U(2) in \<open>simp_all add: found_def\<close>)
      show "post (last_done S)
        (if r > 0 then finish_lookup E Y X op dir file p i q (U\<lparr>wk := W\<rparr>)
         else if r < 0 then Inr (r, file, U\<lparr>wk := W\<rparr>)
         else bind_res (null_ok dir) (\<lambda>d.
         if nd_inode W \<noteq> kd_inode (w_dentry E (world W) d) \<or> in_rcu W then Inl KernelBug else open_slow E Y X op dir file (U\<lparr>wk := W\<rparr>)))"
        by (intro post_if post_null pos slow post_Inl) (use neg in simp_all)
    qed
  qed
  have create: "post (last_done S)
      (if error \<noteq> 0 then Inr (error, file, U)
       else bind_res (after_last h nm) (\<lambda>c. if c \<noteq> 0 then Inr (- EISDIR, file, U) else open_slow E Y X op dir file U))"
    if U: "underway False file S U" "error \<le> 0" "error = 0 \<longrightarrow> \<not> in_rcu (wk U)" "nd_depth (wk U) \<le> nd_depth (wk T)" for error U dir h nm
  proof -
    have "at_last S (wk U)" "outside U = outside S" using U(1,4) fref_closed [OF S(6)] ok_depth [OF T(1)] S(3) by (simp_all add: at_last_def underway_def)
    then have "post (last_done S) (open_slow E Y X op dir file U)" if "error = 0"
      using U(3) that by (intro open_slow_post [OF _ ok_refl _ _ e(2) S(6)]) auto
    then show ?thesis using underway_done [OF U(1)] U(2) by (intro post_if post_then) (simp_all add: EISDIR_def)
  qed
  have eq: "on_nd (\<lambda>W. W\<lparr>nd_flags := nd_flags W OR op_intent op\<rparr>) (on_nd (\<lambda>W. W\<lparr>nd_flags := nd_flags W AND NOT LOOKUP_PARENT\<rparr>) S) = T"
    by (simp add: on_nd_def T_def)
  have follow: "ok (wk S) (\<lambda>x. 0) (wk (on_nd (\<lambda>W. W\<lparr>nd_flags := nd_flags W OR LOOKUP_FOLLOW OR LOOKUP_DIRECTORY\<rparr>) T))"
    using T(1) by (simp add: on_nd_def)
  show ?thesis
    unfolding do_last_def Let_def eq
    by (intro post_if post_seq2(1) [OF dots] post_seq2(1) [OF complete_post [OF under [OF gT T(2)]]] create post_then [of _ _ "after_last _ _"] fast)
      (use T follow finish_open_post [OF _ S(6)] underway_done in \<open>auto simp del: post_bind\<close>)
qed

end
