(* ===== verification/Sys_Open_Claims.thy ===== *)
theory Sys_Open_Claims
  imports Sys_Open_Props Sys_Claims
begin

text \<open>
  An open as a whole: the links at the end of the path, files without a name, the retries. Whatever the rest of the kernel
  answers, an open that fails leaves the task as it was, and one that succeeds leaves it with the reference of the file.
\<close>

section \<open>Links at the end of the path\<close>

definition walked_open :: "'k task \<Rightarrow> int \<times> ofile \<times> 'k task \<Rightarrow> bool" where
  "walked_open S = (\<lambda>(e, file, T). gone (fref file) (wk S) (wk T) \<and> outside T = outside S)"

lemma walked_open_step:
  assumes "gone (\<lambda>x. 0) (wk S) (wk T)" "outside T = outside S" "walked_open T r"
  shows "walked_open S r"
proof -
  obtain e g U where r: "r = (e, g, U)" by (cases r)
  have "gone (fref g) (wk S) (wk U)"
    by (rule goneI [OF gone_trans [OF assms(1)], of "fref g"]) (use assms(3) in \<open>simp_all add: r walked_open_def\<close>)
  then show ?thesis using assms(2,3) by (simp add: r walked_open_def)
qed

lemma flags_cleared: "ok K f (W\<lparr>nd_flags := nd_flags W AND NOT (LOOKUP_OPEN OR LOOKUP_CREATE OR LOOKUP_EXCL)\<rparr>) = ok K f W"
proof (rule ok_frame(7))
  let ?c = "LOOKUP_OPEN OR LOOKUP_CREATE OR LOOKUP_EXCL"
  have c: "?c AND LOOKUP_RCU = 0" "?c AND LOOKUP_ROOT = 0" by (simp_all add: vfs_simps)
  show "same_mode (nd_flags W AND NOT ?c) (nd_flags W)"
    unfolding same_mode_def flag_bits(2) [OF c(1)] flag_bits(2) [OF c(2)] by simp
qed

lemma open_loop_post:
  assumes "env_ok E" "fuel_ok E" "open_flags_ok op"
  shows "ready s (wk S) \<Longrightarrow> \<not> is_opened fl \<Longrightarrow> post (walked_open S) (open_loop E Y X op n s fl S)"
proof (induction n arbitrary: s fl S)
  case (Suc n)
  have R: "stack_ok (wk S)" "rooted (wk S)" "last_ok (wk S)" using Suc.prems(1) by (simp_all add: ready_def)
  have walk: "post (\<lambda>(e, T). walked (wk S) e (wk T) \<and> outside T = outside S) (t_walk (link_path_walk E s) S)"
    by (rule t_walk_post, rule safe_mono [OF link_path_walk_safe [OF Suc.prems(1) assms(1,2)]]) auto
  have again: "post (walked_open S) (bind_res (t_walk (trailing_symlink E) U) (\<lambda>(s, V). open_loop E Y X op n s g V))"
    if U: "gone (\<lambda>x. 0) (wk S) (wk U)" "outside U = outside S" "nd_depth (wk U) = 1" "\<not> is_opened g" for U g
  proof -
    have link: "post (\<lambda>(r, V). gone (\<lambda>x. 0) (wk U) (wk V) \<and> ready r (wk V) \<and> outside V = outside S) (t_walk (trailing_symlink E) U)"
      by (rule t_walk_post, rule safe_mono [OF trailing_symlink_safe [OF gone_stack [OF U(1)] gone_rooted [OF U(1) R(2)] gone_last [OF U(1) R(3)] U(3) assms(1)]])
        (use U(2) in auto)
    have "post (walked_open S) (open_loop E Y X op n r g V)" if "gone (\<lambda>x. 0) (wk U) (wk V)" "ready r (wk V)" "outside V = outside S" for r V
      by (rule post_mono [OF Suc.IH [OF that(2) U(4)]], erule walked_open_step [rotated 2]) (use gone_step [OF U(1) that(1)] that(3) in simp_all)
    then show ?thesis by (intro post_seq2(1) [OF link]) auto
  qed
  have last: "post (walked_open S)
      (bind_res (do_last E Y X op fl T) (\<lambda>(e, g, U).
       if e > 0 then bind_res (t_walk (trailing_symlink E) (on_nd (\<lambda>W. W\<lparr>nd_flags := nd_flags W AND NOT (LOOKUP_OPEN OR LOOKUP_CREATE OR LOOKUP_EXCL)\<rparr>) U))
                       (\<lambda>(s, V). open_loop E Y X op n s g V)
       else Inr (e, g, U)))"
    if T: "gone (\<lambda>x. 0) (wk S) (wk T)" "outside T = outside S" "nd_depth (wk T) \<le> 1" for T
  proof -
    have dl: "post (\<lambda>(e, g, U). last_done T (e, g, U)) (do_last E Y X op fl T)"
      using do_last_post [OF gone_stack [OF T(1)] gone_rooted [OF T(1) R(2)] T(3) assms(1,3) Suc.prems(2)] by simp
    show ?thesis
    proof (rule post_seq2(2) [OF dl])
      fix e g U
      assume U: "last_done T (e, g, U)"
      let ?U = "on_nd (\<lambda>W. W\<lparr>nd_flags := nd_flags W AND NOT (LOOKUP_OPEN OR LOOKUP_CREATE OR LOOKUP_EXCL)\<rparr>) U"
      have fin: "walked_open S (e, g, U)" by (rule walked_open_step [OF T(1,2)]) (use U in \<open>simp add: last_done_def walked_open_def\<close>)
      have "post (walked_open S) (bind_res (t_walk (trailing_symlink E) ?U) (\<lambda>(s, V). open_loop E Y X op n s g V))" if "e > 0"
      proof (rule again)
        have g: "\<not> is_opened g" "nd_depth (wk U) = 1" using U that by (simp_all add: last_done_def)
        have gU: "gone (\<lambda>x. 0) (wk S) (wk U)" using fin fref_closed [OF g(1)] by (simp add: walked_open_def)
        have "ok (wk U) (\<lambda>x. 0) (wk ?U)" using flags_cleared [of "wk U" "\<lambda>x. 0" "wk U"] by (simp add: on_nd_def)
        from gone_step [OF gU ok_gone [OF this gone_stack [OF gU]]] show "gone (\<lambda>x. 0) (wk S) (wk ?U)" .
        show "outside ?U = outside S" using fin by (simp add: walked_open_def)
        show "nd_depth (wk ?U) = 1" "\<not> is_opened g" using g by (simp_all add: on_nd_def)
      qed
      then show "post (walked_open S)
          (if e > 0 then bind_res (t_walk (trailing_symlink E) ?U) (\<lambda>(s, V). open_loop E Y X op n s g V) else Inr (e, g, U))"
        using fin by (intro post_if) simp_all
    qed
  qed
  have "post (walked_open S)
      (if e \<noteq> 0 then Inr (e, fl, T)
       else bind_res (do_last E Y X op fl T) (\<lambda>(e, g, U).
       if e > 0 then bind_res (t_walk (trailing_symlink E) (on_nd (\<lambda>W. W\<lparr>nd_flags := nd_flags W AND NOT (LOOKUP_OPEN OR LOOKUP_CREATE OR LOOKUP_EXCL)\<rparr>) U))
                       (\<lambda>(s, V). open_loop E Y X op n s g V)
       else Inr (e, g, U)))" if "walked (wk S) e (wk T)" "outside T = outside S" for e T
    by (intro post_if last) (use that fref_closed [OF Suc.prems(2)] in \<open>simp_all add: walked_def walked_open_def\<close>)
  then show ?case
    unfolding open_loop.simps Let_def by (intro post_seq2(1) [OF walk]) (elim conjE)
qed simp

section \<open>The whole open\<close>

text \<open>The end of an attempt that started in \<open>S\<close>: what the task has more is \<open>f\<close>.\<close>

definition at_end :: "u32 \<Rightarrow> (nat + nat \<Rightarrow> int) \<Rightarrow> 'k task \<Rightarrow> 'k task \<Rightarrow> bool" where
  "at_end flags f S T \<longleftrightarrow> ended flags f (wk S) (wk T) \<and> outside T = outside S"

lemma at_endI: "at_end flags g S T \<Longrightarrow> (\<And>x. f x = g x) \<Longrightarrow> at_end flags f S T"
  by (simp add: at_end_def ended_def)

lemma ended_change:
  assumes "ended flags f W V" "\<And>x. refs U x = refs V x + g x" "rcu_nest U = rcu_nest V" "ishared U = ishared V" "nd_stack U = nd_stack V" "nd_heap U = nd_heap V"
    "nd_total_link_count U = nd_total_link_count V" "nd_name U = nd_name V" "nd_root U = nd_root V"
  shows "ended flags (\<lambda>x. f x + g x) W U"
  using assms by (simp add: ended_def begin_ok_def)

lemma put_sel [simp]:
  "nd_stack (dget d W) = nd_stack W" "nd_heap (dget d W) = nd_heap W" "nd_total_link_count (dget d W) = nd_total_link_count W" "nd_name (dget d W) = nd_name W"
  "nd_root (dget d W) = nd_root W" "ishared (dget d W) = ishared W"
  "nd_stack (dput d W) = nd_stack W" "nd_heap (dput d W) = nd_heap W" "nd_total_link_count (dput d W) = nd_total_link_count W" "nd_name (dput d W) = nd_name W"
  "nd_root (dput d W) = nd_root W"
  "nd_stack (path_get p W) = nd_stack W" "nd_heap (path_get p W) = nd_heap W" "nd_total_link_count (path_get p W) = nd_total_link_count W"
  "nd_name (path_get p W) = nd_name W" "nd_root (path_get p W) = nd_root W" "rcu_nest (path_get p W) = rcu_nest W" "ishared (path_get p W) = ishared W"
  "nd_stack (path_put p W) = nd_stack W" "nd_heap (path_put p W) = nd_heap W" "nd_total_link_count (path_put p W) = nd_total_link_count W"
  "nd_name (path_put p W) = nd_name W" "nd_root (path_put p W) = nd_root W"
  by (simp_all add: dget_def dput_def path_get_def path_put_def mntget_def mntput_def)

lemma at_end_world: "at_end flags f S T \<Longrightarrow> only_world T U \<Longrightarrow> at_end flags f S U"
  using ended_change [of flags f "wk S" "wk T" "wk U" "\<lambda>x. 0"] outside_world [of T U] by (auto simp: at_end_def only_world_def)

lemma at_end_change:
  assumes "at_end flags f S T" "\<And>x. refs U x = refs (wk T) x + g x" "rcu_nest U = rcu_nest (wk T)" "ishared U = ishared (wk T)" "nd_stack U = nd_stack (wk T)"
    "nd_heap U = nd_heap (wk T)" "nd_total_link_count U = nd_total_link_count (wk T)" "nd_name U = nd_name (wk T)" "nd_root U = nd_root (wk T)"
  shows "at_end flags (\<lambda>x. f x + g x) S (T\<lparr>wk := U\<rparr>)"
  using assms(1) ended_change [OF _ assms(2-9)] by (simp add: at_end_def)

lemma at_end_refs:
  "at_end flags f S T \<Longrightarrow> at_end flags (\<lambda>x. f x + d_ref (Some d) x) S (on_nd (dget (Some d)) T)"
  "at_end flags f S T \<Longrightarrow> at_end flags (\<lambda>x. f x + - d_ref (Some d) x) S (t_dput d T)"
  "at_end flags f S T \<Longrightarrow> at_end flags (\<lambda>x. f x + path_refs p x) S (on_nd (path_get p) T)"
  "at_end flags f S T \<Longrightarrow> at_end flags (\<lambda>x. f x + - path_refs p x) S (t_path_put p T)"
  unfolding t_dput_def t_path_put_def on_nd_def by (erule at_end_change; simp)+

lemma open_path_post:
  assumes "env_ok E" "fuel_ok E" "open_flags_ok op" "begin_ok (wk S)" "with_root flags \<longrightarrow> root_ok E (nd_root (wk S))" "\<not> is_opened file"
  shows "post (\<lambda>(e, g, T). at_end flags (fref g) S T) (open_path E Y X op flags file S)"
proof -
  have start: "post (\<lambda>(r, T). started flags (wk S) r (wk T) \<and> outside T = outside S) (t_walk (path_init E flags) S)"
    by (rule t_walk_post, rule safe_mono [OF path_init_safe]) (use assms in \<open>auto simp: begin_ok_def env_ok_def\<close>)
  have loop: "post (\<lambda>(e, g, U). walked_open T (e, g, U)) (open_loop E Y X op n r file T)" if "started flags (wk S) r (wk T)" for r T n
    using open_loop_post [OF assms(1-3) started_ready(1) [OF that assms(4,5)] assms(6)] by simp
  have fin: "post (\<lambda>(e, g, T). at_end flags (fref g) S T) (bind_res (terminate_walk E (wk U)) (\<lambda>W. Inr (e, g, U\<lparr>wk := W\<rparr>)))"
    if T: "started flags (wk S) r (wk T)" "outside T = outside S" "walked_open T (e, g, U)" for r T e g U
  proof -
    obtain K where K: "base flags (wk S) K" "ok K (\<lambda>x. 0) (wk T)" using T(1) unfolding started_def by blast
    have "gone (\<lambda>x. 0) K (wk T)" by (rule ok_gone [OF K(2) base_ok(1) [OF K(1) assms(4,5)]])
    from gone_trans [OF this] T(3) have "gone (fref g) K (wk U)" by (simp add: walked_open_def)
    from safe_post [OF end_walk_safe [OF K(1) this assms(4,5)]] show ?thesis
      by (rule post_seq) (use T(2,3) in \<open>simp add: at_end_def walked_open_def\<close>)
  qed
  show ?thesis
    unfolding open_path_def
    by (rule post_seq2(1) [OF start], elim conjE, rule post_seq2(2) [OF loop], assumption, rule fin)
qed

lemma open_file_end:
  assumes "at_end flags f S T" "\<not> is_opened file" "open_file h path file T = (e, g, U)"
  shows "at_end flags (\<lambda>x. f x + fref g x) S U"
proof -
  obtain w error mode where T': "ask (h path (f_mode file)) T = ((error, mode), T\<lparr>wk := (wk T)\<lparr>world := w\<rparr>\<rparr>)" (is "_ = (_, ?T)")
    by (cases "fst (h path (f_mode file) (now T))") (simp add: ask_eq)
  have t: "at_end flags f S ?T" by (rule at_end_world [OF assms(1)]) simp
  show ?thesis
  proof (cases "error = 0")
    case True
    then have g: "g = \<lparr>f_mode = mode OR FMODE_OPENED, f_path = path\<rparr>" "U = on_nd (path_get path) ?T"
      using assms(3) by (simp_all add: open_file_def T')
    show ?thesis by (rule at_endI, unfold g(2), rule at_end_refs(3) [OF t, of path]) (simp add: fref_def g(1) opened_bit)
  next
    case False
    then show ?thesis using assms(2,3) t fref_closed by (simp add: open_file_def T')
  qed
qed

lemma lookupat_end:
  assumes "env_ok E" "fuel_ok E" "begin_ok (wk S)" "with_root flags \<longrightarrow> root_ok E (nd_root (wk S))"
  shows "post (\<lambda>(e, p, W). at_end flags (\<lambda>x. case p of None \<Rightarrow> 0 | Some q \<Rightarrow> path_refs q x) S (S\<lparr>wk := W\<rparr>)) (path_lookupat E flags (wk S))"
  by (rule safe_post, rule safe_mono [OF path_lookupat_safe [OF assms(3,1,2,4)]]) (auto simp: balanced_ended at_end_def)

lemma do_o_path_post:
  assumes "env_ok E" "fuel_ok E" "begin_ok (wk S)" "with_root flags \<longrightarrow> root_ok E (nd_root (wk S))" "\<not> is_opened file"
  shows "post (\<lambda>(e, g, T). at_end flags (fref g) S T) (do_o_path E X flags file S)"
proof -
  have found: "post (\<lambda>(e, g, T). at_end flags (fref g) S T)
      (case open_file (o_vfs_open X) p file T of (e, g, U) \<Rightarrow> Inr (e, g, t_path_put p U))" if "at_end flags (path_refs p) S T" for p T
    by (rule post_prod, rule post_prod) (auto intro!: at_endI [OF at_end_refs(4) [OF open_file_end [OF that assms(5)]]])
  show ?thesis
    unfolding do_o_path_def Let_def
    by (rule post_seq2(2) [OF lookupat_end [OF assms(1-4)]], rule post_option) (use found fref_closed [OF assms(5)] in auto)
qed

text \<open>A file without a name is made while the task has write access to the mount.\<close>

definition write_to :: "nat \<Rightarrow> 'k task \<Rightarrow> 'k task" where
  "write_to m S = S\<lparr>writers := (writers S)(m := writers S m + 1)\<rparr>"

lemma at_end_want: "at_end flags f S T \<Longrightarrow> want_write Y m T = (e, U) \<Longrightarrow> at_end flags f (if e = 0 then write_to m S else S) U"
  using at_end_world [of flags f S T "T\<lparr>wk := (wk T)\<lparr>world := snd (y_want_write Y m (now T))\<rparr>\<rparr>"]
  by (auto simp: want_write_def ask_eq Let_def write_to_def at_end_def outside_def split: if_splits)

lemma at_end_drop: "at_end flags f (write_to m S) T \<Longrightarrow> at_end flags f S (drop_write Y m T)"
  using at_end_world [of flags f "write_to m S" T "T\<lparr>wk := (wk T)\<lparr>world := y_drop_write Y m (now T)\<rparr>\<rparr>"]
  by (auto simp: drop_write_def write_to_def at_end_def outside_def)

lemma permission_world: "post (\<lambda>(e, U). only_world T U) (t_walk (walk_permission E i msk) T)"
  by (auto simp: t_walk_def walk_permission_def null_ok_def Let_def split: option.split prod.split)

lemma vfs_tmpfile_post:
  assumes "at_end flags f S T"
  shows "post (\<lambda>(r, U). at_end flags (\<lambda>x. f x + (case r of Inl e \<Rightarrow> 0 | Inr d \<Rightarrow> d_ref (Some d) x)) S U) (vfs_tmpfile E Y X dir mode fl T)"
proof -
  let ?Q = "\<lambda>(r, U). at_end flags (\<lambda>x. f x + (case r of Inl e \<Rightarrow> 0 | Inr d \<Rightarrow> d_ref (Some d) x)) S U"
  have fail: "?Q (Inl e, U)" if "only_world T U" for e :: int and U using at_end_world [OF assms that] by simp
  have made: "post ?Q
      (if error \<noteq> 0 then Inr (Inl error, t_dput d V)
       else case kd_inode (w_dentry E (now V) d) of
         None \<Rightarrow> Inr (Inl (- ENOENT), t_dput d V)
       | Some i \<Rightarrow> Inr (Inr d, if fl AND O_EXCL = 0 then on_nd (\<lambda>W. W\<lparr>world := o_make_linkable X i (world W)\<rparr>) V else V))"
    if "only_world T U" "only_world (on_nd (dget (Some d)) U) V" for error d U V
  proof -
    have V: "at_end flags (\<lambda>x. f x + d_ref (Some d) x) S V" by (rule at_end_world [OF at_end_refs(1) [OF at_end_world [OF assms that(1)]] that(2)])
    have "at_end flags f S (t_dput d V)" by (rule at_endI [OF at_end_refs(2) [OF V, of d]]) simp
    then show ?thesis using V at_end_world [OF V] by (auto split: option.split)
  qed
  have alloc: "post ?Q (case new of
      None \<Rightarrow> Inr (Inl (- ENOMEM), U)
    | Some d \<Rightarrow> case ask (tmpfile d mode) (on_nd (dget (Some d)) U) of (error, V) \<Rightarrow>
        if error \<noteq> 0 then Inr (Inl error, t_dput d V)
        else case kd_inode (w_dentry E (now V) d) of
          None \<Rightarrow> Inr (Inl (- ENOENT), t_dput d V)
        | Some i \<Rightarrow> Inr (Inr d, if fl AND O_EXCL = 0 then on_nd (\<lambda>W. W\<lparr>world := o_make_linkable X i (world W)\<rparr>) V else V))"
    if "only_world T U" for new U tmpfile
    by (rule post_option, use fail [OF that] in simp, rule post_prod, rule made [OF that only_world_ask], assumption)
  show ?thesis
    unfolding vfs_tmpfile_def Let_def
    by (rule post_null, rule post_seq2(1) [OF permission_world], rule post_if, use fail in simp, rule post_option, use fail in simp,
        rule post_prod, rule alloc, erule only_world_trans, rule only_world_ask)
qed

lemma at_end_directory: "at_end (flags OR LOOKUP_DIRECTORY) = at_end flags" "with_root (flags OR LOOKUP_DIRECTORY) = with_root flags"
proof -
  show "with_root (flags OR LOOKUP_DIRECTORY) = with_root flags" by (simp add: with_root_def flag_bits flag_disjoint)
  then show "at_end (flags OR LOOKUP_DIRECTORY) = at_end flags" by (simp add: at_end_def ended_def fun_eq_iff)
qed

lemma do_tmpfile_post:
  assumes "env_ok E" "fuel_ok E" "begin_ok (wk S)" "with_root flags \<longrightarrow> root_ok E (nd_root (wk S))" "\<not> is_opened file"
  shows "post (\<lambda>(e, g, T). at_end flags (fref g) S T) (do_tmpfile E Y X flags op file S)"
proof -
  let ?Q = "\<lambda>(e :: int, g, T). at_end flags (fref g) S T"
  have start: "post (\<lambda>(e, p, W). at_end flags (\<lambda>x. case p of None \<Rightarrow> 0 | Some q \<Rightarrow> path_refs q x) S (S\<lparr>wk := W\<rparr>)) (path_lookupat E (flags OR LOOKUP_DIRECTORY) (wk S))"
    using lookupat_end [OF assms(1-3), of "flags OR LOOKUP_DIRECTORY"] assms(4) by (simp add: at_end_directory)
  have close: "?Q (e, g, t_path_put p (drop_write Y m U))" if "at_end flags (\<lambda>x. path_refs p x + fref g x) (write_to m S) U" for e g p m U
    using at_endI [OF at_end_refs(4) [OF at_end_drop [OF that]], of "fref g"] by simp
  have opened: "post ?Q (bind_res (t_may_open E X p 0 fl U) (\<lambda>(error, V).
      case if error \<noteq> 0 then (error, file, V) else open_file (o_finish_open X) p file V of
        (error, g, V) \<Rightarrow> Inr (error, g, t_path_put p (drop_write Y m V))))"
    if U: "at_end flags (path_refs p) (write_to m S) U" for p m U fl
  proof (rule post_seq2(1) [OF may_open_post])
    fix error V
    assume "only_world U V"
    then have V: "at_end flags (path_refs p) (write_to m S) V" by (rule at_end_world [OF U])
    have "?Q (e, g, t_path_put p (drop_write Y m W))" if "open_file (o_finish_open X) p file V = (e, g, W)" for e g W
      by (rule close [OF open_file_end [OF V assms(5) that]])
    moreover have "?Q (error, file, t_path_put p (drop_write Y m V))" by (rule close) (use V fref_closed [OF assms(5)] in simp)
    ultimately show "post ?Q (case if error \<noteq> 0 then (error, file, V) else open_file (o_finish_open X) p file V of
        (error, g, V) \<Rightarrow> Inr (error, g, t_path_put p (drop_write Y m V)))"
      by (cases "open_file (o_finish_open X) p file V") auto
  qed
  have made: "post ?Q (case r of
        Inl error \<Rightarrow> Inr (error, file, t_path_put p (drop_write Y m U))
      | Inr ch \<Rightarrow> bind_res (t_may_open E X (p\<lparr>p_dentry := Some ch\<rparr>) 0 fl (t_dput dir U)) (\<lambda>(error, V).
          case if error \<noteq> 0 then (error, file, V) else open_file (o_finish_open X) (p\<lparr>p_dentry := Some ch\<rparr>) file V of
            (error, g, V) \<Rightarrow> Inr (error, g, t_path_put (p\<lparr>p_dentry := Some ch\<rparr>) (drop_write Y m V))))"
    if "at_end flags (\<lambda>x. path_refs p x + (case r of Inl e \<Rightarrow> 0 | Inr d \<Rightarrow> d_ref (Some d) x)) (write_to m S) U" "p_dentry p = Some dir" for r p m U fl dir
  proof (cases r)
    case (Inl e)
    then show ?thesis using close [of p "file" m U e] that(1) fref_closed [OF assms(5)] by simp
  next
    case (Inr d)
    have "at_end flags (path_refs (p\<lparr>p_dentry := Some d\<rparr>)) (write_to m S) (t_dput dir U)"
      by (rule at_endI [OF at_end_refs(2) [OF that(1), of dir]]) (simp add: Inr path_refs_def that(2))
    from opened [OF this] show ?thesis by (simp add: Inr)
  qed
  have found: "post ?Q (case want_write Y m T of (error, U) \<Rightarrow>
      if error \<noteq> 0 then Inr (error, file, t_path_put p U)
      else bind_res (null_ok (p_dentry p)) (\<lambda>dir.
      bind_res (vfs_tmpfile E Y X dir mode fl U) (\<lambda>(r, U).
      case r of
        Inl error \<Rightarrow> Inr (error, file, t_path_put p (drop_write Y m U))
      | Inr ch \<Rightarrow> bind_res (t_may_open E X (p\<lparr>p_dentry := Some ch\<rparr>) 0 fl (t_dput dir U)) (\<lambda>(error, V).
          case if error \<noteq> 0 then (error, file, V) else open_file (o_finish_open X) (p\<lparr>p_dentry := Some ch\<rparr>) file V of
            (error, g, V) \<Rightarrow> Inr (error, g, t_path_put (p\<lparr>p_dentry := Some ch\<rparr>) (drop_write Y m V))))))"
    if T: "at_end flags (path_refs p) S T" for p m T mode fl
  proof (rule post_prod)
    fix error U
    assume w: "want_write Y m T = (error, U)"
    note U = at_end_want [OF T w]
    have "?Q (error, file, t_path_put p U)" if "error \<noteq> 0"
      using at_endI [OF at_end_refs(4) [of flags "path_refs p" S U p], of "fref file"] U that fref_closed [OF assms(5)] by simp
    moreover have "at_end flags (path_refs p) (write_to m S) U" if "error = 0" using U that by simp
    ultimately show "post ?Q (if error \<noteq> 0 then Inr (error, file, t_path_put p U)
      else bind_res (null_ok (p_dentry p)) (\<lambda>dir.
      bind_res (vfs_tmpfile E Y X dir mode fl U) (\<lambda>(r, U).
      case r of
        Inl error \<Rightarrow> Inr (error, file, t_path_put p (drop_write Y m U))
      | Inr ch \<Rightarrow> bind_res (t_may_open E X (p\<lparr>p_dentry := Some ch\<rparr>) 0 fl (t_dput dir U)) (\<lambda>(error, V).
          case if error \<noteq> 0 then (error, file, V) else open_file (o_finish_open X) (p\<lparr>p_dentry := Some ch\<rparr>) file V of
            (error, g, V) \<Rightarrow> Inr (error, g, t_path_put (p\<lparr>p_dentry := Some ch\<rparr>) (drop_write Y m V))))))"
      by (cases "p_dentry p"; intro post_if) (auto simp: null_ok_def simp del: post_bind intro!: post_seq2(1) [OF vfs_tmpfile_post] made)
  qed
  show ?thesis
    unfolding do_tmpfile_def Let_def
    by (rule post_seq2(2) [OF start], rule post_option) (use fref_closed [OF assms(5)] found in \<open>auto simp: null_ok_def simp del: post_bind split: option.split\<close>)
qed

section \<open>All attempts of an open\<close>

text \<open>A file from \<open>alloc_empty_file\<close> is not open yet.\<close>

definition files_start_closed :: "'k open_env \<Rightarrow> bool" where
  "files_start_closed X \<longleftrightarrow> (\<forall>flag w mode. fst (o_alloc_empty_file X flag w) = Inr mode \<longrightarrow> mode AND FMODE_OPENED = 0)"

definition opened_path :: "int + ofile \<Rightarrow> vpath option" where
  "opened_path r = (case r of Inl e \<Rightarrow> None | Inr g \<Rightarrow> Some (f_path g))"

definition opened_refs :: "int + ofile \<Rightarrow> nat + nat \<Rightarrow> int" where
  "opened_refs r x = (case r of Inl e \<Rightarrow> 0 | Inr g \<Rightarrow> path_refs (f_path g) x)"

lemma opened_refs_simps [simp]: "opened_refs (Inl e) = (\<lambda>x. 0)" "opened_refs (Inr g) = path_refs (f_path g)"
  by (simp_all add: opened_refs_def fun_eq_iff)

lemma fput_end: "at_end flags (fref g) S T \<Longrightarrow> at_end flags (\<lambda>x. 0) S (fput X g T)"
proof -
  assume T: "at_end flags (fref g) S T"
  let ?U = "on_nd (\<lambda>W. W\<lparr>world := o_fput X (f_path g) (f_mode g) (world W)\<rparr>) T"
  have U: "at_end flags (fref g) S ?U" by (rule at_end_world [OF T]) (simp add: on_nd_def)
  show ?thesis
  proof (cases "is_opened g")
    case True
    with at_endI [OF at_end_refs(4) [OF U, of "f_path g"], of "\<lambda>x. 0"] show ?thesis by (simp add: fput_def Let_def fref_def)
  next
    case False
    with U fref_closed [OF False] show ?thesis by (simp add: fput_def Let_def)
  qed
qed

lemma path_openat_post:
  assumes "env_ok E" "fuel_ok E" "open_flags_ok op" "files_start_closed X" "begin_ok (wk S)" "with_root flags \<longrightarrow> root_ok E (nd_root (wk S))"
  shows "post (\<lambda>(r, T). at_end flags (opened_refs r) S T) (path_openat E Y X op flags S)"
proof -
  obtain r w where r: "o_alloc_empty_file X (op_open_flag op) (now S) = (r, w)" by (cases "o_alloc_empty_file X (op_open_flag op) (now S)")
  let ?S = "S\<lparr>wk := (wk S)\<lparr>world := w\<rparr>\<rparr>"
  have start: "begin_ok (wk ?S)" "with_root flags \<longrightarrow> root_ok E (nd_root (wk ?S))" using assms(5,6) by (simp_all add: begin_ok_def)
  have here: "at_end flags f S T \<longleftrightarrow> at_end flags f ?S T" for f T by (simp add: at_end_def ended_def)
  have none: "at_end flags (\<lambda>x. 0) S ?S" using start(1) by (simp add: at_end_def ended_def)
  have work: "post (\<lambda>(e, g, T). at_end flags (fref g) S T)
      (if op_open_flag op AND O_TMPFILE_BIT \<noteq> 0 then do_tmpfile E Y X flags op g ?S
       else if op_open_flag op AND O_PATH \<noteq> 0 then do_o_path E X flags g ?S else open_path E Y X op flags g ?S)" if "\<not> is_opened g" for g
    unfolding here
    by (intro post_if do_tmpfile_post [OF assms(1,2) start that] do_o_path_post [OF assms(1,2) start that] open_path_post [OF assms(1-3) start that])
  have fin: "post (\<lambda>(r, T). at_end flags (opened_refs r) S T)
      (if e = 0 \<and> is_opened g then Inr (Inr g, T) else Inr (Inl (c e), fput X g T))" if "at_end flags (fref g) S T" for e :: int and g T c
    using fput_end [OF that] by (auto intro: at_endI [OF that] simp: fref_def)
  have closed: "\<not> is_opened \<lparr>f_mode = mode, f_path = null_path\<rparr>" if "r = Inr mode" for mode
    using assms(4) r that unfolding files_start_closed_def is_opened_def by (metis fst_conv ofile.select_convs(1))
  show ?thesis
  proof (cases r)
    case (Inl e)
    with none show ?thesis by (simp add: path_openat_def ask_eq r)
  next
    case (Inr mode)
    show ?thesis
      unfolding path_openat_def Let_def ask_eq r fst_conv snd_conv prod.case Inr sum.case
      by (rule post_seq2(2) [OF work [OF closed [OF Inr]]], rule fin)
  qed
qed

text \<open>An attempt that fails leaves the task as it was, so that the next one may start.\<close>

lemma at_end_root: "with_root g = with_root flags \<Longrightarrow> at_end g f S T = at_end flags f S T"
  by (simp add: at_end_def ended_def)

lemma at_end_trans: "at_end flags (\<lambda>x. 0) S T \<Longrightarrow> at_end flags f T U \<Longrightarrow> at_end flags f S U"
  by (simp add: at_end_def ended_def)

lemma open_retries_post:
  assumes attempt: "\<And>g T. begin_ok (wk T) \<Longrightarrow> (with_root g \<longrightarrow> root_ok E (nd_root (wk T))) \<Longrightarrow> post (\<lambda>(r, U). at_end g (opened_refs r) T U) (open_at g T)"
    and S: "begin_ok (wk S)" "with_root flags \<longrightarrow> root_ok E (nd_root (wk S))"
  shows "post (\<lambda>(r, T). at_end flags (opened_refs r) S T) (open_retries open_at flags S)"
proof -
  have step: "post (\<lambda>(r, U). at_end flags (opened_refs r) S U) (open_at g T)"
    if "at_end flags (\<lambda>x. 0) S T" "with_root g = with_root flags" for g T
  proof -
    have "begin_ok (wk T)" "with_root g \<longrightarrow> root_ok E (nd_root (wk T))" using that S(2) by (simp_all add: at_end_def ended_def)
    from attempt [OF this] show ?thesis
      by (rule post_mono) (auto simp: at_end_root [OF that(2)] intro: at_end_trans [OF that(1)])
  qed
  have first: "post (\<lambda>(r, T). at_end flags (opened_refs r) S T) (open_at (flags OR LOOKUP_RCU) S)"
    by (rule step) (use S(1) in \<open>simp_all add: at_end_def ended_def\<close>)
  have again: "post (\<lambda>(r, T). at_end flags (opened_refs r) S T) (if r = Inl e then open_at g T else Inr (r, T))"
    if "at_end flags (opened_refs r) S T" "with_root g = with_root flags" for r T e g
    by (intro post_if step) (use that in simp_all)
  show ?thesis
    unfolding open_retries_def
    by (rule post_seq2(1) [OF first], rule post_seq2(1) [OF again], assumption, simp, rule again, assumption, simp)
qed

lemma at_end_holding:
  assumes "at_end flags (opened_refs r) U T" "refs (wk U) = refs (wk S)" "rcu_nest (wk U) = rcu_nest (wk S)" "ishared (wk U) = ishared (wk S)" "outside U = outside S"
  shows "holding (on_nd (\<lambda>W. snd (restore_nameidata None W)) T) = with_path (opened_path r) (holding S)"
proof -
  obtain n V where V: "restore_nameidata None (wk T) = (n, V)" by (cases "restore_nameidata None (wk T)")
  show ?thesis
    using assms restore_sel [OF V]
    by (cases r) (simp_all add: opened_path_def on_nd_def V holding_def gain_def at_end_def ended_def outside_def fun_eq_iff)
qed

text \<open>An open leaves the task with the reference of the file it returns, and with nothing if it fails.\<close>

lemma do_filp_open_post:
  assumes "env_ok E" "fuel_ok E" "open_flags_ok op" "files_start_closed X" "cstring pathname"
  shows "post (\<lambda>(r, T). holding T = with_path (opened_path r) (holding S)) (do_filp_open E Y X dfd pathname op S)"
proof -
  let ?S = "on_nd (set_nameidata E dfd pathname None) S"
  have S: "refs (wk ?S) = refs (wk S)" "rcu_nest (wk ?S) = rcu_nest (wk S)" "ishared (wk ?S) = ishared (wk S)" "outside ?S = outside S"
    by (simp_all add: on_nd_def nameidata_refs)
  have "begin_ok (wk ?S)" unfolding on_nd_def by (simp add: begin_nameidata [OF assms(5)])
  moreover have "with_root (op_lookup_flags op) \<longrightarrow> root_ok E (nd_root (wk ?S))" using assms(3) by (simp add: open_flags_ok_def with_root_def)
  ultimately have "post (\<lambda>(r, T). at_end (op_lookup_flags op) (opened_refs r) ?S T) (open_retries (path_openat E Y X op) (op_lookup_flags op) ?S)"
    by (intro open_retries_post [where E = E] path_openat_post [OF assms(1-4)])
  then show ?thesis
    unfolding do_filp_open_def by (rule post_seq2(1)) (simp add: at_end_holding [OF _ S])
qed

lemma do_file_open_root_post:
  assumes "env_ok E" "fuel_ok E" "open_flags_ok op" "files_start_closed X" "name_ok name" "root_ok E path"
  shows "post (\<lambda>(r, T). holding T = with_path (opened_path r) (holding S)) (do_file_open_root E Y X path name op S)"
proof -
  let ?R = "on_nd (\<lambda>W. W\<lparr>nd_root := path\<rparr>) S"
  let ?flags = "op_lookup_flags op OR LOOKUP_ROOT"
  have R: "holding ?R = holding S" using refs_cong [of "wk ?R" "wk S"] by (simp add: holding_def on_nd_def)
  have walk: "post (\<lambda>(r, T). holding T = with_path (opened_path r) (holding S))
      (bind_res (open_retries (path_openat E Y X op) ?flags (on_nd (set_nameidata E (- 1) s None) ?R)) (\<lambda>(r, S). Inr (r, on_nd (\<lambda>W. snd (restore_nameidata None W)) S)))"
    if "cstring s" for s
  proof -
    let ?S = "on_nd (set_nameidata E (- 1) s None) ?R"
    have S: "refs (wk ?S) = refs (wk S)" "rcu_nest (wk ?S) = rcu_nest (wk S)" "ishared (wk ?S) = ishared (wk S)" "outside ?S = outside S"
      using refs_cong [of "wk ?R" "wk S"] by (simp_all add: on_nd_def nameidata_refs)
    have "begin_ok (wk ?S)" unfolding on_nd_def by (simp add: begin_nameidata [OF that])
    moreover have "with_root ?flags \<longrightarrow> root_ok E (nd_root (wk ?S))" using assms(6) by (simp add: on_nd_def set_nameidata_def)
    ultimately have "post (\<lambda>(r, T). at_end ?flags (opened_refs r) ?S T) (open_retries (path_openat E Y X op) ?flags ?S)"
      by (intro open_retries_post [where E = E] path_openat_post [OF assms(1-4)])
    then show ?thesis by (rule post_seq2(1)) (simp add: at_end_holding [OF _ S])
  qed
  show ?thesis
    unfolding do_file_open_root_def Let_def
    by (rule post_null, intro post_if) (use R walk assms(5) in \<open>auto simp: opened_path_def name_ok_def simp del: post_bind split: sum.split\<close>)
qed

section \<open>A small example\<close>

text \<open>
  In a cached tree with no other task at work, an open with \<open>O_PATH\<close> walks the whole path as a lookup does and opens
  what the name leads to.
\<close>

lemma o_path_open_runs:
  assumes "quiet E w m r D entries" "now S = w" "op_lookup_flags op AND LOOKUP_ROOT = 0" "op_lookup_flags op AND LOOKUP_DOWN = 0"
    "\<forall>c\<in>set cs. valid_component c" "length (rel_path cs) \<le> PATH_MAX" "length cs < w_fuel E"
    "resolve entries (node_up E w) (node_isdir E w) r cs r = Some t" "op_lookup_flags op AND LOOKUP_DIRECTORY \<noteq> 0 \<longrightarrow> node_isdir E w t"
    "op_open_flag op AND O_TMPFILE_BIT = 0" "op_open_flag op AND O_PATH \<noteq> 0"
    "o_alloc_empty_file X (op_open_flag op) w = (Inr mode, w)" "\<And>w. o_vfs_open X (place_on m t) mode w = ((0, mode'), w')"
  shows "\<exists>T. do_filp_open E Y X dfd (abs_path cs) op S = Inr (Inr \<lparr>f_mode = mode' OR FMODE_OPENED, f_path = place_on m t\<rparr>, T)"
proof -
  let ?S = "on_nd (set_nameidata E dfd (abs_path cs) None) S"
  let ?flags = "op_lookup_flags op"
  note rcu_flags = quiet_kernel.rcu_flags [OF quiet_kernel.intro [OF assms(1)]]
  have now: "now ?S = w" using assms(2) by (simp add: now_def on_nd_def set_nameidata_def)
  have "runs (\<lambda>(err, p, T). err = 0 \<and> p = Some (place_on m t)) (path_lookupat E (?flags OR LOOKUP_RCU) ((wk ?S)\<lparr>world := w\<rparr>))"
    by (rule quiet_kernel.path_lookupat_runs [OF quiet_kernel.intro [OF assms(1)] _ _ rcu_flags(1) _ _ assms(5-8)])
      (use assms(3,4,9) in \<open>simp_all add: set_nameidata_def rcu_flags on_nd_def\<close>)
  then obtain W where W: "path_lookupat E (?flags OR LOOKUP_RCU) ((wk ?S)\<lparr>world := w\<rparr>) = Inr (0, Some (place_on m t), W)" by (auto dest: runsD)
  have "path_openat E Y X op (?flags OR LOOKUP_RCU) ?S = Inr (Inr \<lparr>f_mode = mode' OR FMODE_OPENED, f_path = place_on m t\<rparr>, T)"
    if "T = t_path_put (place_on m t) (on_nd (path_get (place_on m t)) (?S\<lparr>wk := W\<lparr>world := w'\<rparr>\<rparr>))" for T
    using assms(10-13) W that
    by (simp add: path_openat_def ask_eq now do_o_path_def open_file_def is_opened_def opened_bit FMODE_OPENED_def Let_def)
  then show ?thesis by (simp add: do_filp_open_def open_retries_def)
qed

definition demo_open :: "unit open_env" where
  "demo_open = \<lparr>o_alloc_empty_file = (\<lambda>_ w. (Inr 0, w)), o_vfs_open = (\<lambda>_ mode w. ((0, mode), w)), o_finish_open = (\<lambda>_ mode w. ((0, mode), w)),
     o_fput = (\<lambda>_ _ w. w), o_ima_file_check = (\<lambda>_ _ w. (0, w)), o_get_write_access = (\<lambda>_ w. (0, w)), o_put_write_access = (\<lambda>_ w. w),
     o_locks_verify_locked = (\<lambda>_ _. 0), o_security_path_truncate = (\<lambda>_ _. 0), o_do_truncate = (\<lambda>_ w. (0, w)), o_mnt_nodev = (\<lambda>_ _. False),
     o_sb_i_nodev = (\<lambda>_ _. False), o_type_name = (\<lambda>_ _. []), o_alias = (\<lambda>_ _. None), o_tmpfile = (\<lambda>_ _. None), o_make_linkable = (\<lambda>_ w. w)\<rparr>"

definition demo_op :: open_flags where
  "demo_op = \<lparr>op_open_flag = O_PATH, op_mode = 0, op_acc_mode = 0, op_intent = LOOKUP_OPEN, op_lookup_flags = LOOKUP_FOLLOW\<rparr>"

lemma demo_open_ok: "open_flags_ok demo_op" "files_start_closed demo_open" "cstring (abs_path [[97], [98]])"
  by (simp_all add: open_flags_ok_def demo_op_def files_start_closed_def demo_open_def vfs_simps cstring_def abs_path_def PATH_MAX_def)

lemma demo_open_runs:
  "\<exists>T. do_filp_open demo_walk_env demo_sys demo_open AT_FDCWD (abs_path [[97], [98]]) demo_op demo_task =
     Inr (Inr \<lparr>f_mode = 0 OR FMODE_OPENED, f_path = place_on 0 2\<rparr>, T)"
  by (rule o_path_open_runs [OF demo_quiet])
    (simp_all add: demo_op_def demo_open_def vfs_simps valid_component_def PATH_MAX_def walk_to_def demo_child_def node_up_def node_isdir_def demo_node_def
      demo_walk_env_def)

section \<open>Properties\<close>

text \<open>
  C10: Whatever the rest of the kernel answers, and on whatever path it returns, an open leaves the task with one reference
  to the dentry and one to the mount of the file it returns, and with none if it fails. Links at the end of the path, the
  creation of the file, files without a name, the truncation, the retries and the errors of all of them included, the inode locks, the rename
  mutex, the references to inodes, the write accesses to mounts and the RCU read sections are those of before.
\<close>
theorem open_leaves_only_the_file:
  assumes "env_ok E" "fuel_ok E" "open_flags_ok op" "files_start_closed X" "cstring pathname" "do_filp_open E Y X dfd pathname op S = Inr (r, T)"
  shows "irefs T = irefs S \<and> held_inode T = held_inode S \<and> held_rename T = held_rename S \<and> writers T = writers S \<and>
    ishared (wk T) = ishared (wk S) \<and> rcu_nest (wk T) = rcu_nest (wk S) \<and>
    (\<forall>d. dref (wk T) d = dref (wk S) d + (if \<exists>g. r = Inr g \<and> p_dentry (f_path g) = Some d then 1 else 0)) \<and>
    (\<forall>m. mref (wk T) m = mref (wk S) m + (if \<exists>g. r = Inr g \<and> p_mnt (f_path g) = Some m then 1 else 0))"
proof -
  have H: "holding T = with_path (opened_path r) (holding S)"
    using postD [OF do_filp_open_post [OF assms(1-5), of S Y dfd] assms(6)] by simp
  then have refs: "refs (wk T) x = refs (wk S) x + (case opened_path r of None \<Rightarrow> 0 | Some q \<Rightarrow> path_refs q x)" for x
    by (cases r) (simp_all add: opened_path_def holding_def gain_def)
  have path: "(\<exists>q. opened_path r = Some q \<and> P q) \<longleftrightarrow> (\<exists>g. r = Inr g \<and> P (f_path g))" for P by (cases r) (simp_all add: opened_path_def)
  from refs_split [OF refs] H show ?thesis
    by (cases r) (simp_all add: path opened_path_def holding_def gain_def)
qed

theorem open_leaves_only_the_file_witness:
  "\<exists>T. do_filp_open demo_walk_env demo_sys demo_open AT_FDCWD (abs_path [[97], [98]]) demo_op demo_task =
     Inr (Inr \<lparr>f_mode = FMODE_OPENED, f_path = place_on 0 2\<rparr>, T) \<and> dref (wk T) 2 = 1 \<and> dref (wk T) 1 = 0 \<and> mref (wk T) 0 = 1 \<and> rcu_nest (wk T) = 0"
proof -
  obtain T where T: "do_filp_open demo_walk_env demo_sys demo_open AT_FDCWD (abs_path [[97], [98]]) demo_op demo_task =
     Inr (Inr \<lparr>f_mode = FMODE_OPENED, f_path = place_on 0 2\<rparr>, T)" using demo_open_runs by auto
  from open_leaves_only_the_file [OF demo_env_ok demo_open_ok T] T show ?thesis by (simp add: demo_task_def demo_walk_def place_on_def)
qed

end
