(* ===== verification/Spec2Isabelle.thy ===== *)
theory Spec2Isabelle
  imports Kv_Table Dir_Props Mount_Props File_Ops Type_Props Vfs_Props Vfs_Mknod_Props Vfs_Name_Props Inode_Life Path_Lba Sys_Claims Walk_Other_Props Sys_Open_Claims
begin

text \<open>
  A model of Flatfs, a Linux file system module that keeps no directory files: the place of an
  inode and of the data of a file follows from the directory id, a hash bucket and a slot. Files of
  the repository are named relative to \<open>src/\<close>.

  \<^bold>\<open>The program and how its parts interact.\<close> The kernel calls the operation tables of
  \<open>flatfs/inode.c\<close>, \<open>flatfs/file.c\<close> and \<open>flatfs/super.c\<close>. Mounting (\<open>super.c\<close>) builds an in-memory
  superblock with a tree of directories (\<open>flatfs/dir.c\<close>) and one hash table of files per directory
  (\<open>flatfs/lba.c\<close>); a directory whose bucket is full gets a second, larger table. Creating a file takes a
  slot from the table, which fixes the inode number and the block addresses (\<open>lba.c\<close>, \<open>lba.h\<close>,
  \<open>flatfs_d.h\<close>); the dirty-inode hook of \<open>super.c\<close> copies the inode into its page. Looking a name up asks
  the directory tree, then the inode page of the name's bucket. Unlinking clears the slot in the
  page and gives it back to the table when the write completes. \<open>flatfs/cuckoo_hash.c\<close> over
  \<open>flatfs/hash.c\<close> is a key-value table that an earlier version kept inode sizes in. \<open>extra/namei.c\<close> and
  \<open>extra/fs.h\<close> are kernel files; \<open>lookup_open\<close> is changed to take a global spin lock around flatfs.

  \<^bold>\<open>Conventions\<close> (\<open>Flatfs_Prelude\<close>). Unsigned integers are words of their width, a C \<open>int\<close> is an
  \<open>int\<close> with \<open>cint\<close> written where C wraps it. An operation returns \<open>Inr\<close> of its C result and the new state,
  or \<open>Inl\<close> of the reason it never returns normally: a lock nobody releases, an index outside an array, a null or
  freed pointer, a \<open>BUG_ON\<close>. Error codes are ordinary results. What C leaves open about the target
  is the record \<open>platform\<close>. What the rest of the kernel supplies (allocations, time, credentials,
  the device, security hooks, the contents of fresh memory) is an argument: \<open>kenv\<close>, \<open>mount_env\<close>,
  \<open>vfs_env\<close>, \<open>walk_env\<close>, \<open>sys_env\<close>, \<open>open_env\<close>, \<open>move_env\<close>, \<open>open_args\<close>, \<open>word_ops\<close>, \<open>byte_ops\<close>, or a plain parameter.

  \<^bold>\<open>Theories, sources and results.\<close>
  \<^item> \<open>Bitmap\<close>: the kernel's bitmaps as word lists, with the interface \<open>bitmap_api\<close> that the allocators
    rely on and its interpretation.
  \<^item> \<open>Strhash\<close> (\<open>hash.c\<close>): the string hash; it does not depend on alignment and is injective on keys
    of eight bytes and in the seed.
  \<^item> \<open>Cuckoo\<close>, \<open>Cuckoo_Insert\<close>, \<open>Cuckoo_Resize\<close>, \<open>Kv_Table\<close> (\<open>cuckoo_hash.c\<close>): the table with its
    eviction paths and resizing. \<open>Kv_Table\<close> states the contract of a key-value table as a locale,
    interprets it on the cuckoo table and derives the refinement of a finite map, the invariant of all
    reachable tables, and that a resize always succeeds. The search for an eviction path visits at
    most \<open>MAX_EVICTION\<close> nodes, as in the code; the seed loop is a partial function, and it is proved to
    return once the random source delivers one good pair. The table keeps the length of its allocation, a
    product that wraps around at 64 bits; \<open>table_fits\<close> says that the memory holds all buckets, and in a
    reachable table it does exactly when that product of the capacity does not wrap.
  \<^item> \<open>Lba_Layout\<close> (\<open>flatfs_d.h\<close>, \<open>lba.h\<close>, \<open>lba.c\<close>): inode numbers and addresses; data addresses are unique,
    inode page addresses are not.
  \<^item> \<open>File_Table\<close> (\<open>lba.c\<close>): the tables of files. The locale \<open>slot_allocator\<close> is interpreted on both kinds
    of table; the properties are freshness of the slot, refusal when full, the release of a slot, and what goes wrong with locks and
    big tables. \<open>Big_Table\<close>: what holds of the table of a big directory instead of the count of its slots.
  \<^item> \<open>Dir_Tree\<close> (\<open>dir.c\<close>), \<open>Dir_Lists\<close>, \<open>Dir_Props\<close>: the directory tree as an array of entries and a heap
    of doubly linked list nodes. \<open>tree_ok\<close> relates the heap to the list of children of each
    directory; creation, lookup, listing and removal are proved against it. The recursive release of the tree
    takes fuel, since nothing in the code bounds its depth; a run that uses up the fuel is
    told apart from one that fails.
  \<^item> \<open>Buffer_Cache\<close>, \<open>Inode_State\<close> (\<open>super.c\<close>), \<open>File_Lookup\<close> (\<open>lba.c\<close>, \<open>ffs_readdir\<close> of \<open>file.c\<close>), \<open>Inode_Ops\<close>
    (\<open>inode.c\<close>), \<open>Super\<close> (\<open>super.c\<close>), \<open>File_Ops\<close> (\<open>file.c\<close>): blocks as byte lists with the layout of the on-disk
    structures, buffer heads with their locks, inodes by address, and every operation of the module over the
    state \<open>ffs_state\<close>. The completion of a write is an operation of its own; taking the lock of a buffer with a
    write in flight, or waiting for it, runs it. Which address the slab cache gives the next inode is part of the
    state (\<open>slab\<close>) and may change at any time, to any address not in use, those of freed inodes included.
  \<^item> \<open>Page_Lemmas\<close>, \<open>Create_Lemmas\<close>: how a name is stored in and found on a page. \<open>Inode_Props\<close>,
    \<open>Mkdir_Props\<close>, \<open>Unlink_Props\<close>, \<open>Mount_Props\<close>: what creation, mkdir, rmdir, unlink, lookup and mount do as wholes.
    \<open>Type_Props\<close>: the operations keep the type of every inode.
  \<^item> \<open>Vfs_Perm\<close>, \<open>Vfs_Ops\<close>, \<open>Vfs_Name\<close> (\<open>extra/namei.c\<close>, \<open>extra/fs.h\<close>): access checks, the VFS operations that
    call the module, the last step of an open, and the hashing of path components. \<open>Vfs_Props\<close>,
    \<open>Vfs_Mknod_Props\<close>, \<open>Vfs_Name_Props\<close>: the POSIX access rule, the lock discipline, opening a new file, the
    types of what is made, and the agreement of the two component hashes. The loop of \<open>lookup_open\<close> that allocates
    a dentry runs over the list of answers of the dcache; the hash loops over memory are partial functions
    which are proved to return.
  \<^item> \<open>Vfs_Rename\<close>, \<open>Vfs_Rename_Props\<close> (\<open>extra/namei.c\<close>): symbolic and hard links and renames at the level of the VFS operations,
    with the locks of the parents and of the victims. \<open>simple_link\<close> and \<open>simple_rename\<close> of the kernel's library, which the
    module installs, are arguments. A rename gives back every lock it takes, and moves the dentry only when it succeeds.
  \<^item> \<open>Module_Run\<close>, \<open>Inode_Life\<close>: any run of the module after a mount, as a step relation over all of its
    operations and the eviction of inodes, with the invariant of the reachable states by rule
    induction (locale \<open>invariant_of\<close>), and what a run keeps of an inode. \<open>Res_Post\<close>: the
    postcondition calculus of these proofs.
  \<^item> \<open>Path_Lba\<close> (\<open>flatfs_d.c\<close>): the addresses an earlier design computed from paths; they collide, and the search
    for the depth need not end.
  \<^item> \<open>Walk_State\<close>, \<open>Walk_Step\<close>, \<open>Path_Walk\<close> (\<open>extra/namei.c\<close>): the path walk, from \<open>filename_lookup\<close> and
    \<open>filename_parentat\<close> down to the reference counts, with RCU mode, mount points, automounts and symbolic
    links. The dcache, the mount table and the file systems are the record \<open>walk_env\<close> of functions on an
    arbitrary type of worlds, so other tasks may change anything between two calls. \<open>Walk_Refs\<close>, \<open>Walk_Unlazy\<close>,
    \<open>Walk_Moves\<close>, \<open>Walk_Mounts\<close>, \<open>Walk_Lookup\<close>, \<open>Walk_Links\<close>, \<open>Walk_Names\<close>, \<open>Walk_Safe\<close>, \<open>Walk_End\<close>: no step changes the number of
    references of the task less what the walk holds, none overruns the stack of links or a string, and
    every round of \<open>link_path_walk\<close> uses up part of what is left to resolve. \<open>Walk_Static\<close>: what a walk computes in
    a kernel where nothing interferes (locale \<open>quiet_kernel\<close>). \<open>Walk_Props\<close>: the properties, the interface \<open>component_hash\<close>
    that both versions of \<open>hash_name\<close> provide, and a small tree that meets all conditions. The loops of the walk and
    those that only other tasks can end take \<open>w_fuel\<close> rounds; 41 pages of names are enough for the former, which is proved,
    and the latter end as \<open>Livelock\<close>.
  \<^item> \<open>Walk_Other\<close> (\<open>extra/namei.c\<close>): the lookup of one component for file systems (\<open>lookup_one_len\<close> and its kin) and of a
    path to be unmounted (\<open>filename_mountpoint\<close>). \<open>Walk_Other_Props\<close>: the first refuses exactly the names that no entry can
    have and returns with one reference or none; the second keeps the balance of a walk.
  \<^item> \<open>Sys_Paths\<close>, \<open>Sys_Move\<close> (\<open>extra/namei.c\<close>): the system calls that create, delete, link and rename, which join the path walk
    and the operations of the VFS. The state is that of the walk with the locks, write accesses and inode references of the task; worlds
    contain the state of the file system. \<open>Sys_Holding\<close>: what a task holds, and the lookups; \<open>Sys_Props\<close>: no call leaves anything
    behind; \<open>Sys_Claims\<close>: this for any sequence of calls, and what \<open>mknod\<close> does in a tree where nothing interferes. Waiting for
    delegations of files takes \<open>w_fuel\<close> rounds at most.
  \<^item> \<open>Sys_Open\<close> (\<open>extra/namei.c\<close>): opening a file by name, \<open>do_filp_open\<close> and \<open>do_file_open_root\<close>: the labels of \<open>do_last\<close> around
    \<open>lookup_open\<close> of \<open>Vfs_Ops\<close>, links at the end of the path, files without a name, \<open>O_PATH\<close>, the retries. The loops over links and over
    stale dentries take \<open>w_fuel\<close> rounds at most. \<open>Sys_Open_Lookup\<close> and \<open>Sys_Open_Props\<close>: what \<open>lookup_open\<close> and \<open>do_last\<close> leave of the walk, the locks
    and the write access; \<open>Sys_Open_Claims\<close>: an open leaves the task with the reference of the file it returns and nothing else, and
    what an \<open>O_PATH\<close> open returns in a tree where nothing interferes.

  \<^bold>\<open>Not modelled.\<close> Logging (\<open>print_cuckoo\<close>, \<open>print2log\<close>, the \<open>printk\<close> calls). Wrappers that only forward to the
    kernel (\<open>flatfs_mount\<close>, \<open>flatfs_kill_sb\<close>, \<open>flatfs_mmu_get_unmapped_area\<close>). Of \<open>extra/namei.c\<close> copying names from
    user space and reading links; of \<open>extra/fs.h\<close> what is only
    declared. Parallel execution of the module: an operation runs to its end, and a lock that is held when it is taken is
    a deadlock; in the path walk other tasks may change the world between any two calls.
\<close>

end
